(* ===== verification/Rusmes_Prelude.thy ===== *)
theory Rusmes_Prelude
  imports Main "HOL-Library.Word" "HOL-Library.Sublist"
begin

text \<open>
  Shared vocabulary of the development.

  A Rust \<^verbatim>\<open>String\<close>/\<^verbatim>\<open>&str\<close> is modelled by the list of its UTF-8 bytes (Isabelle
  \<^typ>\<open>string\<close>, one \<^typ>\<open>char\<close> per byte), so \<^verbatim>\<open>len()\<close> is \<^const>\<open>length\<close>; a Rust
  \<^verbatim>\<open>char\<close> is the byte string of its encoding, and \<open>utf8_chars\<close> is \<^verbatim>\<open>chars()\<close>.
  A \<^verbatim>\<open>Result<T, E>\<close> is \<open>'e + 't\<close> with \<^const>\<open>Inl\<close> for \<^verbatim>\<open>Err\<close>; an
  \<^verbatim>\<open>anyhow::Error\<close> is its message.  \<^verbatim>\<open>usize\<close> is 64 bits wide.

  The theory holds the parts of the Rust standard library that the sources use (character
  classes, trimming, line splitting, decimal printing and parsing, lossy UTF-8 decoding), the
  collections of simplification rules, and the locale \<open>invariant_machine\<close> through which
  every state machine of the development lifts a one-step invariant to whole runs.
\<close>

named_theorems byte_simps \<open>unfolding of the byte and character classes\<close>
named_theorems resp_simps \<open>response constructors and their selectors\<close>

type_synonym 'a result = "string + 'a"
type_synonym u64 = "64 word"

abbreviation code_of :: "char \<Rightarrow> nat" where
  "code_of c \<equiv> of_char c"

section \<open>Machine integers\<close>

definition usize_max :: nat where
  "usize_max = 2 ^ 64 - 1"

definition u32_max :: nat where
  "u32_max = 2 ^ 32 - 1"

text \<open>\<^verbatim>\<open>a + b\<close> on \<^verbatim>\<open>usize\<close> in a release build (no profile of the workspace turns overflow
  checks on).\<close>

definition usize_add :: "nat \<Rightarrow> nat \<Rightarrow> nat" where
  "usize_add a b = (a + b) mod 2 ^ 64"

definition usize_saturating_add :: "nat \<Rightarrow> nat \<Rightarrow> nat" where
  "usize_saturating_add a b = min (a + b) usize_max"

lemma usize_add_exact: "a + b \<le> usize_max \<Longrightarrow> usize_add a b = a + b"
  by (simp add: usize_add_def usize_max_def)

lemma usize_saturating_add_exact: "a + b \<le> usize_max \<Longrightarrow> usize_saturating_add a b = a + b"
  by (simp add: usize_saturating_add_def)

lemma usize_saturating_add_le_iff:
  "m < usize_max \<Longrightarrow> usize_saturating_add a b \<le> m \<longleftrightarrow> a + b \<le> m"
  by (auto simp: usize_saturating_add_def)

section \<open>Characters\<close>

definition is_ascii_digit :: "char \<Rightarrow> bool" where
  [byte_simps]: "is_ascii_digit c \<longleftrightarrow> 48 \<le> code_of c \<and> code_of c \<le> 57"

definition is_ascii_upper :: "char \<Rightarrow> bool" where
  [byte_simps]: "is_ascii_upper c \<longleftrightarrow> 65 \<le> code_of c \<and> code_of c \<le> 90"

definition is_ascii_lower :: "char \<Rightarrow> bool" where
  [byte_simps]: "is_ascii_lower c \<longleftrightarrow> 97 \<le> code_of c \<and> code_of c \<le> 122"

definition is_ascii_alphanumeric :: "char \<Rightarrow> bool" where
  [byte_simps]:
  "is_ascii_alphanumeric c \<longleftrightarrow> is_ascii_digit c \<or> is_ascii_upper c \<or> is_ascii_lower c"

definition is_ascii_hexdigit :: "char \<Rightarrow> bool" where
  [byte_simps]: "is_ascii_hexdigit c \<longleftrightarrow> is_ascii_digit c \<or>
     (65 \<le> code_of c \<and> code_of c \<le> 70) \<or> (97 \<le> code_of c \<and> code_of c \<le> 102)"

definition to_lower :: "char \<Rightarrow> char" where
  "to_lower c = (if is_ascii_upper c then char_of (code_of c + 32) else c)"

definition to_upper :: "char \<Rightarrow> char" where
  "to_upper c = (if is_ascii_lower c then char_of (code_of c - 32) else c)"

abbreviation to_ascii_lowercase :: "string \<Rightarrow> string" where
  "to_ascii_lowercase s \<equiv> map to_lower s"

abbreviation to_ascii_uppercase :: "string \<Rightarrow> string" where
  "to_ascii_uppercase s \<equiv> map to_upper s"

definition eq_ignore_ascii_case :: "string \<Rightarrow> string \<Rightarrow> bool" where
  "eq_ignore_ascii_case a b \<longleftrightarrow> to_ascii_lowercase a = to_ascii_lowercase b"

lemma code_of_to_lower: "is_ascii_upper c \<Longrightarrow> code_of (to_lower c) = code_of c + 32"
  by (simp add: to_lower_def is_ascii_upper_def)

lemma to_lower_literals [simp]:
  "to_lower (CHR ''A'') = CHR ''a''"
  "to_lower (CHR ''B'') = CHR ''b''"
  "to_lower (CHR ''C'') = CHR ''c''"
  "to_lower (CHR ''D'') = CHR ''d''"
  "to_lower (CHR ''E'') = CHR ''e''"
  "to_lower (CHR ''F'') = CHR ''f''"
  "to_lower (CHR ''G'') = CHR ''g''"
  "to_lower (CHR ''H'') = CHR ''h''"
  "to_lower (CHR ''I'') = CHR ''i''"
  "to_lower (CHR ''J'') = CHR ''j''"
  "to_lower (CHR ''K'') = CHR ''k''"
  "to_lower (CHR ''L'') = CHR ''l''"
  "to_lower (CHR ''M'') = CHR ''m''"
  "to_lower (CHR ''N'') = CHR ''n''"
  "to_lower (CHR ''O'') = CHR ''o''"
  "to_lower (CHR ''P'') = CHR ''p''"
  "to_lower (CHR ''Q'') = CHR ''q''"
  "to_lower (CHR ''R'') = CHR ''r''"
  "to_lower (CHR ''S'') = CHR ''s''"
  "to_lower (CHR ''T'') = CHR ''t''"
  "to_lower (CHR ''U'') = CHR ''u''"
  "to_lower (CHR ''V'') = CHR ''v''"
  "to_lower (CHR ''W'') = CHR ''w''"
  "to_lower (CHR ''X'') = CHR ''x''"
  "to_lower (CHR ''Y'') = CHR ''y''"
  "to_lower (CHR ''Z'') = CHR ''z''"
  "to_lower (CHR ''a'') = CHR ''a''"
  "to_lower (CHR ''b'') = CHR ''b''"
  "to_lower (CHR ''c'') = CHR ''c''"
  "to_lower (CHR ''d'') = CHR ''d''"
  "to_lower (CHR ''e'') = CHR ''e''"
  "to_lower (CHR ''f'') = CHR ''f''"
  "to_lower (CHR ''g'') = CHR ''g''"
  "to_lower (CHR ''h'') = CHR ''h''"
  "to_lower (CHR ''i'') = CHR ''i''"
  "to_lower (CHR ''j'') = CHR ''j''"
  "to_lower (CHR ''k'') = CHR ''k''"
  "to_lower (CHR ''l'') = CHR ''l''"
  "to_lower (CHR ''m'') = CHR ''m''"
  "to_lower (CHR ''n'') = CHR ''n''"
  "to_lower (CHR ''o'') = CHR ''o''"
  "to_lower (CHR ''p'') = CHR ''p''"
  "to_lower (CHR ''q'') = CHR ''q''"
  "to_lower (CHR ''r'') = CHR ''r''"
  "to_lower (CHR ''s'') = CHR ''s''"
  "to_lower (CHR ''t'') = CHR ''t''"
  "to_lower (CHR ''u'') = CHR ''u''"
  "to_lower (CHR ''v'') = CHR ''v''"
  "to_lower (CHR ''w'') = CHR ''w''"
  "to_lower (CHR ''x'') = CHR ''x''"
  "to_lower (CHR ''y'') = CHR ''y''"
  "to_lower (CHR ''z'') = CHR ''z''"
  "to_lower (CHR '' '') = CHR '' ''"
  "to_lower (CHR '':'') = CHR '':''"
  "to_lower (CHR ''-'') = CHR ''-''"
  "to_lower (CHR ''='') = CHR ''=''"
  "to_lower (CHR ''.'') = CHR ''.''"
  "to_lower (CHR ''@'') = CHR ''@''"
  "to_lower (CHR ''<'') = CHR ''<''"
  "to_lower (CHR ''>'') = CHR ''>''"
  "to_lower (CHR ''0'') = CHR ''0''"
  "to_lower (CHR ''1'') = CHR ''1''"
  "to_lower (CHR ''2'') = CHR ''2''"
  "to_lower (CHR ''3'') = CHR ''3''"
  "to_lower (CHR ''4'') = CHR ''4''"
  "to_lower (CHR ''5'') = CHR ''5''"
  "to_lower (CHR ''6'') = CHR ''6''"
  "to_lower (CHR ''7'') = CHR ''7''"
  "to_lower (CHR ''8'') = CHR ''8''"
  "to_lower (CHR ''9'') = CHR ''9''"
  by code_simp+

lemma to_lower_not_upper [simp]: "\<not> is_ascii_upper (to_lower c)"
proof (cases "is_ascii_upper c")
  case True
  then have "code_of (to_lower c) = code_of c + 32"
    by (rule code_of_to_lower)
  with True show ?thesis by (simp add: is_ascii_upper_def)
next
  case False
  then show ?thesis by (simp add: to_lower_def)
qed

lemma to_lower_idem [simp]: "to_lower (to_lower c) = to_lower c"
  by (simp add: to_lower_def [of "to_lower c"])

lemma to_ascii_lowercase_idem [simp]:
  "to_ascii_lowercase (to_ascii_lowercase s) = to_ascii_lowercase s"
  by simp

lemma eq_ignore_ascii_case_refl [simp]: "eq_ignore_ascii_case a a"
  by (simp add: eq_ignore_ascii_case_def)

lemma eq_ignore_ascii_case_length: "eq_ignore_ascii_case a b \<Longrightarrow> length a = length b"
  unfolding eq_ignore_ascii_case_def by (metis length_map)

text \<open>Bytes as machine words, for the code that computes on \<^verbatim>\<open>u8\<close>.\<close>

definition byte_of :: "char \<Rightarrow> 8 word" where
  "byte_of c = of_nat (code_of c)"

definition chr_of :: "8 word \<Rightarrow> char" where
  "chr_of w = char_of (unat w)"

lemma chr_of_byte_of [simp]: "chr_of (byte_of c) = c"
proof -
  have "code_of c < 256" by simp
  then show ?thesis by (simp add: chr_of_def byte_of_def unat_of_nat take_bit_nat_eq_self)
qed

lemma byte_of_inject [simp]: "byte_of a = byte_of b \<longleftrightarrow> a = b"
  by (metis chr_of_byte_of)

section \<open>Searching and splitting\<close>

definition starts_with :: "'a list \<Rightarrow> 'a list \<Rightarrow> bool" where
  "starts_with s p \<longleftrightarrow> take (length p) s = p"

definition ends_with :: "'a list \<Rightarrow> 'a list \<Rightarrow> bool" where
  "ends_with s p \<longleftrightarrow> starts_with (rev s) (rev p)"

lemma ends_with_iff: "ends_with s p \<longleftrightarrow> (\<exists>r. s = r @ p)"
proof
  assume "ends_with s p"
  then have "rev s = rev p @ drop (length p) (rev s)"
    using append_take_drop_id [of "length p" "rev s"] by (simp add: ends_with_def starts_with_def)
  then have "s = rev (drop (length p) (rev s)) @ p" by (metis rev_append rev_rev_ident)
  then show "\<exists>r. s = r @ p" ..
qed (auto simp: ends_with_def starts_with_def)

fun str_contains :: "string \<Rightarrow> string \<Rightarrow> bool" where
  "str_contains [] p = (p = [])"
| "str_contains (c # cs) p = (starts_with (c # cs) p \<or> str_contains cs p)"

text \<open>\<^verbatim>\<open>str::split(char)\<close>: always at least one piece.\<close>

fun split_on :: "char \<Rightarrow> string \<Rightarrow> string list" where
  "split_on d [] = [[]]"
| "split_on d (c # cs) =
     (if c = d then [] # split_on d cs
      else case split_on d cs of p # ps \<Rightarrow> (c # p) # ps | [] \<Rightarrow> [[c]])"

text \<open>The position of the last occurrence, \<^verbatim>\<open>str::rfind(char)\<close>.\<close>

fun rfind :: "char \<Rightarrow> string \<Rightarrow> nat option" where
  "rfind d [] = None"
| "rfind d (c # cs) =
     (case rfind d cs of Some i \<Rightarrow> Some (Suc i) | None \<Rightarrow> if c = d then Some 0 else None)"

definition str_join :: "string \<Rightarrow> string list \<Rightarrow> string" where
  "str_join sep ps = (case ps of [] \<Rightarrow> [] | p # qs \<Rightarrow> p @ concat (map (\<lambda>q. sep @ q) qs))"

lemma starts_with_iff: "starts_with s p \<longleftrightarrow> (\<exists>r. s = p @ r)"
  unfolding starts_with_def by (metis append_eq_conv_conj append_take_drop_id)

lemma starts_with_length: "starts_with s p \<Longrightarrow> length p \<le> length s"
  by (auto simp: starts_with_iff)

lemma starts_with_Nil [simp]: "starts_with s []"
  by (simp add: starts_with_def)

lemma starts_with_Cons [simp]:
  "starts_with (c # cs) (d # ds) \<longleftrightarrow> c = d \<and> starts_with cs ds"
  "\<not> starts_with [] (d # ds)"
  by (auto simp: starts_with_def)

lemma split_on_nonempty [simp]: "split_on d s \<noteq> []"
  by (induction s) (auto split: list.splits)

lemma split_on_no_sep: "d \<notin> set s \<Longrightarrow> split_on d s = [s]"
  by (induction s) auto

lemma split_on_concat: "split_on d (a @ d # b) = split_on d a @ split_on d b"
proof (induction a)
  case (Cons c a)
  then show ?case by (cases "split_on d a") auto
qed simp

lemma str_join_Cons: "str_join sep (p # ps) = p @ (if ps = [] then [] else sep @ str_join sep ps)"
  by (cases ps) (simp_all add: str_join_def)

lemma split_on_append_sep:
  "d \<notin> set a \<Longrightarrow> split_on d (a @ d # b) = a # split_on d b"
  by (induction a) auto

lemma rfind_None_iff: "rfind d s = None \<longleftrightarrow> d \<notin> set s"
  by (induction s) (auto split: option.splits if_splits)

lemma rfind_split:
  "rfind d s = Some i \<Longrightarrow>
     i < length s \<and> s = take i s @ d # drop (Suc i) s \<and> d \<notin> set (drop (Suc i) s)"
proof (induction s arbitrary: i)
  case Nil
  then show ?case by simp
next
  case (Cons c cs)
  show ?case
  proof (cases "rfind d cs")
    case None
    with Cons.prems have "c = d" "i = 0" by (auto split: if_splits)
    with None show ?thesis by (simp add: rfind_None_iff)
  next
    case (Some j)
    with Cons.prems have "i = Suc j" by simp
    with Cons.IH [OF Some] show ?thesis by simp
  qed
qed

lemma rfind_append: "d \<notin> set b \<Longrightarrow> rfind d (a @ d # b) = Some (length a)"
proof (induction a)
  case Nil
  then have "rfind d b = None" by (simp add: rfind_None_iff)
  then show ?case by simp
next
  case (Cons c cs)
  then show ?case by simp
qed

definition strip_prefix :: "'a list \<Rightarrow> 'a list \<Rightarrow> 'a list option" where
  "strip_prefix p s = (if starts_with s p then Some (drop (length p) s) else None)"

text \<open>\<^verbatim>\<open>str::splitn(2, c)\<close>.\<close>

fun splitn2 :: "char \<Rightarrow> string \<Rightarrow> string list" where
  "splitn2 d [] = [[]]"
| "splitn2 d (c # cs) =
     (if c = d then [[], cs]
      else case splitn2 d cs of p # ps \<Rightarrow> (c # p) # ps | [] \<Rightarrow> [[c]])"

text \<open>\<^verbatim>\<open>str::rsplit_once\<close> for a non-empty pattern: the text before and after its last
  occurrence.\<close>

fun rsplit_once :: "string \<Rightarrow> string \<Rightarrow> (string \<times> string) option" where
  "rsplit_once p [] = None"
| "rsplit_once p (c # cs) =
     (case rsplit_once p cs of
        Some (a, b) \<Rightarrow> Some (c # a, b)
      | None \<Rightarrow> map_option (\<lambda>b. ([], b)) (strip_prefix p (c # cs)))"

lemma splitn2_sep: "d \<notin> set a \<Longrightarrow> splitn2 d (a @ d # b) = [a, b]"
  by (induction a) auto

lemma strip_prefix_append [simp]: "strip_prefix p (p @ r) = Some r"
  by (simp add: strip_prefix_def starts_with_def)

lemma strip_prefix_Some_iff: "strip_prefix p s = Some r \<longleftrightarrow> s = p @ r"
  by (auto simp: strip_prefix_def starts_with_iff)

section \<open>Fallible computations\<close>

text \<open>The \<^verbatim>\<open>?\<close> operator and the conversions between \<^verbatim>\<open>Option\<close> and \<^verbatim>\<open>Result\<close>.\<close>

definition rbind :: "'e + 'a \<Rightarrow> ('a \<Rightarrow> 'e + 'b) \<Rightarrow> 'e + 'b" where
  "rbind r f = (case r of Inl e \<Rightarrow> Inl e | Inr x \<Rightarrow> f x)"

definition map_err :: "('e \<Rightarrow> 'f) \<Rightarrow> 'e + 'a \<Rightarrow> 'f + 'a" where
  "map_err f r = (case r of Inl e \<Rightarrow> Inl (f e) | Inr x \<Rightarrow> Inr x)"

definition ok_or :: "'e \<Rightarrow> 'a option \<Rightarrow> 'e + 'a" where
  "ok_or e x = (case x of None \<Rightarrow> Inl e | Some y \<Rightarrow> Inr y)"

lemma rbind_simps [simp]: "rbind (Inl e) f = Inl e" "rbind (Inr x) f = f x"
  by (simp_all add: rbind_def)

lemma rbind_Inr_iff: "rbind r f = Inr y \<longleftrightarrow> (\<exists>x. r = Inr x \<and> f x = Inr y)"
  by (cases r) auto

lemma map_err_simps [simp]: "map_err f (Inl e) = Inl (f e)" "map_err f (Inr x) = Inr x"
  by (simp_all add: map_err_def)

lemma map_err_Inr_iff: "map_err f r = Inr y \<longleftrightarrow> r = Inr y"
  by (cases r) auto

lemma ok_or_simps [simp]: "ok_or e None = Inl e" "ok_or e (Some x) = Inr x"
  by (simp_all add: ok_or_def)

lemma ok_or_Inr_iff: "ok_or e x = Inr y \<longleftrightarrow> x = Some y"
  by (cases x) auto

section \<open>Decimal numbers\<close>

definition digit_char :: "nat \<Rightarrow> char" where
  "digit_char n = ''0123456789'' ! n"

fun show_nat :: "nat \<Rightarrow> string" where
  "show_nat n =
     (if n < 10 then [digit_char n] else show_nat (n div 10) @ [digit_char (n mod 10)])"

declare show_nat.simps [simp del]

definition digit_val :: "char \<Rightarrow> nat" where
  "digit_val c = code_of c - 48"

definition digits_val :: "string \<Rightarrow> nat" where
  "digits_val ds = foldl (\<lambda>v c. 10 * v + digit_val c) 0 ds"

text \<open>\<^verbatim>\<open>str::parse\<close> for an unsigned type whose largest value is \<open>m\<close>: an optional
  \<^verbatim>\<open>+\<close>, at least one digit, nothing else, and a value that fits.\<close>

definition parse_uint :: "nat \<Rightarrow> string \<Rightarrow> nat option" where
  "parse_uint m s =
     (let ds = (case s of c # cs \<Rightarrow> if c = CHR ''+'' then cs else s | [] \<Rightarrow> [])
      in if ds = [] \<or> \<not> list_all is_ascii_digit ds then None
         else if digits_val ds \<le> m then Some (digits_val ds) else None)"

lemma lt_10_cases:
  "n < (10::nat) \<Longrightarrow> n = 0 \<or> n = 1 \<or> n = 2 \<or> n = 3 \<or> n = 4 \<or>
     n = 5 \<or> n = 6 \<or> n = 7 \<or> n = 8 \<or> n = 9"
  by arith

lemma digit_char_digit: "n < 10 \<Longrightarrow> is_ascii_digit (digit_char n) \<and> digit_val (digit_char n) = n"
  by (drule lt_10_cases, elim disjE)
    (simp_all add: digit_char_def digit_val_def is_ascii_digit_def)

lemma digits_val_snoc [simp]: "digits_val (ds @ [c]) = 10 * digits_val ds + digit_val c"
  by (simp add: digits_val_def)

lemma show_nat_not_Nil [simp]: "show_nat n \<noteq> []"
  by (subst show_nat.simps) simp

lemma show_nat_digits: "list_all is_ascii_digit (show_nat n)"
proof (induction n rule: show_nat.induct)
  case (1 n)
  show ?case
  proof (cases "n < 10")
    case True
    then show ?thesis by (subst show_nat.simps) (simp add: digit_char_digit)
  next
    case False
    with 1 show ?thesis by (subst show_nat.simps) (simp add: digit_char_digit)
  qed
qed

lemma digits_val_show_nat [simp]: "digits_val (show_nat n) = n"
proof (induction n rule: show_nat.induct)
  case (1 n)
  show ?case
  proof (cases "n < 10")
    case True
    then show ?thesis
      by (subst show_nat.simps) (simp add: digit_char_digit digits_val_def)
  next
    case False
    with 1 have "digits_val (show_nat (n div 10)) = n div 10" by simp
    with False show ?thesis by (subst show_nat.simps) (simp add: digit_char_digit)
  qed
qed

lemma show_nat_inject [simp]: "show_nat a = show_nat b \<longleftrightarrow> a = b"
  by (metis digits_val_show_nat)

lemma parse_uint_bound: "parse_uint m s = Some n \<Longrightarrow> n \<le> m"
  by (auto simp: parse_uint_def Let_def split: if_splits)

lemma parse_uint_digits:
  "ds \<noteq> [] \<Longrightarrow> list_all is_ascii_digit ds \<Longrightarrow>
     parse_uint m ds = (if digits_val ds \<le> m then Some (digits_val ds) else None)"
  by (cases ds) (auto simp: parse_uint_def is_ascii_digit_def)

lemma parse_uint_show_nat: "n \<le> m \<Longrightarrow> parse_uint m (show_nat n) = Some n"
  by (simp add: parse_uint_digits show_nat_digits)

section \<open>Whitespace, trimming and lines\<close>

text \<open>
  The UTF-8 encodings of the characters with the Unicode property \<^verbatim>\<open>White_Space\<close>, which is
  what \<^verbatim>\<open>char::is_whitespace\<close> and \<^verbatim>\<open>str::trim\<close> test: U+0009 to U+000D, U+0020, U+0085,
  U+00A0, U+1680, U+2000 to U+200A, U+2028, U+2029, U+202F, U+205F, U+3000.
\<close>

definition ws_seqs :: "string list" where
  "ws_seqs =
     [[CHR 0x09], [CHR 0x0A], [CHR 0x0B], [CHR 0x0C], [CHR 0x0D], [CHR 0x20],
      [CHR 0xC2, CHR 0x85], [CHR 0xC2, CHR 0xA0], [CHR 0xE1, CHR 0x9A, CHR 0x80],
      [CHR 0xE2, CHR 0x80, CHR 0x80], [CHR 0xE2, CHR 0x80, CHR 0x81],
      [CHR 0xE2, CHR 0x80, CHR 0x82], [CHR 0xE2, CHR 0x80, CHR 0x83],
      [CHR 0xE2, CHR 0x80, CHR 0x84], [CHR 0xE2, CHR 0x80, CHR 0x85],
      [CHR 0xE2, CHR 0x80, CHR 0x86], [CHR 0xE2, CHR 0x80, CHR 0x87],
      [CHR 0xE2, CHR 0x80, CHR 0x88], [CHR 0xE2, CHR 0x80, CHR 0x89],
      [CHR 0xE2, CHR 0x80, CHR 0x8A], [CHR 0xE2, CHR 0x80, CHR 0xA8],
      [CHR 0xE2, CHR 0x80, CHR 0xA9], [CHR 0xE2, CHR 0x80, CHR 0xAF],
      [CHR 0xE2, CHR 0x81, CHR 0x9F], [CHR 0xE3, CHR 0x80, CHR 0x80]]"

definition is_whitespace :: "string \<Rightarrow> bool" where
  [byte_simps]: "is_whitespace ch \<longleftrightarrow> ch \<in> set ws_seqs"

text \<open>Strip the longest prefix made of the given non-empty words.\<close>

function strip_words :: "'a list list \<Rightarrow> 'a list \<Rightarrow> 'a list" where
  "strip_words ws s =
     (case find (\<lambda>w. w \<noteq> [] \<and> starts_with s w) ws of
        None \<Rightarrow> s
      | Some w \<Rightarrow> strip_words ws (drop (length w) s))"
  by pat_completeness auto
termination
proof (relation "measure (\<lambda>(ws, s). length s)", goal_cases)
  case 1
  show ?case by simp
next
  case (2 ws s w)
  then have "w \<noteq> []" "starts_with s w"
    by (auto simp: find_Some_iff)
  then show ?case by (cases s) (auto simp: starts_with_iff)
qed

declare strip_words.simps [simp del]

definition trim_start :: "string \<Rightarrow> string" where
  "trim_start s = strip_words ws_seqs s"

definition trim_end :: "string \<Rightarrow> string" where
  "trim_end s = rev (strip_words (map rev ws_seqs) (rev s))"

definition trim :: "string \<Rightarrow> string" where
  "trim s = trim_end (trim_start s)"

lemma strip_words_fixed:
  "(\<And>w. w \<in> set ws \<Longrightarrow> w \<noteq> [] \<Longrightarrow> \<not> starts_with s w) \<Longrightarrow> strip_words ws s = s"
  by (subst strip_words.simps) (auto simp: find_None_iff split: option.splits dest: find_Some_iff [THEN iffD1])

lemma strip_words_suffix: "\<exists>p. s = p @ strip_words ws s"
proof (induction ws s rule: strip_words.induct)
  case (1 ws s)
  show ?case
  proof (cases "find (\<lambda>w. w \<noteq> [] \<and> starts_with s w) ws")
    case None
    then show ?thesis by (subst strip_words.simps) simp
  next
    case (Some w)
    then have s: "s = w @ drop (length w) s"
      by (auto simp: find_Some_iff starts_with_def) (metis append_take_drop_id)
    obtain p where p: "drop (length w) s = p @ strip_words ws (drop (length w) s)"
      using "1.IH" [OF Some] by blast
    have "strip_words ws s = strip_words ws (drop (length w) s)"
      using Some by (subst strip_words.simps) simp
    with s p have "s = (w @ p) @ strip_words ws s" by simp
    then show ?thesis by blast
  qed
qed

lemma length_strip_words: "length (strip_words ws s) \<le> length s"
  using strip_words_suffix [of s ws] by (metis le_add2 length_append)

lemma length_trim: "length (trim s) \<le> length s"
  unfolding trim_def trim_end_def trim_start_def
  using length_strip_words [of ws_seqs s]
    length_strip_words [of "map rev ws_seqs" "rev (strip_words ws_seqs s)"] by simp

text \<open>Text that starts and ends with a printable ASCII character is not changed by trimming.\<close>

definition is_graphic :: "char \<Rightarrow> bool" where
  [byte_simps]: "is_graphic c \<longleftrightarrow> 33 \<le> code_of c \<and> code_of c \<le> 126"

lemma ws_seqs_not_graphic:
  "w \<in> set ws_seqs \<Longrightarrow> w \<noteq> [] \<and> \<not> is_graphic (hd w) \<and> \<not> is_graphic (last w)"
  by (auto simp: ws_seqs_def is_graphic_def)

lemma starts_with_hd: "starts_with s w \<Longrightarrow> w \<noteq> [] \<Longrightarrow> hd s = hd w"
  by (auto simp: starts_with_iff hd_append)

lemma trim_start_graphic: "is_graphic (hd s) \<Longrightarrow> trim_start s = s"
  unfolding trim_start_def
  by (rule strip_words_fixed) (use ws_seqs_not_graphic starts_with_hd in metis)

lemma trim_end_graphic: "s \<noteq> [] \<Longrightarrow> is_graphic (last s) \<Longrightarrow> trim_end s = s"
proof -
  assume s: "s \<noteq> []" "is_graphic (last s)"
  have "strip_words (map rev ws_seqs) (rev s) = rev s"
  proof (rule strip_words_fixed)
    fix w assume "w \<in> set (map rev ws_seqs)" "w \<noteq> []"
    then obtain v where v: "v \<in> set ws_seqs" "w = rev v" by auto
    with ws_seqs_not_graphic [of v] have "\<not> is_graphic (hd w)" by (simp add: hd_rev)
    with s \<open>w \<noteq> []\<close> show "\<not> starts_with (rev s) w"
      using starts_with_hd [of "rev s" w] by (auto simp: hd_rev)
  qed
  then show ?thesis by (simp add: trim_end_def)
qed

lemma trim_graphic: "s \<noteq> [] \<Longrightarrow> is_graphic (hd s) \<Longrightarrow> is_graphic (last s) \<Longrightarrow> trim s = s"
  by (simp add: trim_def trim_start_graphic trim_end_graphic)

lemma trim_Nil [simp]: "trim [] = []"
  using length_trim [of "[]"] by simp

lemma trim_space: "trim (CHR '' '' # s) = trim s"
proof -
  have "trim_start (CHR '' '' # s) = trim_start s"
    unfolding trim_start_def by (subst strip_words.simps) (simp add: ws_seqs_def starts_with_def)
  then show ?thesis by (simp add: trim_def)
qed

lemma strip_words_done: "w \<in> set ws \<Longrightarrow> w \<noteq> [] \<Longrightarrow> \<not> starts_with (strip_words ws s) w"
proof (induction ws s rule: strip_words.induct)
  case (1 ws s)
  show ?case
  proof (cases "find (\<lambda>w. w \<noteq> [] \<and> starts_with s w) ws")
    case None
    then have "strip_words ws s = s" by (subst strip_words.simps) simp
    with None "1.prems" show ?thesis by (auto simp: find_None_iff)
  next
    case (Some v)
    then have "strip_words ws s = strip_words ws (drop (length v) s)" by (subst strip_words.simps) simp
    with "1.IH" [OF Some "1.prems"] show ?thesis by simp
  qed
qed

lemma set_trim: "set (trim s) \<subseteq> set s"
proof -
  have sub: "set (strip_words ws t) \<subseteq> set t" for ws and t :: string
    using strip_words_suffix [of t ws] by (metis set_append sup.cobounded2)
  show ?thesis
    using sub [of ws_seqs s] sub [of "map rev ws_seqs" "rev (strip_words ws_seqs s)"]
    by (auto simp: trim_def trim_start_def trim_end_def)
qed

lemma trim_start_trim: "\<exists>r. trim_start s = trim s @ r"
proof -
  obtain p where "rev (trim_start s) = p @ strip_words (map rev ws_seqs) (rev (trim_start s))"
    using strip_words_suffix [of "rev (trim_start s)" "map rev ws_seqs"] by blast
  then have "trim_start s = rev (strip_words (map rev ws_seqs) (rev (trim_start s))) @ rev p"
    by (metis rev_append rev_rev_ident)
  then show ?thesis by (auto simp: trim_def trim_end_def)
qed

text \<open>\<^verbatim>\<open>str::lines\<close>: pieces that end at a line feed, which is dropped together with one
  carriage return before it; a last piece without a line feed is kept as it is.\<close>

fun split_inclusive :: "string \<Rightarrow> string list" where
  "split_inclusive [] = []"
| "split_inclusive (c # cs) =
     (if c = CHR 0x0A then [c] # split_inclusive cs
      else case split_inclusive cs of [] \<Rightarrow> [[c]] | l # ls \<Rightarrow> (c # l) # ls)"

definition strip_suffix :: "'a list \<Rightarrow> 'a list \<Rightarrow> 'a list option" where
  "strip_suffix p s = (if ends_with s p then Some (take (length s - length p) s) else None)"

definition strip_eol :: "string \<Rightarrow> string" where
  "strip_eol l =
     (case strip_suffix [CHR 0x0A] l of
        None \<Rightarrow> l
      | Some l' \<Rightarrow> (case strip_suffix [CHR 0x0D] l' of None \<Rightarrow> l' | Some l'' \<Rightarrow> l''))"

definition str_lines :: "string \<Rightarrow> string list" where
  "str_lines s = map strip_eol (split_inclusive s)"

abbreviation CRLF :: string where
  "CRLF \<equiv> [CHR 0x0D, CHR 0x0A]"

lemma split_inclusive_line:
  "CHR 0x0A \<notin> set l \<Longrightarrow>
     split_inclusive (l @ CHR 0x0A # r) = (l @ [CHR 0x0A]) # split_inclusive r"
  by (induction l) auto

lemma split_inclusive_last: "CHR 0x0A \<notin> set l \<Longrightarrow> l \<noteq> [] \<Longrightarrow> split_inclusive l = [l]"
proof (induction l)
  case (Cons c cs)
  then show ?case by (cases cs) auto
qed simp

lemma concat_split_inclusive: "concat (split_inclusive s) = s"
  by (induction s) (auto split: list.splits)

lemma strip_eol_CRLF [simp]: "strip_eol (l @ CRLF) = l"
  by (simp add: strip_eol_def strip_suffix_def ends_with_def starts_with_def)

lemma str_lines_CRLF:
  "CHR 0x0A \<notin> set l \<Longrightarrow> str_lines (l @ CRLF @ r) = l # str_lines r"
  using split_inclusive_line [of "l @ [CHR 0x0D]" r]
  by (simp add: str_lines_def)

section \<open>UTF-8 decoding\<close>

definition is_cont :: "nat \<Rightarrow> bool" where
  "is_cont n \<longleftrightarrow> 128 \<le> n \<and> n \<le> 191"

definition second_ok :: "nat \<Rightarrow> nat \<Rightarrow> bool" where
  "second_ok n m \<longleftrightarrow>
     (if n = 224 then 160 \<le> m \<and> m \<le> 191
      else if n = 237 then 128 \<le> m \<and> m \<le> 159
      else if n = 240 then 144 \<le> m \<and> m \<le> 191
      else if n = 244 then 128 \<le> m \<and> m \<le> 143
      else is_cont m)"

text \<open>The first character of a byte sequence, as the standard library decodes it: whether it
  is well formed, and how many bytes it or the maximal ill-formed prefix takes.\<close>

definition utf8_step :: "string \<Rightarrow> bool \<times> nat" where
  "utf8_step s =
     (let b = map code_of (take 4 s); k = length b; n = b ! 0 in
      if n < 128 then (True, 1)
      else if 194 \<le> n \<and> n \<le> 223 then
        (if 2 \<le> k \<and> is_cont (b ! 1) then (True, 2) else (False, 1))
      else if 224 \<le> n \<and> n \<le> 239 then
        (if 2 \<le> k \<and> second_ok n (b ! 1) then
           (if 3 \<le> k \<and> is_cont (b ! 2) then (True, 3) else (False, 2))
         else (False, 1))
      else if 240 \<le> n \<and> n \<le> 244 then
        (if 2 \<le> k \<and> second_ok n (b ! 1) then
           (if 3 \<le> k \<and> is_cont (b ! 2) then
              (if 4 \<le> k \<and> is_cont (b ! 3) then (True, 4) else (False, 3))
            else (False, 2))
         else (False, 1))
      else (False, 1))"

lemma utf8_step_pos: "0 < snd (utf8_step s)"
  by (simp add: utf8_step_def Let_def)

function utf8_chars :: "string \<Rightarrow> string list" where
  "utf8_chars s =
     (if s = [] then []
      else take (snd (utf8_step s)) s # utf8_chars (drop (snd (utf8_step s)) s))"
  by pat_completeness auto
termination
  by (relation "measure length") (auto simp: utf8_step_pos)

function utf8_valid :: "string \<Rightarrow> bool" where
  "utf8_valid s =
     (if s = [] then True
      else fst (utf8_step s) \<and> utf8_valid (drop (snd (utf8_step s)) s))"
  by pat_completeness auto
termination
  by (relation "measure length") (auto simp: utf8_step_pos)

text \<open>\<^verbatim>\<open>String::from_utf8_lossy\<close>: every ill-formed prefix becomes U+FFFD.\<close>

function utf8_lossy :: "string \<Rightarrow> string" where
  "utf8_lossy s =
     (if s = [] then []
      else (if fst (utf8_step s) then take (snd (utf8_step s)) s
            else [CHR 0xEF, CHR 0xBF, CHR 0xBD]) @
           utf8_lossy (drop (snd (utf8_step s)) s))"
  by pat_completeness auto
termination
  by (relation "measure length") (auto simp: utf8_step_pos)

declare utf8_chars.simps [simp del] utf8_valid.simps [simp del] utf8_lossy.simps [simp del]

lemma concat_utf8_chars [simp]: "concat (utf8_chars s) = s"
proof (induction s rule: utf8_chars.induct)
  case (1 s)
  then show ?case by (subst utf8_chars.simps) auto
qed

lemma utf8_chars_nonempty: "ch \<in> set (utf8_chars s) \<Longrightarrow> ch \<noteq> []"
proof (induction s rule: utf8_chars.induct)
  case (1 s)
  then show ?case
    using utf8_step_pos [of s] by (subst (asm) utf8_chars.simps) (auto split: if_splits)
qed

lemma utf8_lossy_valid: "utf8_valid s \<Longrightarrow> utf8_lossy s = s"
proof (induction s rule: utf8_valid.induct)
  case (1 s)
  show ?case
  proof (cases "s = []")
    case True
    then show ?thesis by (subst utf8_lossy.simps) simp
  next
    case False
    with "1.prems" have ok: "fst (utf8_step s)" "utf8_valid (drop (snd (utf8_step s)) s)"
      by (subst (asm) utf8_valid.simps, simp)+
    with False "1.IH" have "utf8_lossy (drop (snd (utf8_step s)) s) = drop (snd (utf8_step s)) s"
      by simp
    with False ok show ?thesis by (subst utf8_lossy.simps) simp
  qed
qed

lemma utf8_chars_ascii_Cons:
  "code_of c < 128 \<Longrightarrow> utf8_chars (c # s) = [c] # utf8_chars s"
  by (subst utf8_chars.simps) (simp add: utf8_step_def)

lemma utf8_chars_Nil [simp]: "utf8_chars [] = []"
  by (subst utf8_chars.simps) simp

lemma utf8_chars_ascii: "list_all (\<lambda>c. code_of c < 128) s \<Longrightarrow> utf8_chars s = map (\<lambda>c. [c]) s"
  by (induction s) (auto simp: utf8_chars_ascii_Cons)

lemma utf8_chars_ascii_append:
  "list_all (\<lambda>c. code_of c < 128) a \<Longrightarrow> utf8_chars (a @ b) = map (\<lambda>c. [c]) a @ utf8_chars b"
  by (induction a) (auto simp: utf8_chars_ascii_Cons)

text \<open>\<^verbatim>\<open>str::split_whitespace\<close>: the non-empty pieces between whitespace characters.\<close>

fun ws_pieces :: "string list \<Rightarrow> string list" where
  "ws_pieces [] = [[]]"
| "ws_pieces (ch # chs) =
     (if is_whitespace ch then [] # ws_pieces chs
      else case ws_pieces chs of p # ps \<Rightarrow> (ch @ p) # ps | [] \<Rightarrow> [ch])"

definition split_whitespace :: "string \<Rightarrow> string list" where
  "split_whitespace s = filter (\<lambda>p. p \<noteq> []) (ws_pieces (utf8_chars s))"

lemma graphic_not_whitespace: "is_graphic c \<Longrightarrow> \<not> is_whitespace [c]"
  using ws_seqs_not_graphic [of "[c]"] by (auto simp: is_whitespace_def)

lemma graphic_ascii: "is_graphic c \<Longrightarrow> code_of c < 128"
  by (simp add: is_graphic_def)

lemma ws_pieces_nonempty [simp]: "ws_pieces chs \<noteq> []"
  by (induction chs) (auto split: list.splits)

lemma ws_pieces_graphic_append:
  "list_all is_graphic w \<Longrightarrow>
     ws_pieces (map (\<lambda>c. [c]) w @ chs) = (w @ hd (ws_pieces chs)) # tl (ws_pieces chs)"
  by (induction w) (simp_all add: graphic_not_whitespace)

lemma utf8_chars_graphic_append:
  "list_all is_graphic w \<Longrightarrow> utf8_chars (w @ s) = map (\<lambda>c. [c]) w @ utf8_chars s"
  by (rule utf8_chars_ascii_append) (auto simp: list_all_iff graphic_ascii)

lemma split_whitespace_word:
  assumes "list_all is_graphic w" "w \<noteq> []"
  shows "split_whitespace w = [w]"
  using assms ws_pieces_graphic_append [of w "[]"] utf8_chars_graphic_append [of w "[]"]
  by (simp add: split_whitespace_def)

lemma split_whitespace_Cons:
  assumes "list_all is_graphic w" "w \<noteq> []"
  shows "split_whitespace (w @ CHR '' '' # s) = w # split_whitespace s"
proof -
  have sp: "is_whitespace [CHR '' '']" by (simp add: is_whitespace_def ws_seqs_def)
  have "utf8_chars (CHR '' '' # s) = [CHR '' ''] # utf8_chars s"
    by (simp add: utf8_chars_ascii_Cons)
  with sp have "ws_pieces (utf8_chars (w @ CHR '' '' # s)) = w # ws_pieces (utf8_chars s)"
    using assms by (simp add: utf8_chars_graphic_append ws_pieces_graphic_append)
  with assms(2) show ?thesis by (simp add: split_whitespace_def)
qed

lemma digits_graphic: "list_all is_ascii_digit ds \<Longrightarrow> list_all is_graphic ds"
  by (auto simp: list_all_iff byte_simps)

section \<open>Runs of a state machine\<close>

text \<open>
  Every component with state is a total step function from a state and an event to the next
  state and an output.  The locale is the contract of such a machine with an invariant; its
  lemmas lift the invariant, and any property of single steps that depends on it, to runs.
\<close>

fun run :: "('s \<Rightarrow> 'e \<Rightarrow> 's \<times> 'o) \<Rightarrow> 's \<Rightarrow> 'e list \<Rightarrow> 's \<times> 'o list" where
  "run step s [] = (s, [])"
| "run step s (e # es) =
     (case step s e of (s', x) \<Rightarrow> case run step s' es of (t, xs) \<Rightarrow> (t, x # xs))"

locale invariant_machine =
  fixes step :: "'s \<Rightarrow> 'e \<Rightarrow> 's \<times> 'o"
    and inv :: "'s \<Rightarrow> bool"
  assumes step_inv: "inv s \<Longrightarrow> inv (fst (step s e))"
begin

lemma run_inv: "inv s \<Longrightarrow> inv (fst (run step s es))"
proof (induction es arbitrary: s)
  case Nil
  then show ?case by simp
next
  case (Cons e es)
  obtain s' x where st: "step s e = (s', x)" by (cases "step s e")
  with step_inv [OF Cons.prems, of e] have "inv s'" by simp
  then have "inv (fst (run step s' es))" by (rule Cons.IH)
  with st show ?case by (simp add: case_prod_beta)
qed

lemma run_outputs:
  assumes out: "\<And>s e. inv s \<Longrightarrow> P (snd (step s e))" and start: "inv s"
  shows "list_all P (snd (run step s es))"
  using start
proof (induction es arbitrary: s)
  case Nil
  then show ?case by simp
next
  case (Cons e es)
  obtain s' x where st: "step s e = (s', x)" by (cases "step s e")
  with step_inv [OF Cons.prems, of e] have "inv s'" by simp
  then have "list_all P (snd (run step s' es))" by (rule Cons.IH)
  with st out [OF Cons.prems, of e] show ?case by (simp add: case_prod_beta)
qed

end

lemma length_run_outputs [simp]: "length (snd (run step s es)) = length es"
  by (induction es arbitrary: s) (auto simp: case_prod_beta)

lemma run_append:
  "run step s (es @ fs) =
     (case run step s es of (t, xs) \<Rightarrow> case run step t fs of (u, ys) \<Rightarrow> (u, xs @ ys))"
  by (induction es arbitrary: s) (auto simp: case_prod_beta)

end
