(* ===== verification/Proto_Address.thy ===== *)
theory Proto_Address
  imports Rusmes_Prelude
begin

text \<open>
  Model of \<^verbatim>\<open>crates/rusmes-proto/src/address.rs\<close> (and the address errors of
  \<^verbatim>\<open>error.rs\<close>): the validated domain, mail address and user name types, their
  constructors with every rejection, the two address parsers (plain and SMTPUTF8) and the
  local-domain test.  IDNA normalisation (crate \<^verbatim>\<open>idna\<close>) is the parameter
  \<open>domain_to_ascii\<close> of \<open>is_local\<close>.  The lemmas show that the parsers only build well-formed
  addresses, that printing and parsing are inverse on them, and how the two parsers relate.
\<close>

section \<open>Data\<close>

datatype mail_error =
    InvalidAddress string
  | InvalidDomain string
  | InvalidUsername string
  | MessageTooLarge nat nat
  | InvalidMime string
  | Io string
  | ParseError string
  | Serialization string
  | NonAsciiLocalPartRequiresSMTPUTF8

datatype domain = Domain (domain_str: string)

record mail_address =
  local_part :: string
  addr_domain :: domain

datatype username = Username (username_str: string)

text \<open>The \<^verbatim>\<open>Display\<close> text of the errors.\<close>

fun mail_error_display :: "mail_error \<Rightarrow> string" where
  "mail_error_display (InvalidAddress m) = ''Invalid email address: '' @ m"
| "mail_error_display (InvalidDomain m) = ''Invalid domain: '' @ m"
| "mail_error_display (InvalidUsername m) = ''Invalid username: '' @ m"
| "mail_error_display (MessageTooLarge n m) =
     ''Message too large: '' @ show_nat n @ '' bytes (max: '' @ show_nat m @ '' bytes)''"
| "mail_error_display (InvalidMime m) = ''Invalid MIME structure: '' @ m"
| "mail_error_display (Io m) = ''IO error: '' @ m"
| "mail_error_display (ParseError m) = ''Parse error: '' @ m"
| "mail_error_display (Serialization m) = ''Serialization error: '' @ m"
| "mail_error_display NonAsciiLocalPartRequiresSMTPUTF8 =
     ''non-ASCII local-part requires SMTPUTF8 negotiation (RFC 6531)''"

section \<open>Constructors\<close>

definition quoted :: "string \<Rightarrow> string" where
  "quoted s = [CHR 0x27] @ s @ [CHR 0x27]"

definition domain_char :: "char \<Rightarrow> bool" where
  "domain_char c \<longleftrightarrow> is_ascii_alphanumeric c \<or> c = CHR ''.'' \<or> c = CHR ''-''"

definition Domain_new :: "string \<Rightarrow> mail_error + domain" where
  "Domain_new d =
     (if d = [] \<or> 255 < length d then
        Inl (InvalidDomain (''Domain length must be 1-255 characters, got '' @ show_nat (length d)))
      else if \<not> list_all domain_char d then
        Inl (InvalidDomain ''Domain contains invalid characters'')
      else if starts_with d ''.'' \<or> ends_with d ''.'' then
        Inl (InvalidDomain (''Domain cannot start or end with '' @ quoted ''.''))
      else Inr (Domain (to_ascii_lowercase d)))"

definition MailAddress_new :: "string \<Rightarrow> domain \<Rightarrow> mail_error + mail_address" where
  "MailAddress_new l d =
     (if l = [] \<or> 64 < length l then
        Inl (InvalidAddress (''Local part length must be 1-64 characters, got '' @ show_nat (length l)))
      else if CHR ''@'' \<in> set l then
        Inl (InvalidAddress (''Local part cannot contain '' @ quoted ''@''))
      else if list_ex (\<lambda>b. code_of b < 32 \<or> code_of b = 127) l then
        Inl (InvalidAddress ''local-part contains control character'')
      else if list_ex (\<lambda>b. 128 \<le> code_of b) l then
        Inl NonAsciiLocalPartRequiresSMTPUTF8
      else Inr \<lparr>local_part = l, addr_domain = d\<rparr>)"

text \<open>The code point of an encoded character, \<^verbatim>\<open>ch as u32\<close>.\<close>

definition codepoint :: "string \<Rightarrow> nat" where
  "codepoint ch =
     (case map code_of ch of
        [a] \<Rightarrow> a
      | [a, b] \<Rightarrow> (a - 192) * 64 + (b - 128)
      | [a, b, c] \<Rightarrow> ((a - 224) * 64 + (b - 128)) * 64 + (c - 128)
      | [a, b, c, d] \<Rightarrow> (((a - 240) * 64 + (b - 128)) * 64 + (c - 128)) * 64 + (d - 128)
      | _ \<Rightarrow> 0)"

definition is_control_cp :: "nat \<Rightarrow> bool" where
  "is_control_cp cp \<longleftrightarrow> cp < 32 \<or> (127 \<le> cp \<and> cp \<le> 159)"

definition hex_upper :: "nat \<Rightarrow> char" where
  "hex_upper n = ''0123456789ABCDEF'' ! (n mod 16)"

definition show_hex4 :: "nat \<Rightarrow> string" where
  "show_hex4 n = [hex_upper (n div 4096), hex_upper (n div 256), hex_upper (n div 16), hex_upper n]"

definition MailAddress_new_smtputf8 :: "string \<Rightarrow> domain \<Rightarrow> mail_error + mail_address" where
  "MailAddress_new_smtputf8 l d =
     (if l = [] \<or> 64 < length l then
        Inl (InvalidAddress (''local-part octet length must be 1-64, got '' @ show_nat (length l)))
      else if CHR ''@'' \<in> set l then
        Inl (InvalidAddress (''local-part cannot contain '' @ quoted ''@''))
      else case find (\<lambda>ch. is_control_cp (codepoint ch)) (utf8_chars l) of
        Some ch \<Rightarrow> Inl (InvalidAddress
          (''local-part contains disallowed control codepoint U+'' @ show_hex4 (codepoint ch)))
      | None \<Rightarrow> Inr \<lparr>local_part = l, addr_domain = d\<rparr>)"

definition from_str_smtputf8 :: "string \<Rightarrow> mail_error + mail_address" where
  "from_str_smtputf8 s =
     (case rfind (CHR ''@'') s of
        None \<Rightarrow> Inl (InvalidAddress (''missing '' @ quoted ''@''))
      | Some at_pos \<Rightarrow>
          (case Domain_new (drop (at_pos + 1) s) of
             Inl e \<Rightarrow> Inl e
           | Inr d \<Rightarrow> MailAddress_new_smtputf8 (take at_pos s) d))"

text \<open>\<^verbatim>\<open>rsplitn(2, '@')\<close> yields the text after the last \<^verbatim>\<open>@\<close> and the text before it.\<close>

definition rsplitn2 :: "char \<Rightarrow> string \<Rightarrow> string list" where
  "rsplitn2 c s =
     (case rfind c s of None \<Rightarrow> [s] | Some i \<Rightarrow> [drop (i + 1) s, take i s])"

definition MailAddress_from_str :: "string \<Rightarrow> mail_error + mail_address" where
  "MailAddress_from_str s =
     (let parts = rsplitn2 (CHR ''@'') s in
      if length parts \<noteq> 2 then Inl (InvalidAddress ''Missing @ separator'')
      else case Domain_new (parts ! 0) of
        Inl e \<Rightarrow> Inl e
      | Inr d \<Rightarrow> MailAddress_new (parts ! 1) d)"

definition as_string :: "mail_address \<Rightarrow> string" where
  "as_string a = local_part a @ ''@'' @ domain_str (addr_domain a)"

definition Username_new :: "string \<Rightarrow> mail_error + username" where
  "Username_new u =
     (if u = [] \<or> 128 < length u then
        Inl (InvalidUsername (''Username length must be 1-128 characters, got '' @ show_nat (length u)))
      else Inr (Username u))"

definition is_local :: "(string \<Rightarrow> string option) \<Rightarrow> mail_address \<Rightarrow> string list \<Rightarrow> bool" where
  "is_local domain_to_ascii a domain_set =
     (case domain_to_ascii (domain_str (addr_domain a)) of
        None \<Rightarrow> False
      | Some ascii \<Rightarrow>
          (let own = to_ascii_lowercase ascii in
           list_ex (\<lambda>entry. case domain_to_ascii entry of
                       Some ea \<Rightarrow> to_ascii_lowercase ea = own
                     | None \<Rightarrow> False) domain_set))"

section \<open>Well-formedness\<close>

definition wf_domain :: "domain \<Rightarrow> bool" where
  "wf_domain d \<longleftrightarrow>
     (let s = domain_str d in
      s \<noteq> [] \<and> length s \<le> 255 \<and> list_all domain_char s \<and> \<not> list_ex is_ascii_upper s \<and>
      \<not> starts_with s ''.'' \<and> \<not> ends_with s ''.'')"

definition wf_local_ascii :: "string \<Rightarrow> bool" where
  "wf_local_ascii l \<longleftrightarrow> l \<noteq> [] \<and> length l \<le> 64 \<and>
     list_all (\<lambda>c. c \<noteq> CHR ''@'' \<and> 32 \<le> code_of c \<and> code_of c < 127) l"

definition wf_address :: "mail_address \<Rightarrow> bool" where
  "wf_address a \<longleftrightarrow> wf_local_ascii (local_part a) \<and> wf_domain (addr_domain a)"

lemma domain_char_to_lower: "domain_char (to_lower c) = domain_char c"
proof (cases "is_ascii_upper c")
  case True
  then have "code_of (to_lower c) = code_of c + 32" by (rule code_of_to_lower)
  with True show ?thesis
    by (simp add: domain_char_def is_ascii_alphanumeric_def is_ascii_upper_def
        is_ascii_lower_def is_ascii_digit_def)
next
  case False
  then show ?thesis by (simp add: to_lower_def)
qed

lemma to_lower_eq_dot: "to_lower c = CHR ''.'' \<longleftrightarrow> c = CHR ''.''"
proof (cases "is_ascii_upper c")
  case True
  then have "code_of (to_lower c) = code_of c + 32" "code_of c \<ge> 65"
    by (simp_all add: code_of_to_lower is_ascii_upper_def)
  then have "to_lower c \<noteq> CHR ''.''" "c \<noteq> CHR ''.''" by auto
  then show ?thesis by simp
next
  case False
  then show ?thesis by (simp add: to_lower_def)
qed

lemma starts_with_dot_lower: "starts_with (to_ascii_lowercase s) ''.'' = starts_with s ''.''"
  by (cases s) (auto simp: to_lower_eq_dot)

lemma ends_with_dot_lower: "ends_with (to_ascii_lowercase s) ''.'' = ends_with s ''.''"
  by (simp add: ends_with_def rev_map starts_with_dot_lower)

lemma to_lower_id: "\<not> is_ascii_upper c \<Longrightarrow> to_lower c = c"
  by (simp add: to_lower_def)

lemma to_ascii_lowercase_id: "\<not> list_ex is_ascii_upper s \<Longrightarrow> to_ascii_lowercase s = s"
  by (induction s) (auto simp: to_lower_id)

lemma domain_char_not_at: "domain_char c \<Longrightarrow> c \<noteq> CHR ''@''"
  by (auto simp: domain_char_def byte_simps)

lemma Domain_new_wf: "Domain_new s = Inr d \<Longrightarrow> wf_domain d"
  by (auto simp: Domain_new_def wf_domain_def Let_def starts_with_dot_lower ends_with_dot_lower
      list_all_iff list_ex_iff domain_char_to_lower split: if_splits)

lemma Domain_new_str: "Domain_new s = Inr d \<Longrightarrow> domain_str d = to_ascii_lowercase s"
  by (auto simp: Domain_new_def split: if_splits)

lemma Domain_new_wf_id: "wf_domain d \<Longrightarrow> Domain_new (domain_str d) = Inr d"
  by (cases d) (simp add: wf_domain_def Let_def Domain_new_def to_ascii_lowercase_id)

lemma wf_domain_no_at: "wf_domain d \<Longrightarrow> CHR ''@'' \<notin> set (domain_str d)"
  by (auto simp: wf_domain_def Let_def list_all_iff dest: domain_char_not_at)

lemma wf_local_ascii_alt:
  "wf_local_ascii l \<longleftrightarrow> l \<noteq> [] \<and> length l \<le> 64 \<and> CHR ''@'' \<notin> set l \<and>
     \<not> list_ex (\<lambda>b. code_of b < 32 \<or> code_of b = 127) l \<and> \<not> list_ex (\<lambda>b. 128 \<le> code_of b) l"
proof -
  have one: "(c \<noteq> CHR ''@'' \<and> 32 \<le> code_of c \<and> code_of c < 127) \<longleftrightarrow>
      CHR ''@'' \<noteq> c \<and> \<not> (code_of c < 32 \<or> code_of c = 127) \<and> \<not> 128 \<le> code_of c" for c :: char
    by (cases "code_of c < (127::nat)") auto
  have "list_all (\<lambda>c. c \<noteq> CHR ''@'' \<and> 32 \<le> code_of c \<and> code_of c < 127) l \<longleftrightarrow>
      CHR ''@'' \<notin> set l \<and> \<not> list_ex (\<lambda>b. code_of b < 32 \<or> code_of b = 127) l \<and>
      \<not> list_ex (\<lambda>b. 128 \<le> code_of b) l"
    unfolding one by (induction l) auto
  then show ?thesis by (simp add: wf_local_ascii_def)
qed

lemma MailAddress_new_iff:
  "MailAddress_new l d = Inr a \<longleftrightarrow> wf_local_ascii l \<and> a = \<lparr>local_part = l, addr_domain = d\<rparr>"
  unfolding wf_local_ascii_alt MailAddress_new_def by (auto simp: not_less)

lemma MailAddress_from_str_eq:
  "MailAddress_from_str s =
     (case rfind (CHR ''@'') s of
        None \<Rightarrow> Inl (InvalidAddress ''Missing @ separator'')
      | Some i \<Rightarrow> (case Domain_new (drop (i + 1) s) of
            Inl e \<Rightarrow> Inl e | Inr d \<Rightarrow> MailAddress_new (take i s) d))"
  by (cases "rfind (CHR ''@'') s")
    (simp_all add: MailAddress_from_str_def rsplitn2_def numeral_2_eq_2 split: sum.split)

section \<open>Parsing and printing\<close>

lemma codepoint_ascii [simp]: "codepoint [c] = code_of c"
  by (simp add: codepoint_def)

lemma ascii_control_iff:
  assumes "list_all (\<lambda>c. code_of c < 128) l"
  shows "find (\<lambda>ch. is_control_cp (codepoint ch)) (utf8_chars l) = None \<longleftrightarrow>
     \<not> list_ex (\<lambda>b. code_of b < 32 \<or> code_of b = 127) l"
proof -
  have c: "is_control_cp (code_of c) \<longleftrightarrow> code_of c < 32 \<or> code_of c = 127"
    if "code_of c < (128::nat)" for c :: char
    using that by (auto simp: is_control_cp_def)
  have "find (\<lambda>ch. is_control_cp (codepoint ch)) (map (\<lambda>c. [c]) l) = None \<longleftrightarrow>
     \<not> list_ex (\<lambda>b. code_of b < 32 \<or> code_of b = 127) l"
    using assms
  proof (induction l)
    case (Cons x xs)
    then show ?case using c [of x] by (cases "is_control_cp (code_of x)") simp_all
  qed simp
  with utf8_chars_ascii [OF assms] show ?thesis by simp
qed

lemma wf_local_ascii_7bit: "wf_local_ascii l \<Longrightarrow> list_all (\<lambda>c. code_of c < 128) l"
  unfolding wf_local_ascii_def by (elim conjE list.pred_mono_strong) simp

lemma smtputf8_ascii_iff:
  assumes "list_all (\<lambda>c. code_of c < 128) l"
  shows "MailAddress_new_smtputf8 l d = Inr a \<longleftrightarrow>
     wf_local_ascii l \<and> a = \<lparr>local_part = l, addr_domain = d\<rparr>"
proof -
  have hi: "\<not> list_ex (\<lambda>b. 128 \<le> code_of b) l"
    using assms by (induction l) auto
  show ?thesis
  proof (cases "find (\<lambda>ch. is_control_cp (codepoint ch)) (utf8_chars l)")
    case None
    with ascii_control_iff [OF assms] hi show ?thesis
      unfolding wf_local_ascii_alt MailAddress_new_smtputf8_def by (auto simp: not_less)
  next
    case (Some ch)
    with ascii_control_iff [OF assms] show ?thesis
      unfolding wf_local_ascii_alt MailAddress_new_smtputf8_def by simp
  qed
qed

lemma smtputf8_local_part:
  "MailAddress_new_smtputf8 l d = Inr a \<Longrightarrow> local_part a = l"
  by (auto simp: MailAddress_new_smtputf8_def split: if_splits option.splits)

lemma MailAddress_from_str_as_string:
  assumes "wf_address a"
  shows "MailAddress_from_str (as_string a) = Inr a"
proof -
  from assms have "CHR ''@'' \<notin> set (domain_str (addr_domain a))"
    by (simp add: wf_address_def wf_domain_no_at)
  then have "rfind (CHR ''@'') (as_string a) = Some (length (local_part a))"
    by (simp add: as_string_def rfind_append)
  with assms show ?thesis
    by (simp add: MailAddress_from_str_eq as_string_def wf_address_def Domain_new_wf_id
        MailAddress_new_iff)
qed

lemma MailAddress_from_str_wf: "MailAddress_from_str s = Inr a \<Longrightarrow> wf_address a"
  by (auto simp: MailAddress_from_str_eq MailAddress_new_iff wf_address_def
      dest: Domain_new_wf split: option.splits sum.splits)

text \<open>Parsing accepts exactly well-formed addresses and printing is its inverse: an
  address accepted by \<^verbatim>\<open>MailAddress::from_str\<close> is well formed and prints as a string that
  parses back to it, and every well-formed address is reached that way.\<close>

theorem mail_address_roundtrip:
  "(wf_address a \<longleftrightarrow> MailAddress_from_str (as_string a) = Inr a) \<and>
   ((\<exists>s. MailAddress_from_str s = Inr a) \<longleftrightarrow> wf_address a)"
  using MailAddress_from_str_as_string [of a] MailAddress_from_str_wf [of _ a] by blast

text \<open>The SMTPUTF8 parser extends the plain one: on a string whose part before the last
  \<^verbatim>\<open>@\<close> is pure ASCII both accept the same strings with the same result, and the plain
  parser accepts nothing the SMTPUTF8 parser rejects.\<close>

theorem smtputf8_extends_ascii:
  "(MailAddress_from_str s = Inr a \<longleftrightarrow>
     from_str_smtputf8 s = Inr a \<and> list_all (\<lambda>c. code_of c < 128) (local_part a))"
proof (cases "rfind (CHR ''@'') s")
  case None
  then show ?thesis by (simp add: MailAddress_from_str_eq from_str_smtputf8_def)
next
  case (Some i)
  show ?thesis
  proof (cases "Domain_new (drop (i + 1) s)")
    case (Inl e)
    with Some show ?thesis by (simp add: MailAddress_from_str_eq from_str_smtputf8_def)
  next
    case (Inr d)
    have "MailAddress_new l d = Inr a \<longleftrightarrow>
        MailAddress_new_smtputf8 l d = Inr a \<and> list_all (\<lambda>c. code_of c < 128) (local_part a)" for l
      using smtputf8_ascii_iff [of l d a] smtputf8_local_part [of l d a]
        wf_local_ascii_7bit [of l] MailAddress_new_iff [of l d a] by fastforce
    with Some Inr show ?thesis by (simp add: MailAddress_from_str_eq from_str_smtputf8_def)
  qed
qed

end
