(* ===== verification/Net_Addr.thy ===== *)
theory Net_Addr
  imports Rusmes_Prelude "HOL-Library.Code_Target_Nat"
begin

text \<open>
  IP addresses (\<^verbatim>\<open>std::net::IpAddr\<close>) as machine words, and their display form as the standard
  library prints it: dotted decimals for version 4; for version 6 the eight groups in
  hexadecimal with the first longest run of at least two zero groups abbreviated, and the
  version 4 form for mapped addresses.
\<close>

unbundle bit_operations_syntax

datatype ip_addr = V4 "32 word" | V6 "128 word"

definition ipv4_octets :: "32 word \<Rightarrow> nat list" where
  "ipv4_octets w = map (\<lambda>i. unat (drop_bit (8 * i) w AND 0xFF)) [3, 2, 1, 0]"

definition ipv4_display :: "32 word \<Rightarrow> string" where
  "ipv4_display w = str_join ''.'' (map show_nat (ipv4_octets w))"

definition ipv6_segments :: "128 word \<Rightarrow> nat list" where
  "ipv6_segments w = map (\<lambda>i. unat (drop_bit (16 * i) w AND 0xFFFF)) [7, 6, 5, 4, 3, 2, 1, 0]"

definition hex_lower :: "nat \<Rightarrow> char" where
  "hex_lower n = ''0123456789abcdef'' ! (n mod 16)"

definition show_hex16 :: "nat \<Rightarrow> string" where
  "show_hex16 n =
     (let ds = map hex_lower [n div 4096, n div 256, n div 16]
      in dropWhile (\<lambda>c. c = CHR ''0'') ds @ [hex_lower n])"

text \<open>The scan for the longest run of zero groups: start and length of the longest run so far
  and of the run the scan is in.\<close>

fun zero_span :: "nat \<Rightarrow> nat list \<Rightarrow> nat \<times> nat \<Rightarrow> nat \<times> nat \<Rightarrow> nat \<times> nat" where
  "zero_span i [] longest current = longest"
| "zero_span i (seg # segs) longest current =
     (if seg = 0 then
        let current' = (if snd current = 0 then (i, 1) else (fst current, snd current + 1));
            longest' = (if snd longest < snd current' then current' else longest)
        in zero_span (i + 1) segs longest' current'
      else zero_span (i + 1) segs longest (0, 0))"

definition ipv6_display :: "128 word \<Rightarrow> string" where
  "ipv6_display w =
     (let segs = ipv6_segments w in
      if take 6 segs = [0, 0, 0, 0, 0, 65535] then ''::ffff:'' @ ipv4_display (ucast w)
      else
        let (start, len) = zero_span 0 segs (0, 0) (0, 0) in
        if 1 < len then
          str_join '':'' (map show_hex16 (take start segs)) @ ''::'' @
          str_join '':'' (map show_hex16 (drop (start + len) segs))
        else str_join '':'' (map show_hex16 segs))"

fun ip_display :: "ip_addr \<Rightarrow> string" where
  "ip_display (V4 w) = ipv4_display w"
| "ip_display (V6 w) = ipv6_display w"

lemma ip_display_examples:
  "ip_display (V4 0x7F000001) = ''127.0.0.1''"
  "ip_display (V6 1) = ''::1''"
  "ip_display (V6 0x20010DB8000000000000000000000001) = ''2001:db8::1''"
  by code_simp+

end
