(* ===== verification/Proto_Mail.thy ===== *)
theory Proto_Mail
  imports Proto_Address Net_Addr "HOL-Library.AList" "HOL-Library.Multiset"
begin

text \<open>
  Model of \<^verbatim>\<open>crates/rusmes-proto/src/message.rs\<close> and \<^verbatim>\<open>mail.rs\<close>: the header map, the
  message with its in-memory or streamed body, the size accounting, and the mail envelope with
  its attributes and the recipient split used by the processing pipeline.

  A \<^verbatim>\<open>HashMap\<close> is an association list with distinct keys; the order of the list stands for
  the iteration order of the table, so every lemma that does not mention the order holds for
  any order.  Unicode lower-casing of header names (\<^verbatim>\<open>str::to_lowercase\<close>) is the argument
  \<open>lc\<close> of the operations that use it.  Fresh identifiers (\<^verbatim>\<open>Uuid::new_v4\<close>) are arguments of
  the constructors that draw them.
\<close>

section \<open>Header map\<close>

type_synonym header_map = "(string \<times> string list) list"

definition header_insert :: "(string \<Rightarrow> string) \<Rightarrow> string \<Rightarrow> string \<Rightarrow> header_map \<Rightarrow> header_map" where
  "header_insert lc name val hs =
     (let n = lc name in
      AList.update n ((case map_of hs n of None \<Rightarrow> [] | Some vs \<Rightarrow> vs) @ [val]) hs)"

definition header_get :: "(string \<Rightarrow> string) \<Rightarrow> header_map \<Rightarrow> string \<Rightarrow> string list option" where
  "header_get lc hs name = map_of hs (lc name)"

definition header_get_first :: "(string \<Rightarrow> string) \<Rightarrow> header_map \<Rightarrow> string \<Rightarrow> string option" where
  "header_get_first lc hs name =
     (case header_get lc hs name of
        None \<Rightarrow> None
      | Some vs \<Rightarrow> (case vs of [] \<Rightarrow> None | v # _ \<Rightarrow> Some v))"

definition header_remove ::
    "(string \<Rightarrow> string) \<Rightarrow> header_map \<Rightarrow> string \<Rightarrow> string list option \<times> header_map" where
  "header_remove lc hs name = (map_of hs (lc name), AList.delete (lc name) hs)"

definition header_contains_key :: "(string \<Rightarrow> string) \<Rightarrow> header_map \<Rightarrow> string \<Rightarrow> bool" where
  "header_contains_key lc hs name \<longleftrightarrow> map_of hs (lc name) \<noteq> None"

text \<open>The table invariant: distinct keys, and no key with an empty list of values.\<close>

definition header_inv :: "header_map \<Rightarrow> bool" where
  "header_inv hs \<longleftrightarrow> distinct (map fst hs) \<and> list_all (\<lambda>(n, vs). vs \<noteq> []) hs"

lemma header_inv_Nil [simp]: "header_inv []"
  by (simp add: header_inv_def)

lemma update_nonempty:
  "list_all (\<lambda>(n, vs). vs \<noteq> []) hs \<Longrightarrow> vs \<noteq> [] \<Longrightarrow>
     list_all (\<lambda>(n, vs). vs \<noteq> []) (AList.update k vs hs)"
  by (induction hs) auto

lemma header_inv_insert: "header_inv hs \<Longrightarrow> header_inv (header_insert lc n v hs)"
  by (simp add: header_inv_def header_insert_def Let_def distinct_update update_nonempty)

lemma header_inv_remove: "header_inv hs \<Longrightarrow> header_inv (snd (header_remove lc hs n))"
proof -
  assume "header_inv hs"
  then have d: "distinct (map fst hs)" and p: "list_all (\<lambda>(n, vs). vs \<noteq> []) hs"
    by (simp_all add: header_inv_def)
  have "set (AList.delete (lc n) hs) \<subseteq> set hs"
    by (auto simp: AList.delete_eq)
  with p have "list_all (\<lambda>(n, vs). vs \<noteq> []) (AList.delete (lc n) hs)"
    by (auto simp: list_all_iff)
  with d show ?thesis
    by (simp add: header_inv_def header_remove_def distinct_delete)
qed

lemma header_get_insert:
  "header_get lc (header_insert lc n v hs) m =
     (if lc m = lc n then Some ((case header_get lc hs n of None \<Rightarrow> [] | Some vs \<Rightarrow> vs) @ [v])
      else header_get lc hs m)"
  by (simp add: header_get_def header_insert_def Let_def update_conv')

lemma header_get_remove:
  "header_get lc (snd (header_remove lc hs n)) m =
     (if lc m = lc n then None else header_get lc hs m)"
  by (simp add: header_get_def header_remove_def delete_conv')

lemma header_get_first_insert:
  "header_inv hs \<Longrightarrow>
   header_get_first lc (header_insert lc n v hs) m =
     (if lc m = lc n \<and> header_get lc hs n = None then Some v else header_get_first lc hs m)"
proof -
  assume inv: "header_inv hs"
  have "vs \<noteq> []" if "header_get lc hs n = Some vs" for vs
    using inv that by (auto simp: header_inv_def header_get_def list_all_iff dest!: map_of_SomeD)
  moreover have "header_get lc hs m = header_get lc hs n" if "lc m = lc n"
    using that by (simp add: header_get_def)
  ultimately show ?thesis
    by (cases "header_get lc hs n") (auto simp: header_get_first_def header_get_insert neq_Nil_conv)
qed

section \<open>Messages\<close>

text \<open>A streamed body: what the reader still has to deliver, and the size announced for it.
  Reading is one-shot; a failing reader reports an error text.\<close>

record large_body =
  lb_stream :: string
  lb_size :: nat
  lb_digest :: "string option"

datatype message_body = Small string | Large large_body

record mime_message =
  mm_headers :: header_map
  mm_body :: message_body

definition LargeBody_from_reader :: "string \<Rightarrow> nat \<Rightarrow> large_body" where
  "LargeBody_from_reader stream sz = \<lparr>lb_stream = stream, lb_size = sz, lb_digest = None\<rparr>"

definition read_to_bytes :: "string option \<Rightarrow> large_body \<Rightarrow> (mail_error + string) \<times> large_body" where
  "read_to_bytes io_error b =
     (case io_error of
        Some e \<Rightarrow> (Inl (ParseError (''read error: '' @ e)), b)
      | None \<Rightarrow> (Inr (lb_stream b), b\<lparr>lb_stream := []\<rparr>))"

text \<open>\<^verbatim>\<open>MimeMessage::extract_text\<close>; the stream of a large body is used up.\<close>

definition extract_text :: "string option \<Rightarrow> mime_message \<Rightarrow> string option \<times> mime_message" where
  "extract_text io_error msg =
     (case mm_body msg of
        Small bytes \<Rightarrow> (if utf8_valid bytes then Some bytes else None, msg)
      | Large large \<Rightarrow>
          (case read_to_bytes io_error large of
             (Inl e, _) \<Rightarrow> (None, msg)
           | (Inr data, large') \<Rightarrow> (Some (utf8_lossy data), msg\<lparr>mm_body := Large large'\<rparr>)))"

definition body_from_contents_with_threshold :: "string \<Rightarrow> nat \<Rightarrow> message_body" where
  "body_from_contents_with_threshold contents threshold =
     (if length contents \<le> threshold then Small contents
      else Large (LargeBody_from_reader contents (length contents)))"

fun body_size_of :: "message_body \<Rightarrow> nat" where
  "body_size_of (Small bytes) = length bytes"
| "body_size_of (Large large) = lb_size large"

definition body_size :: "mime_message \<Rightarrow> nat" where
  "body_size m = body_size_of (mm_body m)"

definition add_value_size :: "string \<Rightarrow> nat \<Rightarrow> string \<Rightarrow> nat" where
  "add_value_size name tot val =
     usize_saturating_add
       (usize_saturating_add
          (usize_saturating_add (usize_saturating_add tot (length name)) 2) (length val)) 2"

definition headers_size :: "header_map \<Rightarrow> nat" where
  "headers_size hs =
     foldl (\<lambda>tot (name, values). foldl (add_value_size name) tot values) 0 hs"

definition size_with_headers :: "mime_message \<Rightarrow> nat" where
  "size_with_headers m =
     usize_saturating_add (usize_saturating_add (headers_size (mm_headers m)) 2) (body_size m)"

text \<open>The serialised header block: a line \<^verbatim>\<open>Name: Value\<close> per value.\<close>

definition header_line :: "string \<Rightarrow> string \<Rightarrow> string" where
  "header_line name val = name @ '': '' @ val @ CRLF"

definition header_block :: "header_map \<Rightarrow> string" where
  "header_block hs = concat (map (\<lambda>(name, values). concat (map (header_line name) values)) hs)"

lemma usize_saturating_add_min:
  "usize_saturating_add (min a usize_max) b = min (a + b) usize_max"
  by (simp add: usize_saturating_add_def)

lemma add_value_size_min:
  "add_value_size name (min a usize_max) v = min (a + length (header_line name v)) usize_max"
  by (simp add: add_value_size_def usize_saturating_add_min header_line_def algebra_simps)

lemma values_size_min:
  "foldl (add_value_size name) (min a usize_max) vs =
     min (a + length (concat (map (header_line name) vs))) usize_max"
proof (induction vs arbitrary: a)
  case (Cons v vs)
  then show ?case by (simp add: add_value_size_min add.assoc)
qed simp

lemma headers_size_min: "headers_size hs = min (length (header_block hs)) usize_max"
proof -
  have "foldl (\<lambda>tot (name, values). foldl (add_value_size name) tot values) (min a usize_max) hs =
      min (a + length (header_block hs)) usize_max" for a
  proof (induction hs arbitrary: a)
    case Nil
    then show ?case by (simp add: header_block_def)
  next
    case (Cons h hs)
    obtain n vs where h: "h = (n, vs)" by (cases h)
    from Cons [of "a + length (concat (map (header_line n) vs))"] show ?case
      by (simp add: h values_size_min header_block_def add.assoc)
  qed
  from this [of 0] show ?thesis by (simp add: headers_size_def)
qed

lemma size_with_headers_min:
  "size_with_headers m = min (length (header_block (mm_headers m)) + 2 + body_size m) usize_max"
  by (simp add: size_with_headers_def headers_size_min usize_saturating_add_min)

lemma body_threshold_size:
  "body_size_of (body_from_contents_with_threshold c t) = length c"
  by (simp add: body_from_contents_with_threshold_def LargeBody_from_reader_def)

section \<open>Mail envelope\<close>

type_synonym uuid = "128 word"

datatype mail_id = MailId uuid
datatype message_id = MessageId uuid

datatype mail_state = Root | Transport | LocalDelivery | Error_state | Ghost | Custom string

fun mail_state_display :: "mail_state \<Rightarrow> string" where
  "mail_state_display Root = ''root''"
| "mail_state_display Transport = ''transport''"
| "mail_state_display LocalDelivery = ''local-delivery''"
| "mail_state_display Error_state = ''error''"
| "mail_state_display Ghost = ''ghost''"
| "mail_state_display (Custom s) = s"

text \<open>\<^verbatim>\<open>i64\<close> as a 64-bit word, \<^verbatim>\<open>f64\<close> as its bit pattern.\<close>

datatype attribute_value =
    AString string
  | AInteger "64 word"
  | AFloat "64 word"
  | ABoolean bool
  | ABytes string

fun attr_as_str :: "attribute_value \<Rightarrow> string option" where
  "attr_as_str (AString s) = Some s"
| "attr_as_str _ = None"

fun attr_as_i64 :: "attribute_value \<Rightarrow> 64 word option" where
  "attr_as_i64 (AInteger i) = Some i"
| "attr_as_i64 _ = None"

fun attr_as_f64 :: "attribute_value \<Rightarrow> 64 word option" where
  "attr_as_f64 (AFloat f) = Some f"
| "attr_as_f64 _ = None"

fun attr_as_bool :: "attribute_value \<Rightarrow> bool option" where
  "attr_as_bool (ABoolean b) = Some b"
| "attr_as_bool _ = None"

fun attr_as_bytes :: "attribute_value \<Rightarrow> string option" where
  "attr_as_bytes (ABytes b) = Some b"
| "attr_as_bytes _ = None"

record mail =
  m_id :: mail_id
  m_state :: mail_state
  m_sender :: "mail_address option"
  m_recipients :: "mail_address list"
  m_message :: mime_message
  m_attributes :: "(string \<times> attribute_value) list"
  m_remote_addr :: "ip_addr option"
  m_remote_host :: "string option"
  m_message_id :: message_id

definition Mail_with_message_id ::
  "mail_id \<Rightarrow> mail_address option \<Rightarrow> mail_address list \<Rightarrow> mime_message \<Rightarrow> ip_addr option \<Rightarrow>
     string option \<Rightarrow> message_id \<Rightarrow> mail" where
  "Mail_with_message_id new_id sender recipients message remote_addr remote_host message_id =
     \<lparr>m_id = new_id, m_state = Root, m_sender = sender, m_recipients = recipients,
      m_message = message, m_attributes = [], m_remote_addr = remote_addr,
      m_remote_host = remote_host, m_message_id = message_id\<rparr>"

definition Mail_new ::
  "mail_id \<Rightarrow> message_id \<Rightarrow> mail_address option \<Rightarrow> mail_address list \<Rightarrow> mime_message \<Rightarrow>
     ip_addr option \<Rightarrow> string option \<Rightarrow> mail" where
  "Mail_new new_id new_message_id sender recipients message remote_addr remote_host =
     \<lparr>m_id = new_id, m_state = Root, m_sender = sender, m_recipients = recipients,
      m_message = message, m_attributes = [], m_remote_addr = remote_addr,
      m_remote_host = remote_host, m_message_id = new_message_id\<rparr>"

definition get_attribute :: "mail \<Rightarrow> string \<Rightarrow> attribute_value option" where
  "get_attribute m key = map_of (m_attributes m) key"

definition set_attribute :: "string \<Rightarrow> attribute_value \<Rightarrow> mail \<Rightarrow> mail" where
  "set_attribute key val m = m\<lparr>m_attributes := AList.update key val (m_attributes m)\<rparr>"

definition remove_attribute :: "string \<Rightarrow> mail \<Rightarrow> attribute_value option \<times> mail" where
  "remove_attribute key m =
     (map_of (m_attributes m) key, m\<lparr>m_attributes := AList.delete key (m_attributes m)\<rparr>)"

definition set_sender :: "mail_address option \<Rightarrow> mail \<Rightarrow> mail" where
  "set_sender s m = m\<lparr>m_sender := s\<rparr>"

definition set_recipients :: "mail_address list \<Rightarrow> mail \<Rightarrow> mail" where
  "set_recipients rs m = m\<lparr>m_recipients := rs\<rparr>"

definition set_message :: "mime_message \<Rightarrow> mail \<Rightarrow> mail" where
  "set_message msg m = m\<lparr>m_message := msg\<rparr>"

definition mail_split :: "mail_id \<Rightarrow> mail \<Rightarrow> mail_address list \<Rightarrow> mail \<times> mail" where
  "mail_split new_id m matched =
     (let unmatched = filter (\<lambda>r. r \<notin> set matched) (m_recipients m);
          matched_mail = m\<lparr>m_id := new_id, m_recipients := matched\<rparr>
      in (matched_mail, m\<lparr>m_recipients := unmatched\<rparr>))"

definition mail_size :: "mail \<Rightarrow> nat" where
  "mail_size m = size_with_headers (m_message m)"

definition mail_body_size :: "mail \<Rightarrow> nat" where
  "mail_body_size m = body_size (m_message m)"

lemma get_set_attribute:
  "get_attribute (set_attribute k v m) k' = (if k' = k then Some v else get_attribute m k')"
  by (simp add: get_attribute_def set_attribute_def update_conv')

lemma get_remove_attribute:
  "get_attribute (snd (remove_attribute k m)) k' = (if k' = k then None else get_attribute m k')"
  by (simp add: get_attribute_def remove_attribute_def delete_conv')

lemma mail_split_recipients:
  assumes "mail_split new_id m matched = (a, b)" "set matched \<subseteq> set (m_recipients m)"
  shows "set (m_recipients a) \<union> set (m_recipients b) = set (m_recipients m)"
    and "set (m_recipients a) \<inter> set (m_recipients b) = {}"
  using assms by (auto simp: mail_split_def Let_def)

section \<open>Properties\<close>

text \<open>\<^verbatim>\<open>size_with_headers\<close> counts exactly the on-wire form: whatever order the header
  table is iterated in, the reported size is the length of the serialised header block, the
  blank line and the body, capped at the largest \<^verbatim>\<open>usize\<close>.\<close>

theorem size_with_headers_counts_wire_form:
  "mset hs = mset (mm_headers m) \<Longrightarrow> mm_body m = Small body \<Longrightarrow>
     size_with_headers m = min (length (header_block hs @ CRLF @ body)) usize_max"
proof -
  assume perm: "mset hs = mset (mm_headers m)" and body: "mm_body m = Small body"
  have len: "length (header_block hs) =
      sum_mset (image_mset (\<lambda>(n, vs). length (concat (map (header_line n) vs))) (mset hs))"
    for hs :: header_map
    by (induction hs) (auto simp: header_block_def)
  have "length (header_block hs) = length (header_block (mm_headers m))"
    by (simp add: len perm)
  with body show ?thesis by (simp add: size_with_headers_min body_size_def)
qed

theorem size_with_headers_counts_wire_form_witness:
  "size_with_headers \<lparr>mm_headers = [(''to'', [''b'']), (''from'', [''a'', ''c''])], mm_body = Small ''hi''\<rparr> = 29"
  using size_with_headers_counts_wire_form
    [of "[(''from'', [''a'', ''c'']), (''to'', [''b''])]"
        "\<lparr>mm_headers = [(''to'', [''b'']), (''from'', [''a'', ''c''])], mm_body = Small ''hi''\<rparr>" "''hi''"]
  by (simp add: header_block_def header_line_def usize_max_def add_mset_commute)

text \<open>Splitting a mail over a sub-list of its recipients loses and duplicates nobody: the
  matched copy has exactly the matched recipients under a fresh identifier, the original keeps
  exactly the others in order, and both keep sender, message, attributes and state.\<close>

theorem mail_split_partitions:
  assumes "mail_split new_id m matched = (a, b)" "set matched \<subseteq> set (m_recipients m)"
  shows "m_recipients a = matched \<and>
    set (m_recipients a) \<inter> set (m_recipients b) = {} \<and>
    set (m_recipients a) \<union> set (m_recipients b) = set (m_recipients m) \<and>
    subseq (m_recipients b) (m_recipients m) \<and>
    m_id a = new_id \<and> m_id b = m_id m \<and>
    a\<lparr>m_id := m_id m, m_recipients := m_recipients m\<rparr> = m \<and>
    b\<lparr>m_recipients := m_recipients m\<rparr> = m"
  using mail_split_recipients [OF assms] assms(1)
  by (auto simp: mail_split_def Let_def subseq_filter_left)

definition demo_address :: "string \<Rightarrow> mail_address" where
  "demo_address l = \<lparr>local_part = l, addr_domain = Domain ''x.org''\<rparr>"

definition demo_mail :: "string list \<Rightarrow> mail" where
  "demo_mail ls = Mail_new (MailId 1) (MessageId 2) None (map demo_address ls)
     \<lparr>mm_headers = [], mm_body = Small ''hi''\<rparr> None None"

theorem mail_split_partitions_witness:
  "map local_part (m_recipients (fst (mail_split (MailId 7) (demo_mail [''a'', ''b'', ''c'']) [demo_address ''b''])))
     = [''b''] \<and>
   set (m_recipients (snd (mail_split (MailId 7) (demo_mail [''a'', ''b'', ''c'']) [demo_address ''b''])))
     \<inter> {demo_address ''b''} = {}"
  using mail_split_partitions [of "MailId 7" "demo_mail [''a'', ''b'', ''c'']" "[demo_address ''b'']"
      "fst (mail_split (MailId 7) (demo_mail [''a'', ''b'', ''c'']) [demo_address ''b''])"
      "snd (mail_split (MailId 7) (demo_mail [''a'', ''b'', ''c'']) [demo_address ''b''])"]
  by (simp add: demo_mail_def demo_address_def Mail_new_def mail_split_def)

end
