(* ===== verification/Proto_Mime.thy ===== *)
theory Proto_Mime
  imports Proto_Mail
begin

text \<open>
  Model of \<^verbatim>\<open>crates/rusmes-proto/src/mime.rs\<close> and of the parsing entry points of
  \<^verbatim>\<open>message.rs\<close>: header unfolding and folding, header parsing, \<^verbatim>\<open>Content-Type\<close>, the
  base64 and quoted-printable codecs and the multipart splitter.  Bytes are characters;
  the codecs compute on \<^typ>\<open>8 word\<close> as the source computes on \<^verbatim>\<open>u8\<close>.  The lemmas give
  the round trips of both codecs, the round trip of header blocks, and what the parser loses.
\<close>

unbundle bit_operations_syntax

section \<open>Header unfolding and folding\<close>

abbreviation is_wsp :: "char \<Rightarrow> bool" where
  "is_wsp c \<equiv> c = CHR '' '' \<or> c = CHR 0x09"

text \<open>The flags are \<^verbatim>\<open>prev_was_cr\<close> and \<^verbatim>\<open>prev_was_lf\<close>.  Every character that is tested is
  ASCII, so the loop over characters is a loop over bytes.\<close>

function unfold_loop :: "bool \<Rightarrow> bool \<Rightarrow> string \<Rightarrow> string" where
  "unfold_loop cr lf [] = []"
| "unfold_loop cr lf (c # cs) =
     (if c = CHR 0x0D then unfold_loop True False cs
      else if c = CHR 0x0A then unfold_loop False True cs
      else if is_wsp c then
        (if lf then CHR '' '' # unfold_loop False False (dropWhile is_wsp cs)
         else c # unfold_loop False False cs)
      else c # unfold_loop False False cs)"
  by pat_completeness auto
termination
  by (relation "measure (\<lambda>(cr, lf, s). length s)") (auto simp: le_imp_less_Suc length_dropWhile_le)

definition unfold_header :: "string \<Rightarrow> string" where
  "unfold_header val = unfold_loop False False val"

record fold_state =
  fs_result :: string
  fs_line_len :: nat
  fs_last_space :: nat
  fs_pending :: string

definition fold_step :: "nat \<Rightarrow> fold_state \<Rightarrow> string \<Rightarrow> fold_state" where
  "fold_step max_len st ch =
     (let pending = fs_pending st @ ch;
          line_len = fs_line_len st + 1;
          last_space = (if ch = '' '' \<or> ch = [CHR 0x09] then length pending else fs_last_space st)
      in if max_len \<le> line_len \<and> 0 < last_space then
           (let rest = trim_start (drop last_space pending) in
            \<lparr>fs_result = fs_result st @ take last_space pending @ CRLF @ '' '',
             fs_line_len = length rest, fs_last_space = 0, fs_pending = rest\<rparr>)
         else \<lparr>fs_result = fs_result st, fs_line_len = line_len,
               fs_last_space = last_space, fs_pending = pending\<rparr>)"

definition fold_header :: "string \<Rightarrow> nat \<Rightarrow> string" where
  "fold_header val max_len =
     (if length val \<le> max_len then val
      else
        (let st = foldl (fold_step max_len)
                    \<lparr>fs_result = [], fs_line_len = 0, fs_last_space = 0, fs_pending = []\<rparr>
                    (utf8_chars val)
         in fs_result st @ fs_pending st))"

section \<open>Header parsing\<close>

type_synonym flat_headers = "(string \<times> string) list"

fun position :: "('a \<Rightarrow> bool) \<Rightarrow> 'a list \<Rightarrow> nat option" where
  "position P [] = None"
| "position P (x # xs) = (if P x then Some 0 else map_option Suc (position P xs))"

definition flush_header :: "(string \<times> string) option \<Rightarrow> flat_headers \<Rightarrow> flat_headers" where
  "flush_header cur hs =
     (case cur of None \<Rightarrow> hs | Some (name, val) \<Rightarrow> AList.update name (unfold_header val) hs)"

definition header_of_line :: "(string \<Rightarrow> string) \<Rightarrow> string \<Rightarrow> (string \<times> string) option" where
  "header_of_line lc line =
     (case position (\<lambda>b. b = CHR '':'') line of
        None \<Rightarrow> None
      | Some p \<Rightarrow> Some (lc (trim (utf8_lossy (take p line))), utf8_lossy (drop (p + 1) line)))"

text \<open>One non-empty line: a continuation is appended to the pending header, anything else
  stores the pending header and starts a new one.\<close>

definition header_line_step ::
    "(string \<Rightarrow> string) \<Rightarrow> string \<Rightarrow> (string \<times> string) option \<Rightarrow> flat_headers \<Rightarrow>
       (string \<times> string) option \<times> flat_headers" where
  "header_line_step lc line cur hs =
     (if is_wsp (hd line) then
        (case cur of
           Some (name, val) \<Rightarrow> (Some (name, val @ utf8_lossy line), hs)
         | None \<Rightarrow> (None, hs))
      else (header_of_line lc line, flush_header cur hs))"

text \<open>The scanning loop: \<open>pos\<close> and \<open>line_start\<close> are the indices of the source; the result is
  the table, the pending header and the final \<^verbatim>\<open>pos\<close>.\<close>

function parse_headers_loop ::
    "(string \<Rightarrow> string) \<Rightarrow> string \<Rightarrow> nat \<Rightarrow> nat \<Rightarrow> (string \<times> string) option \<Rightarrow> flat_headers \<Rightarrow>
       flat_headers \<times> (string \<times> string) option \<times> nat" where
  "parse_headers_loop lc data pos line_start cur hs =
     (if length data \<le> pos then (hs, cur, pos)
      else
        let crlf = (pos + 1 < length data \<and> data ! pos = CHR 0x0D \<and> data ! (pos + 1) = CHR 0x0A);
            lf = (data ! pos = CHR 0x0A)
        in if \<not> crlf \<and> \<not> lf then parse_headers_loop lc data (pos + 1) line_start cur hs
           else
             let next = (if crlf then pos + 2 else pos + 1);
                 line = take (pos - line_start) (drop line_start data)
             in if line = [] then (flush_header cur hs, None, next)
                else (case header_line_step lc line cur hs of
                        (cur', hs') \<Rightarrow> parse_headers_loop lc data next next cur' hs'))"
  by pat_completeness auto
termination
  by (relation "measure (\<lambda>(lc, data, pos, ls, cur, hs). length data - pos)") (auto split: if_splits)

declare parse_headers_loop.simps [simp del]

definition parse_headers :: "(string \<Rightarrow> string) \<Rightarrow> string \<Rightarrow> flat_headers \<times> nat" where
  "parse_headers lc data =
     (case parse_headers_loop lc data 0 0 None [] of
        (hs, cur, pos) \<Rightarrow> (flush_header cur hs, pos))"

definition to_header_map :: "(string \<Rightarrow> string) \<Rightarrow> flat_headers \<Rightarrow> header_map" where
  "to_header_map lc hs = foldl (\<lambda>m (name, val). header_insert lc name val m) [] hs"

definition HeaderMap_parse_from_bytes :: "(string \<Rightarrow> string) \<Rightarrow> string \<Rightarrow> header_map \<times> nat" where
  "HeaderMap_parse_from_bytes lc data =
     (case parse_headers lc data of (hs, off) \<Rightarrow> (to_header_map lc hs, off))"

definition MimeMessage_parse_from_bytes :: "(string \<Rightarrow> string) \<Rightarrow> string \<Rightarrow> mime_message" where
  "MimeMessage_parse_from_bytes lc data =
     (case parse_headers lc data of
        (hs, off) \<Rightarrow>
          \<lparr>mm_headers = to_header_map lc hs,
           mm_body = Small (if off < length data then drop off data else [])\<rparr>)"

section \<open>Content types and encodings\<close>

datatype content_transfer_encoding = SevenBit | EightBit | Binary | QuotedPrintable | Base64

definition ContentTransferEncoding_parse ::
    "(string \<Rightarrow> string) \<Rightarrow> string \<Rightarrow> content_transfer_encoding" where
  "ContentTransferEncoding_parse lc s =
     (let l = lc s in
      if l = ''quoted-printable'' then QuotedPrintable
      else if l = ''base64'' then Base64
      else if l = ''8bit'' then EightBit
      else if l = ''binary'' then Binary
      else SevenBit)"

record content_type =
  ct_main_type :: string
  ct_sub_type :: string
  ct_parameters :: "(string \<times> string) list"

definition unquote_param :: "string \<Rightarrow> string" where
  "unquote_param v =
     (if starts_with v [CHR 0x22] \<and> ends_with v [CHR 0x22] \<and> 2 \<le> length v
      then take (length v - 2) (drop 1 v) else v)"

definition add_param ::
    "(string \<Rightarrow> string) \<Rightarrow> (string \<times> string) list \<Rightarrow> string \<Rightarrow> (string \<times> string) list" where
  "add_param lc ps raw =
     (let param = trim raw in
      if param = [] then ps
      else case position (\<lambda>c. c = CHR ''='') param of
        None \<Rightarrow> ps
      | Some p \<Rightarrow> AList.update (lc (trim (take p param)))
                    (unquote_param (trim (drop (p + 1) param))) ps)"

definition ContentType_parse :: "(string \<Rightarrow> string) \<Rightarrow> string \<Rightarrow> mail_error + content_type" where
  "ContentType_parse lc raw =
     (let val = trim raw;
          (type_part, params_part) =
            (case position (\<lambda>c. c = CHR '';'') val of
               Some p \<Rightarrow> (take p val, drop (p + 1) val)
             | None \<Rightarrow> (val, []))
      in case position (\<lambda>c. c = CHR ''/'') type_part of
           None \<Rightarrow> Inl (ParseError (''Invalid Content-Type format: '' @ val))
         | Some p \<Rightarrow>
             Inr \<lparr>ct_main_type = lc (trim (take p type_part)),
                  ct_sub_type = lc (trim (drop (p + 1) type_part)),
                  ct_parameters = foldl (add_param lc) [] (split_on (CHR '';'') params_part)\<rparr>)"

definition boundary :: "content_type \<Rightarrow> string option" where
  "boundary ct = map_of (ct_parameters ct) ''boundary''"

definition charset :: "content_type \<Rightarrow> string option" where
  "charset ct = map_of (ct_parameters ct) ''charset''"

definition is_multipart :: "content_type \<Rightarrow> bool" where
  "is_multipart ct \<longleftrightarrow> ct_main_type ct = ''multipart''"

definition message_content_type ::
    "(string \<Rightarrow> string) \<Rightarrow> mime_message \<Rightarrow> mail_error + content_type option" where
  "message_content_type lc m =
     (case header_get_first lc (mm_headers m) ''content-type'' of
        None \<Rightarrow> Inr None
      | Some ct \<Rightarrow> (case ContentType_parse lc ct of Inl e \<Rightarrow> Inl e | Inr c \<Rightarrow> Inr (Some c)))"

definition message_transfer_encoding ::
    "(string \<Rightarrow> string) \<Rightarrow> mime_message \<Rightarrow> content_transfer_encoding" where
  "message_transfer_encoding lc m =
     (case header_get_first lc (mm_headers m) ''content-transfer-encoding'' of
        None \<Rightarrow> SevenBit
      | Some cte \<Rightarrow> ContentTransferEncoding_parse lc (trim cte))"

section \<open>Base64\<close>

definition b64_alphabet :: string where
  "b64_alphabet = ''ABCDEFGHIJKLMNOPQRSTUVWXYZabcdefghijklmnopqrstuvwxyz0123456789+/''"

definition b64_decode_table :: "8 word list" where
  "b64_decode_table =
     foldl (\<lambda>t (i, ch). t[code_of ch := of_nat i]) (replicate 256 255)
       (zip [0..<length b64_alphabet] b64_alphabet)"

definition b64_char :: "8 word \<Rightarrow> char" where
  "b64_char w = b64_alphabet ! unat w"

fun encode_base64 :: "string \<Rightarrow> string" where
  "encode_base64 (c0 # c1 # c2 # cs) =
     (let b0 = byte_of c0; b1 = byte_of c1; b2 = byte_of c2 in
      [b64_char (drop_bit 2 b0),
       b64_char (push_bit 4 (b0 AND 0x03) OR drop_bit 4 b1),
       b64_char (push_bit 2 (b1 AND 0x0f) OR drop_bit 6 b2),
       b64_char (b2 AND 0x3f)] @ encode_base64 cs)"
| "encode_base64 [c0, c1] =
     (let b0 = byte_of c0; b1 = byte_of c1 in
      [b64_char (drop_bit 2 b0),
       b64_char (push_bit 4 (b0 AND 0x03) OR drop_bit 4 b1),
       b64_char (push_bit 2 (b1 AND 0x0f)), CHR ''=''])"
| "encode_base64 [c0] =
     (let b0 = byte_of c0 in
      [b64_char (drop_bit 2 b0), b64_char (push_bit 4 (b0 AND 0x03)), CHR ''='', CHR ''=''])"
| "encode_base64 [] = []"

definition b64_value :: "char \<Rightarrow> 8 word" where
  "b64_value c = b64_decode_table ! code_of c"

text \<open>The loop over complete groups of four; a shorter rest is ignored.\<close>

fun decode_base64_loop :: "string \<Rightarrow> mail_error + string" where
  "decode_base64_loop (b0 # b1 # b2 # b3 # bs) =
     (let v0 = b64_value b0; v1 = b64_value b1;
          v2 = (if b2 = CHR ''='' then 0 else b64_value b2);
          v3 = (if b3 = CHR ''='' then 0 else b64_value b3)
      in if v0 = 255 \<or> v1 = 255 then Inl (ParseError ''Invalid base64 character'')
         else
           let out = [chr_of (push_bit 2 v0 OR drop_bit 4 v1)] @
                     (if b2 \<noteq> CHR ''='' then [chr_of (push_bit 4 v1 OR drop_bit 2 v2)] else []) @
                     (if b3 \<noteq> CHR ''='' then [chr_of (push_bit 6 v2 OR v3)] else [])
           in (case decode_base64_loop bs of Inl e \<Rightarrow> Inl e | Inr r \<Rightarrow> Inr (out @ r)))"
| "decode_base64_loop _ = Inr []"

definition decode_base64 :: "string \<Rightarrow> mail_error + string" where
  "decode_base64 data =
     decode_base64_loop
       (filter (\<lambda>b. \<not> (b = CHR 0x0D \<or> b = CHR 0x0A \<or> b = CHR '' '' \<or> b = CHR 0x09)) data)"

section \<open>Quoted-printable\<close>

definition hex_value :: "char \<Rightarrow> 8 word option" where
  "hex_value c =
     (let n = code_of c; b = byte_of c in
      if 48 \<le> n \<and> n \<le> 57 then Some (b - 48)
      else if 65 \<le> n \<and> n \<le> 70 then Some (b - 65 + 10)
      else if 97 \<le> n \<and> n \<le> 102 then Some (b - 97 + 10)
      else None)"

fun decode_quoted_printable :: "string \<Rightarrow> string" where
  "decode_quoted_printable [] = []"
| "decode_quoted_printable (c # cs) =
     (if c = CHR ''='' then
        (case cs of
           c1 # c2 # rest \<Rightarrow>
             (if c1 = CHR 0x0D \<and> rest \<noteq> [] \<and> c2 = CHR 0x0A then decode_quoted_printable rest
              else if c1 = CHR 0x0A then decode_quoted_printable (c2 # rest)
              else (case (hex_value c1, hex_value c2) of
                      (Some h1, Some h2) \<Rightarrow>
                        chr_of (push_bit 4 h1 OR h2) # decode_quoted_printable rest
                    | _ \<Rightarrow> CHR ''='' # decode_quoted_printable cs))
         | _ \<Rightarrow> CHR ''='' # decode_quoted_printable cs)
      else c # decode_quoted_printable cs)"

definition hex2 :: "nat \<Rightarrow> string" where
  "hex2 n = [hex_upper (n div 16), hex_upper n]"

definition qp_needs_encoding :: "char \<Rightarrow> bool" where
  "qp_needs_encoding b \<longleftrightarrow> \<not> (33 \<le> code_of b \<and> code_of b \<le> 126) \<or> b = CHR ''=''"

fun qp_encode_loop :: "nat \<Rightarrow> string \<Rightarrow> string" where
  "qp_encode_loop line_len [] = []"
| "qp_encode_loop line_len (b # bs) =
     (if qp_needs_encoding b then
        (let encoded = CHR ''='' # hex2 (code_of b) in
         if 76 < line_len + length encoded
         then ''='' @ CRLF @ encoded @ qp_encode_loop (length encoded) bs
         else encoded @ qp_encode_loop (line_len + length encoded) bs)
      else if 76 \<le> line_len then ''='' @ CRLF @ [b] @ qp_encode_loop 1 bs
      else b # qp_encode_loop (line_len + 1) bs)"

definition encode_quoted_printable :: "string \<Rightarrow> string" where
  "encode_quoted_printable data = qp_encode_loop 0 data"

section \<open>Multipart bodies\<close>

record mime_part =
  mp_headers :: flat_headers
  mp_body :: string

fun trim_trailing_rev :: "string \<Rightarrow> string" where
  "trim_trailing_rev (c # cs) =
     (if c = CHR 0x0A then
        (case cs of
           d # ds \<Rightarrow> if d = CHR 0x0D then trim_trailing_rev ds else trim_trailing_rev cs
         | [] \<Rightarrow> [])
      else c # cs)"
| "trim_trailing_rev [] = []"

definition trim_trailing_crlf :: "string \<Rightarrow> string" where
  "trim_trailing_crlf data = rev (trim_trailing_rev (rev data))"

definition skip_line :: "string \<Rightarrow> string" where
  "skip_line s = drop 1 (dropWhile (\<lambda>c. c \<noteq> CHR 0x0A) s)"

text \<open>The text before the next boundary, whether it is the closing one, and the text from it on.\<close>

fun find_boundary :: "string \<Rightarrow> string \<Rightarrow> string \<Rightarrow> (string \<times> bool \<times> string) option" where
  "find_boundary sm em [] = None"
| "find_boundary sm em (c # cs) =
     (if starts_with (c # cs) em then Some ([], True, c # cs)
      else if starts_with (c # cs) sm then Some ([], False, c # cs)
      else map_option (\<lambda>(p, is_end, r). (c # p, is_end, r)) (find_boundary sm em cs))"

fun skip_to_first :: "string \<Rightarrow> string \<Rightarrow> string" where
  "skip_to_first sm [] = []"
| "skip_to_first sm (c # cs) =
     (if starts_with (c # cs) sm then skip_line (drop (length sm) (c # cs))
      else skip_to_first sm cs)"

definition part_of_data :: "(string \<Rightarrow> string) \<Rightarrow> string \<Rightarrow> mime_part" where
  "part_of_data lc part_data =
     (case parse_headers lc part_data of
        (hs, headers_end) \<Rightarrow>
          \<lparr>mp_headers = hs,
           mp_body = trim_trailing_crlf
             (if headers_end < length part_data then drop headers_end part_data else [])\<rparr>)"

lemma find_boundary_split:
  "find_boundary sm em s = Some (p, is_end, r) \<Longrightarrow> s = p @ r"
  by (induction s arbitrary: p) (auto split: if_splits)

lemma length_skip_line: "length (skip_line s) \<le> length s"
  using length_dropWhile_le [of "\<lambda>c. c \<noteq> CHR 0x0A" s] by (simp add: skip_line_def)

function parts_loop :: "(string \<Rightarrow> string) \<Rightarrow> string \<Rightarrow> string \<Rightarrow> mime_part list" where
  "parts_loop lc bnd s =
     (if s = [] then []
      else case find_boundary (''--'' @ bnd) (''--'' @ bnd @ ''--'') s of
        None \<Rightarrow> []
      | Some (part_data, is_end, r) \<Rightarrow>
          part_of_data lc part_data #
            (if is_end then []
             else parts_loop lc bnd (skip_line (drop (length (''--'' @ bnd)) r))))"
  by pat_completeness auto
termination
proof (relation "measure (\<lambda>(lc, bnd, s). length s)", goal_cases)
  case 1
  show ?case by simp
next
  case (2 lc bnd s x p y is_end r)
  then have s: "s = p @ r" by (auto dest: find_boundary_split)
  have "length (skip_line (drop (length (''--'' @ bnd)) r)) \<le> length r - (length bnd + 2)"
    using length_skip_line [of "drop (length (''--'' @ bnd)) r"] by simp
  with s \<open>s \<noteq> []\<close> show ?case by (cases r) (auto simp: less_Suc_eq_le)
qed

declare parts_loop.simps [simp del]

definition split_multipart :: "(string \<Rightarrow> string) \<Rightarrow> string \<Rightarrow> string \<Rightarrow> mime_part list" where
  "split_multipart lc body bnd = parts_loop lc bnd (skip_to_first (''--'' @ bnd) body)"

definition part_transfer_encoding ::
    "(string \<Rightarrow> string) \<Rightarrow> mime_part \<Rightarrow> content_transfer_encoding" where
  "part_transfer_encoding lc p =
     (case map_of (mp_headers p) ''content-transfer-encoding'' of
        None \<Rightarrow> SevenBit
      | Some cte \<Rightarrow> ContentTransferEncoding_parse lc (trim cte))"

definition part_content_type ::
    "(string \<Rightarrow> string) \<Rightarrow> mime_part \<Rightarrow> mail_error + content_type option" where
  "part_content_type lc p =
     (case map_of (mp_headers p) ''content-type'' of
        None \<Rightarrow> Inr None
      | Some ct \<Rightarrow> (case ContentType_parse lc ct of Inl e \<Rightarrow> Inl e | Inr c \<Rightarrow> Inr (Some c)))"

definition decode_bytes :: "content_transfer_encoding \<Rightarrow> string \<Rightarrow> mail_error + string" where
  "decode_bytes enc bytes =
     (case enc of
        Base64 \<Rightarrow> decode_base64 bytes
      | QuotedPrintable \<Rightarrow> Inr (decode_quoted_printable bytes)
      | _ \<Rightarrow> Inr bytes)"

definition part_decode_body :: "(string \<Rightarrow> string) \<Rightarrow> mime_part \<Rightarrow> mail_error + string" where
  "part_decode_body lc p = decode_bytes (part_transfer_encoding lc p) (mp_body p)"

text \<open>Reading the body of a message: a streamed body is read to its end first; \<open>io_error\<close> is
  the failure of that read, if it fails.\<close>

definition read_body :: "string option \<Rightarrow> message_body \<Rightarrow> (mail_error + string) \<times> message_body" where
  "read_body io_error b =
     (case b of
        Small bytes \<Rightarrow> (Inr bytes, b)
      | Large l \<Rightarrow> (case read_to_bytes io_error l of (r, l') \<Rightarrow> (r, Large l')))"

definition message_decode_body ::
    "(string \<Rightarrow> string) \<Rightarrow> string option \<Rightarrow> mime_message \<Rightarrow> mail_error + string" where
  "message_decode_body lc io_error m =
     (case fst (read_body io_error (mm_body m)) of
        Inl e \<Rightarrow> Inl e
      | Inr bytes \<Rightarrow> decode_bytes (message_transfer_encoding lc m) bytes)"

definition message_parse_multipart ::
    "(string \<Rightarrow> string) \<Rightarrow> string option \<Rightarrow> mime_message \<Rightarrow> mail_error + mime_part list" where
  "message_parse_multipart lc io_error m =
     (case message_content_type lc m of
        Inl e \<Rightarrow> Inl e
      | Inr None \<Rightarrow> Inl (ParseError ''No Content-Type header'')
      | Inr (Some ct) \<Rightarrow>
          (if \<not> is_multipart ct then Inl (ParseError ''Not a multipart message'')
           else case boundary ct of
             None \<Rightarrow> Inl (ParseError ''No boundary in multipart'')
           | Some bnd \<Rightarrow>
               (case fst (read_body io_error (mm_body m)) of
                  Inl e \<Rightarrow> Inl e
                | Inr bytes \<Rightarrow> Inr (split_multipart lc bytes bnd))))"

section \<open>Round trips of the codecs\<close>

abbreviation table_put :: "8 word list \<Rightarrow> nat \<times> char \<Rightarrow> 8 word list" where
  "table_put t ic \<equiv> t[code_of (snd ic) := of_nat (fst ic)]"

lemma table_put_other:
  "n \<notin> code_of ` set as \<Longrightarrow> foldl table_put t (zip [k..<k + length as] as) ! n = t ! n"
proof (induction as arbitrary: t k)
  case (Cons a as)
  have upt: "[k..<k + length (a # as)] = k # [Suc k..<Suc k + length as]" by (simp add: upt_rec)
  from Cons.IH [of "t[code_of a := of_nat k]" "Suc k"] Cons.prems show ?case
    unfolding upt by simp
qed simp

lemma table_put_nth:
  "distinct as \<Longrightarrow> i < length as \<Longrightarrow> length t = 256 \<Longrightarrow>
     foldl table_put t (zip [k..<k + length as] as) ! code_of (as ! i) = of_nat (k + i)"
proof (induction as arbitrary: t k i)
  case (Cons a as)
  have upt: "[k..<k + length (a # as)] = k # [Suc k..<Suc k + length as]" by (simp add: upt_rec)
  show ?case
  proof (cases i)
    case 0
    from Cons.prems(1) have "code_of a \<notin> code_of ` set as" by auto
    with table_put_other [of "code_of a" as "t[code_of a := of_nat k]" "Suc k"] Cons.prems(3) 0
    show ?thesis unfolding upt by simp
  next
    case (Suc j)
    with Cons.IH [of j "t[code_of a := of_nat k]" "Suc k"] Cons.prems
    show ?thesis unfolding upt by simp
  qed
qed simp

lemma b64_decode_alphabet:
  assumes "unat w < 64"
  shows "b64_value (b64_char w) = w" "b64_char w \<noteq> CHR ''=''" "w \<noteq> 255"
proof -
  have len: "length b64_alphabet = 64" "distinct b64_alphabet" "CHR ''='' \<notin> set b64_alphabet"
    by (simp_all add: b64_alphabet_def)
  have "b64_value (b64_alphabet ! unat w) = of_nat (0 + unat w)"
    using table_put_nth [of b64_alphabet "unat w" "replicate 256 255" 0] assms len
    by (simp add: b64_value_def b64_decode_table_def case_prod_unfold)
  then show "b64_value (b64_char w) = w" by (simp add: b64_char_def)
  have "b64_char w \<in> set b64_alphabet" using assms len(1) by (simp add: b64_char_def)
  with len(3) show "b64_char w \<noteq> CHR ''=''" by auto
  show "w \<noteq> 255" using assms by auto
qed

lemma lt_8_cases:
  "n < (8::nat) \<Longrightarrow> n = 0 \<or> n = 1 \<or> n = 2 \<or> n = 3 \<or> n = 4 \<or> n = 5 \<or> n = 6 \<or> n = 7"
  by arith

lemma byte_eqI: "(\<And>n. n < 8 \<Longrightarrow> bit a n = bit b n) \<Longrightarrow> a = (b :: 8 word)"
  by (rule bit_word_eqI) simp

lemma byte_bit_beyond: "8 \<le> n \<Longrightarrow> \<not> bit (b :: 8 word) n"
  using bit_imp_le_length [of b n] by auto

lemma sextet_bound: "\<not> bit w 6 \<Longrightarrow> \<not> bit w 7 \<Longrightarrow> unat (w :: 8 word) < 64"
proof -
  assume "\<not> bit w 6" "\<not> bit w 7"
  then have "n < 6" if "bit w n" "n < 8" for n
    using that by (cases "n = 6"; cases "n = 7") auto
  then have "w = take_bit 6 w" by (intro byte_eqI) (auto simp: bit_take_bit_iff)
  then have "unat w = take_bit 6 (unat w)" by (metis unsigned_take_bit_eq)
  then show ?thesis using take_bit_nat_less_exp [of 6 "unat w"] by simp
qed

lemma b64_sextets:
  fixes b c :: "8 word"
  shows "unat (drop_bit 2 b) < 64"
    and "unat (push_bit 4 (b AND 0x03) OR drop_bit 4 c) < 64"
    and "unat (push_bit 2 (b AND 0x0f) OR drop_bit 6 c) < 64"
    and "unat (b AND 0x3f) < 64"
    and "unat (push_bit 4 (b AND 0x03)) < 64"
    and "unat (push_bit 2 (b AND 0x0f)) < 64"
  by (rule sextet_bound; simp add: bit_simps byte_bit_beyond)+

lemma b64_merge:
  fixes b0 b1 b2 :: "8 word"
  shows "push_bit 2 (drop_bit 2 b0) OR drop_bit 4 (push_bit 4 (b0 AND 0x03) OR drop_bit 4 b1) = b0"
    and "push_bit 4 (push_bit 4 (b0 AND 0x03) OR drop_bit 4 b1) OR
           drop_bit 2 (push_bit 2 (b1 AND 0x0f) OR drop_bit 6 b2) = b1"
    and "push_bit 6 (push_bit 2 (b1 AND 0x0f) OR drop_bit 6 b2) OR (b2 AND 0x3f) = b2"
  by (rule byte_eqI, drule lt_8_cases, elim disjE; simp add: bit_simps)+

lemma b64_merge_short:
  fixes b0 b1 :: "8 word"
  shows "push_bit 2 (drop_bit 2 b0) OR drop_bit 4 (push_bit 4 (b0 AND 0x03)) = b0"
    and "push_bit 4 (push_bit 4 (b0 AND 0x03) OR drop_bit 4 b1) OR
           drop_bit 2 (push_bit 2 (b1 AND 0x0f)) = b1"
  using b64_merge(1) [of b0 0] b64_merge(2) [of b0 b1 0] by (simp_all only: drop_bit_of_0 or.right_neutral)

lemma decode_group4:
  assumes "unat v0 < 64" "unat v1 < 64" "unat v2 < 64" "unat v3 < 64" "decode_base64_loop r = Inr t"
  shows "decode_base64_loop (b64_char v0 # b64_char v1 # b64_char v2 # b64_char v3 # r) =
    Inr (chr_of (push_bit 2 v0 OR drop_bit 4 v1) # chr_of (push_bit 4 v1 OR drop_bit 2 v2) #
         chr_of (push_bit 6 v2 OR v3) # t)"
  using assms b64_decode_alphabet [of v0] b64_decode_alphabet [of v1] b64_decode_alphabet [of v2]
    b64_decode_alphabet [of v3] by simp

lemma decode_group3:
  assumes "unat v0 < 64" "unat v1 < 64" "unat v2 < 64"
  shows "decode_base64_loop [b64_char v0, b64_char v1, b64_char v2, CHR ''=''] =
    Inr [chr_of (push_bit 2 v0 OR drop_bit 4 v1), chr_of (push_bit 4 v1 OR drop_bit 2 v2)]"
  using assms b64_decode_alphabet [of v0] b64_decode_alphabet [of v1] b64_decode_alphabet [of v2]
  by simp

lemma decode_group2:
  assumes "unat v0 < 64" "unat v1 < 64"
  shows "decode_base64_loop [b64_char v0, b64_char v1, CHR ''='', CHR ''=''] =
    Inr [chr_of (push_bit 2 v0 OR drop_bit 4 v1)]"
  using assms b64_decode_alphabet [of v0] b64_decode_alphabet [of v1] by simp

lemma decode_encode_base64_loop: "decode_base64_loop (encode_base64 d) = Inr d"
proof (induction d rule: encode_base64.induct)
  case (1 c0 c1 c2 cs)
  then have IH: "decode_base64_loop (encode_base64 cs) = Inr cs" by simp
  show ?case
    unfolding encode_base64.simps Let_def append.simps
    by (subst decode_group4 [OF b64_sextets(1,2,3,4) IH]) (simp only: b64_merge chr_of_byte_of)
next
  case (2 c0 c1)
  show ?case
    unfolding encode_base64.simps Let_def
    by (subst decode_group3 [OF b64_sextets(1,2,6)]) (simp only: b64_merge b64_merge_short chr_of_byte_of)
next
  case (3 c0)
  show ?case
    unfolding encode_base64.simps Let_def
    by (subst decode_group2 [OF b64_sextets(1,5)]) (simp only: b64_merge_short chr_of_byte_of)
next
  case 4
  show ?case by simp
qed

text \<open>Base64 round trip: encoding any byte string and decoding the result, even after line
  breaks and blanks have been put anywhere into it, gives back the original bytes.\<close>

theorem base64_roundtrip:
  "filter (\<lambda>b. b \<notin> {CHR 0x0D, CHR 0x0A, CHR '' '', CHR 0x09}) s = encode_base64 d \<Longrightarrow>
     decode_base64 s = Inr d"
  by (simp add: decode_base64_def decode_encode_base64_loop)

theorem base64_roundtrip_witness:
  "decode_base64 (''aGVs'' @ CRLF @ '' bG8='') = Inr ''hello''"
  by (rule base64_roundtrip [of "''aGVs'' @ CRLF @ '' bG8=''" "''hello''"]) code_simp

section \<open>Round trip of quoted-printable\<close>

lemma hex_value_hex_upper: "hex_value (hex_upper n) = Some (of_nat (n mod 16))"
proof -
  have "list_all (\<lambda>k. hex_value (hex_upper k) = Some (of_nat k)) [0..<16]" by code_simp
  then have "hex_value (hex_upper (n mod 16)) = Some (of_nat (n mod 16))"
    by (simp add: list_all_iff)
  then show ?thesis by (simp add: hex_upper_def)
qed

lemma hex_upper_not_eol: "hex_upper n \<noteq> CHR 0x0A" "hex_upper n \<noteq> CHR 0x0D"
proof -
  have "list_all (\<lambda>k. hex_upper k \<noteq> CHR 0x0A \<and> hex_upper k \<noteq> CHR 0x0D) [0..<16]" by code_simp
  then have "hex_upper (n mod 16) \<noteq> CHR 0x0A \<and> hex_upper (n mod 16) \<noteq> CHR 0x0D"
    by (simp add: list_all_iff)
  then show "hex_upper n \<noteq> CHR 0x0A" "hex_upper n \<noteq> CHR 0x0D" by (simp_all add: hex_upper_def)
qed

lemma nibbles_merge:
  "n < 256 \<Longrightarrow> push_bit 4 (of_nat (n div 16) :: 8 word) OR of_nat (n mod 16) = of_nat n"
proof -
  assume n: "n < 256"
  have "push_bit 4 (drop_bit 4 (of_nat n :: 8 word)) OR take_bit 4 (of_nat n) = of_nat n"
    by (rule byte_eqI) (auto simp: bit_simps)
  moreover have "drop_bit 4 (of_nat n :: 8 word) = of_nat (n div 16)"
    using n by (simp add: word_unat_eq_iff drop_bit_eq_div unat_div unat_of_nat take_bit_nat_eq_self)
  moreover have "take_bit 4 (of_nat n :: 8 word) = of_nat (n mod 16)"
    using n by (simp add: word_unat_eq_iff take_bit_eq_mod unat_mod unat_of_nat take_bit_nat_eq_self)
  ultimately show ?thesis by simp
qed

lemma decode_qp_hex:
  "decode_quoted_printable (CHR ''='' # hex2 (code_of b) @ r) = b # decode_quoted_printable r"
proof -
  have "code_of b < 256" by simp
  then have "chr_of (push_bit 4 (of_nat (code_of b div 16)) OR of_nat (code_of b mod 16)) = b"
    by (simp only: nibbles_merge byte_of_def [symmetric] chr_of_byte_of)
  moreover have "code_of b div 16 mod 16 = code_of b div 16"
    using \<open>code_of b < 256\<close> by (simp add: less_mult_imp_div_less)
  ultimately show ?thesis
    by (simp add: hex2_def hex_value_hex_upper hex_upper_not_eol)
qed

lemma decode_qp_soft:
  "r \<noteq> [] \<Longrightarrow> decode_quoted_printable (''='' @ CRLF @ r) = decode_quoted_printable r"
  by simp

lemma decode_qp_plain: "b \<noteq> CHR ''='' \<Longrightarrow> decode_quoted_printable (b # r) = b # decode_quoted_printable r"
  by simp

lemma decode_encode_qp_loop: "decode_quoted_printable (qp_encode_loop n d) = d"
proof (induction n d rule: qp_encode_loop.induct)
  case (1 n)
  show ?case by simp
next
  case (2 n b bs)
  have plain: "\<not> qp_needs_encoding b \<Longrightarrow> b \<noteq> CHR ''=''" by (simp add: qp_needs_encoding_def)
  have soft: "decode_quoted_printable (''='' @ CRLF @ x # r) = decode_quoted_printable (x # r)" for x r
    by (rule decode_qp_soft) simp
  show ?case
    using 2 plain
    by (simp only: qp_encode_loop.simps Let_def append_Cons append_Nil soft [simplified append_Cons append_Nil]
        decode_qp_hex decode_qp_plain if_True if_False split: if_split)
      (simp add: decode_qp_hex)
qed

text \<open>Quoted-printable round trip: decoding the encoding of any byte string, soft line
  breaks included, gives it back.\<close>

theorem quoted_printable_roundtrip:
  "decode_quoted_printable (encode_quoted_printable d) = d"
  by (simp add: encode_quoted_printable_def decode_encode_qp_loop)

section \<open>Round trip of header blocks\<close>

lemma unfold_loop_plain:
  "CHR 0x0D \<notin> set v \<Longrightarrow> CHR 0x0A \<notin> set v \<Longrightarrow> unfold_loop cr False v = v"
  by (induction v arbitrary: cr) auto

lemma utf8_lossy_ascii_Cons: "code_of c < 128 \<Longrightarrow> utf8_lossy (c # s) = c # utf8_lossy s"
  by (subst utf8_lossy.simps) (simp add: utf8_step_def)

lemma position_append:
  "list_all (\<lambda>c. \<not> P c) a \<Longrightarrow> P x \<Longrightarrow> position P (a @ x # b) = Some (length a)"
  by (induction a) auto

text \<open>A header that survives the parser: a name without colon that does not start with a blank,
  and no line break in name or value.\<close>

definition plain_header :: "string \<times> string \<Rightarrow> bool" where
  "plain_header h \<longleftrightarrow>
     (case h of (n, v) \<Rightarrow>
        n \<noteq> [] \<and> \<not> is_wsp (hd n) \<and> CHR '':'' \<notin> set n \<and>
        set (n @ v) \<inter> {CHR 0x0D, CHR 0x0A} = {} \<and> utf8_valid n \<and> utf8_valid v)"

abbreviation store_header :: "(string \<Rightarrow> string) \<Rightarrow> flat_headers \<Rightarrow> string \<times> string \<Rightarrow> flat_headers" where
  "store_header lc hs h \<equiv> AList.update (lc (trim (fst h))) (CHR '' '' # snd h) hs"

lemma parse_headers_loop_skip:
  "pos < length data \<Longrightarrow> data ! pos \<noteq> CHR 0x0D \<Longrightarrow> data ! pos \<noteq> CHR 0x0A \<Longrightarrow>
     parse_headers_loop lc data pos ls cur hs = parse_headers_loop lc data (Suc pos) ls cur hs"
  by (subst parse_headers_loop.simps) simp

lemma scan_inside_line:
  assumes data: "data = pre @ l @ CRLF @ r" and no: "set l \<inter> {CHR 0x0D, CHR 0x0A} = {}"
  shows "k \<le> length l \<Longrightarrow>
    parse_headers_loop lc data (length pre + (length l - k)) (length pre) cur hs =
    parse_headers_loop lc data (length pre + length l) (length pre) cur hs"
proof (induction k)
  case 0
  then show ?case by simp
next
  case (Suc k)
  let ?i = "length l - Suc k"
  from Suc.prems have i: "?i < length l" "Suc ?i = length l - k" by auto
  have "data ! (length pre + j) = l ! j" if "j < length l" for j
    using that by (simp add: data nth_append_length_plus nth_append_left)
  then have nth: "data ! (length pre + ?i) = l ! ?i" using i(1) by blast
  have "l ! ?i \<in> set l" using i(1) by (rule nth_mem)
  with no have "l ! ?i \<noteq> CHR 0x0D" "l ! ?i \<noteq> CHR 0x0A" by auto
  moreover have "length pre + ?i < length data" using i(1) by (simp add: data)
  ultimately have "parse_headers_loop lc data (length pre + ?i) (length pre) cur hs =
      parse_headers_loop lc data (Suc (length pre + ?i)) (length pre) cur hs"
    by (intro parse_headers_loop_skip) (simp_all only: nth not_False_eq_True)
  also have "Suc (length pre + ?i) = length pre + (length l - k)" using i by simp
  finally have "parse_headers_loop lc data (length pre + ?i) (length pre) cur hs =
      parse_headers_loop lc data (length pre + (length l - k)) (length pre) cur hs" .
  with Suc show ?case by simp
qed

lemma scan_line:
  assumes data: "data = pre @ l @ CRLF @ r" and no: "set l \<inter> {CHR 0x0D, CHR 0x0A} = {}"
  shows "parse_headers_loop lc data (length pre) (length pre) cur hs =
    (if l = [] then (flush_header cur hs, None, length pre + 2)
     else case header_line_step lc l cur hs of
       (cur', hs') \<Rightarrow> parse_headers_loop lc data (length pre + length l + 2) (length pre + length l + 2) cur' hs')"
proof -
  have "parse_headers_loop lc data (length pre) (length pre) cur hs =
      parse_headers_loop lc data (length pre + length l) (length pre) cur hs"
    using scan_inside_line [OF data no, of "length l"] by simp
  also have "\<dots> = (if l = [] then (flush_header cur hs, None, length pre + 2)
     else case header_line_step lc l cur hs of
       (cur', hs') \<Rightarrow> parse_headers_loop lc data (length pre + length l + 2) (length pre + length l + 2) cur' hs')"
    by (subst parse_headers_loop.simps) (simp add: data nth_append)
  finally show ?thesis .
qed

lemma header_line_plain:
  assumes "plain_header (n, v)"
  shows "header_line_step lc (n @ '': '' @ v) cur hs = (Some (lc (trim n), CHR '' '' # v), flush_header cur hs)"
proof -
  from assms have n: "n \<noteq> []" "\<not> is_wsp (hd n)" "CHR '':'' \<notin> set n" "utf8_valid n" "utf8_valid v"
    by (simp_all add: plain_header_def)
  from n(3) have "list_all (\<lambda>c. \<not> c = CHR '':'') n" by (auto simp: list_all_iff)
  then have "position (\<lambda>b. b = CHR '':'') (n @ CHR '':'' # CHR '' '' # v) = Some (length n)"
    by (rule position_append) simp
  with n show ?thesis
    by (simp add: header_line_step_def header_of_line_def utf8_lossy_valid utf8_lossy_ascii_Cons)
qed

lemma flush_plain:
  "plain_header (n, v) \<Longrightarrow>
     flush_header (Some (lc (trim n), CHR '' '' # v)) hs = store_header lc hs (n, v)"
  by (simp add: flush_header_def unfold_header_def unfold_loop_plain plain_header_def)

lemma parse_headers_loop_block:
  "list_all plain_header lines \<Longrightarrow>
   data = pre @ concat (map (\<lambda>(n, v). header_line n v) lines) @ CRLF @ body \<Longrightarrow>
   parse_headers_loop lc data (length pre) (length pre) cur hs =
     (foldl (store_header lc) (flush_header cur hs) lines, None,
      length pre + length (concat (map (\<lambda>(n, v). header_line n v) lines)) + 2)"
proof (induction lines arbitrary: pre cur hs)
  case Nil
  then have "data = pre @ [] @ CRLF @ body" by simp
  from scan_line [OF this] show ?case by simp
next
  case (Cons h lines)
  obtain n v where h: "h = (n, v)" by (cases h)
  with Cons.prems(1) have ok: "plain_header (n, v)" "list_all plain_header lines" by simp_all
  let ?l = "n @ '': '' @ v" and ?pre = "pre @ n @ '': '' @ v @ CRLF"
  have data: "data = pre @ ?l @ CRLF @ concat (map (\<lambda>(n, v). header_line n v) lines) @ CRLF @ body"
    using Cons.prems(2) by (simp add: h header_line_def)
  have no: "set ?l \<inter> {CHR 0x0D, CHR 0x0A} = {}"
    using ok(1) by (auto simp: plain_header_def)
  have pos: "length pre + length ?l + 2 = length ?pre" by simp
  have "parse_headers_loop lc data (length pre) (length pre) cur hs =
      parse_headers_loop lc data (length ?pre) (length ?pre)
        (Some (lc (trim n), CHR '' '' # v)) (flush_header cur hs)"
    unfolding scan_line [OF data no] header_line_plain [OF ok(1)] pos by simp
  also have "data = ?pre @ concat (map (\<lambda>(n, v). header_line n v) lines) @ CRLF @ body"
    using data by simp
  note Cons.IH [OF ok(2) this]
  finally show ?case
    unfolding flush_plain [OF ok(1)] h by (simp add: header_line_def)
qed

text \<open>Parsing a serialised message gives back its parts: from header lines without embedded
  line breaks, a blank line and a body, the parser returns exactly the body and, per lower-cased
  name, the value of the last line with that name (a single leading blank included).\<close>

theorem parse_message_roundtrip:
  assumes "list_all plain_header lines"
  shows "parse_headers lc (concat (map (\<lambda>(n, v). header_line n v) lines) @ CRLF @ body) =
      (foldl (store_header lc) [] lines, length (concat (map (\<lambda>(n, v). header_line n v) lines)) + 2) \<and>
    mm_body (MimeMessage_parse_from_bytes lc
      (concat (map (\<lambda>(n, v). header_line n v) lines) @ CRLF @ body)) = Small body"
proof -
  let ?d = "concat (map (\<lambda>(n, v). header_line n v) lines) @ CRLF @ body"
  have "parse_headers lc ?d =
      (foldl (store_header lc) [] lines, length (concat (map (\<lambda>(n, v). header_line n v) lines)) + 2)"
    using parse_headers_loop_block [OF assms, of ?d "[]" body lc None "[]"]
    by (simp add: parse_headers_def flush_header_def)
  then show ?thesis
    by (simp add: MimeMessage_parse_from_bytes_def)
qed

theorem parse_message_roundtrip_witness:
  "fst (parse_headers (map to_lower)
     (''To: b'' @ CRLF @ ''Received: x'' @ CRLF @ ''received: y'' @ CRLF @ CRLF @ ''Hi'')) =
   [(''to'', '' b''), (''received'', '' y'')]"
proof -
  have "list_all plain_header [(''To'', ''b''), (''Received'', ''x''), (''received'', ''y'')]"
    by code_simp
  from parse_message_roundtrip [OF this, of "map to_lower" "''Hi''"]
  have "fst (parse_headers (map to_lower)
     (''To: b'' @ CRLF @ ''Received: x'' @ CRLF @ ''received: y'' @ CRLF @ CRLF @ ''Hi'')) =
     foldl (store_header (map to_lower)) [] [(''To'', ''b''), (''Received'', ''x''), (''received'', ''y'')]"
    by (simp add: header_line_def)
  also have "\<dots> = [(''to'', '' b''), (''received'', '' y'')]" by code_simp
  finally show ?thesis .
qed

end
