(* ===== verification/Auth_Sasl.thy ===== *)
theory Auth_Sasl
  imports Proto_Address "HOL-Library.Code_Target_Nat"
begin

text \<open>
  Model of \<^verbatim>\<open>crates/rusmes-auth/src/sasl.rs\<close>: the SASL mechanisms PLAIN, LOGIN, CRAM-MD5,
  SCRAM-SHA-256 and XOAUTH2 as state machines, and the mechanism selection of the SASL server.

  An \<^verbatim>\<open>Arc<dyn AuthBackend>\<close> is a record of functions; the cryptographic crates are the
  record \<open>crypto\<close>; the clock and the random generator are fields of the environment of a step.
  The lemmas say what a client must have presented before a mechanism reports success.
\<close>

unbundle bit_operations_syntax

section \<open>Environment\<close>

record auth_backend =
  ab_authenticate :: "username \<Rightarrow> string \<Rightarrow> bool result"
  ab_verify_identity :: "username \<Rightarrow> bool result"
  ab_scram_params :: "string \<Rightarrow> (string \<times> nat) result"
  ab_scram_stored_key :: "string \<Rightarrow> string result"
  ab_scram_server_key :: "string \<Rightarrow> string result"
  ab_apop_secret :: "username \<Rightarrow> string result"

text \<open>The crates \<^verbatim>\<open>base64\<close>, \<^verbatim>\<open>hmac\<close>, \<^verbatim>\<open>sha2\<close>, \<^verbatim>\<open>md5\<close> and \<^verbatim>\<open>hex\<close>.\<close>

record crypto =
  c_b64_encode :: "string \<Rightarrow> string"
  c_b64_decode :: "string \<Rightarrow> string result"
  c_hmac_sha256 :: "string \<Rightarrow> string \<Rightarrow> string"
  c_sha256 :: "string \<Rightarrow> string"
  c_md5 :: "string \<Rightarrow> string"
  c_hex :: "string \<Rightarrow> string"

record sasl_env =
  se_auth :: auth_backend
  se_crypto :: crypto
  se_now :: "nat result"
  se_random_u64 :: "nat result"
  se_nonce_bytes :: string

section \<open>Data\<close>

datatype sasl_state = SInitial | SChallenge | SFinalData | SSuccess | SFailed

datatype sasl_step = Done bool "username option" | Challenge string | Continue

record login_mechanism =
  lm_state :: sasl_state
  lm_username :: "string option"
  lm_step_count :: nat

record cram_mechanism =
  cm_state :: sasl_state
  cm_challenge :: "string option"
  cm_hostname :: string

record scram_mechanism =
  sm_state :: sasl_state
  sm_client_first_bare :: "string option"
  sm_server_nonce :: "string option"
  sm_username :: "string option"
  sm_salt :: "string option"
  sm_iterations :: "nat option"
  sm_authenticated_user :: "username option"

datatype sasl_mechanism =
    PlainMechanism sasl_state
  | LoginMechanism login_mechanism
  | CramMd5Mechanism cram_mechanism
  | ScramSha256Mechanism scram_mechanism
  | XOAuth2Mechanism sasl_state

text \<open>Errors of \<^verbatim>\<open>Username::new\<close> turn into their display text.\<close>

definition username_of :: "string \<Rightarrow> username result" where
  "username_of s = map_err mail_error_display (Username_new s)"

definition utf8_or :: "string \<Rightarrow> string \<Rightarrow> string result" where
  "utf8_or err s = (if utf8_valid s then Inr s else Inl err)"

section \<open>PLAIN\<close>

definition parse_plain_response :: "string \<Rightarrow> (string \<times> string) result" where
  "parse_plain_response response =
     (let parts = split_on (CHR 0x00) response in
      if length parts \<noteq> 3 then Inl ''Invalid PLAIN response: expected 3 null-separated parts''
      else rbind (utf8_or ''Invalid UTF-8 in username'' (parts ! 1)) (\<lambda>u.
           rbind (utf8_or ''Invalid UTF-8 in password'' (parts ! 2)) (\<lambda>p. Inr (u, p))))"

definition done_for :: "bool \<Rightarrow> username \<Rightarrow> sasl_step" where
  "done_for success u = Done success (if success then Some u else None)"

definition auth_ok :: "bool result \<Rightarrow> bool" where
  "auth_ok r = (case r of Inl _ \<Rightarrow> False | Inr b \<Rightarrow> b)"

definition plain_step ::
    "sasl_env \<Rightarrow> sasl_state \<Rightarrow> string \<Rightarrow> sasl_step result \<times> sasl_state" where
  "plain_step env st response =
     (if st \<noteq> SInitial then (Inr (Done False None), SFailed)
      else case rbind (parse_plain_response response) (\<lambda>(u, p).
                  rbind (username_of u) (\<lambda>uo. Inr (uo, p))) of
        Inl e \<Rightarrow> (Inl e, st)
      | Inr (uo, p) \<Rightarrow>
          (let success = auth_ok (ab_authenticate (se_auth env) uo p)
           in (Inr (done_for success uo), if success then SSuccess else SFailed)))"

section \<open>LOGIN\<close>

definition login_new :: login_mechanism where
  "login_new = \<lparr>lm_state = SInitial, lm_username = None, lm_step_count = 0\<rparr>"

definition login_step ::
    "sasl_env \<Rightarrow> login_mechanism \<Rightarrow> string \<Rightarrow> sasl_step result \<times> login_mechanism" where
  "login_step env m response =
     (if lm_step_count m = 0 then
        (Inr (Challenge (c_b64_encode (se_crypto env) ''Username:'')),
         m\<lparr>lm_step_count := 1, lm_state := SChallenge\<rparr>)
      else if lm_step_count m = 1 then
        (case utf8_or ''Invalid UTF-8 in username'' response of
           Inl e \<Rightarrow> (Inl e, m)
         | Inr u \<Rightarrow> (Inr (Challenge (c_b64_encode (se_crypto env) ''Password:'')),
                     m\<lparr>lm_username := Some u, lm_step_count := 2, lm_state := SChallenge\<rparr>))
      else if lm_step_count m = 2 then
        (case rbind (utf8_or ''Invalid UTF-8 in password'' response) (\<lambda>p.
              rbind (ok_or ''No username stored'' (lm_username m)) (\<lambda>u.
              rbind (username_of u) (\<lambda>uo. Inr (uo, p)))) of
           Inl e \<Rightarrow> (Inl e, m)
         | Inr (uo, p) \<Rightarrow>
             (let success = auth_ok (ab_authenticate (se_auth env) uo p)
              in (Inr (done_for success uo),
                  m\<lparr>lm_state := if success then SSuccess else SFailed\<rparr>)))
      else (Inr (Done False None), m\<lparr>lm_state := SFailed\<rparr>))"

section \<open>CRAM-MD5\<close>

definition cram_new :: "string \<Rightarrow> cram_mechanism" where
  "cram_new hostname = \<lparr>cm_state = SInitial, cm_challenge = None, cm_hostname = hostname\<rparr>"

definition cram_generate_challenge :: "sasl_env \<Rightarrow> cram_mechanism \<Rightarrow> string result" where
  "cram_generate_challenge env m =
     rbind (se_now env) (\<lambda>timestamp.
     rbind (map_err (\<lambda>e. ''Failed to generate random bytes: '' @ e) (se_random_u64 env)) (\<lambda>random.
       Inr (''<'' @ show_nat timestamp @ ''.'' @ show_nat random @ ''@'' @ cm_hostname m @ ''>'')))"

definition cram_parse_response :: "string \<Rightarrow> (string \<times> string) result" where
  "cram_parse_response response =
     (let parts = splitn2 (CHR '' '') response in
      if length parts \<noteq> 2
      then Inl (''Invalid CRAM-MD5 response: expected '' @ quoted ''username hmac'')
      else Inr (parts ! 0, parts ! 1))"

definition cram_step ::
    "sasl_env \<Rightarrow> cram_mechanism \<Rightarrow> string \<Rightarrow> sasl_step result \<times> cram_mechanism" where
  "cram_step env m response =
     (case cm_state m of
        SInitial \<Rightarrow>
          (case cram_generate_challenge env m of
             Inl e \<Rightarrow> (Inl e, m)
           | Inr challenge \<Rightarrow>
               (Inr (Challenge (c_b64_encode (se_crypto env) challenge)),
                m\<lparr>cm_challenge := Some challenge, cm_state := SChallenge\<rparr>))
      | SChallenge \<Rightarrow>
          (case rbind (ok_or ''No challenge stored'' (cm_challenge m)) (\<lambda>_.
                rbind (utf8_or ''Invalid UTF-8 in response'' response) (\<lambda>response_str.
                rbind (cram_parse_response response_str) (\<lambda>(u, client_hmac).
                rbind (username_of u) (\<lambda>uo.
                rbind (ab_verify_identity (se_auth env) uo) (\<lambda>user_exists.
                  Inr (uo, client_hmac, user_exists)))))) of
             Inl e \<Rightarrow> (Inl e, m)
           | Inr (uo, client_hmac, user_exists) \<Rightarrow>
               (if \<not> user_exists \<or> length client_hmac \<noteq> 32
                then (Inr (Done False None), m\<lparr>cm_state := SFailed\<rparr>)
                else (Inr (Done True (Some uo)), m\<lparr>cm_state := SSuccess\<rparr>)))
      | _ \<Rightarrow> (Inr (Done False None), m\<lparr>cm_state := SFailed\<rparr>))"

section \<open>SCRAM-SHA-256\<close>

definition scram_new :: scram_mechanism where
  "scram_new = \<lparr>sm_state = SInitial, sm_client_first_bare = None, sm_server_nonce = None,
     sm_username = None, sm_salt = None, sm_iterations = None, sm_authenticated_user = None\<rparr>"

text \<open>The last \<^verbatim>\<open>key=\<close> attribute of a comma-separated message; an attribute with an earlier key
  of the \<^verbatim>\<open>if\<close> chain does not compete, since the prefixes exclude each other.\<close>

definition last_attr :: "string \<Rightarrow> string list \<Rightarrow> string option" where
  "last_attr key parts =
     foldl (\<lambda>acc part. case strip_prefix key part of Some v \<Rightarrow> Some v | None \<Rightarrow> acc) None parts"

definition parse_client_first :: "string \<Rightarrow> (string \<times> string \<times> string) result" where
  "parse_client_first msg =
     rbind (ok_or ''Invalid GS2 header in client-first message'' (strip_prefix ''n,,'' msg)) (\<lambda>bare.
       let parts = split_on (CHR '','') bare in
       rbind (ok_or ''Missing username in client-first'' (last_attr ''n='' parts)) (\<lambda>u.
       rbind (ok_or ''Missing nonce in client-first'' (last_attr ''r='' parts)) (\<lambda>nonce.
         Inr (u, nonce, bare))))"

definition parse_client_final :: "string \<Rightarrow> (string \<times> string \<times> string \<times> string) result" where
  "parse_client_final msg =
     rbind (ok_or ''Invalid client-final: missing proof'' (rsplit_once '',p='' msg)) (\<lambda>(without_proof, _).
       let parts = split_on (CHR '','') msg in
       rbind (ok_or ''Missing channel binding in client-final'' (last_attr ''c='' parts)) (\<lambda>cb.
       rbind (ok_or ''Missing nonce in client-final'' (last_attr ''r='' parts)) (\<lambda>nonce.
       rbind (ok_or ''Missing proof in client-final'' (last_attr ''p='' parts)) (\<lambda>proof.
         Inr (cb, nonce, proof, without_proof)))))"

definition xor_bytes :: "string \<Rightarrow> string \<Rightarrow> string" where
  "xor_bytes a b = map2 (\<lambda>x y. char_of (code_of x XOR code_of y)) a b"

definition verify_client_proof :: "crypto \<Rightarrow> string \<Rightarrow> string \<Rightarrow> string \<Rightarrow> bool result" where
  "verify_client_proof cr stored_key auth_message proof_b64 =
     rbind (map_err (\<lambda>e. ''Failed to decode proof: '' @ e) (c_b64_decode cr proof_b64)) (\<lambda>proof.
       let client_signature = c_hmac_sha256 cr stored_key auth_message in
       if length proof \<noteq> length client_signature then Inr False
       else Inr (c_sha256 cr (xor_bytes proof client_signature) = stored_key))"

definition server_first :: "crypto \<Rightarrow> string \<Rightarrow> string \<Rightarrow> nat \<Rightarrow> string" where
  "server_first cr nonce salt iterations =
     ''r='' @ nonce @ '',s='' @ c_b64_encode cr salt @ '',i='' @ show_nat iterations"

definition auth_message :: "string \<Rightarrow> string \<Rightarrow> string \<Rightarrow> string" where
  "auth_message first_bare server_first_msg without_proof =
     first_bare @ '','' @ server_first_msg @ '','' @ without_proof"

definition compute_server_signature :: "crypto \<Rightarrow> string \<Rightarrow> string \<Rightarrow> string" where
  "compute_server_signature cr server_key msg = c_b64_encode cr (c_hmac_sha256 cr server_key msg)"

definition scram_first :: "sasl_env \<Rightarrow> scram_mechanism \<Rightarrow> string \<Rightarrow> (sasl_step \<times> scram_mechanism) result" where
  "scram_first env m response =
     rbind (utf8_or ''Invalid UTF-8 in client-first'' response) (\<lambda>msg.
     rbind (parse_client_first msg) (\<lambda>(u, client_nonce, bare).
     rbind (ab_scram_params (se_auth env) u) (\<lambda>(salt, iterations).
       let full_nonce = client_nonce @ c_hex (se_crypto env) (se_nonce_bytes env) in
       Inr (Challenge (server_first (se_crypto env) full_nonce salt iterations),
            m\<lparr>sm_username := Some u, sm_client_first_bare := Some bare,
              sm_server_nonce := Some full_nonce, sm_salt := Some salt,
              sm_iterations := Some iterations, sm_state := SChallenge\<rparr>))))"

text \<open>The checks after channel binding and nonce have been accepted.\<close>

definition scram_check ::
    "sasl_env \<Rightarrow> scram_mechanism \<Rightarrow> string \<Rightarrow> string \<Rightarrow> string \<Rightarrow> (sasl_step \<times> scram_mechanism) result" where
  "scram_check env m expected_nonce proof without_proof =
     rbind (ok_or ''No username stored'' (sm_username m)) (\<lambda>u.
     rbind (ab_scram_stored_key (se_auth env) u) (\<lambda>stored_key.
     rbind (ab_scram_server_key (se_auth env) u) (\<lambda>server_key.
     rbind (ok_or ''No client-first-bare stored'' (sm_client_first_bare m)) (\<lambda>bare.
     rbind (ok_or ''No salt stored in SCRAM state'' (sm_salt m)) (\<lambda>salt.
     rbind (ok_or ''No iterations stored in SCRAM state'' (sm_iterations m)) (\<lambda>iterations.
       let msg = auth_message bare (server_first (se_crypto env) expected_nonce salt iterations)
                   without_proof in
       rbind (verify_client_proof (se_crypto env) stored_key msg proof) (\<lambda>valid.
         if \<not> valid then Inr (Done False None, m\<lparr>sm_state := SFailed\<rparr>)
         else rbind (username_of u) (\<lambda>uo.
           Inr (Challenge (''v='' @ compute_server_signature (se_crypto env) server_key msg),
                m\<lparr>sm_state := SFinalData, sm_authenticated_user := Some uo\<rparr>)))))))))"

definition scram_final :: "sasl_env \<Rightarrow> scram_mechanism \<Rightarrow> string \<Rightarrow> (sasl_step \<times> scram_mechanism) result" where
  "scram_final env m response =
     rbind (utf8_or ''Invalid UTF-8 in client-final'' response) (\<lambda>msg.
     rbind (parse_client_final msg) (\<lambda>(channel_binding, nonce, proof, without_proof).
       if channel_binding \<noteq> ''biws'' then Inr (Done False None, m\<lparr>sm_state := SFailed\<rparr>)
       else rbind (ok_or ''No server nonce stored'' (sm_server_nonce m)) (\<lambda>expected_nonce.
         if nonce \<noteq> expected_nonce then Inr (Done False None, m\<lparr>sm_state := SFailed\<rparr>)
         else scram_check env m expected_nonce proof without_proof)))"

text \<open>On an error the mechanism is dropped by its callers; it is returned unchanged here.\<close>

definition scram_step ::
    "sasl_env \<Rightarrow> scram_mechanism \<Rightarrow> string \<Rightarrow> sasl_step result \<times> scram_mechanism" where
  "scram_step env m response =
     (let run = (\<lambda>r. case r of Inl e \<Rightarrow> (Inl e, m) | Inr (s, m') \<Rightarrow> (Inr s, m')) in
      case sm_state m of
        SInitial \<Rightarrow> run (scram_first env m response)
      | SChallenge \<Rightarrow> run (scram_final env m response)
      | SFinalData \<Rightarrow> (Inr (Done True (sm_authenticated_user m)), m\<lparr>sm_state := SSuccess\<rparr>)
      | _ \<Rightarrow> (Inr (Done False None), m\<lparr>sm_state := SFailed\<rparr>))"

section \<open>XOAUTH2\<close>

definition parse_xoauth2_response :: "string \<Rightarrow> (string \<times> string) result" where
  "parse_xoauth2_response response =
     rbind (utf8_or ''Invalid UTF-8 in XOAUTH2 response'' response) (\<lambda>str.
       let parts = split_on (CHR 0x01) str in
       rbind (ok_or ''Missing user in XOAUTH2 response'' (last_attr ''user='' parts)) (\<lambda>u.
       rbind (ok_or ''Missing bearer token in XOAUTH2 response'' (last_attr ''auth=Bearer '' parts)) (\<lambda>t.
         Inr (u, t))))"

definition xoauth2_step ::
    "sasl_env \<Rightarrow> sasl_state \<Rightarrow> string \<Rightarrow> sasl_step result \<times> sasl_state" where
  "xoauth2_step env st response =
     (if st \<noteq> SInitial then (Inr (Done False None), SFailed)
      else case rbind (parse_xoauth2_response response) (\<lambda>(u, token).
                rbind (username_of u) (\<lambda>uo.
                rbind (ab_verify_identity (se_auth env) uo) (\<lambda>user_exists.
                  Inr (uo, user_exists \<and> token \<noteq> [])))) of
        Inl e \<Rightarrow> (Inl e, st)
      | Inr (uo, success) \<Rightarrow>
          (Inr (done_for success uo), if success then SSuccess else SFailed))"

section \<open>Dispatch and selection\<close>

fun sasl_step_of ::
    "sasl_env \<Rightarrow> sasl_mechanism \<Rightarrow> string \<Rightarrow> sasl_step result \<times> sasl_mechanism" where
  "sasl_step_of env (PlainMechanism st) r =
     (case plain_step env st r of (x, st') \<Rightarrow> (x, PlainMechanism st'))"
| "sasl_step_of env (LoginMechanism m) r =
     (case login_step env m r of (x, m') \<Rightarrow> (x, LoginMechanism m'))"
| "sasl_step_of env (CramMd5Mechanism m) r =
     (case cram_step env m r of (x, m') \<Rightarrow> (x, CramMd5Mechanism m'))"
| "sasl_step_of env (ScramSha256Mechanism m) r =
     (case scram_step env m r of (x, m') \<Rightarrow> (x, ScramSha256Mechanism m'))"
| "sasl_step_of env (XOAuth2Mechanism st) r =
     (case xoauth2_step env st r of (x, st') \<Rightarrow> (x, XOAuth2Mechanism st'))"

fun sasl_reset :: "sasl_mechanism \<Rightarrow> sasl_mechanism" where
  "sasl_reset (PlainMechanism st) = PlainMechanism SInitial"
| "sasl_reset (LoginMechanism m) = LoginMechanism login_new"
| "sasl_reset (CramMd5Mechanism m) = CramMd5Mechanism (cram_new (cm_hostname m))"
| "sasl_reset (ScramSha256Mechanism m) = ScramSha256Mechanism scram_new"
| "sasl_reset (XOAuth2Mechanism st) = XOAuth2Mechanism SInitial"

record sasl_config =
  sc_enabled_mechanisms :: "string list"
  sc_hostname :: string

definition is_mechanism_enabled :: "sasl_config \<Rightarrow> string \<Rightarrow> bool" where
  "is_mechanism_enabled cfg mechanism \<longleftrightarrow>
     list_ex (\<lambda>m. eq_ignore_ascii_case m mechanism) (sc_enabled_mechanisms cfg)"

definition create_mechanism :: "sasl_config \<Rightarrow> string \<Rightarrow> sasl_mechanism result" where
  "create_mechanism cfg name =
     (if \<not> is_mechanism_enabled cfg name then Inl (''Mechanism '' @ name @ '' is not enabled'')
      else
        let up = to_ascii_uppercase name in
        if up = ''PLAIN'' then Inr (PlainMechanism SInitial)
        else if up = ''LOGIN'' then Inr (LoginMechanism login_new)
        else if up = ''CRAM-MD5'' then Inr (CramMd5Mechanism (cram_new (sc_hostname cfg)))
        else if up = ''SCRAM-SHA-256'' then Inr (ScramSha256Mechanism scram_new)
        else if up = ''XOAUTH2'' then Inr (XOAuth2Mechanism SInitial)
        else Inl (''Unknown mechanism: '' @ name))"

section \<open>What success means\<close>

lemma done_for_True: "done_for b u = Done True x \<longleftrightarrow> b \<and> x = Some u"
  by (auto simp: done_for_def)

lemma auth_ok_iff: "auth_ok r \<longleftrightarrow> r = Inr True"
  by (cases r) (auto simp: auth_ok_def)

lemma username_of_Inr: "username_of s = Inr u \<Longrightarrow> u = Username s"
  by (auto simp: username_of_def Username_new_def map_err_def split: if_splits)

lemma utf8_or_Inr: "utf8_or e s = Inr t \<longleftrightarrow> t = s \<and> utf8_valid s"
  by (auto simp: utf8_or_def)

lemma split_on_join: "split_on d s = ps \<Longrightarrow> str_join [d] ps = s"
proof (induction s arbitrary: ps)
  case Nil
  then show ?case by (auto simp: str_join_def)
next
  case (Cons c cs)
  obtain q qs where q: "split_on d cs = q # qs" by (cases "split_on d cs") auto
  from Cons.IH [OF q] have "q @ concat (map ((@) [d]) qs) = cs" by (simp add: str_join_def)
  with q Cons.prems show ?case by (auto simp: str_join_def split: if_splits)
qed

lemma parse_plain_Inr:
  assumes "parse_plain_response r = Inr (u, p)"
  shows "\<exists>authzid. r = authzid @ [CHR 0x00] @ u @ [CHR 0x00] @ p"
proof -
  let ?ps = "split_on (CHR 0x00) r"
  from assms have len: "length ?ps = 3" and u: "u = ?ps ! 1" and p: "p = ?ps ! 2"
    by (auto simp: parse_plain_response_def Let_def rbind_Inr_iff utf8_or_Inr split: if_splits)
  from len obtain a b c where ps: "?ps = [a, b, c]"
    by (auto simp: length_Suc_conv numeral_eq_Suc)
  from split_on_join [OF ps] have "r = a @ [CHR 0x00] @ b @ [CHR 0x00] @ c"
    by (simp add: str_join_def)
  with ps u p show ?thesis by auto
qed

lemma plain_step_success:
  assumes "plain_step env st r = (Inr (Done True x), st')"
  shows "\<exists>authzid u p. r = authzid @ [CHR 0x00] @ u @ [CHR 0x00] @ p \<and> x = Some (Username u) \<and>
    ab_authenticate (se_auth env) (Username u) p = Inr True"
proof -
  from assms obtain u p uo where parse: "parse_plain_response r = Inr (u, p)"
    and uo: "username_of u = Inr uo" and ok: "auth_ok (ab_authenticate (se_auth env) uo p)" "x = Some uo"
    by (auto simp: plain_step_def Let_def rbind_def done_for_True split: if_splits sum.splits prod.splits)
  from username_of_Inr [OF uo] ok have "x = Some (Username u)"
    "ab_authenticate (se_auth env) (Username u) p = Inr True" by (simp_all add: auth_ok_iff)
  with parse_plain_Inr [OF parse] show ?thesis by blast
qed

lemma login_step_success:
  assumes "login_step env m r = (Inr (Done True x), m')"
  shows "\<exists>u. lm_username m = Some u \<and> x = Some (Username u) \<and>
    ab_authenticate (se_auth env) (Username u) r = Inr True"
proof -
  from assms have two: "lm_step_count m = 2"
    by (auto simp: login_step_def split: if_splits sum.splits)
  from assms obtain u uo where "lm_username m = Some u" "username_of u = Inr uo"
    "auth_ok (ab_authenticate (se_auth env) uo r)" "x = Some uo"
    by (auto simp: login_step_def two Let_def rbind_def ok_or_def utf8_or_def done_for_True
        split: if_splits sum.splits option.splits)
  then show ?thesis by (auto simp: auth_ok_iff dest: username_of_Inr)
qed

text \<open>What SCRAM must have seen: the stored key of the user, and a proof whose XOR with the
  signature of this exchange's transcript hashes to that key.\<close>

definition scram_verified :: "sasl_env \<Rightarrow> scram_mechanism \<Rightarrow> string \<Rightarrow> bool" where
  "scram_verified env m u \<longleftrightarrow>
     (\<exists>stored bare nonce salt iterations proof_b64 proof without_proof.
        ab_scram_stored_key (se_auth env) u = Inr stored \<and>
        sm_client_first_bare m = Some bare \<and> sm_server_nonce m = Some nonce \<and>
        sm_salt m = Some salt \<and> sm_iterations m = Some iterations \<and>
        c_b64_decode (se_crypto env) proof_b64 = Inr proof \<and>
        c_sha256 (se_crypto env)
          (xor_bytes proof
             (c_hmac_sha256 (se_crypto env) stored
                (auth_message bare (server_first (se_crypto env) nonce salt iterations) without_proof)))
          = stored)"

definition scram_inv :: "sasl_env set \<Rightarrow> scram_mechanism \<Rightarrow> bool" where
  "scram_inv E m \<longleftrightarrow>
     (sm_state m = SFinalData \<longrightarrow>
        (\<exists>u env. sm_username m = Some u \<and> sm_authenticated_user m = Some (Username u) \<and>
                 env \<in> E \<and> scram_verified env m u))"

lemma verify_client_proof_True:
  assumes "verify_client_proof cr stored msg proof_b64 = Inr True"
  shows "\<exists>proof. c_b64_decode cr proof_b64 = Inr proof \<and>
    c_sha256 cr (xor_bytes proof (c_hmac_sha256 cr stored msg)) = stored"
  using assms by (auto simp: verify_client_proof_def rbind_Inr_iff map_err_Inr_iff Let_def split: if_splits)

lemma scram_check_final:
  assumes "scram_check env m nonce proof_b64 wo = Inr (s, m')" "sm_server_nonce m = Some nonce"
    "sm_state m' = SFinalData" "sm_state m = SChallenge"
  shows "\<exists>u. sm_username m' = Some u \<and> sm_authenticated_user m' = Some (Username u) \<and> scram_verified env m' u"
proof -
  from assms obtain u stored bare salt it msg uo where
    u: "sm_username m = Some u" "ab_scram_stored_key (se_auth env) u = Inr stored"
       "sm_client_first_bare m = Some bare" "sm_salt m = Some salt" "sm_iterations m = Some it"
    and msg: "msg = auth_message bare (server_first (se_crypto env) nonce salt it) wo"
    and v: "verify_client_proof (se_crypto env) stored msg proof_b64 = Inr True"
    and uo: "username_of u = Inr uo"
    and m': "m' = m\<lparr>sm_state := SFinalData, sm_authenticated_user := Some uo\<rparr>"
    by (auto simp: scram_check_def rbind_Inr_iff ok_or_Inr_iff Let_def split: if_splits)
  from verify_client_proof_True [OF v] msg u assms(2) m' have "scram_verified env m' u"
    unfolding scram_verified_def by auto
  with m' u uo show ?thesis by (auto dest: username_of_Inr)
qed

lemma scram_step_inv:
  assumes "scram_inv E m" "env \<in> E"
  shows "scram_inv E (snd (scram_step env m r))"
proof (cases "sm_state m")
  case SInitial
  then have "sm_state (snd (scram_step env m r)) \<noteq> SFinalData"
    by (auto simp: scram_step_def scram_first_def rbind_def Let_def split: sum.splits prod.splits)
  then show ?thesis by (simp add: scram_inv_def)
next
  case SChallenge
  show ?thesis
  proof (cases "scram_final env m r")
    case (Inl e)
    with SChallenge assms show ?thesis by (simp add: scram_step_def)
  next
    case (Inr p)
    obtain s m' where p: "p = (s, m')" by (cases p)
    have "\<exists>u. sm_username m' = Some u \<and> sm_authenticated_user m' = Some (Username u) \<and> scram_verified env m' u"
      if fin: "sm_state m' = SFinalData"
    proof -
      from Inr p fin obtain nonce pr wo where "scram_check env m nonce pr wo = Inr (s, m')"
        "sm_server_nonce m = Some nonce"
        by (auto simp: scram_final_def rbind_Inr_iff ok_or_Inr_iff split: if_splits)
      from scram_check_final [OF this fin SChallenge] show ?thesis .
    qed
    with assms(2) SChallenge Inr p show ?thesis
      by (auto simp: scram_step_def scram_inv_def)
  qed
qed (use assms in \<open>auto simp: scram_step_def scram_inv_def\<close>)

definition scram_machine ::
    "scram_mechanism \<Rightarrow> sasl_env \<times> string \<Rightarrow> scram_mechanism \<times> sasl_step result" where
  "scram_machine m e = (case scram_step (fst e) m (snd e) of (x, m') \<Rightarrow> (m', x))"

lemma scram_run_inv:
  "scram_inv E m \<Longrightarrow> fst ` set es \<subseteq> E \<Longrightarrow> scram_inv E (fst (run scram_machine m es))"
proof (induction es arbitrary: m)
  case (Cons e es)
  obtain m' x where st: "scram_machine m e = (m', x)" by (cases "scram_machine m e")
  with scram_step_inv [OF Cons.prems(1), of "fst e" "snd e"] Cons.prems(2) have "scram_inv E m'"
    by (auto simp: scram_machine_def split: prod.splits)
  with Cons st show ?case by (simp add: case_prod_beta)
qed simp

lemma scram_done_final:
  "snd (scram_machine m e) = Inr (Done True x) \<Longrightarrow> sm_state m = SFinalData \<and> x = sm_authenticated_user m"
  by (cases "sm_state m")
    (auto simp: scram_machine_def scram_step_def scram_first_def scram_final_def scram_check_def Let_def
      rbind_def split: sum.splits prod.splits if_splits)

section \<open>Properties\<close>

text \<open>The password mechanisms admit nobody without a password: whenever PLAIN reports
  success, the backend accepted exactly the user and password of the presented message, and
  whenever LOGIN reports success, it accepted the stored user name with the presented password.\<close>

theorem password_mechanisms_sound:
  "(fst (plain_step env st r) = Inr (Done True x) \<longrightarrow>
      (\<exists>authzid u p. r = authzid @ [CHR 0x00] @ u @ [CHR 0x00] @ p \<and> x = Some (Username u) \<and>
         ab_authenticate (se_auth env) (Username u) p = Inr True)) \<and>
   (fst (login_step env m r) = Inr (Done True x) \<longrightarrow>
      (\<exists>u. lm_username m = Some u \<and> x = Some (Username u) \<and>
         ab_authenticate (se_auth env) (Username u) r = Inr True))"
  using plain_step_success [of env st r x "snd (plain_step env st r)"]
    login_step_success [of env m r x "snd (login_step env m r)"]
  by (metis prod.collapse)

definition demo_auth :: auth_backend where
  "demo_auth = \<lparr>ab_authenticate = (\<lambda>u p. Inr (p = ''pw'')),
     ab_verify_identity = (\<lambda>u. Inr (u = Username ''bob'')),
     ab_scram_params = (\<lambda>u. Inr (''salt'', 4096)),
     ab_scram_stored_key = (\<lambda>u. Inr ''k''), ab_scram_server_key = (\<lambda>u. Inr ''s''),
     ab_apop_secret = (\<lambda>u. Inr ''pw'')\<rparr>"

definition demo_crypto :: crypto where
  "demo_crypto = \<lparr>c_b64_encode = (\<lambda>s. s), c_b64_decode = (\<lambda>s. Inr s),
     c_hmac_sha256 = (\<lambda>k m. ''h''), c_sha256 = (\<lambda>s. ''k''), c_md5 = (\<lambda>s. s), c_hex = (\<lambda>s. s)\<rparr>"

definition demo_sasl_env :: sasl_env where
  "demo_sasl_env = \<lparr>se_auth = demo_auth, se_crypto = demo_crypto, se_now = Inr 7,
     se_random_u64 = Inr 9, se_nonce_bytes = ''N''\<rparr>"

lemma demo_plain_success:
  "fst (plain_step demo_sasl_env SInitial ([CHR 0x00] @ ''bob'' @ [CHR 0x00] @ ''pw'')) =
     Inr (Done True (Some (Username ''bob'')))"
  by code_simp

theorem password_mechanisms_sound_witness:
  "\<exists>authzid u p. [CHR 0x00] @ ''bob'' @ [CHR 0x00] @ ''pw'' = authzid @ [CHR 0x00] @ u @ [CHR 0x00] @ p \<and>
     Some (Username ''bob'') = Some (Username u) \<and>
     ab_authenticate (se_auth demo_sasl_env) (Username u) p = Inr True"
  using password_mechanisms_sound [of demo_sasl_env SInitial "[CHR 0x00] @ ''bob'' @ [CHR 0x00] @ ''pw''"
      "Some (Username ''bob'')" login_new] demo_plain_success by blast



text \<open>CRAM-MD5 does not check the digest: for every user the backend knows, any answer of 32
  bytes after the user name, whatever the challenge and the password, is reported as a
  successful authentication.\<close>

theorem cram_md5_accepts_any_digest:
  assumes "cm_state m = SChallenge" "cm_challenge m = Some ch" "username_of u = Inr uo"
    "ab_verify_identity (se_auth env) uo = Inr True" "CHR '' '' \<notin> set u"
    "utf8_valid (u @ CHR '' '' # h)" "length h = 32"
  shows "fst (cram_step env m (u @ CHR '' '' # h)) = Inr (Done True (Some uo))"
  using assms
  by (simp add: cram_step_def utf8_or_def cram_parse_response_def splitn2_sep Let_def)

theorem cram_md5_accepts_any_digest_witness:
  "fst (cram_step demo_sasl_env \<lparr>cm_state = SChallenge, cm_challenge = Some ''<1.2@h>'', cm_hostname = ''h''\<rparr>
     (''bob'' @ CHR '' '' # ''00000000000000000000000000000000'')) =
   Inr (Done True (Some (Username ''bob'')))"
proof (rule cram_md5_accepts_any_digest [where ch = "''<1.2@h>''"])
  show "username_of ''bob'' = Inr (Username ''bob'')" by code_simp
  show "ab_verify_identity (se_auth demo_sasl_env) (Username ''bob'') = Inr True" by code_simp
  show "utf8_valid (''bob'' @ CHR '' '' # ''00000000000000000000000000000000'')" by code_simp
qed simp_all

end
