(* ===== verification/Nom_Parsers.thy ===== *)
theory Nom_Parsers
  imports Rusmes_Prelude
begin

text \<open>
  The parser library \<^verbatim>\<open>nom\<close> as the command parsers use it.  A parser maps the input to
  \<^const>\<open>None\<close> (an error) or to the rest of the input and a value.  The primitive parsers of
  the crate are the fields of the record \<open>nom\<close>, an argument of every command parser; what the
  crate documents about them is the locale \<open>nom_laws\<close>, and \<open>nom_complete\<close> is an instance.  The
  sequencing combinators are plain plumbing of the optional results.  The Unicode table behind
  \<^verbatim>\<open>char::is_alphanumeric\<close> for non-ASCII characters is the field \<open>n_alphanumeric\<close>.
\<close>

type_synonym 'a parser = "string \<Rightarrow> (string \<times> 'a) option"

record nom =
  n_tag_no_case :: "string \<Rightarrow> string parser"
  n_take_while1 :: "(string \<Rightarrow> bool) \<Rightarrow> string parser"
  n_space0 :: "string parser"
  n_space1 :: "string parser"
  n_digit1 :: "string parser"
  n_char :: "char \<Rightarrow> string parser"
  n_rest :: "string parser"
  n_alphanumeric :: "string \<Rightarrow> bool"

section \<open>Combinators\<close>

definition p_map :: "'a parser \<Rightarrow> ('a \<Rightarrow> 'b) \<Rightarrow> 'b parser" where
  "p_map p f i = map_option (\<lambda>(r, a). (r, f a)) (p i)"

definition p_pair :: "'a parser \<Rightarrow> 'b parser \<Rightarrow> ('a \<times> 'b) parser" where
  "p_pair p q i =
     (case p i of
        None \<Rightarrow> None
      | Some (r, a) \<Rightarrow> (case q r of None \<Rightarrow> None | Some (r', b) \<Rightarrow> Some (r', (a, b))))"

definition p_preceded :: "'a parser \<Rightarrow> 'b parser \<Rightarrow> 'b parser" where
  "p_preceded p q i = (case p i of None \<Rightarrow> None | Some (r, _) \<Rightarrow> q r)"

definition p_delimited :: "'a parser \<Rightarrow> 'b parser \<Rightarrow> 'c parser \<Rightarrow> 'b parser" where
  "p_delimited p q r i =
     (case p i of
        None \<Rightarrow> None
      | Some (i1, _) \<Rightarrow>
          (case q i1 of
             None \<Rightarrow> None
           | Some (i2, b) \<Rightarrow> (case r i2 of None \<Rightarrow> None | Some (i3, _) \<Rightarrow> Some (i3, b))))"

text \<open>The \<^verbatim>\<open>let (input, x) = p(input)?;\<close> sequences of the hand-written parsers.\<close>

definition p_bind :: "'a parser \<Rightarrow> ('a \<Rightarrow> 'b parser) \<Rightarrow> 'b parser" where
  "p_bind p f i = (case p i of None \<Rightarrow> None | Some (r, a) \<Rightarrow> f a r)"

definition p_return :: "'a \<Rightarrow> 'a parser" where
  "p_return a i = Some (i, a)"

definition p_opt :: "'a parser \<Rightarrow> 'a option parser" where
  "p_opt p i = (case p i of None \<Rightarrow> Some (i, None) | Some (r, a) \<Rightarrow> Some (r, Some a))"

definition p_map_res :: "'a parser \<Rightarrow> ('a \<Rightarrow> 'b option) \<Rightarrow> 'b parser" where
  "p_map_res p f i =
     (case p i of None \<Rightarrow> None | Some (r, a) \<Rightarrow> map_option (\<lambda>b. (r, b)) (f a))"

fun p_alt :: "'a parser list \<Rightarrow> 'a parser" where
  "p_alt [] i = None"
| "p_alt (p # ps) i = (case p i of Some x \<Rightarrow> Some x | None \<Rightarrow> p_alt ps i)"

lemmas parser_defs = p_map_def p_pair_def p_preceded_def p_opt_def p_map_res_def
  p_delimited_def p_bind_def p_return_def

section \<open>Characters\<close>

text \<open>A character is its encoding; the classes below are ASCII except \<^verbatim>\<open>is_alphanumeric\<close>.\<close>

definition is_ascii_char :: "string \<Rightarrow> bool" where
  "is_ascii_char ch \<longleftrightarrow> length ch = 1 \<and> code_of (hd ch) < 128"

definition char_is :: "(char \<Rightarrow> bool) \<Rightarrow> string \<Rightarrow> bool" where
  "char_is P ch \<longleftrightarrow> is_ascii_char ch \<and> P (hd ch)"

definition is_alphanumeric :: "nom \<Rightarrow> string \<Rightarrow> bool" where
  "is_alphanumeric N ch \<longleftrightarrow>
     (if is_ascii_char ch then is_ascii_alphanumeric (hd ch) else n_alphanumeric N ch)"

section \<open>Laws\<close>

definition blank :: "char \<Rightarrow> bool" where
  "blank c \<longleftrightarrow> c = CHR '' '' \<or> c = CHR 0x09"

definition span1 :: "(char \<Rightarrow> bool) \<Rightarrow> string parser" where
  "span1 P i =
     (if takeWhile P i = [] then None else Some (dropWhile P i, takeWhile P i))"

definition ref_take_while1 :: "(string \<Rightarrow> bool) \<Rightarrow> string parser" where
  "ref_take_while1 P i =
     (let cs = utf8_chars i in
      if takeWhile P cs = [] then None
      else Some (concat (dropWhile P cs), concat (takeWhile P cs)))"

definition ref_tag_no_case :: "string \<Rightarrow> string parser" where
  "ref_tag_no_case t i =
     (if eq_ignore_ascii_case (take (length t) i) t
      then Some (drop (length t) i, take (length t) i) else None)"

definition ref_char :: "char \<Rightarrow> string parser" where
  "ref_char c i = (case i of x # xs \<Rightarrow> if x = c then Some (xs, [c]) else None | [] \<Rightarrow> None)"

text \<open>The tags of the sources are ASCII and contain no letter K, the only ASCII letter with a
  non-ASCII character of the same lower-case form.\<close>

definition plain_tag :: "string \<Rightarrow> bool" where
  "plain_tag t \<longleftrightarrow> list_all (\<lambda>c. code_of c < 128 \<and> c \<noteq> CHR ''K'' \<and> c \<noteq> CHR ''k'') t"

locale nom_laws =
  fixes N :: nom
  assumes tag_no_case: "plain_tag t \<Longrightarrow> n_tag_no_case N t i = ref_tag_no_case t i"
    and take_while1: "n_take_while1 N P i = ref_take_while1 P i"
    and space0: "n_space0 N i = Some (dropWhile blank i, takeWhile blank i)"
    and space1: "n_space1 N i = span1 blank i"
    and digit1: "n_digit1 N i = span1 is_ascii_digit i"
    and char: "code_of c < 128 \<Longrightarrow> n_char N c i = ref_char c i"
    and rest: "n_rest N i = Some ([], i)"
begin

lemma tag_prefix:
  "plain_tag t \<Longrightarrow> eq_ignore_ascii_case s t \<Longrightarrow> n_tag_no_case N t (s @ r) = Some (r, s)"
  by (simp add: tag_no_case ref_tag_no_case_def eq_ignore_ascii_case_length)

lemma space1_blank: "\<not> blank (hd r) \<or> r = [] \<Longrightarrow> n_space1 N (CHR '' '' # r) = Some (r, '' '')"
  by (cases r) (auto simp: space1 span1_def blank_def)

lemma space1_None: "\<not> blank (hd r) \<or> r = [] \<Longrightarrow> n_space1 N r = None"
  by (cases r) (auto simp: space1 span1_def)

lemma digit1_all: "ds \<noteq> [] \<Longrightarrow> list_all is_ascii_digit ds \<Longrightarrow> r = [] \<or> \<not> is_ascii_digit (hd r) \<Longrightarrow>
    n_digit1 N (ds @ r) = Some (r, ds)"
  by (cases r) (auto simp: digit1 span1_def list_all_iff takeWhile_append dropWhile_append neq_Nil_conv)

lemma take_while1_ascii:
  assumes "ds \<noteq> []" "list_all (\<lambda>c. code_of c < 128 \<and> P [c]) ds"
    and "r = [] \<or> (code_of (hd r) < 128 \<and> \<not> P [hd r])"
  shows "n_take_while1 N P (ds @ r) = Some (r, ds)"
proof -
  have asc: "list_all (\<lambda>c. code_of c < 128) ds" using assms(2) by (auto simp: list_all_iff)
  have all: "\<forall>ch \<in> set (map (\<lambda>c. [c]) ds). P ch" using assms(2) by (auto simp: list_all_iff)
  have r: "takeWhile P (utf8_chars r) = []" "dropWhile P (utf8_chars r) = utf8_chars r"
    using assms(3) by (cases r; auto simp: utf8_chars_ascii_Cons)+
  have "takeWhile P (utf8_chars (ds @ r)) = map (\<lambda>c. [c]) ds"
    unfolding utf8_chars_ascii_append [OF asc]
    by (subst takeWhile_append2) (use all r in auto)
  moreover have "dropWhile P (utf8_chars (ds @ r)) = utf8_chars r"
    unfolding utf8_chars_ascii_append [OF asc]
    by (subst dropWhile_append2) (use all r in auto)
  moreover have "concat (map (\<lambda>c. [c]) ds) = ds" by (induction ds) auto
  ultimately show ?thesis
    using assms(1) by (simp add: take_while1 ref_take_while1_def)
qed

end

definition nom_complete :: nom where
  "nom_complete =
     \<lparr>n_tag_no_case = ref_tag_no_case, n_take_while1 = ref_take_while1,
      n_space0 = (\<lambda>i. Some (dropWhile blank i, takeWhile blank i)),
      n_space1 = span1 blank, n_digit1 = span1 is_ascii_digit,
      n_char = ref_char, n_rest = (\<lambda>i. Some ([], i)),
      n_alphanumeric = (\<lambda>ch. False)\<rparr>"

interpretation complete: nom_laws nom_complete
  by unfold_locales (simp_all add: nom_complete_def)

end
