(* ===== verification/Pop3_Protocol.thy ===== *)
theory Pop3_Protocol
  imports Nom_Parsers "HOL-Library.Code_Target_Nat"
begin

text \<open>
  Model of \<^verbatim>\<open>crates/rusmes-pop3/src/command.rs\<close>, \<^verbatim>\<open>parser.rs\<close> and \<^verbatim>\<open>response.rs\<close>: the
  commands with their printed form, the parser with its fifteen alternatives in their order,
  and the responses with the wire format of RFC 1939.  The lemmas give the round trip of
  printed commands through the parser and of multi-line responses through a client that
  removes the byte stuffing.  Message numbers (\<^verbatim>\<open>u32\<close>) are naturals the parser bounds.
\<close>

section \<open>Commands\<close>

datatype pop3_command =
    User string
  | Pass string
  | Stat
  | List "nat option"
  | Retr nat
  | Dele nat
  | Noop
  | Rset
  | Quit
  | Top nat nat
  | Uidl "nat option"
  | Apop string string
  | Capa
  | Stls
  | Auth "string option" "string option"

fun pop3_command_display :: "pop3_command \<Rightarrow> string" where
  "pop3_command_display (User name) = ''USER '' @ name"
| "pop3_command_display (Pass _) = ''PASS <hidden>''"
| "pop3_command_display Stat = ''STAT''"
| "pop3_command_display (List (Some msg)) = ''LIST '' @ show_nat msg"
| "pop3_command_display (List None) = ''LIST''"
| "pop3_command_display (Retr msg) = ''RETR '' @ show_nat msg"
| "pop3_command_display (Dele msg) = ''DELE '' @ show_nat msg"
| "pop3_command_display Noop = ''NOOP''"
| "pop3_command_display Rset = ''RSET''"
| "pop3_command_display Quit = ''QUIT''"
| "pop3_command_display (Top msg lines) = ''TOP '' @ show_nat msg @ '' '' @ show_nat lines"
| "pop3_command_display (Uidl (Some msg)) = ''UIDL '' @ show_nat msg"
| "pop3_command_display (Uidl None) = ''UIDL''"
| "pop3_command_display (Apop name _) = ''APOP '' @ name"
| "pop3_command_display Capa = ''CAPA''"
| "pop3_command_display Stls = ''STLS''"
| "pop3_command_display (Auth (Some m) (Some _)) = ''AUTH '' @ m @ '' <initial-response>''"
| "pop3_command_display (Auth (Some m) None) = ''AUTH '' @ m"
| "pop3_command_display (Auth None _) = ''AUTH''"

section \<open>Parser\<close>

definition p_username :: "nom \<Rightarrow> string parser" where
  "p_username N =
     n_take_while1 N (\<lambda>c. is_alphanumeric N c \<or> c = ''_'' \<or> c = ''-'' \<or> c = ''.'' \<or> c = ''@'')"

definition p_password :: "nom \<Rightarrow> string parser" where
  "p_password N = n_take_while1 N (\<lambda>c. \<not> is_whitespace c)"

definition p_message_number :: "nom \<Rightarrow> nat parser" where
  "p_message_number N = p_map_res (n_digit1 N) (parse_uint u32_max)"

definition p_line_count :: "nom \<Rightarrow> nat parser" where
  "p_line_count N = p_map_res (n_digit1 N) (parse_uint u32_max)"

definition p_digest :: "nom \<Rightarrow> string parser" where
  "p_digest N = n_take_while1 N (char_is is_ascii_hexdigit)"

definition p_sasl_mechanism :: "nom \<Rightarrow> string parser" where
  "p_sasl_mechanism N =
     n_take_while1 N (char_is (\<lambda>c. is_ascii_alphanumeric c \<or> c = CHR ''-'' \<or> c = CHR ''_''))"

definition p_sasl_initial_response :: "nom \<Rightarrow> string parser" where
  "p_sasl_initial_response N =
     n_take_while1 N (char_is (\<lambda>c. is_ascii_alphanumeric c \<or> c = CHR ''+'' \<or> c = CHR ''/'' \<or>
        c = CHR ''='' \<or> c = CHR '',''))"

definition user_command :: "nom \<Rightarrow> pop3_command parser" where
  "user_command N =
     p_map (p_preceded (n_tag_no_case N ''USER'') (p_preceded (n_space1 N) (p_username N))) User"

definition pass_command :: "nom \<Rightarrow> pop3_command parser" where
  "pass_command N =
     p_map (p_preceded (n_tag_no_case N ''PASS'') (p_preceded (n_space1 N) (p_password N))) Pass"

definition stat_command :: "nom \<Rightarrow> pop3_command parser" where
  "stat_command N = p_map (n_tag_no_case N ''STAT'') (\<lambda>_. Stat)"

definition list_command :: "nom \<Rightarrow> pop3_command parser" where
  "list_command N =
     p_map (p_pair (n_tag_no_case N ''LIST'') (p_opt (p_preceded (n_space1 N) (p_message_number N))))
       (\<lambda>(_, msg). List msg)"

definition retr_command :: "nom \<Rightarrow> pop3_command parser" where
  "retr_command N =
     p_map (p_preceded (n_tag_no_case N ''RETR'') (p_preceded (n_space1 N) (p_message_number N))) Retr"

definition dele_command :: "nom \<Rightarrow> pop3_command parser" where
  "dele_command N =
     p_map (p_preceded (n_tag_no_case N ''DELE'') (p_preceded (n_space1 N) (p_message_number N))) Dele"

definition noop_command :: "nom \<Rightarrow> pop3_command parser" where
  "noop_command N = p_map (n_tag_no_case N ''NOOP'') (\<lambda>_. Noop)"

definition rset_command :: "nom \<Rightarrow> pop3_command parser" where
  "rset_command N = p_map (n_tag_no_case N ''RSET'') (\<lambda>_. Rset)"

definition quit_command :: "nom \<Rightarrow> pop3_command parser" where
  "quit_command N = p_map (n_tag_no_case N ''QUIT'') (\<lambda>_. Quit)"

definition top_command :: "nom \<Rightarrow> pop3_command parser" where
  "top_command N =
     p_map (p_pair (n_tag_no_case N ''TOP'')
              (p_pair (p_preceded (n_space1 N) (p_message_number N))
                      (p_preceded (n_space1 N) (p_line_count N))))
       (\<lambda>(_, msg, lines). Top msg lines)"

definition uidl_command :: "nom \<Rightarrow> pop3_command parser" where
  "uidl_command N =
     p_map (p_pair (n_tag_no_case N ''UIDL'') (p_opt (p_preceded (n_space1 N) (p_message_number N))))
       (\<lambda>(_, msg). Uidl msg)"

definition apop_command :: "nom \<Rightarrow> pop3_command parser" where
  "apop_command N =
     p_map (p_pair (n_tag_no_case N ''APOP'')
              (p_pair (p_preceded (n_space1 N) (p_username N))
                      (p_preceded (n_space1 N) (p_digest N))))
       (\<lambda>(_, name, digest). Apop name digest)"

definition capa_command :: "nom \<Rightarrow> pop3_command parser" where
  "capa_command N = p_map (n_tag_no_case N ''CAPA'') (\<lambda>_. Capa)"

definition stls_command :: "nom \<Rightarrow> pop3_command parser" where
  "stls_command N = p_map (n_tag_no_case N ''STLS'') (\<lambda>_. Stls)"

definition auth_command :: "nom \<Rightarrow> pop3_command parser" where
  "auth_command N =
     p_map (p_pair (n_tag_no_case N ''AUTH'')
              (p_pair (p_opt (p_preceded (n_space1 N) (p_sasl_mechanism N)))
                      (p_opt (p_preceded (n_space1 N) (p_sasl_initial_response N)))))
       (\<lambda>(_, mechanism, initial_response). Auth mechanism initial_response)"

definition p_pop3_command :: "nom \<Rightarrow> pop3_command parser" where
  "p_pop3_command N =
     p_alt [user_command N, pass_command N, stat_command N, list_command N, retr_command N,
            dele_command N, noop_command N, rset_command N, quit_command N, top_command N,
            uidl_command N, apop_command N, capa_command N, stls_command N, auth_command N]"

definition parse_command :: "nom \<Rightarrow> string \<Rightarrow> pop3_command result" where
  "parse_command N raw =
     (let input = trim raw in
      case p_pop3_command N input of
        Some (_, cmd) \<Rightarrow> Inr cmd
      | None \<Rightarrow> Inl (''Failed to parse command: '' @ input))"

section \<open>Responses\<close>

datatype pop3_status = POk | PErr | PContinue

record pop3_response =
  pr_status :: pop3_status
  pr_message :: string
  pr_multiline :: "string list option"

definition pop3_ok :: "string \<Rightarrow> pop3_response" where
  [resp_simps]: "pop3_ok m = \<lparr>pr_status = POk, pr_message = m, pr_multiline = None\<rparr>"

definition pop3_err :: "string \<Rightarrow> pop3_response" where
  [resp_simps]: "pop3_err m = \<lparr>pr_status = PErr, pr_message = m, pr_multiline = None\<rparr>"

definition pop3_ok_multiline :: "string \<Rightarrow> string list \<Rightarrow> pop3_response" where
  [resp_simps]: "pop3_ok_multiline m d = \<lparr>pr_status = POk, pr_message = m, pr_multiline = Some d\<rparr>"

definition pop3_cont :: "string \<Rightarrow> pop3_response" where
  [resp_simps]: "pop3_cont m = \<lparr>pr_status = PContinue, pr_message = m, pr_multiline = None\<rparr>"

definition stuff_line :: "string \<Rightarrow> string" where
  "stuff_line l = (if starts_with l ''.'' then ''.'' else []) @ l @ CRLF"

definition pop3_to_wire :: "pop3_response \<Rightarrow> string" where
  "pop3_to_wire r =
     (case pr_status r of
        PContinue \<Rightarrow>
          (if pr_message r = [] then ''+ '' @ CRLF else ''+ '' @ pr_message r @ CRLF)
      | st \<Rightarrow>
          (if st = POk then ''+OK '' else ''-ERR '') @ pr_message r @ CRLF @
          (case pr_multiline r of
             None \<Rightarrow> []
           | Some d \<Rightarrow> concat (map stuff_line d) @ ''.'' @ CRLF))"

section \<open>Reading a response\<close>

text \<open>A client of RFC 1939: lines up to the terminating dot, one leading dot removed.\<close>

fun read_multiline :: "string list \<Rightarrow> (string list \<times> string list) option" where
  "read_multiline [] = None"
| "read_multiline (l # ls) =
     (if l = ''.'' then Some ([], ls)
      else map_option (\<lambda>(d, r). ((if starts_with l ''.'' then drop 1 l else l) # d, r))
             (read_multiline ls))"

lemma str_lines_stuffed:
  "CHR 0x0A \<notin> set l \<Longrightarrow>
     str_lines (stuff_line l @ r) = ((if starts_with l ''.'' then ''.'' else []) @ l) # str_lines r"
  using str_lines_CRLF [of "(if starts_with l ''.'' then ''.'' else []) @ l" r]
  by (simp add: stuff_line_def split: if_splits)

lemma read_stuffed:
  "list_all (\<lambda>l. CHR 0x0A \<notin> set l) d \<Longrightarrow>
     read_multiline (str_lines (concat (map stuff_line d) @ ''.'' @ CRLF @ rst)) = Some (d, str_lines rst)"
proof (induction d)
  case Nil
  show ?case using str_lines_CRLF [of "''.''" rst] by simp
next
  case (Cons l d)
  have "(if starts_with l ''.'' then ''.'' else []) @ l \<noteq> ''.''"
    by (cases l) auto
  with Cons show ?case by (simp add: str_lines_stuffed)
qed

section \<open>Parsing what is printed\<close>

definition username_char :: "char \<Rightarrow> bool" where
  "username_char c \<longleftrightarrow> is_ascii_alphanumeric c \<or> c \<in> set ''_-.@''"

definition mechanism_char :: "char \<Rightarrow> bool" where
  "mechanism_char c \<longleftrightarrow> is_ascii_alphanumeric c \<or> c = CHR ''-'' \<or> c = CHR ''_''"

text \<open>The commands whose printed form carries all their arguments.\<close>

fun printable_command :: "pop3_command \<Rightarrow> bool" where
  "printable_command (User name) = (name \<noteq> [] \<and> list_all username_char name)"
| "printable_command (Pass _) = False"
| "printable_command (List (Some n)) = (n \<le> u32_max)"
| "printable_command (Retr n) = (n \<le> u32_max)"
| "printable_command (Dele n) = (n \<le> u32_max)"
| "printable_command (Top n m) = (n \<le> u32_max \<and> m \<le> u32_max)"
| "printable_command (Uidl (Some n)) = (n \<le> u32_max)"
| "printable_command (Apop _ _) = False"
| "printable_command (Auth (Some m) None) = (m \<noteq> [] \<and> list_all mechanism_char m)"
| "printable_command (Auth _ (Some _)) = False"
| "printable_command _ = True"

lemmas command_parsers =
  user_command_def pass_command_def stat_command_def list_command_def retr_command_def
  dele_command_def noop_command_def rset_command_def quit_command_def top_command_def
  uidl_command_def apop_command_def capa_command_def stls_command_def auth_command_def

lemma digit_not_blank: "is_ascii_digit c \<Longrightarrow> \<not> blank c"
  by (auto simp: is_ascii_digit_def blank_def)

lemma username_char_ascii: "username_char c \<Longrightarrow> code_of c < 128 \<and> \<not> blank c \<and> is_graphic c"
  by (auto simp: username_char_def blank_def byte_simps)

lemma mechanism_char_ascii: "mechanism_char c \<Longrightarrow> code_of c < 128 \<and> \<not> blank c \<and> is_graphic c"
  by (auto simp: mechanism_char_def blank_def byte_simps)

context nom_laws
begin

lemma pop3_tag:
  assumes "t \<in> {''USER'', ''PASS'', ''STAT'', ''LIST'', ''RETR'', ''DELE'', ''NOOP'', ''RSET'', ''QUIT'',
    ''TOP'', ''UIDL'', ''APOP'', ''CAPA'', ''STLS'', ''AUTH''}"
  shows "n_tag_no_case N t i = ref_tag_no_case t i"
  by (rule tag_no_case) (use assms in \<open>auto simp: plain_tag_def\<close>)

lemma message_number_show:
  assumes "n \<le> u32_max" "r = [] \<or> \<not> is_ascii_digit (hd r)"
  shows "p_message_number N (show_nat n @ r) = Some (r, n)"
  using assms digit1_all [OF show_nat_not_Nil show_nat_digits assms(2)]
  by (simp add: p_message_number_def p_map_res_def parse_uint_show_nat)

lemma hd_show_nat_not_blank: "\<not> blank (hd (show_nat n @ r))"
  using show_nat_digits [of n] by (cases "show_nat n") (auto simp: digit_not_blank)

lemma number_arg:
  assumes "n \<le> u32_max" "r = [] \<or> \<not> is_ascii_digit (hd r)"
  shows "p_preceded (n_space1 N) (p_message_number N) (CHR '' '' # show_nat n @ r) = Some (r, n)"
proof -
  have "n_space1 N (CHR '' '' # show_nat n @ r) = Some (show_nat n @ r, '' '')"
    using hd_show_nat_not_blank by (intro space1_blank) blast
  with message_number_show [OF assms] show ?thesis by (simp add: p_preceded_def)
qed

lemma username_arg:
  assumes "name \<noteq> []" "list_all username_char name"
  shows "p_preceded (n_space1 N) (p_username N) (CHR '' '' # name) = Some ([], name)"
proof -
  have all: "list_all (\<lambda>c. code_of c < 128 \<and> (is_alphanumeric N [c] \<or> [c] = ''_'' \<or> [c] = ''-'' \<or>
      [c] = ''.'' \<or> [c] = ''@'')) name"
    using assms(2) username_char_ascii
    by (auto simp: list_all_iff username_char_def is_alphanumeric_def is_ascii_char_def)
  have "n_space1 N (CHR '' '' # name) = Some (name, '' '')"
    using assms username_char_ascii by (intro space1_blank) (cases name, auto)
  with take_while1_ascii [OF assms(1) all, of "[]"] show ?thesis
    by (simp add: p_preceded_def p_username_def)
qed

lemma mechanism_arg:
  assumes "m \<noteq> []" "list_all mechanism_char m"
  shows "p_preceded (n_space1 N) (p_sasl_mechanism N) (CHR '' '' # m) = Some ([], m)"
proof -
  have all: "list_all (\<lambda>c. code_of c < 128 \<and>
      char_is (\<lambda>c. is_ascii_alphanumeric c \<or> c = CHR ''-'' \<or> c = CHR ''_'') [c]) m"
    using assms(2) mechanism_char_ascii
    by (auto simp: list_all_iff mechanism_char_def char_is_def is_ascii_char_def)
  have "n_space1 N (CHR '' '' # m) = Some (m, '' '')"
    using assms mechanism_char_ascii by (intro space1_blank) (cases m, auto)
  with take_while1_ascii [OF assms(1) all, of "[]"] show ?thesis
    by (simp add: p_preceded_def p_sasl_mechanism_def)
qed

lemma no_arg: "p_preceded (n_space1 N) p [] = None"
  using space1_None [of "[]"] by (simp add: p_preceded_def)

text \<open>The tag that matches decides which alternative of the parser answers.\<close>

lemma pop3_dispatch:
  "p_pop3_command N (''STAT'' @ r) = Some (r, Stat)"
  "p_pop3_command N (''NOOP'' @ r) = Some (r, Noop)"
  "p_pop3_command N (''RSET'' @ r) = Some (r, Rset)"
  "p_pop3_command N (''QUIT'' @ r) = Some (r, Quit)"
  "p_pop3_command N (''CAPA'' @ r) = Some (r, Capa)"
  "p_pop3_command N (''STLS'' @ r) = Some (r, Stls)"
  "p_pop3_command N (''LIST'' @ r) =
     map_option (\<lambda>(r, a). (r, List a)) (p_opt (p_preceded (n_space1 N) (p_message_number N)) r)"
  "p_pop3_command N (''UIDL'' @ r) =
     map_option (\<lambda>(r, a). (r, Uidl a)) (p_opt (p_preceded (n_space1 N) (p_message_number N)) r)"
  by (auto simp: p_pop3_command_def command_parsers parser_defs pop3_tag ref_tag_no_case_def
      eq_ignore_ascii_case_def split: option.splits)

lemma pop3_dispatch_args:
  "p_pop3_command N (''USER'' @ r) =
     map_option (\<lambda>(r, a). (r, User a)) (p_preceded (n_space1 N) (p_username N) r)"
  "p_pop3_command N (''RETR'' @ r) =
     map_option (\<lambda>(r, a). (r, Retr a)) (p_preceded (n_space1 N) (p_message_number N) r)"
  "p_pop3_command N (''DELE'' @ r) =
     map_option (\<lambda>(r, a). (r, Dele a)) (p_preceded (n_space1 N) (p_message_number N) r)"
  "p_pop3_command N (''TOP'' @ r) =
     map_option (\<lambda>(r, a, b). (r, Top a b))
       (p_pair (p_preceded (n_space1 N) (p_message_number N))
          (p_preceded (n_space1 N) (p_line_count N)) r)"
  "p_pop3_command N (''AUTH'' @ r) =
     map_option (\<lambda>(r, a, b). (r, Auth a b))
       (p_pair (p_opt (p_preceded (n_space1 N) (p_sasl_mechanism N)))
          (p_opt (p_preceded (n_space1 N) (p_sasl_initial_response N))) r)"
  by (auto simp: p_pop3_command_def command_parsers parser_defs pop3_tag ref_tag_no_case_def
      eq_ignore_ascii_case_def split: option.splits)

end

section \<open>Properties\<close>

lemma last_show_nat_graphic: "is_graphic (last (show_nat n))"
proof -
  have "last (show_nat n) \<in> set (show_nat n)" by simp
  with show_nat_digits [of n] have "is_ascii_digit (last (show_nat n))" by (auto simp: list_all_iff)
  then show ?thesis by (simp add: byte_simps)
qed

lemma graphic_last_arg: "x \<noteq> [] \<Longrightarrow> list_all is_graphic x \<Longrightarrow> is_graphic (last x)"
  by (auto simp: list_all_iff)

lemma trim_display:
  assumes "printable_command c"
  shows "trim (pop3_command_display c) = pop3_command_display c"
proof (rule trim_graphic)
  show "pop3_command_display c \<noteq> []" "is_graphic (hd (pop3_command_display c))"
    by (cases c rule: pop3_command_display.cases; simp add: is_graphic_def)+
  have name: "is_graphic (last x)" if "x \<noteq> []" "list_all username_char x \<or> list_all mechanism_char x" for x
    using that by (intro graphic_last_arg) (auto simp: list_all_iff username_char_ascii mechanism_char_ascii)
  have lits: "list_all is_graphic ''TPLASH''" by (simp add: is_graphic_def)
  show "is_graphic (last (pop3_command_display c))"
    using assms name lits
    by (cases c rule: printable_command.cases) (auto simp: last_show_nat_graphic)
qed

text \<open>Commands survive printing and parsing: for every command whose printed form carries all
  its arguments, with message numbers that fit 32 bits and user and mechanism names of the
  accepted characters, the parser reads the printed line as exactly that command.\<close>

theorem pop3_command_roundtrip:
  assumes "nom_laws N" "printable_command c"
  shows "parse_command N (pop3_command_display c) = Inr c"
proof -
  note args = nom_laws.number_arg [OF assms(1)] nom_laws.username_arg [OF assms(1)]
    nom_laws.mechanism_arg [OF assms(1)] nom_laws.no_arg [OF assms(1)]
  note disp = nom_laws.pop3_dispatch [OF assms(1)] nom_laws.pop3_dispatch_args [OF assms(1)]
  have num: "p_preceded (n_space1 N) (p_message_number N) (CHR '' '' # show_nat n) = Some ([], n)"
    if "n \<le> u32_max" for n using args(1) [of n "[]"] that by simp
  have num2: "p_preceded (n_space1 N) (p_message_number N) (CHR '' '' # show_nat n @ CHR '' '' # r) =
      Some (CHR '' '' # r, n)" if "n \<le> u32_max" for n r
    using args(1) [of n "CHR '' '' # r"] that by (simp add: is_ascii_digit_def)
  have lc: "p_line_count N = p_message_number N" by (simp add: p_line_count_def p_message_number_def)
  have "\<exists>r. p_pop3_command N (pop3_command_display c) = Some (r, c)"
    using assms(2) disp [where r = "[]"] disp [where r = "CHR '' '' # _"]
    by (cases c rule: printable_command.cases)
      (auto simp: args(2,3,4) num num2 lc p_opt_def p_pair_def)
  then show ?thesis
    using trim_display [OF assms(2)] by (auto simp: parse_command_def)
qed

theorem pop3_command_roundtrip_witness:
  "parse_command nom_complete ''TOP 12 30'' = Inr (Top 12 30) \<and>
   pop3_command_display (Top 12 30) = ''TOP 12 30''"
proof -
  have d: "pop3_command_display (Top 12 30) = ''TOP 12 30''" by code_simp
  have "printable_command (Top 12 30)" by code_simp
  from pop3_command_roundtrip [OF complete.nom_laws_axioms this] d show ?thesis by simp
qed

text \<open>Byte stuffing is transparent: a client that reads a multi-line response line by line
  up to the terminating dot and removes one leading dot gets exactly the lines the server put
  in, and what follows on the connection is untouched, even if lines consist of dots only.\<close>

theorem pop3_multiline_roundtrip:
  assumes "list_all (\<lambda>l. CHR 0x0A \<notin> set l) d" "CHR 0x0A \<notin> set m"
  shows "str_lines (pop3_to_wire (pop3_ok_multiline m d) @ rst) =
      (''+OK '' @ m) # tl (str_lines (pop3_to_wire (pop3_ok_multiline m d) @ rst)) \<and>
    read_multiline (tl (str_lines (pop3_to_wire (pop3_ok_multiline m d) @ rst))) = Some (d, str_lines rst)"
proof -
  have "str_lines (pop3_to_wire (pop3_ok_multiline m d) @ rst) =
      (''+OK '' @ m) # str_lines (concat (map stuff_line d) @ ''.'' @ CRLF @ rst)"
    using str_lines_CRLF [of "''+OK '' @ m"] assms(2)
    by (simp add: pop3_to_wire_def pop3_ok_multiline_def)
  with read_stuffed [OF assms(1)] show ?thesis by simp
qed

theorem pop3_multiline_roundtrip_witness:
  "read_multiline (tl (str_lines (pop3_to_wire (pop3_ok_multiline ''x'' [''.'', ''..a'', []]) @ ''+OK''))) =
     Some ([''.'', ''..a'', []], str_lines ''+OK'')"
  using pop3_multiline_roundtrip [of "[''.'', ''..a'', []]" "''x''" "''+OK''"] by simp

end
