(* ===== verification/Maildrop_Lock.thy ===== *)
theory Maildrop_Lock
  imports Rusmes_Prelude "HOL-Library.AList"
begin

text \<open>
  Model of \<^verbatim>\<open>crates/rusmes-pop3/src/maildrop_lock.rs\<close>.  The registry maps a user to the state
  of the user's mutex; a guard is the user it was acquired for, and dropping it unlocks the
  mutex.  The locale \<open>exclusive_lock\<close> is the contract the sessions rely on.
\<close>

section \<open>Contract\<close>

locale exclusive_lock =
  fixes try_acquire :: "'u \<Rightarrow> 'm \<Rightarrow> bool \<times> 'm"
    and release :: "'u \<Rightarrow> 'm \<Rightarrow> 'm"
    and held :: "'m \<Rightarrow> 'u \<Rightarrow> bool"
  assumes acquire_free: "fst (try_acquire u m) \<longleftrightarrow> \<not> held m u"
    and held_acquire: "held (snd (try_acquire u m)) v \<longleftrightarrow> held m v \<or> v = u"
    and held_release: "held (release u m) v \<longleftrightarrow> held m v \<and> v \<noteq> u"
begin

lemma acquire_exclusive: "\<not> fst (try_acquire u (snd (try_acquire u m)))"
  by (simp add: acquire_free held_acquire)

lemma acquire_after_release: "fst (try_acquire u (release u m))"
  by (simp add: acquire_free held_release)

lemma acquire_independent:
  "u \<noteq> v \<Longrightarrow> fst (try_acquire v (snd (try_acquire u m))) = fst (try_acquire v m)"
  by (simp add: acquire_free held_acquire)

end

section \<open>The lock manager\<close>

type_synonym lock_manager = "(string \<times> bool) list"

definition MaildropLockManager_new :: lock_manager where
  "MaildropLockManager_new = []"

definition registered_user_count :: "lock_manager \<Rightarrow> nat" where
  "registered_user_count m = length m"

definition get_or_insert :: "string \<Rightarrow> lock_manager \<Rightarrow> bool \<times> lock_manager" where
  "get_or_insert user m =
     (case map_of m user of
        Some locked \<Rightarrow> (locked, m)
      | None \<Rightarrow> (False, AList.update user False m))"

definition try_acquire :: "string \<Rightarrow> lock_manager \<Rightarrow> string option \<times> lock_manager" where
  "try_acquire user m =
     (case get_or_insert user m of
        (True, m') \<Rightarrow> (None, m')
      | (False, m') \<Rightarrow> (Some user, AList.update user True m'))"

definition drop_guard :: "string \<Rightarrow> lock_manager \<Rightarrow> lock_manager" where
  "drop_guard user m = AList.update user False m"

definition locked :: "lock_manager \<Rightarrow> string \<Rightarrow> bool" where
  "locked m user \<longleftrightarrow> map_of m user = Some True"

lemma try_acquire_None_iff: "fst (try_acquire u m) = None \<longleftrightarrow> locked m u"
  by (auto simp: try_acquire_def get_or_insert_def locked_def split: option.splits bool.splits)

lemma try_acquire_guard: "fst (try_acquire u m) = Some g \<Longrightarrow> g = u"
  by (auto simp: try_acquire_def get_or_insert_def split: option.splits bool.splits prod.splits)

lemma fst_try_acquire: "fst (try_acquire u m) = (if locked m u then None else Some u)"
  using try_acquire_None_iff [of u m] try_acquire_guard [of u m]
  by (cases "fst (try_acquire u m)") auto

lemma locked_try_acquire: "locked (snd (try_acquire u m)) v \<longleftrightarrow> locked m v \<or> v = u"
  by (auto simp: try_acquire_def get_or_insert_def locked_def update_conv' split: option.splits bool.splits)

lemma locked_drop_guard: "locked (drop_guard u m) v \<longleftrightarrow> locked m v \<and> v \<noteq> u"
  by (auto simp: drop_guard_def locked_def update_conv')

lemma locked_new [simp]: "\<not> locked MaildropLockManager_new u"
  by (simp add: locked_def MaildropLockManager_new_def)

interpretation maildrop: exclusive_lock
  "\<lambda>u m. (fst (try_acquire u m) \<noteq> None, snd (try_acquire u m))" drop_guard locked
  by unfold_locales (simp_all add: try_acquire_None_iff locked_try_acquire locked_drop_guard)

text \<open>The maildrop locks are exclusive: while a user's lock is held every further attempt
  for that user fails, dropping the guard frees exactly that lock, and attempts for different
  users do not interfere.\<close>

theorem maildrop_lock_exclusive:
  "(fst (try_acquire u m) = None \<longleftrightarrow> locked m u) \<and>
   fst (try_acquire u (snd (try_acquire u m))) = None \<and>
   fst (try_acquire u (drop_guard u m)) = Some u \<and>
   (\<forall>v. locked (drop_guard u m) v \<longleftrightarrow> locked m v \<and> v \<noteq> u) \<and>
   (\<forall>v. locked (snd (try_acquire u m)) v \<longleftrightarrow> locked m v \<or> v = u)"
  using maildrop.acquire_exclusive [of u m] maildrop.acquire_after_release [of u m]
  by (auto simp: fst_try_acquire locked_try_acquire locked_drop_guard)

end
