(* ===== verification/Pop3_Session.thy ===== *)
theory Pop3_Session
  imports Proto_Mail Auth_Sasl Pop3_Protocol Maildrop_Lock
begin

text \<open>
  Model of \<^verbatim>\<open>crates/rusmes-pop3/src/session.rs\<close>: the session record, one definition per
  command handler, the SASL exchange, mailbox loading and the deletions of the update state.

  Every handler takes the environment of the moment (authentication backend, storage backend,
  clock, random source) and returns the next session and the response; those that acquire or
  drop the maildrop guard also pass the shared lock manager.  \<^verbatim>\<open>usize\<close> sums wrap as in a
  release build.
\<close>

unbundle bit_operations_syntax

section \<open>State\<close>

datatype pop3_state = Authorization | Transaction | Update

record pop3_config =
  pc_hostname :: string
  pc_greeting :: string
  pc_timeout_seconds :: nat
  pc_enable_stls :: bool
  pc_sasl_mechanisms :: "string list"

definition pop3_config_default :: pop3_config where
  "pop3_config_default =
     \<lparr>pc_hostname = ''localhost'', pc_greeting = ''POP3 server ready'', pc_timeout_seconds = 600,
      pc_enable_stls = False,
      pc_sasl_mechanisms = [''PLAIN'', ''LOGIN'', ''CRAM-MD5'', ''SCRAM-SHA-256'']\<rparr>"

record message_info =
  mi_message_id :: message_id
  mi_uid :: nat
  mi_size :: nat
  mi_deleted :: bool

record pop3_session =
  ps_state :: pop3_state
  ps_config :: pop3_config
  ps_username :: "username option"
  ps_mailbox_id :: "uuid option"
  ps_messages :: "message_info list"
  ps_apop_timestamp :: "string option"
  ps_guard :: "string option"
  ps_pending_sasl :: "sasl_mechanism option"

text \<open>What the session asks of the rest of the system at one moment: the SASL environment with
  the authentication backend, the parser library, the storage backend, and whether the reader
  of a streamed body fails.\<close>

record pop3_env =
  pe_sasl :: sasl_env
  pe_nom :: nom
  pe_process_id :: nat
  pe_get_user_inbox :: "username \<Rightarrow> uuid option result"
  pe_search_all :: "uuid \<Rightarrow> message_id list result"
  pe_get_message :: "message_id \<Rightarrow> mail option result"
  pe_read_error :: "message_id \<Rightarrow> string option"
  pe_delete_messages :: "message_id list \<Rightarrow> unit result"

abbreviation pe_auth :: "pop3_env \<Rightarrow> auth_backend" where
  "pe_auth env \<equiv> se_auth (pe_sasl env)"

abbreviation pe_crypto :: "pop3_env \<Rightarrow> crypto" where
  "pe_crypto env \<equiv> se_crypto (pe_sasl env)"

definition Pop3Session_new :: "pop3_config \<Rightarrow> pop3_session" where
  "Pop3Session_new config =
     \<lparr>ps_state = Authorization, ps_config = config, ps_username = None, ps_mailbox_id = None,
      ps_messages = [], ps_apop_timestamp = None, ps_guard = None, ps_pending_sasl = None\<rparr>"

definition generate_apop_timestamp :: "pop3_env \<Rightarrow> pop3_session \<Rightarrow> string result" where
  "generate_apop_timestamp env s =
     rbind (se_now (pe_sasl env)) (\<lambda>timestamp.
     rbind (map_err (\<lambda>e. ''RNG failure: '' @ e) (se_random_u64 (pe_sasl env))) (\<lambda>random.
       Inr (''<'' @ show_nat (pe_process_id env) @ ''.'' @ show_nat timestamp @ ''.'' @
            show_nat random @ ''@'' @ pc_hostname (ps_config s) @ ''>'')))"

section \<open>Helpers\<close>

definition usize_sum :: "nat list \<Rightarrow> nat" where
  "usize_sum xs = foldl usize_add 0 xs"

definition pop3_mail_to_wire :: "string option \<Rightarrow> mail \<Rightarrow> string" where
  "pop3_mail_to_wire read_error mail =
     header_block (mm_headers (m_message mail)) @ CRLF @
     (case mm_body (m_message mail) of
        Small bytes \<Rightarrow> (if utf8_valid bytes then bytes else utf8_lossy bytes)
      | Large large \<Rightarrow>
          (case fst (read_to_bytes read_error large) of
             Inr bytes \<Rightarrow> utf8_lossy bytes
           | Inl _ \<Rightarrow> []))"

definition compute_apop_digest :: "crypto \<Rightarrow> string \<Rightarrow> string \<Rightarrow> string" where
  "compute_apop_digest cr timestamp secret = c_hex cr (c_md5 cr (timestamp @ secret))"

definition constant_time_compare :: "string \<Rightarrow> string \<Rightarrow> bool" where
  "constant_time_compare a b =
     (if length a \<noteq> length b then False
      else foldl (\<lambda>result i. result OR (byte_of (a ! i) XOR byte_of (b ! i))) 0 [0..<length a] = (0 :: 8 word))"

definition live_messages :: "pop3_session \<Rightarrow> message_info list" where
  "live_messages s = filter (\<lambda>m. \<not> mi_deleted m) (ps_messages s)"

definition live_size :: "pop3_session \<Rightarrow> nat" where
  "live_size s = usize_sum (map mi_size (live_messages s))"

abbreviation wrong_state :: pop3_response where
  "wrong_state \<equiv> pop3_err ''Command not valid in this state''"

text \<open>The lines \<^verbatim>\<open>n x\<close> of the messages that are not deleted, numbered from one.\<close>

definition numbered_lines :: "(message_info \<Rightarrow> nat) \<Rightarrow> message_info list \<Rightarrow> string list" where
  "numbered_lines f ms =
     map (\<lambda>(idx, m). show_nat (idx + 1) @ '' '' @ show_nat (f m))
       (filter (\<lambda>(idx, m). \<not> mi_deleted m) (zip [0..<length ms] ms))"

text \<open>The guard shared by the commands that name a message.\<close>

definition lookup_message :: "pop3_session \<Rightarrow> nat \<Rightarrow> string \<Rightarrow> pop3_response + message_info" where
  "lookup_message s n gone =
     (if n = 0 \<or> length (ps_messages s) < n then Inl (pop3_err ''No such message'')
      else let info = ps_messages s ! (n - 1)
           in if mi_deleted info then Inl (pop3_err gone) else Inr info)"

section \<open>Handlers without the lock\<close>

definition pop3_handle_user :: "pop3_session \<Rightarrow> string \<Rightarrow> pop3_session \<times> pop3_response" where
  "pop3_handle_user s name =
     (if ps_state s \<noteq> Authorization then (s, wrong_state)
      else case Username_new name of
        Inr u \<Rightarrow> (s\<lparr>ps_username := Some u\<rparr>, pop3_ok (name @ '' is a valid mailbox''))
      | Inl _ \<Rightarrow> (s, pop3_err ''Invalid username''))"

definition pop3_handle_stat :: "pop3_session \<Rightarrow> pop3_response" where
  "pop3_handle_stat s =
     (if ps_state s \<noteq> Transaction then wrong_state
      else pop3_ok (show_nat (length (live_messages s)) @ '' '' @ show_nat (live_size s)))"

definition pop3_handle_list :: "pop3_session \<Rightarrow> nat option \<Rightarrow> pop3_response" where
  "pop3_handle_list s msg =
     (if ps_state s \<noteq> Transaction then wrong_state
      else case msg of
        Some n \<Rightarrow>
          (case lookup_message s n ''Message deleted'' of
             Inl r \<Rightarrow> r
           | Inr info \<Rightarrow> pop3_ok (show_nat n @ '' '' @ show_nat (mi_size info)))
      | None \<Rightarrow>
          pop3_ok_multiline
            (show_nat (length (live_messages s)) @ '' messages ('' @ show_nat (live_size s) @ '' octets)'')
            (numbered_lines mi_size (ps_messages s)))"

definition pop3_handle_uidl :: "pop3_session \<Rightarrow> nat option \<Rightarrow> pop3_response" where
  "pop3_handle_uidl s msg =
     (if ps_state s \<noteq> Transaction then wrong_state
      else case msg of
        Some n \<Rightarrow>
          (case lookup_message s n ''Message deleted'' of
             Inl r \<Rightarrow> r
           | Inr info \<Rightarrow> pop3_ok (show_nat n @ '' '' @ show_nat (mi_uid info)))
      | None \<Rightarrow> pop3_ok_multiline ''UIDL'' (numbered_lines mi_uid (ps_messages s)))"

definition fetch_message ::
    "pop3_env \<Rightarrow> message_info \<Rightarrow> (string list \<Rightarrow> pop3_response) \<Rightarrow> pop3_response" where
  "fetch_message env info k =
     (case pe_get_message env (mi_message_id info) of
        Inr (Some mail) \<Rightarrow> k (str_lines (pop3_mail_to_wire (pe_read_error env (mi_message_id info)) mail))
      | Inr None \<Rightarrow> pop3_err ''Message not found''
      | Inl _ \<Rightarrow> pop3_err ''Failed to retrieve message'')"

definition pop3_handle_retr :: "pop3_env \<Rightarrow> pop3_session \<Rightarrow> nat \<Rightarrow> pop3_response" where
  "pop3_handle_retr env s msg =
     (if ps_state s \<noteq> Transaction then wrong_state
      else case lookup_message s msg ''Message deleted'' of
        Inl r \<Rightarrow> r
      | Inr info \<Rightarrow>
          fetch_message env info
            (\<lambda>lines. pop3_ok_multiline (show_nat (mi_size info) @ '' octets'') lines))"

definition top_lines :: "string list \<Rightarrow> nat \<Rightarrow> string list" where
  "top_lines all_lines n =
     (let header_end = length (takeWhile (\<lambda>l. l \<noteq> []) all_lines);
          end_pos = min (header_end + 1 + n) (length all_lines)
      in take end_pos all_lines)"

definition pop3_handle_top :: "pop3_env \<Rightarrow> pop3_session \<Rightarrow> nat \<Rightarrow> nat \<Rightarrow> pop3_response" where
  "pop3_handle_top env s msg lines =
     (if ps_state s \<noteq> Transaction then wrong_state
      else case lookup_message s msg ''Message deleted'' of
        Inl r \<Rightarrow> r
      | Inr info \<Rightarrow>
          fetch_message env info (\<lambda>all_lines. pop3_ok_multiline ''TOP'' (top_lines all_lines lines)))"

definition pop3_handle_dele :: "pop3_session \<Rightarrow> nat \<Rightarrow> pop3_session \<times> pop3_response" where
  "pop3_handle_dele s msg =
     (if ps_state s \<noteq> Transaction then (s, wrong_state)
      else case lookup_message s msg ''Message already deleted'' of
        Inl r \<Rightarrow> (s, r)
      | Inr info \<Rightarrow>
          (s\<lparr>ps_messages := (ps_messages s)[msg - 1 := info\<lparr>mi_deleted := True\<rparr>]\<rparr>,
           pop3_ok (''Message '' @ show_nat msg @ '' deleted'')))"

definition pop3_handle_noop :: "pop3_session \<Rightarrow> pop3_response" where
  "pop3_handle_noop s = (if ps_state s \<noteq> Transaction then wrong_state else pop3_ok ''NOOP'')"

definition pop3_handle_rset :: "pop3_session \<Rightarrow> pop3_session \<times> pop3_response" where
  "pop3_handle_rset s =
     (if ps_state s \<noteq> Transaction then (s, wrong_state)
      else (s\<lparr>ps_messages := map (\<lambda>m. m\<lparr>mi_deleted := False\<rparr>) (ps_messages s)\<rparr>,
            pop3_ok (''Maildrop has '' @ show_nat (length (ps_messages s)) @ '' messages'')))"

definition pop3_handle_quit :: "pop3_session \<Rightarrow> pop3_session \<times> pop3_response" where
  "pop3_handle_quit s =
     (case ps_state s of
        Authorization \<Rightarrow> (s\<lparr>ps_state := Update\<rparr>, pop3_ok ''POP3 server signing off'')
      | Transaction \<Rightarrow>
          (s\<lparr>ps_state := Update\<rparr>,
           pop3_ok (''POP3 server signing off ('' @
             show_nat (length (filter mi_deleted (ps_messages s))) @ '' messages deleted)''))
      | Update \<Rightarrow> (s, pop3_ok ''POP3 server signing off''))"

definition pop3_handle_capa :: "pop3_session \<Rightarrow> pop3_response" where
  "pop3_handle_capa s =
     pop3_ok_multiline ''Capability list follows''
       ([''USER'', ''TOP'', ''UIDL''] @
        (if ps_state s = Authorization \<and> pc_enable_stls (ps_config s) then [''STLS''] else []) @
        (if ps_state s = Authorization \<and> pc_sasl_mechanisms (ps_config s) \<noteq> []
         then [''SASL '' @ str_join '' '' (pc_sasl_mechanisms (ps_config s))] else []))"

definition pop3_handle_stls :: "pop3_session \<Rightarrow> pop3_session \<times> pop3_response" where
  "pop3_handle_stls s =
     (if ps_state s \<noteq> Authorization then (s, wrong_state)
      else if \<not> pc_enable_stls (ps_config s) then (s, pop3_err ''STLS not available'')
      else (s\<lparr>ps_username := None, ps_state := Authorization\<rparr>, pop3_ok ''Begin TLS negotiation''))"

section \<open>Loading the mailbox\<close>

text \<open>The loop over the message identifiers; on a failing storage call the entries loaded so
  far stay in the list.\<close>

fun load_messages ::
    "pop3_env \<Rightarrow> (nat \<times> message_id) list \<Rightarrow> message_info list \<Rightarrow> message_info list \<times> unit result" where
  "load_messages env [] acc = (acc, Inr ())"
| "load_messages env ((idx, mid) # rest) acc =
     (case pe_get_message env mid of
        Inl e \<Rightarrow> (acc, Inl e)
      | Inr None \<Rightarrow> load_messages env rest acc
      | Inr (Some mail) \<Rightarrow>
          load_messages env rest
            (acc @ [\<lparr>mi_message_id = mid, mi_uid = (idx + 1) mod 2 ^ 32,
                     mi_size = length (pop3_mail_to_wire (pe_read_error env mid) mail),
                     mi_deleted = False\<rparr>]))"

definition load_mailbox :: "pop3_env \<Rightarrow> pop3_session \<Rightarrow> username \<Rightarrow> pop3_session \<times> unit result" where
  "load_mailbox env s username =
     (case pe_get_user_inbox env username of
        Inl e \<Rightarrow> (s, Inl e)
      | Inr None \<Rightarrow> (s, Inl ''INBOX not found for user'')
      | Inr (Some inbox_id) \<Rightarrow>
          (let s1 = s\<lparr>ps_mailbox_id := Some inbox_id\<rparr> in
           case pe_search_all env inbox_id of
             Inl e \<Rightarrow> (s1, Inl e)
           | Inr ids \<Rightarrow>
               (case load_messages env (zip [0..<length ids] ids) [] of
                  (ms, r) \<Rightarrow> (s1\<lparr>ps_messages := ms\<rparr>, r))))"

section \<open>Authentication\<close>

definition release_maildrop_lock ::
    "lock_manager \<Rightarrow> pop3_session \<Rightarrow> lock_manager \<times> pop3_session" where
  "release_maildrop_lock locks s =
     ((case ps_guard s of None \<Rightarrow> locks | Some u \<Rightarrow> drop_guard u locks), s\<lparr>ps_guard := None\<rparr>)"

definition transition_to_transaction ::
    "pop3_env \<Rightarrow> lock_manager \<Rightarrow> pop3_session \<Rightarrow> username \<Rightarrow>
       lock_manager \<times> pop3_session \<times> pop3_response" where
  "transition_to_transaction env locks s username =
     (case try_acquire (username_str username) locks of
        (None, locks1) \<Rightarrow> (locks1, s, pop3_err ''maildrop locked'')
      | (Some guard, locks1) \<Rightarrow>
          (case load_mailbox env s username of
             (s1, Inr _) \<Rightarrow>
               (let (locks2, s2) = release_maildrop_lock locks1 s1;
                    s3 = s2\<lparr>ps_username := Some username, ps_guard := Some guard,
                            ps_state := Transaction\<rparr>
                in (locks2, s3,
                    pop3_ok (show_nat (length (ps_messages s3)) @ '' messages ('' @
                      show_nat (usize_sum (map mi_size (ps_messages s3))) @ '' octets)'')))
           | (s1, Inl _) \<Rightarrow> (drop_guard guard locks1, s1, pop3_err ''Mailbox unavailable'')))"

definition pop3_handle_pass ::
    "pop3_env \<Rightarrow> lock_manager \<Rightarrow> pop3_session \<Rightarrow> string \<Rightarrow>
       lock_manager \<times> pop3_session \<times> pop3_response" where
  "pop3_handle_pass env locks s password =
     (if ps_state s \<noteq> Authorization then (locks, s, wrong_state)
      else case ps_username s of
        None \<Rightarrow> (locks, s, pop3_err ''No username specified'')
      | Some u \<Rightarrow>
          (case ab_authenticate (pe_auth env) u password of
             Inr True \<Rightarrow> transition_to_transaction env locks s u
           | Inr False \<Rightarrow> (locks, s, pop3_err ''Authentication failed'')
           | Inl _ \<Rightarrow> (locks, s, pop3_err ''Authentication error'')))"

definition pop3_handle_apop ::
    "pop3_env \<Rightarrow> lock_manager \<Rightarrow> pop3_session \<Rightarrow> string \<Rightarrow> string \<Rightarrow>
       lock_manager \<times> pop3_session \<times> pop3_response" where
  "pop3_handle_apop env locks s name digest =
     (if ps_state s \<noteq> Authorization then (locks, s, wrong_state)
      else case ps_apop_timestamp s of
        None \<Rightarrow> (locks, s, pop3_err ''APOP not available'')
      | Some timestamp \<Rightarrow>
          (case Username_new name of
             Inl _ \<Rightarrow> (locks, s, pop3_err ''Invalid username'')
           | Inr u \<Rightarrow>
               (case ab_apop_secret (pe_auth env) u of
                  Inl _ \<Rightarrow> (locks, s, pop3_err ''APOP authentication failed'')
                | Inr secret \<Rightarrow>
                    (if \<not> constant_time_compare (to_ascii_lowercase digest)
                           (compute_apop_digest (pe_crypto env) timestamp secret)
                     then (locks, s, pop3_err ''Authentication failed'')
                     else transition_to_transaction env locks s u))))"

definition drive_pending_sasl ::
    "pop3_env \<Rightarrow> lock_manager \<Rightarrow> pop3_session \<Rightarrow> string \<Rightarrow>
       lock_manager \<times> pop3_session \<times> pop3_response" where
  "drive_pending_sasl env locks s input =
     (case ps_pending_sasl s of
        None \<Rightarrow> (locks, s, pop3_err ''No SASL exchange in progress'')
      | Some mech \<Rightarrow>
          (let s0 = s\<lparr>ps_pending_sasl := None\<rparr> in
           case sasl_step_of (pe_sasl env) mech input of
             (Inr (Done success maybe_user), mech') \<Rightarrow>
               (if success then
                  (case maybe_user of
                     Some u \<Rightarrow> transition_to_transaction env locks s0 u
                   | None \<Rightarrow> (locks, s0, pop3_err ''Authentication failed''))
                else (locks, s0, pop3_err ''Authentication failed''))
           | (Inr (Challenge data), mech') \<Rightarrow>
               (locks, s0\<lparr>ps_pending_sasl := Some mech'\<rparr>, pop3_cont (utf8_lossy data))
           | (Inr Continue, mech') \<Rightarrow>
               (locks, s0\<lparr>ps_pending_sasl := Some mech'\<rparr>, pop3_cont [])
           | (Inl _, mech') \<Rightarrow> (locks, s0, pop3_err ''Authentication exchange failed'')))"

definition decode_initial_response :: "crypto \<Rightarrow> string option \<Rightarrow> string option result" where
  "decode_initial_response cr ir =
     (case ir of
        None \<Rightarrow> Inr None
      | Some r \<Rightarrow> (if r = ''='' then Inr (Some [])
                   else case c_b64_decode cr r of Inl e \<Rightarrow> Inl e | Inr b \<Rightarrow> Inr (Some b)))"

definition pop3_handle_auth ::
    "pop3_env \<Rightarrow> lock_manager \<Rightarrow> pop3_session \<Rightarrow> string option \<Rightarrow> string option \<Rightarrow>
       lock_manager \<times> pop3_session \<times> pop3_response" where
  "pop3_handle_auth env locks s mechanism initial_response =
     (if ps_state s \<noteq> Authorization then (locks, s, wrong_state)
      else case mechanism of
        None \<Rightarrow> (locks, s, pop3_ok_multiline ''Supported authentication mechanisms''
                            (pc_sasl_mechanisms (ps_config s)))
      | Some name \<Rightarrow>
          (if ps_pending_sasl s \<noteq> None then (locks, s, pop3_err ''AUTH already in progress'')
           else
             let cfg = \<lparr>sc_enabled_mechanisms = pc_sasl_mechanisms (ps_config s),
                        sc_hostname = pc_hostname (ps_config s)\<rparr> in
             if \<not> is_mechanism_enabled cfg name
             then (locks, s, pop3_err (''Authentication mechanism '' @ quoted name @ '' not supported''))
             else case create_mechanism cfg name of
               Inl _ \<Rightarrow> (locks, s, pop3_err ''Authentication mechanism unavailable'')
             | Inr mech \<Rightarrow>
                 (case decode_initial_response (pe_crypto env) initial_response of
                    Inl _ \<Rightarrow> (locks, s, pop3_err ''Invalid base64 in initial response'')
                  | Inr initial_input \<Rightarrow>
                      (let s1 = s\<lparr>ps_pending_sasl := Some mech\<rparr> in
                       if eq_ignore_ascii_case name ''PLAIN'' \<and> initial_input = None
                       then (locks, s1, pop3_cont [])
                       else drive_pending_sasl env locks s1
                              (case initial_input of None \<Rightarrow> [] | Some i \<Rightarrow> i)))))"

definition handle_sasl_continuation ::
    "pop3_env \<Rightarrow> lock_manager \<Rightarrow> pop3_session \<Rightarrow> string \<Rightarrow>
       lock_manager \<times> pop3_session \<times> pop3_response" where
  "handle_sasl_continuation env locks s line =
     (if line = ''*'' then (locks, s\<lparr>ps_pending_sasl := None\<rparr>, pop3_err ''Authentication aborted'')
      else if line = ''='' then drive_pending_sasl env locks s []
      else case c_b64_decode (pe_crypto env) line of
        Inl _ \<Rightarrow> (locks, s\<lparr>ps_pending_sasl := None\<rparr>, pop3_err ''Invalid base64 in SASL response'')
      | Inr decoded \<Rightarrow> drive_pending_sasl env locks s decoded)"

section \<open>Dispatch\<close>

fun pop3_handle_command ::
    "pop3_env \<Rightarrow> lock_manager \<Rightarrow> pop3_session \<Rightarrow> pop3_command \<Rightarrow>
       lock_manager \<times> pop3_session \<times> pop3_response" where
  "pop3_handle_command env locks s (User name) = (locks, pop3_handle_user s name)"
| "pop3_handle_command env locks s (Pass password) = pop3_handle_pass env locks s password"
| "pop3_handle_command env locks s Stat = (locks, s, pop3_handle_stat s)"
| "pop3_handle_command env locks s (List msg) = (locks, s, pop3_handle_list s msg)"
| "pop3_handle_command env locks s (Retr msg) = (locks, s, pop3_handle_retr env s msg)"
| "pop3_handle_command env locks s (Dele msg) = (locks, pop3_handle_dele s msg)"
| "pop3_handle_command env locks s Noop = (locks, s, pop3_handle_noop s)"
| "pop3_handle_command env locks s Rset = (locks, pop3_handle_rset s)"
| "pop3_handle_command env locks s Quit = (locks, pop3_handle_quit s)"
| "pop3_handle_command env locks s (Top msg lines) = (locks, s, pop3_handle_top env s msg lines)"
| "pop3_handle_command env locks s (Uidl msg) = (locks, s, pop3_handle_uidl s msg)"
| "pop3_handle_command env locks s (Apop name digest) = pop3_handle_apop env locks s name digest"
| "pop3_handle_command env locks s Capa = (locks, s, pop3_handle_capa s)"
| "pop3_handle_command env locks s Stls = (locks, pop3_handle_stls s)"
| "pop3_handle_command env locks s (Auth mechanism initial_response) =
     pop3_handle_auth env locks s mechanism initial_response"

definition pop3_handle_line ::
    "pop3_env \<Rightarrow> lock_manager \<Rightarrow> pop3_session \<Rightarrow> string \<Rightarrow>
       lock_manager \<times> pop3_session \<times> pop3_response" where
  "pop3_handle_line env locks s line =
     (let trimmed = trim line in
      if trimmed = [] then (locks, s, pop3_err ''Empty command'')
      else if ps_pending_sasl s \<noteq> None then handle_sasl_continuation env locks s trimmed
      else case parse_command (pe_nom env) trimmed of
        Inr cmd \<Rightarrow> pop3_handle_command env locks s cmd
      | Inl _ \<Rightarrow> (locks, s, pop3_err ''Syntax error in command''))"

section \<open>Deletions\<close>

definition deleted_ids :: "pop3_session \<Rightarrow> message_id list" where
  "deleted_ids s = map mi_message_id (filter mi_deleted (ps_messages s))"

text \<open>The result and the call made to the storage backend, if one is made.\<close>

definition apply_deletions :: "pop3_env \<Rightarrow> pop3_session \<Rightarrow> message_id list option \<times> unit result" where
  "apply_deletions env s =
     (let ids = deleted_ids s in
      if ids = [] then (None, Inr ())
      else (Some ids, pe_delete_messages env ids))"

section \<open>Invariant and locking\<close>

text \<open>The guard is held exactly while the session is past authentication, for the user it is
  logged in as; before it no message is marked.\<close>

definition none_deleted :: "pop3_session \<Rightarrow> bool" where
  "none_deleted s \<longleftrightarrow> list_all (\<lambda>m. \<not> mi_deleted m) (ps_messages s)"

definition session_inv :: "pop3_session \<Rightarrow> bool" where
  "session_inv s \<longleftrightarrow>
     (ps_state s = Authorization \<longrightarrow> ps_guard s = None \<and> none_deleted s) \<and>
     (ps_state s = Transaction \<longrightarrow>
        ps_username s \<noteq> None \<and> ps_guard s = map_option username_str (ps_username s) \<and>
        ps_pending_sasl s = None \<and> ps_mailbox_id s \<noteq> None)"

text \<open>What one line may do to the locks: nothing, or take one free lock for this session.\<close>

definition lock_step :: "lock_manager \<Rightarrow> pop3_session \<Rightarrow> lock_manager \<Rightarrow> pop3_session \<Rightarrow> bool" where
  "lock_step locks s locks' s' \<longleftrightarrow>
     ps_guard s' = ps_guard s \<and> (\<forall>v. locked locks' v = locked locks v) \<or>
     ps_guard s = None \<and>
       (\<exists>u. ps_guard s' = Some u \<and> \<not> locked locks u \<and> (\<forall>v. locked locks' v \<longleftrightarrow> locked locks v \<or> v = u))"

lemma session_inv_new [simp]: "session_inv (Pop3Session_new cfg)"
  by (simp add: session_inv_def none_deleted_def Pop3Session_new_def)

lemma lock_step_refl [simp]: "lock_step locks s locks s"
  by (simp add: lock_step_def)

lemma lock_step_same_guard [simp]: "ps_guard s' = ps_guard s \<Longrightarrow> lock_step locks s locks s'"
  by (simp add: lock_step_def)

lemma load_mailbox_frame:
  assumes "load_mailbox env s u = (s', r)"
  shows "ps_state s' = ps_state s" "ps_guard s' = ps_guard s" "ps_username s' = ps_username s"
    "ps_pending_sasl s' = ps_pending_sasl s" "ps_config s' = ps_config s"
    "ps_apop_timestamp s' = ps_apop_timestamp s" "r = Inr x \<Longrightarrow> ps_mailbox_id s' \<noteq> None"
  using assms by (auto simp: load_mailbox_def Let_def split: sum.splits option.splits prod.splits)

lemma load_messages_undeleted:
  "list_all (\<lambda>m. \<not> mi_deleted m) acc \<Longrightarrow>
     list_all (\<lambda>m. \<not> mi_deleted m) (fst (load_messages env ids acc))"
  by (induction env ids acc rule: load_messages.induct) (auto split: sum.splits option.splits)

lemma load_mailbox_undeleted:
  assumes "load_mailbox env s u = (s', r)" "none_deleted s"
  shows "none_deleted s'"
  using assms load_messages_undeleted [of "[]" env]
  by (auto simp: load_mailbox_def none_deleted_def Let_def split: sum.splits option.splits prod.splits)
    (metis fst_conv list.pred_inject(1))+

text \<open>The three outcomes of the transition: refused, failed, or in.\<close>

lemma transition_cases:
  assumes "transition_to_transaction env locks s u = (locks', s', r)" "ps_guard s = None"
  shows "ps_state s' = ps_state s \<and> ps_guard s' = None \<and> ps_pending_sasl s' = ps_pending_sasl s \<and>
      (\<forall>v. locked locks' v = locked locks v) \<and> pr_status r = PErr \<or>
    ps_state s' = Transaction \<and> ps_guard s' = Some (username_str u) \<and> ps_username s' = Some u \<and>
      ps_pending_sasl s' = ps_pending_sasl s \<and> ps_mailbox_id s' \<noteq> None \<and>
      \<not> locked locks (username_str u) \<and> (\<forall>v. locked locks' v \<longleftrightarrow> locked locks v \<or> v = username_str u) \<and>
      pr_status r = POk"
proof -
  obtain g locks1 where acq: "try_acquire (username_str u) locks = (g, locks1)"
    by (cases "try_acquire (username_str u) locks")
  have held: "locked locks1 v \<longleftrightarrow> locked locks v \<or> v = username_str u" for v
    using locked_try_acquire [of "username_str u" locks v] acq by simp
  have free: "g = (if locked locks (username_str u) then None else Some (username_str u))"
    using fst_try_acquire [of "username_str u" locks] acq by simp
  obtain s1 res where load: "load_mailbox env s u = (s1, res)" by (cases "load_mailbox env s u")
  note frame = load_mailbox_frame [OF load]
  show ?thesis
  proof (cases g)
    case None
    then have "locked locks (username_str u)" using free by (simp split: if_splits)
    with None assms acq held show ?thesis
      by (auto simp: transition_to_transaction_def pop3_err_def)
  next
    case (Some g')
    then have g: "g' = username_str u" "\<not> locked locks (username_str u)"
      using free by (simp_all split: if_splits)
    show ?thesis
    proof (cases res)
      case (Inl e)
      with Some assms acq held load frame g show ?thesis
        by (auto simp: transition_to_transaction_def locked_drop_guard pop3_err_def)
    next
      case (Inr x)
      with Some assms acq held load frame g show ?thesis
        by (auto simp: transition_to_transaction_def release_maildrop_lock_def Let_def pop3_ok_def)
    qed
  qed
qed

lemma transition_undeleted:
  assumes "transition_to_transaction env locks s u = (locks', s', r)" "none_deleted s"
  shows "none_deleted s'"
proof -
  have msgs: "none_deleted t" if "ps_messages t = ps_messages s1" "none_deleted s1" for t s1
    using that by (simp add: none_deleted_def)
  show ?thesis
    using assms load_mailbox_undeleted [of env s u _ _] msgs
    by (fastforce simp: transition_to_transaction_def release_maildrop_lock_def Let_def
        split: option.splits sum.splits prod.splits)
qed

lemma transition_inv:
  assumes "transition_to_transaction env locks s u = (locks', s', r)"
    "ps_state s = Authorization" "ps_guard s = None" "ps_pending_sasl s = None" "none_deleted s"
  shows "session_inv s' \<and> lock_step locks s locks' s'"
  using transition_cases [OF assms(1,3)] transition_undeleted [OF assms(1,5)] assms(2,3,4)
  by (auto simp: session_inv_def lock_step_def)

text \<open>Before the authentication the state may carry a parked mechanism, after it never.\<close>

lemma drive_pending_sasl_inv:
  assumes "drive_pending_sasl env locks s input = (locks', s', r)"
    "ps_state s = Authorization" "ps_guard s = None" "none_deleted s"
  shows "session_inv s' \<and> lock_step locks s locks' s'"
proof (cases "ps_pending_sasl s")
  case None
  with assms show ?thesis by (auto simp: drive_pending_sasl_def session_inv_def)
next
  case (Some mech)
  let ?s = "s\<lparr>ps_pending_sasl := None\<rparr>"
  have tr: "session_inv s' \<and> lock_step locks s locks' s'"
    if "transition_to_transaction env locks ?s u = (locks', s', r)" for u
    using transition_inv [OF that] assms(2,3,4) by (simp add: lock_step_def none_deleted_def)
  obtain x mech' where st: "sasl_step_of (pe_sasl env) mech input = (x, mech')"
    by (cases "sasl_step_of (pe_sasl env) mech input")
  show ?thesis
  proof (cases x)
    case (Inl e)
    with Some st assms show ?thesis by (auto simp: drive_pending_sasl_def session_inv_def none_deleted_def)
  next
    case (Inr y)
    with Some st assms tr show ?thesis
      by (cases y) (auto simp: drive_pending_sasl_def session_inv_def none_deleted_def Let_def split: if_splits option.splits)
  qed
qed

lemma handle_auth_inv:
  assumes "pop3_handle_auth env locks s m ir = (locks', s', r)" "session_inv s"
  shows "session_inv s' \<and> lock_step locks s locks' s'"
proof (cases "ps_state s = Authorization")
  case True
  then have g: "ps_guard s = None" "none_deleted s" using assms(2) by (simp_all add: session_inv_def)
  have drive: "session_inv s' \<and> lock_step locks s locks' s'"
    if "drive_pending_sasl env locks (s\<lparr>ps_pending_sasl := x\<rparr>) i = (locks', s', r)" for x i
    using drive_pending_sasl_inv [OF that] True g by (simp add: lock_step_def none_deleted_def)
  have park: "session_inv (s\<lparr>ps_pending_sasl := x\<rparr>)" for x
    using True g by (simp add: session_inv_def none_deleted_def)
  show ?thesis
    using assms True drive park
    by (auto simp: pop3_handle_auth_def Let_def split: option.splits sum.splits if_splits)
next
  case False
  with assms show ?thesis by (auto simp: pop3_handle_auth_def)
qed

lemma handle_continuation_inv:
  assumes "handle_sasl_continuation env locks s line = (locks', s', r)"
    "ps_state s = Authorization" "ps_guard s = None" "none_deleted s"
  shows "session_inv s' \<and> lock_step locks s locks' s'"
proof -
  have park: "session_inv (s\<lparr>ps_pending_sasl := x\<rparr>)" for x
    using assms(2,3,4) by (simp add: session_inv_def none_deleted_def)
  show ?thesis
    using assms(1) drive_pending_sasl_inv [OF _ assms(2,3,4)] park
    by (auto simp: handle_sasl_continuation_def split: if_splits sum.splits)
qed

lemma handle_pass_inv:
  assumes "pop3_handle_pass env locks s p = (locks', s', r)" "session_inv s" "ps_pending_sasl s = None"
  shows "session_inv s' \<and> lock_step locks s locks' s'"
proof -
  have "ps_guard s = None \<and> none_deleted s" if "ps_state s = Authorization"
    using that assms(2) by (simp add: session_inv_def)
  then show ?thesis
    using assms transition_inv [of env locks s _ locks' s' r]
    by (auto simp: pop3_handle_pass_def split: option.splits sum.splits bool.splits if_splits)
qed

lemma handle_apop_inv:
  assumes "pop3_handle_apop env locks s n d = (locks', s', r)" "session_inv s" "ps_pending_sasl s = None"
  shows "session_inv s' \<and> lock_step locks s locks' s'"
proof -
  have "ps_guard s = None \<and> none_deleted s" if "ps_state s = Authorization"
    using that assms(2) by (simp add: session_inv_def)
  then show ?thesis
    using assms transition_inv [of env locks s _ locks' s' r]
    by (auto simp: pop3_handle_apop_def split: option.splits sum.splits if_splits)
qed

lemma handle_command_inv:
  assumes "pop3_handle_command env locks s c = (locks', s', r)" "session_inv s" "ps_pending_sasl s = None"
  shows "session_inv s' \<and> lock_step locks s locks' s'"
  using assms handle_pass_inv [of env locks s _ locks' s' r] handle_apop_inv [of env locks s _ _ locks' s' r]
    handle_auth_inv [of env locks s _ _ locks' s' r]
  by (cases c)
    (auto simp: pop3_handle_user_def pop3_handle_dele_def pop3_handle_rset_def pop3_handle_quit_def
      pop3_handle_stls_def session_inv_def none_deleted_def split: if_splits sum.splits pop3_state.splits)

lemma handle_line_inv:
  assumes "pop3_handle_line env locks s line = (locks', s', r)" "session_inv s" "ps_state s \<noteq> Update"
  shows "session_inv s' \<and> lock_step locks s locks' s'"
proof (cases "ps_pending_sasl s")
  case None
  with assms handle_command_inv [of env locks s _ locks' s' r] show ?thesis
    by (auto simp: pop3_handle_line_def Let_def split: if_splits sum.splits)
next
  case (Some m)
  with assms have auth: "ps_state s = Authorization" "ps_guard s = None" "none_deleted s"
    by (cases "ps_state s"; simp add: session_inv_def)+
  with Some assms handle_continuation_inv [of env locks s _ locks' s' r] show ?thesis
    by (auto simp: pop3_handle_line_def Let_def split: if_splits)
qed

text \<open>Only \<^verbatim>\<open>QUIT\<close> reaches the update state, and it changes nothing else.\<close>

lemma transition_not_update:
  assumes "transition_to_transaction env locks s u = (locks', s', r)" "ps_state s \<noteq> Update"
  shows "ps_state s' \<noteq> Update"
proof -
  obtain s1 res where load: "load_mailbox env s u = (s1, res)" by (cases "load_mailbox env s u")
  from assms load load_mailbox_frame(1) [OF load] show ?thesis
    by (auto simp: transition_to_transaction_def release_maildrop_lock_def Let_def
        split: option.splits sum.splits prod.splits)
qed

lemma drive_not_update:
  assumes "drive_pending_sasl env locks s i = (locks', s', r)" "ps_state s \<noteq> Update"
  shows "ps_state s' \<noteq> Update"
  using assms transition_not_update [of env locks "s\<lparr>ps_pending_sasl := None\<rparr>" _ locks' s' r]
  by (auto simp: drive_pending_sasl_def Let_def
      split: option.splits prod.splits sum.splits sasl_step.splits if_splits)

lemma handle_auth_not_update:
  assumes "pop3_handle_auth env locks s m ir = (locks', s', r)" "ps_state s \<noteq> Update"
  shows "ps_state s' \<noteq> Update"
  using assms drive_not_update [of env locks "s\<lparr>ps_pending_sasl := _\<rparr>" _ locks' s' r]
  by (auto simp: pop3_handle_auth_def Let_def split: option.splits if_splits sum.splits)

lemma handle_command_Update:
  assumes "pop3_handle_command env locks s c = (locks', s', r)" "ps_state s \<noteq> Update" "ps_state s' = Update"
  shows "c = Quit \<and> s' = s\<lparr>ps_state := Update\<rparr>"
proof (cases c)
  case Quit
  with assms show ?thesis by (auto simp: pop3_handle_quit_def split: pop3_state.splits)
qed (use assms transition_not_update [of env locks s _ locks' s' r] handle_auth_not_update [of env locks s _ _ locks' s' r]
    in \<open>auto simp: pop3_handle_user_def pop3_handle_pass_def pop3_handle_apop_def
      pop3_handle_dele_def pop3_handle_rset_def pop3_handle_stls_def
      split: if_splits option.splits sum.splits bool.splits\<close>)

lemma handle_line_Update:
  assumes "pop3_handle_line env locks s line = (locks', s', r)" "ps_state s \<noteq> Update" "ps_state s' = Update"
  shows "s' = s\<lparr>ps_state := Update\<rparr>"
  using assms handle_command_Update [of env locks s _ locks' s' r] drive_not_update [of env locks s _ locks' s' r]
  by (auto simp: pop3_handle_line_def handle_sasl_continuation_def Let_def
      split: if_splits sum.splits option.splits)

section \<open>The maildrop as a specification\<close>

text \<open>Abstractly a transaction is the fixed list of messages and the set of the message numbers
  marked as deleted; only \<^verbatim>\<open>DELE\<close> and \<^verbatim>\<open>RSET\<close> change that set.\<close>

definition maildrop_of :: "pop3_session \<Rightarrow> (message_id \<times> nat \<times> nat) list" where
  "maildrop_of s = map (\<lambda>m. (mi_message_id m, mi_uid m, mi_size m)) (ps_messages s)"

definition marked :: "pop3_session \<Rightarrow> nat set" where
  "marked s = set (filter (\<lambda>n. mi_deleted (ps_messages s ! (n - 1))) [1..<Suc (length (ps_messages s))])"

lemma marked_alt:
  "marked s = {n. 1 \<le> n \<and> n \<le> length (ps_messages s) \<and> mi_deleted (ps_messages s ! (n - 1))}"
  unfolding marked_def set_filter set_upt by auto

fun spec_marks :: "nat \<Rightarrow> nat set \<Rightarrow> pop3_command \<Rightarrow> nat set" where
  "spec_marks len D (Dele n) = (if 1 \<le> n \<and> n \<le> len then insert n D else D)"
| "spec_marks len D Rset = {}"
| "spec_marks len D _ = D"

definition live_numbers :: "pop3_session \<Rightarrow> nat list" where
  "live_numbers s = filter (\<lambda>n. n \<notin> marked s) [1..<Suc (length (ps_messages s))]"

lemma lookup_message_Inr:
  "lookup_message s n g = Inr info \<longleftrightarrow>
     1 \<le> n \<and> n \<le> length (ps_messages s) \<and> n \<notin> marked s \<and> info = ps_messages s ! (n - 1)"
  by (auto simp: lookup_message_def marked_alt Let_def)

lemma length_maildrop_of [simp]: "length (maildrop_of s) = length (ps_messages s)"
  by (simp add: maildrop_of_def)

lemma dele_refines:
  assumes "ps_state s = Transaction"
  shows "marked (fst (pop3_handle_dele s n)) = spec_marks (length (ps_messages s)) (marked s) (Dele n)"
    and "maildrop_of (fst (pop3_handle_dele s n)) = maildrop_of s"
proof -
  let ?s = "fst (pop3_handle_dele s n)"
  have "marked ?s = spec_marks (length (ps_messages s)) (marked s) (Dele n) \<and>
      maildrop_of ?s = maildrop_of s"
  proof (cases "lookup_message s n ''Message already deleted''")
    case (Inl r)
    then have s': "?s = s" using assms by (simp add: pop3_handle_dele_def)
    have "\<not> (1 \<le> n \<and> n \<le> length (ps_messages s)) \<or> n \<in> marked s"
      using Inl lookup_message_Inr [of s n "''Message already deleted''" "ps_messages s ! (n - 1)"] by auto
    then show ?thesis unfolding s' by (auto simp: insert_absorb)
  next
    case (Inr info)
    then have n: "1 \<le> n" "n \<le> length (ps_messages s)" "info = ps_messages s ! (n - 1)"
      by (simp_all add: lookup_message_Inr)
    have s': "?s = s\<lparr>ps_messages := (ps_messages s)[n - 1 := info\<lparr>mi_deleted := True\<rparr>]\<rparr>"
      using assms Inr by (simp add: pop3_handle_dele_def)
    have "k - 1 = n - 1 \<longleftrightarrow> k = n" if "1 \<le> k" for k using that n(1) by auto
    then have "marked ?s = insert n (marked s)"
      unfolding s' using n by (auto simp: marked_alt nth_list_update split: if_splits)
    moreover have "n - 1 < length (ps_messages s)" using n(1,2) by simp
    then have "maildrop_of ?s = maildrop_of s"
      unfolding s' maildrop_of_def by (simp add: map_update n(3) list_update_same_conv)
    ultimately show ?thesis using n by simp
  qed
  then show "marked ?s = spec_marks (length (ps_messages s)) (marked s) (Dele n)"
    "maildrop_of ?s = maildrop_of s" by blast+
qed

lemma rset_refines:
  assumes "ps_state s = Transaction"
  shows "marked (fst (pop3_handle_rset s)) = {}" "maildrop_of (fst (pop3_handle_rset s)) = maildrop_of s"
  using assms by (auto simp: pop3_handle_rset_def marked_alt maildrop_of_def)

lemma marking_keeps_state:
  "ps_state (fst (pop3_handle_dele s n)) = ps_state s"
  "ps_state (fst (pop3_handle_rset s)) = ps_state s"
  by (auto simp: pop3_handle_dele_def pop3_handle_rset_def split: sum.splits)

lemma quit_refines:
  "marked (fst (pop3_handle_quit s)) = marked s" "maildrop_of (fst (pop3_handle_quit s)) = maildrop_of s"
  by (auto simp: pop3_handle_quit_def marked_alt maildrop_of_def split: pop3_state.splits)

text \<open>One command of a transaction refines the specification.\<close>

lemma transaction_command_refines:
  assumes "pop3_handle_command env locks s c = (locks', s', r)" "ps_state s = Transaction"
  shows "maildrop_of s' = maildrop_of s \<and> marked s' = spec_marks (length (ps_messages s)) (marked s) c \<and>
    ps_state s' = (if c = Quit then Update else Transaction) \<and> locks' = locks"
proof (cases c)
  case (Dele n)
  with assms have "s' = fst (pop3_handle_dele s n)" "locks' = locks"
    by (simp_all add: prod_eq_iff)
  with Dele dele_refines [OF assms(2), of n] marking_keeps_state(1) [of s n] assms(2) show ?thesis by simp
next
  case Rset
  with assms have "s' = fst (pop3_handle_rset s)" "locks' = locks"
    by (simp_all add: prod_eq_iff)
  with Rset rset_refines [OF assms(2)] marking_keeps_state(2) [of s] assms(2) show ?thesis by simp
next
  case Quit
  with assms have "s' = fst (pop3_handle_quit s)" "locks' = locks"
    by (simp_all add: prod_eq_iff)
  with Quit quit_refines [of s] assms(2) show ?thesis by (simp add: pop3_handle_quit_def)
qed (use assms in \<open>auto simp: pop3_handle_user_def pop3_handle_pass_def pop3_handle_apop_def
      pop3_handle_auth_def pop3_handle_stls_def\<close>)

section \<open>Listings\<close>

lemma numbered_lines_eq:
  "numbered_lines f (ps_messages s) =
     map (\<lambda>n. show_nat n @ '' '' @ show_nat (f (ps_messages s ! (n - 1)))) (live_numbers s)"
proof -
  let ?ms = "ps_messages s"
  have zip: "zip [0..<length ?ms] ?ms = map (\<lambda>i. (i, ?ms ! i)) [0..<length ?ms]"
    by (intro nth_equalityI) auto
  have ns: "[1..<Suc (length ?ms)] = map Suc [0..<length ?ms]" by (simp add: map_Suc_upt)
  have "Suc i \<notin> marked s \<longleftrightarrow> \<not> mi_deleted (?ms ! i)" if "i < length ?ms" for i
    using that by (simp add: marked_alt)
  then have "filter (\<lambda>i. Suc i \<notin> marked s) [0..<length ?ms] = filter (\<lambda>i. \<not> mi_deleted (?ms ! i)) [0..<length ?ms]"
    by (intro filter_cong) auto
  then show ?thesis
    unfolding numbered_lines_def live_numbers_def zip ns by (simp add: filter_map o_def)
qed

lemma live_messages_eq: "live_messages s = map (\<lambda>n. ps_messages s ! (n - 1)) (live_numbers s)"
proof -
  let ?ms = "ps_messages s"
  have ns: "[1..<Suc (length ?ms)] = map Suc [0..<length ?ms]" by (simp add: map_Suc_upt)
  have "Suc i \<notin> marked s \<longleftrightarrow> \<not> mi_deleted (?ms ! i)" if "i < length ?ms" for i
    using that by (simp add: marked_alt)
  then have "filter (\<lambda>i. Suc i \<notin> marked s) [0..<length ?ms] = filter (\<lambda>i. \<not> mi_deleted (?ms ! i)) [0..<length ?ms]"
    by (intro filter_cong) auto
  then have "map (\<lambda>n. ?ms ! (n - 1)) (live_numbers s) =
      map (\<lambda>i. ?ms ! i) (filter (\<lambda>i. \<not> mi_deleted (?ms ! i)) [0..<length ?ms])"
    unfolding live_numbers_def ns by (simp add: filter_map o_def)
  also have "\<dots> = filter (\<lambda>m. \<not> mi_deleted m) (map (\<lambda>i. ?ms ! i) [0..<length ?ms])"
    by (simp add: filter_map o_def)
  finally show ?thesis by (simp add: live_messages_def map_nth)
qed

lemma deleted_ids_eq:
  "deleted_ids s =
     map (\<lambda>n. fst (maildrop_of s ! (n - 1))) (filter (\<lambda>n. n \<in> marked s) [1..<Suc (length (ps_messages s))])"
proof -
  let ?ms = "ps_messages s"
  have ns: "[1..<Suc (length ?ms)] = map Suc [0..<length ?ms]" by (simp add: map_Suc_upt)
  have "Suc i \<in> marked s \<longleftrightarrow> mi_deleted (?ms ! i)" if "i < length ?ms" for i
    using that by (simp add: marked_alt)
  then have "filter (\<lambda>i. Suc i \<in> marked s) [0..<length ?ms] = filter (\<lambda>i. mi_deleted (?ms ! i)) [0..<length ?ms]"
    by (intro filter_cong) auto
  then have "map (\<lambda>n. fst (maildrop_of s ! (n - 1))) (filter (\<lambda>n. n \<in> marked s) [1..<Suc (length ?ms)]) =
      map (\<lambda>i. mi_message_id (?ms ! i)) (filter (\<lambda>i. mi_deleted (?ms ! i)) [0..<length ?ms])"
    unfolding ns by (auto simp: filter_map o_def maildrop_of_def)
  also have "\<dots> = map mi_message_id (filter mi_deleted (map (\<lambda>i. ?ms ! i) [0..<length ?ms]))"
    by (simp add: filter_map o_def)
  finally show ?thesis by (simp add: deleted_ids_def map_nth)
qed

section \<open>Who gets in\<close>

text \<open>What a client must have presented on this line to be logged in as a user.\<close>

definition sasl_config_of :: "pop3_session \<Rightarrow> sasl_config" where
  "sasl_config_of s = \<lparr>sc_enabled_mechanisms = pc_sasl_mechanisms (ps_config s),
     sc_hostname = pc_hostname (ps_config s)\<rparr>"

definition sasl_evidence :: "pop3_env \<Rightarrow> sasl_mechanism \<Rightarrow> string \<Rightarrow> username \<Rightarrow> bool" where
  "sasl_evidence env mech input u \<longleftrightarrow> fst (sasl_step_of (pe_sasl env) mech input) = Inr (Done True (Some u))"

definition login_evidence :: "pop3_env \<Rightarrow> pop3_session \<Rightarrow> string \<Rightarrow> username \<Rightarrow> bool" where
  "login_evidence env s line u \<longleftrightarrow>
     (case ps_pending_sasl s of
        Some mech \<Rightarrow>
          (\<exists>input. (trim line = ''='' \<and> input = [] \<or> c_b64_decode (pe_crypto env) (trim line) = Inr input) \<and>
                   sasl_evidence env mech input u)
      | None \<Rightarrow>
          (case parse_command (pe_nom env) (trim line) of
             Inr (Pass p) \<Rightarrow> ps_username s = Some u \<and> ab_authenticate (pe_auth env) u p = Inr True
           | Inr (Apop name digest) \<Rightarrow>
               Username_new name = Inr u \<and>
               (\<exists>ts secret. ps_apop_timestamp s = Some ts \<and> ab_apop_secret (pe_auth env) u = Inr secret \<and>
                  to_ascii_lowercase digest = compute_apop_digest (pe_crypto env) ts secret)
           | Inr (Auth (Some name) ir) \<Rightarrow>
               (\<exists>mech input. create_mechanism (sasl_config_of s) name = Inr mech \<and>
                  decode_initial_response (pe_crypto env) ir = Inr input \<and>
                  sasl_evidence env mech (case input of None \<Rightarrow> [] | Some i \<Rightarrow> i) u)
           | _ \<Rightarrow> False))"

lemma foldl_or_zero:
  "foldl (\<lambda>r i. r OR f i) (z :: 8 word) is = 0 \<longleftrightarrow> z = 0 \<and> (\<forall>i \<in> set is. f i = 0)"
  by (induction "is" arbitrary: z) (auto simp: or_eq_0_iff)

lemma xor_zero_iff: "(a :: 8 word) XOR b = 0 \<longleftrightarrow> a = b"
proof
  assume "a XOR b = 0"
  then have "bit (a XOR b) n = bit (0 :: 8 word) n" for n by (rule arg_cong)
  then show "a = b" by (intro bit_word_eqI) (simp add: bit_xor_iff)
qed simp

lemma constant_time_compare_eq: "constant_time_compare a b \<longleftrightarrow> a = b"
proof (cases "length a = length b")
  case True
  have "constant_time_compare a b \<longleftrightarrow> (\<forall>i < length a. a ! i = b ! i)"
    unfolding constant_time_compare_def foldl_or_zero xor_zero_iff using True by auto
  with True show ?thesis by (simp add: list_eq_iff_nth_eq)
next
  case False
  then show ?thesis by (auto simp: constant_time_compare_def)
qed

lemma transition_username:
  assumes "transition_to_transaction env locks s u = (locks', s', r)" "ps_guard s = None"
    "ps_state s = Authorization" "ps_state s' = Transaction"
  shows "ps_username s' = Some u"
  using transition_cases [OF assms(1,2)] assms(3,4) by auto

lemma drive_sasl_evidence:
  assumes "drive_pending_sasl env locks s input = (locks', s', r)" "ps_pending_sasl s = Some mech"
    "ps_guard s = None" "ps_state s = Authorization" "ps_state s' = Transaction"
  shows "\<exists>u. ps_username s' = Some u \<and> sasl_evidence env mech input u"
proof -
  let ?s = "s\<lparr>ps_pending_sasl := None\<rparr>"
  obtain x mech' where st: "sasl_step_of (pe_sasl env) mech input = (x, mech')"
    by (cases "sasl_step_of (pe_sasl env) mech input")
  with assms obtain u where "x = Inr (Done True (Some u))"
    and tr: "transition_to_transaction env locks ?s u = (locks', s', r)"
    by (auto simp: drive_pending_sasl_def Let_def split: sum.splits sasl_step.splits if_splits option.splits)
  with st transition_username [OF tr] assms show ?thesis by (auto simp: sasl_evidence_def)
qed

lemma handle_auth_evidence:
  assumes "pop3_handle_auth env locks s m ir = (locks', s', r)" "ps_pending_sasl s = None"
    "ps_guard s = None" "ps_state s = Authorization" "ps_state s' = Transaction"
  shows "\<exists>u name mech input. ps_username s' = Some u \<and> m = Some name \<and>
    create_mechanism (sasl_config_of s) name = Inr mech \<and>
    decode_initial_response (pe_crypto env) ir = Inr input \<and>
    sasl_evidence env mech (case input of None \<Rightarrow> [] | Some i \<Rightarrow> i) u"
proof -
  from assms obtain name mech input where m: "m = Some name"
    "create_mechanism (sasl_config_of s) name = Inr mech"
    "decode_initial_response (pe_crypto env) ir = Inr input"
    and drive: "drive_pending_sasl env locks (s\<lparr>ps_pending_sasl := Some mech\<rparr>)
      (case input of None \<Rightarrow> [] | Some i \<Rightarrow> i) = (locks', s', r)"
    by (auto simp: pop3_handle_auth_def sasl_config_of_def Let_def split: option.splits if_splits sum.splits)
  from drive_sasl_evidence [OF drive, of mech] assms m show ?thesis by auto
qed

section \<open>Properties\<close>

text \<open>C6: Nobody enters the transaction state without proof: if one line takes a session from the
  authorization to the transaction state as some user, then that line carried the password the
  backend accepts for the user named before, or the right APOP digest for the timestamp of this
  session, or it completed a SASL exchange that reported success for exactly that user.\<close>

theorem pop3_transaction_needs_login:
  assumes "pop3_handle_line env locks s line = (locks', s', r)" "session_inv s"
    "ps_state s = Authorization" "ps_state s' = Transaction"
  shows "\<exists>u. ps_username s' = Some u \<and> login_evidence env s line u"
proof (cases "ps_pending_sasl s")
  case None
  have g: "ps_guard s = None" using assms(2,3) by (simp add: session_inv_def)
  from None assms obtain c where c: "parse_command (pe_nom env) (trim line) = Inr c"
    and h: "pop3_handle_command env locks s c = (locks', s', r)"
    by (auto simp: pop3_handle_line_def Let_def split: if_splits sum.splits)
  note tr = transition_username [OF _ g assms(3,4)]
  show ?thesis
  proof (cases c)
    case (Auth m ir)
    with h have "pop3_handle_auth env locks s m ir = (locks', s', r)" by simp
    from handle_auth_evidence [OF this None g assms(3,4)] c None Auth show ?thesis
      by (auto simp: login_evidence_def simp del: split_paired_Ex)
  next
    case (Apop name digest)
    with h c None assms(3,4) tr show ?thesis
      by (auto simp: login_evidence_def pop3_handle_apop_def constant_time_compare_eq
          split: if_splits option.splits sum.splits)
  next
    case (Pass p)
    with h c None assms(3,4) tr show ?thesis
      by (auto simp: login_evidence_def pop3_handle_pass_def
          split: if_splits option.splits sum.splits bool.splits)
  qed (use h assms(3,4) in \<open>auto simp: pop3_handle_user_def pop3_handle_dele_def pop3_handle_rset_def
        pop3_handle_quit_def pop3_handle_stls_def split: if_splits sum.splits\<close>)
next
  case (Some mech)
  have g: "ps_guard s = None" using assms(2,3) by (simp add: session_inv_def)
  from Some assms have h: "handle_sasl_continuation env locks s (trim line) = (locks', s', r)"
    by (auto simp: pop3_handle_line_def Let_def split: if_splits)
  from h assms(3,4) obtain input where "trim line = ''='' \<and> input = [] \<or>
      c_b64_decode (pe_crypto env) (trim line) = Inr input"
    and d: "drive_pending_sasl env locks s input = (locks', s', r)"
    by (auto simp: handle_sasl_continuation_def split: if_splits sum.splits)
  with drive_sasl_evidence [OF d Some g assms(3,4)] Some show ?thesis
    by (auto simp: login_evidence_def)
qed

definition demo_pop3_env :: pop3_env where
  "demo_pop3_env =
     \<lparr>pe_sasl = demo_sasl_env, pe_nom = nom_complete, pe_process_id = 1,
      pe_get_user_inbox = (\<lambda>u. Inr (Some 5)),
      pe_search_all = (\<lambda>b. Inr [MessageId 10, MessageId 11]),
      pe_get_message = (\<lambda>m. Inr (Some (Mail_new (MailId 1) m None []
         \<lparr>mm_headers = [(''a'', [''b''])], mm_body = Small ''hi''\<rparr> None None))),
      pe_read_error = (\<lambda>m. None), pe_delete_messages = (\<lambda>ms. Inr ())\<rparr>"

definition demo_session :: pop3_session where
  "demo_session = (Pop3Session_new pop3_config_default)\<lparr>ps_username := Some (Username ''bob'')\<rparr>"

definition demo_transaction :: pop3_session where
  "demo_transaction =
     fst (snd (pop3_handle_line demo_pop3_env MaildropLockManager_new demo_session ''PASS pw''))"

lemma demo_states:
  "ps_state demo_session = Authorization" "ps_state demo_transaction = Transaction"
  "length (ps_messages demo_transaction) = 2"
  by code_simp+

theorem pop3_transaction_needs_login_witness:
  "ps_state demo_transaction = Transaction \<and>
   (\<exists>u. ps_username demo_transaction = Some u \<and> login_evidence demo_pop3_env demo_session ''PASS pw'' u)"
proof -
  obtain l s r where h: "pop3_handle_line demo_pop3_env MaildropLockManager_new demo_session ''PASS pw'' = (l, s, r)"
    by (cases "pop3_handle_line demo_pop3_env MaildropLockManager_new demo_session ''PASS pw''")
  then have s: "demo_transaction = s" by (simp add: demo_transaction_def)
  have "session_inv demo_session" by (simp add: demo_session_def session_inv_def none_deleted_def Pop3Session_new_def)
  with pop3_transaction_needs_login [OF h] demo_states s show ?thesis by simp
qed

text \<open>The constant-time comparison of digests is equality of strings.\<close>

theorem constant_time_compare_is_equality: "constant_time_compare a b = (a = b)"
  by (rule constant_time_compare_eq)

text \<open>In the transaction state every client-visible view agrees with the set of unmarked
  message numbers: \<^verbatim>\<open>STAT\<close> counts and sums them, \<^verbatim>\<open>LIST\<close> and \<^verbatim>\<open>UIDL\<close> print exactly
  their lines in ascending order, and the single-message forms succeed exactly for them.\<close>

theorem pop3_listings_agree:
  assumes "ps_state s = Transaction"
  shows "pr_message (pop3_handle_stat s) =
      show_nat (length (live_numbers s)) @ '' '' @
      show_nat (usize_sum (map (\<lambda>n. mi_size (ps_messages s ! (n - 1))) (live_numbers s))) \<and>
    pr_multiline (pop3_handle_list s None) =
      Some (map (\<lambda>n. show_nat n @ '' '' @ show_nat (mi_size (ps_messages s ! (n - 1)))) (live_numbers s)) \<and>
    pr_multiline (pop3_handle_uidl s None) =
      Some (map (\<lambda>n. show_nat n @ '' '' @ show_nat (mi_uid (ps_messages s ! (n - 1)))) (live_numbers s)) \<and>
    (\<forall>n. pr_status (pop3_handle_list s (Some n)) = POk \<longleftrightarrow> n \<in> set (live_numbers s)) \<and>
    (\<forall>n. pr_status (pop3_handle_uidl s (Some n)) = POk \<longleftrightarrow> n \<in> set (live_numbers s))"
proof -
  have ok: "(case lookup_message s n g of Inl r \<Rightarrow> r | Inr info \<Rightarrow> pop3_ok (f info)) = R \<Longrightarrow>
      pr_status R = POk \<longleftrightarrow> n \<in> set (live_numbers s)" for n g f R
    by (auto simp: live_numbers_def lookup_message_def marked_alt pop3_ok_def pop3_err_def Let_def
        split: if_splits)
  have "pr_message (pop3_handle_stat s) =
      show_nat (length (live_numbers s)) @ '' '' @
      show_nat (usize_sum (map (\<lambda>n. mi_size (ps_messages s ! (n - 1))) (live_numbers s)))"
    using assms by (simp add: pop3_handle_stat_def pop3_ok_def live_size_def live_messages_eq o_def)
  moreover have "pr_status (pop3_handle_list s (Some n)) = POk \<longleftrightarrow> n \<in> set (live_numbers s)" for n
    using assms by (intro ok [where g = "''Message deleted''"]) (simp add: pop3_handle_list_def)
  moreover have "pr_status (pop3_handle_uidl s (Some n)) = POk \<longleftrightarrow> n \<in> set (live_numbers s)" for n
    using assms by (intro ok [where g = "''Message deleted''"]) (simp add: pop3_handle_uidl_def)
  ultimately show ?thesis
    using assms by (simp add: pop3_handle_list_def pop3_handle_uidl_def pop3_ok_multiline_def numbered_lines_eq)
qed

theorem pop3_listings_agree_witness:
  "pr_message (pop3_handle_stat (fst (pop3_handle_dele demo_transaction 1))) = ''1 10'' \<and>
   pr_multiline (pop3_handle_list (fst (pop3_handle_dele demo_transaction 1)) None) = Some [''2 10'']"
proof -
  let ?s = "fst (pop3_handle_dele demo_transaction 1)"
  have st: "ps_state ?s = Transaction" by code_simp
  have "pr_message (pop3_handle_stat ?s) = ''1 10''" by code_simp
  moreover have "live_numbers ?s = [2]" "show_nat 2 @ '' '' @ show_nat (mi_size (ps_messages ?s ! (2 - 1))) = ''2 10''"
    by code_simp+
  ultimately show ?thesis using pop3_listings_agree [OF st] by simp
qed

definition pop3_command_step ::
    "lock_manager \<times> pop3_session \<Rightarrow> pop3_env \<times> pop3_command \<Rightarrow>
       (lock_manager \<times> pop3_session) \<times> pop3_response" where
  "pop3_command_step ls ec =
     (case pop3_handle_command (fst ec) (fst ls) (snd ls) (snd ec) of (l, s, r) \<Rightarrow> ((l, s), r))"

text \<open>C4: Deletion is transactional: whatever commands other than \<^verbatim>\<open>QUIT\<close> a session in the
  transaction state executes, with whatever answers from the storage, the messages and their
  numbers stay fixed, no lock changes, and the identifiers that will be deleted at the end are
  exactly those of the numbers marked by \<^verbatim>\<open>DELE\<close> and not unmarked by a later \<^verbatim>\<open>RSET\<close>.\<close>

theorem pop3_transaction_deletes_marked:
  assumes "ps_state s = Transaction" "Quit \<notin> snd ` set ecs"
    "run pop3_command_step (locks, s) ecs = ((locks', s'), outs)"
  shows "locks' = locks \<and> ps_state s' = Transaction \<and> maildrop_of s' = maildrop_of s \<and>
    marked s' = foldl (spec_marks (length (ps_messages s))) (marked s) (map snd ecs) \<and>
    deleted_ids s' =
      map (\<lambda>n. fst (maildrop_of s ! (n - 1)))
        (filter (\<lambda>n. n \<in> foldl (spec_marks (length (ps_messages s))) (marked s) (map snd ecs))
           [1..<Suc (length (ps_messages s))])"
proof -
  have "locks' = locks \<and> ps_state s' = Transaction \<and> maildrop_of s' = maildrop_of s \<and>
      marked s' = foldl (spec_marks (length (ps_messages s))) (marked s) (map snd ecs)"
    using assms
  proof (induction ecs arbitrary: s outs)
    case (Cons ec ecs)
    obtain l t r where h: "pop3_handle_command (fst ec) locks s (snd ec) = (l, t, r)"
      by (cases "pop3_handle_command (fst ec) locks s (snd ec)")
    from transaction_command_refines [OF h Cons.prems(1)] Cons.prems(2)
    have t: "maildrop_of t = maildrop_of s" "ps_state t = Transaction" "l = locks"
      "marked t = spec_marks (length (ps_messages s)) (marked s) (snd ec)" by auto
    then have len: "length (ps_messages t) = length (ps_messages s)" by (metis length_maildrop_of)
    have "pop3_command_step (locks, s) ec = ((locks, t), r)"
      using h t(3) by (simp add: pop3_command_step_def)
    then obtain outs' where "run pop3_command_step (locks, t) ecs = ((locks', s'), outs')"
      using Cons.prems(3) by (auto split: prod.splits)
    with Cons.IH [OF t(2)] Cons.prems(2) t len show ?case by simp
  qed simp
  moreover from this have "length (ps_messages s') = length (ps_messages s)" by (metis length_maildrop_of)
  ultimately show ?thesis by (simp add: deleted_ids_eq)
qed

theorem pop3_transaction_deletes_marked_witness:
  "deleted_ids (snd (fst (run pop3_command_step (MaildropLockManager_new, demo_transaction)
     [(demo_pop3_env, Dele 1), (demo_pop3_env, Rset), (demo_pop3_env, Dele 2), (demo_pop3_env, Dele 9)]))) =
   [MessageId 11]"
proof -
  let ?ecs = "[(demo_pop3_env, Dele 1), (demo_pop3_env, Rset), (demo_pop3_env, Dele 2), (demo_pop3_env, Dele 9)]"
  obtain l s outs where r: "run pop3_command_step (MaildropLockManager_new, demo_transaction) ?ecs = ((l, s), outs)"
    by (cases "run pop3_command_step (MaildropLockManager_new, demo_transaction) ?ecs") (metis surj_pair)
  have "deleted_ids s = map (\<lambda>n. fst (maildrop_of demo_transaction ! (n - 1))) [2]"
    using pop3_transaction_deletes_marked [OF demo_states(2) _ r] demo_states(3)
    by (simp add: upt_rec)
  also have "map (\<lambda>n. fst (maildrop_of demo_transaction ! (n - 1))) [2] = [MessageId 11]" by code_simp
  finally show ?thesis using r by simp
qed

end
