(* ===== verification/Pop3_Server.thy ===== *)
theory Pop3_Server
  imports Pop3_Session
begin

text \<open>
  Model of \<^verbatim>\<open>crates/rusmes-pop3/src/server.rs\<close> and of the connection loop
  \<^verbatim>\<open>Pop3Session::handle\<close> of \<^verbatim>\<open>session.rs\<close>: any number of concurrent sessions that share one
  lock manager.  An event is an accepted connection, a line read from a client together with the
  answers of the environment at that moment and whether the response could be written, or a
  closed connection; a run is any interleaving of events.  The invariant of the system is the
  agreement of the lock manager with the guards of the open sessions.
\<close>

section \<open>The system\<close>

record pop3_server =
  srv_config :: pop3_config
  srv_locks :: lock_manager
  srv_conns :: "(nat \<times> pop3_session) list"

definition Pop3Server_new :: "pop3_config \<Rightarrow> pop3_server" where
  "Pop3Server_new config =
     \<lparr>srv_config = config, srv_locks = MaildropLockManager_new, srv_conns = []\<rparr>"

datatype pop3_event =
    Accept nat pop3_env
  | ClientLine nat pop3_env string bool
  | Disconnect nat

record pop3_output =
  po_response :: "pop3_response option"
  po_deleted :: "message_id list option"

definition no_output :: pop3_output where
  "no_output = \<lparr>po_response = None, po_deleted = None\<rparr>"

text \<open>The start of \<^verbatim>\<open>handle\<close>: the APOP timestamp and the greeting.\<close>

definition open_session :: "pop3_env \<Rightarrow> pop3_config \<Rightarrow> (pop3_session \<times> pop3_response) result" where
  "open_session env config =
     (let s = Pop3Session_new config in
      rbind (generate_apop_timestamp env s) (\<lambda>timestamp.
        Inr (s\<lparr>ps_apop_timestamp := Some timestamp\<rparr>,
             pop3_ok (pc_greeting config @ '' '' @ timestamp))))"

text \<open>A session that ends drops its guard.\<close>

definition close_conn :: "nat \<Rightarrow> pop3_session \<Rightarrow> lock_manager \<Rightarrow> pop3_server \<Rightarrow> pop3_server" where
  "close_conn i s locks srv =
     srv\<lparr>srv_locks := fst (release_maildrop_lock locks s),
         srv_conns := AList.delete i (srv_conns srv)\<rparr>"

definition accept_conn :: "nat \<Rightarrow> pop3_env \<Rightarrow> pop3_server \<Rightarrow> pop3_server \<times> pop3_output" where
  "accept_conn i env srv =
     (if map_of (srv_conns srv) i \<noteq> None then (srv, no_output)
      else case open_session env (srv_config srv) of
        Inl e \<Rightarrow> (srv, no_output)
      | Inr (s, greeting) \<Rightarrow>
          (srv\<lparr>srv_conns := AList.update i s (srv_conns srv)\<rparr>, no_output\<lparr>po_response := Some greeting\<rparr>))"

text \<open>One round of the command loop.  If the response cannot be written the session is dropped
  without update; after \<^verbatim>\<open>QUIT\<close> the deletions are applied before the lock is released.\<close>

definition client_line ::
    "nat \<Rightarrow> pop3_env \<Rightarrow> string \<Rightarrow> bool \<Rightarrow> pop3_session \<Rightarrow> pop3_server \<Rightarrow> pop3_server \<times> pop3_output" where
  "client_line i env line written s srv =
     (case pop3_handle_line env (srv_locks srv) s line of
        (locks, s', r) \<Rightarrow>
          if \<not> written then (close_conn i s' locks srv, no_output)
          else if ps_state s' = Update then
            (close_conn i s' locks srv,
             \<lparr>po_response = Some r, po_deleted = fst (apply_deletions env s')\<rparr>)
          else (srv\<lparr>srv_locks := locks, srv_conns := AList.update i s' (srv_conns srv)\<rparr>,
                no_output\<lparr>po_response := Some r\<rparr>))"

fun pop3_server_step :: "pop3_server \<Rightarrow> pop3_event \<Rightarrow> pop3_server \<times> pop3_output" where
  "pop3_server_step srv (Accept i env) = accept_conn i env srv"
| "pop3_server_step srv (ClientLine i env line written) =
     (case map_of (srv_conns srv) i of
        None \<Rightarrow> (srv, no_output)
      | Some s \<Rightarrow> client_line i env line written s srv)"
| "pop3_server_step srv (Disconnect i) =
     (case map_of (srv_conns srv) i of
        None \<Rightarrow> (srv, no_output)
      | Some s \<Rightarrow> (close_conn i s (srv_locks srv) srv, no_output))"

section \<open>Invariant\<close>

definition guarded :: "pop3_server \<Rightarrow> nat \<Rightarrow> string option" where
  "guarded srv i = Option.bind (map_of (srv_conns srv) i) ps_guard"

definition server_inv :: "pop3_server \<Rightarrow> bool" where
  "server_inv srv \<longleftrightarrow>
     (\<forall>i s. map_of (srv_conns srv) i = Some s \<longrightarrow> session_inv s \<and> ps_state s \<noteq> Update) \<and>
     (\<forall>v. locked (srv_locks srv) v \<longleftrightarrow> (\<exists>i. guarded srv i = Some v)) \<and>
     (\<forall>i j v. guarded srv i = Some v \<longrightarrow> guarded srv j = Some v \<longrightarrow> i = j)"

lemma server_inv_new: "server_inv (Pop3Server_new cfg)"
  by (simp add: server_inv_def Pop3Server_new_def guarded_def)

lemma guarded_update:
  "guarded (srv\<lparr>srv_locks := l, srv_conns := AList.update i s (srv_conns srv)\<rparr>) j =
     (if j = i then ps_guard s else guarded srv j)"
  by (simp add: guarded_def update_conv')

lemma guarded_close:
  "guarded (close_conn i s locks srv) j = (if j = i then None else guarded srv j)"
  by (simp add: guarded_def close_conn_def delete_conv')

lemma srv_locks_close: "srv_locks (close_conn i s locks srv) = fst (release_maildrop_lock locks s)"
  by (simp add: close_conn_def)

lemma open_session_inv:
  "open_session env cfg = Inr (s, r) \<Longrightarrow> session_inv s \<and> ps_state s = Authorization \<and> ps_guard s = None"
  by (auto simp: open_session_def Let_def rbind_Inr_iff session_inv_def none_deleted_def Pop3Session_new_def)

lemma accept_inv: "server_inv srv \<Longrightarrow> server_inv (fst (accept_conn i env srv))"
proof (cases "map_of (srv_conns srv) i = None \<and> (\<exists>s r. open_session env (srv_config srv) = Inr (s, r))")
  case True
  assume inv: "server_inv srv"
  from True obtain s r where s: "open_session env (srv_config srv) = Inr (s, r)" by blast
  note op = open_session_inv [OF s]
  have free: "guarded srv i = None" using True by (simp add: guarded_def)
  have srv: "fst (accept_conn i env srv) = srv\<lparr>srv_locks := srv_locks srv, srv_conns := AList.update i s (srv_conns srv)\<rparr>"
    using True s by (simp add: accept_conn_def)
  have g: "guarded (fst (accept_conn i env srv)) j = guarded srv j" for j
    unfolding srv guarded_update using op free by simp
  have "session_inv t \<and> ps_state t \<noteq> Update"
    if "map_of (srv_conns (fst (accept_conn i env srv))) j = Some t" for j t
    using that inv op unfolding srv by (auto simp: update_conv' server_inv_def split: if_splits)
  with inv g show ?thesis by (simp add: server_inv_def srv)
next
  case False
  assume "server_inv srv"
  with False show ?thesis by (auto simp: accept_conn_def split: sum.splits)
qed

text \<open>Closing a session whose guard agrees with the locks, and storing its successor.\<close>

lemma locks_after_line:
  assumes "server_inv srv" "map_of (srv_conns srv) i = Some s" "lock_step (srv_locks srv) s locks s'"
  shows "locked locks v \<longleftrightarrow> (\<exists>j. j \<noteq> i \<and> guarded srv j = Some v) \<or> ps_guard s' = Some v"
    and "j \<noteq> i \<Longrightarrow> guarded srv j = Some v \<Longrightarrow> ps_guard s' \<noteq> Some v"
proof -
  have gi: "guarded srv i = ps_guard s" using assms(2) by (simp add: guarded_def)
  have lk: "locked (srv_locks srv) v \<longleftrightarrow> (\<exists>i. guarded srv i = Some v)" for v
    using assms(1) by (simp add: server_inv_def)
  have uniq: "guarded srv j = Some v \<Longrightarrow> guarded srv k = Some v \<Longrightarrow> j = k" for j k v
    using assms(1) by (simp add: server_inv_def)
  show "locked locks v \<longleftrightarrow> (\<exists>j. j \<noteq> i \<and> guarded srv j = Some v) \<or> ps_guard s' = Some v"
    using assms(3) gi lk unfolding lock_step_def by (metis option.distinct(1) option.inject)
  show "ps_guard s' \<noteq> Some v" if "j \<noteq> i" "guarded srv j = Some v"
    using assms(3) gi lk uniq [of j v i] that unfolding lock_step_def by (metis option.inject)
qed

lemma locked_release:
  "locked (fst (release_maildrop_lock locks s)) v \<longleftrightarrow> locked locks v \<and> ps_guard s \<noteq> Some v"
  by (auto simp: release_maildrop_lock_def locked_drop_guard split: option.splits)

lemma close_inv:
  assumes inv: "server_inv srv" and i: "map_of (srv_conns srv) i = Some s"
    and step: "lock_step (srv_locks srv) s locks s'"
  shows "server_inv (close_conn i s' locks srv)"
proof -
  note after = locks_after_line [OF inv i step]
  have "locked (srv_locks (close_conn i s' locks srv)) v \<longleftrightarrow> (\<exists>j. guarded (close_conn i s' locks srv) j = Some v)" for v
    unfolding guarded_close srv_locks_close locked_release using after by auto
  moreover have "session_inv t \<and> ps_state t \<noteq> Update"
    if "map_of (srv_conns (close_conn i s' locks srv)) j = Some t" for j t
    using that inv by (auto simp: close_conn_def delete_conv' server_inv_def split: if_splits)
  moreover have "j = k" if "guarded (close_conn i s' locks srv) j = Some v"
      "guarded (close_conn i s' locks srv) k = Some v" for j k v
    using that inv by (auto simp: guarded_close server_inv_def split: if_splits)
  ultimately show ?thesis unfolding server_inv_def by blast
qed

lemma client_line_inv:
  assumes inv: "server_inv srv" and i: "map_of (srv_conns srv) i = Some s"
  shows "server_inv (fst (client_line i env line written s srv))"
proof -
  obtain locks s' r where h: "pop3_handle_line env (srv_locks srv) s line = (locks, s', r)"
    by (cases "pop3_handle_line env (srv_locks srv) s line")
  have s: "session_inv s" "ps_state s \<noteq> Update" using inv i by (simp_all add: server_inv_def)
  from handle_line_inv [OF h s] have s': "session_inv s'" and step: "lock_step (srv_locks srv) s locks s'"
    by simp_all
  note after = locks_after_line [OF inv i step]
  let ?srv = "srv\<lparr>srv_locks := locks, srv_conns := AList.update i s' (srv_conns srv)\<rparr>"
  have "server_inv ?srv" if "ps_state s' \<noteq> Update"
  proof -
    have "locked (srv_locks ?srv) v \<longleftrightarrow> (\<exists>j. guarded ?srv j = Some v)" for v
      unfolding guarded_update using after(1) [of v] by auto
    moreover have "session_inv t \<and> ps_state t \<noteq> Update" if "map_of (srv_conns ?srv) j = Some t" for j t
      using that inv s' \<open>ps_state s' \<noteq> Update\<close> by (auto simp: update_conv' server_inv_def split: if_splits)
    moreover have "j = k" if "guarded ?srv j = Some v" "guarded ?srv k = Some v" for j k v
      using that after(2) inv unfolding guarded_update by (auto simp: server_inv_def split: if_splits)
    ultimately show ?thesis unfolding server_inv_def by blast
  qed
  with close_inv [OF inv i step] h show ?thesis by (simp add: client_line_def)
qed

lemma server_step_inv: "server_inv srv \<Longrightarrow> server_inv (fst (pop3_server_step srv ev))"
  by (cases ev) (auto simp: accept_inv client_line_inv intro: close_inv split: option.splits)

interpretation pop3_system: invariant_machine pop3_server_step server_inv
  by unfold_locales (rule server_step_inv)

section \<open>Properties\<close>

text \<open>C2: Mutual exclusion: in every state reachable by any interleaving of connections, client
  lines and disconnects, with arbitrary answers of the backends, two different open sessions in
  the transaction state are logged in as different users.\<close>

theorem pop3_mutual_exclusion:
  assumes "run pop3_server_step (Pop3Server_new cfg) evs = (srv, outs)"
    "map_of (srv_conns srv) i = Some s" "map_of (srv_conns srv) j = Some t"
    "ps_state s = Transaction" "ps_state t = Transaction" "i \<noteq> j"
  shows "ps_username s \<noteq> ps_username t"
proof
  assume eq: "ps_username s = ps_username t"
  have inv: "server_inv srv" using pop3_system.run_inv [OF server_inv_new, of cfg evs] assms(1) by simp
  then have "session_inv s" "session_inv t" using assms(2,3) by (simp_all add: server_inv_def)
  with assms(4,5) eq obtain v where "ps_guard s = Some v" "ps_guard t = Some v"
    by (auto simp: session_inv_def)
  with assms(2,3) have "guarded srv i = Some v" "guarded srv j = Some v" by (simp_all add: guarded_def)
  with inv assms(6) show False by (auto simp: server_inv_def)
qed

definition demo_events :: "pop3_event list" where
  "demo_events =
     [Accept 1 demo_pop3_env, Accept 2 demo_pop3_env,
      ClientLine 1 demo_pop3_env ''USER bob'' True, ClientLine 1 demo_pop3_env ''PASS pw'' True,
      ClientLine 2 demo_pop3_env ''USER bob'' True, ClientLine 2 demo_pop3_env ''PASS pw'' True,
      ClientLine 2 demo_pop3_env ''USER al'' True, ClientLine 2 demo_pop3_env ''PASS pw'' True]"

definition demo_server :: pop3_server where
  "demo_server = fst (run pop3_server_step (Pop3Server_new pop3_config_default) demo_events)"

lemma demo_run:
  "run pop3_server_step (Pop3Server_new pop3_config_default) demo_events =
     (demo_server, snd (run pop3_server_step (Pop3Server_new pop3_config_default) demo_events))"
  by (simp add: demo_server_def)

lemma demo_conns:
  "map ps_state (map snd (srv_conns demo_server)) = [Transaction, Transaction]"
  "map fst (srv_conns demo_server) = [1, 2]"
proof -
  have "map (\<lambda>(i, s). (i, ps_state s)) (srv_conns demo_server) = [(1, Transaction), (2, Transaction)]" by code_simp
  from arg_cong [OF this, of "map snd"] arg_cong [OF this, of "map fst"]
  show "map ps_state (map snd (srv_conns demo_server)) = [Transaction, Transaction]" "map fst (srv_conns demo_server) = [1, 2]"
    by (simp_all add: comp_def case_prod_beta)
qed

theorem pop3_mutual_exclusion_witness:
  "\<exists>s t. map_of (srv_conns demo_server) 1 = Some s \<and> map_of (srv_conns demo_server) 2 = Some t \<and>
     ps_username s \<noteq> ps_username t"
proof -
  from demo_conns obtain s t where c: "srv_conns demo_server = [(1, s), (2, t)]"
    and st: "ps_state s = Transaction" "ps_state t = Transaction" by auto
  have "map_of (srv_conns demo_server) 1 = Some s" "map_of (srv_conns demo_server) 2 = Some t" by (simp_all add: c)
  with pop3_mutual_exclusion [OF demo_run this st] show ?thesis by auto
qed

text \<open>No maildrop lock is leaked: in every reachable state a user's lock is held exactly if
  some open session is in the transaction state as that user, so once those sessions are gone a
  new login is not refused.\<close>

theorem pop3_lock_held_iff_session:
  assumes "run pop3_server_step (Pop3Server_new cfg) evs = (srv, outs)"
  shows "locked (srv_locks srv) u \<longleftrightarrow>
    (\<exists>i s. map_of (srv_conns srv) i = Some s \<and> ps_state s = Transaction \<and> ps_username s = Some (Username u))"
proof -
  have inv: "server_inv srv" using pop3_system.run_inv [OF server_inv_new, of cfg evs] assms(1) by simp
  have "ps_guard s = Some u \<longleftrightarrow> ps_state s = Transaction \<and> ps_username s = Some (Username u)"
    if "map_of (srv_conns srv) i = Some s" for i s
  proof -
    have "session_inv s" "ps_state s \<noteq> Update" using inv that by (simp_all add: server_inv_def)
    then show ?thesis by (cases "ps_state s") (auto simp: session_inv_def)
  qed
  then have "(\<exists>i. guarded srv i = Some u) \<longleftrightarrow>
      (\<exists>i s. map_of (srv_conns srv) i = Some s \<and> ps_state s = Transaction \<and> ps_username s = Some (Username u))"
    by (simp add: guarded_def bind_eq_Some_conv) blast
  with inv show ?thesis by (simp add: server_inv_def)
qed

theorem pop3_lock_held_iff_session_witness:
  "locked (srv_locks demo_server) ''al'' \<and>
   (\<exists>i s. map_of (srv_conns demo_server) i = Some s \<and> ps_state s = Transaction \<and>
      ps_username s = Some (Username ''al''))"
proof -
  have "locked (srv_locks demo_server) ''al''" by code_simp
  with pop3_lock_held_iff_session [OF demo_run, of "''al''"] show ?thesis by simp
qed

text \<open>C38: Messages are only deleted by a completed transaction: in every reachable state an event
  causes a deletion call only if it is a line that moves a session from the transaction to the
  update state and whose response was written, and then exactly the marked messages of that
  session are deleted; a lost connection deletes nothing.\<close>

theorem pop3_deletes_only_on_quit:
  assumes "run pop3_server_step (Pop3Server_new cfg) evs = (srv, outs)"
    "po_deleted (snd (pop3_server_step srv ev)) = Some ids"
  shows "\<exists>i env line s locks s' r. ev = ClientLine i env line True \<and>
    map_of (srv_conns srv) i = Some s \<and> ps_state s = Transaction \<and>
    pop3_handle_line env (srv_locks srv) s line = (locks, s', r) \<and> ps_state s' = Update \<and>
    ids = deleted_ids s \<and> ids \<noteq> []"
proof -
  have inv: "server_inv srv" using pop3_system.run_inv [OF server_inv_new, of cfg evs] assms(1) by simp
  obtain i env line s locks s' r where ev: "ev = ClientLine i env line True"
    and s: "map_of (srv_conns srv) i = Some s"
    and h: "pop3_handle_line env (srv_locks srv) s line = (locks, s', r)" "ps_state s' = Update"
    and ids: "ids = deleted_ids s'" "ids \<noteq> []"
    using assms(2)
    by (cases ev) (auto simp: accept_conn_def client_line_def no_output_def apply_deletions_def Let_def
        split: option.splits if_splits sum.splits prod.splits)
  have si: "session_inv s" "ps_state s \<noteq> Update" using inv s by (simp_all add: server_inv_def)
  have upd: "s' = s\<lparr>ps_state := Update\<rparr>"
    by (rule handle_line_Update [OF h(1) si(2) h(2)])
  then have "deleted_ids s' = deleted_ids s" by (simp add: deleted_ids_def)
  moreover have "ps_state s = Transaction"
  proof (cases "ps_state s")
    case Authorization
    then have "deleted_ids s = []"
      using si(1) by (auto simp: session_inv_def none_deleted_def deleted_ids_def list_all_iff filter_empty_conv)
    with ids calculation show ?thesis by simp
  qed (use si(2) in auto)
  ultimately show ?thesis using ev s h ids by blast
qed

definition demo_events_dele :: "pop3_event list" where
  "demo_events_dele =
     [Accept 1 demo_pop3_env, ClientLine 1 demo_pop3_env ''USER bob'' True,
      ClientLine 1 demo_pop3_env ''PASS pw'' True, ClientLine 1 demo_pop3_env ''DELE 2'' True]"

theorem pop3_deletes_only_on_quit_witness:
  "\<exists>s. ps_state s = Transaction \<and> deleted_ids s = [MessageId 11]"
proof -
  obtain srv outs where r: "run pop3_server_step (Pop3Server_new pop3_config_default) demo_events_dele = (srv, outs)"
    by (cases "run pop3_server_step (Pop3Server_new pop3_config_default) demo_events_dele")
  have "po_deleted (snd (pop3_server_step
      (fst (run pop3_server_step (Pop3Server_new pop3_config_default) demo_events_dele))
      (ClientLine 1 demo_pop3_env ''QUIT'' True))) = Some [MessageId 11]" by code_simp
  with r have "po_deleted (snd (pop3_server_step srv (ClientLine 1 demo_pop3_env ''QUIT'' True))) =
      Some [MessageId 11]" by simp
  from pop3_deletes_only_on_quit [OF r this] show ?thesis by metis
qed

end
