(* ===== verification/Smtp_Protocol.thy ===== *)
theory Smtp_Protocol
  imports Nom_Parsers Proto_Address "HOL-Library.Code_Target_Nat"
begin

text \<open>
  Model of \<^verbatim>\<open>crates/rusmes-smtp/src/command.rs\<close>, \<^verbatim>\<open>parser.rs\<close> and \<^verbatim>\<open>response.rs\<close>: the
  commands with their printed form, the parser with its fourteen alternatives in their order,
  and the replies with their wire format.  The lemmas give the round trip of printed commands
  through the parser, the round trip of multi-line replies through an RFC 5321 client, and what
  the parser refuses.
\<close>

section \<open>Commands\<close>

record mail_param =
  mp_keyword :: string
  mp_value :: "string option"

datatype smtp_command =
    Helo string
  | Ehlo string
  | MailFrom mail_address "mail_param list"
  | Rcpt mail_address "mail_param list"
  | Data
  | Bdat nat bool
  | SmtpRset
  | SmtpNoop
  | SmtpQuit
  | Vrfy string
  | Expn string
  | Help "string option"
  | StartTls
  | SmtpAuth string "string option"

fun smtp_command_display :: "smtp_command \<Rightarrow> string" where
  "smtp_command_display (Helo d) = ''HELO '' @ d"
| "smtp_command_display (Ehlo d) = ''EHLO '' @ d"
| "smtp_command_display (MailFrom from _) = ''MAIL FROM:<'' @ as_string from @ ''>''"
| "smtp_command_display (Rcpt to _) = ''RCPT TO:<'' @ as_string to @ ''>''"
| "smtp_command_display Data = ''DATA''"
| "smtp_command_display (Bdat chunk_size is_last) =
     (if is_last then ''BDAT '' @ show_nat chunk_size @ '' LAST'' else ''BDAT '' @ show_nat chunk_size)"
| "smtp_command_display SmtpRset = ''RSET''"
| "smtp_command_display SmtpNoop = ''NOOP''"
| "smtp_command_display SmtpQuit = ''QUIT''"
| "smtp_command_display (Vrfy addr) = ''VRFY '' @ addr"
| "smtp_command_display (Expn list) = ''EXPN '' @ list"
| "smtp_command_display (Help topic) = (case topic of Some t \<Rightarrow> ''HELP '' @ t | None \<Rightarrow> ''HELP'')"
| "smtp_command_display StartTls = ''STARTTLS''"
| "smtp_command_display (SmtpAuth mechanism _) = ''AUTH '' @ mechanism"

section \<open>Parser\<close>

definition p_domain :: "nom \<Rightarrow> string parser" where
  "p_domain N =
     n_take_while1 N (char_is (\<lambda>c. is_ascii_alphanumeric c \<or> c = CHR ''.'' \<or> c = CHR ''-''))"

definition p_parameter_value :: "nom \<Rightarrow> string parser" where
  "p_parameter_value N =
     n_take_while1 N (char_is (\<lambda>c. is_ascii_alphanumeric c \<or> c = CHR ''-'' \<or> c = CHR ''.''))"

definition p_mail_parameter :: "nom \<Rightarrow> mail_param parser" where
  "p_mail_parameter N =
     p_bind (n_take_while1 N (char_is (\<lambda>c. is_ascii_alphanumeric c \<or> c = CHR ''-''))) (\<lambda>keyword.
     p_bind (p_opt (p_preceded (n_char N (CHR ''='')) (p_parameter_value N))) (\<lambda>val.
       p_return \<lparr>mp_keyword = keyword, mp_value = val\<rparr>))"

text \<open>The loop over the parameters.  Each one takes at least one character of the input, so its
  length is enough fuel.\<close>

fun mail_parameters_loop ::
    "nom \<Rightarrow> nat \<Rightarrow> string \<Rightarrow> mail_param list \<Rightarrow> string \<times> mail_param list" where
  "mail_parameters_loop N 0 remaining params = (remaining, params)"
| "mail_parameters_loop N (Suc fuel) remaining params =
     (case p_mail_parameter N remaining of
        None \<Rightarrow> (remaining, params)
      | Some (rst, param) \<Rightarrow>
          (let remaining' = trim_start rst; params' = params @ [param] in
           if remaining' = [] then (remaining', params')
           else mail_parameters_loop N fuel remaining' params'))"

definition p_mail_parameters :: "nom \<Rightarrow> mail_param list parser" where
  "p_mail_parameters N input = Some (mail_parameters_loop N (length input) input [])"

definition p_mailbox :: "nom \<Rightarrow> bool \<Rightarrow> mail_address parser" where
  "p_mailbox N smtputf8 =
     (if smtputf8 then
        p_map_res (n_take_while1 N (\<lambda>c. c \<noteq> ''>''))
          (\<lambda>s. case from_str_smtputf8 s of Inr a \<Rightarrow> Some a | Inl _ \<Rightarrow> None)
      else
        p_map_res (n_take_while1 N (char_is (\<lambda>c. is_ascii_alphanumeric c \<or> c = CHR ''@'' \<or>
             c = CHR ''.'' \<or> c = CHR ''-'' \<or> c = CHR ''_'' \<or> c = CHR ''+'')))
          (\<lambda>s. case MailAddress_from_str s of Inr a \<Rightarrow> Some a | Inl _ \<Rightarrow> None))"

definition p_reverse_path :: "nom \<Rightarrow> bool \<Rightarrow> mail_address parser" where
  "p_reverse_path N smtputf8 =
     p_delimited (n_char N (CHR ''<'')) (p_mailbox N smtputf8) (n_char N (CHR ''>''))"

definition p_forward_path :: "nom \<Rightarrow> bool \<Rightarrow> mail_address parser" where
  "p_forward_path N smtputf8 =
     p_delimited (n_char N (CHR ''<'')) (p_mailbox N smtputf8) (n_char N (CHR ''>''))"

definition smtp_helo_command :: "nom \<Rightarrow> smtp_command parser" where
  "smtp_helo_command N =
     p_map (p_preceded (n_tag_no_case N ''HELO'') (p_preceded (n_space1 N) (p_domain N))) Helo"

definition smtp_ehlo_command :: "nom \<Rightarrow> smtp_command parser" where
  "smtp_ehlo_command N =
     p_map (p_preceded (n_tag_no_case N ''EHLO'') (p_preceded (n_space1 N) (p_domain N))) Ehlo"

definition opt_params :: "nom \<Rightarrow> mail_param list parser" where
  "opt_params N =
     p_map (p_opt (p_preceded (n_space1 N) (p_mail_parameters N)))
       (\<lambda>ps. case ps of None \<Rightarrow> [] | Some l \<Rightarrow> l)"

definition smtp_mail_command :: "nom \<Rightarrow> bool \<Rightarrow> smtp_command parser" where
  "smtp_mail_command N smtputf8 =
     p_bind (n_tag_no_case N ''MAIL FROM:'') (\<lambda>_.
     p_bind (n_space0 N) (\<lambda>_.
     p_bind (p_reverse_path N smtputf8) (\<lambda>from.
     p_bind (opt_params N) (\<lambda>params. p_return (MailFrom from params)))))"

definition smtp_rcpt_command :: "nom \<Rightarrow> bool \<Rightarrow> smtp_command parser" where
  "smtp_rcpt_command N smtputf8 =
     p_bind (n_tag_no_case N ''RCPT TO:'') (\<lambda>_.
     p_bind (n_space0 N) (\<lambda>_.
     p_bind (p_forward_path N smtputf8) (\<lambda>to.
     p_bind (opt_params N) (\<lambda>params. p_return (Rcpt to params)))))"

definition smtp_data_command :: "nom \<Rightarrow> smtp_command parser" where
  "smtp_data_command N = p_map (n_tag_no_case N ''DATA'') (\<lambda>_. Data)"

definition smtp_bdat_command :: "nom \<Rightarrow> smtp_command parser" where
  "smtp_bdat_command N =
     p_bind (n_tag_no_case N ''BDAT'') (\<lambda>_.
     p_bind (n_space1 N) (\<lambda>_.
     p_bind (n_digit1 N) (\<lambda>size_str.
     p_bind (p_opt (p_preceded (n_space1 N) (n_tag_no_case N ''LAST''))) (\<lambda>is_last.
       case parse_uint usize_max size_str of
         None \<Rightarrow> (\<lambda>i. None)
       | Some chunk_size \<Rightarrow> p_return (Bdat chunk_size (is_last \<noteq> None))))))"

definition smtp_rset_command :: "nom \<Rightarrow> smtp_command parser" where
  "smtp_rset_command N = p_map (n_tag_no_case N ''RSET'') (\<lambda>_. SmtpRset)"

definition smtp_noop_command :: "nom \<Rightarrow> smtp_command parser" where
  "smtp_noop_command N = p_map (n_tag_no_case N ''NOOP'') (\<lambda>_. SmtpNoop)"

definition smtp_quit_command :: "nom \<Rightarrow> smtp_command parser" where
  "smtp_quit_command N = p_map (n_tag_no_case N ''QUIT'') (\<lambda>_. SmtpQuit)"

definition smtp_vrfy_command :: "nom \<Rightarrow> smtp_command parser" where
  "smtp_vrfy_command N =
     p_map (p_preceded (n_tag_no_case N ''VRFY'') (p_preceded (n_space1 N) (n_rest N))) Vrfy"

definition smtp_expn_command :: "nom \<Rightarrow> smtp_command parser" where
  "smtp_expn_command N =
     p_map (p_preceded (n_tag_no_case N ''EXPN'') (p_preceded (n_space1 N) (n_rest N))) Expn"

definition smtp_help_command :: "nom \<Rightarrow> smtp_command parser" where
  "smtp_help_command N =
     p_map (p_preceded (n_tag_no_case N ''HELP'') (p_opt (p_preceded (n_space1 N) (n_rest N)))) Help"

definition smtp_starttls_command :: "nom \<Rightarrow> smtp_command parser" where
  "smtp_starttls_command N = p_map (n_tag_no_case N ''STARTTLS'') (\<lambda>_. StartTls)"

definition smtp_auth_command :: "nom \<Rightarrow> smtp_command parser" where
  "smtp_auth_command N =
     p_bind (n_tag_no_case N ''AUTH'') (\<lambda>_.
     p_bind (n_space1 N) (\<lambda>_.
     p_bind (n_take_while1 N (char_is (\<lambda>c. is_ascii_alphanumeric c \<or> c = CHR ''-''))) (\<lambda>mechanism.
     p_bind (p_opt (p_preceded (n_space1 N) (n_rest N))) (\<lambda>initial_response.
       p_return (SmtpAuth mechanism initial_response)))))"

definition p_smtp_command :: "nom \<Rightarrow> bool \<Rightarrow> smtp_command parser" where
  "p_smtp_command N smtputf8 =
     p_alt [smtp_helo_command N, smtp_ehlo_command N, smtp_mail_command N smtputf8,
            smtp_rcpt_command N smtputf8, smtp_data_command N, smtp_bdat_command N,
            smtp_rset_command N, smtp_noop_command N, smtp_quit_command N, smtp_vrfy_command N,
            smtp_expn_command N, smtp_help_command N, smtp_starttls_command N, smtp_auth_command N]"

definition smtp_parse_command_inner :: "nom \<Rightarrow> string \<Rightarrow> bool \<Rightarrow> smtp_command result" where
  "smtp_parse_command_inner N input smtputf8 =
     (case p_smtp_command N smtputf8 input of
        Some (_, cmd) \<Rightarrow> Inr cmd
      | None \<Rightarrow> Inl (''Failed to parse command: '' @ input))"

definition smtp_parse_command :: "nom \<Rightarrow> string \<Rightarrow> smtp_command result" where
  "smtp_parse_command N input = smtp_parse_command_inner N (trim input) False"

definition smtp_parse_command_smtputf8 :: "nom \<Rightarrow> string \<Rightarrow> bool \<Rightarrow> smtp_command result" where
  "smtp_parse_command_smtputf8 N input active = smtp_parse_command_inner N (trim input) active"

section \<open>Replies\<close>

record smtp_response =
  sr_code :: nat
  sr_lines :: "string list"

definition smtp_reply :: "nat \<Rightarrow> string \<Rightarrow> smtp_response" where
  [resp_simps]: "smtp_reply code msg = \<lparr>sr_code = code, sr_lines = [msg]\<rparr>"

definition smtp_multiline :: "nat \<Rightarrow> string list \<Rightarrow> smtp_response" where
  [resp_simps]: "smtp_multiline code lines = \<lparr>sr_code = code, sr_lines = lines\<rparr>"

definition is_success :: "smtp_response \<Rightarrow> bool" where
  "is_success r \<longleftrightarrow> 200 \<le> sr_code r \<and> sr_code r < 300"

definition is_permanent_error :: "smtp_response \<Rightarrow> bool" where
  "is_permanent_error r \<longleftrightarrow> 500 \<le> sr_code r \<and> sr_code r < 600"

definition is_temporary_error :: "smtp_response \<Rightarrow> bool" where
  "is_temporary_error r \<longleftrightarrow> 400 \<le> sr_code r \<and> sr_code r < 500"

fun format_lines :: "nat \<Rightarrow> string list \<Rightarrow> string" where
  "format_lines code [] = []"
| "format_lines code [l] = show_nat code @ '' '' @ l @ CRLF"
| "format_lines code (l # ls) = show_nat code @ ''-'' @ l @ CRLF @ format_lines code ls"

definition smtp_format :: "smtp_response \<Rightarrow> string" where
  "smtp_format r = format_lines (sr_code r) (sr_lines r)"

definition service_ready :: "string \<Rightarrow> smtp_response" where
  [resp_simps]: "service_ready d = smtp_reply 220 (d @ '' RusMES SMTP Server ready'')"

definition smtp_closing :: smtp_response where
  [resp_simps]: "smtp_closing = smtp_reply 221 ''Bye''"

definition ehlo_response :: "string \<Rightarrow> string list \<Rightarrow> smtp_response" where
  [resp_simps]: "ehlo_response d exts = smtp_multiline 250 (d # exts)"

definition start_data :: smtp_response where
  [resp_simps]: "start_data = smtp_reply 354 ''Start mail input; end with <CRLF>.<CRLF>''"

definition insufficient_storage :: smtp_response where
  [resp_simps]: "insufficient_storage = smtp_reply 452 ''Insufficient system storage''"

text \<open>The remaining standard replies only fix the code.\<close>

definition smtp_ok :: "string \<Rightarrow> smtp_response" where [resp_simps]: "smtp_ok = smtp_reply 250"
definition service_unavailable :: "string \<Rightarrow> smtp_response" where [resp_simps]: "service_unavailable = smtp_reply 421"
definition mailbox_unavailable :: "string \<Rightarrow> smtp_response" where [resp_simps]: "mailbox_unavailable = smtp_reply 450"
definition local_error :: "string \<Rightarrow> smtp_response" where [resp_simps]: "local_error = smtp_reply 451"
definition syntax_error :: "string \<Rightarrow> smtp_response" where [resp_simps]: "syntax_error = smtp_reply 500"
definition parameter_error :: "string \<Rightarrow> smtp_response" where [resp_simps]: "parameter_error = smtp_reply 501"
definition not_implemented :: "string \<Rightarrow> smtp_response" where [resp_simps]: "not_implemented = smtp_reply 502"
definition bad_sequence :: "string \<Rightarrow> smtp_response" where [resp_simps]: "bad_sequence = smtp_reply 503"
definition parameter_not_implemented :: "string \<Rightarrow> smtp_response" where [resp_simps]: "parameter_not_implemented = smtp_reply 504"
definition mailbox_not_found :: "string \<Rightarrow> smtp_response" where [resp_simps]: "mailbox_not_found = smtp_reply 550"
definition user_not_local :: "string \<Rightarrow> smtp_response" where [resp_simps]: "user_not_local = smtp_reply 551"
definition storage_exceeded :: "string \<Rightarrow> smtp_response" where [resp_simps]: "storage_exceeded = smtp_reply 552"
definition mailbox_name_invalid :: "string \<Rightarrow> smtp_response" where [resp_simps]: "mailbox_name_invalid = smtp_reply 553"
definition transaction_failed :: "string \<Rightarrow> smtp_response" where [resp_simps]: "transaction_failed = smtp_reply 554"
definition parameters_not_recognized :: "string \<Rightarrow> smtp_response" where [resp_simps]: "parameters_not_recognized = smtp_reply 555"

section \<open>Reading a reply\<close>

text \<open>A client of RFC 5321 reads lines as long as the code is followed by a hyphen.\<close>

fun read_reply :: "nat \<Rightarrow> string list \<Rightarrow> (string list \<times> string list) option" where
  "read_reply code [] = None"
| "read_reply code (l # ls) =
     (case strip_prefix (show_nat code @ '' '') l of
        Some t \<Rightarrow> Some ([t], ls)
      | None \<Rightarrow>
          (case strip_prefix (show_nat code @ ''-'') l of
             Some t \<Rightarrow> map_option (\<lambda>(ts, r). (t # ts, r)) (read_reply code ls)
           | None \<Rightarrow> None))"

lemma show_nat_no_LF: "CHR 0x0A \<notin> set (show_nat n)"
proof
  assume "CHR 0x0A \<in> set (show_nat n)"
  with show_nat_digits [of n] have "is_ascii_digit (CHR 0x0A)" by (auto simp: list_all_iff)
  then show False by (simp add: is_ascii_digit_def)
qed

lemma strip_prefix_hyphen: "strip_prefix (show_nat n @ '' '') (show_nat n @ ''-'' @ l) = None"
  by (simp add: strip_prefix_def starts_with_iff)

lemma read_format_lines:
  "ls \<noteq> [] \<Longrightarrow> list_all (\<lambda>l. CHR 0x0A \<notin> set l) ls \<Longrightarrow>
     read_reply code (str_lines (format_lines code ls @ rst)) = Some (ls, str_lines rst)"
proof (induction code ls rule: format_lines.induct)
  case (1 code)
  then show ?case by simp
next
  case (2 code l)
  then have "str_lines (format_lines code [l] @ rst) = (show_nat code @ '' '' @ l) # str_lines rst"
    using str_lines_CRLF [of "show_nat code @ '' '' @ l" rst] by (simp add: show_nat_no_LF)
  moreover have "strip_prefix (show_nat code @ '' '') (show_nat code @ '' '' @ l) = Some l"
    using strip_prefix_append [of "show_nat code @ '' ''" l] by simp
  ultimately show ?case by simp
next
  case (3 code l l' ls)
  then have "str_lines (format_lines code (l # l' # ls) @ rst) =
      (show_nat code @ ''-'' @ l) # str_lines (format_lines code (l' # ls) @ rst)"
    using str_lines_CRLF [of "show_nat code @ ''-'' @ l" "format_lines code (l' # ls) @ rst"]
    by (simp add: show_nat_no_LF)
  moreover have "strip_prefix (show_nat code @ ''-'') (show_nat code @ ''-'' @ l) = Some l"
    using strip_prefix_append [of "show_nat code @ ''-''" l] by simp
  ultimately show ?case using 3 strip_prefix_hyphen [of code l] by simp
qed

section \<open>Parsing what is printed\<close>

lemmas smtp_command_parsers =
  smtp_helo_command_def smtp_ehlo_command_def smtp_mail_command_def smtp_rcpt_command_def
  smtp_data_command_def smtp_bdat_command_def smtp_rset_command_def smtp_noop_command_def
  smtp_quit_command_def smtp_vrfy_command_def smtp_expn_command_def smtp_help_command_def
  smtp_starttls_command_def smtp_auth_command_def

definition mailbox_char :: "char \<Rightarrow> bool" where
  "mailbox_char c \<longleftrightarrow> is_ascii_alphanumeric c \<or> c \<in> set ''@.-_+''"

definition graphic_text :: "string \<Rightarrow> bool" where
  "graphic_text s \<longleftrightarrow> s \<noteq> [] \<and> is_graphic (hd s) \<and> is_graphic (last s)"

text \<open>The commands whose printed form carries all their arguments, with addresses of the
  characters the plain parser accepts.\<close>

fun printable_smtp :: "smtp_command \<Rightarrow> bool" where
  "printable_smtp (Helo d) = (d \<noteq> [] \<and> list_all domain_char d)"
| "printable_smtp (Ehlo d) = (d \<noteq> [] \<and> list_all domain_char d)"
| "printable_smtp (MailFrom a ps) = (wf_address a \<and> list_all mailbox_char (as_string a) \<and> ps = [])"
| "printable_smtp (Rcpt a ps) = (wf_address a \<and> list_all mailbox_char (as_string a) \<and> ps = [])"
| "printable_smtp (Bdat n _) = (n \<le> usize_max)"
| "printable_smtp (Vrfy s) = graphic_text s"
| "printable_smtp (Expn s) = graphic_text s"
| "printable_smtp (Help (Some s)) = graphic_text s"
| "printable_smtp (SmtpAuth m ir) =
     (m \<noteq> [] \<and> list_all (\<lambda>c. is_ascii_alphanumeric c \<or> c = CHR ''-'') m \<and> ir = None)"
| "printable_smtp _ = True"

context nom_laws
begin

lemma smtp_tag:
  assumes "t \<in> {''HELO'', ''EHLO'', ''MAIL FROM:'', ''RCPT TO:'', ''DATA'', ''BDAT'', ''LAST'', ''RSET'', ''NOOP'',
    ''QUIT'', ''VRFY'', ''EXPN'', ''HELP'', ''STARTTLS'', ''AUTH''}"
  shows "n_tag_no_case N t i = ref_tag_no_case t i"
  by (rule tag_no_case) (use assms in \<open>auto simp: plain_tag_def\<close>)

lemma take_ascii_class:
  assumes "ds \<noteq> []" "list_all Q ds" "\<And>c. Q c \<Longrightarrow> code_of c < 128" "r = [] \<or> code_of (hd r) < 128 \<and> \<not> Q (hd r)"
  shows "n_take_while1 N (char_is Q) (ds @ r) = Some (r, ds)"
proof (rule take_while1_ascii [OF assms(1)])
  show "list_all (\<lambda>c. code_of c < 128 \<and> char_is Q [c]) ds"
    using assms(2,3) by (auto simp: list_all_iff char_is_def is_ascii_char_def)
  show "r = [] \<or> code_of (hd r) < 128 \<and> \<not> char_is Q [hd r]"
    using assms(4) by (auto simp: char_is_def)
qed

lemma smtp_dispatch:
  "p_smtp_command N u (''HELO'' @ r) =
     map_option (\<lambda>(r, a). (r, Helo a)) (p_preceded (n_space1 N) (p_domain N) r)"
  "p_smtp_command N u (''EHLO'' @ r) =
     map_option (\<lambda>(r, a). (r, Ehlo a)) (p_preceded (n_space1 N) (p_domain N) r)"
  "p_smtp_command N u (''DATA'' @ r) = Some (r, Data)"
  "p_smtp_command N u (''RSET'' @ r) = Some (r, SmtpRset)"
  "p_smtp_command N u (''NOOP'' @ r) = Some (r, SmtpNoop)"
  "p_smtp_command N u (''QUIT'' @ r) = Some (r, SmtpQuit)"
  "p_smtp_command N u (''STARTTLS'' @ r) = Some (r, StartTls)"
  "p_smtp_command N u (''VRFY'' @ r) =
     map_option (\<lambda>(r, a). (r, Vrfy a)) (p_preceded (n_space1 N) (n_rest N) r)"
  "p_smtp_command N u (''EXPN'' @ r) =
     map_option (\<lambda>(r, a). (r, Expn a)) (p_preceded (n_space1 N) (n_rest N) r)"
  "p_smtp_command N u (''HELP'' @ r) =
     map_option (\<lambda>(r, a). (r, Help a)) (p_opt (p_preceded (n_space1 N) (n_rest N)) r)"
  by (auto simp: p_smtp_command_def smtp_command_parsers parser_defs smtp_tag ref_tag_no_case_def
      eq_ignore_ascii_case_def split: option.splits)

lemma smtp_dispatch_other:
  "p_smtp_command N u (''MAIL FROM:'' @ r) = smtp_mail_command N u (''MAIL FROM:'' @ r)"
  "p_smtp_command N u (''RCPT TO:'' @ r) = smtp_rcpt_command N u (''RCPT TO:'' @ r)"
  "p_smtp_command N u (''BDAT'' @ r) = smtp_bdat_command N (''BDAT'' @ r)"
  "p_smtp_command N u (''AUTH'' @ r) = smtp_auth_command N (''AUTH'' @ r)"
  by (auto simp: p_smtp_command_def smtp_command_parsers parser_defs smtp_tag ref_tag_no_case_def
      eq_ignore_ascii_case_def split: option.splits)

lemma smtp_tag_prefix:
  "n_tag_no_case N ''MAIL FROM:'' (''MAIL FROM:'' @ r) = Some (r, ''MAIL FROM:'')"
  "n_tag_no_case N ''RCPT TO:'' (''RCPT TO:'' @ r) = Some (r, ''RCPT TO:'')"
  "n_tag_no_case N ''BDAT'' (''BDAT'' @ r) = Some (r, ''BDAT'')"
  "n_tag_no_case N ''AUTH'' (''AUTH'' @ r) = Some (r, ''AUTH'')"
  "n_tag_no_case N ''LAST'' (''LAST'' @ r) = Some (r, ''LAST'')"
  by (rule tag_prefix; simp add: plain_tag_def)+

lemma take_while1_consumes: "n_take_while1 N P i = Some (r, x) \<Longrightarrow> length r < length i"
proof -
  assume a: "n_take_while1 N P i = Some (r, x)"
  then have r: "r = concat (dropWhile P (utf8_chars i))" and ne: "takeWhile P (utf8_chars i) \<noteq> []"
    by (auto simp: take_while1 ref_take_while1_def Let_def split: if_splits)
  from ne obtain ch chs where tw: "takeWhile P (utf8_chars i) = ch # chs"
    by (meson list.exhaust)
  then have "ch \<in> set (utf8_chars i)" by (metis list.set_intros(1) set_takeWhileD)
  then have "0 < length (concat (takeWhile P (utf8_chars i)))"
    using utf8_chars_nonempty [of ch i] tw by simp
  moreover have "concat (takeWhile P (utf8_chars i)) @ concat (dropWhile P (utf8_chars i)) = i"
    by (metis concat_append concat_utf8_chars takeWhile_dropWhile_id)
  ultimately show ?thesis unfolding r by (metis length_append less_add_same_cancel2)
qed

lemma mail_parameter_consumes: "p_mail_parameter N i = Some (r, x) \<Longrightarrow> length r < length i"
proof -
  assume "p_mail_parameter N i = Some (r, x)"
  then obtain i1 k v where kw: "n_take_while1 N (char_is (\<lambda>c. is_ascii_alphanumeric c \<or> c = CHR ''-'')) i = Some (i1, k)"
    and opt: "p_opt (p_preceded (n_char N (CHR ''='')) (p_parameter_value N)) i1 = Some (r, v)"
    by (auto simp: p_mail_parameter_def p_bind_def p_return_def split: option.splits)
  have "length r \<le> length i1"
    using opt
    by (auto simp: p_opt_def p_preceded_def char ref_char_def p_parameter_value_def
        split: option.splits list.splits if_splits dest: take_while1_consumes)
  with take_while1_consumes [OF kw] show ?thesis by simp
qed

text \<open>The length of the input is enough fuel for the parameter loop.\<close>

lemma mail_parameters_fuel:
  "length i \<le> f \<Longrightarrow> mail_parameters_loop N f i ps = mail_parameters_loop N (length i) i ps"
proof (induction f arbitrary: i ps rule: less_induct)
  case (less f)
  show ?case
  proof (cases "length i = f \<or> p_mail_parameter N i = None")
    case True
    then show ?thesis by (cases f; cases "length i") auto
  next
    case False
    then obtain r x where p: "p_mail_parameter N i = Some (r, x)" by auto
    from mail_parameter_consumes [OF p] have len: "length (trim_start r) < length i"
      using length_strip_words [of ws_seqs r] by (simp add: trim_start_def)
    obtain g h where gh: "f = Suc g" "length i = Suc h"
      using len False less.prems by (cases f; cases "length i") auto
    have "mail_parameters_loop N g (trim_start r) (ps @ [x]) = mail_parameters_loop N h (trim_start r) (ps @ [x])"
      using less.IH [of g "trim_start r"] less.IH [of h "trim_start r"] gh len False less.prems by simp
    with p gh show ?thesis by (simp add: Let_def)
  qed
qed

lemma opt_params_Nil: "opt_params N [] = Some ([], [])"
  using space1_None [of "[]"] by (simp add: opt_params_def p_map_def p_opt_def p_preceded_def)

lemma mailbox_arg:
  assumes "wf_address a" "list_all mailbox_char (as_string a)"
  shows "p_delimited (n_char N (CHR ''<'')) (p_mailbox N False) (n_char N (CHR ''>''))
    (CHR ''<'' # as_string a @ ''>'') = Some ([], a)"
proof -
  have ne: "as_string a \<noteq> []" by (simp add: as_string_def)
  have eq: "mailbox_char = (\<lambda>c. is_ascii_alphanumeric c \<or> c = CHR ''@'' \<or>
      c = CHR ''.'' \<or> c = CHR ''-'' \<or> c = CHR ''_'' \<or> c = CHR ''+'')"
    by (auto simp: mailbox_char_def fun_eq_iff)
  have "n_take_while1 N (char_is mailbox_char) (as_string a @ ''>'') = Some (''>'', as_string a)"
    by (rule take_ascii_class [OF ne assms(2)]) (auto simp: mailbox_char_def byte_simps)
  then have "p_mailbox N False (as_string a @ ''>'') = Some (''>'', a)"
    by (simp add: p_mailbox_def p_map_res_def eq MailAddress_from_str_as_string [OF assms(1)])
  then show ?thesis by (simp add: p_delimited_def char ref_char_def)
qed

lemma mail_arg:
  assumes "wf_address a" "list_all mailbox_char (as_string a)"
  shows "smtp_mail_command N False (''MAIL FROM:'' @ CHR ''<'' # as_string a @ ''>'') = Some ([], MailFrom a [])"
    and "smtp_rcpt_command N False (''RCPT TO:'' @ CHR ''<'' # as_string a @ ''>'') = Some ([], Rcpt a [])"
  unfolding smtp_mail_command_def smtp_rcpt_command_def p_bind_def smtp_tag_prefix
  by (simp_all add: space0 blank_def p_reverse_path_def p_forward_path_def mailbox_arg [OF assms]
      opt_params_Nil p_return_def)

lemma space_domain:
  assumes "d \<noteq> []" "list_all domain_char d"
  shows "p_preceded (n_space1 N) (p_domain N) (CHR '' '' # d) = Some ([], d)"
proof -
  have eq: "domain_char = (\<lambda>c. is_ascii_alphanumeric c \<or> c = CHR ''.'' \<or> c = CHR ''-'')"
    by (simp add: domain_char_def fun_eq_iff)
  have "n_take_while1 N (char_is domain_char) (d @ []) = Some ([], d)"
    by (rule take_ascii_class [OF assms]) (auto simp: domain_char_def byte_simps)
  moreover have "n_space1 N (CHR '' '' # d) = Some (d, '' '')"
    using assms by (intro space1_blank) (cases d, auto simp: domain_char_def blank_def byte_simps)
  ultimately show ?thesis by (simp add: p_preceded_def p_domain_def eq)
qed

lemma space_rest: "graphic_text s \<Longrightarrow> p_preceded (n_space1 N) (n_rest N) (CHR '' '' # s) = Some ([], s)"
proof -
  assume "graphic_text s"
  then have "n_space1 N (CHR '' '' # s) = Some (s, '' '')"
    by (intro space1_blank) (auto simp: graphic_text_def blank_def is_graphic_def)
  then show ?thesis by (simp add: p_preceded_def rest)
qed

lemma bdat_arg:
  assumes "n \<le> usize_max"
  shows "smtp_bdat_command N (''BDAT'' @ CHR '' '' # show_nat n) = Some ([], Bdat n False)"
    and "smtp_bdat_command N (''BDAT'' @ CHR '' '' # show_nat n @ '' LAST'') = Some ([], Bdat n True)"
proof -
  have sp: "n_space1 N (CHR '' '' # show_nat n @ r) = Some (show_nat n @ r, '' '')" for r
  proof (rule space1_blank)
    show "\<not> blank (hd (show_nat n @ r)) \<or> show_nat n @ r = []"
      using show_nat_digits [of n] by (cases "show_nat n") (auto simp: blank_def is_ascii_digit_def)
  qed
  have dg: "n_digit1 N (show_nat n @ r) = Some (r, show_nat n)" if "r = [] \<or> \<not> is_ascii_digit (hd r)" for r
    using digit1_all [OF show_nat_not_Nil show_nat_digits that] .
  have l: "n_space1 N '' LAST'' = Some (''LAST'', '' '')" by (rule space1_blank) (simp add: blank_def)
  show "smtp_bdat_command N (''BDAT'' @ CHR '' '' # show_nat n) = Some ([], Bdat n False)"
    unfolding smtp_bdat_command_def p_bind_def smtp_tag_prefix
    using sp [of "[]"] dg [of "[]"] space1_None [of "[]"] assms
    by (simp add: p_opt_def p_preceded_def parse_uint_show_nat p_return_def)
  show "smtp_bdat_command N (''BDAT'' @ CHR '' '' # show_nat n @ '' LAST'') = Some ([], Bdat n True)"
    unfolding smtp_bdat_command_def p_bind_def smtp_tag_prefix
    using sp [of "'' LAST''"] dg [of "'' LAST''"] l smtp_tag_prefix(5) [of "[]"] assms
    by (simp add: p_opt_def p_preceded_def parse_uint_show_nat p_return_def is_ascii_digit_def)
qed

lemma auth_arg:
  assumes "m \<noteq> []" "list_all (\<lambda>c. is_ascii_alphanumeric c \<or> c = CHR ''-'') m"
  shows "smtp_auth_command N (''AUTH'' @ CHR '' '' # m) = Some ([], SmtpAuth m None)"
proof -
  have "n_take_while1 N (char_is (\<lambda>c. is_ascii_alphanumeric c \<or> c = CHR ''-'')) (m @ []) = Some ([], m)"
    by (rule take_ascii_class [OF assms]) (auto simp: byte_simps)
  moreover have "n_space1 N (CHR '' '' # m) = Some (m, '' '')"
    using assms by (intro space1_blank) (cases m, auto simp: blank_def byte_simps)
  ultimately show ?thesis
    unfolding smtp_auth_command_def p_bind_def smtp_tag_prefix
    using space1_None [of "[]"] by (simp add: p_opt_def p_preceded_def p_return_def)
qed

end

section \<open>Properties\<close>

text \<open>Replies survive the wire: an RFC 5321 client that reads the formatted reply line by
  line recovers exactly the lines of the reply, and leaves what follows on the connection.\<close>

theorem smtp_reply_roundtrip:
  assumes "sr_lines r \<noteq> []" "list_all (\<lambda>l. CHR 0x0A \<notin> set l) (sr_lines r)"
  shows "read_reply (sr_code r) (str_lines (smtp_format r @ rst)) = Some (sr_lines r, str_lines rst)"
  using read_format_lines [OF assms] by (simp add: smtp_format_def)

theorem smtp_reply_roundtrip_witness:
  "read_reply 250 (str_lines (smtp_format (ehlo_response ''h'' [''SIZE 5'', ''PIPELINING'']) @ ''220 x'')) =
     Some ([''h'', ''SIZE 5'', ''PIPELINING''], str_lines ''220 x'')"
  using smtp_reply_roundtrip [of "ehlo_response ''h'' [''SIZE 5'', ''PIPELINING'']" "''220 x''"]
  by (simp add: resp_simps)

lemma smtp_display_parses:
  assumes "nom_laws N" "printable_smtp c"
  shows "p_smtp_command N False (smtp_command_display c) = Some ([], c) \<or>
    (\<exists>r. p_smtp_command N False (smtp_command_display c) = Some (r, c))"
proof -
  note L = nom_laws.smtp_dispatch [OF assms(1), of False] nom_laws.smtp_dispatch_other [OF assms(1), of False]
  note args = nom_laws.space_domain [OF assms(1)] nom_laws.space_rest [OF assms(1)]
  have none: "p_preceded (n_space1 N) p [] = None" for p :: "string parser"
    using nom_laws.space1_None [OF assms(1), of "[]"] by (simp add: p_preceded_def)
  show ?thesis
  proof (cases c)
    case (MailFrom a ps)
    with assms(2) L(11) [of "CHR ''<'' # as_string a @ ''>''"] nom_laws.mail_arg(1) [OF assms(1), of a]
    show ?thesis by simp
  next
    case (Rcpt a ps)
    with assms(2) L(12) [of "CHR ''<'' # as_string a @ ''>''"] nom_laws.mail_arg(2) [OF assms(1), of a]
    show ?thesis by simp
  next
    case (Bdat n l)
    with assms(2) L(13) [of "CHR '' '' # show_nat n"] L(13) [of "CHR '' '' # show_nat n @ '' LAST''"]
      nom_laws.bdat_arg [OF assms(1), of n]
    show ?thesis by (cases l) simp_all
  next
    case (SmtpAuth m ir)
    with assms(2) L(14) [of "CHR '' '' # m"] nom_laws.auth_arg [OF assms(1), of m]
    show ?thesis by simp
  next
    case (Help t)
    with assms(2) L(10) [of "[]"] L(10) [where r = "CHR '' '' # the t"] args(2) none
    show ?thesis by (cases t) (simp_all add: p_opt_def)
  next
    case (Helo d)
    with assms(2) L(1) [of "CHR '' '' # d"] args(1) show ?thesis by simp
  next
    case (Ehlo d)
    with assms(2) L(2) [of "CHR '' '' # d"] args(1) show ?thesis by simp
  next
    case (Vrfy t)
    with assms(2) L(8) [of "CHR '' '' # t"] args(2) show ?thesis by simp
  next
    case (Expn t)
    with assms(2) L(9) [of "CHR '' '' # t"] args(2) show ?thesis by simp
  qed (use L(3,4,5,6,7) [of "[]"] in simp_all)
qed

lemma smtp_trim_display:
  assumes "printable_smtp c"
  shows "trim (smtp_command_display c) = smtp_command_display c"
proof (rule trim_graphic)
  show "smtp_command_display c \<noteq> []" "is_graphic (hd (smtp_command_display c))"
    by (cases c; simp add: is_graphic_def split: option.splits)+
  have arg: "is_graphic (last x)" if "x \<noteq> []" "list_all P x" "\<And>c. P c \<Longrightarrow> is_graphic c" for x P
    using that by (auto simp: list_all_iff)
  have dig: "is_graphic (last (show_nat n))" for n
    by (rule arg [OF show_nat_not_Nil show_nat_digits]) (simp add: byte_simps)
  have dom: "is_graphic (last d)" if "d \<noteq> []" "list_all domain_char d" for d
    by (rule arg [OF that]) (auto simp: domain_char_def byte_simps)
  have mech: "is_graphic (last d)" if "d \<noteq> []" "list_all (\<lambda>c. is_ascii_alphanumeric c \<or> c = CHR ''-'') d" for d
    by (rule arg [OF that]) (auto simp: byte_simps)
  have lits: "list_all is_graphic ''ATPS>''" by (simp add: is_graphic_def)
  show "is_graphic (last (smtp_command_display c))"
    using assms dom mech dig lits by (cases c) (auto simp: graphic_text_def split: option.splits)
qed

text \<open>Commands survive printing and parsing: every command whose printed form carries all its
  arguments, with well-formed addresses of the accepted characters and chunk sizes that fit,
  is read back by the plain parser as exactly that command.\<close>

theorem smtp_command_roundtrip:
  assumes "nom_laws N" "printable_smtp c"
  shows "smtp_parse_command N (smtp_command_display c) = Inr c"
  using smtp_display_parses [OF assms] smtp_trim_display [OF assms(2)]
  by (auto simp: smtp_parse_command_def smtp_parse_command_inner_def)

theorem smtp_command_roundtrip_witness:
  "smtp_parse_command nom_complete ''RCPT TO:<bob@x.org>'' =
     Inr (Rcpt \<lparr>local_part = ''bob'', addr_domain = Domain ''x.org''\<rparr> [])"
proof -
  let ?c = "Rcpt \<lparr>local_part = ''bob'', addr_domain = Domain ''x.org''\<rparr> []"
  have "printable_smtp ?c" by code_simp
  from smtp_command_roundtrip [OF complete.nom_laws_axioms this] show ?thesis by (simp add: as_string_def)
qed

text \<open>The null reverse-path is refused: whatever follows it, a \<^verbatim>\<open>MAIL FROM:<>\<close> line is not a
  command, with or without SMTPUTF8, so delivery status notifications cannot be submitted.\<close>

theorem smtp_null_sender_refused:
  assumes "nom_laws N"
  shows "p_smtp_command N smtputf8 (''MAIL FROM:<>'' @ r) = None"
proof -
  have t: "n_tag_no_case N ''MAIL FROM:'' (''MAIL FROM:'' @ ''<>'' @ r) = Some (''<>'' @ r, ''MAIL FROM:'')"
    by (rule nom_laws.smtp_tag_prefix(1) [OF assms])
  have u: "utf8_chars (''>'' @ r) = [''>''] @ utf8_chars r"
    by (simp add: utf8_chars_ascii_Cons)
  have "n_take_while1 N P (''>'' @ r) = None" if "\<not> P ''>''" for P
    unfolding nom_laws.take_while1 [OF assms] ref_take_while1_def u Let_def using that by simp
  then have "p_mailbox N smtputf8 (''>'' @ r) = None"
    by (auto simp: p_mailbox_def p_map_res_def char_is_def byte_simps)
  then have "p_reverse_path N smtputf8 (''<>'' @ r) = None"
    by (simp add: p_reverse_path_def p_delimited_def nom_laws.char [OF assms] ref_char_def)
  then have "smtp_mail_command N smtputf8 (''MAIL FROM:'' @ ''<>'' @ r) = None"
    unfolding smtp_mail_command_def p_bind_def t
    by (simp add: nom_laws.space0 [OF assms] blank_def)
  then show ?thesis
    using nom_laws.smtp_dispatch_other(1) [OF assms, of smtputf8 "''<>'' @ r"] by simp
qed

theorem smtp_null_sender_refused_witness:
  "p_smtp_command nom_complete False ''MAIL FROM:<> SIZE=5'' = None"
  using smtp_null_sender_refused [OF complete.nom_laws_axioms, of False "'' SIZE=5''"] by simp

end
