(* ===== verification/Smtp_Bdat.thy ===== *)
theory Smtp_Bdat
  imports Rusmes_Prelude
begin

text \<open>
  Model of \<^verbatim>\<open>crates/rusmes-smtp/src/bdat.rs\<close>: the arguments of the BDAT command and the
  accumulator of the chunks of one message.  Sizes are \<^verbatim>\<open>usize\<close>; the sums wrap at 64 bits.
  The lemmas show that the accumulator holds exactly the accepted chunks in order, never more
  than its limit, and that a message arrives unchanged however it is cut into chunks.
\<close>

section \<open>Command\<close>

record bdat_command =
  bc_chunk_size :: nat
  bc_last :: bool

datatype bdat_error =
    MissingChunkSize
  | InvalidChunkSize string
  | ZeroChunkSize
  | InvalidSyntax
  | MessageTooLarge nat nat
  | AlreadyComplete
  | Incomplete
  | ChunkSizeMismatch nat nat

fun bdat_error_display :: "bdat_error \<Rightarrow> string" where
  "bdat_error_display MissingChunkSize = ''Missing chunk size''"
| "bdat_error_display (InvalidChunkSize s) = ''Invalid chunk size: '' @ s"
| "bdat_error_display ZeroChunkSize = ''Chunk size cannot be zero''"
| "bdat_error_display InvalidSyntax = ''Invalid BDAT syntax''"
| "bdat_error_display (MessageTooLarge current max_size) =
     ''Message too large: '' @ show_nat current @ '' bytes exceeds '' @ show_nat max_size @ '' bytes''"
| "bdat_error_display AlreadyComplete = ''Message already complete''"
| "bdat_error_display Incomplete = ''Message incomplete (no LAST chunk)''"
| "bdat_error_display (ChunkSizeMismatch expected actual) =
     ''Chunk size mismatch: expected '' @ show_nat expected @ '' bytes, got '' @ show_nat actual"

definition BdatCommand_parse :: "string \<Rightarrow> bdat_error + bdat_command" where
  "BdatCommand_parse args =
     (let parts = split_whitespace args in
      if parts = [] then Inl MissingChunkSize
      else rbind (ok_or (InvalidChunkSize (parts ! 0)) (parse_uint usize_max (parts ! 0))) (\<lambda>chunk_size.
        if chunk_size = 0 then Inl ZeroChunkSize
        else
          let is_last = (1 < length parts \<and> eq_ignore_ascii_case (parts ! 1) ''LAST'') in
          if 2 < length parts \<or> (length parts = 2 \<and> \<not> is_last) then Inl InvalidSyntax
          else Inr \<lparr>bc_chunk_size = chunk_size, bc_last = is_last\<rparr>))"

definition bdat_command_display :: "bdat_command \<Rightarrow> string" where
  "bdat_command_display c =
     (if bc_last c then ''BDAT '' @ show_nat (bc_chunk_size c) @ '' LAST''
      else ''BDAT '' @ show_nat (bc_chunk_size c))"

section \<open>Accumulator\<close>

record bdat_state =
  bs_chunks :: string
  bs_total_size :: nat
  bs_max_size :: nat
  bs_complete :: bool

definition BdatState_new :: "nat \<Rightarrow> bdat_state" where
  "BdatState_new max_size =
     \<lparr>bs_chunks = [], bs_total_size = 0, bs_max_size = max_size, bs_complete = False\<rparr>"

definition add_chunk :: "bdat_state \<Rightarrow> string \<Rightarrow> bool \<Rightarrow> bdat_state \<times> (bdat_error + unit)" where
  "add_chunk s data is_last =
     (if bs_complete s then (s, Inl AlreadyComplete)
      else
        let chunk_size = length data in
        if bs_max_size s < usize_add (bs_total_size s) chunk_size
        then (s, Inl (MessageTooLarge (usize_add (bs_total_size s) chunk_size) (bs_max_size s)))
        else (s\<lparr>bs_chunks := bs_chunks s @ data,
                bs_total_size := usize_add (bs_total_size s) chunk_size,
                bs_complete := is_last\<rparr>, Inr ()))"

definition add_chunk_with_validation ::
    "bdat_state \<Rightarrow> string \<Rightarrow> nat \<Rightarrow> bool \<Rightarrow> bdat_state \<times> (bdat_error + unit)" where
  "add_chunk_with_validation s data expected_size is_last =
     (if length data \<noteq> expected_size
      then (s, Inl (ChunkSizeMismatch expected_size (length data)))
      else add_chunk s data is_last)"

definition into_message :: "bdat_state \<Rightarrow> bdat_error + string" where
  "into_message s = (if \<not> bs_complete s then Inl Incomplete else Inr (bs_chunks s))"

definition bdat_reset :: "bdat_state \<Rightarrow> bdat_state" where
  "bdat_reset s = s\<lparr>bs_chunks := [], bs_total_size := 0, bs_complete := False\<rparr>"

text \<open>The operations of a client of the accumulator, in one step function: a chunk with the size
  its command declared, or the reset before the next message.\<close>

datatype bdat_op = Chunk bdat_command string | ResetChunks

fun bdat_step :: "bdat_state \<Rightarrow> bdat_op \<Rightarrow> bdat_state \<times> (bdat_error + unit)" where
  "bdat_step s (Chunk c data) = add_chunk_with_validation s data (bc_chunk_size c) (bc_last c)"
| "bdat_step s ResetChunks = (bdat_reset s, Inr ())"

section \<open>Invariant\<close>

text \<open>A \<^verbatim>\<open>Vec<u8>\<close> holds at most \<^verbatim>\<open>isize::MAX\<close> bytes.\<close>

definition isize_max :: nat where
  "isize_max = 2 ^ 63 - 1"

definition bdat_inv :: "nat \<Rightarrow> bdat_state \<Rightarrow> bool" where
  "bdat_inv m s \<longleftrightarrow>
     bs_max_size s = m \<and> bs_total_size s = length (bs_chunks s) \<and> length (bs_chunks s) \<le> m"

lemma usize_add_vec: "a \<le> isize_max \<Longrightarrow> b \<le> isize_max \<Longrightarrow> usize_add a b = a + b"
  by (rule usize_add_exact) (simp add: usize_max_def isize_max_def)

lemma add_chunk_cases:
  assumes "bdat_inv m s" "m \<le> isize_max" "length data \<le> isize_max"
  shows "add_chunk s data is_last =
    (if bs_complete s then (s, Inl AlreadyComplete)
     else if length (bs_chunks s @ data) \<le> m
     then (s\<lparr>bs_chunks := bs_chunks s @ data, bs_total_size := length (bs_chunks s @ data),
             bs_complete := is_last\<rparr>, Inr ())
     else (s, Inl (MessageTooLarge (length (bs_chunks s @ data)) m)))"
proof -
  have "usize_add (bs_total_size s) (length data) = length (bs_chunks s @ data)"
    using assms by (simp add: bdat_inv_def usize_add_vec)
  then show ?thesis
    using assms(1) by (auto simp: add_chunk_def bdat_inv_def Let_def)
qed

fun op_fits :: "bdat_op \<Rightarrow> bool" where
  "op_fits (Chunk c data) = (length data \<le> isize_max)"
| "op_fits ResetChunks = True"

lemma bdat_step_inv:
  assumes "bdat_inv m s" "m \<le> isize_max" "op_fits ev"
  shows "bdat_inv m (fst (bdat_step s ev))"
proof (cases ev)
  case (Chunk c data)
  with assms have "length data \<le> isize_max" by simp
  with Chunk add_chunk_cases [OF assms(1,2) this] assms(1) show ?thesis
    by (auto simp: add_chunk_with_validation_def bdat_inv_def)
next
  case ResetChunks
  with assms(1) show ?thesis by (simp add: bdat_reset_def bdat_inv_def)
qed

text \<open>The bytes of the accepted chunks since the last reset.\<close>

fun accepted :: "string \<Rightarrow> (bdat_op \<times> (bdat_error + unit)) list \<Rightarrow> string" where
  "accepted acc [] = acc"
| "accepted acc ((Chunk c data, Inr _) # es) = accepted (acc @ data) es"
| "accepted acc ((Chunk c data, Inl _) # es) = accepted acc es"
| "accepted acc ((ResetChunks, _) # es) = accepted [] es"

lemma accepted_Cons: "accepted (accepted a [e]) es = accepted a (e # es)"
  by (cases e; cases "fst e"; cases "snd e") auto

lemma bdat_run_contents:
  assumes "bdat_inv m s" "m \<le> isize_max" "list_all op_fits evs"
  shows "bdat_inv m (fst (run bdat_step s evs)) \<and>
    bs_chunks (fst (run bdat_step s evs)) = accepted (bs_chunks s) (zip evs (snd (run bdat_step s evs)))"
  using assms(1,3)
proof (induction evs arbitrary: s)
  case (Cons ev evs)
  obtain s' r where st: "bdat_step s ev = (s', r)" by (cases "bdat_step s ev")
  with Cons.prems have inv: "bdat_inv m s'"
    using bdat_step_inv [OF Cons.prems(1) assms(2), of ev] by simp
  have chunks: "bs_chunks s' = accepted (bs_chunks s) [(ev, r)]"
  proof (cases ev)
    case (Chunk c data)
    with Cons.prems have "length data \<le> isize_max" by simp
    from add_chunk_cases [OF Cons.prems(1) assms(2) this, of "bc_last c"] st Chunk show ?thesis
      by (auto simp: add_chunk_with_validation_def split: if_splits)
  next
    case ResetChunks
    with st show ?thesis by (auto simp: bdat_reset_def)
  qed
  show ?case
    using Cons.IH [OF inv] Cons.prems(2) st unfolding chunks accepted_Cons
    by (simp add: case_prod_beta)
qed simp

text \<open>The chunks of a message: all but the final one without the LAST flag.\<close>

definition chunk_ops :: "string list \<Rightarrow> bdat_op list" where
  "chunk_ops parts =
     map (\<lambda>p. Chunk \<lparr>bc_chunk_size = length p, bc_last = False\<rparr> p) (butlast parts) @
     [Chunk \<lparr>bc_chunk_size = length (last parts), bc_last = True\<rparr> (last parts)]"

lemma run_open_chunks:
  assumes "bdat_inv m s" "\<not> bs_complete s" "m \<le> isize_max"
    and "length (bs_chunks s) + length (concat parts) \<le> m"
  shows "run bdat_step s (map (\<lambda>p. Chunk \<lparr>bc_chunk_size = length p, bc_last = False\<rparr> p) parts) =
    (s\<lparr>bs_chunks := bs_chunks s @ concat parts,
       bs_total_size := length (bs_chunks s @ concat parts)\<rparr>, replicate (length parts) (Inr ()))"
  using assms(1,2,4)
proof (induction parts arbitrary: s)
  case Nil
  then show ?case by (simp add: bdat_inv_def)
next
  case (Cons p parts)
  have fit: "length p \<le> isize_max" "length (bs_chunks s @ p) \<le> m"
    using Cons.prems(3) assms(3) by simp_all
  let ?s = "s\<lparr>bs_chunks := bs_chunks s @ p, bs_total_size := length (bs_chunks s @ p), bs_complete := False\<rparr>"
  have st: "bdat_step s (Chunk \<lparr>bc_chunk_size = length p, bc_last = False\<rparr> p) = (?s, Inr ())"
    using add_chunk_cases [OF Cons.prems(1) assms(3) fit(1)] Cons.prems(2) fit(2)
    by (simp add: add_chunk_with_validation_def)
  have inv: "bdat_inv m ?s" using Cons.prems(1) fit(2) by (simp add: bdat_inv_def)
  have "length (bs_chunks ?s) + length (concat parts) \<le> m" using Cons.prems(3) by simp
  from Cons.IH [OF inv _ this] st Cons.prems(2) show ?case by simp
qed

section \<open>Properties\<close>

text \<open>BDAT arguments round trip: for every size a BDAT command can carry, parsing what the
  display form prints after the command word gives the command back.\<close>

theorem bdat_command_roundtrip:
  assumes "0 < bc_chunk_size c" "bc_chunk_size c \<le> usize_max"
  shows "map_option BdatCommand_parse (strip_prefix ''BDAT '' (bdat_command_display c)) = Some (Inr c)"
proof -
  have n: "list_all is_graphic (show_nat (bc_chunk_size c))"
    by (rule digits_graphic) (rule show_nat_digits)
  have l: "list_all is_graphic ''LAST''" by (simp add: byte_simps)
  have args: "strip_prefix ''BDAT '' (bdat_command_display c) =
      Some (show_nat (bc_chunk_size c) @ (if bc_last c then CHR '' '' # ''LAST'' else []))"
    unfolding bdat_command_display_def by (simp add: strip_prefix_def starts_with_def)
  show ?thesis
  proof (cases "bc_last c")
    case True
    then show ?thesis
      using args assms split_whitespace_Cons [OF n, of "''LAST''"] split_whitespace_word [OF l]
      by (simp add: BdatCommand_parse_def parse_uint_show_nat)
  next
    case False
    then show ?thesis
      using args assms split_whitespace_word [OF n]
      by (simp add: BdatCommand_parse_def parse_uint_show_nat)
  qed
qed

theorem bdat_command_roundtrip_witness:
  "map_option BdatCommand_parse
     (strip_prefix ''BDAT '' (bdat_command_display \<lparr>bc_chunk_size = 1024, bc_last = True\<rparr>)) =
   Some (Inr \<lparr>bc_chunk_size = 1024, bc_last = True\<rparr>)"
  using bdat_command_roundtrip [of "\<lparr>bc_chunk_size = 1024, bc_last = True\<rparr>"]
  by (simp add: usize_max_def)

text \<open>The BDAT accumulator after any sequence of chunks and resets, with a limit that a byte
  vector can reach: its contents are the accepted chunks since the last reset in order, its
  size counter is their number of bytes (no wrap-around), and both stay within the limit.\<close>

theorem bdat_accumulates_accepted_chunks:
  assumes "m \<le> isize_max" "list_all op_fits evs"
  defines "s \<equiv> fst (run bdat_step (BdatState_new m) evs)"
  shows "bs_chunks s = accepted [] (zip evs (snd (run bdat_step (BdatState_new m) evs))) \<and>
    bs_total_size s = length (bs_chunks s) \<and> length (bs_chunks s) \<le> m"
proof -
  have "bdat_inv m (BdatState_new m)" and nil: "bs_chunks (BdatState_new m) = []"
    by (simp_all add: bdat_inv_def BdatState_new_def)
  from bdat_run_contents [OF this(1) assms(1,2)] show ?thesis
    unfolding s_def nil bdat_inv_def by blast
qed

theorem bdat_accumulates_accepted_chunks_witness:
  "bs_chunks (fst (run bdat_step (BdatState_new 4)
     [Chunk \<lparr>bc_chunk_size = 2, bc_last = False\<rparr> ''ab'', Chunk \<lparr>bc_chunk_size = 3, bc_last = False\<rparr> ''cde'',
      Chunk \<lparr>bc_chunk_size = 1, bc_last = True\<rparr> ''f''])) = ''abf''"
  using bdat_accumulates_accepted_chunks
    [of 4 "[Chunk \<lparr>bc_chunk_size = 2, bc_last = False\<rparr> ''ab'', Chunk \<lparr>bc_chunk_size = 3, bc_last = False\<rparr> ''cde'',
      Chunk \<lparr>bc_chunk_size = 1, bc_last = True\<rparr> ''f'']"]
  by (simp add: isize_max_def add_chunk_with_validation_def add_chunk_def usize_add_def BdatState_new_def)

text \<open>A message that fits is transferred unchanged however it is cut into chunks: every chunk
  is accepted and the accumulator delivers the concatenation; without the chunk flagged LAST it
  delivers nothing.\<close>

theorem bdat_any_chunking_delivers:
  assumes "parts \<noteq> []" "length (concat parts) \<le> m" "m \<le> isize_max"
  shows "into_message (fst (run bdat_step (BdatState_new m) (chunk_ops parts))) = Inr (concat parts) \<and>
    snd (run bdat_step (BdatState_new m) (chunk_ops parts)) = replicate (length parts) (Inr ()) \<and>
    into_message (fst (run bdat_step (BdatState_new m) (butlast (chunk_ops parts)))) = Inl Incomplete"
proof -
  let ?n = "BdatState_new m"
  have inv: "bdat_inv m ?n" and nc: "\<not> bs_complete ?n" and nil: "bs_chunks ?n = []"
    by (simp_all add: bdat_inv_def BdatState_new_def)
  have parts: "concat parts = concat (butlast parts) @ last parts"
    using assms(1) by (metis append_butlast_last_id append_Nil2 concat.simps concat_append)
  let ?s = "?n\<lparr>bs_chunks := concat (butlast parts), bs_total_size := length (concat (butlast parts))\<rparr>"
  have opn: "run bdat_step ?n (map (\<lambda>p. Chunk \<lparr>bc_chunk_size = length p, bc_last = False\<rparr> p) (butlast parts)) =
      (?s, replicate (length (butlast parts)) (Inr ()))"
    using run_open_chunks [OF inv nc assms(3), of "butlast parts"] assms(2) parts nil by simp
  have invs: "bdat_inv m ?s" using assms(2) parts inv by (simp add: bdat_inv_def)
  have fit: "length (last parts) \<le> isize_max" using assms(2,3) parts by simp
  have fin: "bdat_step ?s (Chunk \<lparr>bc_chunk_size = length (last parts), bc_last = True\<rparr> (last parts)) =
      (?s\<lparr>bs_chunks := concat parts, bs_total_size := length (concat parts), bs_complete := True\<rparr>, Inr ())"
    using add_chunk_cases [OF invs assms(3) fit, of True] assms(2) parts nc
    by (simp add: add_chunk_with_validation_def)
  have len: "replicate (length (butlast parts)) (Inr ()) @ [Inr ()] = replicate (length parts) (Inr () :: bdat_error + unit)"
    using assms(1) by (cases "length parts") (simp_all add: replicate_append_same)
  have inc: "\<not> bs_complete ?s" using nc by simp
  show ?thesis
    unfolding chunk_ops_def run_append opn butlast_append
    using fin len opn inc by (simp add: into_message_def)
qed

theorem bdat_any_chunking_delivers_witness:
  "into_message (fst (run bdat_step (BdatState_new 10) (chunk_ops [''ab'', ''c'']))) = Inr ''abc''"
  using bdat_any_chunking_delivers [of "[''ab'', ''c'']" 10] by (simp add: isize_max_def)

end
