(* ===== verification/Rate_Limit.thy ===== *)
theory Rate_Limit
  imports Net_Addr "HOL-Library.AList"
begin

text \<open>
  Model of \<^verbatim>\<open>crates/rusmes-core/src/rate_limit.rs\<close>: the message buckets keyed by IP, sender or
  both, the connection counters, hot reload of the configuration and the snapshot of the
  buckets.  The wall clock (seconds) and the monotonic clock are arguments of the calls that
  read them.  The locale \<open>quota\<close> is the contract of a counter with a limit; the bucket of one
  key inside one window and the connection counter of one address are instances of it.
\<close>

section \<open>A counter with a limit\<close>

locale quota =
  fixes ask :: "'s \<Rightarrow> 'e \<Rightarrow> 's \<times> bool"
    and used :: "'s \<Rightarrow> nat"
    and limit :: nat
    and live :: "'s \<Rightarrow> bool"
    and inside :: "'e \<Rightarrow> bool"
  assumes ask_admit: "live s \<Longrightarrow> inside e \<Longrightarrow> used s < limit \<Longrightarrow>
      snd (ask s e) \<and> used (fst (ask s e)) = Suc (used s)"
    and ask_deny: "live s \<Longrightarrow> inside e \<Longrightarrow> limit \<le> used s \<Longrightarrow>
      \<not> snd (ask s e) \<and> used (fst (ask s e)) = used s"
    and ask_live: "live s \<Longrightarrow> inside e \<Longrightarrow> live (fst (ask s e))"
begin

lemma admitted:
  "live s \<Longrightarrow> list_all inside es \<Longrightarrow>
     length (filter (\<lambda>b. b) (snd (run ask s es))) = min (length es) (limit - used s)"
proof (induction es arbitrary: s)
  case (Cons e es)
  obtain s' b where st: "ask s e = (s', b)" by (cases "ask s e")
  from Cons.prems have "live s'" using ask_live [of s e] st by simp
  then have IH: "length (filter (\<lambda>b. b) (snd (run ask s' es))) = min (length es) (limit - used s')"
    using Cons by simp
  show ?case
    using ask_admit [of s e] ask_deny [of s e] Cons.prems st IH
    by (cases "used s < limit") (auto simp: case_prod_beta)
qed simp

end

section \<open>State\<close>

datatype rate_limit_key = Ip ip_addr | Sender string | IpAndSender ip_addr string

fun to_key_string :: "rate_limit_key \<Rightarrow> string" where
  "to_key_string (Ip ip) = ''ip:'' @ ip_display ip"
| "to_key_string (Sender addr) = ''sender:'' @ addr"
| "to_key_string (IpAndSender ip addr) = ''ip+sender:'' @ ip_display ip @ '':'' @ addr"

record rate_limit_config =
  max_connections_per_ip :: nat
  max_messages_per_window :: nat
  window_duration :: nat
  persist_interval_secs :: "nat option"
  runtime_dir :: "string option"

definition rate_limit_config_default :: rate_limit_config where
  "rate_limit_config_default =
     \<lparr>max_connections_per_ip = 10, max_messages_per_window = 100, window_duration = 3600,
      persist_interval_secs = Some 60, runtime_dir = None\<rparr>"

record bucket_entry =
  be_count :: nat
  be_window_start_secs :: nat

record connection_entry =
  ce_count :: nat
  ce_first_seen :: nat

record rate_limiter =
  rl_config :: rate_limit_config
  rl_connections :: "(ip_addr \<times> connection_entry) list"
  rl_buckets :: "(string \<times> bucket_entry) list"

definition BucketEntry_new :: "nat \<Rightarrow> bucket_entry" where
  "BucketEntry_new now = \<lparr>be_count = 1, be_window_start_secs = now\<rparr>"

definition is_expired :: "nat \<Rightarrow> bucket_entry \<Rightarrow> nat \<Rightarrow> bool" where
  "is_expired now entry window = (window \<le> now - be_window_start_secs entry)"

definition RateLimiter_new :: "rate_limit_config \<Rightarrow> rate_limiter" where
  "RateLimiter_new config = \<lparr>rl_config = config, rl_connections = [], rl_buckets = []\<rparr>"

section \<open>Operations\<close>

definition update_config :: "rate_limit_config \<Rightarrow> rate_limiter \<Rightarrow> rate_limiter" where
  "update_config config rl = rl\<lparr>rl_config := config\<rparr>"

definition allow_connection :: "nat \<Rightarrow> ip_addr \<Rightarrow> rate_limiter \<Rightarrow> rate_limiter \<times> bool" where
  "allow_connection now ip rl =
     (let cfg = rl_config rl;
          conns = filter (\<lambda>(_, entry). now - ce_first_seen entry < window_duration cfg) (rl_connections rl)
      in case map_of conns ip of
           Some entry \<Rightarrow>
             (if max_connections_per_ip cfg \<le> ce_count entry
              then (rl\<lparr>rl_connections := conns\<rparr>, False)
              else (rl\<lparr>rl_connections := AList.update ip (entry\<lparr>ce_count := ce_count entry + 1\<rparr>) conns\<rparr>, True))
         | None \<Rightarrow>
             (rl\<lparr>rl_connections := AList.update ip \<lparr>ce_count = 1, ce_first_seen = now\<rparr> conns\<rparr>, True))"

definition release_connection :: "ip_addr \<Rightarrow> rate_limiter \<Rightarrow> rate_limiter" where
  "release_connection ip rl =
     (case map_of (rl_connections rl) ip of
        None \<Rightarrow> rl
      | Some entry \<Rightarrow>
          (let count = (if 0 < ce_count entry then ce_count entry - 1 else ce_count entry)
           in if count = 0 then rl\<lparr>rl_connections := AList.delete ip (rl_connections rl)\<rparr>
              else rl\<lparr>rl_connections := AList.update ip (entry\<lparr>ce_count := count\<rparr>) (rl_connections rl)\<rparr>))"

definition allow_message_keyed :: "nat \<Rightarrow> rate_limit_key \<Rightarrow> rate_limiter \<Rightarrow> rate_limiter \<times> bool" where
  "allow_message_keyed now key rl =
     (let max_messages = max_messages_per_window (rl_config rl);
          window = window_duration (rl_config rl);
          key_str = to_key_string key
      in case map_of (rl_buckets rl) key_str of
           Some entry \<Rightarrow>
             (if is_expired now entry window
              then (rl\<lparr>rl_buckets := AList.update key_str (BucketEntry_new now) (rl_buckets rl)\<rparr>, True)
              else if max_messages \<le> be_count entry then (rl, False)
              else (rl\<lparr>rl_buckets :=
                       AList.update key_str (entry\<lparr>be_count := be_count entry + 1\<rparr>) (rl_buckets rl)\<rparr>, True))
         | None \<Rightarrow>
             (rl\<lparr>rl_buckets := AList.update key_str (BucketEntry_new now) (rl_buckets rl)\<rparr>, True))"

definition allow_message :: "nat \<Rightarrow> ip_addr \<Rightarrow> rate_limiter \<Rightarrow> rate_limiter \<times> bool" where
  "allow_message now ip rl = allow_message_keyed now (Ip ip) rl"

definition allow_message_from_sender :: "nat \<Rightarrow> string \<Rightarrow> rate_limiter \<Rightarrow> rate_limiter \<times> bool" where
  "allow_message_from_sender now sender rl = allow_message_keyed now (Sender sender) rl"

definition allow_message_ip_and_sender ::
    "nat \<Rightarrow> ip_addr \<Rightarrow> string \<Rightarrow> rate_limiter \<Rightarrow> rate_limiter \<times> bool" where
  "allow_message_ip_and_sender now ip sender rl = allow_message_keyed now (IpAndSender ip sender) rl"

definition get_connection_count :: "ip_addr \<Rightarrow> rate_limiter \<Rightarrow> nat" where
  "get_connection_count ip rl =
     (case map_of (rl_connections rl) ip of None \<Rightarrow> 0 | Some e \<Rightarrow> ce_count e)"

definition get_message_count_keyed :: "rate_limit_key \<Rightarrow> rate_limiter \<Rightarrow> nat" where
  "get_message_count_keyed key rl =
     (case map_of (rl_buckets rl) (to_key_string key) of None \<Rightarrow> 0 | Some e \<Rightarrow> be_count e)"

text \<open>The snapshot file holds the buckets; restoring replaces them.  Reading and writing the file
  as JSON is not part of the model.\<close>

definition snapshot_buckets :: "rate_limiter \<Rightarrow> (string \<times> bucket_entry) list" where
  "snapshot_buckets rl = rl_buckets rl"

definition restore_buckets :: "(string \<times> bucket_entry) list option \<Rightarrow> rate_limiter \<Rightarrow> rate_limiter" where
  "restore_buckets file rl =
     (case file of None \<Rightarrow> rl | Some messages \<Rightarrow> rl\<lparr>rl_buckets := messages\<rparr>)"

section \<open>One key inside one window\<close>

definition bucket_live :: "rate_limit_config \<Rightarrow> string \<Rightarrow> nat \<Rightarrow> rate_limiter \<Rightarrow> bool" where
  "bucket_live cfg k start rl \<longleftrightarrow>
     rl_config rl = cfg \<and>
     (\<exists>e. map_of (rl_buckets rl) k = Some e \<and> be_window_start_secs e = start)"

abbreviation ask_message :: "rate_limit_key \<Rightarrow> rate_limiter \<Rightarrow> nat \<Rightarrow> rate_limiter \<times> bool" where
  "ask_message k rl now \<equiv> allow_message_keyed now k rl"

interpretation bucket: quota
  "ask_message k" "get_message_count_keyed k" "max_messages_per_window cfg"
  "bucket_live cfg (to_key_string k) start" "\<lambda>now. now - start < window_duration cfg"
  for k cfg start
  by unfold_locales
    (auto simp: bucket_live_def allow_message_keyed_def get_message_count_keyed_def is_expired_def
      Let_def update_conv')

lemma allow_message_other_key:
  "to_key_string k' \<noteq> to_key_string k \<Longrightarrow>
     get_message_count_keyed k' (fst (allow_message_keyed now k rl)) = get_message_count_keyed k' rl"
  by (auto simp: allow_message_keyed_def get_message_count_keyed_def Let_def update_conv' split: option.splits)

lemma allow_message_first:
  assumes "map_of (rl_buckets rl) (to_key_string k) = None \<or>
    (\<exists>e. map_of (rl_buckets rl) (to_key_string k) = Some e \<and> is_expired now e (window_duration (rl_config rl)))"
  shows "snd (allow_message_keyed now k rl)"
    and "bucket_live (rl_config rl) (to_key_string k) now (fst (allow_message_keyed now k rl))"
    and "get_message_count_keyed k (fst (allow_message_keyed now k rl)) = 1"
  using assms
  by (auto simp: allow_message_keyed_def bucket_live_def get_message_count_keyed_def BucketEntry_new_def
      Let_def update_conv')

section \<open>Connections of one address\<close>

definition conn_live :: "rate_limit_config \<Rightarrow> ip_addr \<Rightarrow> nat \<Rightarrow> rate_limiter \<Rightarrow> bool" where
  "conn_live cfg ip start rl \<longleftrightarrow>
     rl_config rl = cfg \<and> distinct (map fst (rl_connections rl)) \<and>
     (\<exists>e. map_of (rl_connections rl) ip = Some e \<and> ce_first_seen e = start)"

lemma map_of_filter_distinct:
  "distinct (map fst xs) \<Longrightarrow>
     map_of (filter (\<lambda>(_, v). P v) xs) k = (case map_of xs k of Some v \<Rightarrow> if P v then Some v else None | None \<Rightarrow> None)"
proof (induction xs)
  case (Cons x xs)
  obtain a b where "x = (a, b)" by (cases x)
  moreover have "map_of xs a = None" if "a \<notin> fst ` set xs" using that by (simp add: map_of_eq_None_iff)
  ultimately show ?case using Cons by (auto split: option.splits)
qed simp

lemma distinct_filter_keys: "distinct (map fst xs) \<Longrightarrow> distinct (map fst (filter P xs))"
  by (induction xs) auto

lemma conn_map_of:
  "distinct (map fst (rl_connections rl)) \<Longrightarrow>
     map_of (filter (\<lambda>(_, entry). P entry) (rl_connections rl)) ip =
       (case map_of (rl_connections rl) ip of Some v \<Rightarrow> if P v then Some v else None | None \<Rightarrow> None)"
  by (rule map_of_filter_distinct)

text \<open>A request while the entry is in its window, in the two cases of the counter.\<close>

lemma allow_connection_live:
  assumes "conn_live cfg ip start rl" "now - start < window_duration cfg"
  shows "conn_live cfg ip start (fst (allow_connection now ip rl))"
    and "snd (allow_connection now ip rl) \<longleftrightarrow> get_connection_count ip rl < max_connections_per_ip cfg"
    and "get_connection_count ip (fst (allow_connection now ip rl)) =
      (if get_connection_count ip rl < max_connections_per_ip cfg then Suc (get_connection_count ip rl)
       else get_connection_count ip rl)"
proof -
  from assms(1) obtain e where e: "map_of (rl_connections rl) ip = Some e" "ce_first_seen e = start"
    and cfg: "rl_config rl = cfg" and d: "distinct (map fst (rl_connections rl))"
    by (auto simp: conn_live_def)
  let ?conns = "filter (\<lambda>(_, entry). now - ce_first_seen entry < window_duration cfg) (rl_connections rl)"
  have m: "map_of ?conns ip = Some e"
    using conn_map_of [OF d, of "\<lambda>e. now - ce_first_seen e < window_duration cfg" ip] e assms(2) by simp
  have d': "distinct (map fst ?conns)" by (rule distinct_filter_keys [OF d])
  have step: "allow_connection now ip rl =
      (if max_connections_per_ip cfg \<le> ce_count e then (rl\<lparr>rl_connections := ?conns\<rparr>, False)
       else (rl\<lparr>rl_connections := AList.update ip (e\<lparr>ce_count := ce_count e + 1\<rparr>) ?conns\<rparr>, True))"
    unfolding allow_connection_def Let_def cfg m by simp
  have count: "get_connection_count ip rl = ce_count e" by (simp add: get_connection_count_def e)
  show "conn_live cfg ip start (fst (allow_connection now ip rl))"
    unfolding step conn_live_def using cfg d' m e
    by (auto simp: update_conv' distinct_update simp del: map_of_eq_Some_iff)
  show "snd (allow_connection now ip rl) \<longleftrightarrow> get_connection_count ip rl < max_connections_per_ip cfg"
    unfolding step count by simp
  show "get_connection_count ip (fst (allow_connection now ip rl)) =
      (if get_connection_count ip rl < max_connections_per_ip cfg then Suc (get_connection_count ip rl)
       else get_connection_count ip rl)"
    unfolding step count using m by (simp add: get_connection_count_def update_conv')
qed

interpretation connections: quota
  "\<lambda>rl now. allow_connection now ip rl" "get_connection_count ip" "max_connections_per_ip cfg"
  "conn_live cfg ip start" "\<lambda>now. now - start < window_duration cfg"
  for ip cfg start
  by unfold_locales
    (simp_all add: allow_connection_live)

section \<open>Properties\<close>

text \<open>C39: Exact admission per window: starting when a key has no bucket or an expired one, of
  \<open>n\<close> further requests that fall into the window opened by the first one exactly
  \<open>min n (max 1 limit)\<close> are admitted, whatever their order in time; a limit of zero still admits
  the first.\<close>

theorem rate_limit_window_exact:
  assumes fresh: "map_of (rl_buckets rl) (to_key_string k) = None \<or>
      (\<exists>e. map_of (rl_buckets rl) (to_key_string k) = Some e \<and>
           is_expired t e (window_duration (rl_config rl)))"
    and inside: "list_all (\<lambda>now. now - t < window_duration (rl_config rl)) ts"
  shows "length (filter (\<lambda>b. b) (snd (run (ask_message k) rl (t # ts)))) =
    min (length (t # ts)) (max 1 (max_messages_per_window (rl_config rl)))"
proof -
  note first = allow_message_first [OF fresh]
  have "length (filter (\<lambda>b. b) (snd (run (ask_message k) (fst (allow_message_keyed t k rl)) ts))) =
      min (length ts) (max_messages_per_window (rl_config rl) - 1)"
    using bucket.admitted [OF first(2) inside] first(3) by simp
  with first(1) show ?thesis by (simp add: case_prod_beta)
qed

definition demo_limiter :: rate_limiter where
  "demo_limiter = RateLimiter_new (rate_limit_config_default\<lparr>max_messages_per_window := 2\<rparr>)"

theorem rate_limit_window_exact_witness:
  "length (filter (\<lambda>b. b) (snd (run (ask_message (Sender ''a@b'')) demo_limiter [1000, 1001, 4599, 2000]))) = 2"
  using rate_limit_window_exact [of demo_limiter "Sender ''a@b''" 1000 "[1001, 4599, 2000]"]
  by (simp add: demo_limiter_def RateLimiter_new_def rate_limit_config_default_def)

text \<open>The three kinds of keys never share a bucket, different senders never share one, and a
  request only touches the bucket of its own key.\<close>

theorem rate_limit_keys_independent:
  "to_key_string (Ip ip) \<noteq> to_key_string (Sender a) \<and>
   to_key_string (Ip ip) \<noteq> to_key_string (IpAndSender ip' a) \<and>
   to_key_string (Sender a) \<noteq> to_key_string (IpAndSender ip' b) \<and>
   (to_key_string (Sender a) = to_key_string (Sender b) \<longrightarrow> a = b) \<and>
   (to_key_string k' \<noteq> to_key_string k \<longrightarrow>
      get_message_count_keyed k' (fst (allow_message_keyed now k rl)) = get_message_count_keyed k' rl)"
  by (auto simp: allow_message_other_key)

theorem rate_limit_keys_independent_witness:
  "get_message_count_keyed (Sender ''c@d'') (fst (allow_message_keyed 5 (Sender ''a@b'') demo_limiter)) = 0"
  using rate_limit_keys_independent [of "V4 0" "[]" "V4 0" "[]" "Sender ''c@d''" "Sender ''a@b''" 5 demo_limiter]
  by (simp add: get_message_count_keyed_def demo_limiter_def RateLimiter_new_def)

text \<open>Within the window of its first connection an address is never granted more than the
  configured number of connections: with \<open>n\<close> connections counted, of any further requests in the
  window exactly the remaining ones are admitted.\<close>

theorem connection_limit_exact:
  assumes "conn_live cfg ip start rl" "list_all (\<lambda>now. now - start < window_duration cfg) ts"
  shows "length (filter (\<lambda>b. b) (snd (run (\<lambda>rl now. allow_connection now ip rl) rl ts))) =
    min (length ts) (max_connections_per_ip cfg - get_connection_count ip rl)"
  by (rule connections.admitted [OF assms])

theorem connection_limit_exact_witness:
  "length (filter (\<lambda>b. b) (snd (run (\<lambda>rl now. allow_connection now (V4 1) rl)
     (fst (allow_connection 50 (V4 1) (RateLimiter_new rate_limit_config_default))) (replicate 12 60)))) = 9"
proof -
  let ?rl = "fst (allow_connection 50 (V4 1) (RateLimiter_new rate_limit_config_default))"
  have "conn_live rate_limit_config_default (V4 1) 50 ?rl" "get_connection_count (V4 1) ?rl = 1"
    by (simp_all add: conn_live_def allow_connection_def RateLimiter_new_def get_connection_count_def)
  with connection_limit_exact [of rate_limit_config_default "V4 1" 50 ?rl "replicate 12 60"]
  show ?thesis by (simp add: rate_limit_config_default_def list_all_iff)
qed

end
