(* ===== verification/Smtp_Session.thy ===== *)
theory Smtp_Session
  imports Smtp_Protocol Smtp_Bdat Auth_Sasl Rate_Limit
begin

text \<open>
  Model of the command handlers of \<^verbatim>\<open>crates/rusmes-smtp/src/session/mod.rs\<close>, of the helpers of
  \<^verbatim>\<open>auth.rs\<close> they call and of \<^verbatim>\<open>is_ip_in_networks\<close> of \<^verbatim>\<open>lib.rs\<close>.

  The session is a record with the fields of \<^verbatim>\<open>SmtpSession\<close>; the rate limiter it shares with
  the other sessions is passed in and out of the handler that asks it.  The answers of the
  authentication backend, of the mailbox store, of the clocks, of the random generator and of
  the crates \<^verbatim>\<open>ipnetwork\<close> and \<^verbatim>\<open>base64\<close>, and Unicode upper-casing, are the fields of the record
  \<open>smtp_env\<close>, one value per call.  A handler returns the session together with its
  \<^verbatim>\<open>Result\<close>, so what it changed before an error is kept, as in the code.
\<close>

section \<open>Environment and state\<close>

record scram_credentials =
  sk_salt :: string
  sk_iteration_count :: nat
  sk_stored_key :: string
  sk_server_key :: string

text \<open>The file operations of the DATA spill, each of which may fail with an error text.\<close>

datatype tempfile_op =
    CreateTemp | WriteBuffered | WriteChunk | FlushTemp | KeepTemp | OpenKept | ReadKept

record smtp_env =
  sv_auth :: auth_backend
  sv_fetch_scram_credentials :: "string \<Rightarrow> scram_credentials option result"
  sv_list_mailboxes :: "username \<Rightarrow> string list result"
  sv_crypto :: crypto
  sv_nom :: nom
  sv_parse_network :: "string \<Rightarrow> (ip_addr \<Rightarrow> bool) option"
  sv_to_uppercase :: "string \<Rightarrow> string"
  sv_unix_secs :: nat
  sv_instant_nanos :: nat
  sv_since_epoch :: "nat result"
  sv_random_u64 :: "nat result"
  sv_random_nonce :: "string result"
  sv_connection_elapsed :: nat
  sv_io_error :: "tempfile_op \<Rightarrow> string option"
  sv_temp_path :: string

datatype smtp_state =
    SmtpInitial | Connected | Authenticated | MailTransaction | DataState | QuitState

record smtp_transaction =
  tx_sender :: "mail_address option"
  tx_recipients :: "mail_address list"
  tx_helo_name :: "string option"
  tx_message_size :: nat
  tx_declared_size :: "nat option"
  tx_body_type :: "string option"
  tx_smtputf8 :: bool
  tx_bdat_state :: "bdat_state option"
  tx_message_data :: string

definition SmtpTransaction_new :: smtp_transaction where
  "SmtpTransaction_new =
     \<lparr>tx_sender = None, tx_recipients = [], tx_helo_name = None, tx_message_size = 0,
      tx_declared_size = None, tx_body_type = None, tx_smtputf8 = False, tx_bdat_state = None,
      tx_message_data = []\<rparr>"

definition tx_reset :: "smtp_transaction \<Rightarrow> smtp_transaction" where
  "tx_reset t =
     t\<lparr>tx_sender := None, tx_recipients := [], tx_message_size := 0, tx_declared_size := None,
       tx_body_type := None, tx_smtputf8 := False, tx_bdat_state := None, tx_message_data := []\<rparr>"

definition tx_is_valid :: "smtp_transaction \<Rightarrow> bool" where
  "tx_is_valid t \<longleftrightarrow> tx_sender t \<noteq> None \<and> tx_recipients t \<noteq> []"

record smtp_config =
  smc_hostname :: string
  smc_max_message_size :: nat
  smc_require_auth :: bool
  smc_enable_starttls :: bool
  smc_check_recipient_exists :: bool
  smc_reject_unknown_recipients :: bool
  smc_relay_networks :: "string list"
  smc_local_domains :: "string list"
  smc_connection_timeout :: nat
  smc_idle_timeout :: nat
  smc_blocked_networks :: "(ip_addr \<Rightarrow> bool) list"
  smc_data_tempfile_threshold :: nat
  smc_data_spill_dir :: string

text \<open>The defaults, with durations in nanoseconds; the spill directory is the one of the operating system.\<close>

definition smtp_config_default :: "string \<Rightarrow> smtp_config" where
  "smtp_config_default temp_dir =
     \<lparr>smc_hostname = ''localhost'', smc_max_message_size = 10 * 1024 * 1024,
      smc_require_auth = False, smc_enable_starttls = False, smc_check_recipient_exists = True,
      smc_reject_unknown_recipients = True, smc_relay_networks = [''127.0.0.0/8''],
      smc_local_domains = [''localhost''], smc_connection_timeout = 3600 * 1000000000,
      smc_idle_timeout = 300 * 1000000000,
      smc_blocked_networks = [], smc_data_tempfile_threshold = 1024 * 1024,
      smc_data_spill_dir = temp_dir\<rparr>"

record recipient_cache_entry =
  rc_exists :: bool
  rc_cached_at :: nat

record scram_state =
  ss_client_first_bare :: string
  ss_server_first :: string
  ss_nonce :: string
  ss_username :: string
  ss_stored_key :: string
  ss_server_key :: string

record smtp_session =
  sn_remote_ip :: ip_addr
  sn_state :: smtp_state
  sn_transaction :: smtp_transaction
  sn_config :: smtp_config
  sn_authenticated :: bool
  sn_username :: "string option"
  sn_relaying_allowed :: bool
  sn_recipient_cache :: "(string \<times> recipient_cache_entry) list"
  sn_cram_md5_challenge :: "string option"
  sn_scram_state :: "scram_state option"
  sn_ehlo_used :: bool

definition SmtpSession_new :: "ip_addr \<Rightarrow> smtp_config \<Rightarrow> smtp_session" where
  "SmtpSession_new ip config =
     \<lparr>sn_remote_ip = ip, sn_state = Connected, sn_transaction = SmtpTransaction_new,
      sn_config = config, sn_authenticated = False, sn_username = None,
      sn_relaying_allowed = False, sn_recipient_cache = [], sn_cram_md5_challenge = None,
      sn_scram_state = None, sn_ehlo_used = False\<rparr>"

definition upd_tx :: "(smtp_transaction \<Rightarrow> smtp_transaction) \<Rightarrow> smtp_session \<Rightarrow> smtp_session" where
  "upd_tx f s = s\<lparr>sn_transaction := f (sn_transaction s)\<rparr>"

section \<open>Authentication helpers\<close>

definition generate_cram_md5_challenge :: "smtp_env \<Rightarrow> string \<Rightarrow> string result" where
  "generate_cram_md5_challenge env hostname =
     rbind (sv_since_epoch env) (\<lambda>timestamp.
     rbind (map_err (\<lambda>e. ''RNG failure: '' @ e) (sv_random_u64 env)) (\<lambda>random.
       Inr (''<'' @ show_nat timestamp @ ''.'' @ show_nat random @ ''@'' @ hostname @ ''>'')))"

definition encode_challenge :: "smtp_env \<Rightarrow> string \<Rightarrow> string" where
  "encode_challenge env challenge = c_b64_encode (sv_crypto env) challenge"

definition decode_response :: "smtp_env \<Rightarrow> string \<Rightarrow> string result" where
  "decode_response env encoded =
     rbind (map_err (\<lambda>e. ''Failed to decode Base64: '' @ e) (c_b64_decode (sv_crypto env) (trim encoded)))
       (utf8_or ''Failed to decode UTF-8'')"

definition parse_plain_auth :: "smtp_env \<Rightarrow> string \<Rightarrow> (string \<times> string) result" where
  "parse_plain_auth env encoded =
     rbind (decode_response env encoded) (\<lambda>decoded.
       let parts = split_on (CHR 0x00) decoded in
       if length parts = 2 then Inr (parts ! 0, parts ! 1)
       else if length parts = 3 then Inr (parts ! 1, parts ! 2)
       else Inl ''Invalid PLAIN authentication format: expected 2 or 3 null-separated parts'')"

definition parse_cram_md5_response :: "string \<Rightarrow> (string \<times> string) result" where
  "parse_cram_md5_response response =
     (let parts = splitn2 (CHR '' '') response in
      if length parts \<noteq> 2
      then Inl (''Invalid CRAM-MD5 response format: expected '' @ quoted ''username hmac'')
      else Inr (parts ! 0, parts ! 1))"

definition generate_scram_server_nonce :: "smtp_env \<Rightarrow> string result" where
  "generate_scram_server_nonce env =
     rbind (map_err (\<lambda>e. ''RNG failure: '' @ e) (sv_random_nonce env)) (\<lambda>bytes.
       Inr (c_hex (sv_crypto env) bytes))"

text \<open>The SCRAM messages, the proof check and the server signature are the same code as in the
  SASL component.\<close>

abbreviation parse_scram_client_first :: "string \<Rightarrow> (string \<times> string \<times> string) result" where
  "parse_scram_client_first \<equiv> parse_client_first"

abbreviation parse_scram_client_final :: "string \<Rightarrow> (string \<times> string \<times> string \<times> string) result" where
  "parse_scram_client_final \<equiv> parse_client_final"

abbreviation verify_scram_client_proof :: "crypto \<Rightarrow> string \<Rightarrow> string \<Rightarrow> string \<Rightarrow> bool result" where
  "verify_scram_client_proof \<equiv> verify_client_proof"

abbreviation compute_scram_server_signature :: "crypto \<Rightarrow> string \<Rightarrow> string \<Rightarrow> string" where
  "compute_scram_server_signature \<equiv> compute_server_signature"

section \<open>Greeting and transaction commands\<close>

definition handle_helo :: "smtp_session \<Rightarrow> string \<Rightarrow> smtp_session \<times> smtp_response result" where
  "handle_helo s d =
     (if sn_state s \<noteq> Connected \<and> sn_state s \<noteq> Authenticated
      then (s, Inr (bad_sequence ''Out of sequence''))
      else ((upd_tx (\<lambda>t. t\<lparr>tx_helo_name := Some d\<rparr>) s)\<lparr>sn_ehlo_used := False, sn_state := Authenticated\<rparr>,
            Inr (smtp_ok (smc_hostname (sn_config s) @ '' Hello '' @ ip_display (sn_remote_ip s)))))"

definition ehlo_extensions :: "smtp_config \<Rightarrow> string list" where
  "ehlo_extensions cfg =
     [''SIZE '' @ show_nat (smc_max_message_size cfg), ''8BITMIME'', ''SMTPUTF8'', ''PIPELINING'', ''CHUNKING''] @
     (if smc_enable_starttls cfg then [''STARTTLS''] else []) @
     (if smc_require_auth cfg then [''AUTH PLAIN LOGIN CRAM-MD5 SCRAM-SHA-256''] else [])"

definition handle_ehlo :: "smtp_session \<Rightarrow> string \<Rightarrow> smtp_session \<times> smtp_response result" where
  "handle_ehlo s d =
     (if sn_state s \<noteq> Connected \<and> sn_state s \<noteq> Authenticated
      then (s, Inr (bad_sequence ''Out of sequence''))
      else ((upd_tx (\<lambda>t. t\<lparr>tx_helo_name := Some d\<rparr>) s)\<lparr>sn_ehlo_used := True, sn_state := Authenticated\<rparr>,
            Inr (ehlo_response (smc_hostname (sn_config s)) (ehlo_extensions (sn_config s)))))"

text \<open>The loop over the parameters of MAIL: the session with the parameters seen so far, and the
  reply if one of them is refused.\<close>

definition mail_param_step :: "smtp_env \<Rightarrow> smtp_session \<Rightarrow> mail_param \<Rightarrow> smtp_response + smtp_session" where
  "mail_param_step env s p =
     (let keyword = sv_to_uppercase env (mp_keyword p);
          max_size = smc_max_message_size (sn_config s) in
      if keyword = ''SIZE'' then
        (case mp_value p of
           None \<Rightarrow> Inl (parameter_error ''SIZE parameter requires a value'')
         | Some size_str \<Rightarrow>
             (case parse_uint usize_max size_str of
                None \<Rightarrow> Inl (parameter_error ''Invalid SIZE parameter'')
              | Some sz \<Rightarrow>
                  if max_size < sz
                  then Inl (storage_exceeded
                              (''Message size '' @ show_nat sz @ '' exceeds maximum '' @ show_nat max_size))
                  else Inr (upd_tx (\<lambda>t. t\<lparr>tx_declared_size := Some sz\<rparr>) s)))
      else if keyword = ''BODY'' then
        (case mp_value p of
           None \<Rightarrow> Inl (parameter_error ''BODY parameter requires a value'')
         | Some body_value \<Rightarrow>
             let body_upper = sv_to_uppercase env body_value in
             if body_upper = ''7BIT'' \<or> body_upper = ''8BITMIME''
             then Inr (upd_tx (\<lambda>t. t\<lparr>tx_body_type := Some body_upper\<rparr>) s)
             else Inl (parameter_not_implemented (''Unsupported BODY type: '' @ body_value)))
      else if keyword = ''SMTPUTF8'' then
        (if \<not> sn_ehlo_used s then Inl (parameter_error ''SMTPUTF8 requires EHLO (not HELO)'')
         else if mp_value p = None then Inr (upd_tx (\<lambda>t. t\<lparr>tx_smtputf8 := True\<rparr>) s)
         else Inl (parameter_error ''SMTPUTF8 parameter must not have a value''))
      else Inr s)"

fun mail_params :: "smtp_env \<Rightarrow> smtp_session \<Rightarrow> mail_param list \<Rightarrow> smtp_session \<times> smtp_response option" where
  "mail_params env s [] = (s, None)"
| "mail_params env s (p # ps) =
     (case mail_param_step env s p of
        Inl r \<Rightarrow> (s, Some r)
      | Inr s' \<Rightarrow> mail_params env s' ps)"

definition non_ascii_reply :: smtp_response where
  "non_ascii_reply =
     smtp_reply 501 (''5.5.4 Non-ASCII local-part requires SMTPUTF8 parameter (RFC 6531 '' @
       [CHR 0xC2, CHR 0xA7] @ ''3.4)'')"

definition handle_mail ::
    "smtp_env \<Rightarrow> rate_limiter \<Rightarrow> smtp_session \<Rightarrow> mail_address \<Rightarrow> mail_param list \<Rightarrow>
     rate_limiter \<times> smtp_session \<times> smtp_response result" where
  "handle_mail env rl s from params =
     (if sn_state s \<noteq> Authenticated then (rl, s, Inr (bad_sequence ''Must send HELO/EHLO first''))
      else if smc_require_auth (sn_config s) \<and> \<not> sn_authenticated s
      then (rl, s, Inr (bad_sequence ''Authentication required''))
      else
        let (rl', allowed) =
              allow_message_ip_and_sender (sv_unix_secs env) (sn_remote_ip s) (as_string from) rl in
        if \<not> allowed
        then (rl', s, Inr (mailbox_unavailable ''Rate limit exceeded, please try again later''))
        else case mail_params env s params of
          (s', Some r) \<Rightarrow> (rl', s', Inr r)
        | (s', None) \<Rightarrow>
            if list_ex (\<lambda>c. 0x80 \<le> code_of c) (local_part from) \<and> \<not> tx_smtputf8 (sn_transaction s')
            then (rl', s', Inr non_ascii_reply)
            else (rl', (upd_tx (\<lambda>t. t\<lparr>tx_sender := Some from\<rparr>) s')\<lparr>sn_state := MailTransaction\<rparr>,
                  Inr (smtp_ok (''Sender '' @ as_string from @ '' OK''))))"

definition is_ip_in_networks :: "smtp_env \<Rightarrow> ip_addr \<Rightarrow> string list \<Rightarrow> bool" where
  "is_ip_in_networks env ip networks =
     list_ex (\<lambda>n. case sv_parse_network env n of Some network \<Rightarrow> network ip | None \<Rightarrow> False) networks"

definition is_relay_allowed :: "smtp_env \<Rightarrow> smtp_session \<Rightarrow> mail_address \<Rightarrow> bool" where
  "is_relay_allowed env s recipient =
     (if sn_authenticated s then True
      else if is_ip_in_networks env (sn_remote_ip s) (smc_relay_networks (sn_config s)) then True
      else list_ex (\<lambda>d. eq_ignore_ascii_case (domain_str (addr_domain recipient)) d)
             (smc_local_domains (sn_config s)))"

definition cache_ttl_nanos :: nat where
  "cache_ttl_nanos = 300 * 1000000000"

text \<open>The lookup behind the cache: a user exists if it has a mailbox; the answer is cached.\<close>

definition query_recipient ::
    "smtp_env \<Rightarrow> smtp_session \<Rightarrow> mail_address \<Rightarrow> smtp_session \<times> bool result" where
  "query_recipient env s recipient =
     (case rbind (username_of (local_part recipient)) (sv_list_mailboxes env) of
        Inl e \<Rightarrow> (s, Inl e)
      | Inr mailboxes \<Rightarrow>
          (let found = (mailboxes \<noteq> []) in
           (s\<lparr>sn_recipient_cache :=
                AList.update (as_string recipient)
                  \<lparr>rc_exists = found, rc_cached_at = sv_instant_nanos env\<rparr> (sn_recipient_cache s)\<rparr>,
            Inr found)))"

definition validate_recipient ::
    "smtp_env \<Rightarrow> smtp_session \<Rightarrow> mail_address \<Rightarrow> smtp_session \<times> bool result" where
  "validate_recipient env s recipient =
     (case map_of (sn_recipient_cache s) (as_string recipient) of
        Some entry \<Rightarrow>
          if sv_instant_nanos env - rc_cached_at entry < cache_ttl_nanos
          then (s, Inr (rc_exists entry)) else query_recipient env s recipient
      | None \<Rightarrow> query_recipient env s recipient)"

definition add_recipient :: "mail_address \<Rightarrow> smtp_session \<Rightarrow> smtp_session \<times> smtp_response result" where
  "add_recipient to s =
     (upd_tx (\<lambda>t. t\<lparr>tx_recipients := tx_recipients t @ [to]\<rparr>) s,
      Inr (smtp_ok (''Recipient '' @ as_string to @ '' OK'')))"

text \<open>RCPT ignores its parameters; a failing lookup accepts the recipient.\<close>

definition handle_rcpt ::
    "smtp_env \<Rightarrow> smtp_session \<Rightarrow> mail_address \<Rightarrow> mail_param list \<Rightarrow> smtp_session \<times> smtp_response result" where
  "handle_rcpt env s to params =
     (if sn_state s \<noteq> MailTransaction then (s, Inr (bad_sequence ''Must send MAIL FROM first''))
      else if \<not> is_relay_allowed env s to then (s, Inr (smtp_reply 550 ''5.7.1 Relaying denied''))
      else if smc_check_recipient_exists (sn_config s) \<and> \<not> sn_authenticated s \<and> \<not> sn_relaying_allowed s
      then
        case validate_recipient env s to of
          (s', Inr True) \<Rightarrow> add_recipient to s'
        | (s', Inr False) \<Rightarrow>
            if smc_reject_unknown_recipients (sn_config s)
            then (s', Inr (smtp_reply 550 (''5.1.1 User unknown: '' @ as_string to)))
            else add_recipient to s'
        | (s', Inl e) \<Rightarrow> add_recipient to s'
      else add_recipient to s)"

definition handle_data :: "smtp_session \<Rightarrow> smtp_session \<times> smtp_response result" where
  "handle_data s =
     (if sn_state s \<noteq> MailTransaction then (s, Inr (bad_sequence ''Must send RCPT TO first''))
      else if \<not> tx_is_valid (sn_transaction s)
      then (s, Inr (bad_sequence ''Need at least one recipient''))
      else (s\<lparr>sn_state := DataState\<rparr>, Inr start_data))"

definition handle_bdat :: "smtp_session \<Rightarrow> nat \<Rightarrow> bool \<Rightarrow> smtp_session \<times> smtp_response result" where
  "handle_bdat s chunk_size is_last =
     (if sn_state s \<noteq> MailTransaction
      then (s, Inr (bad_sequence ''Must send MAIL FROM and RCPT TO first''))
      else if \<not> tx_is_valid (sn_transaction s)
      then (s, Inr (bad_sequence ''Need sender and at least one recipient''))
      else
        let max_size = smc_max_message_size (sn_config s);
            s' = (if tx_bdat_state (sn_transaction s) = None
                  then upd_tx (\<lambda>t. t\<lparr>tx_bdat_state := Some (BdatState_new max_size)\<rparr>) s else s)
        in case tx_bdat_state (sn_transaction s') of
             None \<Rightarrow> (s', Inl ''Internal error: bdat_state not initialized'')
           | Some b \<Rightarrow>
               if max_size < usize_add (bs_total_size b) chunk_size
               then (s', Inr (storage_exceeded
                       (''Message size '' @ show_nat (usize_add (bs_total_size b) chunk_size) @
                        '' exceeds maximum '' @ show_nat max_size)))
               else (s', Inr (smtp_ok (show_nat chunk_size @ '' octets received''))))"

definition handle_rset :: "smtp_session \<Rightarrow> smtp_session \<times> smtp_response result" where
  "handle_rset s = ((upd_tx tx_reset s)\<lparr>sn_state := Authenticated\<rparr>, Inr (smtp_ok ''OK''))"

definition handle_quit :: "smtp_session \<Rightarrow> smtp_session \<times> smtp_response result" where
  "handle_quit s = (s\<lparr>sn_state := QuitState\<rparr>, Inr smtp_closing)"

definition handle_starttls :: "smtp_session \<Rightarrow> smtp_session \<times> smtp_response result" where
  "handle_starttls s =
     (if \<not> smc_enable_starttls (sn_config s) then (s, Inr (not_implemented ''STARTTLS not available''))
      else (s, Inr (smtp_reply 220 ''Ready to start TLS'')))"

section \<open>Authentication\<close>

definition handle_auth_plain ::
    "smtp_env \<Rightarrow> smtp_session \<Rightarrow> string \<Rightarrow> smtp_session \<times> smtp_response result" where
  "handle_auth_plain env s response =
     (let failed = (s, Inr (smtp_reply 535 ''5.7.8 Authentication failed'')) in
      case parse_plain_auth env response of
        Inl e \<Rightarrow> failed
      | Inr (u, password) \<Rightarrow>
          (case Username_new u of
             Inl e \<Rightarrow> failed
           | Inr uo \<Rightarrow>
               (case ab_authenticate (sv_auth env) uo password of
                  Inr True \<Rightarrow> (s\<lparr>sn_authenticated := True, sn_username := Some u\<rparr>,
                               Inr (smtp_reply 235 ''2.7.0 Authentication successful''))
                | _ \<Rightarrow> failed)))"

definition handle_auth_cram_md5 :: "smtp_env \<Rightarrow> smtp_session \<Rightarrow> smtp_session \<times> smtp_response result" where
  "handle_auth_cram_md5 env s =
     (case generate_cram_md5_challenge env (smc_hostname (sn_config s)) of
        Inl e \<Rightarrow> (s, Inl e)
      | Inr challenge \<Rightarrow>
          (s\<lparr>sn_cram_md5_challenge := Some challenge\<rparr>, Inr (smtp_reply 334 (encode_challenge env challenge))))"

text \<open>The digest is never compared: with a known and with an unknown user the answer is 535.\<close>

definition handle_cram_md5_response ::
    "smtp_env \<Rightarrow> smtp_session \<Rightarrow> string \<Rightarrow> smtp_session \<times> smtp_response result" where
  "handle_cram_md5_response env s response_line =
     (case sn_cram_md5_challenge s of
        None \<Rightarrow> (s, Inl ''No CRAM-MD5 challenge pending'')
      | Some challenge \<Rightarrow>
          (let s' = s\<lparr>sn_cram_md5_challenge := None\<rparr> in
           if response_line = ''*'' then (s', Inr (smtp_reply 501 ''5.7.0 Authentication aborted''))
           else (s',
             rbind (decode_response env response_line) (\<lambda>decoded.
             rbind (parse_cram_md5_response decoded) (\<lambda>(u, client_hmac).
             rbind (map_err (\<lambda>e. ''Invalid username: '' @ mail_error_display e) (Username_new u)) (\<lambda>uo.
             rbind (ab_verify_identity (sv_auth env) uo) (\<lambda>user_exists.
               if \<not> user_exists then Inr (smtp_reply 535 ''5.7.8 Authentication credentials invalid'')
               else Inr (smtp_reply 535 ''5.7.8 Authentication credentials invalid''))))))))"

definition scram_server_first :: "smtp_env \<Rightarrow> string \<Rightarrow> scram_credentials \<Rightarrow> string" where
  "scram_server_first env nonce creds =
     ''r='' @ nonce @ '',s='' @ c_b64_encode (sv_crypto env) (sk_salt creds) @
     '',i='' @ show_nat (sk_iteration_count creds)"

definition handle_auth_scram_sha256 ::
    "smtp_env \<Rightarrow> smtp_session \<Rightarrow> string option \<Rightarrow> smtp_session \<times> smtp_response result" where
  "handle_auth_scram_sha256 env s initial_response =
     (case initial_response of
        None \<Rightarrow> (s, Inr (smtp_reply 334 []))
      | Some encoded \<Rightarrow>
          (case
             rbind (map_err (\<lambda>e. ''Failed to decode client-first: '' @ e)
                      (c_b64_decode (sv_crypto env) (trim encoded))) (\<lambda>decoded.
             rbind (utf8_or ''Failed to decode UTF-8'' decoded) (\<lambda>client_first.
             rbind (parse_scram_client_first client_first) (\<lambda>(u, client_nonce, bare).
             rbind (generate_scram_server_nonce env) (\<lambda>server_nonce.
               Inr (u, client_nonce @ server_nonce, bare))))) of
             Inl e \<Rightarrow> (s, Inl e)
           | Inr (u, nonce, bare) \<Rightarrow>
               (case sv_fetch_scram_credentials env u of
                  Inl e \<Rightarrow> (s, Inr (smtp_reply 454 ''4.7.0 Temporary authentication failure''))
                | Inr None \<Rightarrow>
                    (s, Inr (smtp_reply 504 ''5.5.4 SCRAM-SHA-256 mechanism not available for this user''))
                | Inr (Some creds) \<Rightarrow>
                    (s\<lparr>sn_scram_state := Some
                         \<lparr>ss_client_first_bare = bare, ss_server_first = scram_server_first env nonce creds,
                          ss_nonce = nonce, ss_username = u, ss_stored_key = sk_stored_key creds,
                          ss_server_key = sk_server_key creds\<rparr>\<rparr>,
                     Inr (smtp_reply 334 (c_b64_encode (sv_crypto env) (scram_server_first env nonce creds)))))))"

definition handle_scram_client_final ::
    "smtp_env \<Rightarrow> smtp_session \<Rightarrow> string \<Rightarrow> smtp_session \<times> smtp_response result" where
  "handle_scram_client_final env s line =
     (case sn_scram_state s of
        None \<Rightarrow> (s, Inl ''No SCRAM state'')
      | Some st \<Rightarrow>
          (let s' = s\<lparr>sn_scram_state := None\<rparr>; cr = sv_crypto env;
               invalid = smtp_reply 535 ''5.7.8 Authentication credentials invalid'' in
           if line = ''*'' then (s', Inr (smtp_reply 501 ''5.7.0 Authentication aborted''))
           else case
             rbind (map_err (\<lambda>e. ''Failed to decode client-final: '' @ e) (c_b64_decode cr (trim line))) (\<lambda>decoded.
             rbind (utf8_or ''Failed to decode UTF-8'' decoded)
               parse_scram_client_final) of
             Inl e \<Rightarrow> (s', Inl e)
           | Inr (channel_binding, nonce, proof, without_proof) \<Rightarrow>
               if nonce \<noteq> ss_nonce st then (s', Inr invalid)
               else
                 let msg = auth_message (ss_client_first_bare st) (ss_server_first st) without_proof in
                 case verify_scram_client_proof cr (ss_stored_key st) msg proof of
                   Inl e \<Rightarrow> (s', Inl e)
                 | Inr False \<Rightarrow> (s', Inr invalid)
                 | Inr True \<Rightarrow>
                     let server_final = ''v='' @ compute_scram_server_signature cr (ss_server_key st) msg in
                     (s'\<lparr>sn_authenticated := True, sn_username := Some (ss_username st)\<rparr>,
                      Inr (smtp_reply 235
                             (''2.7.0 '' @ c_b64_encode cr server_final @ '' Authentication successful'')))))"

definition handle_auth ::
    "smtp_env \<Rightarrow> smtp_session \<Rightarrow> string \<Rightarrow> string option \<Rightarrow> smtp_session \<times> smtp_response result" where
  "handle_auth env s mechanism initial_response =
     (if \<not> smc_require_auth (sn_config s) then (s, Inr (not_implemented ''AUTH not available''))
      else
        let m = sv_to_uppercase env mechanism in
        if m = ''CRAM-MD5'' then handle_auth_cram_md5 env s
        else if m = ''SCRAM-SHA-256'' then handle_auth_scram_sha256 env s initial_response
        else if m = ''PLAIN'' then
          (case initial_response of
             Some response \<Rightarrow> handle_auth_plain env s response
           | None \<Rightarrow> (s, Inr (smtp_reply 334 [])))
        else if m = ''LOGIN'' then (s, Inr (smtp_reply 334 ''VXNlcm5hbWU6''))
        else (s, Inr (parameter_not_implemented ''Authentication mechanism not supported'')))"

section \<open>Dispatch\<close>

fun smtp_handle_command ::
    "smtp_env \<Rightarrow> rate_limiter \<Rightarrow> smtp_session \<Rightarrow> smtp_command \<Rightarrow>
     rate_limiter \<times> smtp_session \<times> smtp_response result" where
  "smtp_handle_command env rl s (Helo d) = (rl, handle_helo s d)"
| "smtp_handle_command env rl s (Ehlo d) = (rl, handle_ehlo s d)"
| "smtp_handle_command env rl s (MailFrom from params) = handle_mail env rl s from params"
| "smtp_handle_command env rl s (Rcpt to params) = (rl, handle_rcpt env s to params)"
| "smtp_handle_command env rl s Data = (rl, handle_data s)"
| "smtp_handle_command env rl s (Bdat chunk_size is_last) = (rl, handle_bdat s chunk_size is_last)"
| "smtp_handle_command env rl s SmtpRset = (rl, handle_rset s)"
| "smtp_handle_command env rl s SmtpNoop = (rl, s, Inr (smtp_ok ''OK''))"
| "smtp_handle_command env rl s SmtpQuit = (rl, handle_quit s)"
| "smtp_handle_command env rl s StartTls = (rl, handle_starttls s)"
| "smtp_handle_command env rl s (SmtpAuth m r) = (rl, handle_auth env s m r)"
| "smtp_handle_command env rl s (Vrfy _) = (rl, s, Inr (not_implemented ''Command not implemented''))"
| "smtp_handle_command env rl s (Expn _) = (rl, s, Inr (not_implemented ''Command not implemented''))"
| "smtp_handle_command env rl s (Help _) = (rl, s, Inr (not_implemented ''Command not implemented''))"

text \<open>The part of the command loop that turns a line into a reply: a pending CRAM-MD5 or SCRAM
  exchange takes the line first.  The first component of the result says whether the line was a
  DATA command, which the loop treats specially.\<close>

definition smtp_handle_line ::
    "smtp_env \<Rightarrow> rate_limiter \<Rightarrow> smtp_session \<Rightarrow> string \<Rightarrow>
     bool \<times> rate_limiter \<times> smtp_session \<times> smtp_response" where
  "smtp_handle_line env rl s line =
     (let line_trimmed = trim line;
          invalid = smtp_reply 535 ''5.7.8 Authentication credentials invalid'' in
      if sn_cram_md5_challenge s \<noteq> None then
        (case handle_cram_md5_response env s line_trimmed of
           (s', Inr r) \<Rightarrow> (False, rl, s', r)
         | (s', Inl e) \<Rightarrow> (False, rl, s', invalid))
      else if sn_scram_state s \<noteq> None then
        (case handle_scram_client_final env s line_trimmed of
           (s', Inr r) \<Rightarrow> (False, rl, s', r)
         | (s', Inl e) \<Rightarrow> (False, rl, s'\<lparr>sn_scram_state := None\<rparr>, invalid))
      else
        (case smtp_parse_command_smtputf8 (sv_nom env) line_trimmed (sn_ehlo_used s) of
           Inl e \<Rightarrow> (False, rl, s, syntax_error ''Command not recognized'')
         | Inr command \<Rightarrow>
             (case smtp_handle_command env rl s command of
                (rl', s', Inr r) \<Rightarrow> (command = Data, rl', s', r)
              | (rl', s', Inl e) \<Rightarrow> (command = Data, rl', s', local_error ''Internal server error''))))"

section \<open>Invariant\<close>

text \<open>Who may send to a recipient, with the meaning of CIDR strings as a parameter.\<close>

definition relay_ok :: "(string \<Rightarrow> (ip_addr \<Rightarrow> bool) option) \<Rightarrow> smtp_session \<Rightarrow> mail_address \<Rightarrow> bool" where
  "relay_ok net s r \<longleftrightarrow>
     sn_authenticated s \<or>
     (\<exists>n \<in> set (smc_relay_networks (sn_config s)). \<exists>f. net n = Some f \<and> f (sn_remote_ip s)) \<or>
     (\<exists>d \<in> set (smc_local_domains (sn_config s)).
        eq_ignore_ascii_case (domain_str (addr_domain r)) d)"

definition tx_inv :: "smtp_session \<Rightarrow> bool" where
  "tx_inv s \<longleftrightarrow>
     (let t = sn_transaction s in
      (sn_state s \<in> {SmtpInitial, Connected, Authenticated} \<longrightarrow>
         tx_sender t = None \<and> tx_recipients t = [] \<and> tx_bdat_state t = None) \<and>
      (sn_state s \<in> {MailTransaction, DataState} \<longrightarrow>
         tx_sender t \<noteq> None \<and> (smc_require_auth (sn_config s) \<longrightarrow> sn_authenticated s)) \<and>
      (sn_state s = DataState \<longrightarrow> tx_recipients t \<noteq> []) \<and>
      (\<forall>n. tx_declared_size t = Some n \<longrightarrow> n \<le> smc_max_message_size (sn_config s)) \<and>
      (\<forall>b. tx_bdat_state t = Some b \<longrightarrow> b = BdatState_new (smc_max_message_size (sn_config s))))"

definition smtp_inv :: "(string \<Rightarrow> (ip_addr \<Rightarrow> bool) option) \<Rightarrow> smtp_session \<Rightarrow> bool" where
  "smtp_inv net s \<longleftrightarrow> tx_inv s \<and> (\<forall>r \<in> set (tx_recipients (sn_transaction s)). relay_ok net s r)"

text \<open>What every handler keeps: the configuration, the peer, and the authentication once it is
  there; recipients are only added, and only permitted ones, or all removed.\<close>

definition smtp_frame :: "(string \<Rightarrow> (ip_addr \<Rightarrow> bool) option) \<Rightarrow> smtp_session \<Rightarrow> smtp_session \<Rightarrow> bool" where
  "smtp_frame net s s' \<longleftrightarrow>
     sn_config s' = sn_config s \<and> sn_remote_ip s' = sn_remote_ip s \<and>
     (sn_authenticated s \<longrightarrow> sn_authenticated s') \<and>
     (\<forall>r \<in> set (tx_recipients (sn_transaction s')).
        r \<in> set (tx_recipients (sn_transaction s)) \<or> relay_ok net s r)"

lemma smtp_frame_refl [simp]: "smtp_frame net s s"
  by (simp add: smtp_frame_def)

lemma relay_ok_frame: "smtp_frame net s s' \<Longrightarrow> relay_ok net s r \<Longrightarrow> relay_ok net s' r"
  by (auto simp: relay_ok_def smtp_frame_def)

lemma smtp_inv_frame:
  "smtp_inv net s \<Longrightarrow> smtp_frame net s s' \<Longrightarrow> tx_inv s' \<Longrightarrow> smtp_inv net s'"
  unfolding smtp_inv_def using relay_ok_frame by (metis smtp_frame_def)

lemma smtp_inv_new: "smtp_inv net (SmtpSession_new ip cfg)"
  by (simp add: smtp_inv_def tx_inv_def SmtpSession_new_def SmtpTransaction_new_def)

lemma is_relay_allowed_iff:
  "is_relay_allowed env s r \<longleftrightarrow> relay_ok (sv_parse_network env) s r"
  by (auto simp: is_relay_allowed_def relay_ok_def is_ip_in_networks_def list_ex_iff split: option.splits)

text \<open>Parameters of MAIL only touch the three fields they set.\<close>

definition params_only :: "smtp_session \<Rightarrow> smtp_session \<Rightarrow> bool" where
  "params_only s s' \<longleftrightarrow>
     sn_state s' = sn_state s \<and> sn_config s' = sn_config s \<and> sn_remote_ip s' = sn_remote_ip s \<and>
     sn_authenticated s' = sn_authenticated s \<and>
     tx_sender (sn_transaction s') = tx_sender (sn_transaction s) \<and>
     tx_recipients (sn_transaction s') = tx_recipients (sn_transaction s) \<and>
     tx_bdat_state (sn_transaction s') = tx_bdat_state (sn_transaction s) \<and>
     (\<forall>n. tx_declared_size (sn_transaction s') = Some n \<longrightarrow>
        n \<le> smc_max_message_size (sn_config s) \<or> tx_declared_size (sn_transaction s) = Some n)"

lemma params_only_refl [simp]: "params_only s s"
  by (simp add: params_only_def)

lemma params_only_trans: "params_only s s1 \<Longrightarrow> params_only s1 s2 \<Longrightarrow> params_only s s2"
  unfolding params_only_def by metis

lemma mail_param_step_only:
  assumes "mail_param_step env s p = Inr s'"
  shows "params_only s s'"
proof -
  consider "s' = s"
    | n where "s' = upd_tx (\<lambda>t. t\<lparr>tx_declared_size := Some n\<rparr>) s" "n \<le> smc_max_message_size (sn_config s)"
    | b where "s' = upd_tx (\<lambda>t. t\<lparr>tx_body_type := Some b\<rparr>) s"
    | "s' = upd_tx (\<lambda>t. t\<lparr>tx_smtputf8 := True\<rparr>) s"
    using assms by (fastforce simp: mail_param_step_def Let_def split: if_splits option.splits)
  then show ?thesis
    by cases (simp_all add: params_only_def upd_tx_def)
qed

lemma mail_params_only: "mail_params env s ps = (s', r) \<Longrightarrow> params_only s s'"
proof (induction env s ps rule: mail_params.induct)
  case (2 env s p ps)
  then show ?case
    using mail_param_step_only params_only_trans by (auto split: sum.splits) blast
qed simp

text \<open>The obligation of a handler, and its discharge handler by handler.\<close>

definition keeps :: "(string \<Rightarrow> (ip_addr \<Rightarrow> bool) option) \<Rightarrow> smtp_session \<Rightarrow> smtp_session \<Rightarrow> bool" where
  "keeps net s s' \<longleftrightarrow> smtp_frame net s s' \<and> (tx_inv s \<longrightarrow> tx_inv s')"

lemma keeps_refl [simp]: "keeps net s s"
  by (simp add: keeps_def)

lemma keeps_inv: "keeps net s s' \<Longrightarrow> smtp_inv net s \<Longrightarrow> smtp_inv net s'"
  using smtp_inv_frame by (auto simp: keeps_def smtp_inv_def)

lemmas keeps_defs = keeps_def smtp_frame_def tx_inv_def upd_tx_def Let_def

lemma keeps_greeting:
  "keeps net s (fst (handle_helo s d))"
  "keeps net s (fst (handle_ehlo s d))"
  by (auto simp: handle_helo_def handle_ehlo_def keeps_defs)

lemma keeps_params:
  assumes "params_only s s'"
  shows "keeps net s s'"
  using assms unfolding keeps_defs params_only_def by auto

lemma keeps_mail: "keeps net s (fst (snd (handle_mail env rl s from params)))"
proof -
  obtain s' r where ps: "mail_params env s params = (s', r)" by (cases "mail_params env s params")
  have only: "params_only s s'" by (rule mail_params_only [OF ps])
  have k: "keeps net s s'" by (rule keeps_params [OF only])
  have "keeps net s ((upd_tx (\<lambda>t. t\<lparr>tx_sender := Some from\<rparr>) s')\<lparr>sn_state := MailTransaction\<rparr>)"
    if "sn_state s = Authenticated" "\<not> (smc_require_auth (sn_config s) \<and> \<not> sn_authenticated s)"
    using only that unfolding keeps_defs params_only_def by auto
  with k ps show ?thesis
    by (auto simp: handle_mail_def case_prod_beta Let_def split: option.splits)
qed

lemma validate_recipient_session:
  "\<exists>c. fst (validate_recipient env s r) = s\<lparr>sn_recipient_cache := c\<rparr>"
  by (auto simp: validate_recipient_def query_recipient_def Let_def split: option.splits sum.splits
      intro: exI [of _ "sn_recipient_cache s"])

lemma keeps_add_recipient:
  assumes "sn_state s = MailTransaction" "relay_ok net s to"
  shows "keeps net s (fst (add_recipient to (s\<lparr>sn_recipient_cache := c\<rparr>)))"
  using assms by (auto simp: add_recipient_def keeps_defs)

lemma keeps_rcpt: "keeps (sv_parse_network env) s (fst (handle_rcpt env s to params))"
proof -
  obtain s' v where v: "validate_recipient env s to = (s', v)" by (cases "validate_recipient env s to")
  with validate_recipient_session [of env s to] obtain c where c: "s' = s\<lparr>sn_recipient_cache := c\<rparr>" by auto
  have cache: "keeps net s (s\<lparr>sn_recipient_cache := c\<rparr>)" for net c by (auto simp: keeps_defs)
  have plain: "s\<lparr>sn_recipient_cache := sn_recipient_cache s\<rparr> = s" by simp
  note add = keeps_add_recipient [where net = "sv_parse_network env" and s = s and to = to]
  show ?thesis
    using add [of c] add [of "sn_recipient_cache s"] plain c v cache
    by (auto simp: handle_rcpt_def is_relay_allowed_iff split: sum.splits bool.splits)
qed

lemma keeps_data: "keeps net s (fst (handle_data s))"
  by (auto simp: handle_data_def keeps_defs tx_is_valid_def)

lemma keeps_bdat: "keeps net s (fst (handle_bdat s n l))"
  by (cases "tx_bdat_state (sn_transaction s)")
    (simp_all add: handle_bdat_def keeps_defs tx_is_valid_def)

lemma keeps_session_control:
  "keeps net s (fst (handle_rset s))"
  "keeps net s (fst (handle_quit s))"
  "keeps net s (fst (handle_starttls s))"
  by (auto simp: handle_rset_def handle_quit_def handle_starttls_def tx_reset_def keeps_defs)

lemma keeps_auth_fields:
  "keeps net s (s\<lparr>sn_authenticated := True, sn_username := u\<rparr>)"
  "keeps net s (s\<lparr>sn_scram_state := st\<rparr>)"
  "keeps net s (s\<lparr>sn_cram_md5_challenge := c\<rparr>)"
  "keeps net s (s\<lparr>sn_scram_state := st, sn_authenticated := True, sn_username := u\<rparr>)"
  by (auto simp: keeps_defs)

lemma keeps_auth: "keeps net s (fst (handle_auth env s m r))"
  by (auto simp: handle_auth_def handle_auth_plain_def handle_auth_cram_md5_def handle_auth_scram_sha256_def
      keeps_auth_fields Let_def split: option.splits sum.splits bool.splits prod.splits)

lemma keeps_sasl_lines:
  "keeps net s (fst (handle_cram_md5_response env s l))"
  "keeps net s (fst (handle_scram_client_final env s l))"
  by (auto simp: handle_cram_md5_response_def handle_scram_client_final_def
      keeps_auth_fields Let_def split: option.splits sum.splits bool.splits prod.splits)

lemma keeps_command: "keeps (sv_parse_network env) s (fst (snd (smtp_handle_command env rl s cmd)))"
  by (cases cmd) (simp_all add: keeps_greeting keeps_mail keeps_rcpt keeps_data keeps_bdat
      keeps_session_control keeps_auth)

lemma keeps_trans_scram: "keeps net s t \<Longrightarrow> keeps net s (t\<lparr>sn_scram_state := None\<rparr>)"
proof -
  have "tx_inv (t\<lparr>sn_scram_state := None\<rparr>) = tx_inv t"
    and "smtp_frame net s (t\<lparr>sn_scram_state := None\<rparr>) = smtp_frame net s t"
    by (simp_all add: tx_inv_def smtp_frame_def)
  then show "keeps net s t \<Longrightarrow> keeps net s (t\<lparr>sn_scram_state := None\<rparr>)"
    by (simp add: keeps_def)
qed

lemma keeps_line: "keeps (sv_parse_network env) s (fst (snd (snd (smtp_handle_line env rl s line))))"
proof -
  let ?net = "sv_parse_network env" and ?l = "trim line"
  have cram: "keeps ?net s t" if "handle_cram_md5_response env s ?l = (t, x)" for t x
    using keeps_sasl_lines(1) [of ?net s env ?l] that by simp
  have scram: "keeps ?net s t" if "handle_scram_client_final env s ?l = (t, x)" for t x
    using keeps_sasl_lines(2) [of ?net s env ?l] that by simp
  have cmd: "keeps ?net s t" if "smtp_handle_command env rl s c = (rl', t, x)" for c rl' t x
    using keeps_command [of env s rl c] that by simp
  show ?thesis
    by (auto simp: smtp_handle_line_def Let_def keeps_trans_scram split: sum.splits prod.splits
        dest: cram scram cmd)
qed

section \<open>Recipient cache\<close>

text \<open>The answer of the store without a cache, and a cache that agrees with it.\<close>

definition recipient_exists :: "(username \<Rightarrow> string list result) \<Rightarrow> mail_address \<Rightarrow> bool result" where
  "recipient_exists store r =
     rbind (rbind (username_of (local_part r)) store) (\<lambda>mailboxes. Inr (mailboxes \<noteq> []))"

definition cache_agrees :: "(username \<Rightarrow> string list result) \<Rightarrow> smtp_session \<Rightarrow> bool" where
  "cache_agrees store s \<longleftrightarrow>
     (\<forall>r e. wf_domain (addr_domain r) \<longrightarrow> map_of (sn_recipient_cache s) (as_string r) = Some e \<longrightarrow>
        recipient_exists store r = Inr (rc_exists e))"

lemma as_string_inject:
  assumes "wf_domain (addr_domain a)" "wf_domain (addr_domain b)" "as_string a = as_string b"
  shows "a = (b :: mail_address)"
proof -
  have "local_part a = local_part b \<and> domain_str (addr_domain a) = domain_str (addr_domain b)"
    using assms(3) rfind_append [OF wf_domain_no_at [OF assms(1)], of "local_part a"]
      rfind_append [OF wf_domain_no_at [OF assms(2)], of "local_part b"]
    by (simp add: as_string_def)
  then show ?thesis by (cases a, cases b) (auto intro: domain.expand)
qed

lemma query_recipient_result:
  "snd (query_recipient env s r) = recipient_exists (sv_list_mailboxes env) r"
  by (auto simp: query_recipient_def recipient_exists_def Let_def split: sum.splits)

lemma query_recipient_agrees:
  assumes "cache_agrees (sv_list_mailboxes env) s" "wf_domain (addr_domain r)"
  shows "cache_agrees (sv_list_mailboxes env) (fst (query_recipient env s r))"
proof (cases "rbind (username_of (local_part r)) (sv_list_mailboxes env)")
  case (Inl e)
  with assms(1) show ?thesis by (simp add: query_recipient_def)
next
  case (Inr ms)
  then have ex: "recipient_exists (sv_list_mailboxes env) r = Inr (ms \<noteq> [])"
    by (simp add: recipient_exists_def)
  have "recipient_exists (sv_list_mailboxes env) r' = Inr (rc_exists e)"
    if "wf_domain (addr_domain r')"
      "map_of (sn_recipient_cache (fst (query_recipient env s r))) (as_string r') = Some e" for r' e
  proof (cases "as_string r' = as_string r")
    case True
    then have "r' = r" using as_string_inject that(1) assms(2) by blast
    with that(2) Inr ex show ?thesis by (auto simp: query_recipient_def Let_def update_conv')
  next
    case False
    with that Inr have "map_of (sn_recipient_cache s) (as_string r') = Some e"
      by (simp add: query_recipient_def Let_def update_conv')
    with that(1) assms(1) show ?thesis by (simp add: cache_agrees_def)
  qed
  then show ?thesis by (simp add: cache_agrees_def)
qed

section \<open>Where authentication comes from\<close>

definition auth_evidence :: "smtp_env \<Rightarrow> smtp_session \<Rightarrow> smtp_session \<Rightarrow> smtp_response \<Rightarrow> bool" where
  "auth_evidence env s s' r \<longleftrightarrow>
     sr_code r = 235 \<and>
     ((\<exists>u uo p. Username_new u = Inr uo \<and> ab_authenticate (sv_auth env) uo p = Inr True \<and>
         sn_username s' = Some u) \<or>
      (\<exists>st without_proof proof. sn_scram_state s = Some st \<and> sn_username s' = Some (ss_username st) \<and>
         verify_client_proof (sv_crypto env) (ss_stored_key st)
           (auth_message (ss_client_first_bare st) (ss_server_first st) without_proof) proof = Inr True))"

text \<open>A result that leaves the flag alone, or sets it with evidence.\<close>

definition auth_step :: "smtp_env \<Rightarrow> smtp_session \<Rightarrow> smtp_session \<times> smtp_response result \<Rightarrow> bool" where
  "auth_step env s x \<longleftrightarrow>
     sn_authenticated (fst x) = sn_authenticated s \<or>
     (\<exists>r. snd x = Inr r \<and> auth_evidence env s (fst x) r)"

lemma auth_step_same: "sn_authenticated (fst x) = sn_authenticated s \<Longrightarrow> auth_step env s x"
  by (simp add: auth_step_def)

lemma auth_step_plain: "auth_step env s (handle_auth_plain env s resp)"
  by (auto simp: handle_auth_plain_def auth_step_def auth_evidence_def resp_simps Let_def
      split: sum.splits bool.splits prod.splits)

lemma auth_step_scram: "auth_step env s (handle_scram_client_final env s l)"
  by (auto simp: handle_scram_client_final_def auth_step_def auth_evidence_def resp_simps Let_def
      split: option.splits sum.splits bool.splits prod.splits)

lemma auth_same_handlers:
  "sn_authenticated (fst (handle_helo s d)) = sn_authenticated s"
  "sn_authenticated (fst (handle_ehlo s d)) = sn_authenticated s"
  "sn_authenticated (fst (handle_data s)) = sn_authenticated s"
  "sn_authenticated (fst (handle_bdat s n b)) = sn_authenticated s"
  "sn_authenticated (fst (handle_rset s)) = sn_authenticated s"
  "sn_authenticated (fst (handle_quit s)) = sn_authenticated s"
  "sn_authenticated (fst (handle_starttls s)) = sn_authenticated s"
  "sn_authenticated (fst (handle_auth_cram_md5 env s)) = sn_authenticated s"
  "sn_authenticated (fst (handle_auth_scram_sha256 env s ir)) = sn_authenticated s"
  "sn_authenticated (fst (handle_cram_md5_response env s l)) = sn_authenticated s"
  by (simp_all add: handle_helo_def handle_ehlo_def handle_data_def handle_bdat_def handle_rset_def
      handle_quit_def handle_starttls_def handle_auth_cram_md5_def handle_auth_scram_sha256_def
      handle_cram_md5_response_def upd_tx_def Let_def split: option.split sum.split prod.split)

lemma auth_same_rcpt: "sn_authenticated (fst (handle_rcpt env s to ps)) = sn_authenticated s"
proof -
  obtain c where "fst (validate_recipient env s to) = s\<lparr>sn_recipient_cache := c\<rparr>"
    using validate_recipient_session by blast
  then show ?thesis
    by (cases "validate_recipient env s to")
      (simp add: handle_rcpt_def add_recipient_def upd_tx_def split: sum.split bool.split)
qed

lemma auth_same_mail: "sn_authenticated (fst (snd (handle_mail env rl s from ps))) = sn_authenticated s"
proof -
  obtain s' r where ps: "mail_params env s ps = (s', r)" by (cases "mail_params env s ps")
  with mail_params_only [OF ps] show ?thesis
    by (simp add: handle_mail_def upd_tx_def params_only_def Let_def split: prod.split option.split)
qed

lemma auth_step_command: "auth_step env s (snd (smtp_handle_command env rl s cmd))"
proof (cases cmd)
  case (SmtpAuth m ir)
  then show ?thesis
    by (auto simp: handle_auth_def auth_same_handlers auth_step_plain Let_def
        split: option.split intro: auth_step_same)
qed (auto intro: auth_step_same simp: auth_same_handlers auth_same_rcpt auth_same_mail)

lemma line_auth_evidence:
  assumes line: "smtp_handle_line env rl s line = (d, rl', s', r)"
    and gain: "\<not> sn_authenticated s" "sn_authenticated s'"
  shows "auth_evidence env s s' r"
proof -
  have cram: "sn_authenticated t = sn_authenticated s"
    if "handle_cram_md5_response env s l = (t, x)" for l t x
    using auth_same_handlers(10) [of env s l] that by simp
  have scram: "auth_step env s (t, x)" if "handle_scram_client_final env s l = (t, x)" for l t x
    using auth_step_scram [of env s l] that by simp
  have cmd: "auth_step env s (t, x)" if "smtp_handle_command env rl s c = (rl1, t, x)" for c rl1 t x
    using auth_step_command [of env s rl c] that by simp
  show ?thesis
    using line gain
    by (auto simp: smtp_handle_line_def Let_def auth_step_def split: if_splits sum.splits prod.splits
        dest!: cram scram cmd)
qed

section \<open>Properties of single commands\<close>

definition demo_smtp_env :: smtp_env where
  "demo_smtp_env =
     \<lparr>sv_auth = demo_auth, sv_fetch_scram_credentials = (\<lambda>u. Inr None),
      sv_list_mailboxes = (\<lambda>u. if u = Username ''bob'' then Inr [''INBOX''] else Inr []),
      sv_crypto = demo_crypto, sv_nom = nom_complete,
      sv_parse_network = (\<lambda>n. if n = ''127.0.0.0/8'' then Some (\<lambda>ip. ip = V4 0x7F000001) else None),
      sv_to_uppercase = to_ascii_uppercase, sv_unix_secs = 1000, sv_instant_nanos = 5,
      sv_since_epoch = Inr 1000, sv_random_u64 = Inr 9, sv_random_nonce = Inr ''N'',
      sv_connection_elapsed = 0, sv_io_error = (\<lambda>op. None), sv_temp_path = ''/tmp/x''\<rparr>"

definition demo_smtp_config :: smtp_config where
  "demo_smtp_config = (smtp_config_default ''/tmp'')\<lparr>smc_max_message_size := 40\<rparr>"

definition demo_scram_session :: smtp_session where
  "demo_scram_session =
     (SmtpSession_new (V4 1) demo_smtp_config)\<lparr>sn_scram_state := Some
        \<lparr>ss_client_first_bare = ''n=bob,r=c'', ss_server_first = ''r=cN,s=salt,i=4096'', ss_nonce = ''cN'',
         ss_username = ''bob'', ss_stored_key = ''k'', ss_server_key = ''s''\<rparr>\<rparr>"

abbreviation demo_rl :: rate_limiter where
  "demo_rl \<equiv> RateLimiter_new rate_limit_config_default"

definition demo_scram_result :: "bool \<times> rate_limiter \<times> smtp_session \<times> smtp_response" where
  "demo_scram_result = smtp_handle_line demo_smtp_env demo_rl demo_scram_session ''c=biws,r=cN,p=x''"

lemma demo_scram_flags:
  "sn_authenticated demo_scram_session = False"
  "sn_authenticated (fst (snd (snd demo_scram_result))) = True"
  by code_simp+

definition demo_mail_transaction :: smtp_session where
  "demo_mail_transaction =
     (SmtpSession_new (V4 0x7F000001) demo_smtp_config)
       \<lparr>sn_state := MailTransaction,
        sn_transaction := SmtpTransaction_new
          \<lparr>tx_sender := Some \<lparr>local_part = ''a'', addr_domain = Domain ''b.c''\<rparr>,
           tx_recipients := [\<lparr>local_part = ''bob'', addr_domain = Domain ''localhost''\<rparr>]\<rparr>\<rparr>"



text \<open>The recipient cache is transparent: as long as the mailbox store answers the same, a
  validation through the cache gives exactly the answer of the store (errors included) for every
  address with a well-formed domain, and keeps the cache in agreement with the store.\<close>

theorem recipient_cache_transparent:
  assumes "cache_agrees (sv_list_mailboxes env) s" "wf_domain (addr_domain r)"
  shows "snd (validate_recipient env s r) = recipient_exists (sv_list_mailboxes env) r \<and>
    cache_agrees (sv_list_mailboxes env) (fst (validate_recipient env s r))"
proof (cases "map_of (sn_recipient_cache s) (as_string r)")
  case None
  then show ?thesis
    using query_recipient_result query_recipient_agrees [OF assms] by (simp add: validate_recipient_def)
next
  case (Some e)
  with assms have "recipient_exists (sv_list_mailboxes env) r = Inr (rc_exists e)"
    by (simp add: cache_agrees_def)
  with Some assms(1) show ?thesis
    using query_recipient_result query_recipient_agrees [OF assms] by (simp add: validate_recipient_def)
qed

theorem recipient_cache_transparent_witness:
  "snd (validate_recipient demo_smtp_env (SmtpSession_new (V4 1) demo_smtp_config)
     \<lparr>local_part = ''bob'', addr_domain = Domain ''localhost''\<rparr>) = Inr True"
proof -
  have "cache_agrees store (SmtpSession_new (V4 1) demo_smtp_config)" for store
    by (simp add: cache_agrees_def SmtpSession_new_def)
  moreover have "wf_domain (Domain ''localhost'')" by code_simp
  moreover have "recipient_exists (sv_list_mailboxes demo_smtp_env)
      \<lparr>local_part = ''bob'', addr_domain = Domain ''localhost''\<rparr> = Inr True"
    by code_simp
  ultimately show ?thesis
    using recipient_cache_transparent [of demo_smtp_env "SmtpSession_new (V4 1) demo_smtp_config"
        "\<lparr>local_part = ''bob'', addr_domain = Domain ''localhost''\<rparr>"] by simp
qed

text \<open>A BDAT command never puts anything into the transaction: in a transaction with sender
  and recipients, every chunk size up to the maximum is answered with success, with or without
  LAST, while the accumulator stays empty and the session stays in the transaction.  So the
  size check never sees more than one chunk and no message is ever completed.\<close>

theorem smtp_bdat_never_accumulates:
  assumes "tx_inv s" "sn_state s = MailTransaction" "tx_recipients (sn_transaction s) \<noteq> []"
    and "n \<le> smc_max_message_size (sn_config s)" "n \<le> usize_max"
  shows "snd (handle_bdat s n is_last) = Inr (smtp_ok (show_nat n @ '' octets received'')) \<and>
    sn_state (fst (handle_bdat s n is_last)) = MailTransaction \<and>
    tx_bdat_state (sn_transaction (fst (handle_bdat s n is_last))) =
      Some (BdatState_new (smc_max_message_size (sn_config s))) \<and>
    tx_inv (fst (handle_bdat s n is_last))"
proof -
  have "tx_inv (fst (handle_bdat s n is_last))"
    using keeps_bdat [of undefined s n is_last] assms(1) by (simp add: keeps_def)
  moreover have "tx_is_valid (sn_transaction s)"
    using assms by (simp add: tx_inv_def tx_is_valid_def Let_def)
  moreover have "usize_add 0 n = n" using assms(5) by (simp add: usize_add_exact)
  ultimately show ?thesis
    using assms(1,2,4)
    by (cases "tx_bdat_state (sn_transaction s)")
      (auto simp: handle_bdat_def upd_tx_def BdatState_new_def tx_inv_def Let_def)
qed

theorem smtp_bdat_never_accumulates_witness:
  "snd (handle_bdat demo_mail_transaction 40 True) = Inr (smtp_ok (show_nat 40 @ '' octets received''))"
  using smtp_bdat_never_accumulates [of demo_mail_transaction 40 True]
  by (simp add: demo_mail_transaction_def tx_inv_def SmtpSession_new_def SmtpTransaction_new_def
      demo_smtp_config_def smtp_config_default_def usize_max_def Let_def)

end
