(* ===== verification/Smtp_Data.thy ===== *)
theory Smtp_Data
  imports Smtp_Session Proto_Mime
begin

text \<open>
  Model of \<^verbatim>\<open>crates/rusmes-smtp/src/session/data.rs\<close>: the DATA receiver with its buffer that
  spills to a temporary file, the size limits, and the hand-over of the accepted message to the
  mail processor.  The loop variables are the record \<open>data_sink\<close>, one round of the loop is
  \<open>data_line\<close>, the code after the loop is \<open>data_finish\<close>.  The contents of the temporary file are
  part of the sink.  The lemmas show that what a client sends with dot-stuffing is what arrives,
  whether or not it is spilled, and that the limits hold for every accepted message.
\<close>

section \<open>Receiving\<close>

record data_sink =
  dk_mem_buf :: string
  dk_temp_file :: "string option"
  dk_total_bytes :: nat

definition data_sink_new :: data_sink where
  "data_sink_new = \<lparr>dk_mem_buf = [], dk_temp_file = None, dk_total_bytes = 0\<rparr>"

datatype data_round = MoreData data_sink | EndOfData data_sink | TooBig | DataFailed string

definition unstuff :: "string \<Rightarrow> string" where
  "unstuff line = (if starts_with line ''..'' then drop 1 line else line)"

definition io_step :: "smtp_env \<Rightarrow> tempfile_op \<Rightarrow> string \<Rightarrow> 'a \<Rightarrow> 'a result" where
  "io_step env act msg x = (case sv_io_error env act of None \<Rightarrow> Inr x | Some e \<Rightarrow> Inl (msg @ e))"

definition spill :: "smtp_env \<Rightarrow> nat \<Rightarrow> data_sink \<Rightarrow> string \<Rightarrow> data_sink result" where
  "spill env threshold sink chunk =
     (if dk_temp_file sink = None \<and> threshold < usize_add (length (dk_mem_buf sink)) (length chunk)
      then rbind (io_step env CreateTemp ''Failed to create tempfile for DATA spill: '' ()) (\<lambda>_.
           rbind (io_step env WriteBuffered ''Failed to flush mem_buf to tempfile: '' ()) (\<lambda>_.
             Inr (sink\<lparr>dk_mem_buf := [], dk_temp_file := Some (dk_mem_buf sink)\<rparr>)))
      else Inr sink)"

definition sink_chunk :: "smtp_env \<Rightarrow> data_sink \<Rightarrow> string \<Rightarrow> data_sink result" where
  "sink_chunk env sink chunk =
     (case dk_temp_file sink of
        None \<Rightarrow> Inr (sink\<lparr>dk_mem_buf := dk_mem_buf sink @ chunk\<rparr>)
      | Some contents \<Rightarrow>
          io_step env WriteChunk ''Failed to write DATA chunk to tempfile: ''
            (sink\<lparr>dk_temp_file := Some (contents @ chunk)\<rparr>))"

definition data_line :: "smtp_env \<Rightarrow> smtp_config \<Rightarrow> data_sink \<Rightarrow> string \<Rightarrow> data_round" where
  "data_line env cfg sink line =
     (if trim line = ''.'' then EndOfData sink
      else
        let chunk = unstuff line;
            new_total = usize_saturating_add (dk_total_bytes sink) (length chunk) in
        if smc_max_message_size cfg < new_total then TooBig
        else case rbind (spill env (smc_data_tempfile_threshold cfg)
                           (sink\<lparr>dk_total_bytes := new_total\<rparr>) chunk)
                    (\<lambda>sk. sink_chunk env sk chunk) of
          Inl e \<Rightarrow> DataFailed e
        | Inr sk \<Rightarrow> MoreData sk)"

fun data_lines :: "smtp_env \<Rightarrow> smtp_config \<Rightarrow> data_sink \<Rightarrow> string list \<Rightarrow> data_round" where
  "data_lines env cfg sink [] = MoreData sink"
| "data_lines env cfg sink (l # ls) =
     (case data_line env cfg sink l of MoreData sk \<Rightarrow> data_lines env cfg sk ls | r \<Rightarrow> r)"

section \<open>Accepting\<close>

record accepted_message =
  am_sender :: "mail_address option"
  am_recipients :: "mail_address list"
  am_body :: message_body
  am_cleanup_path :: "string option"

definition build_message_body :: "smtp_env \<Rightarrow> data_sink \<Rightarrow> (message_body \<times> string option) result" where
  "build_message_body env sink =
     (case dk_temp_file sink of
        None \<Rightarrow> Inr (Small (dk_mem_buf sink), None)
      | Some contents \<Rightarrow>
          rbind (io_step env FlushTemp ''Failed to flush tempfile: '' ()) (\<lambda>_.
          rbind (io_step env KeepTemp ''Failed to keep tempfile: '' ()) (\<lambda>_.
          rbind (io_step env OpenKept ''Failed to open kept tempfile as LargeBody: '' ()) (\<lambda>_.
            Inr (Large (LargeBody_from_reader contents (length contents)), Some (sv_temp_path env))))))"

definition end_transaction :: "smtp_session \<Rightarrow> smtp_session" where
  "end_transaction s = (upd_tx tx_reset s)\<lparr>sn_state := Authenticated\<rparr>"

text \<open>The acceptance of a body that passed the size checks: reply, hand-over, reset.\<close>

definition accept_body ::
    "smtp_env \<Rightarrow> smtp_session \<Rightarrow> data_sink \<Rightarrow> smtp_session \<times> smtp_response \<times> accepted_message option" where
  "accept_body env s sink =
     (case build_message_body env sink of
        Inl e \<Rightarrow> (end_transaction s, local_error ''Internal error finalising message body'', None)
      | Inr (body, cleanup) \<Rightarrow>
          (end_transaction (upd_tx (\<lambda>t. t\<lparr>tx_message_size := dk_total_bytes sink\<rparr>) s),
           smtp_ok ''Message accepted for delivery'',
           Some \<lparr>am_sender = tx_sender (sn_transaction s),
                 am_recipients = tx_recipients (sn_transaction s),
                 am_body = body, am_cleanup_path = cleanup\<rparr>))"

definition data_finish ::
    "smtp_env \<Rightarrow> smtp_session \<Rightarrow> data_sink \<Rightarrow> smtp_session \<times> smtp_response \<times> accepted_message option" where
  "data_finish env s sink =
     (case tx_declared_size (sn_transaction s) of
        Some declared_size \<Rightarrow>
          if usize_add declared_size (declared_size div 10) < dk_total_bytes sink
          then (end_transaction s,
                storage_exceeded (''Message size '' @ show_nat (dk_total_bytes sink) @
                  '' exceeds declared size '' @ show_nat declared_size), None)
          else accept_body env s sink
      | None \<Rightarrow> accept_body env s sink)"

definition data_too_big :: "smtp_session \<Rightarrow> smtp_session \<times> smtp_response" where
  "data_too_big s =
     (end_transaction s,
      storage_exceeded (''Message size exceeds maximum '' @ show_nat (smc_max_message_size (sn_config s))))"

text \<open>The task that processes an accepted message, up to the call of the router: the result is
  the mail that is routed, or the error that is logged.  Removing the temporary file never
  fails the task.\<close>

definition process_accepted_message ::
    "(string \<Rightarrow> string) \<Rightarrow> smtp_env \<Rightarrow> mail_id \<Rightarrow> message_id \<Rightarrow> accepted_message \<Rightarrow> mail result" where
  "process_accepted_message lc env new_id new_message_id am =
     rbind (case am_body am of
              Small b \<Rightarrow> Inr b
            | Large large \<Rightarrow>
                map_err (\<lambda>e. ''Failed to read large body for header parsing: '' @ mail_error_display e)
                  (fst (read_to_bytes (sv_io_error env ReadKept) large))) (\<lambda>raw.
       case parse_headers lc raw of
         (headers, body_offset) \<Rightarrow>
           Inr (Mail_new new_id new_message_id (am_sender am) (am_recipients am)
                  \<lparr>mm_headers = to_header_map lc headers,
                   mm_body = Small (if body_offset < length raw then drop body_offset raw else [])\<rparr>
                  None None))"

section \<open>The sink\<close>

definition sink_bytes :: "data_sink \<Rightarrow> string" where
  "sink_bytes sink = (case dk_temp_file sink of None \<Rightarrow> dk_mem_buf sink | Some f \<Rightarrow> f @ dk_mem_buf sink)"

definition sink_inv :: "nat \<Rightarrow> data_sink \<Rightarrow> bool" where
  "sink_inv m sink \<longleftrightarrow>
     dk_total_bytes sink = length (sink_bytes sink) \<and> length (sink_bytes sink) \<le> m \<and>
     (dk_temp_file sink \<noteq> None \<longrightarrow> dk_mem_buf sink = [])"

lemma sink_inv_new: "sink_inv m data_sink_new" "sink_bytes data_sink_new = []"
  by (simp_all add: sink_inv_def data_sink_new_def sink_bytes_def)

text \<open>Spilling moves bytes without changing them.\<close>

lemma sink_round:
  assumes "rbind (spill env t sink chunk) (\<lambda>sk. sink_chunk env sk chunk) = Inr sk'"
    and "dk_temp_file sink \<noteq> None \<longrightarrow> dk_mem_buf sink = []"
  shows "sink_bytes sk' = sink_bytes sink @ chunk" "dk_total_bytes sk' = dk_total_bytes sink"
    "dk_temp_file sk' \<noteq> None \<longrightarrow> dk_mem_buf sk' = []"
  using assms
  by (auto simp: rbind_Inr_iff spill_def sink_chunk_def io_step_def sink_bytes_def
      split: if_splits option.splits)

lemma data_line_more:
  assumes "sink_inv m sink" "m = smc_max_message_size cfg" "m < usize_max"
    and "data_line env cfg sink line = MoreData sk"
  shows "sink_inv m sk" "sink_bytes sk = sink_bytes sink @ unstuff line"
proof -
  let ?n = "usize_saturating_add (dk_total_bytes sink) (length (unstuff line))"
  from assms(4) have r: "rbind (spill env (smc_data_tempfile_threshold cfg)
        (sink\<lparr>dk_total_bytes := ?n\<rparr>) (unstuff line)) (\<lambda>sk. sink_chunk env sk (unstuff line)) = Inr sk"
    and n: "\<not> m < ?n"
    by (auto simp: data_line_def Let_def assms(2) split: if_splits sum.splits)
  have total: "dk_total_bytes sink + length (unstuff line) \<le> m"
    using n usize_saturating_add_le_iff [OF assms(3)] by (simp add: not_less)
  then have exact: "?n = dk_total_bytes sink + length (unstuff line)"
    using assms(3) by (simp add: usize_saturating_add_def)
  have p: "dk_temp_file (sink\<lparr>dk_total_bytes := ?n\<rparr>) \<noteq> None \<longrightarrow> dk_mem_buf (sink\<lparr>dk_total_bytes := ?n\<rparr>) = []"
    using assms(1) by (simp add: sink_inv_def)
  note round = sink_round [OF r p]
  have same: "sink_bytes (sink\<lparr>dk_total_bytes := ?n\<rparr>) = sink_bytes sink"
    by (simp add: sink_bytes_def split: option.split)
  show "sink_bytes sk = sink_bytes sink @ unstuff line" using round(1) same by simp
  then show "sink_inv m sk"
    using round total exact assms(1) by (simp add: sink_inv_def)
qed

section \<open>Dot-stuffing\<close>

text \<open>The transparency procedure of the sender (RFC 5321, 4.5.2).\<close>

definition stuff :: "string \<Rightarrow> string" where
  "stuff line = (if starts_with line ''.'' then CHR ''.'' # line else line)"

lemma unstuff_stuff: "unstuff (stuff l) = l"
  by (cases l) (auto simp: unstuff_def stuff_def starts_with_def)

lemma strip_words_stop:
  assumes "\<And>w. w \<in> set ws \<Longrightarrow> d \<notin> set w"
  shows "\<exists>u'. strip_words ws (u @ d # v) = u' @ d # v"
proof (induction "length u" arbitrary: u rule: less_induct)
  case less
  show ?case
  proof (cases "find (\<lambda>w. w \<noteq> [] \<and> starts_with (u @ d # v) w) ws")
    case None
    then show ?thesis by (subst strip_words.simps) auto
  next
    case (Some w)
    then have w: "w \<in> set ws" "w \<noteq> []" "starts_with (u @ d # v) w"
      by (auto simp: find_Some_iff)
    then obtain r where r: "u @ d # v = w @ r" by (auto simp: starts_with_iff)
    with assms [OF w(1)] obtain u' where u': "u = w @ u'"
      by (auto simp: append_eq_append_conv2 Cons_eq_append_conv)
    then have "length u' < length u" using w(2) by simp
    from less [OF this] show ?thesis
      using Some u' by (subst strip_words.simps) simp
  qed
qed

lemma ws_seqs_no_graphic: "w \<in> set ws_seqs \<Longrightarrow> is_graphic d \<Longrightarrow> d \<notin> set w"
  by (auto simp: ws_seqs_def is_graphic_def)

lemma trim_two_graphic:
  assumes "is_graphic c" "is_graphic d"
  shows "\<exists>s'. trim (c # d # s) = c # d # s'"
proof -
  have "\<exists>u'. strip_words (map rev ws_seqs) (rev s @ d # [c]) = u' @ d # [c]"
    by (rule strip_words_stop) (use ws_seqs_no_graphic assms in auto)
  then show ?thesis
    using assms by (auto simp: trim_def trim_start_graphic trim_end_def) (metis rev_rev_ident)
qed

text \<open>A line of a message that a sender can transmit: the receiver also takes a lone dot between
  blanks for the end of the message, which stuffing does not protect.\<close>

definition sendable :: "string \<Rightarrow> bool" where
  "sendable l \<longleftrightarrow> starts_with l ''.'' \<or> trim l \<noteq> ''.''"

lemma stuffed_not_terminator: "sendable l \<Longrightarrow> trim (stuff l) \<noteq> ''.''"
proof (cases "starts_with l ''.''")
  case True
  then obtain s where "l = CHR ''.'' # s" by (auto simp: starts_with_iff)
  moreover have "is_graphic (CHR ''.'')" by (simp add: is_graphic_def)
  ultimately show ?thesis
    using trim_two_graphic [of "CHR ''.''" "CHR ''.''" s] by (auto simp: stuff_def)
qed (simp add: sendable_def stuff_def)

abbreviation io_works :: "smtp_env \<Rightarrow> bool" where
  "io_works env \<equiv> \<forall>op. sv_io_error env op = None"

lemma data_line_fits:
  assumes "sink_inv m sink" "m = smc_max_message_size cfg" "m < usize_max"
    and "sendable l" "length (sink_bytes sink) + length l \<le> m" "io_works env"
  shows "\<exists>sk. data_line env cfg sink (stuff l) = MoreData sk"
proof -
  have "\<not> smc_max_message_size cfg < usize_saturating_add (dk_total_bytes sink) (length (unstuff (stuff l)))"
    using assms(1,5) usize_saturating_add_le_iff [OF assms(3)]
    by (simp add: unstuff_stuff sink_inv_def assms(2) [symmetric] not_less)
  moreover have "\<exists>sk'. rbind (spill env t sk c) (\<lambda>sk. sink_chunk env sk c) = Inr sk'" for t sk c
    using assms(6) by (auto simp: spill_def sink_chunk_def io_step_def split: option.split)
  ultimately show ?thesis
    using stuffed_not_terminator [OF assms(4)]
    by (auto simp: data_line_def Let_def split: sum.split) (metis Inr_Inl_False)
qed

lemma data_lines_deliver:
  assumes "m = smc_max_message_size cfg" "m < usize_max" "io_works env"
  shows "sink_inv m sink \<Longrightarrow> list_all sendable ls \<Longrightarrow> length (sink_bytes sink) + length (concat ls) \<le> m \<Longrightarrow>
    trim fin = ''.'' \<Longrightarrow>
    \<exists>sk. data_lines env cfg sink (map stuff ls @ [fin]) = EndOfData sk \<and> sink_inv m sk \<and>
      sink_bytes sk = sink_bytes sink @ concat ls"
proof (induction ls arbitrary: sink)
  case Nil
  then show ?case by (simp add: data_line_def)
next
  case (Cons l ls)
  then have l: "sendable l" "length (sink_bytes sink) + length l \<le> m" by simp_all
  obtain sk where sk: "data_line env cfg sink (stuff l) = MoreData sk"
    using data_line_fits [OF Cons.prems(1) assms(1,2) l assms(3)] by blast
  note more = data_line_more [OF Cons.prems(1) assms(1,2) sk]
  have bytes: "sink_bytes sk = sink_bytes sink @ l" using more(2) by (simp add: unstuff_stuff)
  with Cons.prems have "length (sink_bytes sk) + length (concat ls) \<le> m" by simp
  from Cons.IH [OF more(1) _ this] Cons.prems sk bytes show ?case by simp
qed

lemma data_lines_contents:
  assumes "m = smc_max_message_size cfg" "m < usize_max"
  shows "sink_inv m sink \<Longrightarrow> data_lines env cfg sink ls = EndOfData sk \<Longrightarrow>
    sink_inv m sk \<and>
    sink_bytes sk = sink_bytes sink @ concat (map unstuff (takeWhile (\<lambda>l. trim l \<noteq> ''.'') ls))"
proof (induction ls arbitrary: sink)
  case (Cons l ls)
  show ?case
  proof (cases "trim l = ''.''")
    case True
    with Cons.prems show ?thesis by (simp add: data_line_def)
  next
    case False
    with Cons.prems(2) obtain sk1 where sk1: "data_line env cfg sink l = MoreData sk1"
      by (auto simp: data_line_def Let_def split: data_round.splits if_splits sum.splits)
    with Cons.prems data_line_more [OF Cons.prems(1) assms sk1] Cons.IH [of sk1] False show ?thesis
      by simp
  qed
qed simp

fun body_content :: "message_body \<Rightarrow> string" where
  "body_content (Small b) = b"
| "body_content (Large l) = lb_stream l"

lemma build_body_content:
  "build_message_body env sink = Inr (body, cleanup) \<Longrightarrow> sink_inv m sink \<Longrightarrow> body_content body = sink_bytes sink"
  by (auto simp: build_message_body_def rbind_Inr_iff io_step_def sink_bytes_def sink_inv_def
      LargeBody_from_reader_def split: option.splits)

lemma build_body_works: "io_works env \<Longrightarrow> \<exists>body cleanup. build_message_body env sink = Inr (body, cleanup)"
  by (auto simp: build_message_body_def io_step_def split: option.split)

lemma process_content:
  "io_works env \<Longrightarrow>
   process_accepted_message lc env i j am =
     Inr (Mail_new i j (am_sender am) (am_recipients am)
            (MimeMessage_parse_from_bytes lc (body_content (am_body am))) None None)"
  by (cases "am_body am")
    (auto simp: process_accepted_message_def MimeMessage_parse_from_bytes_def read_to_bytes_def
      split: prod.split)

section \<open>Properties\<close>


definition demo_env_lines :: "string list" where
  "demo_env_lines = [''Subject: x'' @ CRLF, CRLF, ''.hidden'' @ CRLF]"


text \<open>Every message the DATA command accepts obeys the limits: whatever lines the client
  sends, the body of an accepted message is the concatenation of the lines before the
  terminator with one stuffed dot removed each, it is at most the configured maximum, at most
  the declared size plus a tenth, and the client gets a 250.\<close>

theorem smtp_data_limits:
  assumes "data_lines env (sn_config s) data_sink_new ls = EndOfData sk"
    and "data_finish env s sk = (s', r, Some am)"
    and "smc_max_message_size (sn_config s) < usize_max"
  shows "body_content (am_body am) = concat (map unstuff (takeWhile (\<lambda>l. trim l \<noteq> ''.'') ls)) \<and>
    length (body_content (am_body am)) \<le> smc_max_message_size (sn_config s) \<and>
    (\<forall>n. tx_declared_size (sn_transaction s) = Some n \<longrightarrow>
       length (body_content (am_body am)) \<le> usize_add n (n div 10)) \<and>
    sr_code r = 250"
proof -
  let ?m = "smc_max_message_size (sn_config s)"
  have sk: "sink_inv ?m sk" "sink_bytes sk = concat (map unstuff (takeWhile (\<lambda>l. trim l \<noteq> ''.'') ls))"
    using data_lines_contents [OF refl assms(3) sink_inv_new(1) assms(1)] by (simp_all add: sink_inv_new)
  have acc: "accept_body env s sk = (s', r, Some am)"
    and decl: "\<forall>n. tx_declared_size (sn_transaction s) = Some n \<longrightarrow> dk_total_bytes sk \<le> usize_add n (n div 10)"
    using assms(2) by (auto simp: data_finish_def split: option.splits if_splits)
  from acc obtain body cleanup where b: "build_message_body env sk = Inr (body, cleanup)"
      "am_body am = body" "sr_code r = 250"
    by (auto simp: accept_body_def resp_simps split: sum.splits)
  have "body_content (am_body am) = sink_bytes sk" using build_body_content [OF b(1) sk(1)] b(2) by simp
  with sk decl b(3) show ?thesis by (simp add: sink_inv_def)
qed

definition demo_sink :: data_sink where
  "demo_sink = \<lparr>dk_mem_buf = ''.hi'', dk_temp_file = None, dk_total_bytes = 3\<rparr>"

definition demo_accepted :: accepted_message where
  "demo_accepted =
     \<lparr>am_sender = tx_sender (sn_transaction demo_mail_transaction),
      am_recipients = tx_recipients (sn_transaction demo_mail_transaction),
      am_body = Small ''.hi'', am_cleanup_path = None\<rparr>"

theorem smtp_data_limits_witness:
  "body_content (am_body demo_accepted) =
     concat (map unstuff (takeWhile (\<lambda>l. trim l \<noteq> ''.'') [''..hi'', ''.'']))"
proof -
  have cfg: "smc_max_message_size (sn_config demo_mail_transaction) = 40"
    "tx_declared_size (sn_transaction demo_mail_transaction) = None"
    by (simp_all add: demo_mail_transaction_def SmtpSession_new_def demo_smtp_config_def SmtpTransaction_new_def)
  have lines: "data_lines demo_smtp_env (sn_config demo_mail_transaction) data_sink_new [''..hi'', ''.''] =
      EndOfData demo_sink"
    by code_simp
  have "data_finish demo_smtp_env demo_mail_transaction demo_sink =
      (fst (data_finish demo_smtp_env demo_mail_transaction demo_sink),
       fst (snd (data_finish demo_smtp_env demo_mail_transaction demo_sink)), Some demo_accepted)"
    using cfg(2) by (simp add: data_finish_def accept_body_def build_message_body_def demo_sink_def demo_accepted_def)
  from smtp_data_limits [OF lines this] cfg show ?thesis by (simp add: usize_max_def)
qed

end
