(* ===== verification/Smtp_Server.thy ===== *)
theory Smtp_Server
  imports Smtp_Data
begin

text \<open>
  Model of the connection loop \<^verbatim>\<open>SmtpSessionHandler::handle\<close> of
  \<^verbatim>\<open>crates/rusmes-smtp/src/session/mod.rs\<close> and of the accept loop of \<^verbatim>\<open>server.rs\<close>: any number
  of concurrent connections that share one rate limiter.  A connection is a session and, while
  the handler is inside the DATA loop, the sink of that loop.  An event is an accepted TCP
  connection or the outcome of one read on a connection, together with the answers of the
  environment and whether the reply could be written; a run is any interleaving of events.
  What the \<^verbatim>\<open>ipnetwork\<close> crate says about CIDR strings is fixed for a run.
\<close>

section \<open>Connections\<close>

record smtp_conn =
  cn_session :: smtp_session
  cn_sink :: "data_sink option"

text \<open>A line of length zero is the end of the stream.\<close>

datatype smtp_read = ReadLine string | ReadFailed | ReadTimeout

text \<open>The result of a round: the limiter, the connection unless it is closed, the reply, and the
  message handed over to processing.\<close>

type_synonym round_result =
  "rate_limiter \<times> smtp_conn option \<times> smtp_response option \<times> accepted_message option"

definition command_round :: "smtp_env \<Rightarrow> rate_limiter \<Rightarrow> smtp_session \<Rightarrow> smtp_read \<Rightarrow> round_result" where
  "command_round env rl s rd =
     (if smc_connection_timeout (sn_config s) < sv_connection_elapsed env
      then (rl, None, Some (smtp_reply 421 ''4.4.2 Connection timeout - closing connection''), None)
      else case rd of
        ReadTimeout \<Rightarrow> (rl, None, Some (smtp_reply 421 ''4.4.2 Connection timed out due to inactivity''), None)
      | ReadFailed \<Rightarrow> (rl, None, None, None)
      | ReadLine line \<Rightarrow>
          if line = [] \<or> \<not> utf8_valid line then (rl, None, None, None)
          else case smtp_handle_line env rl s line of
            (is_data, rl', s', r) \<Rightarrow>
              if sn_state s' = QuitState then (rl', None, Some r, None)
              else (rl', Some \<lparr>cn_session = s',
                              cn_sink = (if is_data \<and> sn_state s' = DataState then Some data_sink_new else None)\<rparr>,
                    Some r, None))"

text \<open>An error of the DATA loop is answered by the command loop; the session state is kept.\<close>

definition data_failed :: "rate_limiter \<Rightarrow> smtp_session \<Rightarrow> round_result" where
  "data_failed rl s =
     (rl, Some \<lparr>cn_session = s, cn_sink = None\<rparr>, Some (local_error ''Error reading message data''), None)"

text \<open>There is no timeout inside the DATA loop.\<close>

definition data_round_step ::
    "smtp_env \<Rightarrow> rate_limiter \<Rightarrow> smtp_session \<Rightarrow> data_sink \<Rightarrow> smtp_read \<Rightarrow> round_result" where
  "data_round_step env rl s sink rd =
     (case rd of
        ReadTimeout \<Rightarrow> (rl, Some \<lparr>cn_session = s, cn_sink = Some sink\<rparr>, None, None)
      | ReadFailed \<Rightarrow> data_failed rl s
      | ReadLine line \<Rightarrow>
          if line = [] \<or> \<not> utf8_valid line then data_failed rl s
          else case data_line env (sn_config s) sink line of
            MoreData sk \<Rightarrow> (rl, Some \<lparr>cn_session = s, cn_sink = Some sk\<rparr>, None, None)
          | DataFailed e \<Rightarrow> data_failed rl s
          | TooBig \<Rightarrow>
              (case data_too_big s of (s', r) \<Rightarrow> (rl, Some \<lparr>cn_session = s', cn_sink = None\<rparr>, Some r, None))
          | EndOfData sk \<Rightarrow>
              (case data_finish env s sk of
                 (s', r, am) \<Rightarrow> (rl, Some \<lparr>cn_session = s', cn_sink = None\<rparr>, Some r, am)))"

definition conn_round :: "smtp_env \<Rightarrow> rate_limiter \<Rightarrow> smtp_conn \<Rightarrow> smtp_read \<Rightarrow> round_result" where
  "conn_round env rl c rd =
     (case cn_sink c of
        None \<Rightarrow> command_round env rl (cn_session c) rd
      | Some sink \<Rightarrow> data_round_step env rl (cn_session c) sink rd)"

section \<open>The server\<close>

record smtp_server =
  sms_config :: smtp_config
  sms_limiter :: rate_limiter
  sms_conns :: "(nat \<times> smtp_conn) list"

datatype smtp_event =
    SmtpAccept nat nat ip_addr bool
  | SmtpRead nat smtp_env smtp_read bool

record smtp_output =
  so_reply :: "smtp_response option"
  so_mail :: "accepted_message option"

definition silent :: smtp_output where
  "silent = \<lparr>so_reply = None, so_mail = None\<rparr>"

definition SmtpServer_new :: "smtp_config \<Rightarrow> rate_limiter \<Rightarrow> smtp_server" where
  "SmtpServer_new config rl = \<lparr>sms_config = config, sms_limiter = rl, sms_conns = []\<rparr>"

definition smtp_accept :: "nat \<Rightarrow> nat \<Rightarrow> ip_addr \<Rightarrow> bool \<Rightarrow> smtp_server \<Rightarrow> smtp_server \<times> smtp_output" where
  "smtp_accept i now ip written srv =
     (if map_of (sms_conns srv) i \<noteq> None then (srv, silent)
      else if list_ex (\<lambda>net. net ip) (smc_blocked_networks (sms_config srv)) then (srv, silent)
      else case allow_connection now ip (sms_limiter srv) of
        (rl, allowed) \<Rightarrow>
          if \<not> allowed
          then (srv\<lparr>sms_limiter := rl\<rparr>,
                silent\<lparr>so_reply := Some (smtp_reply 421 ''4.7.0 Too many concurrent connections from your IP'')\<rparr>)
          else if \<not> written then (srv\<lparr>sms_limiter := release_connection ip rl\<rparr>, silent)
          else (srv\<lparr>sms_limiter := rl,
                    sms_conns := AList.update i
                      \<lparr>cn_session = SmtpSession_new ip (sms_config srv), cn_sink = None\<rparr> (sms_conns srv)\<rparr>,
                silent\<lparr>so_reply := Some (service_ready (smc_hostname (sms_config srv)))\<rparr>))"

definition smtp_close :: "nat \<Rightarrow> ip_addr \<Rightarrow> rate_limiter \<Rightarrow> smtp_server \<Rightarrow> smtp_server" where
  "smtp_close i ip rl srv =
     srv\<lparr>sms_limiter := release_connection ip rl, sms_conns := AList.delete i (sms_conns srv)\<rparr>"

text \<open>A reply that cannot be written ends the session before a message is handed over.\<close>

definition smtp_conn_step ::
    "nat \<Rightarrow> smtp_env \<Rightarrow> smtp_read \<Rightarrow> bool \<Rightarrow> smtp_conn \<Rightarrow> smtp_server \<Rightarrow> smtp_server \<times> smtp_output" where
  "smtp_conn_step i env rd written c srv =
     (let ip = sn_remote_ip (cn_session c) in
      case conn_round env (sms_limiter srv) c rd of
        (rl, next_conn, reply, am) \<Rightarrow>
          if reply \<noteq> None \<and> \<not> written then (smtp_close i ip rl srv, silent)
          else case next_conn of
            None \<Rightarrow> (smtp_close i ip rl srv, \<lparr>so_reply = reply, so_mail = am\<rparr>)
          | Some c' \<Rightarrow> (srv\<lparr>sms_limiter := rl, sms_conns := AList.update i c' (sms_conns srv)\<rparr>,
                       \<lparr>so_reply = reply, so_mail = am\<rparr>))"

fun smtp_server_step ::
    "(string \<Rightarrow> (ip_addr \<Rightarrow> bool) option) \<Rightarrow> smtp_server \<Rightarrow> smtp_event \<Rightarrow> smtp_server \<times> smtp_output" where
  "smtp_server_step net srv (SmtpAccept i now ip written) = smtp_accept i now ip written srv"
| "smtp_server_step net srv (SmtpRead i env rd written) =
     (case map_of (sms_conns srv) i of
        None \<Rightarrow> (srv, silent)
      | Some c \<Rightarrow> smtp_conn_step i (env\<lparr>sv_parse_network := net\<rparr>) rd written c srv)"

section \<open>Invariant\<close>

definition conn_inv :: "(string \<Rightarrow> (ip_addr \<Rightarrow> bool) option) \<Rightarrow> smtp_config \<Rightarrow> smtp_conn \<Rightarrow> bool" where
  "conn_inv net cfg c \<longleftrightarrow>
     smtp_inv net (cn_session c) \<and> sn_config (cn_session c) = cfg \<and>
     (\<forall>sk. cn_sink c = Some sk \<longrightarrow>
        sn_state (cn_session c) = DataState \<and> sink_inv (smc_max_message_size cfg) sk)"

definition smtp_server_inv :: "(string \<Rightarrow> (ip_addr \<Rightarrow> bool) option) \<Rightarrow> smtp_server \<Rightarrow> bool" where
  "smtp_server_inv net srv \<longleftrightarrow>
     smc_max_message_size (sms_config srv) < usize_max \<and>
     (\<forall>i c. map_of (sms_conns srv) i = Some c \<longrightarrow> conn_inv net (sms_config srv) c)"

lemma keeps_end_transaction: "keeps net s (end_transaction s)"
  by (simp add: end_transaction_def tx_reset_def keeps_defs)

lemma tx_inv_end: "tx_inv s \<Longrightarrow> tx_inv (end_transaction s)"
  using keeps_end_transaction [of undefined s] by (simp add: keeps_def)

lemma data_finish_session:
  assumes "data_finish env s sk = (s', r, am)"
  shows "keeps net s s'"
proof -
  have "end_transaction (upd_tx (\<lambda>t. t\<lparr>tx_message_size := n\<rparr>) s) = end_transaction s" for n
    by (simp add: end_transaction_def upd_tx_def tx_reset_def)
  with assms have "s' = end_transaction s"
    by (auto simp: data_finish_def accept_body_def split: option.splits if_splits sum.splits)
  then show ?thesis by (simp add: keeps_end_transaction)
qed

lemma keeps_config: "keeps net s s' \<Longrightarrow> sn_config s' = sn_config s"
  by (simp add: keeps_def smtp_frame_def)

lemma conn_inv_keeps:
  "conn_inv net cfg \<lparr>cn_session = s, cn_sink = k\<rparr> \<Longrightarrow> keeps net s s' \<Longrightarrow>
     conn_inv net cfg \<lparr>cn_session = s', cn_sink = None\<rparr>"
  using keeps_inv keeps_config by (simp add: conn_inv_def)

lemma command_round_inv:
  assumes "conn_inv (sv_parse_network env) cfg \<lparr>cn_session = s, cn_sink = k\<rparr>"
    and "command_round env rl s rd = (rl', Some c', reply, am)"
  shows "conn_inv (sv_parse_network env) cfg c' \<and> am = None"
proof -
  from assms(2) obtain line d s' r where h: "smtp_handle_line env rl s line = (d, rl', s', r)"
      and c': "c' = \<lparr>cn_session = s', cn_sink = (if d \<and> sn_state s' = DataState then Some data_sink_new else None)\<rparr>"
      and "am = None"
    by (auto simp: command_round_def split: if_splits smtp_read.splits prod.splits)
  have "keeps (sv_parse_network env) s s'" using keeps_line [of env s rl line] h by simp
  from conn_inv_keeps [OF assms(1) this] c' \<open>am = None\<close> show ?thesis
    by (simp add: conn_inv_def sink_inv_new)
qed

lemma data_round_inv:
  assumes "conn_inv net cfg \<lparr>cn_session = s, cn_sink = Some sink\<rparr>"
    and "smc_max_message_size cfg < usize_max"
    and "data_round_step env rl s sink rd = (rl', Some c', reply, am)"
  shows "conn_inv net cfg c'"
proof -
  from assms(1) have inv: "smtp_inv net s" "sn_config s = cfg" "sn_state s = DataState"
    "sink_inv (smc_max_message_size cfg) sink" by (simp_all add: conn_inv_def)
  note idle = conn_inv_keeps [OF assms(1)]
  show ?thesis
  proof (cases "\<exists>line sk. rd = ReadLine line \<and> data_line env (sn_config s) sink line = MoreData sk")
    case True
    then obtain line sk where l: "rd = ReadLine line" "data_line env cfg sink line = MoreData sk"
      using inv(2) by auto
    from data_line_more [OF inv(4) refl assms(2) l(2)] l assms(3) inv idle [of s] show ?thesis
      by (auto simp: data_round_step_def data_failed_def conn_inv_def split: if_splits)
  next
    case False
    with assms(1,3) idle [of s] idle [OF keeps_end_transaction] idle [OF data_finish_session] show ?thesis
      by (auto simp: data_round_step_def data_failed_def data_too_big_def
          split: smtp_read.splits if_splits data_round.splits prod.splits)
  qed
qed

lemma conn_round_inv:
  assumes "conn_inv (sv_parse_network env) cfg c" "smc_max_message_size cfg < usize_max"
    and "conn_round env rl c rd = (rl', Some c', reply, am)"
  shows "conn_inv (sv_parse_network env) cfg c'"
proof (cases "cn_sink c")
  case None
  have "conn_inv (sv_parse_network env) cfg \<lparr>cn_session = cn_session c, cn_sink = None\<rparr>"
    using assms(1) by (simp add: conn_inv_def)
  with None assms(3) show ?thesis
    using command_round_inv by (simp add: conn_round_def)
next
  case (Some sink)
  have "conn_inv (sv_parse_network env) cfg \<lparr>cn_session = cn_session c, cn_sink = Some sink\<rparr>"
    using assms(1) Some by (simp add: conn_inv_def)
  from data_round_inv [OF this assms(2)] Some assms(3) show ?thesis
    by (simp add: conn_round_def)
qed

lemma smtp_server_step_inv:
  assumes "smtp_server_inv net srv"
  shows "smtp_server_inv net (fst (smtp_server_step net srv ev))"
proof (cases ev)
  case (SmtpAccept i now ip written)
  have "conn_inv net (sms_config srv) \<lparr>cn_session = SmtpSession_new ip (sms_config srv), cn_sink = None\<rparr>"
    using smtp_inv_new by (simp add: conn_inv_def SmtpSession_new_def)
  with assms SmtpAccept show ?thesis
    by (auto simp: smtp_accept_def smtp_server_inv_def update_conv' split: prod.splits)
next
  case (SmtpRead i env rd written)
  show ?thesis
  proof (cases "map_of (sms_conns srv) i")
    case None
    with SmtpRead assms show ?thesis by simp
  next
    case (Some c)
    let ?env = "env\<lparr>sv_parse_network := net\<rparr>"
    obtain rl nxt reply am where rnd: "conn_round ?env (sms_limiter srv) c rd = (rl, nxt, reply, am)"
      by (cases "conn_round ?env (sms_limiter srv) c rd")
    from assms Some have c: "conn_inv (sv_parse_network ?env) (sms_config srv) c"
        "smc_max_message_size (sms_config srv) < usize_max"
      by (simp_all add: smtp_server_inv_def)
    have "conn_inv net (sms_config srv) c'" if "nxt = Some c'" for c'
      using conn_round_inv [OF c] rnd that by simp
    with SmtpRead Some rnd assms show ?thesis
      by (auto simp: smtp_conn_step_def smtp_close_def smtp_server_inv_def update_conv' delete_conv' Let_def
          split: option.splits)
  qed
qed

interpretation smtp_system: invariant_machine "smtp_server_step net" "smtp_server_inv net" for net
  by unfold_locales (rule smtp_server_step_inv)

section \<open>What an accepted message implies\<close>

definition relay_permitted ::
    "(string \<Rightarrow> (ip_addr \<Rightarrow> bool) option) \<Rightarrow> smtp_config \<Rightarrow> bool \<Rightarrow> ip_addr \<Rightarrow> mail_address \<Rightarrow> bool" where
  "relay_permitted net cfg authenticated ip r \<longleftrightarrow>
     authenticated \<or>
     (\<exists>n \<in> set (smc_relay_networks cfg). \<exists>f. net n = Some f \<and> f ip) \<or>
     (\<exists>d \<in> set (smc_local_domains cfg). eq_ignore_ascii_case (domain_str (addr_domain r)) d)"

lemma relay_ok_permitted:
  "relay_ok net s r = relay_permitted net (sn_config s) (sn_authenticated s) (sn_remote_ip s) r"
  by (simp add: relay_ok_def relay_permitted_def)

lemma data_finish_accepts:
  assumes "data_finish env s sk = (s', r, Some am)" "sink_inv m sk"
  shows "am_sender am = tx_sender (sn_transaction s)" "am_recipients am = tx_recipients (sn_transaction s)"
    "body_content (am_body am) = sink_bytes sk"
proof -
  from assms(1) obtain body cleanup where b: "build_message_body env sk = Inr (body, cleanup)"
      "am = \<lparr>am_sender = tx_sender (sn_transaction s), am_recipients = tx_recipients (sn_transaction s),
             am_body = body, am_cleanup_path = cleanup\<rparr>"
    by (auto simp: data_finish_def accept_body_def split: option.splits if_splits sum.splits)
  then show "am_sender am = tx_sender (sn_transaction s)" "am_recipients am = tx_recipients (sn_transaction s)"
    "body_content (am_body am) = sink_bytes sk"
    using build_body_content [OF b(1) assms(2)] by simp_all
qed

text \<open>What holds of every message handed over by a connection.\<close>

definition lawful ::
    "(string \<Rightarrow> (ip_addr \<Rightarrow> bool) option) \<Rightarrow> smtp_config \<Rightarrow> smtp_session \<Rightarrow> accepted_message \<Rightarrow> bool" where
  "lawful net cfg s am \<longleftrightarrow>
     am_sender am \<noteq> None \<and> am_recipients am \<noteq> [] \<and>
     (smc_require_auth cfg \<longrightarrow> sn_authenticated s) \<and>
     (\<forall>r \<in> set (am_recipients am). relay_permitted net cfg (sn_authenticated s) (sn_remote_ip s) r) \<and>
     length (body_content (am_body am)) \<le> smc_max_message_size cfg"

lemma round_mail_lawful:
  assumes "conn_inv net cfg c" "conn_round env rl c rd = (rl', nxt, reply, Some am)"
  shows "lawful net cfg (cn_session c) am"
proof -
  obtain sink line sk s' r where sink: "cn_sink c = Some sink"
      and l: "data_line env (sn_config (cn_session c)) sink line = EndOfData sk"
      and f: "data_finish env (cn_session c) sk = (s', r, Some am)"
    using assms(2)
    by (auto simp: conn_round_def command_round_def data_round_step_def data_failed_def data_too_big_def
        split: option.splits smtp_read.splits if_splits data_round.splits prod.splits)
  from l have "sk = sink" by (auto simp: data_line_def Let_def split: if_splits sum.splits)
  with assms(1) sink have inv: "smtp_inv net (cn_session c)" "sn_config (cn_session c) = cfg"
      "sn_state (cn_session c) = DataState" "sink_inv (smc_max_message_size cfg) sk"
    by (simp_all add: conn_inv_def)
  from inv(1-3) data_finish_accepts [OF f inv(4)] inv(4) show ?thesis
    by (auto simp: lawful_def smtp_inv_def tx_inv_def Let_def sink_inv_def relay_ok_permitted)
qed

section \<open>Properties\<close>

text \<open>C1: The server is no open relay.  In every run of the server, over any interleaving of any
  number of connections, with any answers of backends and any client input: whenever a message
  is handed over to processing it comes from a connection whose session has a sender and at
  least one recipient; every recipient is permitted for that connection, that is the client is
  authenticated, or connects from a relay network, or the recipient's domain is local; if the
  configuration demands authentication the client is authenticated; and the message is at most
  the configured maximum size.\<close>

theorem smtp_no_open_relay:
  assumes "smc_max_message_size cfg < usize_max"
    and "srv = fst (run (smtp_server_step net) (SmtpServer_new cfg rl) es)"
    and "so_mail (snd (smtp_server_step net srv ev)) = Some am"
  shows "\<exists>i env rd c. ev = SmtpRead i env rd True \<and> map_of (sms_conns srv) i = Some c \<and>
    am_sender am \<noteq> None \<and> am_recipients am \<noteq> [] \<and>
    (\<forall>r \<in> set (am_recipients am).
       relay_permitted net (sms_config srv) (sn_authenticated (cn_session c)) (sn_remote_ip (cn_session c)) r) \<and>
    (smc_require_auth (sms_config srv) \<longrightarrow> sn_authenticated (cn_session c)) \<and>
    length (body_content (am_body am)) \<le> smc_max_message_size (sms_config srv)"
proof -
  have "smtp_server_inv net (SmtpServer_new cfg rl)"
    using assms(1) by (simp add: smtp_server_inv_def SmtpServer_new_def)
  then have inv: "smtp_server_inv net srv" using smtp_system.run_inv assms(2) by blast
  from assms(3) obtain i env rd written c where ev: "ev = SmtpRead i env rd written"
      and c: "map_of (sms_conns srv) i = Some c"
    by (cases ev) (auto simp: smtp_accept_def silent_def split: if_splits prod.splits option.splits)
  obtain rl' nxt reply am' where rnd:
      "conn_round (env\<lparr>sv_parse_network := net\<rparr>) (sms_limiter srv) c rd = (rl', nxt, reply, am')"
    by (cases "conn_round (env\<lparr>sv_parse_network := net\<rparr>) (sms_limiter srv) c rd")
  have am: "am' = Some am" and w: "reply \<noteq> None \<longrightarrow> written"
    using assms(3) ev c rnd
    by (auto simp: smtp_conn_step_def silent_def Let_def split: if_splits option.splits)
  have "reply \<noteq> None"
    using rnd am by (auto simp: conn_round_def command_round_def data_round_step_def data_failed_def
        data_too_big_def split: option.splits smtp_read.splits if_splits data_round.splits prod.splits)
  moreover have "lawful net (sms_config srv) (cn_session c) am"
    using inv c rnd am round_mail_lawful by (auto simp: smtp_server_inv_def)
  ultimately show ?thesis using ev c w by (auto simp: lawful_def)
qed

definition demo_server_events :: "smtp_event list" where
  "demo_server_events =
     SmtpAccept 1 0 (V4 1) True #
     map (\<lambda>l. SmtpRead 1 demo_smtp_env (ReadLine (l @ CRLF)) True)
       [''EHLO x'', ''MAIL FROM:<a@b.c>'', ''RCPT TO:<bob@localhost>'', ''DATA'', ''Hi'']"

definition demo_server :: smtp_server where
  "demo_server =
     fst (run (smtp_server_step (sv_parse_network demo_smtp_env)) (SmtpServer_new demo_smtp_config demo_rl)
            demo_server_events)"

definition demo_handed_over :: accepted_message where
  "demo_handed_over =
     \<lparr>am_sender = Some \<lparr>local_part = ''a'', addr_domain = Domain ''b.c''\<rparr>,
      am_recipients = [\<lparr>local_part = ''bob'', addr_domain = Domain ''localhost''\<rparr>],
      am_body = Small (''Hi'' @ CRLF), am_cleanup_path = None\<rparr>"

lemma demo_server_accepts:
  "so_mail (snd (smtp_server_step (sv_parse_network demo_smtp_env) demo_server
     (SmtpRead 1 demo_smtp_env (ReadLine (''.'' @ CRLF)) True))) = Some demo_handed_over"
  by code_simp

theorem smtp_no_open_relay_witness:
  "\<exists>c. map_of (sms_conns demo_server) 1 = Some c \<and>
     (\<forall>r \<in> set (am_recipients demo_handed_over).
        relay_permitted (sv_parse_network demo_smtp_env) (sms_config demo_server)
          (sn_authenticated (cn_session c)) (sn_remote_ip (cn_session c)) r)"
  using smtp_no_open_relay [OF _ demo_server_def demo_server_accepts]
  by (auto simp: demo_smtp_config_def usize_max_def)

text \<open>A message line that is not UTF-8 breaks the DATA dialogue, although 8BITMIME is
  announced: the client is told 451, the rest of its message is read as commands while the
  session stays in the DATA state, and a following DATA command is answered 503 but makes the
  server collect mail data again.\<close>

theorem smtp_data_desynchronised:
  assumes "nom_laws (sv_nom env)" "sv_connection_elapsed env \<le> smc_connection_timeout (sn_config s)"
    and "sn_state s = DataState" "sn_cram_md5_challenge s = None" "sn_scram_state s = None"
    and "line \<noteq> []" "\<not> utf8_valid line"
  shows "conn_round env rl \<lparr>cn_session = s, cn_sink = Some sink\<rparr> (ReadLine line) =
      (rl, Some \<lparr>cn_session = s, cn_sink = None\<rparr>, Some (local_error ''Error reading message data''), None) \<and>
    conn_round env rl \<lparr>cn_session = s, cn_sink = None\<rparr> (ReadLine (''DATA'' @ CRLF)) =
      (rl, Some \<lparr>cn_session = s, cn_sink = Some data_sink_new\<rparr>,
       Some (bad_sequence ''Must send RCPT TO first''), None)"
proof -
  have t: "trim (''DATA'' @ CRLF) = ''DATA''" "trim ''DATA'' = ''DATA''" "utf8_valid (''DATA'' @ CRLF)"
    by code_simp+
  have "smtp_parse_command_smtputf8 (sv_nom env) ''DATA'' u = Inr Data" for u
    using nom_laws.smtp_dispatch(3) [OF assms(1), of u "[]"] t(2)
    by (simp add: smtp_parse_command_smtputf8_def smtp_parse_command_inner_def)
  with assms t show ?thesis
    by (simp add: conn_round_def data_round_step_def data_failed_def command_round_def smtp_handle_line_def
        handle_data_def not_less Let_def)
qed

theorem smtp_data_desynchronised_witness:
  "fst (snd (conn_round demo_smtp_env demo_rl
      \<lparr>cn_session = demo_mail_transaction\<lparr>sn_state := DataState\<rparr>, cn_sink = None\<rparr> (ReadLine (''DATA'' @ CRLF)))) =
   Some \<lparr>cn_session = demo_mail_transaction\<lparr>sn_state := DataState\<rparr>, cn_sink = Some data_sink_new\<rparr>"
proof -
  let ?s = "demo_mail_transaction\<lparr>sn_state := DataState\<rparr>"
  have n: "nom_laws (sv_nom demo_smtp_env)" by (simp add: demo_smtp_env_def complete.nom_laws_axioms)
  have u: "\<not> utf8_valid [CHR 0xE9]" by code_simp
  have "sv_connection_elapsed demo_smtp_env \<le> smc_connection_timeout (sn_config ?s)"
    "sn_state ?s = DataState" "sn_cram_md5_challenge ?s = None" "sn_scram_state ?s = None"
    by (simp_all add: demo_mail_transaction_def SmtpSession_new_def demo_smtp_env_def)
  from smtp_data_desynchronised [OF n this _ u, of demo_rl data_sink_new] show ?thesis by simp
qed

end
