(* ===== verification/Queue_Priority.thy ===== *)
theory Queue_Priority
  imports Proto_Mail
begin

text \<open>
  Model of \<^verbatim>\<open>crates/rusmes-core/src/queue/priority.rs\<close>: the priority levels, the rules that
  assign a priority to a mail, the boost after failed attempts, and the multi-level queue with
  its statistics.  The locale \<open>stable_queue\<close> is the contract of a priority queue that keeps the
  arrival order inside a level; the multi-level queue is an instance, and draining it is a
  stable sort.
\<close>

section \<open>Priorities\<close>

datatype priority = Bulk | Low | Normal | High

fun as_u8 :: "priority \<Rightarrow> nat" where
  "as_u8 High = 3" | "as_u8 Normal = 2" | "as_u8 Low = 1" | "as_u8 Bulk = 0"

instantiation priority :: linorder
begin

definition less_eq_priority :: "priority \<Rightarrow> priority \<Rightarrow> bool" where
  "p \<le> q \<longleftrightarrow> as_u8 p \<le> as_u8 q"

definition less_priority :: "priority \<Rightarrow> priority \<Rightarrow> bool" where
  "p < q \<longleftrightarrow> as_u8 p < as_u8 q"

instance
proof
  fix p q :: priority
  assume "p \<le> q" "q \<le> p"
  then show "p = q" by (cases p; cases q) (simp_all add: less_eq_priority_def)
qed (auto simp: less_eq_priority_def less_priority_def)

end

definition all_priorities :: "priority list" where
  "all_priorities = [High, Normal, Low, Bulk]"

definition from_u8 :: "nat \<Rightarrow> priority option" where
  "from_u8 v = (if v = 3 then Some High else if v = 2 then Some Normal
                else if v = 1 then Some Low else if v = 0 then Some Bulk else None)"

fun priority_display :: "priority \<Rightarrow> string" where
  "priority_display High = ''high''"
| "priority_display Normal = ''normal''"
| "priority_display Low = ''low''"
| "priority_display Bulk = ''bulk''"

definition priority_from_str :: "(string \<Rightarrow> string) \<Rightarrow> string \<Rightarrow> priority result" where
  "priority_from_str lc s =
     (let l = lc s in
      if l = ''high'' then Inr High else if l = ''normal'' then Inr Normal
      else if l = ''low'' then Inr Low else if l = ''bulk'' then Inr Bulk
      else Inl (''Invalid priority: '' @ s))"

section \<open>Rules\<close>

record priority_config =
  pcf_default_priority :: priority
  pcf_sender_priorities :: "(string \<times> priority) list"
  pcf_recipient_priorities :: "(string \<times> priority) list"
  pcf_domain_priorities :: "(string \<times> priority) list"
  pcf_inherit_priority_on_retry :: bool
  pcf_boost_after_attempts :: "nat option"
  pcf_boost_amount :: nat

definition priority_config_default :: priority_config where
  "priority_config_default =
     \<lparr>pcf_default_priority = Normal, pcf_sender_priorities = [], pcf_recipient_priorities = [],
      pcf_domain_priorities = [], pcf_inherit_priority_on_retry = True,
      pcf_boost_after_attempts = Some 3, pcf_boost_amount = 1\<rparr>"

definition add_sender_priority :: "string \<Rightarrow> priority \<Rightarrow> priority_config \<Rightarrow> priority_config" where
  "add_sender_priority s p c = c\<lparr>pcf_sender_priorities := AList.update s p (pcf_sender_priorities c)\<rparr>"

definition add_recipient_priority :: "string \<Rightarrow> priority \<Rightarrow> priority_config \<Rightarrow> priority_config" where
  "add_recipient_priority r p c = c\<lparr>pcf_recipient_priorities := AList.update r p (pcf_recipient_priorities c)\<rparr>"

definition add_domain_priority :: "string \<Rightarrow> priority \<Rightarrow> priority_config \<Rightarrow> priority_config" where
  "add_domain_priority d p c = c\<lparr>pcf_domain_priorities := AList.update d p (pcf_domain_priorities c)\<rparr>"

text \<open>\<^verbatim>\<open>boost_amount\<close> is a \<^verbatim>\<open>u8\<close>, and so is the saturating sum.\<close>

definition apply_boost :: "priority_config \<Rightarrow> priority \<Rightarrow> nat \<Rightarrow> priority" where
  "apply_boost c p current_attempts =
     (case pcf_boost_after_attempts c of
        None \<Rightarrow> p
      | Some boost_after \<Rightarrow>
          if boost_after \<le> current_attempts then
            (let boosted_value = min (as_u8 p + pcf_boost_amount c) 255
             in case from_u8 (min boosted_value 3) of Some q \<Rightarrow> q | None \<Rightarrow> High)
          else p)"

definition max_opt :: "priority option \<Rightarrow> priority option \<Rightarrow> priority option" where
  "max_opt acc found =
     (case found of
        None \<Rightarrow> acc
      | Some p \<Rightarrow> (case acc of None \<Rightarrow> Some p | Some q \<Rightarrow> Some (max q p)))"

definition recipient_rule :: "priority_config \<Rightarrow> priority option \<Rightarrow> mail_address \<Rightarrow> priority option" where
  "recipient_rule c acc r =
     max_opt (max_opt acc (map_of (pcf_recipient_priorities c) (as_string r)))
       (map_of (pcf_domain_priorities c) (domain_str (addr_domain r)))"

definition attribute_priority :: "(string \<Rightarrow> string) \<Rightarrow> mail \<Rightarrow> priority option" where
  "attribute_priority lc m =
     (case get_attribute m ''priority'' of
        None \<Rightarrow> None
      | Some attr \<Rightarrow>
          (case attr_as_str attr of
             None \<Rightarrow> None
           | Some s \<Rightarrow> (case priority_from_str lc s of Inr p \<Rightarrow> Some p | Inl _ \<Rightarrow> None)))"

definition sender_priority :: "priority_config \<Rightarrow> mail \<Rightarrow> priority option" where
  "sender_priority c m =
     (case m_sender m of None \<Rightarrow> None | Some a \<Rightarrow> map_of (pcf_sender_priorities c) (as_string a))"

definition calculate_priority :: "(string \<Rightarrow> string) \<Rightarrow> priority_config \<Rightarrow> mail \<Rightarrow> nat \<Rightarrow> priority" where
  "calculate_priority lc c m current_attempts =
     (case attribute_priority lc m of
        Some p \<Rightarrow> apply_boost c p current_attempts
      | None \<Rightarrow>
          (case sender_priority c m of
             Some p \<Rightarrow> apply_boost c p current_attempts
           | None \<Rightarrow>
               (case foldl (recipient_rule c) None (m_recipients m) of
                  Some p \<Rightarrow> apply_boost c p current_attempts
                | None \<Rightarrow> apply_boost c (pcf_default_priority c) current_attempts)))"

lemma apply_boost_mono: "a \<le> b \<Longrightarrow> apply_boost c p a \<le> apply_boost c p b"
  by (cases p) (auto simp: apply_boost_def Let_def from_u8_def less_eq_priority_def split: option.splits)

lemma apply_boost_ge: "p \<le> apply_boost c p n"
  by (cases p) (auto simp: apply_boost_def Let_def from_u8_def less_eq_priority_def split: option.splits)

lemma max_opt_simps [simp]:
  "max_opt acc None = acc" "max_opt None (Some p) = Some p" "max_opt (Some q) (Some p) = Some (max q p)"
  by (simp_all add: max_opt_def)

section \<open>The multi-level queue\<close>

record priority_stats =
  ps_total :: nat
  ps_ready :: nat
  ps_delayed :: nat
  ps_enqueued_total :: nat
  ps_delivered_total :: nat

definition priority_stats_default :: priority_stats where
  "priority_stats_default =
     \<lparr>ps_total = 0, ps_ready = 0, ps_delayed = 0, ps_enqueued_total = 0, ps_delivered_total = 0\<rparr>"

record 'a priority_queue =
  pq_queues :: "priority \<rightharpoonup> (mail_id \<times> 'a) list"
  pq_config :: priority_config
  pq_stats :: "priority \<rightharpoonup> priority_stats"

definition PriorityQueue_new :: "priority_config \<Rightarrow> 'a priority_queue" where
  "PriorityQueue_new config =
     \<lparr>pq_queues = map_of (map (\<lambda>p. (p, [])) all_priorities), pq_config = config,
      pq_stats = map_of (map (\<lambda>p. (p, priority_stats_default)) all_priorities)\<rparr>"

definition upd_stats :: "priority \<Rightarrow> (priority_stats \<Rightarrow> priority_stats) \<Rightarrow> 'a priority_queue \<Rightarrow> 'a priority_queue" where
  "upd_stats p f q =
     (case pq_stats q p of None \<Rightarrow> q | Some st \<Rightarrow> q\<lparr>pq_stats := (pq_stats q)(p \<mapsto> f st)\<rparr>)"

definition pq_enqueue :: "mail_id \<Rightarrow> 'a \<Rightarrow> priority \<Rightarrow> 'a priority_queue \<Rightarrow> 'a priority_queue" where
  "pq_enqueue i x p q =
     upd_stats p (\<lambda>st. st\<lparr>ps_total := usize_add (ps_total st) 1, ps_enqueued_total := usize_add (ps_enqueued_total st) 1\<rparr>)
       (case pq_queues q p of
          None \<Rightarrow> q
        | Some l \<Rightarrow> q\<lparr>pq_queues := (pq_queues q)(p \<mapsto> l @ [(i, x)])\<rparr>)"

fun dequeue_from :: "priority list \<Rightarrow> 'a priority_queue \<Rightarrow> ((mail_id \<times> 'a \<times> priority) \<times> 'a priority_queue) option" where
  "dequeue_from [] q = None"
| "dequeue_from (p # ps) q =
     (case pq_queues q p of
        Some ((i, x) # l) \<Rightarrow>
          Some ((i, x, p),
                upd_stats p (\<lambda>st. st\<lparr>ps_total := ps_total st - 1\<rparr>) (q\<lparr>pq_queues := (pq_queues q)(p \<mapsto> l)\<rparr>))
      | _ \<Rightarrow> dequeue_from ps q)"

definition pq_dequeue :: "'a priority_queue \<Rightarrow> ((mail_id \<times> 'a \<times> priority) \<times> 'a priority_queue) option" where
  "pq_dequeue q = dequeue_from all_priorities q"

fun peek_from :: "priority list \<Rightarrow> 'a priority_queue \<Rightarrow> (mail_id \<times> 'a \<times> priority) option" where
  "peek_from [] q = None"
| "peek_from (p # ps) q =
     (case pq_queues q p of Some ((i, x) # _) \<Rightarrow> Some (i, x, p) | _ \<Rightarrow> peek_from ps q)"

definition pq_peek :: "'a priority_queue \<Rightarrow> (mail_id \<times> 'a \<times> priority) option" where
  "pq_peek q = peek_from all_priorities q"

definition items_for_priority :: "priority \<Rightarrow> 'a priority_queue \<Rightarrow> (mail_id \<times> 'a) list" where
  "items_for_priority p q = (case pq_queues q p of None \<Rightarrow> [] | Some l \<Rightarrow> l)"

definition len_for_priority :: "priority \<Rightarrow> 'a priority_queue \<Rightarrow> nat" where
  "len_for_priority p q = (case pq_queues q p of None \<Rightarrow> 0 | Some l \<Rightarrow> length l)"

text \<open>The sum over the values of the table, whose keys are the four levels.\<close>

definition pq_len :: "'a priority_queue \<Rightarrow> nat" where
  "pq_len q = sum_list (map (\<lambda>p. len_for_priority p q) all_priorities)"

definition pq_is_empty :: "'a priority_queue \<Rightarrow> bool" where
  "pq_is_empty q \<longleftrightarrow> pq_len q = 0"

text \<open>Remove the first element with the given id.\<close>

fun take_id :: "mail_id \<Rightarrow> (mail_id \<times> 'a) list \<Rightarrow> ('a \<times> (mail_id \<times> 'a) list) option" where
  "take_id i [] = None"
| "take_id i ((j, x) # l) =
     (if j = i then Some (x, l) else map_option (\<lambda>(y, l'). (y, (j, x) # l')) (take_id i l))"

fun remove_from :: "priority list \<Rightarrow> mail_id \<Rightarrow> 'a priority_queue \<Rightarrow> ('a \<times> priority) option \<times> 'a priority_queue" where
  "remove_from [] i q = (None, q)"
| "remove_from (p # ps) i q =
     (case pq_queues q p of
        None \<Rightarrow> remove_from ps i q
      | Some l \<Rightarrow>
          (case take_id i l of
             None \<Rightarrow> remove_from ps i q
           | Some (x, l') \<Rightarrow>
               (Some (x, p),
                upd_stats p (\<lambda>st. st\<lparr>ps_total := ps_total st - 1\<rparr>) (q\<lparr>pq_queues := (pq_queues q)(p \<mapsto> l')\<rparr>))))"

definition pq_remove :: "mail_id \<Rightarrow> 'a priority_queue \<Rightarrow> ('a \<times> priority) option \<times> 'a priority_queue" where
  "pq_remove i q = remove_from all_priorities i q"

definition pq_update_config :: "priority_config \<Rightarrow> 'a priority_queue \<Rightarrow> 'a priority_queue" where
  "pq_update_config c q = q\<lparr>pq_config := c\<rparr>"

definition stats_for_priority :: "priority \<Rightarrow> 'a priority_queue \<Rightarrow> priority_stats" where
  "stats_for_priority p q = (case pq_stats q p of None \<Rightarrow> priority_stats_default | Some st \<Rightarrow> st)"

definition pq_mark_delivered :: "priority \<Rightarrow> 'a priority_queue \<Rightarrow> 'a priority_queue" where
  "pq_mark_delivered p q = upd_stats p (\<lambda>st. st\<lparr>ps_delivered_total := usize_add (ps_delivered_total st) 1\<rparr>) q"

definition update_ready_delayed_stats :: "priority \<Rightarrow> nat \<Rightarrow> nat \<Rightarrow> 'a priority_queue \<Rightarrow> 'a priority_queue" where
  "update_ready_delayed_stats p ready delayed q = upd_stats p (\<lambda>st. st\<lparr>ps_ready := ready, ps_delayed := delayed\<rparr>) q"

definition pq_clear :: "'a priority_queue \<Rightarrow> 'a priority_queue" where
  "pq_clear q =
     q\<lparr>pq_queues := (\<lambda>p. map_option (\<lambda>_. []) (pq_queues q p)),
       pq_stats := (\<lambda>p. map_option (\<lambda>st. st\<lparr>ps_total := 0, ps_ready := 0, ps_delayed := 0\<rparr>) (pq_stats q p))\<rparr>"

section \<open>A stable priority queue\<close>

text \<open>Taking out up to a number of elements.\<close>

fun drain :: "('q \<Rightarrow> ('x \<times> 'q) option) \<Rightarrow> nat \<Rightarrow> 'q \<Rightarrow> 'x list" where
  "drain deq 0 q = []"
| "drain deq (Suc n) q = (case deq q of None \<Rightarrow> [] | Some (x, q') \<Rightarrow> x # drain deq n q')"

locale stable_queue =
  fixes enq :: "'x \<Rightarrow> 'q \<Rightarrow> 'q"
    and deq :: "'q \<Rightarrow> ('x \<times> 'q) option"
    and contents :: "'q \<Rightarrow> 'x list"
    and rank :: "'x \<Rightarrow> nat"
    and wf :: "'q \<Rightarrow> bool"
  assumes enq_wf: "wf q \<Longrightarrow> wf (enq x q)"
    and enq_contents: "wf q \<Longrightarrow> contents (enq x q) = sort_key rank (contents q @ [x])"
    and deq_empty: "wf q \<Longrightarrow> deq q = None \<longleftrightarrow> contents q = []"
    and deq_front: "wf q \<Longrightarrow> deq q = Some (x, q') \<Longrightarrow> contents q = x # contents q' \<and> wf q'"
    and ranked: "wf q \<Longrightarrow> sorted (map rank (contents q))"
begin

lemma drain_contents: "wf q \<Longrightarrow> length (contents q) \<le> n \<Longrightarrow> drain deq n q = contents q"
proof (induction n arbitrary: q)
  case (Suc n)
  show ?case
  proof (cases "deq q")
    case None
    then have "contents q = []" using deq_empty [OF Suc.prems(1)] by simp
    with None show ?thesis by simp
  next
    case (Some r)
    obtain x q' where r: "r = (x, q')" by (cases r)
    with Some deq_front [OF Suc.prems(1)] have "contents q = x # contents q'" "wf q'" by simp_all
    with Suc Some r show ?thesis by simp
  qed
qed simp

lemma sort_key_snoc: "sort_key rank (sort_key rank xs @ [x]) = sort_key rank (xs @ [x])"
proof (rule properties_for_sort_key)
  show "mset (sort_key rank (xs @ [x])) = mset (sort_key rank xs @ [x])" by simp
  have sym: "(\<lambda>y. rank k = rank y) = (\<lambda>y. rank y = rank k)" for k by auto
  show "filter (\<lambda>y. rank k = rank y) (sort_key rank (xs @ [x])) = filter (\<lambda>y. rank k = rank y) (sort_key rank xs @ [x])" for k
    unfolding sym by (simp add: sort_key_stable)
qed simp

lemma fold_enq:
  "wf q \<Longrightarrow> wf (fold enq xs q) \<and> contents (fold enq xs q) = sort_key rank (contents q @ xs)"
proof (induction xs rule: rev_induct)
  case Nil
  then show ?case using ranked by (simp add: sort_key_id_if_sorted)
next
  case (snoc x xs)
  then have "contents (fold enq (xs @ [x]) q) = sort_key rank (sort_key rank (contents q @ xs) @ [x])"
    using enq_contents by simp
  also have "\<dots> = sort_key rank (contents q @ xs @ [x])"
    using sort_key_snoc [of "contents q @ xs" x] by simp
  finally show ?case using snoc enq_wf by simp
qed

end

section \<open>The multi-level queue is stable\<close>

type_synonym 'a pq_item = "mail_id \<times> 'a \<times> priority"

definition pq_rank :: "'a pq_item \<Rightarrow> nat" where
  "pq_rank x = 3 - as_u8 (snd (snd x))"

definition pq_contents :: "'a priority_queue \<Rightarrow> 'a pq_item list" where
  "pq_contents q = concat (map (\<lambda>p. map (\<lambda>(i, x). (i, x, p)) (items_for_priority p q)) all_priorities)"

definition pq_wf :: "'a priority_queue \<Rightarrow> bool" where
  "pq_wf q \<longleftrightarrow> (\<forall>p. pq_queues q p \<noteq> None)"

definition pq_insert :: "'a pq_item \<Rightarrow> 'a priority_queue \<Rightarrow> 'a priority_queue" where
  "pq_insert x q = (case x of (i, y, p) \<Rightarrow> pq_enqueue i y p q)"

lemma upd_stats_queues [simp]: "pq_queues (upd_stats p f q) = pq_queues q"
  by (simp add: upd_stats_def split: option.split)

lemma pq_wf_items: "pq_wf q \<Longrightarrow> pq_queues q p = Some (items_for_priority p q)"
  by (auto simp: pq_wf_def items_for_priority_def split: option.splits)

lemma items_enqueue:
  "pq_wf q \<Longrightarrow> items_for_priority p' (pq_enqueue i x p q) =
     (if p' = p then items_for_priority p q @ [(i, x)] else items_for_priority p' q)"
  by (auto simp: items_for_priority_def pq_enqueue_def pq_wf_def dest: spec [of _ p] split: option.splits)

lemma pq_contents_alt:
  "pq_contents q = map (\<lambda>(i, x). (i, x, High)) (items_for_priority High q) @
     map (\<lambda>(i, x). (i, x, Normal)) (items_for_priority Normal q) @
     map (\<lambda>(i, x). (i, x, Low)) (items_for_priority Low q) @
     map (\<lambda>(i, x). (i, x, Bulk)) (items_for_priority Bulk q)"
  by (simp add: pq_contents_def all_priorities_def)

lemma map_const_replicate: "map (\<lambda>x. c) l = replicate (length l) c"
  by (induction l) simp_all

lemma pq_contents_ranked: "sorted (map pq_rank (pq_contents q))"
  by (auto simp: pq_contents_alt pq_rank_def sorted_append comp_def case_prod_beta map_const_replicate)

lemma pq_rank_item [simp]: "pq_rank (i, x, p) = 3 - as_u8 p"
  by (simp add: pq_rank_def)

lemma filter_rank_level:
  "filter (\<lambda>y. r = pq_rank y) (map (\<lambda>(i, x). (i, x, p)) l) =
     (if r = 3 - as_u8 p then map (\<lambda>(i, x). (i, x, p)) l else [])"
  "filter (\<lambda>y. pq_rank y = r) (map (\<lambda>(i, x). (i, x, p)) l) =
     (if r = 3 - as_u8 p then map (\<lambda>(i, x). (i, x, p)) l else [])"
  by (induction l) (auto simp: pq_rank_def)

lemma pq_rank_alt: "pq_rank = (\<lambda>x. 3 - as_u8 (snd (snd x)))"
  by (rule ext) (simp add: pq_rank_def)

lemma pq_insert_contents:
  assumes "pq_wf q"
  shows "pq_contents (pq_insert x q) = sort_key pq_rank (pq_contents q @ [x])"
proof (rule sym, rule properties_for_sort_key)
  obtain i y p where x: "x = (i, y, p)" by (cases x) auto
  show "mset (pq_contents (pq_insert x q)) = mset (pq_contents q @ [x])"
    using assms by (cases p) (simp_all add: x pq_insert_def pq_contents_alt items_enqueue)
  have "filter (\<lambda>z. r = pq_rank z) (pq_contents (pq_insert x q)) =
      filter (\<lambda>z. r = pq_rank z) (pq_contents q @ [x])" for r
    using assms
    by (cases p) (simp_all add: x pq_insert_def pq_contents_alt items_enqueue filter_rank_level)
  then show "filter (\<lambda>z. pq_rank k = pq_rank z) (pq_contents (pq_insert x q)) =
      filter (\<lambda>z. pq_rank k = pq_rank z) (pq_contents q @ [x])" for k .
  show "sorted (map pq_rank (pq_contents (pq_insert x q)))" by (rule pq_contents_ranked)
qed

lemma dequeue_from_items:
  assumes "pq_wf q"
  shows "dequeue_from ps q = None \<longleftrightarrow> (\<forall>p \<in> set ps. items_for_priority p q = [])"
  using pq_wf_items [OF assms]
  by (induction ps) (auto split: list.splits option.splits)

lemma dequeue_from_Some:
  assumes "pq_wf q" "dequeue_from ps q = Some ((i, x, p), q')"
  shows "\<exists>us vs l. ps = us @ p # vs \<and> (\<forall>u \<in> set us. items_for_priority u q = []) \<and>
    items_for_priority p q = (i, x) # l \<and> pq_queues q' = (pq_queues q)(p \<mapsto> l)"
  using assms(2)
proof (induction ps)
  case (Cons a ps)
  have a: "pq_queues q a = Some (items_for_priority a q)" by (rule pq_wf_items [OF assms(1)])
  show ?case
  proof (cases "items_for_priority a q")
    case Nil
    with a Cons.prems have "dequeue_from ps q = Some ((i, x, p), q')" by simp
    from Cons.IH [OF this] Nil show ?thesis by (metis append_Cons set_ConsD)
  next
    case (Cons b l)
    obtain j y where "b = (j, y)" by (cases b)
    with Cons a Cons.prems have "p = a" "items_for_priority p q = (i, x) # l" "pq_queues q' = (pq_queues q)(p \<mapsto> l)"
      using \<open>dequeue_from (a # ps) q = Some ((i, x, p), q')\<close> by auto
    then show ?thesis by (intro exI [of _ "[]"] exI [of _ ps] exI [of _ l]) simp
  qed
qed simp

lemma pq_wf_update: "pq_wf q \<Longrightarrow> pq_queues q' = (pq_queues q)(p \<mapsto> l) \<Longrightarrow> pq_wf q'"
  by (simp add: pq_wf_def)

lemma pq_enqueue_wf: "pq_wf q \<Longrightarrow> pq_wf (pq_enqueue i x p q)"
  by (auto simp: pq_wf_def pq_enqueue_def split: option.split)

lemma pq_dequeue_front:
  assumes "pq_wf q" "pq_dequeue q = Some (y, q')"
  shows "pq_contents q = y # pq_contents q'" "pq_wf q'"
proof -
  obtain i x p where y: "y = (i, x, p)" by (cases y) auto
  obtain us vs l where d: "all_priorities = us @ p # vs" "\<forall>u \<in> set us. items_for_priority u q = []"
      "items_for_priority p q = (i, x) # l" "pq_queues q' = (pq_queues q)(p \<mapsto> l)"
    using dequeue_from_Some [OF assms(1), of all_priorities] assms(2) y by (auto simp: pq_dequeue_def)
  show "pq_wf q'" using pq_wf_update [OF assms(1) d(4)] .
  have dist: "distinct (us @ p # vs)" using d(1) by (simp add: all_priorities_def flip: d(1))
  have other: "items_for_priority u q' = items_for_priority u q" if "u \<noteq> p" for u
    using d(4) that by (simp add: items_for_priority_def)
  have same: "items_for_priority p q' = l" using d(4) by (simp add: items_for_priority_def)
  have "u \<noteq> p" if "u \<in> set us" for u using dist that by auto
  then have us: "concat (map (\<lambda>p. map (\<lambda>(i, x). (i, x, p)) (items_for_priority p q)) us) = []"
      "concat (map (\<lambda>p. map (\<lambda>(i, x). (i, x, p)) (items_for_priority p q')) us) = []"
    using d(2) other by (auto simp: concat_eq_Nil_conv)
  have "v \<noteq> p" if "v \<in> set vs" for v using dist that by auto
  then have vs: "map (\<lambda>p. map (\<lambda>(i, x). (i, x, p)) (items_for_priority p q')) vs =
      map (\<lambda>p. map (\<lambda>(i, x). (i, x, p)) (items_for_priority p q)) vs"
    using other by (intro map_cong) auto
  show "pq_contents q = y # pq_contents q'"
    unfolding pq_contents_def d(1) map_append concat_append list.map us vs
    using d(3) same y by simp
qed

interpretation pqueue: stable_queue pq_insert pq_dequeue pq_contents pq_rank pq_wf
proof
  fix q :: "'a priority_queue" and x and q'
  assume wf: "pq_wf q"
  show "pq_wf (pq_insert x q)" using pq_enqueue_wf [OF wf] by (simp add: pq_insert_def split: prod.split)
  show "pq_contents (pq_insert x q) = sort_key pq_rank (pq_contents q @ [x])" by (rule pq_insert_contents [OF wf])
  show "pq_dequeue q = None \<longleftrightarrow> pq_contents q = []"
    using dequeue_from_items [OF wf] by (auto simp: pq_dequeue_def pq_contents_def)
  show "sorted (map pq_rank (pq_contents q))" by (rule pq_contents_ranked)
  show "pq_dequeue q = Some (x, q') \<Longrightarrow> pq_contents q = x # pq_contents q' \<and> pq_wf q'"
    using pq_dequeue_front [OF wf] by blast
qed

lemma pq_new:
  "pq_wf (PriorityQueue_new c :: 'a priority_queue)" "pq_contents (PriorityQueue_new c :: 'a priority_queue) = []"
proof -
  have q: "pq_queues (PriorityQueue_new c :: 'a priority_queue) p = Some []" for p
    by (cases p) (simp_all add: PriorityQueue_new_def all_priorities_def)
  then show "pq_wf (PriorityQueue_new c :: 'a priority_queue)" by (simp add: pq_wf_def)
  from q show "pq_contents (PriorityQueue_new c :: 'a priority_queue) = []"
    by (simp add: pq_contents_def items_for_priority_def)
qed

section \<open>Properties\<close>

text \<open>C11: The mail queue is served by priority and, inside a priority, in order of arrival: the
  elements dequeued after any sequence of insertions into a new queue are the stable sort of
  the inserted ones by descending priority, none lost and none invented.\<close>

theorem priority_queue_stable_sort:
  "drain pq_dequeue (length xs) (fold pq_insert xs (PriorityQueue_new c)) =
     sort_key (\<lambda>x. 3 - as_u8 (snd (snd x))) xs"
proof -
  have "pq_wf (fold pq_insert xs (PriorityQueue_new c)) \<and>
      pq_contents (fold pq_insert xs (PriorityQueue_new c)) = sort_key pq_rank xs"
    using pqueue.fold_enq [OF pq_new(1), of xs] by (simp add: pq_new(2))
  then show ?thesis
    unfolding pq_rank_alt [symmetric]
    using pqueue.drain_contents [of "fold pq_insert xs (PriorityQueue_new c)" "length xs"] by simp
qed

text \<open>More failed attempts never lower the priority the rules give a mail, a boost never
  lowers a priority, and a matching sender rule decides before any recipient or domain rule.\<close>

theorem priority_rules_monotone:
  assumes "a \<le> b"
  shows "calculate_priority lc c m a \<le> calculate_priority lc c m b \<and>
    p \<le> apply_boost c p b \<and>
    (attribute_priority lc m = None \<longrightarrow> sender_priority c m = Some q \<longrightarrow>
       calculate_priority lc c m b = apply_boost c q b)"
  using apply_boost_mono [OF assms] apply_boost_ge
  by (simp add: calculate_priority_def split: option.split)

theorem priority_rules_monotone_witness:
  "calculate_priority (map to_lower) priority_config_default (demo_mail [''a'']) 0
     \<le> calculate_priority (map to_lower) priority_config_default (demo_mail [''a'']) 4"
  using priority_rules_monotone [of 0 4 "map to_lower" priority_config_default "demo_mail [''a'']"] by simp

end
