(* ===== verification/Mail_Queue.thy ===== *)
theory Mail_Queue
  imports Queue_Priority "HOL-Library.Product_Lexorder"
begin

text \<open>
  Model of \<^verbatim>\<open>crates/rusmes-core/src/queue/core.rs\<close>: queue entries with exponential backoff, the
  mail queue with its per-domain counters, dead letters, and the file system queue store.

  The trait \<^verbatim>\<open>QueueStore\<close> is a record of functions over a store state that is passed in and out,
  so a store may fail at any call.  Times are nanoseconds since the epoch; the clock is an
  argument of the operations that read it.  \<^verbatim>\<open>serde_json\<close> and the message store behind the file
  system store are parameters of that store.
\<close>

section \<open>Entries\<close>

record queue_entry =
  qe_mail :: mail
  qe_attempts :: nat
  qe_max_attempts :: nat
  qe_next_retry :: nat
  qe_last_error :: "string option"
  qe_priority :: priority

record queue_entry_data =
  qd_mail_id :: mail_id
  qd_attempts :: nat
  qd_max_attempts :: nat
  qd_next_retry :: nat
  qd_last_error :: "string option"
  qd_priority :: priority

definition QueueEntry_new_with_priority :: "nat \<Rightarrow> mail \<Rightarrow> priority \<Rightarrow> queue_entry" where
  "QueueEntry_new_with_priority now m p =
     \<lparr>qe_mail = m, qe_attempts = 0, qe_max_attempts = 5, qe_next_retry = now, qe_last_error = None,
      qe_priority = p\<rparr>"

definition QueueEntry_new :: "nat \<Rightarrow> mail \<Rightarrow> queue_entry" where
  "QueueEntry_new now m = QueueEntry_new_with_priority now m Normal"

definition nanos_per_sec :: nat where
  "nanos_per_sec = 1000000000"

text \<open>\<^verbatim>\<open>2u64.pow(attempts.min(10)) * 60\<close> seconds; the counter is a \<^verbatim>\<open>u32\<close>.\<close>

definition backoff :: "nat \<Rightarrow> nat" where
  "backoff attempts = 2 ^ min attempts 10 * 60 * nanos_per_sec"

definition calculate_next_retry :: "nat \<Rightarrow> queue_entry \<Rightarrow> queue_entry" where
  "calculate_next_retry now e =
     e\<lparr>qe_next_retry := now + backoff (qe_attempts e), qe_attempts := (qe_attempts e + 1) mod 2 ^ 32\<rparr>"

definition should_retry :: "nat \<Rightarrow> queue_entry \<Rightarrow> bool" where
  "should_retry now e \<longleftrightarrow> qe_attempts e < qe_max_attempts e \<and> qe_next_retry e \<le> now"

definition is_bounced :: "queue_entry \<Rightarrow> bool" where
  "is_bounced e \<longleftrightarrow> qe_max_attempts e \<le> qe_attempts e"

definition to_data :: "queue_entry \<Rightarrow> queue_entry_data" where
  "to_data e =
     \<lparr>qd_mail_id = m_id (qe_mail e), qd_attempts = qe_attempts e, qd_max_attempts = qe_max_attempts e,
      qd_next_retry = qe_next_retry e, qd_last_error = qe_last_error e, qd_priority = qe_priority e\<rparr>"

definition from_data :: "queue_entry_data \<Rightarrow> mail \<Rightarrow> queue_entry" where
  "from_data d m =
     \<lparr>qe_mail = m, qe_attempts = qd_attempts d, qe_max_attempts = qd_max_attempts d,
      qe_next_retry = qd_next_retry d, qe_last_error = qd_last_error d, qe_priority = qd_priority d\<rparr>"

text \<open>The serialised time is whole seconds.\<close>

definition stored_data :: "queue_entry \<Rightarrow> queue_entry_data" where
  "stored_data e =
     (to_data e)\<lparr>qd_next_retry := qe_next_retry e div nanos_per_sec * nanos_per_sec\<rparr>"

section \<open>The queue and its store\<close>

record 's queue_store =
  qst_save_entry :: "queue_entry \<Rightarrow> 's \<Rightarrow> 's \<times> unit result"
  qst_remove_entry :: "mail_id \<Rightarrow> 's \<Rightarrow> 's \<times> unit result"
  qst_load_all_entries :: "'s \<Rightarrow> 's \<times> queue_entry list result"
  qst_save_to_dlq :: "queue_entry \<Rightarrow> 's \<Rightarrow> 's \<times> unit result"
  qst_list_dlq :: "'s \<Rightarrow> 's \<times> queue_entry list result"
  qst_remove_from_dlq :: "mail_id \<Rightarrow> 's \<Rightarrow> 's \<times> unit result"

record mail_queue =
  mq_entries :: "(mail_id \<times> queue_entry) list"
  mq_priority_config :: priority_config
  mq_domain_stats :: "(string \<times> nat) list"

definition MailQueue_new :: "priority_config \<Rightarrow> mail_queue" where
  "MailQueue_new config = \<lparr>mq_entries = [], mq_priority_config = config, mq_domain_stats = []\<rparr>"

definition update_priority_config :: "priority_config \<Rightarrow> mail_queue \<Rightarrow> mail_queue" where
  "update_priority_config config q = q\<lparr>mq_priority_config := config\<rparr>"

text \<open>A call of the optional store: without a store nothing happens.\<close>

definition with_store ::
    "'s queue_store option \<Rightarrow> ('s queue_store \<Rightarrow> 's \<Rightarrow> 's \<times> unit result) \<Rightarrow> 's \<Rightarrow> 's \<times> unit result" where
  "with_store store call st = (case store of None \<Rightarrow> (st, Inr ()) | Some ops \<Rightarrow> call ops st)"

definition count_domain :: "(string \<times> nat) list \<Rightarrow> mail_address \<Rightarrow> (string \<times> nat) list" where
  "count_domain stats r =
     (let d = domain_str (addr_domain r) in
      AList.update d (((case map_of stats d of None \<Rightarrow> 0 | Some n \<Rightarrow> n) + 1) mod 2 ^ 64) stats)"

definition record_domain_stats :: "mail \<Rightarrow> mail_queue \<Rightarrow> mail_queue" where
  "record_domain_stats m q = q\<lparr>mq_domain_stats := foldl count_domain (mq_domain_stats q) (m_recipients m)\<rparr>"

definition insert_entry :: "mail_id \<Rightarrow> queue_entry \<Rightarrow> mail_queue \<Rightarrow> mail_queue" where
  "insert_entry i e q = q\<lparr>mq_entries := AList.update i e (mq_entries q)\<rparr>"

definition remove_mq_entry :: "mail_id \<Rightarrow> mail_queue \<Rightarrow> mail_queue" where
  "remove_mq_entry i q = q\<lparr>mq_entries := AList.delete i (mq_entries q)\<rparr>"

definition load_from_storage ::
    "'s queue_store option \<Rightarrow> mail_queue \<times> 's \<Rightarrow> (mail_queue \<times> 's) \<times> unit result" where
  "load_from_storage store qs =
     (case qs of (q, st) \<Rightarrow>
        case store of
          None \<Rightarrow> (qs, Inr ())
        | Some ops \<Rightarrow>
            (case qst_load_all_entries ops st of
               (st', Inl e) \<Rightarrow> ((q, st'), Inl e)
             | (st', Inr es) \<Rightarrow> ((foldl (\<lambda>q e. insert_entry (m_id (qe_mail e)) e q) q es, st'), Inr ())))"

definition enqueue_with_priority ::
    "'s queue_store option \<Rightarrow> nat \<Rightarrow> mail \<Rightarrow> priority \<Rightarrow> mail_queue \<times> 's \<Rightarrow> (mail_queue \<times> 's) \<times> unit result" where
  "enqueue_with_priority store now m p qs =
     (case qs of (q, st) \<Rightarrow>
        let q' = record_domain_stats m q; e = QueueEntry_new_with_priority now m p in
        case with_store store (\<lambda>ops. qst_save_entry ops e) st of
          (st', Inl err) \<Rightarrow> ((q', st'), Inl err)
        | (st', Inr _) \<Rightarrow> ((insert_entry (m_id m) e q', st'), Inr ()))"

definition mq_enqueue ::
    "(string \<Rightarrow> string) \<Rightarrow> 's queue_store option \<Rightarrow> nat \<Rightarrow> mail \<Rightarrow> mail_queue \<times> 's \<Rightarrow> (mail_queue \<times> 's) \<times> unit result" where
  "mq_enqueue lc store now m qs =
     enqueue_with_priority store now m (calculate_priority lc (mq_priority_config (fst qs)) m 0) qs"

text \<open>\<^verbatim>\<open>sort_by\<close> is stable; the comparison is priority descending, then time ascending.\<close>

definition retry_key :: "queue_entry \<Rightarrow> nat \<times> nat" where
  "retry_key e = (3 - as_u8 (qe_priority e), qe_next_retry e)"

definition get_ready_for_retry :: "nat \<Rightarrow> nat \<Rightarrow> mail_queue \<Rightarrow> queue_entry list" where
  "get_ready_for_retry now limit q =
     take limit (sort_key retry_key (filter (should_retry now) (map snd (mq_entries q))))"

definition get_ready_for_retry_by_priority :: "nat \<Rightarrow> priority \<Rightarrow> nat \<Rightarrow> mail_queue \<Rightarrow> queue_entry list" where
  "get_ready_for_retry_by_priority now p limit q =
     take limit (filter (\<lambda>e. should_retry now e \<and> qe_priority e = p) (map snd (mq_entries q)))"

definition move_to_dlq ::
    "'s queue_store option \<Rightarrow> mail_id \<Rightarrow> mail_queue \<times> 's \<Rightarrow> (mail_queue \<times> 's) \<times> unit result" where
  "move_to_dlq store i qs =
     (case qs of (q, st) \<Rightarrow>
        let q' = remove_mq_entry i q in
        case map_of (mq_entries q) i of
          None \<Rightarrow> ((q', st), Inr ())
        | Some e \<Rightarrow>
            (case with_store store (\<lambda>ops. qst_save_to_dlq ops e) st of
               (st', Inl err) \<Rightarrow> ((q', st'), Inl err)
             | (st', Inr _) \<Rightarrow>
                 (case with_store store (\<lambda>ops. qst_remove_entry ops i) st' of
                    (st'', r) \<Rightarrow> ((q', st''), r))))"

text \<open>The entry after a failed attempt.\<close>

definition failed_entry ::
    "(string \<Rightarrow> string) \<Rightarrow> priority_config \<Rightarrow> nat \<Rightarrow> string \<Rightarrow> queue_entry \<Rightarrow> queue_entry" where
  "failed_entry lc config now err e =
     (let e1 = calculate_next_retry now (e\<lparr>qe_last_error := Some err\<rparr>) in
      e1\<lparr>qe_priority :=
           (if pcf_inherit_priority_on_retry config
            then calculate_priority lc config (qe_mail e1) (qe_attempts e1) else qe_priority e1)\<rparr>)"

definition mark_failed ::
    "(string \<Rightarrow> string) \<Rightarrow> 's queue_store option \<Rightarrow> nat \<Rightarrow> mail_id \<Rightarrow> string \<Rightarrow> mail_queue \<times> 's \<Rightarrow>
     (mail_queue \<times> 's) \<times> unit result" where
  "mark_failed lc store now i err qs =
     (case qs of (q, st) \<Rightarrow>
        case map_of (mq_entries q) i of
          None \<Rightarrow> (qs, Inr ())
        | Some e \<Rightarrow>
            let e' = failed_entry lc (mq_priority_config q) now err e; q' = insert_entry i e' q in
            if is_bounced e' then move_to_dlq store i (q', st)
            else (case with_store store (\<lambda>ops. qst_save_entry ops e') st of
                    (st', r) \<Rightarrow> ((q', st'), r)))"

definition mark_delivered ::
    "'s queue_store option \<Rightarrow> mail_id \<Rightarrow> mail_queue \<times> 's \<Rightarrow> (mail_queue \<times> 's) \<times> unit result" where
  "mark_delivered store i qs =
     (case qs of (q, st) \<Rightarrow>
        case with_store store (\<lambda>ops. qst_remove_entry ops i) st of
          (st', Inl err) \<Rightarrow> ((q, st'), Inl err)
        | (st', Inr _) \<Rightarrow> ((remove_mq_entry i q, st'), Inr ()))"

definition mq_remove ::
    "'s queue_store option \<Rightarrow> mail_id \<Rightarrow> mail_queue \<times> 's \<Rightarrow> (mail_queue \<times> 's) \<times> queue_entry option result" where
  "mq_remove store i qs =
     (case qs of (q, st) \<Rightarrow>
        case with_store store (\<lambda>ops. qst_remove_entry ops i) st of
          (st', Inl err) \<Rightarrow> ((q, st'), Inl err)
        | (st', Inr _) \<Rightarrow> ((remove_mq_entry i q, st'), Inr (map_of (mq_entries q) i)))"

definition get_bounced :: "mail_queue \<Rightarrow> queue_entry list" where
  "get_bounced q = filter is_bounced (map snd (mq_entries q))"

definition mq_list_dlq :: "'s queue_store option \<Rightarrow> 's \<Rightarrow> 's \<times> queue_entry list result" where
  "mq_list_dlq store st = (case store of None \<Rightarrow> (st, Inr []) | Some ops \<Rightarrow> qst_list_dlq ops st)"

definition mq_remove_from_dlq :: "'s queue_store option \<Rightarrow> mail_id \<Rightarrow> 's \<Rightarrow> 's \<times> unit result" where
  "mq_remove_from_dlq store i st = with_store store (\<lambda>ops. qst_remove_from_dlq ops i) st"

definition retry_from_dlq ::
    "'s queue_store option \<Rightarrow> nat \<Rightarrow> mail_id \<Rightarrow> mail_queue \<times> 's \<Rightarrow> (mail_queue \<times> 's) \<times> unit result" where
  "retry_from_dlq store now i qs =
     (case qs of (q, st) \<Rightarrow>
        case store of
          None \<Rightarrow> (qs, Inr ())
        | Some ops \<Rightarrow>
            (case qst_list_dlq ops st of
               (st1, Inl err) \<Rightarrow> ((q, st1), Inl err)
             | (st1, Inr es) \<Rightarrow>
                 (case find (\<lambda>e. m_id (qe_mail e) = i) es of
                    None \<Rightarrow> ((q, st1), Inr ())
                  | Some e \<Rightarrow>
                      let e' = e\<lparr>qe_attempts := 0, qe_next_retry := now, qe_last_error := None\<rparr> in
                      case qst_save_entry ops e' st1 of
                        (st2, Inl err) \<Rightarrow> ((q, st2), Inl err)
                      | (st2, Inr _) \<Rightarrow>
                          (case qst_remove_from_dlq ops i st2 of
                             (st3, r) \<Rightarrow> ((insert_entry i e' q, st3), r)))))"

record queue_stats =
  qs_total :: nat
  qs_ready :: nat
  qs_bounced :: nat
  qs_delayed :: nat

text \<open>\<^verbatim>\<open>total - ready - bounced\<close> on \<^verbatim>\<open>usize\<close>; the groups are disjoint, so it does not wrap.\<close>

definition stats_of :: "nat \<Rightarrow> queue_entry list \<Rightarrow> queue_stats" where
  "stats_of now es =
     (let total = length es; ready = length (filter (should_retry now) es);
          bounced = length (filter is_bounced es)
      in \<lparr>qs_total = total, qs_ready = ready, qs_bounced = bounced, qs_delayed = total - ready - bounced\<rparr>)"

definition mq_stats :: "nat \<Rightarrow> mail_queue \<Rightarrow> queue_stats" where
  "mq_stats now q = stats_of now (map snd (mq_entries q))"

definition list_by_priority :: "priority \<Rightarrow> mail_queue \<Rightarrow> queue_entry list" where
  "list_by_priority p q = filter (\<lambda>e. qe_priority e = p) (map snd (mq_entries q))"

definition mq_stats_for_priority :: "nat \<Rightarrow> priority \<Rightarrow> mail_queue \<Rightarrow> queue_stats" where
  "mq_stats_for_priority now p q = stats_of now (list_by_priority p q)"

definition mq_stats_by_priority :: "nat \<Rightarrow> mail_queue \<Rightarrow> (priority \<times> queue_stats) list" where
  "mq_stats_by_priority now q = map (\<lambda>p. (p, mq_stats_for_priority now p q)) all_priorities"

section \<open>File system store\<close>

datatype fs_op = EnsureDirs | WriteMeta | MetaExists | ReadMeta | RemoveMeta | ReadDir

text \<open>The files of the two directories by the mail id in their names, and the state of the message
  store; \<^verbatim>\<open>fe_fresh\<close> are the identifiers drawn while a directory is read.\<close>

record 'ms fs_store =
  fq_queue :: "(mail_id \<times> string) list"
  fq_dlq :: "(mail_id \<times> string) list"
  fq_messages :: 'ms

record 'ms fs_env =
  fe_to_json :: "queue_entry_data \<Rightarrow> string"
  fe_from_json :: "string \<Rightarrow> queue_entry_data option"
  fe_append_message :: "mail \<Rightarrow> 'ms \<Rightarrow> 'ms \<times> unit result"
  fe_get_message :: "message_id \<Rightarrow> 'ms \<Rightarrow> mail option result"
  fe_fresh :: "nat \<Rightarrow> message_id"
  fe_io_error :: "fs_op \<Rightarrow> string option"

definition fs_io :: "'ms fs_env \<Rightarrow> fs_op \<Rightarrow> unit result" where
  "fs_io env act = (case fe_io_error env act of None \<Rightarrow> Inr () | Some e \<Rightarrow> Inl e)"

definition fs_save_entry :: "'ms fs_env \<Rightarrow> queue_entry \<Rightarrow> 'ms fs_store \<Rightarrow> 'ms fs_store \<times> unit result" where
  "fs_save_entry env e st =
     (case rbind (fs_io env EnsureDirs) (\<lambda>_. fs_io env WriteMeta) of
        Inl err \<Rightarrow> (st, Inl err)
      | Inr _ \<Rightarrow>
          (let st' = st\<lparr>fq_queue := AList.update (m_id (qe_mail e)) (fe_to_json env (stored_data e)) (fq_queue st)\<rparr> in
           case fe_append_message env (qe_mail e) (fq_messages st') of
             (ms, r) \<Rightarrow> (st'\<lparr>fq_messages := ms\<rparr>, r)))"

definition fs_remove_file ::
    "'ms fs_env \<Rightarrow> mail_id \<Rightarrow> (mail_id \<times> string) list \<Rightarrow> (mail_id \<times> string) list result" where
  "fs_remove_file env i files =
     rbind (fs_io env MetaExists) (\<lambda>_.
       if map_of files i = None then Inr files
       else rbind (fs_io env RemoveMeta) (\<lambda>_. Inr (AList.delete i files)))"

definition fs_remove_entry :: "'ms fs_env \<Rightarrow> mail_id \<Rightarrow> 'ms fs_store \<Rightarrow> 'ms fs_store \<times> unit result" where
  "fs_remove_entry env i st =
     (case fs_remove_file env i (fq_queue st) of
        Inl err \<Rightarrow> (st, Inl err)
      | Inr files \<Rightarrow> (st\<lparr>fq_queue := files\<rparr>, Inr ()))"

definition fs_load_entry :: "'ms fs_env \<Rightarrow> mail_id \<Rightarrow> 'ms fs_store \<Rightarrow> queue_entry option result" where
  "fs_load_entry env i st =
     rbind (fs_io env MetaExists) (\<lambda>_.
       case map_of (fq_queue st) i of
         None \<Rightarrow> Inr None
       | Some json \<Rightarrow>
           rbind (fs_io env ReadMeta) (\<lambda>_.
           rbind (ok_or ''invalid JSON'' (fe_from_json env json)) (\<lambda>d.
           rbind (fe_get_message env (fe_fresh env 0) (fq_messages st)) (\<lambda>found.
             Inr (map_option (from_data d) found)))))"

text \<open>The loop over a directory; the number counts the identifiers drawn.\<close>

fun fs_load_files ::
    "'ms fs_env \<Rightarrow> 'ms \<Rightarrow> nat \<Rightarrow> (mail_id \<times> string) list \<Rightarrow> queue_entry list result" where
  "fs_load_files env ms n [] = Inr []"
| "fs_load_files env ms n ((i, json) # files) =
     rbind (fs_io env ReadMeta) (\<lambda>_.
       case fe_from_json env json of
         None \<Rightarrow> fs_load_files env ms n files
       | Some d \<Rightarrow>
           rbind (fs_load_files env ms (Suc n) files) (\<lambda>es.
             case fe_get_message env (fe_fresh env n) ms of
               Inr (Some m) \<Rightarrow> Inr (from_data d m # es)
             | _ \<Rightarrow> Inr es))"

definition fs_load_dir ::
    "'ms fs_env \<Rightarrow> (mail_id \<times> string) list \<Rightarrow> 'ms fs_store \<Rightarrow> 'ms fs_store \<times> queue_entry list result" where
  "fs_load_dir env files st =
     (st, rbind (fs_io env EnsureDirs) (\<lambda>_. rbind (fs_io env ReadDir) (\<lambda>_.
            fs_load_files env (fq_messages st) 0 files)))"

definition fs_load_all_entries :: "'ms fs_env \<Rightarrow> 'ms fs_store \<Rightarrow> 'ms fs_store \<times> queue_entry list result" where
  "fs_load_all_entries env st = fs_load_dir env (fq_queue st) st"

definition fs_save_to_dlq :: "'ms fs_env \<Rightarrow> queue_entry \<Rightarrow> 'ms fs_store \<Rightarrow> 'ms fs_store \<times> unit result" where
  "fs_save_to_dlq env e st =
     (case rbind (fs_io env EnsureDirs) (\<lambda>_. fs_io env WriteMeta) of
        Inl err \<Rightarrow> (st, Inl err)
      | Inr _ \<Rightarrow>
          (st\<lparr>fq_dlq := AList.update (m_id (qe_mail e)) (fe_to_json env (stored_data e)) (fq_dlq st)\<rparr>, Inr ()))"

definition fs_list_dlq :: "'ms fs_env \<Rightarrow> 'ms fs_store \<Rightarrow> 'ms fs_store \<times> queue_entry list result" where
  "fs_list_dlq env st = fs_load_dir env (fq_dlq st) st"

definition fs_remove_from_dlq :: "'ms fs_env \<Rightarrow> mail_id \<Rightarrow> 'ms fs_store \<Rightarrow> 'ms fs_store \<times> unit result" where
  "fs_remove_from_dlq env i st =
     (case fs_remove_file env i (fq_dlq st) of
        Inl err \<Rightarrow> (st, Inl err)
      | Inr files \<Rightarrow> (st\<lparr>fq_dlq := files\<rparr>, Inr ()))"

definition filesystem_queue_store :: "'ms fs_env \<Rightarrow> 'ms fs_store queue_store" where
  "filesystem_queue_store env =
     \<lparr>qst_save_entry = fs_save_entry env, qst_remove_entry = fs_remove_entry env,
      qst_load_all_entries = fs_load_all_entries env, qst_save_to_dlq = fs_save_to_dlq env,
      qst_list_dlq = fs_list_dlq env, qst_remove_from_dlq = fs_remove_from_dlq env\<rparr>"

section \<open>Runs of the queue\<close>

datatype queue_op =
    Enqueue nat mail
  | EnqueueWithPriority nat mail priority
  | Failed nat mail_id string
  | Delivered mail_id
  | Remove mail_id
  | RetryFromDlq nat mail_id
  | SetPriorityConfig priority_config
  | LoadFromStorage

fun queue_step ::
    "(string \<Rightarrow> string) \<Rightarrow> 's queue_store option \<Rightarrow> mail_queue \<times> 's \<Rightarrow> queue_op \<Rightarrow> (mail_queue \<times> 's) \<times> unit result" where
  "queue_step lc store qs (Enqueue now m) = mq_enqueue lc store now m qs"
| "queue_step lc store qs (EnqueueWithPriority now m p) = enqueue_with_priority store now m p qs"
| "queue_step lc store qs (Failed now i err) = mark_failed lc store now i err qs"
| "queue_step lc store qs (Delivered i) = mark_delivered store i qs"
| "queue_step lc store qs (Remove i) = (case mq_remove store i qs of (qs', r) \<Rightarrow> (qs', rbind r (\<lambda>_. Inr ())))"
| "queue_step lc store qs (RetryFromDlq now i) = retry_from_dlq store now i qs"
| "queue_step lc store qs (SetPriorityConfig c) = ((update_priority_config c (fst qs), snd qs), Inr ())"
| "queue_step lc store qs LoadFromStorage = load_from_storage store qs"

abbreviation entry_of :: "mail_queue \<times> 's \<Rightarrow> mail_id \<Rightarrow> queue_entry option" where
  "entry_of qs i \<equiv> map_of (mq_entries (fst qs)) i"

lemma entries_insert [simp]:
  "map_of (mq_entries (insert_entry i e q)) j = (if j = i then Some e else map_of (mq_entries q) j)"
  by (simp add: insert_entry_def update_conv')

lemma entries_remove [simp]:
  "map_of (mq_entries (remove_mq_entry i q)) j = (if j = i then None else map_of (mq_entries q) j)"
  by (simp add: remove_mq_entry_def delete_conv')

lemma entries_stats [simp]: "mq_entries (record_domain_stats m q) = mq_entries q"
  by (simp add: record_domain_stats_def)

text \<open>What every operation does to the entry of one mail, whatever the store answers.\<close>

lemma mark_failed_entry:
  "entry_of (fst (mark_failed lc store now i err (q, st))) j =
     (case map_of (mq_entries q) i of
        None \<Rightarrow> map_of (mq_entries q) j
      | Some e \<Rightarrow>
          if j \<noteq> i then map_of (mq_entries q) j
          else if is_bounced (failed_entry lc (mq_priority_config q) now err e) then None
          else Some (failed_entry lc (mq_priority_config q) now err e))"
  by (auto simp: mark_failed_def move_to_dlq_def Let_def split: option.splits prod.splits sum.splits)

lemma mark_failed_config: "mq_priority_config (fst (fst (mark_failed lc store now i err (q, st)))) = mq_priority_config q"
  by (auto simp: mark_failed_def move_to_dlq_def insert_entry_def remove_mq_entry_def Let_def
      split: option.splits prod.splits sum.splits)

lemma enqueue_entry:
  "entry_of (fst (enqueue_with_priority store now m p (q, st))) j =
     (if j = m_id m \<and> snd (enqueue_with_priority store now m p (q, st)) = Inr ()
      then Some (QueueEntry_new_with_priority now m p) else map_of (mq_entries q) j)"
  by (auto simp: enqueue_with_priority_def Let_def split: prod.splits sum.splits)

lemma load_entries_kept:
  "map_of (mq_entries q) j \<noteq> None \<Longrightarrow>
     map_of (mq_entries (foldl (\<lambda>q e. insert_entry (m_id (qe_mail e)) e q) q es)) j \<noteq> None"
proof (induction es arbitrary: q)
  case (Cons e es)
  have "map_of (mq_entries (insert_entry (m_id (qe_mail e)) e q)) j \<noteq> None" using Cons.prems by simp
  from Cons.IH [OF this] show ?case by simp
qed simp

fun releases :: "mail_queue \<times> 's \<Rightarrow> mail_id \<Rightarrow> queue_op \<Rightarrow> bool" where
  "releases qs i (Delivered j) = (j = i)"
| "releases qs i (Remove j) = (j = i)"
| "releases qs i (Failed now j err) =
     (j = i \<and> (\<exists>e. entry_of qs i = Some e \<and> qe_max_attempts e \<le> (qe_attempts e + 1) mod 2 ^ 32))"
| "releases qs i _ = False"

lemma failed_entry_attempts [simp]:
  "qe_attempts (failed_entry lc c now err e) = (qe_attempts e + 1) mod 2 ^ 32"
  "qe_max_attempts (failed_entry lc c now err e) = qe_max_attempts e"
  "qe_next_retry (failed_entry lc c now err e) = now + backoff (qe_attempts e)"
  "qe_mail (failed_entry lc c now err e) = qe_mail e"
  by (simp_all add: failed_entry_def calculate_next_retry_def Let_def)

lemma queue_step_keeps:
  assumes "entry_of qs i \<noteq> None" "\<not> releases qs i ev"
  shows "entry_of (fst (queue_step lc store qs ev)) i \<noteq> None"
proof -
  obtain q st where qs: "qs = (q, st)" by (cases qs)
  show ?thesis
  proof (cases ev)
    case (Failed now j err)
    with assms qs show ?thesis
      by (auto simp: mark_failed_entry is_bounced_def split: option.splits)
  next
    case LoadFromStorage
    with assms qs load_entries_kept [of q i] show ?thesis
      by (auto simp: load_from_storage_def split: option.splits prod.splits sum.splits)
  qed (use assms qs in \<open>auto simp: mq_enqueue_def enqueue_entry mark_delivered_def mq_remove_def
      retry_from_dlq_def update_priority_config_def Let_def split: option.splits prod.splits sum.splits\<close>)
qed

lemma failures_from:
  assumes "entry_of (q, st) i = Some e" "qe_max_attempts e \<le> 2 ^ 32 - 1" "qe_attempts e < qe_max_attempts e"
  shows "(qe_attempts e + length fs < qe_max_attempts e \<longrightarrow>
      (\<exists>e'. entry_of (fst (run (queue_step lc store) (q, st) (map (\<lambda>f. Failed (fst f) i (snd f)) fs))) i = Some e' \<and>
         qe_mail e' = qe_mail e \<and> qe_attempts e' = qe_attempts e + length fs \<and>
         (fs \<noteq> [] \<longrightarrow> qe_next_retry e' = fst (last fs) + backoff (qe_attempts e + length fs - 1)))) \<and>
    (\<not> qe_attempts e + length fs < qe_max_attempts e \<longrightarrow>
      entry_of (fst (run (queue_step lc store) (q, st) (map (\<lambda>f. Failed (fst f) i (snd f)) fs))) i = None)"
  using assms
proof (induction fs arbitrary: q st e)
  case (Cons f fs)
  obtain t err where f: "f = (t, err)" by (cases f)
  let ?e = "failed_entry lc (mq_priority_config q) t err e"
  obtain q' st' r where step: "mark_failed lc store t i err (q, st) = ((q', st'), r)"
    by (metis surj_pair)
  have at: "qe_attempts ?e = qe_attempts e + 1" using Cons.prems by simp
  have one: "fst (run (queue_step lc store) (q, st) (map (\<lambda>f. Failed (fst f) i (snd f)) (f # fs))) =
      fst (run (queue_step lc store) (q', st') (map (\<lambda>f. Failed (fst f) i (snd f)) fs))"
    using step f by (simp add: case_prod_beta)
  show ?case
  proof (cases "qe_attempts e + 1 < qe_max_attempts e")
    case True
    then have e': "entry_of (q', st') i = Some ?e"
      using mark_failed_entry [of lc store t i err q st i] step Cons.prems at by (simp add: is_bounced_def)
    from Cons.IH [OF this] True Cons.prems at have
      "(qe_attempts e + 1 + length fs < qe_max_attempts e \<longrightarrow>
         (\<exists>e'. entry_of (fst (run (queue_step lc store) (q', st') (map (\<lambda>f. Failed (fst f) i (snd f)) fs))) i = Some e' \<and>
           qe_mail e' = qe_mail e \<and> qe_attempts e' = qe_attempts e + 1 + length fs \<and>
           (fs \<noteq> [] \<longrightarrow> qe_next_retry e' = fst (last fs) + backoff (qe_attempts e + length fs)))) \<and>
       (\<not> qe_attempts e + 1 + length fs < qe_max_attempts e \<longrightarrow>
         entry_of (fst (run (queue_step lc store) (q', st') (map (\<lambda>f. Failed (fst f) i (snd f)) fs))) i = None)"
      by (auto split: if_splits)
    with one e' f show ?thesis by (cases "fs = []") auto
  next
    case False
    then have gone: "entry_of (q', st') i = None"
      using mark_failed_entry [of lc store t i err q st i] step Cons.prems at by (simp add: is_bounced_def)
    have "entry_of (fst (run (queue_step lc store) qs (map (\<lambda>f. Failed (fst f) i (snd f)) fs))) i = None"
      if "entry_of qs i = None" for qs :: "mail_queue \<times> 'a"
      using that
    proof (induction fs arbitrary: qs)
      case (Cons g gs)
      obtain t err where g: "g = (t, err)" by (cases g)
      from Cons.prems have "mark_failed lc store t i err qs = (qs, Inr ())"
        by (cases qs) (simp add: mark_failed_def)
      with Cons g show ?case by (simp add: case_prod_beta)
    qed simp
    from this [OF gone] one False show ?thesis by simp
  qed
qed simp

section \<open>Properties\<close>

text \<open>C13: A queued mail is never lost: after a successful enqueue, whatever operations follow (on
  this or other mails, including reloads and configuration changes) and whatever the store
  answers, the mail stays in the queue unless one of them reports it delivered, removes it, or
  reports a failure of it when its attempts are used up.\<close>

theorem queue_never_loses_mail:
  assumes "snd (mq_enqueue lc store now m qs0) = Inr ()" "qs = fst (mq_enqueue lc store now m qs0)"
    and "\<And>us ev vs. ops = us @ ev # vs \<Longrightarrow> \<not> releases (fst (run (queue_step lc store) qs us)) (m_id m) ev"
  shows "entry_of (fst (run (queue_step lc store) qs ops)) (m_id m) \<noteq> None"
proof -
  have start: "entry_of qs (m_id m) \<noteq> None"
    using assms(1,2) by (cases qs0) (simp add: mq_enqueue_def enqueue_entry)
  from assms(3) show ?thesis
  proof (induction ops rule: rev_induct)
    case Nil
    with start show ?case by simp
  next
    case (snoc ev us)
    then have "\<not> releases (fst (run (queue_step lc store) qs us)) (m_id m) ev" by simp
    moreover have "entry_of (fst (run (queue_step lc store) qs us)) (m_id m) \<noteq> None"
      using snoc by (metis append_Cons append_assoc)
    ultimately show ?case
      using queue_step_keeps by (simp add: run_append case_prod_beta)
  qed
qed


text \<open>The batch of mails to retry is right: it is in the order of priority and then of due time,
  it holds only entries that are due and not exhausted, it is as long as the limit allows, and
  every due entry left out ranks after all entries of the batch.\<close>

theorem queue_ready_batch:
  "\<exists>left. mset (get_ready_for_retry now limit q @ left) =
        mset (filter (should_retry now) (map snd (mq_entries q))) \<and>
     sorted (map retry_key (get_ready_for_retry now limit q @ left)) \<and>
     length (get_ready_for_retry now limit q) =
       min limit (length (filter (should_retry now) (map snd (mq_entries q))))"
proof -
  let ?L = "sort_key retry_key (filter (should_retry now) (map snd (mq_entries q)))"
  have "get_ready_for_retry now limit q @ drop limit ?L = ?L" by (simp add: get_ready_for_retry_def)
  then show ?thesis
    by (intro exI [of _ "drop limit ?L"]) (simp add: get_ready_for_retry_def)
qed

text \<open>A priority given explicitly does not survive a failed attempt: under the default
  configuration an entry of any priority, for a mail without a priority attribute, has the
  default priority after its first failure.\<close>

theorem explicit_priority_lost:
  assumes "get_attribute m ''priority'' = None" "mq_priority_config q = priority_config_default"
    and "entry_of (q, st) i = Some (QueueEntry_new_with_priority now m p)"
  shows "map_option qe_priority (entry_of (fst (mark_failed lc store t i err (q, st))) i) = Some Normal"
proof -
  have "foldl (recipient_rule priority_config_default) None rs = None" for rs
    by (induction rs) (simp_all add: recipient_rule_def priority_config_default_def)
  with assms show ?thesis
    by (auto simp: mark_failed_entry is_bounced_def QueueEntry_new_with_priority_def failed_entry_def
        calculate_next_retry_def calculate_priority_def attribute_priority_def sender_priority_def
        apply_boost_def priority_config_default_def Let_def split: option.split)
qed

lemma fs_load_files_unknown:
  "\<forall>n. fe_get_message env (fe_fresh env n) ms = Inr None \<Longrightarrow> fe_io_error env ReadMeta = None \<Longrightarrow>
     fs_load_files env ms n files = Inr []"
  by (induction env ms n files rule: fs_load_files.induct) (auto simp: fs_io_def split: option.split)

text \<open>The file system store forgets the queue: because it looks the mails up under freshly drawn
  identifiers, which the message store cannot know, loading at start-up succeeds and finds
  nothing, whatever files the queue directory holds, and the restarted queue is empty.\<close>

theorem filesystem_queue_lost_on_restart:
  assumes "\<forall>n. fe_get_message env (fe_fresh env n) (fq_messages st) = Inr None"
    and "\<forall>act. fe_io_error env act = None"
  shows "load_from_storage (Some (filesystem_queue_store env)) (MailQueue_new cfg, st) =
    ((MailQueue_new cfg, st), Inr ())"
  using fs_load_files_unknown [OF assms(1)] assms(2)
  by (simp add: load_from_storage_def filesystem_queue_store_def fs_load_all_entries_def fs_load_dir_def fs_io_def)

section \<open>Witnesses\<close>

definition demo_fs_env :: "(mail list) fs_env" where
  "demo_fs_env =
     \<lparr>fe_to_json = (\<lambda>d. ''j''), fe_from_json = (\<lambda>s. None), fe_append_message = (\<lambda>m ms. (m # ms, Inr ())),
      fe_get_message = (\<lambda>i ms. Inr (find (\<lambda>m. m_message_id m = i) ms)), fe_fresh = (\<lambda>n. MessageId 99),
      fe_io_error = (\<lambda>op. None)\<rparr>"

definition demo_fs_store :: "(mail list) fs_store" where
  "demo_fs_store = \<lparr>fq_queue = [(MailId 1, ''j'')], fq_dlq = [], fq_messages = [demo_mail [''a'']]\<rparr>"

definition demo_queue :: mail_queue where
  "demo_queue =
     (MailQueue_new priority_config_default)
       \<lparr>mq_entries := [(MailId 1, QueueEntry_new_with_priority 0 (demo_mail [''a'']) High)]\<rparr>"

theorem filesystem_queue_lost_on_restart_witness:
  "load_from_storage (Some (filesystem_queue_store demo_fs_env)) (MailQueue_new priority_config_default, demo_fs_store) =
    ((MailQueue_new priority_config_default, demo_fs_store), Inr ())"
  by (rule filesystem_queue_lost_on_restart)
    (simp_all add: demo_fs_env_def demo_fs_store_def demo_mail_def Mail_new_def)

theorem explicit_priority_lost_witness:
  "map_option qe_priority
     (entry_of (fst (mark_failed (map to_lower) (None :: unit queue_store option) 5 (MailId 1) ''x'' (demo_queue, ()))) (MailId 1)) =
   Some Normal"
  by (rule explicit_priority_lost [where m = "demo_mail [''a'']" and now = 0 and p = High])
    (simp_all add: demo_queue_def MailQueue_new_def demo_mail_def Mail_new_def get_attribute_def)


theorem queue_never_loses_mail_witness:
  "entry_of (fst (run (queue_step (map to_lower) (None :: unit queue_store option))
     (fst (mq_enqueue (map to_lower) None 0 (demo_mail [''a'']) (MailQueue_new priority_config_default, ())))
     [Failed 7 (MailId 1) ''x'', Delivered (MailId 2)])) (MailId 1) \<noteq> None"
proof -
  let ?qs = "fst (mq_enqueue (map to_lower) (None :: unit queue_store option) 0 (demo_mail [''a'']) (MailQueue_new priority_config_default, ()))"
  have ok: "snd (mq_enqueue (map to_lower) (None :: unit queue_store option) 0 (demo_mail [''a'']) (MailQueue_new priority_config_default, ())) = Inr ()"
    by (simp add: mq_enqueue_def enqueue_with_priority_def with_store_def)
  have "\<not> releases (fst (run (queue_step (map to_lower) None) ?qs us)) (m_id (demo_mail [''a''])) ev"
    if "[Failed 7 (MailId 1) ''x'', Delivered (MailId 2)] = us @ ev # vs" for us ev vs
    using that
    by (cases us) (auto simp: Cons_eq_append_conv demo_mail_def Mail_new_def mq_enqueue_def enqueue_with_priority_def
        with_store_def QueueEntry_new_with_priority_def MailQueue_new_def)
  then have "entry_of (fst (run (queue_step (map to_lower) None) ?qs [Failed 7 (MailId 1) ''x'', Delivered (MailId 2)]))
      (m_id (demo_mail [''a''])) \<noteq> None"
    by (rule queue_never_loses_mail [OF ok refl])
  then show ?thesis by (simp add: demo_mail_def Mail_new_def)
qed

end
