(* ===== verification/Mail_Matchers.thy ===== *)
theory Mail_Matchers
  imports Proto_Mail
begin

text \<open>
  Model of \<^verbatim>\<open>crates/rusmes-core/src/matcher.rs\<close> and of the matchers under
  \<^verbatim>\<open>crates/rusmes-core/src/matchers\<close>: each selects the recipients of a mail that a processing
  step applies to.  The implementations of the trait \<^verbatim>\<open>Matcher\<close> are the constructors of one
  datatype, \<^verbatim>\<open>match_mail\<close> is the trait method with the loops of the composite matchers as
  functions of their own.  Unicode lower-casing is the argument \<open>lc\<close>.
\<close>

unbundle bit_operations_syntax

datatype matcher =
    AllMatcher
  | NoneMatcher
  | HasAttachmentMatcher
  | HeaderContainsMatcher string string
  | IsInBlacklistMatcher "string list"
  | IsInWhitelistMatcher "string list"
  | RecipientIsLocalMatcher "string list"
  | RemoteAddressMatcher "ip_addr list" "(ip_addr \<times> 8 word) list"
  | SenderIsMatcher "string list"
  | SizeGreaterThanMatcher nat
  | AndMatcher "matcher list"
  | OrMatcher "matcher list"
  | NotMatcher matcher

section \<open>Conditions on the message and the sender\<close>

definition detect_attachment :: "(string \<Rightarrow> string) \<Rightarrow> mail \<Rightarrow> bool" where
  "detect_attachment lc m =
     (let headers = mm_headers (m_message m);
          disposed = (case header_get_first lc headers ''Content-Disposition'' of
                        None \<Rightarrow> False | Some d \<Rightarrow> str_contains (lc d) ''attachment'')
      in case header_get_first lc headers ''Content-Type'' of
           None \<Rightarrow> disposed
         | Some content_type \<Rightarrow>
             (let ct = lc content_type in
              if str_contains ct ''multipart/mixed'' \<or> str_contains ct ''multipart/related'' then True
              else if disposed then True
              else if (starts_with ct ''image/'' \<or> starts_with ct ''application/'' \<or>
                       starts_with ct ''audio/'' \<or> starts_with ct ''video/'') \<and>
                      \<not> str_contains ct ''multipart/alternative''
              then str_contains ct ''name='' \<or> disposed
              else False))"

definition header_contains :: "(string \<Rightarrow> string) \<Rightarrow> string \<Rightarrow> string \<Rightarrow> mail \<Rightarrow> bool" where
  "header_contains lc name val m =
     (case header_get lc (mm_headers (m_message m)) name of
        None \<Rightarrow> False
      | Some vs \<Rightarrow> list_ex (\<lambda>v. str_contains v val) vs)"

definition sender_listed :: "string list \<Rightarrow> mail \<Rightarrow> bool" where
  "sender_listed entries m =
     (case m_sender m of
        None \<Rightarrow> False
      | Some s \<Rightarrow> list_ex (\<lambda>e. as_string s = e \<or> ends_with (as_string s) (''@'' @ e)) entries)"

text \<open>The mask is \<^verbatim>\<open>!0 << (32 - prefix_len)\<close> with the subtraction on \<^verbatim>\<open>u8\<close>; in release builds the
  subtraction wraps and the shift amount is taken modulo the width.\<close>

definition cidr_mask :: "8 word \<Rightarrow> 'a::len word" where
  "cidr_mask prefix_len =
     push_bit (unat (word_of_nat LENGTH('a) - prefix_len) mod LENGTH('a)) (- 1)"

fun ip_in_cidr :: "ip_addr \<Rightarrow> ip_addr \<Rightarrow> 8 word \<Rightarrow> bool" where
  "ip_in_cidr (V4 a) (V4 c) p \<longleftrightarrow> a AND cidr_mask p = c AND cidr_mask p"
| "ip_in_cidr (V6 a) (V6 c) p \<longleftrightarrow> a AND cidr_mask p = c AND cidr_mask p"
| "ip_in_cidr _ _ _ \<longleftrightarrow> False"

definition matches_cidr :: "(ip_addr \<times> 8 word) list \<Rightarrow> ip_addr \<Rightarrow> bool" where
  "matches_cidr cidrs addr = list_ex (\<lambda>(c, p). ip_in_cidr addr c p) cidrs"

definition remote_allowed :: "ip_addr list \<Rightarrow> (ip_addr \<times> 8 word) list \<Rightarrow> mail \<Rightarrow> bool" where
  "remote_allowed ips cidrs m =
     (case m_remote_addr m of
        None \<Rightarrow> False
      | Some addr \<Rightarrow> addr \<in> set ips \<or> matches_cidr cidrs addr)"

definition sender_is :: "string list \<Rightarrow> mail \<Rightarrow> bool" where
  "sender_is senders m =
     (case m_sender m of None \<Rightarrow> False | Some s \<Rightarrow> list_ex (\<lambda>x. str_contains (as_string s) x) senders)"

definition is_local_domain :: "string list \<Rightarrow> mail_address \<Rightarrow> bool" where
  "is_local_domain local_domains r = list_ex (\<lambda>d. domain_str (addr_domain r) = d) local_domains"

section \<open>The trait method\<close>

text \<open>A condition that does not depend on the recipient selects all of them or none.\<close>

definition all_if :: "bool \<Rightarrow> mail \<Rightarrow> mail_address list result" where
  "all_if b m = Inr (if b then m_recipients m else [])"

definition push_new :: "mail_address list \<Rightarrow> mail_address \<Rightarrow> mail_address list" where
  "push_new rs r = (if r \<in> set rs then rs else rs @ [r])"

fun match_mail :: "(string \<Rightarrow> string) \<Rightarrow> matcher \<Rightarrow> mail \<Rightarrow> mail_address list result"
  and and_loop :: "(string \<Rightarrow> string) \<Rightarrow> matcher list \<Rightarrow> mail \<Rightarrow> mail_address list \<Rightarrow> mail_address list result"
  and or_loop :: "(string \<Rightarrow> string) \<Rightarrow> matcher list \<Rightarrow> mail \<Rightarrow> mail_address list \<Rightarrow> mail_address list result" where
  "match_mail lc AllMatcher m = Inr (m_recipients m)"
| "match_mail lc NoneMatcher m = Inr []"
| "match_mail lc HasAttachmentMatcher m = all_if (detect_attachment lc m) m"
| "match_mail lc (HeaderContainsMatcher n v) m = all_if (header_contains lc n v m) m"
| "match_mail lc (IsInBlacklistMatcher bl) m = all_if (sender_listed bl m) m"
| "match_mail lc (IsInWhitelistMatcher wl) m = all_if (sender_listed wl m) m"
| "match_mail lc (RecipientIsLocalMatcher ds) m = Inr (filter (is_local_domain ds) (m_recipients m))"
| "match_mail lc (RemoteAddressMatcher ips cidrs) m = all_if (remote_allowed ips cidrs m) m"
| "match_mail lc (SenderIsMatcher ss) m = all_if (sender_is ss m) m"
| "match_mail lc (SizeGreaterThanMatcher threshold) m = all_if (threshold < mail_size m) m"
| "match_mail lc (AndMatcher ms) m = (if ms = [] then Inr [] else and_loop lc ms m (m_recipients m))"
| "match_mail lc (OrMatcher ms) m = or_loop lc ms m []"
| "match_mail lc (NotMatcher mt) m =
     rbind (match_mail lc mt m) (\<lambda>matched. Inr (filter (\<lambda>r. r \<notin> set matched) (m_recipients m)))"
| "and_loop lc [] m res = Inr res"
| "and_loop lc (mt # mts) m res =
     rbind (match_mail lc mt m) (\<lambda>matched.
       let res' = filter (\<lambda>r. r \<in> set matched) res in
       if res' = [] then Inr res' else and_loop lc mts m res')"
| "or_loop lc [] m res = Inr res"
| "or_loop lc (mt # mts) m res =
     rbind (match_mail lc mt m) (\<lambda>matched. or_loop lc mts m (foldl push_new res matched))"

section \<open>What a matcher selects\<close>

text \<open>The specification: a matcher is a predicate on a mail and a recipient, and the composite
  matchers are the Boolean connectives.\<close>

fun selects :: "(string \<Rightarrow> string) \<Rightarrow> matcher \<Rightarrow> mail \<Rightarrow> mail_address \<Rightarrow> bool" where
  "selects lc AllMatcher m r \<longleftrightarrow> True"
| "selects lc NoneMatcher m r \<longleftrightarrow> False"
| "selects lc HasAttachmentMatcher m r \<longleftrightarrow> detect_attachment lc m"
| "selects lc (HeaderContainsMatcher n v) m r \<longleftrightarrow> header_contains lc n v m"
| "selects lc (IsInBlacklistMatcher bl) m r \<longleftrightarrow> sender_listed bl m"
| "selects lc (IsInWhitelistMatcher wl) m r \<longleftrightarrow> sender_listed wl m"
| "selects lc (RecipientIsLocalMatcher ds) m r \<longleftrightarrow> domain_str (addr_domain r) \<in> set ds"
| "selects lc (RemoteAddressMatcher ips cidrs) m r \<longleftrightarrow> remote_allowed ips cidrs m"
| "selects lc (SenderIsMatcher ss) m r \<longleftrightarrow> sender_is ss m"
| "selects lc (SizeGreaterThanMatcher threshold) m r \<longleftrightarrow> threshold < mail_size m"
| "selects lc (AndMatcher ms) m r \<longleftrightarrow> ms \<noteq> [] \<and> (\<forall>mt \<in> set ms. selects lc mt m r)"
| "selects lc (OrMatcher ms) m r \<longleftrightarrow> (\<exists>mt \<in> set ms. selects lc mt m r)"
| "selects lc (NotMatcher mt) m r \<longleftrightarrow> \<not> selects lc mt m r"

lemma set_push_new [simp]: "set (push_new rs r) = insert r (set rs)"
  by (auto simp: push_new_def)

lemma set_foldl_push_new [simp]: "set (foldl push_new res rs) = set res \<union> set rs"
  by (induction rs arbitrary: res) auto

lemma distinct_foldl_push_new: "distinct res \<Longrightarrow> distinct (foldl push_new res rs)"
  by (induction rs arbitrary: res) (auto simp: push_new_def)

lemma is_local_domain_iff [simp]: "is_local_domain ds r \<longleftrightarrow> domain_str (addr_domain r) \<in> set ds"
  by (auto simp: is_local_domain_def list_ex_iff)

lemma match_loops_select:
  "\<exists>rs. match_mail lc mt m = Inr rs \<and> set rs = {r \<in> set (m_recipients m). selects lc mt m r}"
  "\<exists>rs. and_loop lc mts m res = Inr rs \<and>
     (set res \<subseteq> set (m_recipients m) \<longrightarrow> set rs = {r \<in> set res. \<forall>mt \<in> set mts. selects lc mt m r})"
  "\<exists>rs. or_loop lc mts m res = Inr rs \<and>
     set rs = set res \<union> {r \<in> set (m_recipients m). \<exists>mt \<in> set mts. selects lc mt m r}"
proof (induction lc mt m and lc mts m res and lc mts m res rule: match_mail_and_loop_or_loop.induct)
  case (15 lc mt mts m res)
  then obtain matched where matched: "match_mail lc mt m = Inr matched"
    "set matched = {r \<in> set (m_recipients m). selects lc mt m r}" by blast
  let ?res = "filter (\<lambda>r. r \<in> set matched) res"
  show ?case
  proof (cases "?res = []")
    case True
    with matched show ?thesis by (auto simp: rbind_def Let_def filter_empty_conv)
  next
    case False
    with 15(2) [OF refl False] obtain rs where "and_loop lc mts m ?res = Inr rs"
      "set ?res \<subseteq> set (m_recipients m) \<longrightarrow> set rs = {r \<in> set ?res. \<forall>mt \<in> set mts. selects lc mt m r}"
      by blast
    with matched False show ?thesis by (auto simp: rbind_def Let_def)
  qed
next
  case (17 lc mt mts m res)
  then obtain matched where matched: "match_mail lc mt m = Inr matched"
    "set matched = {r \<in> set (m_recipients m). selects lc mt m r}" by blast
  from 17(2) [of matched] matched show ?case by (auto simp: rbind_def)
qed (auto simp: all_if_def rbind_def)

lemma match_mail_selects:
  assumes "match_mail lc mt m = Inr rs"
  shows "set rs = {r \<in> set (m_recipients m). selects lc mt m r}"
  using match_loops_select(1) [of lc mt m] assms by auto

lemma and_mask_drop_bit:
  fixes a c :: "'a::len word"
  shows "a AND NOT (mask n) = c AND NOT (mask n) \<longleftrightarrow> drop_bit n a = drop_bit n c"
proof
  assume eq: "a AND NOT (mask n) = c AND NOT (mask n)"
  show "drop_bit n a = drop_bit n c"
  proof (rule bit_eqI)
    fix k assume "possible_bit TYPE('a word) k"
    have "bit (a AND NOT (mask n)) (n + k) = bit (c AND NOT (mask n)) (n + k)" by (simp only: eq)
    then show "bit (drop_bit n a) k = bit (drop_bit n c) k"
      by (auto simp: bit_simps dest: bit_imp_le_length)
  qed
next
  assume eq: "drop_bit n a = drop_bit n c"
  show "a AND NOT (mask n) = c AND NOT (mask n)"
  proof (rule bit_eqI)
    fix k assume "possible_bit TYPE('a word) k"
    have "bit (drop_bit n a) (k - n) = bit (drop_bit n c) (k - n)" by (simp add: eq)
    then show "bit (a AND NOT (mask n)) k = bit (c AND NOT (mask n)) k"
      by (auto simp: bit_simps)
  qed
qed

lemma cidr_mask_shift:
  assumes "0 < unat p" "unat p \<le> LENGTH('a::len)" "LENGTH('a) < 256"
  shows "(cidr_mask p :: 'a word) = push_bit (LENGTH('a) - unat p) (- 1)"
proof -
  have "unat (word_of_nat LENGTH('a) :: 8 word) = LENGTH('a)"
    using assms(3) by (simp add: unat_of_nat take_bit_nat_eq_self)
  then have "unat (word_of_nat LENGTH('a) - p) = LENGTH('a) - unat p"
    using assms(2) by (simp add: unat_sub word_le_nat_alt)
  with assms(1) show ?thesis by (simp add: cidr_mask_def)
qed

section \<open>Properties\<close>

text \<open>C33: The matchers are Boolean conditions: every matcher, however nested, succeeds, and the
  recipients it returns are exactly the recipients of the mail for which its specification holds:
  \<^verbatim>\<open>And\<close> is conjunction (of a non-empty list), \<^verbatim>\<open>Or\<close> disjunction and \<^verbatim>\<open>Not\<close> complement.\<close>

theorem matchers_are_boolean_conditions:
  "\<exists>rs. match_mail lc mt m = Inr rs \<and> set rs = {r \<in> set (m_recipients m). selects lc mt m r}"
  by (rule match_loops_select)

text \<open>A version 4 address is in a range with prefix length 1 to 32, and a version 6 address in a
  range with prefix length 1 to 128, exactly when the leading bits agree; addresses of different
  versions never match.\<close>

theorem cidr_prefix_exact:
  assumes "0 < unat p"
  shows "(unat p \<le> 32 \<longrightarrow> ip_in_cidr (V4 a) (V4 c) p = (drop_bit (32 - unat p) a = drop_bit (32 - unat p) c)) \<and>
    (unat p \<le> 128 \<longrightarrow> ip_in_cidr (V6 d) (V6 e) p = (drop_bit (128 - unat p) d = drop_bit (128 - unat p) e)) \<and>
    \<not> ip_in_cidr (V4 a) (V6 e) p \<and> \<not> ip_in_cidr (V6 d) (V4 c) p"
  using assms by (auto simp: cidr_mask_shift and_mask_drop_bit)

theorem cidr_prefix_exact_witness:
  "ip_in_cidr (V4 0x0A010203) (V4 0x0A000000) 8 \<and> \<not> ip_in_cidr (V4 0x0B010203) (V4 0x0A000000) 8"
  using cidr_prefix_exact [of 8 "0x0A010203" "0x0A000000" 0 0] cidr_prefix_exact [of 8 "0x0B010203" "0x0A000000" 0 0]
  by (simp del: ip_in_cidr.simps) code_simp?

text \<open>A prefix length of zero does not match every address, as the notation means, but only the
  one address itself: the shift by the whole width leaves the mask full.\<close>

theorem cidr_prefix_zero_matches_one_address:
  "ip_in_cidr (V4 a) (V4 c) 0 \<longleftrightarrow> a = c"
  by (simp add: cidr_mask_def)

end
