(* ===== verification/Mail_Processor.thy ===== *)
theory Mail_Processor
  imports Mail_Matchers
begin

text \<open>
  Model of \<^verbatim>\<open>crates/rusmes-core/src/mailet.rs\<close>, \<^verbatim>\<open>processor.rs\<close> and \<^verbatim>\<open>router.rs\<close>: the configuration
  and error policies of mailets, the chain of matcher and mailet pairs of a processor, and the
  router that moves a mail between the processors of its states.

  A mailet is a record of its name and its \<^verbatim>\<open>service\<close> method.  The method works on the mail and on
  a state \<open>'w\<close> that stands for everything outside the mail (mailboxes, remote servers, its own
  tables); a call says how long it takes, in milliseconds, and what it leaves behind when it is
  cancelled by a timeout before that.  Fresh mail identifiers are drawn from a sequence.  The
  errors the code formats into messages are the constructors of a datatype.
\<close>

section \<open>Mailets and their configuration\<close>

datatype mailet_error = Timeout nat | ServiceError string

datatype error_policy = Skip | Abort | Retry nat nat

datatype mailet_action = Continue | ChangeState mail_state | Drop | Defer nat

record mailet_config =
  mc_name :: string
  mc_params :: "(string \<times> string) list"
  mc_timeout_ms :: "nat option"
  mc_error_policy :: error_policy

definition MailetConfig_new :: "string \<Rightarrow> mailet_config" where
  "MailetConfig_new name =
     \<lparr>mc_name = name, mc_params = [], mc_timeout_ms = None, mc_error_policy = Abort\<rparr>"

definition with_param :: "string \<Rightarrow> string \<Rightarrow> mailet_config \<Rightarrow> mailet_config" where
  "with_param key val c = c\<lparr>mc_params := AList.update key val (mc_params c)\<rparr>"

definition with_timeout_ms :: "nat \<Rightarrow> mailet_config \<Rightarrow> mailet_config" where
  "with_timeout_ms ms c = c\<lparr>mc_timeout_ms := Some ms\<rparr>"

definition with_error_policy :: "error_policy \<Rightarrow> mailet_config \<Rightarrow> mailet_config" where
  "with_error_policy policy c = c\<lparr>mc_error_policy := policy\<rparr>"

definition get_param :: "mailet_config \<Rightarrow> string \<Rightarrow> string option" where
  "get_param c key = map_of (mc_params c) key"

definition require_param :: "mailet_config \<Rightarrow> string \<Rightarrow> string result" where
  "require_param c key =
     ok_or (''Required parameter '' @ [CHR 0x27] @ key @ [CHR 0x27] @ '' not found in mailet config'') (get_param c key)"

type_synonym 'w service = "mail \<Rightarrow> 'w \<Rightarrow> (mail \<times> 'w) \<times> mailet_action result"

record 'w mailet =
  ml_name :: string
  ml_service :: "'w service"
  ml_duration :: "mail \<Rightarrow> 'w \<Rightarrow> nat"
  ml_cancelled :: "nat \<Rightarrow> mail \<Rightarrow> 'w \<Rightarrow> mail \<times> 'w"

section \<open>Calling a mailet\<close>

definition invoke_with_timeout ::
    "'w mailet \<Rightarrow> nat option \<Rightarrow> mail \<times> 'w \<Rightarrow> (mail \<times> 'w) \<times> (mailet_error + mailet_action)" where
  "invoke_with_timeout ml timeout_ms mw =
     (case mw of (m, w) \<Rightarrow>
        case timeout_ms of
          None \<Rightarrow> (case ml_service ml m w of (mw', r) \<Rightarrow> (mw', map_err ServiceError r))
        | Some ms \<Rightarrow>
            if ml_duration ml m w \<le> ms
            then (case ml_service ml m w of (mw', r) \<Rightarrow> (mw', map_err ServiceError r))
            else (ml_cancelled ml ms m w, Inl (Timeout ms)))"

datatype pipeline_error =
    Aborted string mailet_error
  | RetriesExhausted string nat mailet_error
  | MatcherFailed string
  | NoProcessor mail_state
  | FailedInErrorState mail_id

text \<open>The retry loop; the argument counts down what \<^verbatim>\<open>attempts > max\<close> leaves.  (The counter is a
  \<^verbatim>\<open>u32\<close>: it could only wrap with the largest possible \<^verbatim>\<open>max\<close>.)\<close>

fun retry_loop ::
    "'w mailet \<Rightarrow> nat option \<Rightarrow> nat \<Rightarrow> nat \<Rightarrow> mail \<times> 'w \<Rightarrow> (mail \<times> 'w) \<times> (pipeline_error + mailet_action option)" where
  "retry_loop ml timeout_ms max_retries 0 mw =
     (case invoke_with_timeout ml timeout_ms mw of
        (mw', Inr a) \<Rightarrow> (mw', Inr (Some a))
      | (mw', Inl e) \<Rightarrow> (mw', Inl (RetriesExhausted (ml_name ml) max_retries e)))"
| "retry_loop ml timeout_ms max_retries (Suc left) mw =
     (case invoke_with_timeout ml timeout_ms mw of
        (mw', Inr a) \<Rightarrow> (mw', Inr (Some a))
      | (mw', Inl e) \<Rightarrow> retry_loop ml timeout_ms max_retries left mw')"

definition invoke_with_policy ::
    "'w mailet \<Rightarrow> mailet_config \<Rightarrow> mail \<times> 'w \<Rightarrow> (mail \<times> 'w) \<times> (pipeline_error + mailet_action option)" where
  "invoke_with_policy ml config mw =
     (case mc_error_policy config of
        Skip \<Rightarrow>
          (case invoke_with_timeout ml (mc_timeout_ms config) mw of
             (mw', Inr a) \<Rightarrow> (mw', Inr (Some a))
           | (mw', Inl e) \<Rightarrow> (mw', Inr None))
      | Abort \<Rightarrow>
          (case invoke_with_timeout ml (mc_timeout_ms config) mw of
             (mw', Inr a) \<Rightarrow> (mw', Inr (Some a))
           | (mw', Inl e) \<Rightarrow> (mw', Inl (Aborted (ml_name ml) e)))
      | Retry max_retries backoff \<Rightarrow> retry_loop ml (mc_timeout_ms config) max_retries max_retries mw)"

section \<open>Processors\<close>

record 'w processing_step =
  st_matcher :: "mail \<Rightarrow> mail_address list result"
  st_mailet :: "'w mailet"
  st_config :: mailet_config

definition ProcessingStep_new :: "(mail \<Rightarrow> mail_address list result) \<Rightarrow> 'w mailet \<Rightarrow> 'w processing_step" where
  "ProcessingStep_new mt ml = \<lparr>st_matcher = mt, st_mailet = ml, st_config = MailetConfig_new (ml_name ml)\<rparr>"

record 'w processor =
  pr_name :: string
  pr_state :: mail_state
  pr_steps :: "'w processing_step list"
  pr_thread_pool_size :: nat

definition Processor_new :: "string \<Rightarrow> mail_state \<Rightarrow> 'w processor" where
  "Processor_new name state = \<lparr>pr_name = name, pr_state = state, pr_steps = [], pr_thread_pool_size = 4\<rparr>"

definition add_step :: "'w processing_step \<Rightarrow> 'w processor \<Rightarrow> 'w processor" where
  "add_step s pr = pr\<lparr>pr_steps := pr_steps pr @ [s]\<rparr>"

text \<open>Everything outside the mail: the world of the mailets, the number of identifiers drawn, and
  the counters of processed and delivered mails of the metrics.\<close>

record 'w pipe =
  pp_world :: 'w
  pp_drawn :: nat
  pp_processed :: nat
  pp_delivered :: nat

text \<open>One step of the chain; the Boolean says whether the state check after the step is reached.\<close>

definition process_step ::
    "(nat \<Rightarrow> mail_id) \<Rightarrow> 'w processing_step \<Rightarrow> mail \<Rightarrow> 'w pipe \<Rightarrow>
     'w pipe \<times> (pipeline_error + mail \<times> bool)" where
  "process_step new_id s m p =
     (case st_matcher s m of
        Inl e \<Rightarrow> (p, Inl (MatcherFailed e))
      | Inr matched \<Rightarrow>
          if matched = [] then (p, Inr (m, False))
          else if length matched < length (m_recipients m) then
            (let (matched_mail, unmatched_mail) = mail_split (new_id (pp_drawn p)) m matched in
             case invoke_with_policy (st_mailet s) (st_config s) (matched_mail, pp_world p) of
               ((_, w'), r) \<Rightarrow>
                 (let p' = p\<lparr>pp_world := w', pp_drawn := pp_drawn p + 1\<rparr> in
                  case r of
                    Inl e \<Rightarrow> (p', Inl e)
                  | Inr _ \<Rightarrow> (p', Inr (unmatched_mail, True))))
          else
            (case invoke_with_policy (st_mailet s) (st_config s) (m, pp_world p) of
               ((m', w'), r) \<Rightarrow>
                 (let p' = p\<lparr>pp_world := w'\<rparr> in
                  case r of
                    Inl e \<Rightarrow> (p', Inl e)
                  | Inr None \<Rightarrow> (p', Inr (m', False))
                  | Inr (Some _) \<Rightarrow> (p', Inr (m', True)))))"

fun process_steps ::
    "(nat \<Rightarrow> mail_id) \<Rightarrow> mail_state \<Rightarrow> 'w processing_step list \<Rightarrow> mail \<Rightarrow> 'w pipe \<Rightarrow>
     'w pipe \<times> (pipeline_error + mail)" where
  "process_steps new_id state [] m p = (p, Inr m)"
| "process_steps new_id state (s # ss) m p =
     (case process_step new_id s m p of
        (p', Inl e) \<Rightarrow> (p', Inl e)
      | (p', Inr (m', checked)) \<Rightarrow>
          if checked \<and> m_state m' \<noteq> state then (p', Inr m')
          else process_steps new_id state ss m' p')"

definition process ::
    "(nat \<Rightarrow> mail_id) \<Rightarrow> 'w processor \<Rightarrow> mail \<Rightarrow> 'w pipe \<Rightarrow> 'w pipe \<times> (pipeline_error + mail)" where
  "process new_id pr m p = process_steps new_id (pr_state pr) (pr_steps pr) m p"

section \<open>The router\<close>

record 'w router =
  rt_processors :: "(mail_state \<times> 'w processor) list"
  rt_error_processor :: "'w processor option"

definition Router_new :: "'w router" where
  "Router_new = \<lparr>rt_processors = [], rt_error_processor = None\<rparr>"

definition register_processor :: "mail_state \<Rightarrow> 'w processor \<Rightarrow> 'w router \<Rightarrow> 'w router" where
  "register_processor st pr rt = rt\<lparr>rt_processors := AList.update st pr (rt_processors rt)\<rparr>"

definition set_error_processor :: "'w processor \<Rightarrow> 'w router \<Rightarrow> 'w router" where
  "set_error_processor pr rt = rt\<lparr>rt_error_processor := Some pr\<rparr>"

definition max_depth :: nat where
  "max_depth = 100"

definition record_mail_completed :: "'w pipe \<Rightarrow> 'w pipe" where
  "record_mail_completed p =
     p\<lparr>pp_processed := (pp_processed p + 1) mod 2 ^ 64, pp_delivered := (pp_delivered p + 1) mod 2 ^ 64\<rparr>"

text \<open>One round of the loop: a result, or the mail for the next round.\<close>

definition route_round ::
    "(nat \<Rightarrow> mail_id) \<Rightarrow> 'w router \<Rightarrow> nat \<Rightarrow> mail \<Rightarrow> 'w pipe \<Rightarrow>
     'w pipe \<times> ((pipeline_error + unit) + mail)" where
  "route_round new_id rt depth m0 p =
     (let m = (if max_depth < depth then m0\<lparr>m_state := Error_state\<rparr> else m0) in
      case map_of (rt_processors rt) (m_state m) of
        None \<Rightarrow> (p, Inl (Inl (NoProcessor (m_state m))))
      | Some pr \<Rightarrow>
          (case process new_id pr m p of
             (p', Inl e) \<Rightarrow> (p', Inl (Inl e))
           | (p', Inr m') \<Rightarrow>
               if m_state m' = Ghost then (record_mail_completed p', Inl (Inr ()))
               else if m_state m' = m_state m then
                 (p', Inl (if m_state m' = Error_state then Inl (FailedInErrorState (m_id m')) else Inr ()))
               else (p', Inr m')))"

partial_function (option) route_loop ::
    "(nat \<Rightarrow> mail_id) \<Rightarrow> 'w router \<Rightarrow> nat \<Rightarrow> mail \<Rightarrow> 'w pipe \<Rightarrow> ('w pipe \<times> (pipeline_error + unit)) option" where
  "route_loop new_id rt depth m p =
     (case route_round new_id rt depth m p of
        (p', Inl r) \<Rightarrow> Some (p', r)
      | (p', Inr m') \<Rightarrow> route_loop new_id rt (depth + 1) m' p')"

definition route ::
    "(nat \<Rightarrow> mail_id) \<Rightarrow> 'w router \<Rightarrow> mail \<Rightarrow> 'w pipe \<Rightarrow> ('w pipe \<times> (pipeline_error + unit)) option" where
  "route new_id rt m p = route_loop new_id rt 0 m p"

section \<open>Retries\<close>

abbreviation attempt :: "'w mailet \<Rightarrow> nat option \<Rightarrow> mail \<times> 'w \<Rightarrow> mail \<times> 'w" where
  "attempt ml t mw \<equiv> fst (invoke_with_timeout ml t mw)"

lemma attempts_shift:
  "invoke_with_timeout ml t mw = (mw1, r) \<Longrightarrow> (attempt ml t ^^ Suc j) mw = (attempt ml t ^^ j) mw1"
  by (simp add: funpow_Suc_right del: funpow.simps)

lemma retry_loop_success:
  "k \<le> left \<Longrightarrow> \<forall>j<k. \<exists>e. snd (invoke_with_timeout ml t ((attempt ml t ^^ j) mw)) = Inl e \<Longrightarrow>
     invoke_with_timeout ml t ((attempt ml t ^^ k) mw) = (mw', Inr a) \<Longrightarrow>
     retry_loop ml t n left mw = (mw', Inr (Some a))"
proof (induction left arbitrary: k mw)
  case (Suc left)
  show ?case
  proof (cases k)
    case (Suc i)
    have "\<exists>e. snd (invoke_with_timeout ml t mw) = Inl e" using Suc.prems(2) Suc by fastforce
    then obtain e mw1 where first: "invoke_with_timeout ml t mw = (mw1, Inl e)" by (metis prod.collapse)
    note shift = attempts_shift [OF first]
    have "\<exists>e. snd (invoke_with_timeout ml t ((attempt ml t ^^ j) mw1)) = Inl e" if "j < i" for j
      using Suc.prems(2) [rule_format, of "Suc j"] that Suc unfolding shift by simp
    moreover have "invoke_with_timeout ml t ((attempt ml t ^^ i) mw1) = (mw', Inr a)"
      using Suc.prems(3) unfolding Suc shift .
    ultimately have "retry_loop ml t n left mw1 = (mw', Inr (Some a))"
      using Suc.IH Suc.prems(1) Suc by simp
    with first show ?thesis by simp
  qed (use Suc.prems in simp)
qed simp

lemma retry_loop_exhausted:
  "\<forall>j<left. \<exists>e. snd (invoke_with_timeout ml t ((attempt ml t ^^ j) mw)) = Inl e \<Longrightarrow>
     invoke_with_timeout ml t ((attempt ml t ^^ left) mw) = (mw', Inl e) \<Longrightarrow>
     retry_loop ml t n left mw = (mw', Inl (RetriesExhausted (ml_name ml) n e))"
proof (induction left arbitrary: mw)
  case (Suc left)
  have "\<exists>e. snd (invoke_with_timeout ml t mw) = Inl e" using Suc.prems(1) by fastforce
  then obtain e0 mw1 where first: "invoke_with_timeout ml t mw = (mw1, Inl e0)" by (metis prod.collapse)
  note shift = attempts_shift [OF first]
  have "\<exists>e. snd (invoke_with_timeout ml t ((attempt ml t ^^ j) mw1)) = Inl e" if "j < left" for j
    using Suc.prems(1) [rule_format, of "Suc j"] that unfolding shift by simp
  moreover have "invoke_with_timeout ml t ((attempt ml t ^^ left) mw1) = (mw', Inl e)"
    using Suc.prems(2) unfolding shift .
  ultimately show ?case using Suc.IH first by simp
qed simp

text \<open>The number of further attempts a policy allows.\<close>

fun extra_attempts :: "error_policy \<Rightarrow> nat" where
  "extra_attempts (Retry n backoff) = n"
| "extra_attempts _ = 0"

section \<open>Actions\<close>

text \<open>The mailet that does the same work but always answers \<^verbatim>\<open>Continue\<close>.\<close>

definition silence :: "'w mailet \<Rightarrow> 'w mailet" where
  "silence ml =
     ml\<lparr>ml_service := (\<lambda>m w. case ml_service ml m w of (mw', r) \<Rightarrow> (mw', rbind r (\<lambda>_. Inr Continue)))\<rparr>"

definition silence_step :: "'w processing_step \<Rightarrow> 'w processing_step" where
  "silence_step s = s\<lparr>st_mailet := silence (st_mailet s)\<rparr>"

definition silence_processor :: "'w processor \<Rightarrow> 'w processor" where
  "silence_processor pr = pr\<lparr>pr_steps := map silence_step (pr_steps pr)\<rparr>"

definition silence_router :: "'w router \<Rightarrow> 'w router" where
  "silence_router rt =
     rt\<lparr>rt_processors := map (\<lambda>(st, pr). (st, silence_processor pr)) (rt_processors rt)\<rparr>"

lemma silence_name [simp]: "ml_name (silence ml) = ml_name ml"
  by (simp add: silence_def)

lemma invoke_silence:
  "invoke_with_timeout (silence ml) t mw =
     (case invoke_with_timeout ml t mw of (mw', r) \<Rightarrow> (mw', rbind r (\<lambda>_. Inr Continue)))"
  by (auto simp: invoke_with_timeout_def silence_def rbind_def map_err_def split: option.split prod.split sum.split)

lemma retry_silence:
  "retry_loop (silence ml) t n left mw =
     (case retry_loop ml t n left mw of (mw', r) \<Rightarrow> (mw', rbind r (\<lambda>a. Inr (map_option (\<lambda>_. Continue) a))))"
  by (induction left arbitrary: mw)
    (auto simp: invoke_silence rbind_def split: prod.split sum.split)

lemma policy_silence:
  "invoke_with_policy (silence ml) c mw =
     (case invoke_with_policy ml c mw of (mw', r) \<Rightarrow> (mw', rbind r (\<lambda>a. Inr (map_option (\<lambda>_. Continue) a))))"
  by (auto simp: invoke_with_policy_def invoke_silence retry_silence rbind_def
      split: error_policy.split prod.split sum.split)

lemma process_step_silence: "process_step new_id (silence_step s) m p = process_step new_id s m p"
  by (auto simp: process_step_def silence_step_def policy_silence rbind_def Let_def
      split: sum.split prod.split option.split)

lemma process_steps_silence: "process_steps new_id st (map silence_step ss) m p = process_steps new_id st ss m p"
  by (induction ss arbitrary: m p) (auto simp: process_step_silence split: prod.split sum.split)

lemma route_round_silence: "route_round new_id (silence_router rt) depth m p = route_round new_id rt depth m p"
proof -
  have "map_of (rt_processors (silence_router rt)) st = map_option silence_processor (map_of (rt_processors rt) st)" for st
    by (simp add: silence_router_def map_of_map)
  then show ?thesis
    by (auto simp: route_round_def process_def silence_processor_def process_steps_silence Let_def
        split: option.split)
qed

text \<open>Two routers with the same rounds have the same runs.\<close>

lemma route_loop_same_rounds_Some:
  assumes rounds: "\<And>depth m p. route_round new_id rt depth m p = route_round new_id rt' depth m p"
    and run: "route_loop new_id rt depth m p = Some r"
  shows "route_loop new_id rt' depth m p = Some r"
proof -
  let ?P = "\<lambda>i q depth m p r. i = new_id \<longrightarrow> q = rt \<longrightarrow> route_loop new_id rt' depth m p = Some r"
  have "?P new_id rt depth m p r"
  proof (rule route_loop.raw_induct [where P = ?P, OF _ run], intro impI)
    fix loop i q depth m p r
    assume IH: "\<And>i q depth m p r. loop i q depth m p = Some r \<Longrightarrow> ?P i q depth m p r"
      and body: "(case route_round i q depth m p of (p', Inl r) \<Rightarrow> Some (p', r)
        | (p', Inr m') \<Rightarrow> loop i q (depth + 1) m' p') = Some r"
      and here: "i = new_id" "q = rt"
    show "route_loop new_id rt' depth m p = Some r"
      using body IH [of new_id rt] unfolding here
      by (subst route_loop.simps) (auto simp: rounds [symmetric] split: prod.splits sum.splits)
  qed
  then show ?thesis by simp
qed

lemma route_loop_same_rounds:
  assumes "\<And>depth m p. route_round new_id rt depth m p = route_round new_id rt' depth m p"
  shows "route_loop new_id rt depth m p = route_loop new_id rt' depth m p"
  using route_loop_same_rounds_Some [OF assms] route_loop_same_rounds_Some [OF assms [symmetric]]
  by (metis not_None_eq)

section \<open>Termination of the router\<close>

definition error_settles :: "(nat \<Rightarrow> mail_id) \<Rightarrow> 'w router \<Rightarrow> bool" where
  "error_settles new_id rt \<longleftrightarrow>
     (\<forall>pr m p p' m'. map_of (rt_processors rt) Error_state = Some pr \<longrightarrow> m_state m = Error_state \<longrightarrow>
        process new_id pr m p = (p', Inr m') \<longrightarrow> m_state m' \<in> {Error_state, Ghost})"

lemma route_round_deep:
  assumes "error_settles new_id rt" "max_depth < depth"
  shows "\<exists>p' r. route_round new_id rt depth m p = (p', Inl r)"
proof -
  let ?m = "m\<lparr>m_state := Error_state\<rparr>"
  show ?thesis
  proof (cases "map_of (rt_processors rt) Error_state")
    case (Some pr)
    obtain p' r where step: "process new_id pr ?m p = (p', r)" by (metis surj_pair)
    show ?thesis
    proof (cases r)
      case (Inr m')
      have "m_state m' \<in> {Error_state, Ghost}"
        using assms(1) Some step Inr unfolding error_settles_def
        by (metis (no_types, lifting) mail.select_convs(2) mail.surjective mail.update_convs(2))
      with Some step Inr assms(2) show ?thesis by (auto simp: route_round_def Let_def)
    qed (use Some step assms(2) in \<open>auto simp: route_round_def Let_def\<close>)
  qed (use assms(2) in \<open>auto simp: route_round_def Let_def\<close>)
qed

lemma route_loop_returns:
  assumes "error_settles new_id rt"
  shows "\<exists>res. route_loop new_id rt depth m p = Some res"
proof (induction "Suc max_depth - depth" arbitrary: depth m p)
  case 0
  then have "max_depth < depth" by simp
  from route_round_deep [OF assms this, of m p] show ?case
    by (subst route_loop.simps) auto
next
  case (Suc n)
  have IH: "\<exists>res. route_loop new_id rt (depth + 1) m p = Some res" for m p
    using Suc.hyps by (intro Suc.hyps(1)) simp
  show ?case using IH by (subst route_loop.simps) (simp split: prod.split sum.split)
qed

lemma route_loop_diverges:
  assumes "\<And>depth m p. Q m \<Longrightarrow> \<exists>p' m'. route_round new_id rt depth m p = (p', Inr m') \<and> Q m'" "Q m"
  shows "route_loop new_id rt depth m p = None"
proof -
  let ?P = "\<lambda>i q depth m p r. i = new_id \<longrightarrow> q = rt \<longrightarrow> \<not> Q m"
  have "\<not> Q m" if run: "route_loop new_id rt depth m p = Some r" for r
  proof -
    have "?P new_id rt depth m p r"
    proof (rule route_loop.raw_induct [where P = ?P, OF _ run], intro impI notI)
      fix loop i q depth m p r
      assume IH: "\<And>i q depth m p r. loop i q depth m p = Some r \<Longrightarrow> ?P i q depth m p r"
        and body: "(case route_round i q depth m p of (p', Inl r) \<Rightarrow> Some (p', r)
          | (p', Inr m') \<Rightarrow> loop i q (depth + 1) m' p') = Some r"
        and here: "i = new_id" "q = rt" "Q m"
      from assms(1) [OF here(3)] obtain p' m' where "route_round new_id rt depth m p = (p', Inr m')" "Q m'"
        by blast
      with body IH [of new_id rt] here show False by auto
    qed
    then show ?thesis by simp
  qed
  with assms(2) show ?thesis by (cases "route_loop new_id rt depth m p") auto
qed

section \<open>Who is handled by which step\<close>

text \<open>The contracts of matchers and mailets as far as recipients are concerned.\<close>

locale recipient_matcher =
  fixes mt :: "mail \<Rightarrow> mail_address list result"
  assumes matched_subset: "mt m = Inr rs \<Longrightarrow> set rs \<subseteq> set (m_recipients m)"

locale recipient_mailet =
  fixes ml :: "'w mailet"
  assumes service_recipients: "ml_service ml m w = ((m', w'), r) \<Longrightarrow> set (m_recipients m') \<subseteq> set (m_recipients m)"
    and cancelled_recipients: "ml_cancelled ml ms m w = (m', w') \<Longrightarrow> set (m_recipients m') \<subseteq> set (m_recipients m)"

interpretation builtin_matcher: recipient_matcher "match_mail lc mt" for lc mt
  by unfold_locales (auto dest: match_mail_selects)

text \<open>The mailet with a log of the mails it is called with, under a number.\<close>

definition traced :: "nat \<Rightarrow> 'w mailet \<Rightarrow> ('w \<times> (nat \<times> mail) list) mailet" where
  "traced n ml =
     \<lparr>ml_name = ml_name ml,
      ml_service = (\<lambda>m (w, log). case ml_service ml m w of ((m', w'), r) \<Rightarrow> ((m', (w', log @ [(n, m)])), r)),
      ml_duration = (\<lambda>m (w, log). ml_duration ml m w),
      ml_cancelled = (\<lambda>ms m (w, log). case ml_cancelled ml ms m w of (m', w') \<Rightarrow> (m', (w', log @ [(n, m)])))\<rparr>"

definition trace_step :: "nat \<Rightarrow> 'w processing_step \<Rightarrow> ('w \<times> (nat \<times> mail) list) processing_step" where
  "trace_step n s =
     \<lparr>st_matcher = st_matcher s, st_mailet = traced n (st_mailet s), st_config = st_config s\<rparr>"

fun trace_steps :: "nat \<Rightarrow> 'w processing_step list \<Rightarrow> ('w \<times> (nat \<times> mail) list) processing_step list" where
  "trace_steps n [] = []"
| "trace_steps n (s # ss) = trace_step n s # trace_steps (Suc n) ss"

text \<open>The calls logged under numbers from \<open>n\<close> on have only recipients of \<open>R\<close>.\<close>

definition calls_within :: "nat \<Rightarrow> mail_address set \<Rightarrow> (nat \<times> mail) list \<Rightarrow> bool" where
  "calls_within n R log \<longleftrightarrow> (\<forall>(k, x) \<in> set log. n \<le> k \<longrightarrow> set (m_recipients x) \<subseteq> R)"

lemma calls_within_append [simp]:
  "calls_within n R (log @ [(k, x)]) \<longleftrightarrow> calls_within n R log \<and> (n \<le> k \<longrightarrow> set (m_recipients x) \<subseteq> R)"
  by (auto simp: calls_within_def)

context recipient_mailet
begin

lemma invoke_within:
  assumes "invoke_with_timeout (traced k ml) t (m, (w, log)) = ((m', (w', log')), r)"
    and "calls_within n R log" "n \<le> k \<Longrightarrow> set (m_recipients m) \<subseteq> R"
  shows "calls_within n R log' \<and> set (m_recipients m') \<subseteq> set (m_recipients m)"
  using assms service_recipients cancelled_recipients
  by (auto simp: invoke_with_timeout_def traced_def split: option.splits if_splits prod.splits)

lemma retry_within:
  assumes "retry_loop (traced k ml) t mx left (m, (w, log)) = ((m', (w', log')), r)"
    and "calls_within n R log" "n \<le> k \<Longrightarrow> set (m_recipients m) \<subseteq> R"
  shows "calls_within n R log' \<and> set (m_recipients m') \<subseteq> set (m_recipients m)"
  using assms
proof (induction left arbitrary: m w log)
  case 0
  obtain m1 w1 log1 r1 where "invoke_with_timeout (traced k ml) t (m, (w, log)) = ((m1, (w1, log1)), r1)"
    by (metis surj_pair)
  with 0 invoke_within [OF this 0(2,3)] show ?case by (auto split: sum.splits)
next
  case (Suc left)
  obtain m1 w1 log1 r1 where one: "invoke_with_timeout (traced k ml) t (m, (w, log)) = ((m1, (w1, log1)), r1)"
    by (metis surj_pair)
  note within = invoke_within [OF one Suc.prems(2,3)]
  show ?case
  proof (cases r1)
    case (Inl e)
    with Suc.prems(1) one have "retry_loop (traced k ml) t mx left (m1, (w1, log1)) = ((m', (w', log')), r)" by simp
    from Suc.IH [OF this] within Suc.prems(3) show ?thesis by fastforce
  qed (use Suc.prems(1) one within in auto)
qed

lemma policy_within:
  assumes "invoke_with_policy (traced k ml) c (m, (w, log)) = ((m', (w', log')), r)"
    and "calls_within n R log" "n \<le> k \<Longrightarrow> set (m_recipients m) \<subseteq> R"
  shows "calls_within n R log' \<and> set (m_recipients m') \<subseteq> set (m_recipients m)"
proof -
  obtain m1 w1 log1 r1 where one:
    "invoke_with_timeout (traced k ml) (mc_timeout_ms c) (m, (w, log)) = ((m1, (w1, log1)), r1)"
    by (metis surj_pair)
  with assms(1) invoke_within [OF one assms(2,3)] retry_within [OF _ assms(2,3)] show ?thesis
    by (auto simp: invoke_with_policy_def split: error_policy.splits sum.splits)
qed

end

lemma process_step_within:
  assumes "process_step new_id (trace_step k s) m p = (p', r)"
    and "recipient_matcher (st_matcher s)" "recipient_mailet (st_mailet s)"
    and "calls_within n R (snd (pp_world p))" "n \<le> k \<Longrightarrow> set (m_recipients m) \<subseteq> R"
  shows "calls_within n R (snd (pp_world p')) \<and>
    (\<forall>m' c. r = Inr (m', c) \<longrightarrow> set (m_recipients m') \<subseteq> set (m_recipients m))"
proof (cases "st_matcher s m")
  case (Inr matched)
  obtain w log where w: "pp_world p = (w, log)" by (cases "pp_world p")
  have sub: "set matched \<subseteq> set (m_recipients m)"
    by (rule recipient_matcher.matched_subset [OF assms(2) Inr])
  show ?thesis
  proof (cases "matched \<noteq> [] \<and> length matched < length (m_recipients m)")
    case True
    let ?mm = "fst (mail_split (new_id (pp_drawn p)) m matched)"
    obtain m1 w1 log1 o1 where one:
      "invoke_with_policy (traced k (st_mailet s)) (st_config s) (?mm, (w, log)) = ((m1, (w1, log1)), o1)"
      by (metis surj_pair)
    have "n \<le> k \<Longrightarrow> set (m_recipients ?mm) \<subseteq> R" using assms(5) sub by (auto simp: mail_split_def Let_def)
    with recipient_mailet.policy_within [OF assms(3) one, of n R] assms(4) w
    have "calls_within n R log1" by simp
    with True assms(1) Inr one w show ?thesis
      by (auto simp: process_step_def trace_step_def mail_split_def Let_def split: sum.splits)
  next
    case False
    obtain m1 w1 log1 o1 where one:
      "invoke_with_policy (traced k (st_mailet s)) (st_config s) (m, (w, log)) = ((m1, (w1, log1)), o1)"
      by (metis surj_pair)
    from recipient_mailet.policy_within [OF assms(3) one, of n R] assms(4,5) w
    have "calls_within n R log1" "set (m_recipients m1) \<subseteq> set (m_recipients m)" by simp_all
    with False assms(1,4) Inr one w show ?thesis
      by (auto simp: process_step_def trace_step_def Let_def split: sum.splits if_splits option.splits)
  qed
qed (use assms(1,4) in \<open>auto simp: process_step_def trace_step_def\<close>)

lemma process_steps_within:
  assumes "process_steps new_id st (trace_steps k ss) m p = (p', r)"
    and "\<forall>s \<in> set ss. recipient_matcher (st_matcher s) \<and> recipient_mailet (st_mailet s)"
    and "calls_within n R (snd (pp_world p))" "set (m_recipients m) \<subseteq> R"
  shows "calls_within n R (snd (pp_world p')) \<and> (\<forall>m'. r = Inr m' \<longrightarrow> set (m_recipients m') \<subseteq> R)"
  using assms
proof (induction ss arbitrary: k m p)
  case (Cons s ss)
  obtain p1 r1 where one: "process_step new_id (trace_step k s) m p = (p1, r1)" by (metis surj_pair)
  have within: "calls_within n R (snd (pp_world p1))"
      "\<And>m' c. r1 = Inr (m', c) \<Longrightarrow> set (m_recipients m') \<subseteq> R"
    using process_step_within [OF one, of n R] Cons.prems by auto
  show ?case
  proof (cases r1)
    case (Inr x)
    obtain m1 c where x: "x = (m1, c)" by (cases x)
    show ?thesis
    proof (cases "c \<and> m_state m1 \<noteq> st")
      case True
      with Cons.prems(1) one Inr x within show ?thesis by auto
    next
      case False
      with Cons.prems(1) one Inr x have "process_steps new_id st (trace_steps (Suc k) ss) m1 p1 = (p', r)" by auto
      from Cons.IH [OF this] Cons.prems(2) within Inr x show ?thesis by simp
    qed
  qed (use Cons.prems(1) one within in auto)
qed auto

section \<open>Properties\<close>

text \<open>C32: The error policy is followed exactly.  If the first attempts up to the number the policy
  allows fail and the next one succeeds, the call succeeds with the state that attempt left;
  if every allowed attempt fails, \<^verbatim>\<open>Skip\<close> reports no action, \<^verbatim>\<open>Abort\<close> and \<^verbatim>\<open>Retry\<close> report the error of
  the last attempt, \<^verbatim>\<open>Retry\<close> after exactly one attempt more than its maximum.\<close>

theorem mailet_error_policy_exact:
  fixes ml :: "'w mailet" and config :: mailet_config
  defines "t \<equiv> mc_timeout_ms config"
  assumes "k \<le> extra_attempts (mc_error_policy config)"
    and "\<forall>j<k. \<exists>e. snd (invoke_with_timeout ml t ((attempt ml t ^^ j) mw)) = Inl e"
    and "invoke_with_timeout ml t ((attempt ml t ^^ k) mw) = (mw', r)"
  shows "(\<forall>a. r = Inr a \<longrightarrow> invoke_with_policy ml config mw = (mw', Inr (Some a))) \<and>
    (\<forall>e. r = Inl e \<longrightarrow> k = extra_attempts (mc_error_policy config) \<longrightarrow>
       invoke_with_policy ml config mw =
         (mw', case mc_error_policy config of
                 Skip \<Rightarrow> Inr None
               | Abort \<Rightarrow> Inl (Aborted (ml_name ml) e)
               | Retry n backoff \<Rightarrow> Inl (RetriesExhausted (ml_name ml) n e)))"
  using assms retry_loop_success [of k _ ml t mw mw'] retry_loop_exhausted [of k ml t mw mw']
  by (cases "mc_error_policy config") (auto simp: invoke_with_policy_def)

text \<open>C30: The actions mailets return have no effect: a router whose mailets all answer
  \<^verbatim>\<open>Continue\<close> instead of their own action, \<^verbatim>\<open>Drop\<close> and \<^verbatim>\<open>ChangeState\<close> included, routes every
  mail to the same result with the same effects.\<close>

theorem mailet_actions_ignored:
  "route new_id (silence_router rt) m p = route new_id rt m p"
  unfolding route_def by (rule route_loop_same_rounds) (rule route_round_silence)

text \<open>C31: The router always returns when the processor of the error state keeps mails in that state
  or consumes them, whatever the other processors and their mailets do; the depth limit of 100
  ends every cycle between the other states.\<close>

theorem route_terminates:
  assumes "error_settles new_id rt"
  shows "\<exists>res. route new_id rt m p = Some res"
  unfolding route_def by (rule route_loop_returns [OF assms])

text \<open>The depth limit does not end a cycle through the error state: when the processor of the
  error state moves every mail to a state whose processor moves it back, a mail with recipients in
  one of the two states is routed for ever.\<close>

theorem route_error_cycle_never_returns:
  assumes "map_of (rt_processors rt) Error_state = Some pe" "map_of (rt_processors rt) st = Some ps"
    and "st \<noteq> Error_state" "st \<noteq> Ghost"
    and "\<forall>m p. m_state m = Error_state \<longrightarrow> m_recipients m \<noteq> [] \<longrightarrow>
      (\<exists>p' m'. process new_id pe m p = (p', Inr m') \<and> m_state m' = st \<and> m_recipients m' \<noteq> [])"
    and "\<forall>m p. m_state m = st \<longrightarrow> m_recipients m \<noteq> [] \<longrightarrow>
      (\<exists>p' m'. process new_id ps m p = (p', Inr m') \<and> m_state m' = Error_state \<and> m_recipients m' \<noteq> [])"
    and "m_state m \<in> {Error_state, st}" "m_recipients m \<noteq> []"
  shows "route new_id rt m p = None"
  unfolding route_def
proof (rule route_loop_diverges [where Q = "\<lambda>m. m_state m \<in> {Error_state, st} \<and> m_recipients m \<noteq> []"])
  fix depth and m :: mail and p :: "'a pipe"
  assume m: "m_state m \<in> {Error_state, st} \<and> m_recipients m \<noteq> []"
  let ?m = "if max_depth < depth then m\<lparr>m_state := Error_state\<rparr> else m"
  have rcp: "m_recipients ?m \<noteq> []" and "m_state ?m \<in> {Error_state, st}" using m by auto
  then consider "m_state ?m = Error_state" | "m_state ?m = st" by blast
  then show "\<exists>p' m'. route_round new_id rt depth m p = (p', Inr m') \<and>
      m_state m' \<in> {Error_state, st} \<and> m_recipients m' \<noteq> []"
  proof cases
    case 1
    with rcp obtain p' m' where "process new_id pe ?m p = (p', Inr m')" "m_state m' = st" "m_recipients m' \<noteq> []"
      using assms(5) by blast
    with 1 assms(1,3,4) show ?thesis by (auto simp: route_round_def Let_def)
  next
    case 2
    with rcp obtain p' m' where "process new_id ps ?m p = (p', Inr m')" "m_state m' = Error_state" "m_recipients m' \<noteq> []"
      using assms(6) by blast
    with 2 assms(2,3,4) show ?thesis by (auto simp: route_round_def Let_def)
  qed
qed (use assms(7,8) in simp)

text \<open>A partial match ends the processing of the matched recipients: if the first step matches
  some recipients but not all, none of them appears in any mail that a later mailet is called
  with, nor in the mail the processor returns, whatever the first mailet did.\<close>

theorem partial_match_ends_processing:
  assumes "pr_steps pr = trace_steps 0 (s # ss)"
    and "\<forall>s' \<in> set (s # ss). recipient_matcher (st_matcher s') \<and> recipient_mailet (st_mailet s')"
    and "st_matcher s m = Inr matched" "matched \<noteq> []" "length matched < length (m_recipients m)"
    and "snd (pp_world p) = []" "process new_id pr m p = (p', r)"
  shows "(\<forall>k x. (k, x) \<in> set (snd (pp_world p')) \<longrightarrow> 0 < k \<longrightarrow> set (m_recipients x) \<inter> set matched = {}) \<and>
    (\<forall>m'. r = Inr m' \<longrightarrow> set (m_recipients m') \<inter> set matched = {})"
proof -
  let ?R = "set (m_recipients m) - set matched"
  obtain p1 r1 where one: "process_step new_id (trace_step 0 s) m p = (p1, r1)" by (metis surj_pair)
  have log1: "calls_within 1 ?R (snd (pp_world p1))"
    using process_step_within [OF one, of 1 ?R] assms(2,6) by (simp add: calls_within_def)
  have m1: "set (m_recipients m1) \<subseteq> ?R" if "r1 = Inr (m1, c)" for m1 c
    using one that assms(3-5)
    by (auto simp: process_step_def trace_step_def mail_split_def Let_def split: prod.splits sum.splits)
  have "calls_within 1 ?R (snd (pp_world p')) \<and> (\<forall>m'. r = Inr m' \<longrightarrow> set (m_recipients m') \<subseteq> ?R)"
  proof (cases r1)
    case (Inl e)
    with assms(1,7) one log1 show ?thesis by (auto simp: process_def)
  next
    case (Inr x)
    obtain m1 c where x: "x = (m1, c)" by (cases x)
    show ?thesis
    proof (cases "c \<and> m_state m1 \<noteq> pr_state pr")
      case True
      with assms(1,7) one log1 m1 Inr x show ?thesis by (auto simp: process_def)
    next
      case False
      with assms(1,7) one Inr x have "process_steps new_id (pr_state pr) (trace_steps 1 ss) m1 p1 = (p', r)"
        by (auto simp: process_def)
      from process_steps_within [OF this _ log1] assms(2) m1 Inr x show ?thesis by simp
    qed
  qed
  then show ?thesis by (fastforce simp: calls_within_def)
qed

section \<open>Witnesses\<close>

definition demo_mailet :: "'w service \<Rightarrow> 'w mailet" where
  "demo_mailet f = \<lparr>ml_name = ''demo'', ml_service = f, ml_duration = (\<lambda>m w. 0), ml_cancelled = (\<lambda>ms m w. (m, w))\<rparr>"

definition demo_pipe :: "'w \<Rightarrow> 'w pipe" where
  "demo_pipe w = \<lparr>pp_world = w, pp_drawn = 0, pp_processed = 0, pp_delivered = 0\<rparr>"

definition move_processor :: "mail_state \<Rightarrow> mail_state \<Rightarrow> 'w processor" where
  "move_processor st st' =
     add_step (ProcessingStep_new (match_mail id AllMatcher) (demo_mailet (\<lambda>m w. ((m\<lparr>m_state := st'\<rparr>, w), Inr Continue))))
       (Processor_new ''move'' st)"

definition cycle_router :: "mail_state \<Rightarrow> mail_state \<Rightarrow> unit router" where
  "cycle_router a b =
     register_processor a (move_processor a b) (register_processor b (move_processor b a) Router_new)"

lemma process_move:
  "m_recipients m \<noteq> [] \<Longrightarrow> st' \<noteq> st \<Longrightarrow>
     process new_id (move_processor st st') m p = (p, Inr (m\<lparr>m_state := st'\<rparr>))"
  by (simp add: process_def move_processor_def add_step_def Processor_new_def ProcessingStep_new_def
      process_step_def invoke_with_policy_def MailetConfig_new_def invoke_with_timeout_def demo_mailet_def
      map_err_def)

lemma cycle_router_processors:
  "a \<noteq> b \<Longrightarrow> map_of (rt_processors (cycle_router a b)) a = Some (move_processor a b)"
  "a \<noteq> b \<Longrightarrow> map_of (rt_processors (cycle_router a b)) b = Some (move_processor b a)"
  "c \<noteq> a \<Longrightarrow> c \<noteq> b \<Longrightarrow> map_of (rt_processors (cycle_router a b)) c = None"
  by (simp_all add: cycle_router_def register_processor_def Router_new_def)

theorem route_terminates_witness:
  "\<exists>res. route (\<lambda>n. MailId 9) (cycle_router Root Transport) (demo_mail [''a'']) (demo_pipe ()) = Some res"
  by (rule route_terminates) (simp add: error_settles_def cycle_router_processors)

theorem route_error_cycle_never_returns_witness:
  "route (\<lambda>n. MailId 9) (cycle_router Error_state Root) (demo_mail [''a'']) (demo_pipe ()) = None"
  by (rule route_error_cycle_never_returns [where st = Root, OF cycle_router_processors(1,2)])
    (auto simp: process_move demo_mail_def Mail_new_def)

theorem mailet_error_policy_exact_witness:
  "invoke_with_policy (demo_mailet (\<lambda>m w. ((m, Suc w), if w < 2 then Inl ''busy'' else Inr Drop)))
     (with_error_policy (Retry 3 100) (MailetConfig_new ''demo'')) (demo_mail [''a''], 0 :: nat) =
   ((demo_mail [''a''], 3), Inr (Some Drop))"
proof -
  let ?ml = "demo_mailet (\<lambda>m w. ((m, Suc w), if w < 2 then Inl ''busy'' else Inr Drop)) :: nat mailet"
  let ?c = "with_error_policy (Retry 3 100) (MailetConfig_new ''demo'')"
  have one: "invoke_with_timeout ?ml None (m, w) = ((m, Suc w), if w < 2 then Inl (ServiceError ''busy'') else Inr Drop)" for m w
    by (simp add: invoke_with_timeout_def demo_mailet_def map_err_def)
  have iter: "(attempt ?ml None ^^ j) (m, w) = (m, w + j)" for m w j
    by (induction j) (simp_all add: one)
  show ?thesis
    using mailet_error_policy_exact [of 2 ?c ?ml "(demo_mail [''a''], 0)" "(demo_mail [''a''], 3)" "Inr Drop"]
    by (simp add: with_error_policy_def MailetConfig_new_def iter one)
qed

definition demo_steps :: "nat processing_step list" where
  "demo_steps =
     [ProcessingStep_new (match_mail id (RecipientIsLocalMatcher [''x.org''])) (demo_mailet (\<lambda>m w. ((m, w), Inr Continue))),
      ProcessingStep_new (match_mail id AllMatcher) (demo_mailet (\<lambda>m w. ((m, w), Inr Continue)))]"

definition demo_mixed_mail :: mail where
  "demo_mixed_mail = (demo_mail [''a''])\<lparr>m_recipients := [demo_address ''a'', \<lparr>local_part = ''b'', addr_domain = Domain ''y.org''\<rparr>]\<rparr>"

definition demo_traced :: "(nat \<times> (nat \<times> mail) list) processor" where
  "demo_traced = (Processor_new ''root'' Root)\<lparr>pr_steps := trace_steps 0 demo_steps\<rparr>"

lemma demo_mailet_keeps_recipients: "recipient_mailet (demo_mailet (\<lambda>m w. ((m, w), Inr Continue)))"
  by unfold_locales (auto simp: demo_mailet_def)

theorem partial_match_ends_processing_witness:
  "filter (\<lambda>(k, x). 0 < k \<and> demo_address ''a'' \<in> set (m_recipients x))
     (snd (pp_world (fst (process (\<lambda>n. MailId 9) demo_traced demo_mixed_mail (demo_pipe (0, [])))))) = []"
proof -
  have "\<forall>s' \<in> set demo_steps. recipient_matcher (st_matcher s') \<and> recipient_mailet (st_mailet s')"
    by (simp add: demo_steps_def ProcessingStep_new_def demo_mailet_keeps_recipients
        builtin_matcher.recipient_matcher_axioms)
  moreover have "st_matcher (demo_steps ! 0) demo_mixed_mail = Inr [demo_address ''a'']"
    by (simp add: demo_steps_def ProcessingStep_new_def demo_mixed_mail_def demo_address_def)
  ultimately show ?thesis
    using partial_match_ends_processing [of demo_traced "demo_steps ! 0" "[demo_steps ! 1]" demo_mixed_mail
        "[demo_address ''a'']" "demo_pipe (0, [])" "\<lambda>n. MailId 9"
        "fst (process (\<lambda>n. MailId 9) demo_traced demo_mixed_mail (demo_pipe (0, [])))"
        "snd (process (\<lambda>n. MailId 9) demo_traced demo_mixed_mail (demo_pipe (0, [])))"]
    by (auto simp: demo_traced_def Processor_new_def demo_pipe_def demo_mixed_mail_def demo_steps_def filter_empty_conv)
qed

end
