(* ===== verification/Mailets.thy ===== *)
theory Mailets
  imports Mail_Processor
begin

text \<open>
  Model of mailets under \<^verbatim>\<open>crates/rusmes-core/src/mailets\<close>: adding and removing headers
  (\<^verbatim>\<open>add_header.rs\<close>, \<^verbatim>\<open>remove_mime_header.rs\<close>), greylisting (\<^verbatim>\<open>greylist.rs\<close>) and delivery to local
  mailboxes (\<^verbatim>\<open>local_delivery.rs\<close>).  Each mailet has its fields as a record, \<^verbatim>\<open>init\<close> as a function
  of the configuration and \<^verbatim>\<open>service\<close> as a \<open>service\<close> of the processor.  The storage backend of the
  local delivery is a record of the calls it makes; the clock of the greylist is an argument.
\<close>

text \<open>\<^verbatim>\<open>str::parse::<bool>\<close>.\<close>

definition parse_bool :: "string \<Rightarrow> bool option" where
  "parse_bool s = (if s = ''true'' then Some True else if s = ''false'' then Some False else None)"

definition param_or :: "(string \<Rightarrow> 'a option) \<Rightarrow> 'a \<Rightarrow> 'a \<Rightarrow> string option \<Rightarrow> 'a" where
  "param_or parse dflt old p =
     (case p of None \<Rightarrow> old | Some s \<Rightarrow> (case parse s of None \<Rightarrow> dflt | Some x \<Rightarrow> x))"

section \<open>Adding a header\<close>

record add_header_mailet =
  ah_header_name :: "string option"
  ah_header_value :: "string option"

definition AddHeader_new :: add_header_mailet where
  "AddHeader_new = \<lparr>ah_header_name = None, ah_header_value = None\<rparr>"

definition add_header_init :: "mailet_config \<Rightarrow> add_header_mailet result" where
  "add_header_init config =
     (let ml = \<lparr>ah_header_name = get_param config ''name'', ah_header_value = get_param config ''value''\<rparr> in
      if ah_header_name ml = None \<or> ah_header_value ml = None
      then Inl (''AddHeaderMailet requires '' @ [CHR 0x27] @ ''name'' @ [CHR 0x27] @ '' and '' @
                [CHR 0x27] @ ''value'' @ [CHR 0x27] @ '' parameters'')
      else Inr ml)"

definition add_header_service :: "add_header_mailet \<Rightarrow> 'w service" where
  "add_header_service ml m w =
     (case (ah_header_name ml, ah_header_value ml) of
        (Some n, Some v) \<Rightarrow> ((set_attribute (''header.'' @ n) (AString v) m, w), Inr Continue)
      | _ \<Rightarrow> ((m, w), Inr Continue))"

section \<open>Removing headers\<close>

record remove_header_mailet =
  rh_header_patterns :: "string list"
  rh_case_insensitive :: bool

definition RemoveMimeHeader_new :: remove_header_mailet where
  "RemoveMimeHeader_new = \<lparr>rh_header_patterns = [], rh_case_insensitive = True\<rparr>"

definition trace_headers :: "string list" where
  "trace_headers = [''X-*'', ''Received'', ''Return-Path'']"

definition remove_bcc :: remove_header_mailet where
  "remove_bcc = RemoveMimeHeader_new\<lparr>rh_header_patterns := [''Bcc'']\<rparr>"

definition remove_trace :: remove_header_mailet where
  "remove_trace = RemoveMimeHeader_new\<lparr>rh_header_patterns := trace_headers\<rparr>"

definition matches_pattern :: "(string \<Rightarrow> string) \<Rightarrow> remove_header_mailet \<Rightarrow> string \<Rightarrow> string \<Rightarrow> bool" where
  "matches_pattern lc ml header_name pattern =
     (let cmp = (if rh_case_insensitive ml then lc else id);
          header_cmp = cmp header_name; pattern_cmp = cmp pattern;
          star = CHR ''*'' in
      if header_cmp = pattern_cmp then True
      else if star \<notin> set pattern_cmp then False
      else if last pattern_cmp = star then
        starts_with header_cmp (rev (dropWhile (\<lambda>c. c = star) (rev pattern_cmp)))
      else if hd pattern_cmp = star then
        ends_with header_cmp (dropWhile (\<lambda>c. c = star) pattern_cmp)
      else
        starts_with header_cmp (takeWhile (\<lambda>c. c \<noteq> star) pattern_cmp) \<and>
        ends_with header_cmp (tl (dropWhile (\<lambda>c. c \<noteq> star) pattern_cmp)))"

definition should_remove :: "(string \<Rightarrow> string) \<Rightarrow> remove_header_mailet \<Rightarrow> string \<Rightarrow> bool" where
  "should_remove lc ml n = list_ex (matches_pattern lc ml n) (rh_header_patterns ml)"

definition remove_header_init :: "mailet_config \<Rightarrow> remove_header_mailet \<Rightarrow> remove_header_mailet result" where
  "remove_header_init config ml0 =
     (let ml1 = (case get_param config ''headers'' of
                   None \<Rightarrow> ml0
                 | Some s \<Rightarrow> ml0\<lparr>rh_header_patterns := filter (\<lambda>p. p \<noteq> []) (map trim (split_on (CHR '','') s))\<rparr>);
          ml2 = ml1\<lparr>rh_case_insensitive :=
                  param_or parse_bool True (rh_case_insensitive ml1) (get_param config ''case_insensitive'')\<rparr>;
          ml3 = (case get_param config ''preset'' of
                   None \<Rightarrow> ml2
                 | Some preset \<Rightarrow>
                     if preset = ''bcc'' \<or> preset = ''remove_bcc''
                     then ml2\<lparr>rh_header_patterns := rh_header_patterns ml2 @ [''Bcc'']\<rparr>
                     else if preset = ''trace'' \<or> preset = ''remove_trace''
                     then ml2\<lparr>rh_header_patterns := rh_header_patterns ml2 @ trace_headers\<rparr>
                     else ml2)
      in if rh_header_patterns ml3 = []
         then Inl (''RemoveMimeHeaderMailet requires '' @ [CHR 0x27] @ ''headers'' @ [CHR 0x27] @ '' parameter or '' @
                   [CHR 0x27] @ ''preset'' @ [CHR 0x27] @ '' parameter'')
         else Inr ml3)"

definition remove_header_service :: "(string \<Rightarrow> string) \<Rightarrow> remove_header_mailet \<Rightarrow> 'w service" where
  "remove_header_service lc ml m w =
     (let headers = mm_headers (m_message m);
          headers_to_remove = filter (should_remove lc ml) (map fst headers) in
      if headers_to_remove = [] then ((m, w), Inr Continue)
      else
        let new_headers = foldl (\<lambda>hs n. snd (header_remove lc hs n)) headers headers_to_remove in
        ((set_message ((m_message m)\<lparr>mm_headers := new_headers\<rparr>) m, w), Inr Continue))"

section \<open>Greylisting\<close>

record greylist_tuple =
  gt_sender_ip :: string
  gt_mail_from :: string
  gt_rcpt_to :: string

record greylist_entry =
  ge_first_seen :: nat
  ge_last_seen :: nat
  ge_attempts :: nat
  ge_passed :: bool

type_synonym greylist_store = "(greylist_tuple \<times> greylist_entry) list"

definition GreylistEntry_new :: "nat \<Rightarrow> greylist_entry" where
  "GreylistEntry_new now = \<lparr>ge_first_seen = now, ge_last_seen = now, ge_attempts = 1, ge_passed = False\<rparr>"

definition greylist_update :: "nat \<Rightarrow> greylist_entry \<Rightarrow> greylist_entry" where
  "greylist_update now e = e\<lparr>ge_last_seen := now, ge_attempts := (ge_attempts e + 1) mod 2 ^ 32\<rparr>"

text \<open>The clock is read twice: \<open>now\<close> first, \<open>now2\<close> when the entry is made or updated.\<close>

definition check_and_update ::
    "nat \<Rightarrow> nat \<Rightarrow> nat \<Rightarrow> greylist_tuple \<Rightarrow> greylist_store \<Rightarrow> greylist_store \<times> bool \<times> greylist_entry" where
  "check_and_update greylist_period now now2 tuple entries =
     (let e1 = (case map_of entries tuple of
                  Some e \<Rightarrow> greylist_update now2 e
                | None \<Rightarrow> (GreylistEntry_new now2)\<lparr>ge_last_seen := now\<rparr>);
          time_since_first = now - ge_first_seen e1;
          e2 = (if greylist_period \<le> time_since_first then e1\<lparr>ge_passed := True\<rparr> else e1)
      in (AList.update tuple e2 entries, ge_passed e2, e2))"

definition is_whitelisted :: "greylist_tuple \<Rightarrow> string set \<Rightarrow> bool" where
  "is_whitelisted tuple whitelist \<longleftrightarrow>
     gt_sender_ip tuple \<in> whitelist \<or> gt_mail_from tuple \<in> whitelist \<or>
     (case split_on (CHR ''@'') (gt_mail_from tuple) of _ # d # _ \<Rightarrow> d \<in> whitelist | _ \<Rightarrow> False)"

definition cleanup_old_entries :: "nat \<Rightarrow> nat \<Rightarrow> greylist_store \<Rightarrow> greylist_store" where
  "cleanup_old_entries max_age now entries = filter (\<lambda>(_, e). now - ge_last_seen e < max_age) entries"

record greylist_mailet =
  gl_greylist_period :: nat
  gl_max_entry_age :: nat
  gl_whitelist :: "string set"
  gl_enabled :: bool

definition Greylist_new :: greylist_mailet where
  "Greylist_new =
     \<lparr>gl_greylist_period = 300, gl_max_entry_age = 86400, gl_whitelist = {}, gl_enabled = True\<rparr>"

definition add_to_whitelist :: "string \<Rightarrow> greylist_mailet \<Rightarrow> greylist_mailet" where
  "add_to_whitelist entry ml = ml\<lparr>gl_whitelist := insert entry (gl_whitelist ml)\<rparr>"

definition greylist_init :: "mailet_config \<Rightarrow> greylist_mailet \<Rightarrow> greylist_mailet" where
  "greylist_init config ml =
     \<lparr>gl_greylist_period = param_or (parse_uint usize_max) 300 (gl_greylist_period ml) (get_param config ''greylist_period''),
      gl_max_entry_age = param_or (parse_uint usize_max) 86400 (gl_max_entry_age ml) (get_param config ''max_entry_age''),
      gl_whitelist = gl_whitelist ml \<union>
        (case get_param config ''whitelist'' of None \<Rightarrow> {} | Some s \<Rightarrow> set (map trim (split_on (CHR '','') s))),
      gl_enabled = param_or parse_bool True (gl_enabled ml) (get_param config ''enabled'')\<rparr>"

definition create_tuple :: "mail \<Rightarrow> greylist_tuple option" where
  "create_tuple m =
     (case Option.bind (get_attribute m ''smtp.client_ip'') attr_as_str of
        None \<Rightarrow> None
      | Some ip \<Rightarrow>
          (case (m_sender m, m_recipients m) of
             (Some s, r # _) \<Rightarrow> Some \<lparr>gt_sender_ip = ip, gt_mail_from = as_string s, gt_rcpt_to = as_string r\<rparr>
           | _ \<Rightarrow> None))"

definition greylist_service :: "nat \<Rightarrow> nat \<Rightarrow> greylist_mailet \<Rightarrow> greylist_store service" where
  "greylist_service now now2 ml m entries =
     (if \<not> gl_enabled ml then ((m, entries), Inr Continue)
      else case create_tuple m of
        None \<Rightarrow> ((m, entries), Inr Continue)
      | Some tuple \<Rightarrow>
          if is_whitelisted tuple (gl_whitelist ml)
          then ((set_attribute ''greylist.whitelisted'' (ABoolean True) m, entries), Inr Continue)
          else
            (case check_and_update (gl_greylist_period ml) now now2 tuple entries of
               (entries', passed, e) \<Rightarrow>
                 (let m1 = set_attribute ''greylist.first_seen'' (AInteger (word_of_nat (ge_first_seen e)))
                             (set_attribute ''greylist.attempts'' (AInteger (word_of_nat (ge_attempts e))) m);
                      m2 = set_attribute ''greylist.passed'' (ABoolean passed) m1 in
                  if passed then ((m2, entries'), Inr Continue)
                  else ((set_attribute ''greylist.deferred'' (ABoolean True) m2, entries'),
                        Inr (Defer (gl_greylist_period ml))))))"

section \<open>Local delivery\<close>

record ('w, 'b) mailbox_ops =
  mb_list :: "username \<Rightarrow> 'w \<Rightarrow> 'w \<times> ('b \<times> string option) list result"
  mb_create :: "username \<Rightarrow> string list \<Rightarrow> 'w \<Rightarrow> 'w \<times> 'b result"
  mb_append :: "'b \<Rightarrow> mail \<Rightarrow> 'w \<Rightarrow> 'w \<times> unit result"

text \<open>The delivery to one recipient: \<open>Inl\<close> is the error that \<^verbatim>\<open>?\<close> passes on, \<open>Inr b\<close> says whether the
  message was appended.\<close>

definition deliver_to :: "('w, 'b) mailbox_ops \<Rightarrow> mail \<Rightarrow> mail_address \<Rightarrow> 'w \<Rightarrow> 'w \<times> bool result" where
  "deliver_to ops m r w =
     (case Username_new (local_part r) of
        Inl e \<Rightarrow> (w, Inl (mail_error_display e))
      | Inr u \<Rightarrow>
          (case mb_list ops u w of
             (w1, Inl e) \<Rightarrow> (w1, Inl e)
           | (w1, Inr mailboxes) \<Rightarrow>
               (case (case find (\<lambda>(_, n). n = Some ''INBOX'') mailboxes of
                        Some (b, _) \<Rightarrow> (w1, Inr b)
                      | None \<Rightarrow> mb_create ops u [''INBOX''] w1) of
                  (w2, Inl e) \<Rightarrow> (w2, Inr False)
                | (w2, Inr b) \<Rightarrow>
                    (case mb_append ops b m w2 of (w3, res) \<Rightarrow> (w3, Inr (res = Inr ()))))))"

fun deliver_all ::
    "('w, 'b) mailbox_ops \<Rightarrow> mail \<Rightarrow> mail_address list \<Rightarrow> 'w \<Rightarrow> nat \<Rightarrow> mail_address list \<Rightarrow>
     'w \<times> (nat \<times> mail_address list) result" where
  "deliver_all ops m [] w delivered failed = (w, Inr (delivered, failed))"
| "deliver_all ops m (r # rs) w delivered failed =
     (case deliver_to ops m r w of
        (w', Inl e) \<Rightarrow> (w', Inl e)
      | (w', Inr True) \<Rightarrow> deliver_all ops m rs w' (delivered + 1) failed
      | (w', Inr False) \<Rightarrow> deliver_all ops m rs w' delivered (failed @ [r]))"

definition local_delivery_service :: "('w, 'b) mailbox_ops option \<Rightarrow> 'w service" where
  "local_delivery_service storage m w =
     (case storage of
        None \<Rightarrow> ((m, w), Inr (ChangeState Ghost))
      | Some ops \<Rightarrow>
          (case deliver_all ops m (m_recipients m) w 0 [] of
             (w', Inl e) \<Rightarrow> ((m, w'), Inl e)
           | (w', Inr (delivered, failed)) \<Rightarrow>
               ((m, w'), Inr (ChangeState (if delivered = 0 then Error_state else Ghost)))))"

section \<open>The mailets as the processor calls them\<close>

text \<open>A mailet without suspension points finishes at once and cannot be cancelled.\<close>

definition immediate :: "string \<Rightarrow> 'w service \<Rightarrow> 'w mailet" where
  "immediate name f = \<lparr>ml_name = name, ml_service = f, ml_duration = (\<lambda>m w. 0), ml_cancelled = (\<lambda>ms m w. (m, w))\<rparr>"

definition AddHeader :: "add_header_mailet \<Rightarrow> 'w mailet" where
  "AddHeader ml = immediate ''AddHeader'' (add_header_service ml)"

definition RemoveMimeHeader :: "(string \<Rightarrow> string) \<Rightarrow> remove_header_mailet \<Rightarrow> 'w mailet" where
  "RemoveMimeHeader lc ml = immediate ''RemoveMimeHeader'' (remove_header_service lc ml)"

definition Greylist :: "nat \<Rightarrow> nat \<Rightarrow> greylist_mailet \<Rightarrow> greylist_store mailet" where
  "Greylist now now2 ml = immediate ''Greylist'' (greylist_service now now2 ml)"

text \<open>The time local delivery takes and the state it leaves when cancelled depend on the storage.\<close>

definition LocalDeliveryMailet ::
    "('w, 'b) mailbox_ops option \<Rightarrow> (mail \<Rightarrow> 'w \<Rightarrow> nat) \<Rightarrow> (nat \<Rightarrow> mail \<Rightarrow> 'w \<Rightarrow> 'w) \<Rightarrow> 'w mailet" where
  "LocalDeliveryMailet storage dur part =
     \<lparr>ml_name = ''LocalDelivery'', ml_service = local_delivery_service storage, ml_duration = dur,
      ml_cancelled = (\<lambda>ms m w. (m, part ms m w))\<rparr>"

lemma attribute_recipients [simp]: "m_recipients (set_attribute k v m) = m_recipients m"
  by (simp add: set_attribute_def)

interpretation add_header: recipient_mailet "AddHeader ml" for ml
  by unfold_locales (auto simp: AddHeader_def immediate_def add_header_service_def split: option.splits)

interpretation remove_header: recipient_mailet "RemoveMimeHeader lc ml" for lc ml
  by unfold_locales
    (auto simp: RemoveMimeHeader_def immediate_def remove_header_service_def set_message_def Let_def split: if_splits)

interpretation greylist: recipient_mailet "Greylist now now2 ml" for now now2 ml
  by unfold_locales
    (auto simp: Greylist_def immediate_def greylist_service_def Let_def split: if_splits option.splits prod.splits)

interpretation local_delivery: recipient_mailet "LocalDeliveryMailet storage dur part" for storage dur part
  by unfold_locales
    (auto simp: LocalDeliveryMailet_def local_delivery_service_def split: option.splits prod.splits sum.splits)

section \<open>Removal of headers\<close>

lemma map_of_removed:
  "map_of (foldl (\<lambda>hs n. snd (header_remove lc hs n)) hs ns) n = (if n \<in> lc ` set ns then None else map_of hs n)"
  by (induction ns arbitrary: hs) (auto simp: header_remove_def delete_conv')

section \<open>Greylist runs\<close>

fun greylist_step :: "nat \<Rightarrow> greylist_store \<Rightarrow> greylist_tuple \<times> nat \<times> nat \<Rightarrow> greylist_store \<times> bool" where
  "greylist_step period entries (x, now, now2) =
     (case check_and_update period now now2 x entries of (entries', passed, e) \<Rightarrow> (entries', passed))"

lemma check_and_update_other:
  "y \<noteq> x \<Longrightarrow> map_of (fst (check_and_update period now now2 x entries)) y = map_of entries y"
  by (simp add: check_and_update_def Let_def update_conv')

lemma check_and_update_own:
  "map_of (fst (check_and_update period now now2 x entries)) x =
     Some (snd (snd (check_and_update period now now2 x entries)))"
  by (simp add: check_and_update_def Let_def update_conv')

text \<open>The entry of a tuple first seen at \<open>a\<close>, when no later clock reading exceeds \<open>b\<close>.\<close>

definition seen_since :: "nat \<Rightarrow> nat \<Rightarrow> nat \<Rightarrow> greylist_entry option \<Rightarrow> bool" where
  "seen_since period a b oe \<longleftrightarrow>
     (\<exists>e. oe = Some e \<and> ge_first_seen e = a \<and> (ge_passed e \<longrightarrow> period \<le> b - a))"

lemma seen_since_step:
  assumes "seen_since period a b (map_of entries x)" "c \<le> b"
  shows "seen_since period a b (map_of (fst (check_and_update period c c2 y entries)) x)"
proof (cases "y = x")
  case True
  from assms(1) obtain e where "map_of entries x = Some e" "ge_first_seen e = a" "ge_passed e \<longrightarrow> period \<le> b - a"
    by (auto simp: seen_since_def)
  with assms(2) True show ?thesis
    by (auto simp: check_and_update_def greylist_update_def seen_since_def Let_def update_conv')
qed (use assms in \<open>simp add: check_and_update_other\<close>)

lemma seen_since_run:
  "seen_since period a b (map_of entries x) \<Longrightarrow> \<forall>ev \<in> set evs. fst (snd ev) \<le> b \<Longrightarrow>
     seen_since period a b (map_of (fst (run (greylist_step period) entries evs)) x)"
proof (induction evs arbitrary: entries)
  case (Cons ev evs)
  obtain y c c2 where ev: "ev = (y, c, c2)" by (cases ev)
  with Cons.prems seen_since_step [of period a b entries x c c2 y]
  have "seen_since period a b (map_of (fst (greylist_step period entries ev)) x)"
    by (simp add: case_prod_beta)
  from Cons.IH [OF this] Cons.prems show ?case by (simp add: case_prod_beta)
qed simp

lemma unseen_run:
  "map_of entries x = None \<Longrightarrow> x \<notin> fst ` set evs \<Longrightarrow>
     map_of (fst (run (greylist_step period) entries evs)) x = None"
proof (induction evs arbitrary: entries)
  case (Cons ev evs)
  obtain y c c2 where ev: "ev = (y, c, c2)" by (cases ev)
  with Cons.prems have "map_of (fst (greylist_step period entries ev)) x = None"
    by (simp add: case_prod_beta check_and_update_other)
  from Cons.IH [OF this] Cons.prems show ?case by (simp add: case_prod_beta)
qed simp

section \<open>Properties\<close>

text \<open>Removing headers is exact: afterwards the message has no header whose name matches one of
  the patterns, every other header has its values unchanged, and nothing but the headers of the
  mail changes.  (Header names are stored in lower case.)\<close>

theorem remove_mime_header_exact:
  assumes "\<forall>n \<in> fst ` set (mm_headers (m_message m)). lc n = n"
    and "remove_header_service lc ml m w = ((m', w'), r)"
  shows "map_of (mm_headers (m_message m')) n =
      (if should_remove lc ml n then None else map_of (mm_headers (m_message m)) n) \<and>
    m'\<lparr>m_message := m_message m\<rparr> = m \<and> mm_body (m_message m') = mm_body (m_message m) \<and>
    w' = w \<and> r = Inr Continue"
proof -
  let ?hs = "mm_headers (m_message m)"
  let ?ns = "filter (should_remove lc ml) (map fst ?hs)"
  have lc: "lc ` set ?ns = set ?ns"
    using assms(1) by (force simp: image_iff)
  have gone: "n \<in> set ?ns \<longleftrightarrow> should_remove lc ml n \<and> map_of ?hs n \<noteq> None"
    by (auto simp: map_of_eq_None_iff)
  show ?thesis
  proof (cases "?ns = []")
    case True
    with gone have "should_remove lc ml n \<Longrightarrow> map_of ?hs n = None" by (metis list.set(1) empty_iff)
    with True assms(2) show ?thesis by (auto simp: remove_header_service_def Let_def)
  next
    case False
    then have m': "m' = set_message ((m_message m)\<lparr>mm_headers := foldl (\<lambda>hs n. snd (header_remove lc hs n)) ?hs ?ns\<rparr>) m"
      "w' = w" "r = Inr Continue"
      using assms(2) by (auto simp: remove_header_service_def Let_def)
    have "map_of (mm_headers (m_message m')) n = (if n \<in> set ?ns then None else map_of ?hs n)"
      unfolding m' by (simp add: set_message_def map_of_removed lc del: set_filter)
    with gone m' show ?thesis by (auto simp: set_message_def)
  qed
qed

text \<open>Greylisting admits a sender exactly after the configured period: whatever other attempts
  are interleaved, an attempt at time \<open>b\<close> for a tuple first seen at time \<open>a\<close> passes if and only if
  at least the period has elapsed in between (the clock never reads more than \<open>b\<close> before).\<close>

theorem greylist_period_exact:
  assumes "x \<notin> fst ` set us" "a0 \<le> b" "\<forall>ev \<in> set vs. fst (snd ev) \<le> b"
  shows "last (snd (run (greylist_step period) [] (us @ (x, a0, a) # vs @ [(x, b, b2)]))) \<longleftrightarrow> period \<le> b - a"
proof -
  let ?s1 = "fst (run (greylist_step period) [] us)"
  let ?s2 = "fst (greylist_step period ?s1 (x, a0, a))"
  let ?s3 = "fst (run (greylist_step period) ?s2 vs)"
  have "map_of ?s1 x = None" using unseen_run [of "[]" x us] assms(1) by simp
  then have "seen_since period a b (map_of ?s2 x)"
    using assms(2) by (auto simp: check_and_update_own check_and_update_def seen_since_def GreylistEntry_new_def
        Let_def case_prod_beta update_conv')
  from seen_since_run [OF this assms(3)] obtain e where e: "map_of ?s3 x = Some e" "ge_first_seen e = a"
    "ge_passed e \<longrightarrow> period \<le> b - a" by (auto simp: seen_since_def)
  then have "snd (greylist_step period ?s3 (x, b, b2)) \<longleftrightarrow> period \<le> b - a"
    by (auto simp: check_and_update_def greylist_update_def Let_def)
  then show ?thesis by (simp add: run_append case_prod_beta)
qed

section \<open>Witnesses\<close>

definition demo_tuple :: "string \<Rightarrow> greylist_tuple" where
  "demo_tuple ip = \<lparr>gt_sender_ip = ip, gt_mail_from = ''a@x.org'', gt_rcpt_to = ''b@y.org''\<rparr>"

theorem greylist_period_exact_witness:
  "last (snd (run (greylist_step 300) []
     ([(demo_tuple ''1'', 5, 5)] @ (demo_tuple ''2'', 10, 10) # [(demo_tuple ''2'', 20, 20)] @ [(demo_tuple ''2'', 310, 310)])))"
  using greylist_period_exact [of "demo_tuple ''2''" "[(demo_tuple ''1'', 5, 5)]" 10 310 "[(demo_tuple ''2'', 20, 20)]" 300 10 310]
  by (simp add: demo_tuple_def)

definition demo_trace_mail :: mail where
  "demo_trace_mail = set_message \<lparr>mm_headers = [(''x-a'', [''1'']), (''to'', [''b'']), (''received'', [''c'', ''d''])], mm_body = Small ''hi''\<rparr> (demo_mail [''a''])"

theorem remove_mime_header_exact_witness:
  "map_of (mm_headers (m_message (fst (fst (remove_header_service to_ascii_lowercase remove_trace demo_trace_mail (0 :: nat)))))) ''received'' = None"
proof -
  have keys: "\<forall>n \<in> fst ` set (mm_headers (m_message demo_trace_mail)). to_ascii_lowercase n = n"
    by (simp add: demo_trace_mail_def set_message_def demo_mail_def to_lower_def is_ascii_upper_def)
  have "should_remove to_ascii_lowercase remove_trace ''received''" by code_simp
  with remove_mime_header_exact [OF keys, of remove_trace "0 :: nat" "fst (fst (remove_header_service to_ascii_lowercase remove_trace demo_trace_mail (0 :: nat)))"
      "snd (fst (remove_header_service to_ascii_lowercase remove_trace demo_trace_mail (0 :: nat)))"
      "snd (remove_header_service to_ascii_lowercase remove_trace demo_trace_mail (0 :: nat))" "''received''"]
  show ?thesis by simp
qed

end
