(* ===== verification/Relay_Client.thy ===== *)
theory Relay_Client
  imports Mailets Smtp_Data
begin

text \<open>
  Model of \<^verbatim>\<open>crates/rusmes-core/src/mailets/remote_delivery.rs\<close> (the SMTP client that hands mails
  to a relay) and of \<^verbatim>\<open>crates/rusmes-core/src/bounce.rs\<close>.

  The peer is the list of the lines it sends; after them \<^verbatim>\<open>read_line\<close> reports the end of the
  stream.  A successful TLS handshake gives the lines of the encrypted stream, and \<^verbatim>\<open>re_base64\<close> is the encoder of the third-party crate.  Every read, write
  and flush may fail, decided by the number of operations done before.  A computation is a function
  of the connection that returns nothing (\<open>None\<close>) when it runs for ever.
\<close>

section \<open>Configuration and connection\<close>

record relay_config =
  rc_host :: string
  rc_port :: nat
  rc_username :: "string option"
  rc_password :: "string option"
  rc_use_tls :: bool
  rc_timeout :: nat

definition relay_config_default :: relay_config where
  "relay_config_default =
     \<lparr>rc_host = ''localhost'', rc_port = 25, rc_username = None, rc_password = None,
      rc_use_tls = False, rc_timeout = 30\<rparr>"

record relay_env =
  re_connect :: "string list result"
  re_tls :: "string list result"
  re_io_error :: "nat \<Rightarrow> string option"
  re_body_error :: "string option"
  re_base64 :: "string \<Rightarrow> string"

record relay_io =
  ri_in :: "string list"
  ri_out :: string
  ri_ops :: nat

text \<open>An error of the client, or a panic of its task.\<close>

datatype relay_error = RelayError string | Panicked string

type_synonym 'a relay = "relay_io \<Rightarrow> (relay_io \<times> (relay_error + 'a)) option"

definition rl_return :: "'a \<Rightarrow> 'a relay" where
  "rl_return x = (\<lambda>io. Some (io, Inr x))"

definition rl_fail :: "string \<Rightarrow> 'a relay" where
  "rl_fail e = (\<lambda>io. Some (io, Inl (RelayError e)))"

definition rl_bind :: "'a relay \<Rightarrow> ('a \<Rightarrow> 'b relay) \<Rightarrow> 'b relay" where
  "rl_bind f g = (\<lambda>io.
     case f io of
       None \<Rightarrow> None
     | Some (io', Inl e) \<Rightarrow> Some (io', Inl e)
     | Some (io', Inr x) \<Rightarrow> g x io')"

text \<open>One operation on the stream.\<close>

definition rl_op :: "relay_env \<Rightarrow> (relay_io \<Rightarrow> relay_io \<times> 'a) \<Rightarrow> 'a relay" where
  "rl_op env f = (\<lambda>io.
     let io1 = io\<lparr>ri_ops := ri_ops io + 1\<rparr> in
     case re_io_error env (ri_ops io) of
       Some e \<Rightarrow> Some (io1, Inl (RelayError e))
     | None \<Rightarrow> (case f io1 of (io2, x) \<Rightarrow> Some (io2, Inr x)))"

definition rl_write :: "relay_env \<Rightarrow> string \<Rightarrow> unit relay" where
  "rl_write env bytes = rl_op env (\<lambda>io. (io\<lparr>ri_out := ri_out io @ bytes\<rparr>, ()))"

definition rl_flush :: "relay_env \<Rightarrow> unit relay" where
  "rl_flush env = rl_op env (\<lambda>io. (io, ()))"

text \<open>\<^verbatim>\<open>read_line\<close> fails on a line that is not UTF-8 and gives the empty string at the end.\<close>

definition rl_read_line :: "relay_env \<Rightarrow> string relay" where
  "rl_read_line env =
     rl_bind (rl_op env (\<lambda>io. case ri_in io of [] \<Rightarrow> (io, []) | l # ls \<Rightarrow> (io\<lparr>ri_in := ls\<rparr>, l)))
       (\<lambda>l. if utf8_valid l then rl_return l else rl_fail ''stream did not contain valid UTF-8'')"

definition send_command :: "relay_env \<Rightarrow> string \<Rightarrow> unit relay" where
  "send_command env cmd = rl_bind (rl_write env cmd) (\<lambda>_. rl_flush env)"

text \<open>\<^verbatim>\<open>&line[3..4]\<close> panics when a bound is inside a character.\<close>

definition inside_char :: "string \<Rightarrow> nat \<Rightarrow> bool" where
  "inside_char s i \<longleftrightarrow> i < length s \<and> is_cont (code_of (s ! i))"

partial_function (option) read_response :: "relay_env \<Rightarrow> string \<Rightarrow> relay_io \<Rightarrow> (relay_io \<times> (relay_error + string)) option" where
  "read_response env response io =
     (case rl_read_line env io of
        None \<Rightarrow> None
      | Some (io', Inl e) \<Rightarrow> Some (io', Inl e)
      | Some (io', Inr line) \<Rightarrow>
          if 4 \<le> length line \<and> (inside_char line 3 \<or> inside_char line 4)
          then Some (io', Inl (Panicked ''byte index is not a char boundary''))
          else if 4 \<le> length line \<and> line ! 3 = CHR '' '' then Some (io', Inr (response @ line))
          else read_response env (response @ line) io')"

declare read_response.simps [code]

section \<open>The conversation\<close>

definition serialize_message :: "relay_env \<Rightarrow> mail \<Rightarrow> string" where
  "serialize_message env m =
     header_block (mm_headers (m_message m)) @ CRLF @
     (case mm_body (m_message m) of
        Small b \<Rightarrow> b
      | Large large \<Rightarrow> (case fst (read_to_bytes (re_body_error env) large) of Inr b \<Rightarrow> b | Inl _ \<Rightarrow> []))"

definition command :: "relay_env \<Rightarrow> string \<Rightarrow> string relay" where
  "command env cmd = rl_bind (send_command env (cmd @ CRLF)) (\<lambda>_. read_response env [])"

definition upgrade_tls :: "relay_env \<Rightarrow> unit relay" where
  "upgrade_tls env = (\<lambda>io.
     case re_tls env of
       Inl e \<Rightarrow> Some (io, Inl (RelayError e))
     | Inr ls \<Rightarrow> Some (io\<lparr>ri_in := ls\<rparr>, Inr ()))"

definition relay_hello :: "relay_env \<Rightarrow> relay_config \<Rightarrow> unit relay" where
  "relay_hello env relay =
     rl_bind (if rc_use_tls relay then upgrade_tls env else rl_return ()) (\<lambda>_.
     rl_bind (read_response env []) (\<lambda>greeting.
     rl_bind (command env (''EHLO '' @ rc_host relay)) (\<lambda>ehlo_response.
       if \<not> rc_use_tls relay \<and> str_contains ehlo_response ''STARTTLS'' then
         rl_bind (command env ''STARTTLS'') (\<lambda>_.
         rl_bind (upgrade_tls env) (\<lambda>_.
         rl_bind (command env (''EHLO '' @ rc_host relay)) (\<lambda>_. rl_return ())))
       else rl_return ())))"

definition relay_auth :: "relay_env \<Rightarrow> relay_config \<Rightarrow> unit relay" where
  "relay_auth env relay =
     (case (rc_username relay, rc_password relay) of
        (Some username, Some password) \<Rightarrow>
          rl_bind (command env ''AUTH LOGIN'') (\<lambda>_.
          rl_bind (command env (re_base64 env username)) (\<lambda>_.
          rl_bind (command env (re_base64 env password)) (\<lambda>auth_response.
            if starts_with auth_response ''235'' then rl_return ()
            else rl_fail (''Authentication failed: '' @ auth_response))))
      | _ \<Rightarrow> rl_return ())"

fun relay_rcpts :: "relay_env \<Rightarrow> mail_address list \<Rightarrow> nat \<Rightarrow> nat relay" where
  "relay_rcpts env [] success_count = rl_return success_count"
| "relay_rcpts env (r # rs) success_count =
     rl_bind (command env (''RCPT TO:<'' @ as_string r @ ''>'')) (\<lambda>rcpt_response.
       relay_rcpts env rs
         (if starts_with rcpt_response ''250'' \<or> starts_with rcpt_response ''251'' then success_count + 1 else success_count))"

definition relay_payload :: "string \<Rightarrow> string" where
  "relay_payload message_data =
     message_data @ (if ends_with message_data CRLF then [] else CRLF) @ ''.'' @ CRLF"

definition relay_send_message :: "relay_env \<Rightarrow> mail \<Rightarrow> unit relay" where
  "relay_send_message env m =
     (let message_data = serialize_message env m in
      rl_bind (rl_write env message_data) (\<lambda>_.
      rl_bind (if ends_with message_data CRLF then rl_return () else rl_write env CRLF) (\<lambda>_.
      rl_bind (rl_write env (''.'' @ CRLF)) (\<lambda>_. rl_flush env))))"

definition ignore_result :: "'a relay \<Rightarrow> unit relay" where
  "ignore_result f = (\<lambda>io.
     case f io of
       None \<Rightarrow> None
     | Some (io', Inl (Panicked e)) \<Rightarrow> Some (io', Inl (Panicked e))
     | Some (io', _) \<Rightarrow> Some (io', Inr ()))"

definition relay_transaction :: "relay_env \<Rightarrow> mail \<Rightarrow> unit relay" where
  "relay_transaction env m =
     (let sender = (case m_sender m of Some s \<Rightarrow> as_string s | None \<Rightarrow> ''postmaster@localhost'') in
      rl_bind (command env (''MAIL FROM:<'' @ sender @ ''>'')) (\<lambda>mail_response.
        if \<not> starts_with mail_response ''250'' then rl_fail (''MAIL FROM failed: '' @ mail_response)
        else
          rl_bind (relay_rcpts env (m_recipients m) 0) (\<lambda>success_count.
            if success_count = 0 then rl_fail ''All recipients rejected''
            else
              rl_bind (command env ''DATA'') (\<lambda>data_response.
                if \<not> starts_with data_response ''354'' then rl_fail (''DATA command failed: '' @ data_response)
                else
                  rl_bind (relay_send_message env m) (\<lambda>_.
                  rl_bind (read_response env []) (\<lambda>send_response.
                    if \<not> starts_with send_response ''250'' then rl_fail (''Message send failed: '' @ send_response)
                    else
                      rl_bind (send_command env (''QUIT'' @ CRLF)) (\<lambda>_.
                        ignore_result (read_response env []))))))))"

definition relay_via_smtp :: "relay_env \<Rightarrow> mail \<Rightarrow> relay_config \<Rightarrow> (relay_io \<times> (relay_error + unit)) option" where
  "relay_via_smtp env m relay =
     (case re_connect env of
        Inl e \<Rightarrow> Some (\<lparr>ri_in = [], ri_out = [], ri_ops = 0\<rparr>, Inl (RelayError e))
      | Inr ls \<Rightarrow>
          rl_bind (relay_hello env relay) (\<lambda>_.
          rl_bind (relay_auth env relay) (\<lambda>_. relay_transaction env m))
            \<lparr>ri_in = ls, ri_out = [], ri_ops = 0\<rparr>)"

section \<open>The mailet\<close>

definition remote_delivery_init :: "mailet_config \<Rightarrow> relay_config option" where
  "remote_delivery_init config =
     map_option (\<lambda>host.
       \<lparr>rc_host = host,
        rc_port = (case Option.bind (get_param config ''relay_port'') (parse_uint 65535) of Some p \<Rightarrow> p | None \<Rightarrow> 587),
        rc_username = get_param config ''relay_username'',
        rc_password = get_param config ''relay_password'',
        rc_use_tls = (case Option.bind (get_param config ''relay_use_tls'') parse_bool of Some b \<Rightarrow> b | None \<Rightarrow> True),
        rc_timeout = (case Option.bind (get_param config ''relay_timeout'') (parse_uint usize_max) of Some t \<Rightarrow> t | None \<Rightarrow> 30)\<rparr>)
       (get_param config ''relay_host'')"

text \<open>\<open>None\<close> when the call never returns or its task panics.\<close>

definition remote_delivery_service :: "relay_config option \<Rightarrow> relay_env \<Rightarrow> mail \<Rightarrow> (mail \<times> mailet_action) option" where
  "remote_delivery_service relay_config env m =
     (if m_recipients m = [] then Some (m, ChangeState Ghost)
      else case relay_config of
        None \<Rightarrow> Some (m, ChangeState Ghost)
      | Some relay \<Rightarrow>
          (case relay_via_smtp env m relay of
             None \<Rightarrow> None
           | Some (_, Inl (Panicked e)) \<Rightarrow> None
           | Some (_, Inl (RelayError e)) \<Rightarrow>
               Some (set_attribute ''delivery.error'' (AString e) m, ChangeState Error_state)
           | Some (_, Inr _) \<Rightarrow> Some (m, ChangeState Ghost)))"

section \<open>What a computation writes\<close>

definition writes :: "'a relay \<Rightarrow> string \<Rightarrow> bool" where
  "writes f s \<longleftrightarrow> (\<forall>io io' x. f io = Some (io', Inr x) \<longrightarrow> ri_out io' = ri_out io @ s)"

lemma rl_bind_Some_Inr:
  "rl_bind f g io = Some (io', Inr y) \<longleftrightarrow> (\<exists>io1 x. f io = Some (io1, Inr x) \<and> g x io1 = Some (io', Inr y))"
  by (auto simp: rl_bind_def split: option.splits sum.splits)

lemma writes_bind [intro]: "writes f s \<Longrightarrow> (\<And>x. writes (g x) t) \<Longrightarrow> writes (rl_bind f g) (s @ t)"
  by (fastforce simp: writes_def rl_bind_Some_Inr)

lemma writes_return [simp, intro]: "writes (rl_return x) []"
  by (simp add: writes_def rl_return_def)

lemma writes_fail [simp, intro]: "writes (rl_fail e) s"
  by (simp add: writes_def rl_fail_def)

lemma writes_write [simp, intro]: "writes (rl_write env bytes) bytes"
  by (auto simp: writes_def rl_write_def rl_op_def Let_def split: option.splits)

lemma writes_flush [simp, intro]: "writes (rl_flush env) []"
  by (auto simp: writes_def rl_flush_def rl_op_def Let_def split: option.splits)

lemma writes_send_command [simp, intro]: "writes (send_command env cmd) cmd"
  using writes_bind [OF writes_write writes_flush] by (simp add: send_command_def)

text \<open>Reading writes nothing, whether it succeeds or not.\<close>

definition quiet :: "'a relay \<Rightarrow> bool" where
  "quiet f \<longleftrightarrow> (\<forall>io io' r. f io = Some (io', r) \<longrightarrow> ri_out io' = ri_out io)"

lemma quiet_read_line: "quiet (rl_read_line env)"
  by (auto simp: quiet_def rl_read_line_def rl_bind_def rl_op_def rl_return_def rl_fail_def Let_def
      split: option.splits list.splits if_splits)

lemma quiet_read_response: "quiet (read_response env resp)"
proof -
  have "ri_out (fst res) = ri_out io" if run: "read_response env resp io = Some res" for io res
  proof (rule read_response.raw_induct [where P = "\<lambda>env resp io res. ri_out (fst res) = ri_out io", OF _ run])
    fix loop env resp io res
    assume IH: "\<And>env resp io res. loop env resp io = Some res \<Longrightarrow> ri_out (fst res) = ri_out io"
      and body: "(case rl_read_line env io of
          None \<Rightarrow> None
        | Some (io', Inl e) \<Rightarrow> Some (io', Inl e)
        | Some (io', Inr line) \<Rightarrow>
            if 4 \<le> length line \<and> (inside_char line 3 \<or> inside_char line 4)
            then Some (io', Inl (Panicked ''byte index is not a char boundary''))
            else if 4 \<le> length line \<and> line ! 3 = CHR '' '' then Some (io', Inr (resp @ line))
            else loop env (resp @ line) io') = Some res"
    show "ri_out (fst res) = ri_out io"
    proof (cases "rl_read_line env io")
      case (Some r)
      obtain io1 o1 where r: "r = (io1, o1)" by (cases r)
      have "ri_out io1 = ri_out io" using quiet_read_line [of env] Some r by (simp add: quiet_def)
      with body Some r IH show ?thesis by (auto split: sum.splits if_splits)
    qed (use body in auto)
  qed
  then show ?thesis by (fastforce simp: quiet_def)
qed

lemma writes_quiet: "quiet f \<Longrightarrow> writes f []"
  by (simp add: quiet_def writes_def)

lemmas writes_read_response [simp, intro] = writes_quiet [OF quiet_read_response]

lemma writes_command [simp, intro]: "writes (command env cmd) (cmd @ CRLF)"
  using writes_bind [OF writes_send_command writes_read_response] by (simp add: command_def)

lemma writes_if [intro]: "writes f s \<Longrightarrow> writes g s \<Longrightarrow> writes (if b then f else g) s"
  by simp

lemma writes_ignore: "quiet f \<Longrightarrow> writes (ignore_result f) []"
  by (auto simp: writes_def quiet_def ignore_result_def split: option.splits sum.splits relay_error.splits)

lemma writes_rcpts: "writes (relay_rcpts env rs n) (concat (map (\<lambda>r. ''RCPT TO:<'' @ as_string r @ ''>'' @ CRLF) rs))"
proof (induction rs arbitrary: n)
  case (Cons r rs)
  from writes_bind [OF writes_command [of env "''RCPT TO:<'' @ as_string r @ ''>''"] Cons.IH]
  show ?case by simp
qed simp

lemma writes_quiet_bind: "quiet f \<Longrightarrow> (\<And>x. writes (g x) t) \<Longrightarrow> writes (rl_bind f g) t"
  using writes_bind [OF writes_quiet, of f g t] by simp

lemma writes_bind_nil: "writes f s \<Longrightarrow> (\<And>x. writes (g x) []) \<Longrightarrow> writes (rl_bind f g) s"
  using writes_bind [of f s g "[]"] by simp

lemma writes_message: "writes (relay_send_message env m) (relay_payload (serialize_message env m))"
proof -
  let ?s = "serialize_message env m"
  have "writes (rl_bind (rl_write env (''.'' @ CRLF)) (\<lambda>_. rl_flush env)) (''.'' @ CRLF)"
    by (rule writes_bind_nil) auto
  moreover have "writes (if ends_with ?s CRLF then rl_return () else rl_write env CRLF) (if ends_with ?s CRLF then [] else CRLF)"
    by simp
  ultimately have "writes (rl_bind (if ends_with ?s CRLF then rl_return () else rl_write env CRLF)
      (\<lambda>_. rl_bind (rl_write env (''.'' @ CRLF)) (\<lambda>_. rl_flush env)))
      ((if ends_with ?s CRLF then [] else CRLF) @ ''.'' @ CRLF)"
    by (rule writes_bind [rotated])
  from writes_bind [OF writes_write [of env ?s] this] show ?thesis
    by (simp only: relay_send_message_def relay_payload_def Let_def)
qed

text \<open>The mail transaction of the client.\<close>

definition cmd_line :: "string \<Rightarrow> string" where
  "cmd_line c = c @ CRLF"

definition transaction_bytes :: "relay_env \<Rightarrow> mail \<Rightarrow> string" where
  "transaction_bytes env m =
     cmd_line (''MAIL FROM:<'' @ (case m_sender m of Some s \<Rightarrow> as_string s | None \<Rightarrow> ''postmaster@localhost'') @ ''>'') @
     concat (map (\<lambda>r. cmd_line (''RCPT TO:<'' @ as_string r @ ''>'')) (m_recipients m)) @
     cmd_line ''DATA'' @ relay_payload (serialize_message env m) @ cmd_line ''QUIT''"

lemma writes_cmd: "writes (command env c) (cmd_line c)"
  by (simp add: cmd_line_def)

lemma writes_transaction: "writes (relay_transaction env m) (transaction_bytes env m)"
proof -
  have rcpts: "writes (relay_rcpts env rs n) (concat (map (\<lambda>r. cmd_line (''RCPT TO:<'' @ as_string r @ ''>'')) rs))" for rs n
    using writes_rcpts [of env rs n] by (simp add: cmd_line_def)
  have quit: "writes (rl_bind (send_command env (''QUIT'' @ CRLF)) (\<lambda>_. ignore_result (read_response env []))) (cmd_line ''QUIT'')"
    unfolding cmd_line_def by (rule writes_bind_nil) (auto intro: writes_ignore quiet_read_response)
  show ?thesis
    unfolding relay_transaction_def transaction_bytes_def Let_def
    by (rule writes_bind [OF writes_cmd], rule writes_if [OF writes_fail],
        rule writes_bind [OF rcpts], rule writes_if [OF writes_fail],
        rule writes_bind [OF writes_cmd], rule writes_if [OF writes_fail],
        rule writes_bind [OF writes_message], rule writes_quiet_bind [OF quiet_read_response],
        rule writes_if [OF writes_fail quit])
qed

section \<open>What the receiver makes of the message\<close>

text \<open>A message is a sequence of terminated lines.\<close>

lemma split_inclusive_append:
  "a = [] \<or> last a = CHR 0x0A \<Longrightarrow> split_inclusive (a @ b) = split_inclusive a @ split_inclusive b"
proof (induction a)
  case (Cons c cs)
  show ?case
  proof (cases "c = CHR 0x0A")
    case True
    with Cons show ?thesis by (cases cs) auto
  next
    case False
    with Cons.prems have cs: "cs \<noteq> []" "last cs = CHR 0x0A" by (auto split: if_splits)
    then have "split_inclusive cs \<noteq> []" by (metis concat.simps(1) concat_split_inclusive)
    with Cons.IH cs False show ?thesis by (auto split: list.splits)
  qed
qed simp

lemma unstuff_plain: "\<not> starts_with l ''..'' \<Longrightarrow> unstuff l = l"
  by (simp add: unstuff_def)

text \<open>A line that the client sends as it is and the receiver takes as it is.\<close>

definition transparent_line :: "string \<Rightarrow> bool" where
  "transparent_line l \<longleftrightarrow> \<not> starts_with l ''.'' \<and> trim l \<noteq> ''.''"

lemma transparent_stuff: "transparent_line l \<Longrightarrow> stuff l = l \<and> sendable l"
  by (auto simp: transparent_line_def stuff_def sendable_def)

lemma data_lines_stop:
  "data_lines env cfg sink ls = EndOfData sk \<Longrightarrow> data_lines env cfg sink (ls @ rest) = EndOfData sk"
  by (induction ls arbitrary: sink) (auto split: data_round.splits)

lemma received_up_to_dot:
  assumes "m = smc_max_message_size cfg" "m < usize_max" "io_works env" "length a \<le> m"
    and "a = [] \<or> last a = CHR 0x0A" "list_all transparent_line (split_inclusive a)"
  shows "\<exists>sk. data_lines env cfg data_sink_new (split_inclusive (a @ ''.'' @ CRLF @ rest)) = EndOfData sk \<and>
    sink_bytes sk = a"
proof -
  let ?ls = "split_inclusive a"
  have "map stuff ?ls = ?ls" "list_all sendable ?ls"
    using assms(6) transparent_stuff by (auto simp: list_all_iff intro: map_idI)
  moreover have "trim (''.'' @ CRLF) = ''.''" by code_simp
  ultimately obtain sk where sk: "data_lines env cfg data_sink_new (?ls @ [''.'' @ CRLF]) = EndOfData sk"
    "sink_bytes sk = a"
    using data_lines_deliver [OF assms(1-3) sink_inv_new(1), of ?ls "''.'' @ CRLF"] assms(4)
    by (auto simp: sink_inv_new concat_split_inclusive)
  have "split_inclusive (a @ ''.'' @ CRLF @ rest) = ?ls @ [''.'' @ CRLF] @ split_inclusive rest"
    using split_inclusive_append [OF assms(5)] split_inclusive_line [of "''.'' @ [CHR 0x0D]" rest] by simp
  with data_lines_stop [OF sk(1), of "split_inclusive rest"] sk(2) show ?thesis by (auto simp del: data_lines.simps)
qed

section \<open>A peer that closes the connection\<close>

text \<open>A line that does not end a response.\<close>

definition unfinished :: "string \<Rightarrow> bool" where
  "unfinished l \<longleftrightarrow> utf8_valid l \<and> (4 \<le> length l \<longrightarrow> \<not> inside_char l 3 \<and> \<not> inside_char l 4 \<and> l ! 3 \<noteq> CHR '' '')"

lemma read_line_unfinished:
  assumes "\<forall>n. re_io_error env n = None" "list_all unfinished (ri_in io)"
  shows "\<exists>io' l. rl_read_line env io = Some (io', Inr l) \<and> unfinished l \<and> list_all unfinished (ri_in io')"
proof -
  have "utf8_valid []" by code_simp
  with assms show ?thesis
    by (cases "ri_in io")
      (auto simp: rl_read_line_def rl_bind_def rl_op_def rl_return_def Let_def unfinished_def)
qed

lemma read_response_at_end:
  assumes "\<forall>n. re_io_error env n = None" "list_all unfinished (ri_in io)"
  shows "read_response env resp io = None"
proof -
  let ?P = "\<lambda>e resp io res. e = env \<longrightarrow> \<not> list_all unfinished (ri_in io)"
  have "\<not> list_all unfinished (ri_in io)" if run: "read_response env resp io = Some res" for res
  proof -
    have "?P env resp io res"
    proof (rule read_response.raw_induct [where P = ?P, OF _ run], intro impI notI)
      fix loop e resp io res
      assume IH: "\<And>e resp io res. loop e resp io = Some res \<Longrightarrow> ?P e resp io res"
        and body: "(case rl_read_line e io of
            None \<Rightarrow> None
          | Some (io', Inl err) \<Rightarrow> Some (io', Inl err)
          | Some (io', Inr line) \<Rightarrow>
              if 4 \<le> length line \<and> (inside_char line 3 \<or> inside_char line 4)
              then Some (io', Inl (Panicked ''byte index is not a char boundary''))
              else if 4 \<le> length line \<and> line ! 3 = CHR '' '' then Some (io', Inr (resp @ line))
              else loop e (resp @ line) io') = Some res"
        and here: "e = env" "list_all unfinished (ri_in io)"
      from read_line_unfinished [OF assms(1) here(2)] obtain io' l
        where "rl_read_line env io = Some (io', Inr l)" "unfinished l" "list_all unfinished (ri_in io')" by blast
      with body here IH [of env] show False by (auto simp: unfinished_def split: if_splits)
    qed
    then show ?thesis by simp
  qed
  with assms(2) show ?thesis by (cases "read_response env resp io") auto
qed

section \<open>Properties\<close>

text \<open>A mail that the client reports as relayed has been sent completely and in order: whatever
  the peer answered, with or without TLS and authentication, the bytes written end with the whole
  mail transaction: the sender, every recipient, the message with its terminator, and QUIT.\<close>

theorem relay_sends_whole_transaction:
  assumes "relay_via_smtp env m relay = Some (io, Inr ())"
  shows "\<exists>opening. ri_out io = opening @ transaction_bytes env m"
proof -
  from assms obtain ls where "rl_bind (relay_hello env relay)
      (\<lambda>_. rl_bind (relay_auth env relay) (\<lambda>_. relay_transaction env m)) \<lparr>ri_in = ls, ri_out = [], ri_ops = 0\<rparr> =
      Some (io, Inr ())"
    by (auto simp: relay_via_smtp_def split: sum.splits)
  then obtain io2 where "relay_transaction env m io2 = Some (io, Inr ())"
    by (auto simp: rl_bind_Some_Inr)
  with writes_transaction [of env m] show ?thesis by (auto simp: writes_def)
qed


text \<open>The client does not apply dot-stuffing: when the message has a line with a lone dot, the
  server's receiver ends the message there, and the lines after it are left for the command loop,
  so that a message can carry commands to the relay.\<close>

theorem relay_lone_dot_truncates_message:
  assumes "serialize_message env m = a @ ''.'' @ CRLF @ b" "last a = CHR 0x0A"
    and "list_all transparent_line (split_inclusive a)"
    and "length a \<le> smc_max_message_size cfg" "smc_max_message_size cfg < usize_max" "io_works senv"
  shows "\<exists>read left sk. split_inclusive (relay_payload (serialize_message env m)) = read @ left \<and>
    data_lines senv cfg data_sink_new read = EndOfData sk \<and> sink_bytes sk = a \<and>
    (\<exists>rest. concat left = b @ rest)"
proof -
  obtain rest where payload: "relay_payload (serialize_message env m) = a @ ''.'' @ CRLF @ b @ rest"
    using assms(1) by (auto simp: relay_payload_def)
  have lines: "split_inclusive (a @ ''.'' @ CRLF) = split_inclusive a @ [''.'' @ CRLF]"
    "split_inclusive (a @ ''.'' @ CRLF @ b @ rest) = split_inclusive a @ [''.'' @ CRLF] @ split_inclusive (b @ rest)"
    using split_inclusive_append [of a] assms(2) split_inclusive_line [of "''.'' @ [CHR 0x0D]"] by simp_all
  from received_up_to_dot [OF refl assms(5,6,4), of "[]"] assms(2,3) obtain sk
    where "data_lines senv cfg data_sink_new (split_inclusive (a @ ''.'' @ CRLF)) = EndOfData sk" "sink_bytes sk = a"
    by (auto simp del: split_inclusive.simps)
  with lines payload show ?thesis
    by (intro exI [of _ "split_inclusive a @ [''.'' @ CRLF]"] exI [of _ "split_inclusive (b @ rest)"])
      (auto simp: concat_split_inclusive simp del: split_inclusive.simps)
qed

text \<open>The client never notices that the peer has closed the connection: when the peer sends only
  lines that do not finish a response, and then closes, the delivery attempt runs for ever.\<close>

theorem relay_hangs_when_peer_closes:
  assumes "re_connect env = Inr ls" "list_all unfinished ls" "\<forall>n. re_io_error env n = None" "\<not> rc_use_tls relay"
  shows "relay_via_smtp env m relay = None"
  using read_response_at_end [OF assms(3), of "\<lparr>ri_in = ls, ri_out = [], ri_ops = 0\<rparr>"] assms
  by (simp add: relay_via_smtp_def relay_hello_def rl_bind_def rl_return_def)

section \<open>Witnesses\<close>

definition demo_relay_env :: relay_env where
  "demo_relay_env =
     \<lparr>re_connect = Inr [''220 hi'' @ CRLF, ''250-x'' @ CRLF, ''250 y'' @ CRLF, ''250 ok'' @ CRLF, ''550 no'' @ CRLF,
        ''251 ok'' @ CRLF, ''354 go'' @ CRLF, ''250 ok'' @ CRLF, ''221 bye'' @ CRLF],
      re_tls = Inl ''no tls'', re_io_error = (\<lambda>n. None), re_body_error = None, re_base64 = id\<rparr>"

definition demo_dot_mail :: mail where
  "demo_dot_mail = set_message \<lparr>mm_headers = [], mm_body = Small (''hi'' @ CRLF @ ''.'' @ CRLF @ ''RSET'' @ CRLF)\<rparr> (demo_mail [''a'', ''b''])"

theorem relay_hangs_when_peer_closes_witness:
  "relay_via_smtp (demo_relay_env\<lparr>re_connect := Inr [''220-'' @ CRLF]\<rparr>) (demo_mail [''a'']) relay_config_default = None"
proof -
  have "list_all unfinished [''220-'' @ CRLF]" by code_simp
  then show ?thesis
    by (intro relay_hangs_when_peer_closes [where ls = "[''220-'' @ CRLF]"])
      (simp_all add: demo_relay_env_def relay_config_default_def)
qed

definition demo_two_rcpt_mail :: mail where
  "demo_two_rcpt_mail = demo_mail [''a'', ''b'']"

theorem relay_sends_whole_transaction_witness:
  "\<exists>io opening. relay_via_smtp demo_relay_env demo_two_rcpt_mail relay_config_default = Some (io, Inr ()) \<and>
     ri_out io = opening @ transaction_bytes demo_relay_env demo_two_rcpt_mail"
proof -
  have "map_option snd (relay_via_smtp demo_relay_env demo_two_rcpt_mail relay_config_default) = Some (Inr ())"
    by code_simp
  then obtain io where "relay_via_smtp demo_relay_env demo_two_rcpt_mail relay_config_default = Some (io, Inr ())"
    by (auto simp: map_option_case split: option.splits)
  with relay_sends_whole_transaction [OF this] show ?thesis by blast
qed


theorem relay_lone_dot_truncates_message_witness:
  "\<exists>read left sk. split_inclusive (relay_payload (serialize_message demo_relay_env demo_dot_mail)) = read @ left \<and>
     data_lines demo_smtp_env demo_smtp_config data_sink_new read = EndOfData sk \<and> sink_bytes sk = CRLF @ ''hi'' @ CRLF \<and>
     (\<exists>rest. concat left = (''RSET'' @ CRLF) @ rest)"
proof (rule relay_lone_dot_truncates_message)
  show "serialize_message demo_relay_env demo_dot_mail = (CRLF @ ''hi'' @ CRLF) @ ''.'' @ CRLF @ ''RSET'' @ CRLF" by code_simp
  show "list_all transparent_line (split_inclusive (CRLF @ ''hi'' @ CRLF))" by code_simp
qed (simp_all add: demo_smtp_config_def demo_smtp_env_def usize_max_def)

end
