(* ===== verification/Sieve_Script.thy ===== *)
theory Sieve_Script
  imports Mailets
begin

text \<open>
  Model of \<^verbatim>\<open>crates/rusmes-core/src/sieve/interpreter.rs\<close>, of the script types of \<^verbatim>\<open>sieve/parser.rs\<close> and
  of \<^verbatim>\<open>mailets/sieve.rs\<close>: the interpreter of Sieve filter scripts and the mailet that runs them.
  No branch of the interpreter returns an error, so its functions are total.  Numbers are \<^verbatim>\<open>i64\<close>,
  kept as 64-bit words and compared as signed numbers.  Characters of a string are its UTF-8 pieces.
\<close>

section \<open>Scripts\<close>

datatype sieve_test =
    TrueTest
  | FalseTest
  | HeaderTest "string option" string "string list" "string list"
  | AddressTest "string option" string "string list" "string list"
  | EnvelopeTest "string option" string "string list" "string list"
  | ExistsTest "string list"
  | SizeTest bool "64 word"
  | AllOf "sieve_test list"
  | AnyOf "sieve_test list"
  | NotTest sieve_test

datatype sieve_command =
    KeepCmd
  | FileintoCmd string
  | RedirectCmd string
  | DiscardCmd
  | StopCmd
  | IfCmd sieve_test "sieve_command list" "(sieve_test \<times> sieve_command list) list" "sieve_command list option"
  | RequireCmd "string list"
  | SetCmd string string
  | VacationCmd "64 word option" "string option" "string option" "string list" string

record sieve_script =
  ss_commands :: "sieve_command list"
  ss_requires :: "string list"

definition SieveScript_new :: sieve_script where
  "SieveScript_new = \<lparr>ss_commands = [], ss_requires = []\<rparr>"

definition add_command :: "sieve_command \<Rightarrow> sieve_script \<Rightarrow> sieve_script" where
  "add_command c sc =
     (let sc' = (case c of RequireCmd exts \<Rightarrow> sc\<lparr>ss_requires := ss_requires sc @ exts\<rparr> | _ \<Rightarrow> sc)
      in sc'\<lparr>ss_commands := ss_commands sc' @ [c]\<rparr>)"

definition known_extensions :: "string list" where
  "known_extensions = [''fileinto'', ''envelope'', ''variables'', ''vacation'']"

definition validate :: "sieve_script \<Rightarrow> unit result" where
  "validate sc =
     (case find (\<lambda>e. e \<notin> set known_extensions) (ss_requires sc) of
        Some e \<Rightarrow> Inl (''Unknown extension: '' @ e)
      | None \<Rightarrow> Inr ())"

section \<open>Wildcards\<close>

text \<open>The loop of \<^verbatim>\<open>wildcard_match\<close>: \<open>mi\<close> is \<^verbatim>\<open>match_idx\<close> and \<open>mi + k\<close> is \<^verbatim>\<open>v_idx\<close>, which the code never
  lets fall behind \<^verbatim>\<open>match_idx\<close>.  The result is the final \<^verbatim>\<open>p_idx\<close>, or nothing for \<^verbatim>\<open>return false\<close>.\<close>

function wildcard_loop :: "'a list \<Rightarrow> 'a list \<Rightarrow> 'a \<Rightarrow> 'a \<Rightarrow> nat \<Rightarrow> nat \<Rightarrow> nat \<Rightarrow> nat option \<Rightarrow> nat option" where
  "wildcard_loop v p qm star mi k pi si =
     (if mi + k < length v then
        if pi < length p \<and> (p ! pi = qm \<or> p ! pi = v ! (mi + k))
        then wildcard_loop v p qm star mi (k + 1) (pi + 1) si
        else if pi < length p \<and> p ! pi = star
        then wildcard_loop v p qm star (mi + k) 0 (pi + 1) (Some pi)
        else (case si of
                Some s \<Rightarrow> wildcard_loop v p qm star (mi + 1) 0 (s + 1) si
              | None \<Rightarrow> None)
      else Some pi)"
  by pat_completeness auto
termination
  by (relation "measures [\<lambda>(v, p, qm, star, mi, k, pi, si). length v - mi,
                          \<lambda>(v, p, qm, star, mi, k, pi, si). length v - (mi + k),
                          \<lambda>(v, p, qm, star, mi, k, pi, si). length p - pi]") auto

declare wildcard_loop.simps [simp del]

definition wildcard_chars :: "string list \<Rightarrow> string list \<Rightarrow> bool" where
  "wildcard_chars v p =
     (case wildcard_loop v p ''?'' ''*'' 0 0 0 None of
        None \<Rightarrow> False
      | Some pi \<Rightarrow> list_all (\<lambda>c. c = ''*'') (drop pi p))"

definition wildcard_match :: "(string \<Rightarrow> string) \<Rightarrow> string \<Rightarrow> string \<Rightarrow> bool" where
  "wildcard_match lc val pattern = wildcard_chars (utf8_chars (lc val)) (utf8_chars (lc pattern))"

definition string_match :: "(string \<Rightarrow> string) \<Rightarrow> string \<Rightarrow> string \<Rightarrow> string \<Rightarrow> bool" where
  "string_match lc match_type val pattern =
     (if match_type = ''is'' then eq_ignore_ascii_case val pattern
      else if match_type = ''contains'' then str_contains (lc val) (lc pattern)
      else if match_type = ''matches'' then wildcard_match lc val pattern
      else False)"

section \<open>Tests\<close>

definition header_values :: "mail \<Rightarrow> string list \<Rightarrow> string list" where
  "header_values m headers =
     List.map_filter (\<lambda>h. Option.bind (get_attribute m (''header.'' @ h)) attr_as_str) headers"

definition evaluate_header_test :: "(string \<Rightarrow> string) \<Rightarrow> mail \<Rightarrow> string \<Rightarrow> string list \<Rightarrow> string list \<Rightarrow> bool" where
  "evaluate_header_test lc m match_type headers keys =
     list_ex (\<lambda>v. list_ex (string_match lc match_type v) keys) (header_values m headers)"

definition evaluate_address_test :: "(string \<Rightarrow> string) \<Rightarrow> mail \<Rightarrow> string \<Rightarrow> string list \<Rightarrow> string list \<Rightarrow> bool" where
  "evaluate_address_test lc m match_type headers keys = evaluate_header_test lc m match_type headers keys"

definition envelope_part :: "mail \<Rightarrow> string \<Rightarrow> string option" where
  "envelope_part m part =
     (if part = ''from'' then map_option as_string (m_sender m)
      else if part = ''to'' then (case m_recipients m of [] \<Rightarrow> None | r # _ \<Rightarrow> Some (as_string r))
      else None)"

definition evaluate_envelope_test :: "(string \<Rightarrow> string) \<Rightarrow> mail \<Rightarrow> string \<Rightarrow> string list \<Rightarrow> string list \<Rightarrow> bool" where
  "evaluate_envelope_test lc m match_type parts keys =
     list_ex (\<lambda>v. list_ex (string_match lc match_type v) keys) (List.map_filter (envelope_part m) parts)"

definition evaluate_exists_test :: "mail \<Rightarrow> string list \<Rightarrow> bool" where
  "evaluate_exists_test m headers = list_ex (\<lambda>h. get_attribute m (''header.'' @ h) \<noteq> None) headers"

definition evaluate_size_test :: "mail \<Rightarrow> bool \<Rightarrow> 64 word \<Rightarrow> bool" where
  "evaluate_size_test m over limit =
     (case Option.bind (get_attribute m ''message.size'') attr_as_i64 of
        None \<Rightarrow> False
      | Some sz \<Rightarrow> if over then sint limit < sint sz else sint sz < sint limit)"

fun evaluate_test :: "(string \<Rightarrow> string) \<Rightarrow> mail \<Rightarrow> sieve_test \<Rightarrow> bool"
  and evaluate_all :: "(string \<Rightarrow> string) \<Rightarrow> mail \<Rightarrow> sieve_test list \<Rightarrow> bool"
  and evaluate_any :: "(string \<Rightarrow> string) \<Rightarrow> mail \<Rightarrow> sieve_test list \<Rightarrow> bool" where
  "evaluate_test lc m TrueTest = True"
| "evaluate_test lc m FalseTest = False"
| "evaluate_test lc m (HeaderTest _ mt hs ks) = evaluate_header_test lc m mt hs ks"
| "evaluate_test lc m (AddressTest _ mt hs ks) = evaluate_address_test lc m mt hs ks"
| "evaluate_test lc m (EnvelopeTest _ mt ps ks) = evaluate_envelope_test lc m mt ps ks"
| "evaluate_test lc m (ExistsTest hs) = evaluate_exists_test m hs"
| "evaluate_test lc m (SizeTest over limit) = evaluate_size_test m over limit"
| "evaluate_test lc m (AllOf ts) = evaluate_all lc m ts"
| "evaluate_test lc m (AnyOf ts) = evaluate_any lc m ts"
| "evaluate_test lc m (NotTest t) = (\<not> evaluate_test lc m t)"
| "evaluate_all lc m [] = True"
| "evaluate_all lc m (t # ts) = (if \<not> evaluate_test lc m t then False else evaluate_all lc m ts)"
| "evaluate_any lc m [] = False"
| "evaluate_any lc m (t # ts) = (if evaluate_test lc m t then True else evaluate_any lc m ts)"

section \<open>Execution\<close>

datatype sieve_action =
    KeepAction
  | FileintoAction string
  | RedirectAction string
  | DiscardAction
  | ImplicitKeep

record sieve_context =
  sx_variables :: "(string \<times> string) list"
  sx_implicit_keep_canceled :: bool
  sx_actions :: "sieve_action list"
  sx_stopped :: bool

definition SieveContext_new :: sieve_context where
  "SieveContext_new =
     \<lparr>sx_variables = [], sx_implicit_keep_canceled = False, sx_actions = [], sx_stopped = False\<rparr>"

definition add_action :: "sieve_action \<Rightarrow> sieve_context \<Rightarrow> sieve_context" where
  "add_action a cx =
     (if a \<noteq> ImplicitKeep then cx\<lparr>sx_implicit_keep_canceled := True\<rparr> else cx)\<lparr>sx_actions := sx_actions cx @ [a]\<rparr>"

definition finalize :: "sieve_context \<Rightarrow> sieve_action list" where
  "finalize cx =
     (if \<not> sx_implicit_keep_canceled cx \<and> sx_actions cx = [] then [ImplicitKeep] else sx_actions cx)"

function execute_command :: "(string \<Rightarrow> string) \<Rightarrow> mail \<Rightarrow> sieve_command \<Rightarrow> sieve_context \<Rightarrow> sieve_context"
  and execute_block :: "(string \<Rightarrow> string) \<Rightarrow> mail \<Rightarrow> sieve_command list \<Rightarrow> sieve_context \<Rightarrow> sieve_context"
  and execute_elsif ::
    "(string \<Rightarrow> string) \<Rightarrow> mail \<Rightarrow> (sieve_test \<times> sieve_command list) list \<Rightarrow> sieve_command list option \<Rightarrow>
     sieve_context \<Rightarrow> sieve_context" where
  "execute_command lc m KeepCmd cx = add_action KeepAction cx"
| "execute_command lc m (FileintoCmd mailbox) cx = add_action (FileintoAction mailbox) cx"
| "execute_command lc m (RedirectCmd address) cx = add_action (RedirectAction address) cx"
| "execute_command lc m DiscardCmd cx = add_action DiscardAction cx"
| "execute_command lc m StopCmd cx = cx\<lparr>sx_stopped := True\<rparr>"
| "execute_command lc m (IfCmd t cs elsifs els) cx =
     (if evaluate_test lc m t then execute_block lc m cs cx else execute_elsif lc m elsifs els cx)"
| "execute_command lc m (RequireCmd _) cx = cx"
| "execute_command lc m (SetCmd n v) cx = cx\<lparr>sx_variables := AList.update n v (sx_variables cx)\<rparr>"
| "execute_command lc m (VacationCmd _ _ _ _ _) cx = cx"
| "execute_block lc m [] cx = cx"
| "execute_block lc m (c # cs) cx = execute_block lc m cs (execute_command lc m c cx)"
| "execute_elsif lc m [] els cx = (case els of None \<Rightarrow> cx | Some cs \<Rightarrow> execute_block lc m cs cx)"
| "execute_elsif lc m ((t, cs) # rest) els cx =
     (if evaluate_test lc m t then execute_block lc m cs cx else execute_elsif lc m rest els cx)"
  by pat_completeness auto
termination
  by (relation "measure (case_sum (\<lambda>(lc, m, c, cx). size c)
        (case_sum (\<lambda>(lc, m, cs, cx). size_list size cs)
          (\<lambda>(lc, m, elsifs, els, cx).
             size_list (size_prod (\<lambda>_. 0) (size_list size)) elsifs + size_option (size_list size) els)))") auto

fun execute_script :: "(string \<Rightarrow> string) \<Rightarrow> mail \<Rightarrow> sieve_command list \<Rightarrow> sieve_context \<Rightarrow> sieve_context" where
  "execute_script lc m [] cx = cx"
| "execute_script lc m (c # cs) cx =
     (if sx_stopped cx then cx else execute_script lc m cs (execute_command lc m c cx))"

definition sieve_execute :: "(string \<Rightarrow> string) \<Rightarrow> mail \<Rightarrow> sieve_script \<Rightarrow> sieve_action list" where
  "sieve_execute lc m sc = finalize (execute_script lc m (ss_commands sc) SieveContext_new)"

section \<open>The mailet\<close>

record sieve_mailet =
  sm_user_scripts :: "(string \<times> sieve_script) list"
  sm_global_script :: "sieve_script option"
  sm_script_dir :: "string option"

definition SieveMailet_new :: sieve_mailet where
  "SieveMailet_new = \<lparr>sm_user_scripts = [], sm_global_script = None, sm_script_dir = None\<rparr>"

definition add_user_script :: "string \<Rightarrow> sieve_script \<Rightarrow> sieve_mailet \<Rightarrow> sieve_mailet result" where
  "add_user_script user sc ml =
     rbind (validate sc) (\<lambda>_. Inr (ml\<lparr>sm_user_scripts := AList.update user sc (sm_user_scripts ml)\<rparr>))"

definition set_global_script :: "sieve_script \<Rightarrow> sieve_mailet \<Rightarrow> sieve_mailet result" where
  "set_global_script sc ml = rbind (validate sc) (\<lambda>_. Inr (ml\<lparr>sm_global_script := Some sc\<rparr>))"

definition extract_user :: "mail \<Rightarrow> string option" where
  "extract_user m = (case m_recipients m of [] \<Rightarrow> None | r # _ \<Rightarrow> Some (local_part r))"

fun apply_actions :: "mail \<Rightarrow> sieve_action list \<Rightarrow> mail \<times> mailet_action" where
  "apply_actions m [] = (m, Continue)"
| "apply_actions m (KeepAction # as) = apply_actions (set_attribute ''sieve.action'' (AString ''keep'') m) as"
| "apply_actions m (ImplicitKeep # as) = apply_actions (set_attribute ''sieve.action'' (AString ''keep'') m) as"
| "apply_actions m (FileintoAction mailbox # as) =
     apply_actions (set_attribute ''sieve.mailbox'' (AString mailbox)
       (set_attribute ''sieve.action'' (AString ''fileinto'') m)) as"
| "apply_actions m (RedirectAction address # as) =
     apply_actions (set_attribute ''sieve.redirect_to'' (AString address)
       (set_attribute ''sieve.action'' (AString ''redirect'') m)) as"
| "apply_actions m (DiscardAction # as) = (m, Drop)"

definition script_for :: "sieve_mailet \<Rightarrow> mail \<Rightarrow> sieve_script option" where
  "script_for ml m =
     (case extract_user m of
        Some user \<Rightarrow> (case map_of (sm_user_scripts ml) user of Some sc \<Rightarrow> Some sc | None \<Rightarrow> sm_global_script ml)
      | None \<Rightarrow> sm_global_script ml)"

definition sieve_service :: "(string \<Rightarrow> string) \<Rightarrow> sieve_mailet \<Rightarrow> 'w service" where
  "sieve_service lc ml m w =
     (case script_for ml m of
        Some sc \<Rightarrow> (case apply_actions m (sieve_execute lc m sc) of (m', a) \<Rightarrow> ((m', w), Inr a))
      | None \<Rightarrow> ((m, w), Inr Continue))"

definition SieveMailet :: "(string \<Rightarrow> string) \<Rightarrow> sieve_mailet \<Rightarrow> 'w mailet" where
  "SieveMailet lc ml = immediate ''Sieve'' (sieve_service lc ml)"

lemma apply_actions_recipients: "m_recipients (fst (apply_actions m as)) = m_recipients m"
  by (induction m as rule: apply_actions.induct) simp_all

interpretation sieve: recipient_mailet "SieveMailet lc ml" for lc ml
proof unfold_locales
  fix m :: mail and w :: 'b and m' w' r
  assume "ml_service (SieveMailet lc ml) m w = ((m', w'), r)"
  then show "set (m_recipients m') \<subseteq> set (m_recipients m)"
    using apply_actions_recipients [of m]
    by (auto simp: SieveMailet_def immediate_def sieve_service_def split: option.splits prod.splits) (metis fst_conv)
qed (auto simp: SieveMailet_def immediate_def)

section \<open>Wildcard patterns\<close>

text \<open>The meaning of a pattern.\<close>

fun glob :: "'a \<Rightarrow> 'a \<Rightarrow> 'a list \<Rightarrow> 'a list \<Rightarrow> bool" where
  "glob qm star [] v \<longleftrightarrow> v = []"
| "glob qm star (c # p) v \<longleftrightarrow>
     (if c = star then (\<exists>j \<le> length v. glob qm star p (drop j v))
      else v \<noteq> [] \<and> (c = qm \<or> hd v = c) \<and> glob qm star p (tl v))"

lemma glob_star_weaken: "glob qm star (star # p) (drop n v) \<Longrightarrow> glob qm star (star # p) v"
proof -
  assume "glob qm star (star # p) (drop n v)"
  then obtain j where j: "j \<le> length v - n" "glob qm star p (drop (n + j) v)"
    by (auto simp: add.commute)
  show ?thesis
  proof (cases "n + j \<le> length v")
    case True
    with j show ?thesis by auto
  next
    case False
    with j have "glob qm star p (drop (length v) v)" by simp
    then show ?thesis by auto
  qed
qed

lemma glob_star_step: "v \<noteq> [] \<Longrightarrow> glob qm star (star # p) v \<longleftrightarrow> glob qm star p v \<or> glob qm star (star # p) (tl v)"
proof
  assume v: "v \<noteq> []" and "glob qm star (star # p) v"
  then obtain j where j: "j \<le> length v" "glob qm star p (drop j v)" by auto
  then show "glob qm star p v \<or> glob qm star (star # p) (tl v)"
  proof (cases j)
    case (Suc i)
    with j v have "i \<le> length (tl v)" "glob qm star p (drop i (tl v))" by (auto simp: drop_Suc)
    then show ?thesis by auto
  qed simp
next
  assume "v \<noteq> []" "glob qm star p v \<or> glob qm star (star # p) (tl v)"
  then show "glob qm star (star # p) v"
    using glob_star_weaken [of qm star p 1 v] by (metis One_nat_def drop0 drop_Suc glob.simps(2) le0)
qed

text \<open>A literal segment of a pattern against the beginning of a value.\<close>

definition lit_match :: "'a \<Rightarrow> 'a \<Rightarrow> 'a list \<Rightarrow> 'a list \<Rightarrow> bool" where
  "lit_match qm star seg v \<longleftrightarrow>
     length seg \<le> length v \<and> (\<forall>i < length seg. seg ! i \<noteq> star \<and> (seg ! i = qm \<or> seg ! i = v ! i))"

lemma glob_literal:
  "star \<notin> set seg \<Longrightarrow> glob qm star (seg @ rest) v \<longleftrightarrow>
     lit_match qm star seg v \<and> glob qm star rest (drop (length seg) v)"
proof (induction seg arbitrary: v)
  case (Cons c seg)
  have "lit_match qm star (c # seg) v \<longleftrightarrow> v \<noteq> [] \<and> (c = qm \<or> hd v = c) \<and> lit_match qm star seg (tl v)"
    if "c \<noteq> star"
  proof (cases v)
    case (Cons a w)
    with that show ?thesis by (auto simp: lit_match_def less_Suc_eq_0_disj)
  qed (simp add: lit_match_def)
  with Cons show ?case by (auto simp: drop_Suc)
qed (simp add: lit_match_def)

lemma glob_stars: "glob qm star p [] \<longleftrightarrow> list_all (\<lambda>c. c = star) p"
  by (induction p) auto

lemma lit_match_snoc:
  "lit_match qm star seg v \<Longrightarrow> length seg < length v \<Longrightarrow> c \<noteq> star \<Longrightarrow> c = qm \<or> c = v ! length seg \<Longrightarrow>
     lit_match qm star (seg @ [c]) v"
  by (auto simp: lit_match_def nth_append less_Suc_eq)

text \<open>What the loop decides from a state after a star: whether the star and the rest of the pattern
  match the rest of the value.\<close>

definition loop_accepts :: "'a list \<Rightarrow> 'a list \<Rightarrow> 'a \<Rightarrow> 'a \<Rightarrow> nat \<Rightarrow> nat \<Rightarrow> nat \<Rightarrow> nat option \<Rightarrow> bool" where
  "loop_accepts v p qm star mi k pi si \<longleftrightarrow>
     (case wildcard_loop v p qm star mi k pi si of None \<Rightarrow> False | Some i \<Rightarrow> list_all (\<lambda>c. c = star) (drop i p))"

definition loop_state :: "'a list \<Rightarrow> 'a list \<Rightarrow> 'a \<Rightarrow> 'a \<Rightarrow> nat \<Rightarrow> nat \<Rightarrow> nat \<Rightarrow> nat \<Rightarrow> bool" where
  "loop_state v p qm star start mi k pi \<longleftrightarrow>
     pi = start + k \<and> pi \<le> length p \<and> mi + k \<le> length v \<and>
     lit_match qm star (take k (drop start p)) (drop mi v)"

lemma loop_state_next:
  assumes "loop_state v p qm star start mi k pi" "mi + k < length v" "pi < length p"
    and "p ! pi = qm \<or> p ! pi = v ! (mi + k)" "p ! pi \<noteq> star"
  shows "loop_state v p qm star start mi (k + 1) (pi + 1)"
proof -
  have k: "k < length (drop start p)" using assms(1,3) by (simp add: loop_state_def)
  then have "take (Suc k) (drop start p) = take k (drop start p) @ [p ! pi]"
    using assms(1) by (simp add: take_Suc_conv_app_nth loop_state_def)
  moreover have "lit_match qm star (take k (drop start p) @ [p ! pi]) (drop mi v)"
    using assms k by (intro lit_match_snoc) (auto simp: loop_state_def)
  ultimately show ?thesis using assms by (simp add: loop_state_def)
qed

lemma segment_split:
  assumes "loop_state v p qm star start mi k pi"
  shows "drop start p = take k (drop start p) @ drop pi p" "star \<notin> set (take k (drop start p))"
    "length (take k (drop start p)) = k"
proof -
  show len: "length (take k (drop start p)) = k" using assms by (auto simp: loop_state_def)
  show "drop start p = take k (drop start p) @ drop pi p"
    using assms append_take_drop_id [of k "drop start p"] by (simp add: loop_state_def add.commute)
  have "take k (drop start p) ! i \<noteq> star" if "i < k" for i
    using assms that len by (simp add: loop_state_def lit_match_def)
  then show "star \<notin> set (take k (drop start p))" using len by (metis in_set_conv_nth)
qed

lemma loop_end:
  "length v \<le> mi + k \<Longrightarrow> loop_accepts v p qm star mi k pi si \<longleftrightarrow> list_all (\<lambda>c. c = star) (drop pi p)"
  by (subst loop_accepts_def, subst wildcard_loop.simps) simp

lemma loop_literal:
  "mi + k < length v \<Longrightarrow> pi < length p \<Longrightarrow> p ! pi = qm \<or> p ! pi = v ! (mi + k) \<Longrightarrow>
     loop_accepts v p qm star mi k pi si = loop_accepts v p qm star mi (k + 1) (pi + 1) si"
  unfolding loop_accepts_def by (subst wildcard_loop.simps) simp

lemma loop_new_star:
  assumes "mi + k < length v" "pi < length p" "p ! pi = star" "star \<noteq> qm" "star \<notin> set v"
  shows "loop_accepts v p qm star mi k pi si = loop_accepts v p qm star (mi + k) 0 (pi + 1) (Some pi)"
proof -
  have "v ! (mi + k) \<noteq> star" using assms(1,5) by (metis nth_mem)
  with assms have "wildcard_loop v p qm star mi k pi si = wildcard_loop v p qm star (mi + k) 0 (pi + 1) (Some pi)"
    by (subst wildcard_loop.simps) simp
  then show ?thesis by (simp add: loop_accepts_def)
qed

lemma loop_mismatch:
  assumes "mi + k < length v" "\<not> (pi < length p \<and> (p ! pi = qm \<or> p ! pi = v ! (mi + k) \<or> p ! pi = star))"
  shows "loop_accepts v p qm star mi k pi si =
    (case si of None \<Rightarrow> False | Some s \<Rightarrow> loop_accepts v p qm star (mi + 1) 0 (s + 1) si)"
proof (cases si)
  case None
  with assms have "wildcard_loop v p qm star mi k pi si = None" by (subst wildcard_loop.simps) auto
  with None show ?thesis by (simp add: loop_accepts_def)
next
  case (Some s)
  with assms have "wildcard_loop v p qm star mi k pi (Some s) = wildcard_loop v p qm star (mi + 1) 0 (s + 1) (Some s)"
    by (subst wildcard_loop.simps) auto
  with Some show ?thesis by (simp add: loop_accepts_def)
qed

lemma mismatch_no_glob:
  assumes st: "loop_state v p qm star start mi k pi" and "mi + k < length v"
    and "\<not> (pi < length p \<and> (p ! pi = qm \<or> p ! pi = v ! (mi + k) \<or> p ! pi = star))"
  shows "\<not> glob qm star (drop start p) (drop mi v)"
proof -
  note seg = segment_split [OF st]
  have "\<not> glob qm star (drop pi p) (drop k (drop mi v))"
  proof (cases "pi < length p")
    case True
    have "drop k (drop mi v) = v ! (mi + k) # drop (Suc (mi + k)) v"
      using assms(2) by (simp add: Cons_nth_drop_Suc add.commute)
    moreover have "drop pi p = p ! pi # drop (Suc pi) p" using True by (simp add: Cons_nth_drop_Suc)
    ultimately show ?thesis using assms(3) True by (simp add: eq_commute [of "v ! (mi + k)"])
  next
    case False
    with assms(2) show ?thesis by simp
  qed
  with glob_literal [OF seg(2), of qm "drop pi p"] seg(1,3) show ?thesis by metis
qed

lemma loop_after_star:
  assumes "star \<notin> set v" "star \<noteq> qm"
  shows "loop_state v p qm star (Suc s) mi k pi \<Longrightarrow>
    loop_accepts v p qm star mi k pi (Some s) \<longleftrightarrow> glob qm star (star # drop (Suc s) p) (drop mi v)"
  using assms
proof (induction v p qm star mi k pi "Some s" arbitrary: s rule: wildcard_loop.induct)
  case (1 v p qm star mi k pi)
  note st = \<open>loop_state v p qm star (Suc s) mi k pi\<close>
  note seg = segment_split [OF st]
  have len: "mi + k \<le> length v" and lit: "lit_match qm star (take k (drop (Suc s) p)) (drop mi v)"
    using st by (simp_all add: loop_state_def)
  show ?case
  proof (cases "mi + k < length v")
    case False
    with len have end_v: "mi + k = length v" by simp
    have "glob qm star (drop (Suc s) p) (drop (j + mi) v) \<longleftrightarrow> j = 0 \<and> list_all (\<lambda>c. c = star) (drop pi p)"
      if "j + mi \<le> length v" for j
    proof -
      have "glob qm star (drop (Suc s) p) (drop (j + mi) v) \<longleftrightarrow>
          lit_match qm star (take k (drop (Suc s) p)) (drop (j + mi) v) \<and> glob qm star (drop pi p) (drop k (drop (j + mi) v))"
        using glob_literal [OF seg(2), of qm "drop pi p" "drop (j + mi) v"] seg(1,3) by metis
      moreover have "j = 0" if "lit_match qm star (take k (drop (Suc s) p)) (drop (j + mi) v)"
      proof -
        have "k \<le> length v - (j + mi)" using that seg(3) unfolding lit_match_def by simp
        with end_v \<open>j + mi \<le> length v\<close> show ?thesis by linarith
      qed
      ultimately show ?thesis using lit end_v by (auto simp: glob_stars)
    qed
    note suffixes = this
    have "glob qm star (star # drop (Suc s) p) (drop mi v) \<longleftrightarrow>
        (\<exists>j. j + mi \<le> length v \<and> glob qm star (drop (Suc s) p) (drop (j + mi) v))"
      using len by (auto simp: le_diff_conv2)
    also have "\<dots> \<longleftrightarrow> list_all (\<lambda>c. c = star) (drop pi p)"
      using suffixes len by (metis add_leD1 add_0)
    finally have "glob qm star (star # drop (Suc s) p) (drop mi v) \<longleftrightarrow> list_all (\<lambda>c. c = star) (drop pi p)" .
    then show ?thesis using loop_end [of v mi k] end_v by simp
  next
    case more: True
    consider (literal) "pi < length p \<and> (p ! pi = qm \<or> p ! pi = v ! (mi + k))"
      | (new_star) "pi < length p" "p ! pi = star"
      | (mismatch) "\<not> (pi < length p \<and> (p ! pi = qm \<or> p ! pi = v ! (mi + k) \<or> p ! pi = star))" by blast
    then show ?thesis
    proof cases
      case literal
      then have "p ! pi \<noteq> star" using "1.prems"(2,3) more by (metis nth_mem)
      with loop_state_next [OF st more] literal have "loop_state v p qm star (Suc s) mi (k + 1) (pi + 1)" by blast
      from "1.hyps"(1) [OF more literal this] "1.prems"(2,3) literal show ?thesis
        using loop_literal [OF more] by blast
    next
      case new_star
      have rest: "drop pi p = star # drop (Suc pi) p" using new_star by (simp add: Cons_nth_drop_Suc [symmetric])
      have "loop_state v p qm star (Suc pi) (mi + k) 0 (pi + 1)"
        using new_star more by (simp add: loop_state_def lit_match_def)
      moreover have "\<not> (pi < length p \<and> (p ! pi = qm \<or> p ! pi = v ! (mi + k)))"
        using new_star "1.prems"(2,3) more by (metis nth_mem)
      ultimately have "loop_accepts v p qm star (mi + k) 0 (pi + 1) (Some pi) \<longleftrightarrow> glob qm star (drop pi p) (drop (mi + k) v)"
        using "1.hyps"(2) [OF more] new_star "1.prems"(2,3) unfolding rest by blast
      moreover have "glob qm star (drop pi p) (drop (mi + k) v) \<longleftrightarrow> glob qm star (star # drop (Suc s) p) (drop mi v)"
      proof
        assume "glob qm star (drop pi p) (drop (mi + k) v)"
        then have "glob qm star (drop (Suc s) p) (drop mi v)"
          using glob_literal [OF seg(2), of qm "drop pi p" "drop mi v"] seg(1,3) lit by (metis drop_drop add.commute)
        then show "glob qm star (star # drop (Suc s) p) (drop mi v)" by (metis drop0 glob.simps(2) le0)
      next
        assume "glob qm star (star # drop (Suc s) p) (drop mi v)"
        then obtain j where "glob qm star (drop (Suc s) p) (drop j (drop mi v))" by auto
        then have "glob qm star (drop pi p) (drop k (drop j (drop mi v)))"
          using glob_literal [OF seg(2), of qm "drop pi p"] seg(1,3) by metis
        then have "glob qm star (drop pi p) (drop j (drop (mi + k) v))" by (simp add: ac_simps)
        then show "glob qm star (drop pi p) (drop (mi + k) v)" unfolding rest by (rule glob_star_weaken)
      qed
      ultimately show ?thesis using loop_new_star [OF more new_star "1.prems"(3,2)] by simp
    next
      case mismatch
      have "\<not> glob qm star (drop (Suc s) p) (drop mi v)" by (rule mismatch_no_glob [OF st more mismatch])
      moreover have "drop mi v \<noteq> []" using more by simp
      ultimately have step: "glob qm star (star # drop (Suc s) p) (drop mi v) \<longleftrightarrow>
          glob qm star (star # drop (Suc s) p) (drop (Suc mi) v)"
        using glob_star_step [of "drop mi v" qm star "drop (Suc s) p"] by (simp add: drop_Suc tl_drop)
      have "loop_state v p qm star (Suc s) (mi + 1) 0 (s + 1)"
        using st more by (simp add: loop_state_def lit_match_def)
      with "1.hyps"(3) [OF more] mismatch "1.prems"(2,3)
      have "loop_accepts v p qm star (mi + 1) 0 (s + 1) (Some s) \<longleftrightarrow>
          glob qm star (star # drop (Suc s) p) (drop (mi + 1) v)" by blast
      with step loop_mismatch [OF more mismatch, of "Some s"] show ?thesis by simp
    qed
  qed
qed

lemma loop_before_star:
  assumes "star \<notin> set v" "star \<noteq> qm"
  shows "loop_state v p qm star 0 0 k pi \<Longrightarrow> loop_accepts v p qm star 0 k pi None \<longleftrightarrow> glob qm star p v"
proof (induction "length v - k" arbitrary: k pi)
  case 0
  note seg = segment_split [OF "0.prems"]
  have k: "k = length v" and lit: "lit_match qm star (take k (drop 0 p)) v"
    using 0 by (auto simp: loop_state_def)
  have "glob qm star p v \<longleftrightarrow> list_all (\<lambda>c. c = star) (drop pi p)"
    using glob_literal [OF seg(2), of qm "drop pi p" v] seg(1,3) lit k by (simp add: glob_stars)
  with loop_end [of v 0 k] k show ?case by simp
next
  case (Suc n)
  note st = Suc.prems
  note seg = segment_split [OF st]
  have more: "0 + k < length v" and lit: "lit_match qm star (take k (drop 0 p)) v"
    using Suc.hyps(2) st by (simp_all add: loop_state_def)
  consider (literal) "pi < length p" "p ! pi = qm \<or> p ! pi = v ! (0 + k)"
    | (new_star) "pi < length p" "p ! pi = star"
    | (mismatch) "\<not> (pi < length p \<and> (p ! pi = qm \<or> p ! pi = v ! (0 + k) \<or> p ! pi = star))" by blast
  then show ?case
  proof cases
    case literal
    then have "p ! pi \<noteq> star" using assms more by (metis nth_mem)
    with loop_state_next [OF st more] literal have "loop_state v p qm star 0 0 (k + 1) (pi + 1)" by blast
    moreover have "n = length v - (k + 1)" using Suc.hyps(2) by simp
    ultimately show ?thesis using Suc.hyps(1) loop_literal [OF more literal] by blast
  next
    case new_star
    have rest: "drop pi p = star # drop (Suc pi) p" using new_star by (simp add: Cons_nth_drop_Suc [symmetric])
    have "loop_state v p qm star (Suc pi) k 0 (pi + 1)"
      using new_star more by (simp add: loop_state_def lit_match_def)
    from loop_after_star [OF assms this]
    have "loop_accepts v p qm star k 0 (pi + 1) (Some pi) \<longleftrightarrow> glob qm star (drop pi p) (drop k v)" by (simp only: rest)
    also have "\<dots> \<longleftrightarrow> glob qm star p v"
      using glob_literal [OF seg(2), of qm "drop pi p" v] seg(1,3) lit by (metis drop0)
    finally show ?thesis using loop_new_star [OF more new_star assms(2,1)] by simp
  next
    case mismatch
    with mismatch_no_glob [OF st more] loop_mismatch [OF more mismatch, of None] show ?thesis by simp
  qed
qed

lemma wildcard_chars_glob:
  "''*'' \<notin> set v \<Longrightarrow> wildcard_chars v p \<longleftrightarrow> glob ''?'' ''*'' p v"
  using loop_before_star [of "''*''" v "''?''" p 0 0]
  by (simp add: wildcard_chars_def loop_accepts_def loop_state_def lit_match_def)

section \<open>Actions of a script\<close>

definition context_inv :: "sieve_context \<Rightarrow> bool" where
  "context_inv cx \<longleftrightarrow> sx_implicit_keep_canceled cx = (sx_actions cx \<noteq> []) \<and> ImplicitKeep \<notin> set (sx_actions cx)"

lemma add_action_inv: "context_inv cx \<Longrightarrow> a \<noteq> ImplicitKeep \<Longrightarrow> context_inv (add_action a cx)"
  by (simp add: context_inv_def add_action_def)

lemma execute_inv:
  "context_inv cx \<Longrightarrow> context_inv (execute_command lc m c cx)"
  "context_inv cx \<Longrightarrow> context_inv (execute_block lc m cs cx)"
  "context_inv cx \<Longrightarrow> context_inv (execute_elsif lc m elsifs els cx)"
  by (induction lc m c cx and lc m cs cx and lc m elsifs els cx
      rule: execute_command_execute_block_execute_elsif.induct)
    (auto simp: add_action_inv split: option.split, auto simp: context_inv_def)

lemma execute_script_inv: "context_inv cx \<Longrightarrow> context_inv (execute_script lc m cs cx)"
  by (induction cs arbitrary: cx) (simp_all add: execute_inv)

text \<open>What a command adds to the actions depends on neither the variables nor the stop flag.\<close>

lemma execute_actions_cong:
  "sx_actions cx = sx_actions cy \<Longrightarrow> sx_actions (execute_command lc m c cx) = sx_actions (execute_command lc m c cy)"
  "sx_actions cx = sx_actions cy \<Longrightarrow> sx_actions (execute_block lc m cs cx) = sx_actions (execute_block lc m cs cy)"
  "sx_actions cx = sx_actions cy \<Longrightarrow>
     sx_actions (execute_elsif lc m elsifs els cx) = sx_actions (execute_elsif lc m elsifs els cy)"
  by (induction lc m c cx and lc m cs cx and lc m elsifs els cx arbitrary: cy and cy and cy
      rule: execute_command_execute_block_execute_elsif.induct)
    (auto simp: add_action_def split: option.split)

lemma execute_block_append: "execute_block lc m (cs @ ds) cx = execute_block lc m ds (execute_block lc m cs cx)"
  by (induction cs arbitrary: cx) simp_all

lemma execute_script_stop: "execute_script lc m (cs @ StopCmd # ds) cx = execute_script lc m (cs @ [StopCmd]) cx"
proof (induction cs arbitrary: cx)
  case Nil
  then show ?case by (cases ds) simp_all
qed simp

section \<open>Properties\<close>

text \<open>The wildcard matcher of \<^verbatim>\<open>:matches\<close>, a loop with one backtracking point, decides exactly
  the meaning of the pattern (a question mark stands for one character, a star for any sequence)
  for every pattern and every value without a star.\<close>

theorem wildcard_match_exact:
  assumes "''*'' \<notin> set (utf8_chars (lc val))"
  shows "wildcard_match lc val pattern \<longleftrightarrow> glob ''?'' ''*'' (utf8_chars (lc pattern)) (utf8_chars (lc val))"
  using wildcard_chars_glob [OF assms] by (simp add: wildcard_match_def)

text \<open>A star in the value is taken for a literal match of the star in the pattern, which then is
  no wildcard any more: the pattern of a single star rejects every longer value that starts with one.\<close>

theorem wildcard_star_in_value:
  assumes "v \<noteq> []"
  shows "\<not> wildcard_chars (''*'' # v) [''*''] \<and> glob ''?'' ''*'' [''*''] (''*'' # v)"
proof
  have "wildcard_loop (''*'' # v) [''*''] ''?'' ''*'' 0 0 0 None = wildcard_loop (''*'' # v) [''*''] ''?'' ''*'' 0 1 1 None"
    by (subst wildcard_loop.simps) simp
  also have "\<dots> = None" using assms by (subst wildcard_loop.simps) simp
  finally show "\<not> wildcard_chars (''*'' # v) [''*'']" by (simp add: wildcard_chars_def)
  show "glob ''?'' ''*'' [''*''] (''*'' # v)" by (auto intro: exI [of _ "Suc (length v)"])
qed

text \<open>Every script decides what happens to the mail: the list of actions is never empty, the
  implicit keep appears only alone, and commands after a top-level \<^verbatim>\<open>stop\<close> have no effect.\<close>

theorem sieve_always_decides:
  "sieve_execute lc m sc \<noteq> [] \<and>
   (ImplicitKeep \<in> set (sieve_execute lc m sc)) = (sieve_execute lc m sc = [ImplicitKeep]) \<and>
   sieve_execute lc m \<lparr>ss_commands = cs @ StopCmd # ds, ss_requires = rs\<rparr> =
     sieve_execute lc m \<lparr>ss_commands = cs @ [StopCmd], ss_requires = rs\<rparr>"
proof -
  have "context_inv SieveContext_new" by (simp add: context_inv_def SieveContext_new_def)
  from execute_script_inv [OF this, of lc m "ss_commands sc"]
  have "sieve_execute lc m sc \<noteq> []"
    "(ImplicitKeep \<in> set (sieve_execute lc m sc)) = (sieve_execute lc m sc = [ImplicitKeep])"
    by (auto simp: sieve_execute_def finalize_def context_inv_def)
  moreover have "sieve_execute lc m \<lparr>ss_commands = cs @ StopCmd # ds, ss_requires = rs\<rparr> =
      sieve_execute lc m \<lparr>ss_commands = cs @ [StopCmd], ss_requires = rs\<rparr>"
    unfolding sieve_execute_def sieve_script.select_convs execute_script_stop [of lc m cs ds] ..
  ultimately show ?thesis by blast
qed

text \<open>A \<^verbatim>\<open>stop\<close> inside a block does not stop the block: the actions of the conditional are those
  of the block without the \<^verbatim>\<open>stop\<close>, the commands after it included.\<close>

theorem sieve_stop_ignored_in_block:
  "sx_actions (execute_command lc m (IfCmd TrueTest (cs @ StopCmd # ds) elsifs els) cx) =
     sx_actions (execute_block lc m (cs @ ds) cx)"
  by (simp add: execute_block_append) (rule execute_actions_cong(2), simp)

section \<open>Witnesses\<close>

theorem wildcard_match_exact_witness:
  "wildcard_match to_ascii_lowercase ''Buy Now'' ''*n?w''"
proof -
  have "''*'' \<notin> set (utf8_chars (to_ascii_lowercase ''Buy Now''))" by code_simp
  moreover have "glob ''?'' ''*'' (utf8_chars (to_ascii_lowercase ''*n?w'')) (utf8_chars (to_ascii_lowercase ''Buy Now''))"
    by code_simp
  ultimately show ?thesis using wildcard_match_exact by blast
qed

theorem wildcard_star_in_value_witness:
  "\<not> wildcard_chars [''*'', ''x''] [''*'']"
  using wildcard_star_in_value [of "[''x'']"] by simp

end
