(* ===== verification/Sieve_Parser.thy ===== *)
theory Sieve_Parser
  imports Sieve_Script
begin

text \<open>
  Model of the parser of \<^verbatim>\<open>crates/rusmes-core/src/sieve/parser.rs\<close>.  The parser's position is the rest
  of the script as a list of characters (each the string of its UTF-8 bytes); the code counts the
  position in characters but compares it with the length in bytes, which matters only in the outer
  loop: there the argument \<open>wide\<close> says that the script has a character of more than one byte.
  Errors, which the code formats into messages, are a datatype.  \<^verbatim>\<open>char::is_alphanumeric\<close> outside
  ASCII is the argument \<open>uni\<close>.

  The recursive functions take a bound on the depth of their calls, which a constructor of the
  error type reports when it is used up; two for each character of the script is always enough.
\<close>

section \<open>Characters and tokens\<close>

datatype parse_error =
    UnknownCommand string
  | UnknownTest string
  | UnknownTag string
  | ExpectedChar string "string option"
  | ExpectedStringOrList
  | ExpectedString
  | UnterminatedString
  | ExpectedNumber
  | InvalidNumber
  | ExpectedTag
  | EmptyTag
  | ExpectedWord
  | ExpectedOverOrUnder string
  | OutOfDepth

type_synonym 'a sieve_parser = "string list \<Rightarrow> parse_error + 'a \<times> string list"

definition word_char :: "(string \<Rightarrow> bool) \<Rightarrow> string \<Rightarrow> bool" where
  "word_char uni ch \<longleftrightarrow>
     (case ch of [c] \<Rightarrow> if code_of c < 128 then is_ascii_alphanumeric c \<or> ch = ''_'' \<or> ch = ''-'' else uni ch
      | _ \<Rightarrow> uni ch)"

fun skip_whitespace :: "string list \<Rightarrow> string list"
  and skip_comment :: "string list \<Rightarrow> string list" where
  "skip_whitespace [] = []"
| "skip_whitespace (c # cs) =
     (if is_whitespace c then skip_whitespace cs
      else if c = ''#'' then skip_comment cs
      else c # cs)"
| "skip_comment [] = []"
| "skip_comment (c # cs) = (if c = [CHR 0x0A] then skip_whitespace cs else skip_comment cs)"

definition peek_char :: "string list \<Rightarrow> string option" where
  "peek_char cs = (case cs of [] \<Rightarrow> None | c # _ \<Rightarrow> Some c)"

definition sv_bind :: "parse_error + 'a \<times> string list \<Rightarrow> ('a \<Rightarrow> string list \<Rightarrow> parse_error + 'b) \<Rightarrow> parse_error + 'b" where
  "sv_bind r f = (case r of Inl e \<Rightarrow> Inl e | Inr (x, cs) \<Rightarrow> f x cs)"

definition sv_expect :: "string \<Rightarrow> unit sieve_parser" where
  "sv_expect ch cs =
     (case skip_whitespace cs of
        c # rest \<Rightarrow> if c = ch then Inr ((), rest) else Inl (ExpectedChar ch (Some c))
      | [] \<Rightarrow> Inl (ExpectedChar ch None))"

definition parse_word :: "(string \<Rightarrow> bool) \<Rightarrow> string sieve_parser" where
  "parse_word uni cs =
     (let cs' = skip_whitespace cs; w = takeWhile (word_char uni) cs' in
      if w = [] then Inl ExpectedWord else Inr (concat w, dropWhile (word_char uni) cs'))"

definition peek_word :: "(string \<Rightarrow> bool) \<Rightarrow> string list \<Rightarrow> string option" where
  "peek_word uni cs = (case parse_word uni cs of Inl _ \<Rightarrow> None | Inr (w, _) \<Rightarrow> Some w)"

definition parse_tag :: "(string \<Rightarrow> bool) \<Rightarrow> string sieve_parser" where
  "parse_tag uni cs =
     (case skip_whitespace cs of
        c # cs' \<Rightarrow>
          if c \<noteq> '':'' then Inl ExpectedTag
          else
            let t = takeWhile (word_char uni) cs' in
            if t = [] then Inl EmptyTag else Inr ('':'' @ concat t, dropWhile (word_char uni) cs')
      | [] \<Rightarrow> Inl ExpectedTag)"

fun string_loop :: "bool \<Rightarrow> string \<Rightarrow> string sieve_parser" where
  "string_loop escaped acc [] = Inl UnterminatedString"
| "string_loop escaped acc (c # cs) =
     (if escaped then string_loop False (acc @ c) cs
      else if c = [CHR 0x5C] then string_loop True acc cs
      else if c = [CHR 0x22] then Inr (acc, cs)
      else string_loop False (acc @ c) cs)"

definition parse_string :: "string sieve_parser" where
  "parse_string cs =
     (case skip_whitespace cs of
        c # cs' \<Rightarrow> if c = [CHR 0x22] then string_loop False [] cs' else Inl ExpectedString
      | [] \<Rightarrow> Inl ExpectedString)"

definition digit_string :: "string \<Rightarrow> bool" where
  "digit_string ch \<longleftrightarrow> (case ch of [c] \<Rightarrow> is_ascii_digit c | _ \<Rightarrow> False)"

definition i64_of_digits :: "string \<Rightarrow> parse_error + 64 word" where
  "i64_of_digits ds =
     (if digits_val ds < 2 ^ 63 then Inr (word_of_nat (digits_val ds)) else Inl InvalidNumber)"

definition parse_number :: "64 word sieve_parser" where
  "parse_number cs =
     (let cs' = skip_whitespace cs; ds = takeWhile digit_string cs'; rest = dropWhile digit_string cs' in
      if ds = [] then Inl ExpectedNumber
      else
        let mult = (case peek_char rest of
                      Some c \<Rightarrow> if c = ''K'' then Some 1024 else if c = ''M'' then Some (1024 * 1024)
                                else if c = ''G'' then Some (1024 * 1024 * 1024) else None
                    | None \<Rightarrow> None) in
        case mult of
          Some k \<Rightarrow> rbind (i64_of_digits (concat ds)) (\<lambda>n. Inr (n * k, tl rest))
        | None \<Rightarrow> rbind (i64_of_digits (concat ds)) (\<lambda>n. Inr (n, rest)))"

fun string_list_loop :: "nat \<Rightarrow> string list sieve_parser" where
  "string_list_loop 0 cs = Inl OutOfDepth"
| "string_list_loop (Suc n) cs =
     (let cs1 = skip_whitespace cs in
      if peek_char cs1 = Some '']'' then Inr ([], cs1)
      else
        sv_bind (parse_string cs1) (\<lambda>s cs2.
          let cs3 = skip_whitespace cs2; cs4 = (if peek_char cs3 = Some '','' then tl cs3 else cs3) in
          sv_bind (string_list_loop n cs4) (\<lambda>ss cs5. Inr (s # ss, cs5))))"

definition parse_string_list :: "nat \<Rightarrow> string list sieve_parser" where
  "parse_string_list n cs =
     sv_bind (sv_expect ''['' cs) (\<lambda>_ cs1.
     sv_bind (string_list_loop n cs1) (\<lambda>ss cs2.
     sv_bind (sv_expect '']'' cs2) (\<lambda>_ cs3. Inr (ss, cs3))))"

definition parse_string_or_list :: "nat \<Rightarrow> string list sieve_parser" where
  "parse_string_or_list n cs =
     (let cs1 = skip_whitespace cs in
      if peek_char cs1 = Some [CHR 0x22] then sv_bind (parse_string cs1) (\<lambda>s cs2. Inr ([s], cs2))
      else if peek_char cs1 = Some ''['' then parse_string_list n cs1
      else Inl ExpectedStringOrList)"

section \<open>Tests\<close>

definition match_tags :: "string list" where
  "match_tags = ['':is'', '':contains'', '':matches'']"

text \<open>The loop over the tags; \<open>strict\<close> for the header test, which refuses unknown tags.\<close>

fun match_tag_loop ::
    "(string \<Rightarrow> bool) \<Rightarrow> bool \<Rightarrow> nat \<Rightarrow> string option \<Rightarrow> string \<Rightarrow> (string option \<times> string) sieve_parser" where
  "match_tag_loop uni strict 0 cmpr mt cs = Inl OutOfDepth"
| "match_tag_loop uni strict (Suc n) cmpr mt cs =
     (if peek_char cs \<noteq> Some '':'' then Inr ((cmpr, mt), cs)
      else
        sv_bind (parse_tag uni cs) (\<lambda>tag cs1.
          let cs2 = skip_whitespace cs1 in
          if tag = '':comparator'' then
            sv_bind (parse_string cs2) (\<lambda>s cs3. match_tag_loop uni strict n (Some s) mt (skip_whitespace cs3))
          else if tag \<in> set match_tags then match_tag_loop uni strict n cmpr (tl tag) cs2
          else if strict then Inl (UnknownTag tag)
          else match_tag_loop uni strict n cmpr mt cs2))"

definition parse_match_test ::
    "(string \<Rightarrow> bool) \<Rightarrow> bool \<Rightarrow> (string option \<Rightarrow> string \<Rightarrow> string list \<Rightarrow> string list \<Rightarrow> sieve_test) \<Rightarrow> nat \<Rightarrow>
     sieve_test sieve_parser" where
  "parse_match_test uni strict mk n cs =
     sv_bind (match_tag_loop uni strict n None ''is'' (skip_whitespace cs)) (\<lambda>cm cs1.
     sv_bind (parse_string_or_list n cs1) (\<lambda>hs cs2.
     sv_bind (parse_string_or_list n (skip_whitespace cs2)) (\<lambda>ks cs3.
       Inr (mk (fst cm) (snd cm) hs ks, cs3))))"

definition parse_size_test :: "(string \<Rightarrow> bool) \<Rightarrow> sieve_test sieve_parser" where
  "parse_size_test uni cs =
     sv_bind (parse_tag uni (skip_whitespace cs)) (\<lambda>tag cs1.
       if tag \<noteq> '':over'' \<and> tag \<noteq> '':under'' then Inl (ExpectedOverOrUnder tag)
       else sv_bind (parse_number (skip_whitespace cs1)) (\<lambda>limit cs2. Inr (SizeTest (tag = '':over'') limit, cs2)))"

fun parse_test :: "(string \<Rightarrow> bool) \<Rightarrow> nat \<Rightarrow> sieve_test sieve_parser"
  and test_list_loop :: "(string \<Rightarrow> bool) \<Rightarrow> nat \<Rightarrow> sieve_test list sieve_parser" where
  "parse_test uni 0 cs = Inl OutOfDepth"
| "parse_test uni (Suc n) cs =
     sv_bind (parse_word uni (skip_whitespace cs)) (\<lambda>w cs1.
       if w = ''true'' then Inr (TrueTest, cs1)
       else if w = ''false'' then Inr (FalseTest, cs1)
       else if w = ''header'' then parse_match_test uni True HeaderTest n cs1
       else if w = ''address'' then parse_match_test uni False AddressTest n cs1
       else if w = ''envelope'' then parse_match_test uni False EnvelopeTest n cs1
       else if w = ''exists'' then
         sv_bind (parse_string_or_list n (skip_whitespace cs1)) (\<lambda>hs cs2. Inr (ExistsTest hs, cs2))
       else if w = ''size'' then parse_size_test uni cs1
       else if w = ''allof'' then
         sv_bind (sv_expect ''('' (skip_whitespace cs1)) (\<lambda>_ cs2.
         sv_bind (test_list_loop uni n cs2) (\<lambda>ts cs3.
         sv_bind (sv_expect '')'' cs3) (\<lambda>_ cs4. Inr (AllOf ts, cs4))))
       else if w = ''anyof'' then
         sv_bind (sv_expect ''('' (skip_whitespace cs1)) (\<lambda>_ cs2.
         sv_bind (test_list_loop uni n cs2) (\<lambda>ts cs3.
         sv_bind (sv_expect '')'' cs3) (\<lambda>_ cs4. Inr (AnyOf ts, cs4))))
       else if w = ''not'' then
         sv_bind (parse_test uni n (skip_whitespace cs1)) (\<lambda>t cs2. Inr (NotTest t, cs2))
       else Inl (UnknownTest w))"
| "test_list_loop uni 0 cs = Inl OutOfDepth"
| "test_list_loop uni (Suc n) cs =
     (let cs1 = skip_whitespace cs in
      if peek_char cs1 = Some '')'' then Inr ([], cs1)
      else
        sv_bind (parse_test uni n cs1) (\<lambda>t cs2.
          let cs3 = skip_whitespace cs2; cs4 = (if peek_char cs3 = Some '','' then tl cs3 else cs3) in
          sv_bind (test_list_loop uni n cs4) (\<lambda>ts cs5. Inr (t # ts, cs5))))"

section \<open>Commands\<close>

definition parse_require :: "nat \<Rightarrow> sieve_command sieve_parser" where
  "parse_require n cs =
     sv_bind (parse_string_or_list n cs) (\<lambda>exts cs1.
     sv_bind (sv_expect '';'' cs1) (\<lambda>_ cs2. Inr (RequireCmd exts, cs2)))"

definition parse_one_string :: "(string \<Rightarrow> sieve_command) \<Rightarrow> sieve_command sieve_parser" where
  "parse_one_string mk cs =
     sv_bind (parse_string (skip_whitespace cs)) (\<lambda>s cs1.
     sv_bind (sv_expect '';'' cs1) (\<lambda>_ cs2. Inr (mk s, cs2)))"

definition parse_set :: "sieve_command sieve_parser" where
  "parse_set cs =
     sv_bind (parse_string (skip_whitespace cs)) (\<lambda>name cs1.
     sv_bind (parse_string (skip_whitespace cs1)) (\<lambda>val cs2.
     sv_bind (sv_expect '';'' cs2) (\<lambda>_ cs3. Inr (SetCmd name val, cs3))))"

record vacation_tags =
  vt_days :: "64 word option"
  vt_subject :: "string option"
  vt_from :: "string option"
  vt_addresses :: "string list"

fun vacation_loop :: "(string \<Rightarrow> bool) \<Rightarrow> nat \<Rightarrow> vacation_tags \<Rightarrow> vacation_tags sieve_parser" where
  "vacation_loop uni 0 vt cs = Inl OutOfDepth"
| "vacation_loop uni (Suc n) vt cs =
     (if peek_char cs \<noteq> Some '':'' then Inr (vt, cs)
      else
        sv_bind (parse_tag uni cs) (\<lambda>tag cs1.
          let cs2 = skip_whitespace cs1 in
          if tag = '':days'' then
            sv_bind (parse_number cs2) (\<lambda>d cs3. vacation_loop uni n (vt\<lparr>vt_days := Some d\<rparr>) (skip_whitespace cs3))
          else if tag = '':subject'' then
            sv_bind (parse_string cs2) (\<lambda>s cs3. vacation_loop uni n (vt\<lparr>vt_subject := Some s\<rparr>) (skip_whitespace cs3))
          else if tag = '':from'' then
            sv_bind (parse_string cs2) (\<lambda>s cs3. vacation_loop uni n (vt\<lparr>vt_from := Some s\<rparr>) (skip_whitespace cs3))
          else if tag = '':addresses'' then
            sv_bind (parse_string_list n cs2) (\<lambda>ss cs3. vacation_loop uni n (vt\<lparr>vt_addresses := ss\<rparr>) (skip_whitespace cs3))
          else Inl (UnknownTag tag)))"

definition parse_vacation :: "(string \<Rightarrow> bool) \<Rightarrow> nat \<Rightarrow> sieve_command sieve_parser" where
  "parse_vacation uni n cs =
     sv_bind (vacation_loop uni n \<lparr>vt_days = None, vt_subject = None, vt_from = None, vt_addresses = []\<rparr>
                (skip_whitespace cs)) (\<lambda>vt cs1.
     sv_bind (parse_string cs1) (\<lambda>msg cs2.
     sv_bind (sv_expect '';'' cs2) (\<lambda>_ cs3.
       Inr (VacationCmd (vt_days vt) (vt_subject vt) (vt_from vt) (vt_addresses vt) msg, cs3))))"

definition parse_simple :: "sieve_command \<Rightarrow> sieve_command sieve_parser" where
  "parse_simple c cs = sv_bind (sv_expect '';'' cs) (\<lambda>_ cs1. Inr (c, cs1))"

fun sieve_parse_command :: "(string \<Rightarrow> bool) \<Rightarrow> nat \<Rightarrow> sieve_command sieve_parser"
  and block_loop :: "(string \<Rightarrow> bool) \<Rightarrow> nat \<Rightarrow> sieve_command list sieve_parser"
  and elsif_loop ::
    "(string \<Rightarrow> bool) \<Rightarrow> nat \<Rightarrow> ((sieve_test \<times> sieve_command list) list \<times> sieve_command list option) sieve_parser" where
  "sieve_parse_command uni 0 cs = Inl OutOfDepth"
| "sieve_parse_command uni (Suc n) cs =
     sv_bind (parse_word uni (skip_whitespace cs)) (\<lambda>w cs1.
       if w = ''require'' then parse_require n cs1
       else if w = ''if'' then
         sv_bind (parse_test uni n (skip_whitespace cs1)) (\<lambda>t cs2.
         sv_bind (sv_expect ''{'' (skip_whitespace cs2)) (\<lambda>_ cs3.
         sv_bind (block_loop uni n cs3) (\<lambda>then_commands cs4.
         sv_bind (sv_expect ''}'' cs4) (\<lambda>_ cs5.
         sv_bind (elsif_loop uni n cs5) (\<lambda>eb cs6.
           Inr (IfCmd t then_commands (fst eb) (snd eb), cs6))))))
       else if w = ''keep'' then parse_simple KeepCmd cs1
       else if w = ''discard'' then parse_simple DiscardCmd cs1
       else if w = ''stop'' then parse_simple StopCmd cs1
       else if w = ''fileinto'' then parse_one_string FileintoCmd cs1
       else if w = ''redirect'' then parse_one_string RedirectCmd cs1
       else if w = ''set'' then parse_set cs1
       else if w = ''vacation'' then parse_vacation uni n cs1
       else Inl (UnknownCommand w))"
| "block_loop uni 0 cs = Inl OutOfDepth"
| "block_loop uni (Suc n) cs =
     (let cs1 = skip_whitespace cs in
      if peek_char cs1 = Some ''}'' then Inr ([], cs1)
      else
        sv_bind (sieve_parse_command uni n cs1) (\<lambda>c cs2.
        sv_bind (block_loop uni n cs2) (\<lambda>cmds cs3. Inr (c # cmds, cs3))))"
| "elsif_loop uni 0 cs = Inl OutOfDepth"
| "elsif_loop uni (Suc n) cs =
     (let cs1 = skip_whitespace cs in
      if peek_word uni cs1 = Some ''elsif'' then
        sv_bind (parse_word uni cs1) (\<lambda>_ cs2.
        sv_bind (parse_test uni n (skip_whitespace cs2)) (\<lambda>t cs3.
        sv_bind (sv_expect ''{'' (skip_whitespace cs3)) (\<lambda>_ cs4.
        sv_bind (block_loop uni n cs4) (\<lambda>cmds cs5.
        sv_bind (sv_expect ''}'' cs5) (\<lambda>_ cs6.
        sv_bind (elsif_loop uni n cs6) (\<lambda>eb cs7. Inr (((t, cmds) # fst eb, snd eb), cs7)))))))
      else if peek_word uni cs1 = Some ''else'' then
        sv_bind (parse_word uni cs1) (\<lambda>_ cs2.
        sv_bind (sv_expect ''{'' (skip_whitespace cs2)) (\<lambda>_ cs3.
        sv_bind (block_loop uni n cs3) (\<lambda>cmds cs4.
        sv_bind (sv_expect ''}'' cs4) (\<lambda>_ cs5. Inr (([], Some cmds), cs5)))))
      else Inr (([], None), cs1))"

text \<open>The outer loop, for the condition \<^verbatim>\<open>pos < len\<close> on characters and bytes.\<close>

fun script_loop :: "(string \<Rightarrow> bool) \<Rightarrow> bool \<Rightarrow> nat \<Rightarrow> sieve_script \<Rightarrow> string list \<Rightarrow> parse_error + sieve_script" where
  "script_loop uni wide 0 sc cs = Inl OutOfDepth"
| "script_loop uni wide (Suc n) sc cs =
     (if cs = [] \<and> \<not> wide then Inr sc
      else sv_bind (sieve_parse_command uni n cs) (\<lambda>c cs1. script_loop uni wide n (add_command c sc) (skip_whitespace cs1)))"

definition sieve_parse :: "(string \<Rightarrow> bool) \<Rightarrow> string \<Rightarrow> parse_error + sieve_script" where
  "sieve_parse uni text =
     (let cs = utf8_chars text in
      script_loop uni (length cs < length text) (2 * length cs + 3) SieveScript_new (skip_whitespace cs))"

section \<open>Progress and depth\<close>

text \<open>A result that is no lack of depth and whose rest is shorter than \<open>L\<close>.\<close>

definition sane :: "nat \<Rightarrow> parse_error + 'a \<times> string list \<Rightarrow> bool" where
  "sane L res \<longleftrightarrow> res \<noteq> Inl OutOfDepth \<and> (\<forall>x r. res = Inr (x, r) \<longrightarrow> length r < L)"

lemma sane_Inr [simp]: "sane L (Inr (x, r)) \<longleftrightarrow> length r < L"
  by (simp add: sane_def)

lemma sane_Inl [simp]: "sane L (Inl e) \<longleftrightarrow> e \<noteq> OutOfDepth"
  by (simp add: sane_def)

lemma sane_bind:
  "sane L1 res \<Longrightarrow> (\<And>x r. res = Inr (x, r) \<Longrightarrow> length r < L1 \<Longrightarrow> sane L2 (f x r)) \<Longrightarrow> sane L2 (sv_bind res f)"
  by (cases res) (auto simp: sv_bind_def sane_def)

lemma sane_mono: "sane L res \<Longrightarrow> L \<le> L' \<Longrightarrow> sane L' res"
  by (auto simp: sane_def)

lemma length_skip: "length (skip_whitespace cs) \<le> length cs" "length (skip_comment cs) \<le> length cs"
  by (induction cs and cs rule: skip_whitespace_skip_comment.induct) auto

lemma skip_less: "length cs < L \<Longrightarrow> length (skip_whitespace cs) < L"
  using length_skip(1) [of cs] by simp

lemma length_dropWhile_less: "takeWhile P xs \<noteq> [] \<Longrightarrow> length (dropWhile P xs) < length xs"
  by (cases xs) (auto split: if_splits simp: le_imp_less_Suc length_dropWhile_le)

lemma sane_word: "length cs \<le> L \<Longrightarrow> sane L (parse_word uni cs)"
  using length_skip(1) [of cs] length_dropWhile_less [of "word_char uni" "skip_whitespace cs"]
  by (auto simp: parse_word_def Let_def)

lemma sane_expect: "length cs \<le> L \<Longrightarrow> sane L (sv_expect ch cs)"
  using length_skip(1) [of cs] by (auto simp: sv_expect_def split: list.split)

lemma sane_tag: "length cs \<le> L \<Longrightarrow> sane L (parse_tag uni cs)"
  using length_skip(1) [of cs] length_dropWhile_le [of "word_char uni" "tl (skip_whitespace cs)"]
  by (auto simp: parse_tag_def Let_def split: list.split)

lemma sane_string_loop: "length cs \<le> L \<Longrightarrow> sane L (string_loop escaped acc cs)"
  by (induction escaped acc cs rule: string_loop.induct) auto

lemma sane_string: "length cs \<le> L \<Longrightarrow> sane L (parse_string cs)"
  using length_skip(1) [of cs] by (auto simp: parse_string_def sane_string_loop split: list.split)

lemma sane_number: "length cs \<le> L \<Longrightarrow> sane L (parse_number cs)"
  using length_skip(1) [of cs] length_dropWhile_less [of digit_string "skip_whitespace cs"]
  by (auto simp: parse_number_def i64_of_digits_def rbind_def Let_def split: option.split sum.split)

lemma length_comma: "length (if peek_char cs = Some '','' then tl cs else cs) \<le> length cs"
  by simp

lemma sane_string_list_loop: "length cs < n \<Longrightarrow> length cs < L \<Longrightarrow> sane L (string_list_loop n cs)"
proof (induction n arbitrary: cs L)
  case (Suc n)
  let ?cs1 = "skip_whitespace cs"
  have le: "length ?cs1 \<le> length cs" by (rule length_skip)
  show ?case
  proof (cases "peek_char ?cs1 = Some '']''")
    case True
    with le Suc.prems show ?thesis by simp
  next
    case False
    have "sane L (sv_bind (parse_string ?cs1) (\<lambda>s cs2.
        let cs3 = skip_whitespace cs2; cs4 = (if peek_char cs3 = Some '','' then tl cs3 else cs3) in
        sv_bind (string_list_loop n cs4) (\<lambda>ss cs5. Inr (s # ss, cs5))))"
    proof (rule sane_bind [OF sane_string [OF le]])
      fix s and cs2 :: "string list" assume "length cs2 < length cs"
      then have shorter: "length (if peek_char (skip_whitespace cs2) = Some '','' then tl (skip_whitespace cs2) else skip_whitespace cs2) < length cs"
        using length_skip(1) [of cs2] length_comma [of "skip_whitespace cs2"] by linarith
      show "sane L (let cs3 = skip_whitespace cs2; cs4 = (if peek_char cs3 = Some '','' then tl cs3 else cs3) in
          sv_bind (string_list_loop n cs4) (\<lambda>ss cs5. Inr (s # ss, cs5)))"
        unfolding Let_def
        by (rule sane_bind [OF Suc.IH [where L = L]]) (use shorter Suc.prems in simp_all)
    qed
    with False show ?thesis by simp
  qed
qed simp

lemma sane_string_list: "length cs < n \<Longrightarrow> length cs \<le> L \<Longrightarrow> sane L (parse_string_list n cs)"
  unfolding parse_string_list_def
  by (rule sane_bind [OF sane_expect [OF order_refl]], rule sane_bind [OF sane_string_list_loop [where L = "length cs"]],
      simp, simp, rule sane_bind [OF sane_expect [OF order_refl]]) simp

lemma sane_string_or_list: "length cs < n \<Longrightarrow> length cs \<le> L \<Longrightarrow> sane L (parse_string_or_list n cs)"
  using length_skip(1) [of cs]
  by (auto simp: parse_string_or_list_def Let_def intro!: sane_string_list sane_bind [OF sane_string [OF order_refl]])

lemma sane_match_tag_loop: "length cs < n \<Longrightarrow> length cs < L \<Longrightarrow> sane L (match_tag_loop uni strict n cmpr mt cs)"
proof (induction n arbitrary: cs cmpr mt L)
  case (Suc n)
  show ?case
  proof (cases "peek_char cs = Some '':''")
    case True
    have "sane L (sv_bind (parse_tag uni cs) (\<lambda>tag cs1.
        let cs2 = skip_whitespace cs1 in
        if tag = '':comparator'' then
          sv_bind (parse_string cs2) (\<lambda>s cs3. match_tag_loop uni strict n (Some s) mt (skip_whitespace cs3))
        else if tag \<in> set match_tags then match_tag_loop uni strict n cmpr (tl tag) cs2
        else if strict then Inl (UnknownTag tag)
        else match_tag_loop uni strict n cmpr mt cs2))"
    proof (rule sane_bind [OF sane_tag [OF order_refl]])
      fix tag and cs1 :: "string list"
      assume "length cs1 < length cs"
      then have le: "length (skip_whitespace cs1) < n" "length (skip_whitespace cs1) < L"
        using length_skip(1) [of cs1] Suc.prems by simp_all
      have "sane L (sv_bind (parse_string (skip_whitespace cs1))
          (\<lambda>s cs3. match_tag_loop uni strict n (Some s) mt (skip_whitespace cs3)))"
        by (rule sane_bind [OF sane_string [OF order_refl]], rule Suc.IH) (use le in \<open>auto intro!: skip_less\<close>)
      with le Suc.IH show "sane L (let cs2 = skip_whitespace cs1 in
          if tag = '':comparator'' then
            sv_bind (parse_string cs2) (\<lambda>s cs3. match_tag_loop uni strict n (Some s) mt (skip_whitespace cs3))
          else if tag \<in> set match_tags then match_tag_loop uni strict n cmpr (tl tag) cs2
          else if strict then Inl (UnknownTag tag)
          else match_tag_loop uni strict n cmpr mt cs2)"
        by (cases strict) (simp_all add: Let_def)
    qed
    with True show ?thesis by simp
  qed (use Suc.prems in simp)
qed simp

lemma skip_le: "length cs \<le> L \<Longrightarrow> length (skip_whitespace cs) \<le> L"
  using length_skip(1) [of cs] by simp

lemma sane_match_test:
  assumes "length cs < n" "length cs < L"
  shows "sane L (parse_match_test uni strict mk n cs)"
  unfolding parse_match_test_def
proof (rule sane_bind)
  show "sane (Suc (length cs)) (match_tag_loop uni strict n None ''is'' (skip_whitespace cs))"
    by (rule sane_match_tag_loop) (use assms in \<open>auto intro: skip_less\<close>)
next
  fix cm and cs1 :: "string list" assume cs1: "length cs1 < Suc (length cs)"
  show "sane L (sv_bind (parse_string_or_list n cs1) (\<lambda>hs cs2.
      sv_bind (parse_string_or_list n (skip_whitespace cs2)) (\<lambda>ks cs3. Inr (mk (fst cm) (snd cm) hs ks, cs3))))"
    by (rule sane_bind [OF sane_string_or_list [where L = "length cs"]], use cs1 assms in simp, use cs1 in simp,
        rule sane_bind [OF sane_string_or_list [where L = "length cs"]])
      (use assms in \<open>auto intro: skip_less skip_le\<close>)
qed

lemma sane_size_test: "length cs \<le> L \<Longrightarrow> sane L (parse_size_test uni cs)"
  unfolding parse_size_test_def
  by (rule sane_bind [OF sane_tag [OF length_skip(1)]])
    (auto intro!: sane_bind [OF sane_number [OF length_skip(1)]])

lemma sane_group:
  assumes "length cs \<le> L" "\<And>cs. length cs < L \<Longrightarrow> sane L (body cs)"
  shows "sane L (sv_bind (sv_expect a (skip_whitespace cs)) (\<lambda>_ cs2.
     sv_bind (body cs2) (\<lambda>x cs3. sv_bind (sv_expect b cs3) (\<lambda>_ cs4. Inr (f x, cs4)))))"
  by (rule sane_bind [OF sane_expect [where L = L]], use assms(1) in \<open>simp add: skip_le\<close>,
      rule sane_bind [OF assms(2)], simp, rule sane_bind [OF sane_expect [where L = L]]) simp_all

lemma sane_tests:
  "2 * length cs < n \<Longrightarrow> sane (length cs) (parse_test uni n cs)"
  "2 * length cs + 1 < n \<Longrightarrow> sane (Suc (length cs)) (test_list_loop uni n cs)"
proof (induction uni n cs and uni n cs rule: parse_test_test_list_loop.induct)
  case (2 uni n cs)
  let ?L = "length cs"
  have nested: "sane ?L (parse_test uni n (skip_whitespace r))" "sane ?L (test_list_loop uni n r)"
    if "length r < ?L" for r
  proof -
    have "sane (length (skip_whitespace r)) (parse_test uni n (skip_whitespace r))"
      using 2 that length_skip(1) [of r] by simp
    then show "sane ?L (parse_test uni n (skip_whitespace r))"
      by (rule sane_mono) (use that length_skip(1) [of r] in simp)
    have "sane (Suc (length r)) (test_list_loop uni n r)" using 2 that by simp
    then show "sane ?L (test_list_loop uni n r)" by (rule sane_mono) (use that in simp)
  qed
  show ?case
  proof (simp only: parse_test.simps, rule sane_bind [OF sane_word [OF length_skip(1)]], goal_cases)
    case (1 w r)
    then have r: "length r < ?L" "length r < n" using "2.prems" by simp_all
    have "sane ?L (parse_match_test uni st mk n r)" for st mk by (rule sane_match_test) (use r in simp_all)
    moreover have "sane ?L (sv_bind (parse_string_or_list n (skip_whitespace r)) (\<lambda>hs cs2. Inr (ExistsTest hs, cs2)))"
      by (rule sane_bind [OF sane_string_or_list [where L = ?L]]) (use r in \<open>auto intro: skip_less skip_le\<close>)
    moreover have "sane ?L (parse_size_test uni r)" by (rule sane_size_test) (use r in simp)
    moreover have "sane ?L (sv_bind (sv_expect ''('' (skip_whitespace r)) (\<lambda>_ cs2.
         sv_bind (test_list_loop uni n cs2) (\<lambda>ts cs3. sv_bind (sv_expect '')'' cs3) (\<lambda>_ cs4. Inr (f ts, cs4)))))"
      for f :: "sieve_test list \<Rightarrow> sieve_test"
      by (rule sane_group) (use r nested(2) in simp_all)
    moreover have "sane ?L (sv_bind (parse_test uni n (skip_whitespace r)) (\<lambda>t cs2. Inr (NotTest t, cs2)))"
      by (rule sane_bind [OF nested(1) [OF r(1)]]) simp
    ultimately show ?case using r by simp
  qed
next
  case (4 uni n cs)
  let ?cs1 = "skip_whitespace cs"
  have le: "length ?cs1 \<le> length cs" by (rule length_skip)
  show ?case
  proof (cases "peek_char ?cs1 = Some '')''")
    case True
    with le show ?thesis by simp
  next
    case False
    have test: "sane (length cs) (parse_test uni n ?cs1)"
      by (rule sane_mono [OF 4(1) [OF refl False]]) (use 4 le in simp_all)
    have "sane (Suc (length cs)) (sv_bind (parse_test uni n ?cs1) (\<lambda>t cs2.
        let cs3 = skip_whitespace cs2; cs4 = (if peek_char cs3 = Some '','' then tl cs3 else cs3) in
        sv_bind (test_list_loop uni n cs4) (\<lambda>ts cs5. Inr (t # ts, cs5))))"
    proof (rule sane_bind [OF test])
      fix t and cs2 :: "string list" assume "length cs2 < length cs"
      let ?cs4 = "if peek_char (skip_whitespace cs2) = Some '','' then tl (skip_whitespace cs2) else skip_whitespace cs2"
      have len: "length ?cs4 < length cs"
        using \<open>length cs2 < length cs\<close> length_skip(1) [of cs2] length_comma [of "skip_whitespace cs2"] by linarith
      have "sane (Suc (length ?cs4)) (test_list_loop uni n ?cs4)"
        by (rule 4(2) [OF refl False refl refl]) (use len 4 in linarith)
      then show "sane (Suc (length cs)) (let cs3 = skip_whitespace cs2; cs4 = (if peek_char cs3 = Some '','' then tl cs3 else cs3) in
          sv_bind (test_list_loop uni n cs4) (\<lambda>ts cs5. Inr (t # ts, cs5)))"
        unfolding Let_def by (rule sane_bind) (use len in simp)
    qed
    with False show ?thesis by simp
  qed
qed simp_all

lemma sane_vacation_loop: "length cs < n \<Longrightarrow> length cs < L \<Longrightarrow> sane L (vacation_loop uni n vt cs)"
proof (induction n arbitrary: cs vt L)
  case (Suc n)
  show ?case
  proof (cases "peek_char cs = Some '':''")
    case True
    have "sane L (vacation_loop uni (Suc n) vt cs)"
      unfolding vacation_loop.simps using True
    proof (simp only: not_True_eq_False if_False simp_thms, intro sane_bind [OF sane_tag [OF order_refl]], goal_cases)
      case (1 tag cs1)
      have len: "length (skip_whitespace cs1) < n" "length (skip_whitespace cs1) < L"
        using 1 Suc.prems length_skip(1) [of cs1] by simp_all
      have step: "sane L (vacation_loop uni n vt' (skip_whitespace cs3))"
        if "length cs3 < length (skip_whitespace cs1)" for vt' cs3
        by (rule Suc.IH) (use that len in \<open>auto intro!: skip_less\<close>)
      have "sane L (sv_bind (parse_number (skip_whitespace cs1))
          (\<lambda>d cs3. vacation_loop uni n (vt\<lparr>vt_days := Some d\<rparr>) (skip_whitespace cs3)))"
        by (rule sane_bind [OF sane_number [OF order_refl] step])
      moreover have "sane L (sv_bind (parse_string (skip_whitespace cs1)) (\<lambda>x cs3. vacation_loop uni n (g x) (skip_whitespace cs3)))" for g
        by (rule sane_bind [OF sane_string [OF order_refl] step])
      moreover have "sane L (sv_bind (parse_string_list n (skip_whitespace cs1))
          (\<lambda>ss cs3. vacation_loop uni n (vt\<lparr>vt_addresses := ss\<rparr>) (skip_whitespace cs3)))"
        by (rule sane_bind [OF sane_string_list [OF len(1) order_refl] step])
      ultimately show ?case by (simp add: Let_def)
    qed
    then show ?thesis .
  qed (use Suc.prems in simp)
qed simp

lemma sane_vacation: "length cs < n \<Longrightarrow> length cs < L \<Longrightarrow> sane L (parse_vacation uni n cs)"
  unfolding parse_vacation_def
  by (rule sane_bind [OF sane_vacation_loop [where L = L]], erule skip_less, erule skip_less,
      rule sane_bind [OF sane_string [where L = L]], simp,
      rule sane_bind [OF sane_expect [where L = L]]) simp_all

lemma sane_simple:
  "length cs \<le> L \<Longrightarrow> sane L (parse_simple c cs)"
  "length cs \<le> L \<Longrightarrow> sane L (parse_one_string mk cs)"
  "length cs \<le> L \<Longrightarrow> sane L (parse_set cs)"
  "length cs < n \<Longrightarrow> length cs \<le> L \<Longrightarrow> sane L (parse_require n cs)"
  by (auto simp: parse_simple_def parse_one_string_def parse_set_def parse_require_def skip_le
      intro!: sane_bind [OF sane_expect [where L = L]] sane_bind [OF sane_string [where L = L]]
        sane_bind [OF sane_string_or_list [where L = L]])

lemma sane_block:
  assumes "length cs \<le> L" "\<And>cs. length cs < L \<Longrightarrow> sane L (body cs)" "\<And>x cs. length cs < L \<Longrightarrow> sane L2 (rest x cs)"
  shows "sane L2 (sv_bind (sv_expect ''{'' (skip_whitespace cs)) (\<lambda>_ cs2.
     sv_bind (body cs2) (\<lambda>x cs3. sv_bind (sv_expect ''}'' cs3) (\<lambda>_ cs4. rest x cs4))))"
  by (rule sane_bind [OF sane_expect [where L = L]], use assms(1) in \<open>simp add: skip_le\<close>,
      rule sane_bind [OF assms(2)], simp, rule sane_bind [OF sane_expect [where L = L]]) (simp_all add: assms(3))

lemma sane_commands:
  "2 * length cs < n \<Longrightarrow> sane (length cs) (sieve_parse_command uni n cs)"
  "2 * length cs + 1 < n \<Longrightarrow> sane (Suc (length cs)) (block_loop uni n cs)"
  "2 * length cs + 1 < n \<Longrightarrow> sane (Suc (length cs)) (elsif_loop uni n cs)"
proof (induction uni n cs and uni n cs and uni n cs rule: sieve_parse_command_block_loop_elsif_loop.induct)
  case (2 uni n cs)
  let ?L = "length cs"
  have test: "sane ?L (parse_test uni n (skip_whitespace r))" if "length r < ?L" for r
    by (rule sane_mono [OF sane_tests(1)]) (use that 2 length_skip(1) [of r] in simp_all)
  have block: "sane ?L (block_loop uni n r)" "sane ?L (elsif_loop uni n r)" if "length r < ?L" for r
  proof -
    have "sane (Suc (length r)) (block_loop uni n r)" "sane (Suc (length r)) (elsif_loop uni n r)"
      using 2 that by simp_all
    then show "sane ?L (block_loop uni n r)" "sane ?L (elsif_loop uni n r)"
      using that by (auto elim: sane_mono)
  qed
  show ?case
  proof (simp only: sieve_parse_command.simps, rule sane_bind [OF sane_word [OF length_skip(1)]], goal_cases)
    case (1 w r)
    then have r: "length r < ?L" "length r < n" using "2.prems" by simp_all
    have "sane ?L (sv_bind (parse_test uni n (skip_whitespace r)) (\<lambda>t cs2.
         sv_bind (sv_expect ''{'' (skip_whitespace cs2)) (\<lambda>_ cs3.
         sv_bind (block_loop uni n cs3) (\<lambda>then_commands cs4.
         sv_bind (sv_expect ''}'' cs4) (\<lambda>_ cs5.
         sv_bind (elsif_loop uni n cs5) (\<lambda>eb cs6.
           Inr (IfCmd t then_commands (fst eb) (snd eb), cs6)))))))"
      by (rule sane_bind [OF test [OF r(1)]], rule sane_block [where L = ?L])
        (auto intro: block sane_bind [OF block(2)])
    then show ?case
      using r by (simp add: sane_simple sane_vacation)
  qed
next
  case (4 uni n cs)
  let ?cs1 = "skip_whitespace cs"
  have le: "length ?cs1 \<le> length cs" by (rule length_skip)
  show ?case
  proof (cases "peek_char ?cs1 = Some ''}''")
    case False
    have cmd: "sane (length cs) (sieve_parse_command uni n ?cs1)"
      by (rule sane_mono [OF 4(1) [OF refl False]]) (use 4 le in simp_all)
    have "sane (Suc (length cs)) (sv_bind (sieve_parse_command uni n ?cs1) (\<lambda>c cs2.
        sv_bind (block_loop uni n cs2) (\<lambda>cmds cs3. Inr (c # cmds, cs3))))"
    proof (rule sane_bind [OF cmd])
      fix c and cs2 :: "string list" assume len: "length cs2 < length cs"
      have "sane (Suc (length cs2)) (block_loop uni n cs2)"
        by (rule 4(2) [OF refl False]) (use len 4 in linarith)
      then show "sane (Suc (length cs)) (sv_bind (block_loop uni n cs2) (\<lambda>cmds cs3. Inr (c # cmds, cs3)))"
        by (rule sane_bind) (use len in simp)
    qed
    with False show ?thesis by simp
  qed (use le in simp)
next
  case (6 uni n cs)
  let ?cs1 = "skip_whitespace cs" and ?L = "length cs"
  have le: "length ?cs1 \<le> ?L" by (rule length_skip)
  have test: "sane ?L (parse_test uni n (skip_whitespace r))" if "length r < ?L" for r
    by (rule sane_mono [OF sane_tests(1)]) (use that 6 length_skip(1) [of r] in simp_all)
  have block: "sane ?L (block_loop uni n r)"
    if "length r < ?L" "peek_word uni ?cs1 = Some ''elsif'' \<or> peek_word uni ?cs1 = Some ''else''" for r
  proof -
    have "sane (Suc (length r)) (block_loop uni n r)" using 6 that by auto
    then show ?thesis by (rule sane_mono) (use that in simp)
  qed
  have loop: "sane (Suc ?L) (elsif_loop uni n r)" if "length r < ?L" "peek_word uni ?cs1 = Some ''elsif''" for r
  proof -
    have "sane (Suc (length r)) (elsif_loop uni n r)" using 6 that by auto
    then show ?thesis by (rule sane_mono) (use that in simp)
  qed
  have "sane (Suc ?L) (sv_bind (parse_word uni ?cs1) (\<lambda>_ cs2.
      sv_bind (parse_test uni n (skip_whitespace cs2)) (\<lambda>t cs3.
      sv_bind (sv_expect ''{'' (skip_whitespace cs3)) (\<lambda>_ cs4.
      sv_bind (block_loop uni n cs4) (\<lambda>cmds cs5.
      sv_bind (sv_expect ''}'' cs5) (\<lambda>_ cs6.
      sv_bind (elsif_loop uni n cs6) (\<lambda>eb cs7. Inr (((t, cmds) # fst eb, snd eb), cs7))))))))"
    if "peek_word uni ?cs1 = Some ''elsif''"
    by (rule sane_bind [OF sane_word [OF le]], rule sane_bind [OF test], assumption, rule sane_block [where L = ?L])
      (use that in \<open>auto intro: block sane_bind [OF loop]\<close>)
  moreover have "sane (Suc ?L) (sv_bind (parse_word uni ?cs1) (\<lambda>_ cs2.
      sv_bind (sv_expect ''{'' (skip_whitespace cs2)) (\<lambda>_ cs3.
      sv_bind (block_loop uni n cs3) (\<lambda>cmds cs4.
      sv_bind (sv_expect ''}'' cs4) (\<lambda>_ cs5. Inr (([] :: (sieve_test \<times> sieve_command list) list, Some cmds), cs5))))))"
    if "peek_word uni ?cs1 = Some ''else''"
    by (rule sane_bind [OF sane_word [OF le]], rule sane_block [where L = ?L]) (use that in \<open>auto intro: block\<close>)
  ultimately show ?case using le by (simp add: Let_def le_imp_less_Suc)
qed simp_all

lemma script_loop_depth: "2 * length cs + 1 < n \<Longrightarrow> script_loop uni wide n sc cs \<noteq> Inl OutOfDepth"
proof (induction n arbitrary: sc cs)
  case (Suc n)
  have cmd: "sane (length cs) (sieve_parse_command uni n cs)" by (rule sane_commands) (use Suc.prems in simp)
  show ?case
  proof (cases "sieve_parse_command uni n cs")
    case (Inl e)
    with cmd show ?thesis by (auto simp: sv_bind_def)
  next
    case (Inr x)
    obtain c r where x: "x = (c, r)" by (cases x)
    with cmd Inr have "length (skip_whitespace r) < length cs" by (auto intro: skip_less)
    with Suc.IH [of "skip_whitespace r"] Suc.prems Inr x show ?thesis by (simp add: sv_bind_def)
  qed
qed simp

text \<open>A script with a character of more than one byte never reaches the end of the outer loop.\<close>

lemma script_loop_wide: "script_loop uni True n sc cs \<noteq> Inr sc'"
proof (induction n arbitrary: sc cs)
  case (Suc n)
  then show ?case by (auto simp: sv_bind_def split: sum.split)
qed simp

section \<open>Results\<close>

text \<open>C36: \<^verbatim>\<open>SieveScript::parse\<close> terminates on every script text: the bound of two calls and three for each
  character is never used up.\<close>

theorem sieve_parse_total: "sieve_parse uni txt \<noteq> Inl OutOfDepth"
  unfolding sieve_parse_def Let_def
  by (rule script_loop_depth) (use length_skip(1) [of "utf8_chars txt"] in linarith)

text \<open>A script that has a character of more than one byte is rejected, whatever it says and wherever the
  character stands: the position counts characters, the loop compares it with a length in bytes.\<close>

theorem sieve_multibyte_rejected:
  "length (utf8_chars txt) < length txt \<Longrightarrow> \<exists>e. sieve_parse uni txt = Inl e"
  unfolding sieve_parse_def Let_def using script_loop_wide
  by (metis (full_types) old.sum.exhaust)

text \<open>A comment with an accented letter before a valid script.\<close>

theorem sieve_multibyte_rejected_witness:
  "\<exists>e. sieve_parse (\<lambda>_. False) ([CHR ''#'', CHR 0xC3, CHR 0xA9, CHR 0x0A] @ ''keep;'') = Inl e"
  by (rule sieve_multibyte_rejected) code_simp

end
