(* ===== verification/Sieve_Printer.thy ===== *)
theory Sieve_Printer
  imports Sieve_Parser
begin

text \<open>
  A printer for Sieve scripts and the proof that the parser of
  \<^verbatim>\<open>crates/rusmes-core/src/sieve/parser.rs\<close> reads back what it prints.
\<close>

declare skip_whitespace.simps(2) [simp del]

lemma not_whitespace [simp]:
  "\<not> is_whitespace '']''" "\<not> is_whitespace ''[''" "\<not> is_whitespace '',''" "\<not> is_whitespace '')''" "\<not> is_whitespace ''(''"
  "\<not> is_whitespace ''}''" "\<not> is_whitespace ''{''" "\<not> is_whitespace '';''" "\<not> is_whitespace '':''" "is_whitespace '' ''"
  by (simp_all add: is_whitespace_def ws_seqs_def)

lemma peek_char_Cons [simp]: "peek_char (c # cs) = Some c"
  by (simp add: peek_char_def)

section \<open>Printing scripts\<close>

abbreviation ch :: "string \<Rightarrow> string list" where
  "ch s \<equiv> map (\<lambda>c. [c]) s"

definition q_str :: "string \<Rightarrow> string" where
  "q_str s = [CHR 0x22] @ concat (map (\<lambda>c. if c = CHR 0x22 \<or> c = CHR 0x5C then [CHR 0x5C, c] else [c]) s) @ [CHR 0x22]"

definition q_list :: "string list \<Rightarrow> string" where
  "q_list ss = ''['' @ str_join '','' (map q_str ss) @ '']''"

definition pr_match :: "string option \<Rightarrow> string \<Rightarrow> string list \<Rightarrow> string list \<Rightarrow> string" where
  "pr_match cmpr mt hs ks =
     (case cmpr of None \<Rightarrow> [] | Some c \<Rightarrow> '' :comparator '' @ q_str c) @ '' :'' @ mt @ '' '' @ q_list hs @ '' '' @ q_list ks"

fun pr_test :: "sieve_test \<Rightarrow> string"
  and pr_tests :: "sieve_test list \<Rightarrow> string" where
  "pr_test TrueTest = ''true''"
| "pr_test FalseTest = ''false''"
| "pr_test (HeaderTest c mt hs ks) = ''header'' @ pr_match c mt hs ks"
| "pr_test (AddressTest c mt hs ks) = ''address'' @ pr_match c mt hs ks"
| "pr_test (EnvelopeTest c mt hs ks) = ''envelope'' @ pr_match c mt hs ks"
| "pr_test (ExistsTest hs) = ''exists '' @ q_list hs"
| "pr_test (SizeTest over limit) = ''size '' @ (if over then '':over '' else '':under '') @ show_nat (unat limit)"
| "pr_test (AllOf ts) = ''allof ('' @ pr_tests ts @ '')''"
| "pr_test (AnyOf ts) = ''anyof ('' @ pr_tests ts @ '')''"
| "pr_test (NotTest t) = ''not '' @ pr_test t"
| "pr_tests [] = []"
| "pr_tests (t # ts) = pr_test t @ (if ts = [] then [] else '','' @ pr_tests ts)"

definition pr_vacation :: "64 word option \<Rightarrow> string option \<Rightarrow> string option \<Rightarrow> string list \<Rightarrow> string \<Rightarrow> string" where
  "pr_vacation days subject from addresses msg =
     (case days of None \<Rightarrow> [] | Some d \<Rightarrow> '' :days '' @ show_nat (unat d)) @
     (case subject of None \<Rightarrow> [] | Some s \<Rightarrow> '' :subject '' @ q_str s) @
     (case from of None \<Rightarrow> [] | Some s \<Rightarrow> '' :from '' @ q_str s) @
     (if addresses = [] then [] else '' :addresses '' @ q_list addresses) @
     '' '' @ q_str msg @ '';''"

function pr_cmd :: "sieve_command \<Rightarrow> string"
  and pr_cmds :: "sieve_command list \<Rightarrow> string"
  and pr_elsifs :: "(sieve_test \<times> sieve_command list) list \<Rightarrow> sieve_command list option \<Rightarrow> string" where
  "pr_cmd KeepCmd = ''keep;''"
| "pr_cmd (FileintoCmd s) = ''fileinto '' @ q_str s @ '';''"
| "pr_cmd (RedirectCmd s) = ''redirect '' @ q_str s @ '';''"
| "pr_cmd DiscardCmd = ''discard;''"
| "pr_cmd StopCmd = ''stop;''"
| "pr_cmd (IfCmd t cs el els) = ''if '' @ pr_test t @ '' {'' @ pr_cmds cs @ ''}'' @ pr_elsifs el els"
| "pr_cmd (RequireCmd exts) = ''require '' @ q_list exts @ '';''"
| "pr_cmd (SetCmd n v) = ''set '' @ q_str n @ '' '' @ q_str v @ '';''"
| "pr_cmd (VacationCmd d s f as msg) = ''vacation'' @ pr_vacation d s f as msg"
| "pr_cmds [] = []"
| "pr_cmds (c # cs) = pr_cmd c @ pr_cmds cs"
| "pr_elsifs [] els = (case els of None \<Rightarrow> [] | Some cs \<Rightarrow> '' else {'' @ pr_cmds cs @ ''}'')"
| "pr_elsifs ((t, cs) # el) els = '' elsif '' @ pr_test t @ '' {'' @ pr_cmds cs @ ''}'' @ pr_elsifs el els"
  by pat_completeness auto
termination
  by (relation "measure (case_sum size (case_sum (size_list size)
        (\<lambda>(el, els). size_list (size_prod (\<lambda>_. 0) (size_list size)) el + size_option (size_list size) els)))") auto

text \<open>The scripts whose printed form is ASCII and in the language.\<close>

definition ascii_str :: "string \<Rightarrow> bool" where
  "ascii_str s \<longleftrightarrow> list_all (\<lambda>c. code_of c < 128) s"

fun wf_test :: "sieve_test \<Rightarrow> bool" where
  "wf_test (HeaderTest c mt hs ks) \<longleftrightarrow> mt \<in> {''is'', ''contains'', ''matches''} \<and> list_all ascii_str (hs @ ks @ (case c of None \<Rightarrow> [] | Some s \<Rightarrow> [s]))"
| "wf_test (AddressTest c mt hs ks) \<longleftrightarrow> mt \<in> {''is'', ''contains'', ''matches''} \<and> list_all ascii_str (hs @ ks @ (case c of None \<Rightarrow> [] | Some s \<Rightarrow> [s]))"
| "wf_test (EnvelopeTest c mt hs ks) \<longleftrightarrow> mt \<in> {''is'', ''contains'', ''matches''} \<and> list_all ascii_str (hs @ ks @ (case c of None \<Rightarrow> [] | Some s \<Rightarrow> [s]))"
| "wf_test (ExistsTest hs) \<longleftrightarrow> list_all ascii_str hs"
| "wf_test (SizeTest over limit) \<longleftrightarrow> unat limit < 2 ^ 63"
| "wf_test (AllOf ts) \<longleftrightarrow> list_all wf_test ts"
| "wf_test (AnyOf ts) \<longleftrightarrow> list_all wf_test ts"
| "wf_test (NotTest t) \<longleftrightarrow> wf_test t"
| "wf_test _ \<longleftrightarrow> True"

section \<open>Reading printed tokens\<close>

definition word_end :: "(string \<Rightarrow> bool) \<Rightarrow> string list \<Rightarrow> bool" where
  "word_end uni cs \<longleftrightarrow> (case cs of [] \<Rightarrow> True | c # _ \<Rightarrow> \<not> word_char uni c)"

definition solid :: "string list \<Rightarrow> bool" where
  "solid cs \<longleftrightarrow> (case cs of [] \<Rightarrow> True | c # _ \<Rightarrow> \<not> is_whitespace c \<and> c \<noteq> ''#'')"

lemma skip_solid [simp]: "solid cs \<Longrightarrow> skip_whitespace cs = cs"
  by (cases cs) (auto simp: solid_def skip_whitespace.simps(2))

lemma skip_space [simp]: "skip_whitespace ('' '' # cs) = skip_whitespace cs"
  by (simp add: skip_whitespace.simps(2))

definition ascii_word :: "string \<Rightarrow> bool" where
  "ascii_word w \<longleftrightarrow> w \<noteq> [] \<and> list_all (\<lambda>c. code_of c < 128 \<and> (is_ascii_alphanumeric c \<or> c = CHR ''_'' \<or> c = CHR ''-'')) w"

lemma word_char_ascii: "code_of c < 128 \<Longrightarrow> word_char uni [c] \<longleftrightarrow> is_ascii_alphanumeric c \<or> c = CHR ''_'' \<or> c = CHR ''-''"
  by (simp add: word_char_def)

lemma ascii_word_chars: "ascii_word w \<Longrightarrow> list_all (word_char uni) (ch w)"
  by (auto simp: ascii_word_def list_all_iff word_char_ascii)

lemma takeWhile_word: "list_all P xs \<Longrightarrow> (ys = [] \<or> \<not> P (hd ys)) \<Longrightarrow> takeWhile P (xs @ ys) = xs \<and> dropWhile P (xs @ ys) = ys"
  by (induction xs) (cases ys, auto)

lemma concat_ch [simp]: "concat (ch s) = s"
  by (induction s) simp_all

lemma word_no_space: "word_char uni [c] \<Longrightarrow> code_of c < 128 \<Longrightarrow> \<not> is_whitespace [c] \<and> [c] \<noteq> ''#''"
  by (auto simp: word_char_ascii is_whitespace_def ws_seqs_def is_ascii_alphanumeric_def is_ascii_digit_def is_ascii_upper_def is_ascii_lower_def)

lemma solid_word: "ascii_word w \<Longrightarrow> solid (ch w @ rest)"
  using word_no_space by (cases w) (auto simp: ascii_word_def solid_def word_char_ascii)

lemma word_split:
  assumes "ascii_word w" "word_end uni rest"
  shows "takeWhile (word_char uni) (ch w @ rest) = ch w" "dropWhile (word_char uni) (ch w @ rest) = rest"
  using takeWhile_word [OF ascii_word_chars [OF assms(1), of uni], of rest] assms(2)
  by (cases rest; simp add: word_end_def)+

lemma parse_word_printed: "ascii_word w \<Longrightarrow> word_end uni rest \<Longrightarrow> parse_word uni (ch w @ rest) = Inr (w, rest)"
  by (simp add: parse_word_def solid_word word_split Let_def) (simp add: ascii_word_def)

lemma parse_tag_printed: "ascii_word w \<Longrightarrow> word_end uni rest \<Longrightarrow> parse_tag uni ('':'' # ch w @ rest) = Inr ('':'' @ w, rest)"
  by (simp add: parse_tag_def skip_whitespace.simps(2) word_split Let_def) (simp add: ascii_word_def)

lemma string_loop_printed:
  "string_loop False acc (ch (concat (map (\<lambda>c. if c = CHR 0x22 \<or> c = CHR 0x5C then [CHR 0x5C, c] else [c]) s) @ [CHR 0x22]) @ rest) =
     Inr (acc @ s, rest)"
  by (induction s arbitrary: acc) auto

lemma solid_quote: "solid (ch (q_str s) @ rest)" "peek_char (ch (q_str s) @ rest) = Some [CHR 0x22]"
  by (simp_all add: q_str_def solid_def peek_char_def is_whitespace_def ws_seqs_def)

lemma parse_string_printed [simp]: "parse_string (ch (q_str s) @ rest) = Inr (s, rest)"
  using string_loop_printed [of "[]" s rest]
  by (simp add: parse_string_def skip_solid [OF solid_quote(1)]) (simp add: q_str_def)

lemma digit_list: "list_all is_ascii_digit ds \<Longrightarrow> list_all digit_string (ch ds)"
  by (auto simp: list_all_iff digit_string_def)

definition number_end :: "string list \<Rightarrow> bool" where
  "number_end cs \<longleftrightarrow> (case cs of [] \<Rightarrow> True | c # _ \<Rightarrow> \<not> digit_string c \<and> c \<notin> {''K'', ''M'', ''G''})"

lemma solid_number [simp]: "solid (ch (show_nat n) @ rest)"
  using show_nat_digits [of n]
  by (cases "show_nat n") (auto simp: solid_def is_whitespace_def ws_seqs_def is_ascii_digit_def)

lemma parse_number_printed:
  assumes "unat w < 2 ^ 63" "number_end rest"
  shows "parse_number (ch (show_nat (unat w)) @ rest) = Inr (w, rest)"
proof -
  have ds: "list_all is_ascii_digit (show_nat (unat w))" "show_nat (unat w) \<noteq> []" "digits_val (show_nat (unat w)) = unat w"
    by (simp_all add: show_nat_digits)
  have "takeWhile digit_string (ch (show_nat (unat w)) @ rest) = ch (show_nat (unat w)) \<and>
      dropWhile digit_string (ch (show_nat (unat w)) @ rest) = rest"
    by (rule takeWhile_word [OF digit_list [OF ds(1)]]) (use assms(2) in \<open>auto simp: number_end_def split: list.splits\<close>)
  with ds assms show ?thesis
    by (auto simp: parse_number_def Let_def i64_of_digits_def number_end_def peek_char_def split: list.splits)
qed

lemma solid_head [simp]:
  "solid ('']'' # cs)" "solid (''['' # cs)" "solid ('','' # cs)" "solid ('')'' # cs)" "solid (''('' # cs)"
  "solid (''}'' # cs)" "solid (''{'' # cs)" "solid ('';'' # cs)" "solid ('':'' # cs)"
  by (simp_all add: solid_def is_whitespace_def ws_seqs_def)

lemma word_end_head [simp]:
  "word_end uni ('']'' # cs)" "word_end uni (''['' # cs)" "word_end uni ('','' # cs)" "word_end uni ('')'' # cs)"
  "word_end uni (''('' # cs)" "word_end uni (''}'' # cs)" "word_end uni (''{'' # cs)" "word_end uni ('';'' # cs)"
  "word_end uni ('':'' # cs)" "word_end uni ('' '' # cs)" "word_end uni []"
  by (simp_all add: word_end_def word_char_def is_ascii_alphanumeric_def is_ascii_digit_def is_ascii_upper_def is_ascii_lower_def)

lemma expect_printed [simp]: "solid (c # cs) \<Longrightarrow> sv_expect c (c # cs) = Inr ((), cs)"
  unfolding sv_expect_def by (subst skip_solid) simp_all

lemma sv_bind_Inr [simp]: "sv_bind (Inr (x, cs)) f = f x cs"
  by (simp add: sv_bind_def)

lemma string_list_loop_printed:
  "length ss < n \<Longrightarrow>
     string_list_loop n (ch (str_join '','' (map q_str ss)) @ '']'' # rest) = Inr (ss, '']'' # rest)"
proof (induction ss arbitrary: n)
  case Nil
  then show ?case by (cases n) (simp_all add: str_join_def peek_char_def)
next
  case (Cons s ss)
  then obtain k where n: "n = Suc k" "length ss < k" by (cases n) auto
  let ?tail = "(if ss = [] then [] else '','' # ch (str_join '','' (map q_str ss))) @ '']'' # rest"
  have txt_eq: "ch (str_join '','' (map q_str (s # ss))) @ '']'' # rest = ch (q_str s) @ ?tail"
    by (simp add: str_join_Cons)
  have tail: "(let cs3 = skip_whitespace ?tail in if peek_char cs3 = Some '','' then tl cs3 else cs3) =
      ch (str_join '','' (map q_str ss)) @ '']'' # rest"
    by (simp add: peek_char_def str_join_def)
  show ?case
    unfolding txt_eq n(1) using Cons.IH [OF n(2)] tail
    by (simp add: skip_solid [OF solid_quote(1)] solid_quote(2) Let_def del: skip_solid)
qed

lemma string_list_printed [simp]: "length ss < n \<Longrightarrow> parse_string_list n (ch (q_list ss) @ rest) = Inr (ss, rest)"
  by (simp add: parse_string_list_def q_list_def string_list_loop_printed)

lemma q_list_head: "\<exists>r. ch (q_list ss) @ rest = ''['' # r"
  by (simp add: q_list_def)

lemma solid_q_list [simp]: "solid (ch (q_list ss) @ rest)" "peek_char (ch (q_list ss) @ rest) = Some ''[''"
  by (simp_all add: q_list_def peek_char_def)

lemma string_or_list_printed [simp]:
  "length ss < n \<Longrightarrow> parse_string_or_list n (ch (q_list ss) @ rest) = Inr (ss, rest)"
  by (simp add: parse_string_or_list_def Let_def)

lemma length_q_list: "length ss \<le> length (q_list ss)"
proof -
  have "length ss \<le> length (str_join '','' (map q_str ss))"
    by (induction ss) (auto simp: str_join_Cons q_str_def)
  then show ?thesis by (simp add: q_list_def)
qed

lemma match_words [simp]: "ascii_word ''is''" "ascii_word ''contains''" "ascii_word ''matches''" "ascii_word ''comparator''"
  by (simp_all add: ascii_word_def is_ascii_alphanumeric_def is_ascii_digit_def is_ascii_upper_def is_ascii_lower_def)

lemma match_tag_printed:
  assumes "mt \<in> {''is'', ''contains'', ''matches''}" "1 < n"
  shows "match_tag_loop uni strict n cmpr mt0 ('':'' # ch mt @ '' '' # ch (q_list hs) @ rest) =
    Inr ((cmpr, mt), ch (q_list hs) @ rest)"
proof -
  obtain k where n: "n = Suc (Suc k)" using assms(2) by (metis One_nat_def Suc_less_eq2 less_imp_Suc_add)
  have tag: "parse_tag uni ('':'' # ch mt @ '' '' # ch (q_list hs) @ rest) = Inr ('':'' @ mt, '' '' # ch (q_list hs) @ rest)"
    by (rule parse_tag_printed) (use assms(1) in auto)
  have "'':'' @ mt \<noteq> '':comparator''" "'':'' @ mt \<in> set match_tags" using assms(1) by (auto simp: match_tags_def)
  with tag show ?thesis
    unfolding n by (simp add: peek_char_def del: set_simps) (simp add: q_list_def)
qed

lemma match_test_printed:
  assumes "mt \<in> {''is'', ''contains'', ''matches''}" "2 < n" "length hs < n" "length ks < n"
  shows "parse_match_test uni strict mk n (ch (pr_match cmpr mt hs ks) @ rest) = Inr (mk cmpr mt hs ks, rest)"
proof -
  have last: "match_tag_loop uni strict k c mt0 (skip_whitespace ('' '' # '':'' # ch mt @ '' '' # ch (q_list hs) @ r)) =
      Inr ((c, mt), ch (q_list hs) @ r)" if "1 < k" for k c mt0 r
    using match_tag_printed [OF assms(1) that] by simp
  have "match_tag_loop uni strict n None ''is'' (skip_whitespace (ch (pr_match cmpr mt hs ks) @ rest)) =
      Inr ((cmpr, mt), ch (q_list hs) @ '' '' # ch (q_list ks) @ rest)"
  proof (cases cmpr)
    case None
    with last [of n] assms(2) show ?thesis by (simp add: pr_match_def)
  next
    case (Some c)
    obtain k where n: "n = Suc k" "1 < k" using assms(2) by (cases n) auto
    have tag: "parse_tag uni ('':'' # ch ''comparator'' @ '' '' # r) = Inr ('':'' @ ''comparator'', '' '' # r)" for r
      by (rule parse_tag_printed) simp_all
    show ?thesis
      unfolding n(1) Some
      using tag last [OF n(2), of "Some c" "''is''" "'' '' # ch (q_list ks) @ rest"]
      by (simp add: pr_match_def peek_char_def skip_solid [OF solid_quote(1)])
  qed
  with assms show ?thesis by (simp add: parse_match_test_def)
qed

section \<open>Reading printed tests\<close>

lemma ascii_wordI: "list_all (\<lambda>c. is_ascii_alphanumeric c \<or> c = CHR ''_'' \<or> c = CHR ''-'') w \<Longrightarrow> w \<noteq> [] \<Longrightarrow> ascii_word w"
  by (auto simp: ascii_word_def list_all_iff is_ascii_alphanumeric_def is_ascii_digit_def is_ascii_upper_def is_ascii_lower_def)

lemma sieve_words [simp]:
  "ascii_word ''true''" "ascii_word ''false''" "ascii_word ''header''" "ascii_word ''address''" "ascii_word ''envelope''"
  "ascii_word ''exists''" "ascii_word ''size''" "ascii_word ''allof''" "ascii_word ''anyof''" "ascii_word ''not''"
  "ascii_word ''over''" "ascii_word ''under''"
  "ascii_word ''keep''" "ascii_word ''fileinto''" "ascii_word ''redirect''" "ascii_word ''discard''" "ascii_word ''stop''"
  "ascii_word ''if''" "ascii_word ''elsif''" "ascii_word ''else''" "ascii_word ''require''" "ascii_word ''set''"
  "ascii_word ''vacation''" "ascii_word ''days''" "ascii_word ''subject''" "ascii_word ''from''" "ascii_word ''addresses''"
  by (rule ascii_wordI; simp add: is_ascii_alphanumeric_def is_ascii_digit_def is_ascii_upper_def is_ascii_lower_def)+

lemma word_printed:
  "ascii_word w \<Longrightarrow> word_end uni (ch x @ rest) \<Longrightarrow>
     parse_word uni (skip_whitespace (ch (w @ x) @ rest)) = Inr (w, ch x @ rest)"
  using parse_word_printed [of w uni "ch x @ rest"] solid_word [of w "ch x @ rest"] by simp

definition test_end :: "(string \<Rightarrow> bool) \<Rightarrow> string list \<Rightarrow> bool" where
  "test_end uni rest \<longleftrightarrow> word_end uni rest \<and> number_end rest"

lemma test_end_head [simp]: "test_end uni ('','' # cs)" "test_end uni ('')'' # cs)" "test_end uni ('' '' # cs)"
  by (simp_all add: test_end_def number_end_def digit_string_def is_ascii_digit_def)

lemma length_pr_match: "2 + length hs + length ks < length (pr_match c mt hs ks)"
  using length_q_list [of hs] length_q_list [of ks] by (simp add: pr_match_def)

lemma word_end_pr_match: "word_end uni (ch (pr_match c mt hs ks) @ rest)"
  by (simp add: pr_match_def split: option.split)

lemma match_test_case:
  assumes "mt \<in> {''is'', ''contains'', ''matches''}" "length (pr_match cmpr mt hs ks) < n"
  shows "parse_match_test uni strict mk n (ch (pr_match cmpr mt hs ks) @ rest) = Inr (mk cmpr mt hs ks, rest)"
  by (rule match_test_printed [OF assms(1)]) (use assms(2) length_pr_match [of hs ks cmpr mt] in linarith)+

lemma size_test_printed:
  assumes "unat limit < 2 ^ 63" "number_end rest"
  shows "parse_size_test uni (ch ('' '' @ (if over then '':over '' else '':under '') @ show_nat (unat limit)) @ rest) =
    Inr (SizeTest over limit, rest)"
proof -
  have num: "parse_number (skip_whitespace ('' '' # ch (show_nat (unat limit)) @ rest)) = Inr (limit, rest)"
    using parse_number_printed [OF assms] by simp
  have tag: "parse_tag uni ('':'' # ch w @ '' '' # ch (show_nat (unat limit)) @ rest) =
      Inr ('':'' @ w, '' '' # ch (show_nat (unat limit)) @ rest)" if "ascii_word w" for w
    by (rule parse_tag_printed [OF that]) simp
  from tag [of "''over''"] tag [of "''under''"] num show ?thesis
    by (simp add: parse_size_test_def)
qed

lemma pr_test_nonempty: "pr_test t \<noteq> []"
  by (cases t) simp_all

lemma test_list_printed:
  assumes "length (pr_tests ts) + 1 < n" and "\<And>n rest. length (pr_tests ts) + 1 < n \<Longrightarrow>
      test_list_loop uni n (ch (pr_tests ts) @ '')'' # rest) = Inr (ts, '')'' # rest)"
  shows "sv_bind (sv_expect ''('' (skip_whitespace (ch ('' ('' @ pr_tests ts @ '')'') @ rest))) (\<lambda>_ cs2.
         sv_bind (test_list_loop uni n cs2) (\<lambda>ts cs3.
         sv_bind (sv_expect '')'' cs3) (\<lambda>_ cs4. Inr (mk ts, cs4)))) = Inr (mk ts, rest)"
  using assms(2) [OF assms(1), of rest] by simp

lemma solid_pr_test:
  "solid (ch (pr_test t) @ rest)" "peek_char (ch (pr_test t) @ rest) \<noteq> Some '')''"
  by (cases t; simp add: solid_def peek_char_def is_whitespace_def ws_seqs_def)+

lemma tests_printed:
  "wf_test t \<Longrightarrow> length (pr_test t) < n \<Longrightarrow> test_end uni rest \<Longrightarrow>
     parse_test uni n (ch (pr_test t) @ rest) = Inr (t, rest)"
  "list_all wf_test ts \<Longrightarrow> length (pr_tests ts) + 1 < n \<Longrightarrow>
     test_list_loop uni n (ch (pr_tests ts) @ '')'' # rest) = Inr (ts, '')'' # rest)"
proof (induction t and ts arbitrary: n rest and n rest rule: pr_test_pr_tests.induct)
  case 1
  with word_printed [of "''true''" uni "[]" rest] show ?case by (cases n) (simp_all add: test_end_def)
next
  case 2
  with word_printed [of "''false''" uni "[]" rest] show ?case by (cases n) (simp_all add: test_end_def)
next
  case (3 c mt hs ks)
  with word_printed [of "''header''" uni "pr_match c mt hs ks" rest] match_test_case [of mt c hs ks "n - 1"]
  show ?case by (cases n) (simp_all add: word_end_pr_match)
next
  case (4 c mt hs ks)
  with word_printed [of "''address''" uni "pr_match c mt hs ks" rest] match_test_case [of mt c hs ks "n - 1"]
  show ?case by (cases n) (simp_all add: word_end_pr_match)
next
  case (5 c mt hs ks)
  with word_printed [of "''envelope''" uni "pr_match c mt hs ks" rest] match_test_case [of mt c hs ks "n - 1"]
  show ?case by (cases n) (simp_all add: word_end_pr_match)
next
  case (6 hs)
  with word_printed [of "''exists''" uni "'' '' @ q_list hs" rest] length_q_list [of hs]
  show ?case by (cases n) simp_all
next
  case (7 over limit)
  let ?x = "'' '' @ (if over then '':over '' else '':under '') @ show_nat (unat limit)"
  from 7 have "parse_size_test uni (ch ?x @ rest) = Inr (SizeTest over limit, rest)"
    by (intro size_test_printed) (simp_all add: test_end_def)
  with 7 word_printed [of "''size''" uni ?x rest] show ?case by (cases n) simp_all
next
  case (8 ts)
  with word_printed [of "''allof''" uni "'' ('' @ pr_tests ts @ '')''" rest] test_list_printed [of ts "n - 1" uni rest AllOf]
  show ?case by (cases n) simp_all
next
  case (9 ts)
  with word_printed [of "''anyof''" uni "'' ('' @ pr_tests ts @ '')''" rest] test_list_printed [of ts "n - 1" uni rest AnyOf]
  show ?case by (cases n) simp_all
next
  case (10 t)
  with word_printed [of "''not''" uni "'' '' @ pr_test t" rest] skip_solid [OF solid_pr_test(1), of t rest]
  show ?case by (cases n) simp_all
next
  case 11
  then show ?case by (cases n) (simp_all add: peek_char_def)
next
  case (12 t ts)
  then obtain k where n: "n = Suc k" by (cases n) auto
  let ?tail = "(if ts = [] then [] else '','' # ch (pr_tests ts)) @ '')'' # rest"
  have tail: "(let cs3 = skip_whitespace ?tail in if peek_char cs3 = Some '','' then tl cs3 else cs3) = ch (pr_tests ts) @ '')'' # rest"
    by (simp add: peek_char_def)
  have "0 < length (pr_test t)" using pr_test_nonempty by simp
  with 12 n have "parse_test uni k (ch (pr_test t) @ ?tail) = Inr (t, ?tail)" by (simp split: if_splits)
  moreover have "test_list_loop uni k (ch (pr_tests ts) @ '')'' # rest) = Inr (ts, '')'' # rest)"
  proof (cases "ts = []")
    case True
    with 12 n show ?thesis by (cases k) (simp_all add: peek_char_def)
  next
    case False
    with 12 n \<open>0 < length (pr_test t)\<close> show ?thesis by simp
  qed
  ultimately
  show ?case
    unfolding n using tail solid_pr_test(2) [of t ?tail] skip_solid [OF solid_pr_test(1), of t ?tail]
    by (cases "ts = []") (simp_all add: Let_def)
qed

section \<open>Reading printed commands\<close>

fun wf_cmd :: "sieve_command \<Rightarrow> bool" where
  "wf_cmd (IfCmd t cs el els) \<longleftrightarrow> wf_test t \<and> list_all wf_cmd cs \<and>
     list_all (\<lambda>(t, cs). wf_test t \<and> list_all wf_cmd cs) el \<and> (case els of None \<Rightarrow> True | Some cs \<Rightarrow> list_all wf_cmd cs)"
| "wf_cmd (FileintoCmd s) \<longleftrightarrow> ascii_str s"
| "wf_cmd (RedirectCmd s) \<longleftrightarrow> ascii_str s"
| "wf_cmd (RequireCmd exts) \<longleftrightarrow> list_all ascii_str exts"
| "wf_cmd (SetCmd n v) \<longleftrightarrow> ascii_str n \<and> ascii_str v"
| "wf_cmd (VacationCmd d s f as msg) \<longleftrightarrow>
     (case d of None \<Rightarrow> True | Some w \<Rightarrow> unat w < 2 ^ 63) \<and>
     list_all ascii_str (msg # as @ (case s of None \<Rightarrow> [] | Some x \<Rightarrow> [x]) @ (case f of None \<Rightarrow> [] | Some x \<Rightarrow> [x]))"
| "wf_cmd _ \<longleftrightarrow> True"

definition cmd_end :: "(string \<Rightarrow> bool) \<Rightarrow> string list \<Rightarrow> bool" where
  "cmd_end uni rest \<longleftrightarrow> solid rest \<and> peek_word uni rest \<noteq> Some ''elsif'' \<and> peek_word uni rest \<noteq> Some ''else''"

lemma peek_word_printed:
  "ascii_word w \<Longrightarrow> word_end uni (ch x @ rest) \<Longrightarrow> peek_word uni (ch (w @ x) @ rest) = Some w"
  using parse_word_printed [of w uni "ch x @ rest"] by (simp add: peek_word_def)

lemma pr_vacation_head: "\<exists>y. pr_vacation d s f as msg = CHR '' '' # y"
  by (simp add: pr_vacation_def split: option.split)

lemma pr_cmd_head:
  "\<exists>w x. pr_cmd c = w @ x \<and> ascii_word w \<and> w \<noteq> ''elsif'' \<and> w \<noteq> ''else'' \<and> (\<forall>uni rest. word_end uni (ch x @ rest))"
proof (cases c)
  case (VacationCmd d s f as msg)
  obtain y where "pr_vacation d s f as msg = CHR '' '' # y" using pr_vacation_head by blast
  with VacationCmd show ?thesis by (intro exI [of _ "''vacation''"] exI [of _ "CHR '' '' # y"]) simp
next
  case KeepCmd
  then show ?thesis by (intro exI [of _ "''keep''"] exI [of _ "'';''"]) simp
next
  case DiscardCmd
  then show ?thesis by (intro exI [of _ "''discard''"] exI [of _ "'';''"]) simp
next
  case StopCmd
  then show ?thesis by (intro exI [of _ "''stop''"] exI [of _ "'';''"]) simp
next
  case (FileintoCmd s)
  then show ?thesis by (intro exI [of _ "''fileinto''"] exI [of _ "'' '' @ q_str s @ '';''"]) simp
next
  case (RedirectCmd s)
  then show ?thesis by (intro exI [of _ "''redirect''"] exI [of _ "'' '' @ q_str s @ '';''"]) simp
next
  case (RequireCmd s)
  then show ?thesis by (intro exI [of _ "''require''"] exI [of _ "'' '' @ q_list s @ '';''"]) simp
next
  case (SetCmd n v)
  then show ?thesis by (intro exI [of _ "''set''"] exI [of _ "'' '' @ q_str n @ '' '' @ q_str v @ '';''"]) simp
next
  case (IfCmd t cs el els)
  then show ?thesis
    by (intro exI [of _ "''if''"] exI [of _ "'' '' @ pr_test t @ '' {'' @ pr_cmds cs @ ''}'' @ pr_elsifs el els"]) simp
qed

lemma cmd_end_printed: "cmd_end uni rest \<Longrightarrow> cmd_end uni (ch (pr_cmds cs) @ rest)"
proof (cases cs)
  case (Cons c cs')
  obtain w x where w: "pr_cmd c = w @ x" "ascii_word w" "w \<noteq> ''elsif''" "w \<noteq> ''else''" "\<And>uni rest. word_end uni (ch x @ rest)"
    using pr_cmd_head [of c] by blast
  have "peek_word uni (ch (w @ x) @ ch (pr_cmds cs') @ rest) = Some w" by (rule peek_word_printed) (use w in simp_all)
  with w Cons solid_word [of w "ch (x @ pr_cmds cs') @ rest"] show ?thesis by (simp add: cmd_end_def)
qed simp

lemma cmd_end_head [simp]: "cmd_end uni (''}'' # cs)" "cmd_end uni []"
  using word_end_head(6) [of uni cs]
  by (simp_all add: cmd_end_def peek_word_def parse_word_def solid_def word_end_def Let_def)

lemma solid_pr_cmd: "solid (ch (pr_cmd c) @ rest)" "peek_char (ch (pr_cmd c) @ rest) \<noteq> Some ''}''"
  by (cases c; simp add: solid_def peek_char_def is_whitespace_def ws_seqs_def)+

lemma one_string_printed [simp]: "parse_one_string mk ('' '' # ch (q_str s) @ '';'' # rest) = Inr (mk s, rest)"
  by (simp add: parse_one_string_def skip_solid [OF solid_quote(1)])

lemma simple_printed [simp]: "parse_simple c ('';'' # rest) = Inr (c, rest)"
  by (simp add: parse_simple_def)

lemma set_printed [simp]:
  "parse_set ('' '' # ch (q_str n) @ '' '' # ch (q_str v) @ '';'' # rest) = Inr (SetCmd n v, rest)"
  by (simp add: parse_set_def skip_solid [OF solid_quote(1)])

lemma require_printed [simp]:
  "length exts < n \<Longrightarrow> parse_require n ('' '' # ch (q_list exts) @ '';'' # rest) = Inr (RequireCmd exts, rest)"
  using string_or_list_printed [of exts n "'';'' # rest"]
  by (simp add: parse_require_def parse_string_or_list_def)

text \<open>One tag of a vacation command and what follows it.\<close>

lemma vacation_msg:
  "0 < n \<Longrightarrow> vacation_loop uni n vt (ch (q_str msg) @ rest) = Inr (vt, ch (q_str msg) @ rest)"
  by (cases n) (simp_all add: solid_quote(2))

lemma vacation_tag: "ascii_word w \<Longrightarrow> parse_tag uni ('':'' # ch w @ '' '' # r) = Inr ('':'' @ w, '' '' # r)"
  by (rule parse_tag_printed) simp_all

text \<open>The text from the message, the addresses, the sender, the subject and the days on.\<close>

definition vac_text :: "64 word option \<Rightarrow> string option \<Rightarrow> string option \<Rightarrow> string list \<Rightarrow> string list \<Rightarrow> string list" where
  "vac_text d s f as rest =
     (case d of None \<Rightarrow> [] | Some w \<Rightarrow> ch ('':days '' @ show_nat (unat w) @ '' '')) @
     (case s of None \<Rightarrow> [] | Some x \<Rightarrow> ch ('':subject '' @ q_str x @ '' '')) @
     (case f of None \<Rightarrow> [] | Some x \<Rightarrow> ch ('':from '' @ q_str x @ '' '')) @
     (if as = [] then [] else ch ('':addresses '' @ q_list as @ '' '')) @ rest"

lemma vac_text_printed:
  "ch (pr_vacation d s f as msg) @ rest = '' '' # vac_text d s f as (ch (q_str msg) @ '';'' # rest)"
  by (simp add: vac_text_def pr_vacation_def split: option.split)

lemma solid_vac_text: "solid rest \<Longrightarrow> solid (vac_text d s f as rest)"
  by (simp add: vac_text_def split: option.split)

lemma vacation_addresses:
  assumes "Suc (length as) < n" "vt_addresses vt = []"
  shows "vacation_loop uni n vt (vac_text None None None as (ch (q_str msg) @ rest)) =
    Inr (vt\<lparr>vt_addresses := as\<rparr>, ch (q_str msg) @ rest)"
proof -
  obtain k where n: "n = Suc k" "length as < k" using assms by (cases n) auto
  show ?thesis
    using n vacation_tag [of "''addresses''" uni "ch (q_list as) @ '' '' # ch (q_str msg) @ rest"] vacation_msg assms(2)
    by (cases vt; cases "as = []") (simp_all add: vac_text_def skip_solid [OF solid_quote(1)] solid_quote(2))
qed

lemma vacation_from:
  assumes "0 < n" "solid rest"
  shows "vacation_loop uni n vt (vac_text None None (Some x) as rest) =
    vacation_loop uni (n - 1) (vt\<lparr>vt_from := Some x\<rparr>) (vac_text None None None as rest)"
  using assms vacation_tag [of "''from''" uni "ch (q_str x) @ '' '' # vac_text None None None as rest"]
    skip_solid [OF solid_vac_text, of rest None None None as]
  by (cases n) (simp_all add: vac_text_def skip_solid [OF solid_quote(1)])

lemma vacation_subject:
  assumes "0 < n" "solid rest"
  shows "vacation_loop uni n vt (vac_text None (Some x) f as rest) =
    vacation_loop uni (n - 1) (vt\<lparr>vt_subject := Some x\<rparr>) (vac_text None None f as rest)"
  using assms vacation_tag [of "''subject''" uni "ch (q_str x) @ '' '' # vac_text None None f as rest"]
    skip_solid [OF solid_vac_text, of rest None None f as]
  by (cases n) (simp_all add: vac_text_def skip_solid [OF solid_quote(1)])

lemma vacation_days:
  assumes "0 < n" "solid rest" "unat d < 2 ^ 63"
  shows "vacation_loop uni n vt (vac_text (Some d) s f as rest) =
    vacation_loop uni (n - 1) (vt\<lparr>vt_days := Some d\<rparr>) (vac_text None s f as rest)"
  using assms vacation_tag [of "''days''" uni "ch (show_nat (unat d)) @ '' '' # vac_text None s f as rest"]
    skip_solid [OF solid_vac_text, of rest None s f as]
    parse_number_printed [OF assms(3), of "'' '' # vac_text None s f as rest"]
  by (cases n) (simp_all add: vac_text_def number_end_def digit_string_def is_ascii_digit_def)

lemma vacation_printed:
  assumes "case d of None \<Rightarrow> True | Some w \<Rightarrow> unat w < 2 ^ 63" "length as + 4 < n"
  shows "parse_vacation uni n (ch (pr_vacation d s f as msg) @ rest) = Inr (VacationCmd d s f as msg, rest)"
proof -
  let ?rest = "ch (q_str msg) @ '';'' # rest" and ?vt = "\<lparr>vt_days = None, vt_subject = None, vt_from = None, vt_addresses = []\<rparr>"
  have solid: "solid ?rest" by (rule solid_quote)
  have 1: "vacation_loop uni m vt (vac_text None None f as ?rest) = Inr (vt\<lparr>vt_from := f, vt_addresses := as\<rparr>, ?rest)"
    if "length as + 2 < m" "vt_addresses vt = []" "vt_from vt = None" for m vt
    using that solid by (cases f) (simp_all add: vacation_from vacation_addresses)
  have 2: "vacation_loop uni m vt (vac_text None s f as ?rest) =
      Inr (vt\<lparr>vt_subject := s, vt_from := f, vt_addresses := as\<rparr>, ?rest)"
    if "length as + 3 < m" "vt_addresses vt = []" "vt_from vt = None" "vt_subject vt = None" for m vt
    using that solid by (cases s) (simp_all add: vacation_subject 1)
  have 3: "vacation_loop uni n ?vt (vac_text d s f as ?rest) =
      Inr (?vt\<lparr>vt_days := d, vt_subject := s, vt_from := f, vt_addresses := as\<rparr>, ?rest)"
    using assms solid by (cases d) (simp_all add: vacation_days 2)
  then show ?thesis
    unfolding parse_vacation_def vac_text_printed by (simp add: solid_vac_text [OF solid])
qed

lemma pr_cmd_nonempty: "1 < length (pr_cmd c)"
  by (cases c) simp_all

lemma length_pr_vacation: "length as + 3 < length (pr_vacation d s f as msg)"
  using length_q_list [of as] by (simp add: pr_vacation_def q_str_def)

lemma commands_printed:
  "wf_cmd c \<Longrightarrow> length (pr_cmd c) < n \<Longrightarrow> cmd_end uni rest \<Longrightarrow>
     sieve_parse_command uni n (ch (pr_cmd c) @ rest) = Inr (c, rest)"
  "list_all wf_cmd cs \<Longrightarrow> length (pr_cmds cs) + 1 < n \<Longrightarrow>
     block_loop uni n (ch (pr_cmds cs) @ ''}'' # rest) = Inr (cs, ''}'' # rest)"
  "list_all (\<lambda>(t, cs). wf_test t \<and> list_all wf_cmd cs) el \<Longrightarrow> (case els of None \<Rightarrow> True | Some cs \<Rightarrow> list_all wf_cmd cs) \<Longrightarrow>
     length (pr_elsifs el els) < n \<Longrightarrow> cmd_end uni rest \<Longrightarrow>
     elsif_loop uni n (ch (pr_elsifs el els) @ rest) = Inr ((el, els), rest)"
proof (induction c and cs and el els arbitrary: n rest and n rest and n rest rule: pr_cmd_pr_cmds_pr_elsifs.induct)
  case 1
  with word_printed [of "''keep''" uni "'';''" rest] show ?case by (cases n) simp_all
next
  case (2 s)
  with word_printed [of "''fileinto''" uni "'' '' @ q_str s @ '';''" rest] show ?case by (cases n) simp_all
next
  case (3 s)
  with word_printed [of "''redirect''" uni "'' '' @ q_str s @ '';''" rest] show ?case by (cases n) simp_all
next
  case 4
  with word_printed [of "''discard''" uni "'';''" rest] show ?case by (cases n) simp_all
next
  case 5
  with word_printed [of "''stop''" uni "'';''" rest] show ?case by (cases n) simp_all
next
  case (6 t cs el els)
  then obtain k where n: "n = Suc k" by (cases n) auto
  let ?r = "ch (pr_elsifs el els) @ rest"
  have t: "parse_test uni k (ch (pr_test t) @ '' '' # ''{'' # ch (pr_cmds cs) @ ''}'' # ?r) =
      Inr (t, '' '' # ''{'' # ch (pr_cmds cs) @ ''}'' # ?r)"
    by (rule tests_printed(1)) (use 6 n in simp_all)
  have b: "block_loop uni k (ch (pr_cmds cs) @ ''}'' # ?r) = Inr (cs, ''}'' # ?r)" by (rule 6) (use 6 n in simp_all)
  have e: "elsif_loop uni k ?r = Inr ((el, els), rest)" by (rule 6) (use 6 n in simp_all)
  from t b e n show ?case
    using word_printed [of "''if''" uni "'' '' @ pr_test t @ '' {'' @ pr_cmds cs @ ''}'' @ pr_elsifs el els" rest]
      skip_solid [OF solid_pr_test(1), of t "'' '' # ''{'' # ch (pr_cmds cs) @ ''}'' # ?r"]
    by simp
next
  case (7 exts)
  with word_printed [of "''require''" uni "'' '' @ q_list exts @ '';''" rest] length_q_list [of exts]
  show ?case by (cases n) simp_all
next
  case (8 a b)
  with word_printed [of "''set''" uni "'' '' @ q_str a @ '' '' @ q_str b @ '';''" rest] show ?case by (cases n) simp_all
next
  case (9 d s f as msg)
  have "word_end uni (ch (pr_vacation d s f as msg) @ rest)" by (simp add: vac_text_printed)
  with 9 show ?case
    using word_printed [of "''vacation''" uni "pr_vacation d s f as msg" rest] vacation_printed [of d as "n - 1" uni s f msg rest]
      length_pr_vacation [of as d s f msg]
    by (cases n) simp_all
next
  case 10
  then show ?case by (cases n) simp_all
next
  case (11 c cs)
  then obtain k where n: "n = Suc k" by (cases n) auto
  let ?r = "ch (pr_cmds cs) @ ''}'' # rest"
  have "sieve_parse_command uni k (ch (pr_cmd c) @ ?r) = Inr (c, ?r)"
    by (rule 11) (use 11 n in \<open>simp_all add: cmd_end_printed\<close>)
  moreover have "block_loop uni k ?r = Inr (cs, ''}'' # rest)"
    by (rule 11) (use 11 n pr_cmd_nonempty [of c] in simp_all)
  ultimately show ?case
    using n solid_pr_cmd(2) [of c ?r] skip_solid [OF solid_pr_cmd(1), of c ?r] by (simp add: Let_def)
next
  case (12 els)
  then obtain k where n: "n = Suc k" by (cases n) auto
  show ?case
  proof (cases els)
    case None
    with 12 n show ?thesis by (simp add: cmd_end_def Let_def)
  next
    case (Some cs)
    have "block_loop uni k (ch (pr_cmds cs) @ ''}'' # rest) = Inr (cs, ''}'' # rest)" by (rule 12) (use 12 n Some in simp_all)
    with n Some show ?thesis
      using word_printed [of "''else''" uni "'' {'' @ pr_cmds cs @ ''}''" rest]
        peek_word_printed [of "''else''" uni "'' {'' @ pr_cmds cs @ ''}''" rest]
        solid_word [of "''else''" "ch ('' {'' @ pr_cmds cs @ ''}'') @ rest"]
      by (simp add: Let_def)
  qed
next
  case (13 t cs el els)
  then obtain k where n: "n = Suc k" by (cases n) auto
  let ?r = "ch (pr_elsifs el els) @ rest"
  let ?x = "'' '' @ pr_test t @ '' {'' @ pr_cmds cs @ ''}'' @ pr_elsifs el els"
  have t: "parse_test uni k (ch (pr_test t) @ '' '' # ''{'' # ch (pr_cmds cs) @ ''}'' # ?r) =
      Inr (t, '' '' # ''{'' # ch (pr_cmds cs) @ ''}'' # ?r)"
    by (rule tests_printed(1)) (use 13 n in simp_all)
  have b: "block_loop uni k (ch (pr_cmds cs) @ ''}'' # ?r) = Inr (cs, ''}'' # ?r)" by (rule 13) (use 13 n in simp_all)
  have e: "elsif_loop uni k ?r = Inr ((el, els), rest)" by (rule 13) (use 13 n in simp_all)
  from t b e n show ?case
    using word_printed [of "''elsif''" uni ?x rest] peek_word_printed [of "''elsif''" uni ?x rest] solid_word [of "''elsif''" "ch ?x @ rest"]
      skip_solid [OF solid_pr_test(1), of t "'' '' # ''{'' # ch (pr_cmds cs) @ ''}'' # ?r"]
    by (simp add: Let_def)
qed

section \<open>The round trip\<close>

lemma script_loop_printed:
  "list_all wf_cmd cs \<Longrightarrow> length (pr_cmds cs) + 1 < n \<Longrightarrow>
     script_loop uni False n sc (ch (pr_cmds cs)) = Inr (foldl (\<lambda>sc c. add_command c sc) sc cs)"
proof (induction cs arbitrary: n sc)
  case Nil
  then show ?case by (cases n) simp_all
next
  case (Cons c cs)
  then obtain k where n: "n = Suc k" by (cases n) auto
  have end_cs: "cmd_end uni (ch (pr_cmds cs))" using cmd_end_printed [of uni "[]" cs] by simp
  then have "sieve_parse_command uni k (ch (pr_cmd c) @ ch (pr_cmds cs)) = Inr (c, ch (pr_cmds cs))"
    by (intro commands_printed(1)) (use Cons.prems n in simp_all)
  moreover have "script_loop uni False k (add_command c sc) (ch (pr_cmds cs)) = Inr (foldl (\<lambda>sc c. add_command c sc) (add_command c sc) cs)"
    by (rule Cons.IH) (use Cons.prems n pr_cmd_nonempty [of c] in simp_all)
  moreover have "skip_whitespace (ch (pr_cmds cs)) = ch (pr_cmds cs)" using end_cs by (simp add: cmd_end_def)
  moreover have "pr_cmd c \<noteq> []" using pr_cmd_nonempty [of c] by auto
  ultimately show ?case using n by simp
qed

lemma ascii_append [simp]: "ascii_str (a @ b) \<longleftrightarrow> ascii_str a \<and> ascii_str b"
  by (simp add: ascii_str_def)

lemma ascii_Cons [simp]: "ascii_str (c # s) \<longleftrightarrow> code_of c < 128 \<and> ascii_str s"
  by (simp add: ascii_str_def)

lemma ascii_Nil [simp]: "ascii_str []"
  by (simp add: ascii_str_def)

lemma ascii_q_str [simp]: "ascii_str s \<Longrightarrow> ascii_str (q_str s)"
  by (induction s) (simp_all add: q_str_def)

lemma ascii_q_list [simp]: "list_all ascii_str ss \<Longrightarrow> ascii_str (q_list ss)"
proof -
  assume "list_all ascii_str ss"
  then have "ascii_str (str_join '','' (map q_str ss))" by (induction ss) (simp_all add: str_join_Cons, simp add: str_join_def)
  then show ?thesis by (simp add: q_list_def)
qed

lemma ascii_show_nat [simp]: "ascii_str (show_nat n)"
  using show_nat_digits [of n] by (auto simp: ascii_str_def list_all_iff is_ascii_digit_def)

lemma ascii_pr_match:
  "mt \<in> {''is'', ''contains'', ''matches''} \<Longrightarrow> list_all ascii_str (hs @ ks @ (case c of None \<Rightarrow> [] | Some s \<Rightarrow> [s])) \<Longrightarrow>
     ascii_str (pr_match c mt hs ks)"
  by (auto simp: pr_match_def split: option.splits)

lemma ascii_pr_test:
  "wf_test t \<Longrightarrow> ascii_str (pr_test t)"
  "list_all wf_test ts \<Longrightarrow> ascii_str (pr_tests ts)"
  by (induction t and ts rule: pr_test_pr_tests.induct) (auto simp: ascii_pr_match)

lemma ascii_pr_vacation:
  "list_all ascii_str (msg # as @ (case s of None \<Rightarrow> [] | Some x \<Rightarrow> [x]) @ (case f of None \<Rightarrow> [] | Some x \<Rightarrow> [x])) \<Longrightarrow>
     ascii_str (pr_vacation d s f as msg)"
  by (auto simp: pr_vacation_def split: option.splits)

lemma ascii_pr_cmd:
  "wf_cmd c \<Longrightarrow> ascii_str (pr_cmd c)"
  "list_all wf_cmd cs \<Longrightarrow> ascii_str (pr_cmds cs)"
  "list_all (\<lambda>(t, cs). wf_test t \<and> list_all wf_cmd cs) el \<Longrightarrow> (case els of None \<Rightarrow> True | Some cs \<Rightarrow> list_all wf_cmd cs) \<Longrightarrow>
     ascii_str (pr_elsifs el els)"
  by (induction c and cs and el els rule: pr_cmd_pr_cmds_pr_elsifs.induct)
    (auto simp: ascii_pr_test ascii_pr_vacation split: option.splits)

text \<open>C35: The Sieve parser reads back every script it can be given in ASCII: the commands of a script, with nested
  blocks, tests, quoted strings, numbers below 2^63 and vacation tags, printed in the concrete syntax
  and parsed, are the script with these commands in this order (and the extensions their require
  commands name).\<close>

theorem sieve_script_roundtrip:
  assumes "list_all wf_cmd cs"
  shows "sieve_parse uni (pr_cmds cs) = Inr (foldl (\<lambda>sc c. add_command c sc) SieveScript_new cs)"
proof -
  have "utf8_chars (pr_cmds cs) = ch (pr_cmds cs)"
    by (rule utf8_chars_ascii) (use ascii_pr_cmd(2) [OF assms] in \<open>simp add: ascii_str_def\<close>)
  moreover have "skip_whitespace (ch (pr_cmds cs)) = ch (pr_cmds cs)"
    using cmd_end_printed [OF cmd_end_head(2), of uni cs] by (simp add: cmd_end_def [of uni "ch (pr_cmds cs)"])
  ultimately show ?thesis
    using script_loop_printed [OF assms] by (simp add: sieve_parse_def)
qed

text \<open>A script with a nested test, a quoted string that needs escapes, an alternative and a size.\<close>

theorem sieve_script_roundtrip_witness:
  "let cs = [RequireCmd [''fileinto''],
       IfCmd (AllOf [NotTest (HeaderTest None ''contains'' [''Subject''] [''a'']), SizeTest True 1024])
         [FileintoCmd (CHR 0x22 # ''x''), StopCmd] [(TrueTest, [KeepCmd])] (Some [DiscardCmd])] in
   list_all wf_cmd cs \<and>
   sieve_parse (\<lambda>_. False) (pr_cmds cs) = Inr (foldl (\<lambda>sc c. add_command c sc) SieveScript_new cs)"
  unfolding Let_def by (intro conjI sieve_script_roundtrip) (simp_all add: ascii_str_def)

end
