(* ===== verification/Imap_Protocol.thy ===== *)
theory Imap_Protocol
  imports Nom_Parsers
begin

text \<open>
  Model of the commands, the parser and the responses of the IMAP server: \<^verbatim>\<open>command.rs\<close>, \<^verbatim>\<open>parser.rs\<close> and
  \<^verbatim>\<open>response.rs\<close> of \<^verbatim>\<open>crates/rusmes-imap/src\<close>.  The parser library is the argument \<open>N\<close> of \<open>Nom_Parsers\<close>;
  \<^verbatim>\<open>str::to_uppercase\<close> is the argument \<open>uc\<close>, and the text in which the library reports that nothing
  matched is the argument \<open>report\<close>.
\<close>

section \<open>Commands\<close>

datatype store_mode = StoreReplace | StoreAdd | StoreRemove

datatype uid_subcommand =
    UidFetch string "string list"
  | UidStore string store_mode "string list"
  | UidSearch "string list"
  | UidCopy string string
  | UidMove string string
  | UidExpunge string

datatype imap_command =
    ILogin string string
  | ISelect string
  | IExamine string
  | IFetch string "string list"
  | IStore string store_mode "string list"
  | ISearch "string list"
  | IList string string
  | ILsub string string
  | ISubscribe string
  | IUnsubscribe string
  | ICreate string
  | ICreateSpecialUse string string
  | IDelete string
  | IRename string string
  | IAppend string "string list" "string option" string
  | ICopy string string
  | IMove string string
  | IExpunge
  | IClose
  | ICapability
  | ILogout
  | INoop
  | IIdle
  | INamespace
  | IAuthenticate string "string option"
  | ICompress string
  | IUid uid_subcommand

section \<open>The command parsers\<close>

text \<open>\<^verbatim>\<open>take_while1(|c| !c.is_whitespace())\<close>, \<^verbatim>\<open>str::trim_matches\<close> for the double quote and
  \<^verbatim>\<open>str::splitn(3, ' ')\<close>.\<close>

definition p_word :: "nom \<Rightarrow> string parser" where
  "p_word N = n_take_while1 N (\<lambda>ch. \<not> is_whitespace ch)"

definition trim_quotes :: "string \<Rightarrow> string" where
  "trim_quotes s = rev (dropWhile (\<lambda>c. c = CHR 0x22) (rev (dropWhile (\<lambda>c. c = CHR 0x22) s)))"

definition splitn3 :: "char \<Rightarrow> string \<Rightarrow> string list" where
  "splitn3 d s = (case splitn2 d s of a # b # _ \<Rightarrow> a # splitn2 d b | ps \<Rightarrow> ps)"

text \<open>A keyword and the blanks after it.\<close>

definition p_keyword :: "nom \<Rightarrow> string \<Rightarrow> 'a parser \<Rightarrow> 'a parser" where
  "p_keyword N t p = p_bind (n_tag_no_case N t) (\<lambda>_. p_bind (n_space1 N) (\<lambda>_. p))"

text \<open>A word, the blanks after it, and a parser for what follows.\<close>

definition p_word_then :: "nom \<Rightarrow> (string \<Rightarrow> 'a parser) \<Rightarrow> 'a parser" where
  "p_word_then N f = p_bind (p_word N) (\<lambda>w. p_bind (n_space1 N) (\<lambda>_. f w))"

definition parse_compress :: "nom \<Rightarrow> (string \<Rightarrow> string) \<Rightarrow> imap_command parser" where
  "parse_compress N uc = p_keyword N ''COMPRESS'' (p_bind (p_word N) (\<lambda>m. p_return (ICompress (uc m))))"

definition parse_idle :: "nom \<Rightarrow> imap_command parser" where
  "parse_idle N = p_bind (n_tag_no_case N ''IDLE'') (\<lambda>_. p_return IIdle)"

definition parse_namespace :: "nom \<Rightarrow> imap_command parser" where
  "parse_namespace N = p_bind (n_tag_no_case N ''NAMESPACE'') (\<lambda>_. p_return INamespace)"

definition parse_login :: "nom \<Rightarrow> imap_command parser" where
  "parse_login N = p_keyword N ''LOGIN'' (p_word_then N (\<lambda>user.
     p_bind (p_word N) (\<lambda>password. p_return (ILogin user password))))"

definition parse_authenticate :: "nom \<Rightarrow> (string \<Rightarrow> string) \<Rightarrow> imap_command parser" where
  "parse_authenticate N uc = p_keyword N ''AUTHENTICATE'' (p_bind (p_word N) (\<lambda>mechanism input.
     case n_space1 N input of
       Some (remaining, _) \<Rightarrow>
         p_bind (n_rest N) (\<lambda>response. p_return (IAuthenticate (uc mechanism) (Some (trim response)))) remaining
     | None \<Rightarrow> Some (input, IAuthenticate (uc mechanism) None)))"

definition parse_select :: "nom \<Rightarrow> imap_command parser" where
  "parse_select N = p_keyword N ''SELECT'' (p_bind (p_word N) (\<lambda>mailbox. p_return (ISelect mailbox)))"

definition parse_examine :: "nom \<Rightarrow> imap_command parser" where
  "parse_examine N = p_keyword N ''EXAMINE'' (p_bind (p_word N) (\<lambda>mailbox. p_return (IExamine mailbox)))"

definition parse_fetch :: "nom \<Rightarrow> imap_command parser" where
  "parse_fetch N = p_keyword N ''FETCH'' (p_word_then N (\<lambda>sequence.
     p_bind (n_rest N) (\<lambda>items. p_return (IFetch sequence (split_whitespace items)))))"

definition parse_list :: "nom \<Rightarrow> imap_command parser" where
  "parse_list N = p_keyword N ''LIST'' (p_word_then N (\<lambda>reference.
     p_bind (p_word N) (\<lambda>mailbox. p_return (IList reference mailbox))))"

definition parse_create_special_use :: "nom \<Rightarrow> imap_command parser" where
  "parse_create_special_use N = p_keyword N ''CREATE-SPECIAL-USE'' (p_word_then N (\<lambda>mailbox.
     p_bind (n_rest N) (\<lambda>special_use. p_return (ICreateSpecialUse (trim mailbox) (trim special_use)))))"

definition parse_create :: "nom \<Rightarrow> imap_command parser" where
  "parse_create N = p_keyword N ''CREATE'' (p_bind (n_rest N) (\<lambda>mailbox. p_return (ICreate (trim mailbox))))"

definition parse_delete :: "nom \<Rightarrow> imap_command parser" where
  "parse_delete N = p_keyword N ''DELETE'' (p_bind (n_rest N) (\<lambda>mailbox. p_return (IDelete (trim mailbox))))"

definition parse_rename :: "nom \<Rightarrow> imap_command parser" where
  "parse_rename N = p_keyword N ''RENAME'' (p_word_then N (\<lambda>old.
     p_bind (n_rest N) (\<lambda>new. p_return (IRename (trim_quotes old) (trim_quotes (trim new))))))"

definition parse_logout :: "nom \<Rightarrow> imap_command parser" where
  "parse_logout N = p_bind (n_tag_no_case N ''LOGOUT'') (\<lambda>_. p_return ILogout)"

definition parse_noop :: "nom \<Rightarrow> imap_command parser" where
  "parse_noop N = p_bind (n_tag_no_case N ''NOOP'') (\<lambda>_. p_return INoop)"

definition parse_store_mode :: "string \<Rightarrow> store_mode" where
  "parse_store_mode mode_str =
     (if eq_ignore_ascii_case mode_str ''FLAGS'' then StoreReplace
      else if eq_ignore_ascii_case mode_str ''+FLAGS'' then StoreAdd
      else if eq_ignore_ascii_case mode_str ''-FLAGS'' then StoreRemove
      else StoreReplace)"

definition parse_flag_list :: "string \<Rightarrow> string list" where
  "parse_flag_list s =
     (let flags_str = trim s in
      if starts_with flags_str ''('' \<and> ends_with flags_str '')''
      then split_whitespace (take (length flags_str - 2) (drop 1 flags_str))
      else [flags_str])"

definition parse_store :: "nom \<Rightarrow> imap_command parser" where
  "parse_store N = p_keyword N ''STORE'' (p_word_then N (\<lambda>sequence. p_word_then N (\<lambda>mode_str.
     p_bind (n_rest N) (\<lambda>flags. p_return (IStore sequence (parse_store_mode mode_str) (parse_flag_list flags))))))"

definition parse_search :: "nom \<Rightarrow> imap_command parser" where
  "parse_search N = p_keyword N ''SEARCH'' (p_bind (n_rest N) (\<lambda>criteria. p_return (ISearch (split_whitespace criteria))))"

definition parse_capability :: "nom \<Rightarrow> imap_command parser" where
  "parse_capability N = p_bind (n_tag_no_case N ''CAPABILITY'') (\<lambda>_. p_return ICapability)"

definition parse_copy :: "nom \<Rightarrow> imap_command parser" where
  "parse_copy N = p_keyword N ''COPY'' (p_word_then N (\<lambda>sequence.
     p_bind (n_rest N) (\<lambda>mailbox. p_return (ICopy sequence (trim_quotes (trim mailbox))))))"

definition parse_move :: "nom \<Rightarrow> imap_command parser" where
  "parse_move N = p_keyword N ''MOVE'' (p_word_then N (\<lambda>sequence.
     p_bind (n_rest N) (\<lambda>mailbox. p_return (IMove sequence (trim_quotes (trim mailbox))))))"

definition parse_lsub :: "nom \<Rightarrow> imap_command parser" where
  "parse_lsub N = p_keyword N ''LSUB'' (p_word_then N (\<lambda>reference.
     p_bind (p_word N) (\<lambda>mailbox. p_return (ILsub reference mailbox))))"

definition parse_subscribe :: "nom \<Rightarrow> imap_command parser" where
  "parse_subscribe N = p_keyword N ''SUBSCRIBE'' (p_bind (n_rest N) (\<lambda>mailbox. p_return (ISubscribe (trim mailbox))))"

definition parse_unsubscribe :: "nom \<Rightarrow> imap_command parser" where
  "parse_unsubscribe N =
     p_keyword N ''UNSUBSCRIBE'' (p_bind (n_rest N) (\<lambda>mailbox. p_return (IUnsubscribe (trim mailbox))))"

definition parse_expunge :: "nom \<Rightarrow> imap_command parser" where
  "parse_expunge N = p_bind (n_tag_no_case N ''EXPUNGE'') (\<lambda>_. p_return IExpunge)"

definition parse_close :: "nom \<Rightarrow> imap_command parser" where
  "parse_close N = p_bind (n_tag_no_case N ''CLOSE'') (\<lambda>_. p_return IClose)"

definition parse_uid_fetch :: "nom \<Rightarrow> uid_subcommand parser" where
  "parse_uid_fetch N = p_keyword N ''FETCH'' (p_word_then N (\<lambda>sequence.
     p_bind (n_rest N) (\<lambda>items. p_return (UidFetch sequence (split_whitespace items)))))"

definition parse_uid_store :: "nom \<Rightarrow> uid_subcommand parser" where
  "parse_uid_store N = p_keyword N ''STORE'' (p_word_then N (\<lambda>sequence. p_word_then N (\<lambda>mode_str.
     p_bind (n_rest N) (\<lambda>flags. p_return (UidStore sequence (parse_store_mode mode_str) (parse_flag_list flags))))))"

definition parse_uid_search :: "nom \<Rightarrow> uid_subcommand parser" where
  "parse_uid_search N =
     p_keyword N ''SEARCH'' (p_bind (n_rest N) (\<lambda>criteria. p_return (UidSearch (split_whitespace criteria))))"

definition parse_uid_copy :: "nom \<Rightarrow> uid_subcommand parser" where
  "parse_uid_copy N = p_keyword N ''COPY'' (p_word_then N (\<lambda>sequence.
     p_bind (n_rest N) (\<lambda>mailbox. p_return (UidCopy sequence (trim_quotes (trim mailbox))))))"

definition parse_uid_move :: "nom \<Rightarrow> uid_subcommand parser" where
  "parse_uid_move N = p_keyword N ''MOVE'' (p_word_then N (\<lambda>sequence.
     p_bind (n_rest N) (\<lambda>mailbox. p_return (UidMove sequence (trim_quotes (trim mailbox))))))"

definition parse_uid_expunge :: "nom \<Rightarrow> uid_subcommand parser" where
  "parse_uid_expunge N = p_keyword N ''EXPUNGE'' (p_bind (n_rest N) (\<lambda>sequence. p_return (UidExpunge (trim sequence))))"

definition parse_uid :: "nom \<Rightarrow> imap_command parser" where
  "parse_uid N = p_keyword N ''UID'' (p_bind
     (p_alt [parse_uid_fetch N, parse_uid_store N, parse_uid_search N, parse_uid_copy N, parse_uid_move N, parse_uid_expunge N])
     (\<lambda>sub. p_return (IUid sub)))"

definition parse_imap_command_group1 :: "nom \<Rightarrow> (string \<Rightarrow> string) \<Rightarrow> imap_command parser" where
  "parse_imap_command_group1 N uc =
     p_alt [parse_uid N, parse_login N, parse_authenticate N uc, parse_select N, parse_examine N, parse_fetch N,
            parse_store N, parse_search N, parse_list N, parse_lsub N, parse_subscribe N, parse_unsubscribe N]"

definition parse_imap_command_group2 :: "nom \<Rightarrow> (string \<Rightarrow> string) \<Rightarrow> imap_command parser" where
  "parse_imap_command_group2 N uc =
     p_alt [parse_create_special_use N, parse_create N, parse_delete N, parse_rename N, parse_copy N, parse_move N,
            parse_expunge N, parse_close N, parse_capability N, parse_logout N, parse_noop N, parse_idle N,
            parse_namespace N, parse_compress N uc]"

definition parse_imap_command :: "nom \<Rightarrow> (string \<Rightarrow> string) \<Rightarrow> imap_command parser" where
  "parse_imap_command N uc = p_alt [parse_imap_command_group1 N uc, parse_imap_command_group2 N uc]"

definition imap_parse_command ::
    "nom \<Rightarrow> (string \<Rightarrow> string) \<Rightarrow> (string \<Rightarrow> string) \<Rightarrow> string \<Rightarrow> (string \<times> imap_command) result" where
  "imap_parse_command N uc report input =
     (case splitn3 (CHR '' '') input of
        [] \<Rightarrow> Inl ''Empty command''
      | [_] \<Rightarrow> Inl ''No command specified''
      | tag # p1 # ps \<Rightarrow>
          let cmd_line = (case ps of p2 # _ \<Rightarrow> p1 @ '' '' @ p2 | [] \<Rightarrow> p1) in
          case parse_imap_command N uc cmd_line of
            None \<Rightarrow> Inl (report cmd_line)
          | Some (_, command) \<Rightarrow> Inr (tag, command))"

section \<open>APPEND and literals\<close>

datatype literal_type = Synchronizing | NonSynchronizing

text \<open>The loop over the characters: the finished parts, the flags for quotes and parentheses and the
  current part; the last two results are the parts and the current part when the loop ends.\<close>

fun append_parts :: "bool \<Rightarrow> bool \<Rightarrow> string \<Rightarrow> string list \<Rightarrow> string \<Rightarrow> string list \<times> string" where
  "append_parts in_quotes in_parens current parts [] = (parts, current)"
| "append_parts in_quotes in_parens current parts (c # cs) =
     (if c = CHR 0x22 then append_parts (\<not> in_quotes) in_parens (current @ [c]) parts cs
      else if c = CHR ''('' \<and> \<not> in_quotes then append_parts in_quotes True (current @ [c]) parts cs
      else if c = CHR '')'' \<and> \<not> in_quotes then append_parts in_quotes False (current @ [c]) parts cs
      else if c = CHR '' '' \<and> \<not> in_quotes \<and> \<not> in_parens then
        append_parts in_quotes in_parens [] (if current \<noteq> [] then parts @ [current] else parts) cs
      else if c = CHR ''{'' \<and> \<not> in_quotes then
        (if current \<noteq> [] then parts @ [current] else parts, current)
      else append_parts in_quotes in_parens (current @ [c]) parts cs)"

fun append_options :: "string list \<Rightarrow> string list \<Rightarrow> string option \<Rightarrow> string list \<times> string option" where
  "append_options [] flags date_time = (flags, date_time)"
| "append_options (part # parts) flags date_time =
     (if starts_with part ''('' \<and> ends_with part '')''
      then append_options parts (split_whitespace (take (length part - 2) (drop 1 part))) date_time
      else if starts_with part [CHR 0x22] then append_options parts flags (Some (trim_quotes part))
      else append_options parts flags date_time)"

definition parse_append_args :: "string \<Rightarrow> (string \<times> string list \<times> string option) result" where
  "parse_append_args input =
     (case append_parts False False [] [] input of (parts, current) \<Rightarrow>
        case (if current \<noteq> [] \<and> \<not> starts_with current ''{'' then parts @ [current] else parts) of
          [] \<Rightarrow> Inl ''Missing mailbox name''
        | p # ps \<Rightarrow> (case append_options ps [] None of (flags, date_time) \<Rightarrow> Inr (trim_quotes p, flags, date_time)))"

definition parse_append_command :: "string \<Rightarrow> string \<Rightarrow> (string \<times> imap_command) result" where
  "parse_append_command input literal_data =
     (case splitn3 (CHR '' '') input of
        tag # _ # args # _ \<Rightarrow>
          rbind (parse_append_args args) (\<lambda>(mailbox, flags, date_time).
            Inr (tag, IAppend mailbox flags date_time literal_data))
      | _ \<Rightarrow> Inl ''Invalid APPEND command'')"

text \<open>\<^verbatim>\<open>str::find\<close> for one character.\<close>

fun find_char :: "char \<Rightarrow> string \<Rightarrow> nat option" where
  "find_char d [] = None"
| "find_char d (c # cs) = (if c = d then Some 0 else map_option Suc (find_char d cs))"

definition has_literal :: "string \<Rightarrow> (nat \<times> literal_type) option" where
  "has_literal input =
     (case rfind (CHR ''{'') input of
        None \<Rightarrow> None
      | Some start \<Rightarrow>
          (case find_char (CHR ''}'') (drop start input) of
             None \<Rightarrow> None
           | Some end' \<Rightarrow>
               let size_str = take (end' - 1) (drop (start + 1) input) in
               if size_str = [] \<or> starts_with size_str ''+'' \<or> starts_with size_str ''-'' then None
               else case strip_suffix ''+'' size_str of
                 Some stripped \<Rightarrow> map_option (\<lambda>size. (size, NonSynchronizing)) (parse_uint usize_max stripped)
               | None \<Rightarrow> map_option (\<lambda>size. (size, Synchronizing)) (parse_uint usize_max size_str)))"

definition get_literal_size :: "string \<Rightarrow> nat option" where
  "get_literal_size input = map_option fst (has_literal input)"

section \<open>Responses\<close>

record imap_response =
  ir_tag :: "string option"
  ir_status :: string
  ir_message :: string

definition ImapResponse_new :: "string option \<Rightarrow> string \<Rightarrow> string \<Rightarrow> imap_response" where
  "ImapResponse_new tag status message = \<lparr>ir_tag = tag, ir_status = status, ir_message = message\<rparr>"

definition imap_ok :: "string \<Rightarrow> string \<Rightarrow> imap_response" where
  "imap_ok tag message = ImapResponse_new (Some tag) ''OK'' message"

definition imap_bad :: "string \<Rightarrow> string \<Rightarrow> imap_response" where
  "imap_bad tag message = ImapResponse_new (Some tag) ''BAD'' message"

definition imap_no :: "string \<Rightarrow> string \<Rightarrow> imap_response" where
  "imap_no tag message = ImapResponse_new (Some tag) ''NO'' message"

definition imap_format :: "imap_response \<Rightarrow> string" where
  "imap_format r =
     (case ir_tag r of
        Some tag \<Rightarrow> tag @ '' '' @ ir_status r @ '' '' @ ir_message r @ CRLF
      | None \<Rightarrow> ''* '' @ ir_status r @ '' '' @ ir_message r @ CRLF)"

end
