(* ===== verification/Storage_Types.thy ===== *)
theory Storage_Types
  imports Proto_Mime
begin

text \<open>
  Model of the types and traits of \<^verbatim>\<open>crates/rusmes-storage/src/types.rs\<close> and \<^verbatim>\<open>traits.rs\<close> and of the
  modification sequences of \<^verbatim>\<open>modseq.rs\<close>.  A hash set of strings is a list without repetitions.  The
  three store traits are one record of operations over the state of a backend, so that the servers
  are modelled for every backend; \<^verbatim>\<open>uid\<close> and the counters of a mailbox are \<^verbatim>\<open>u32\<close>.
\<close>

section \<open>Mailboxes and messages\<close>

datatype mailbox_id = MailboxId uuid

record mailbox_path =
  mp_user :: username
  mp_path :: "string list"

definition path_name :: "mailbox_path \<Rightarrow> string option" where
  "path_name p = (if mp_path p = [] then None else Some (last (mp_path p)))"

definition path_display :: "mailbox_path \<Rightarrow> string" where
  "path_display p = username_str (mp_user p) @ ''/'' @ str_join ''/'' (mp_path p)"

record mailbox =
  mb_id :: mailbox_id
  mb_path :: mailbox_path
  mb_uid_validity :: nat
  mb_uid_next :: nat
  mb_special_use :: "string option"

definition Mailbox_new :: "mailbox_id \<Rightarrow> mailbox_path \<Rightarrow> mailbox" where
  "Mailbox_new new_id p =
     \<lparr>mb_id = new_id, mb_path = p, mb_uid_validity = 1, mb_uid_next = 1, mb_special_use = None\<rparr>"

definition Mailbox_new_with_special_use :: "mailbox_id \<Rightarrow> mailbox_path \<Rightarrow> string \<Rightarrow> mailbox" where
  "Mailbox_new_with_special_use new_id p special_use =
     \<lparr>mb_id = new_id, mb_path = p, mb_uid_validity = 1, mb_uid_next = 1, mb_special_use = Some special_use\<rparr>"

definition mailbox_name :: "mailbox \<Rightarrow> string option" where
  "mailbox_name mb = path_name (mb_path mb)"

record message_flags =
  mf_seen :: bool
  mf_answered :: bool
  mf_flagged :: bool
  mf_deleted :: bool
  mf_draft :: bool
  mf_recent :: bool
  mf_custom :: "string list"

definition MessageFlags_new :: message_flags where
  "MessageFlags_new =
     \<lparr>mf_seen = False, mf_answered = False, mf_flagged = False, mf_deleted = False, mf_draft = False,
      mf_recent = False, mf_custom = []\<rparr>"

definition add_custom :: "string \<Rightarrow> message_flags \<Rightarrow> message_flags" where
  "add_custom flag fl = fl\<lparr>mf_custom := List.insert flag (mf_custom fl)\<rparr>"

definition remove_custom :: "string \<Rightarrow> message_flags \<Rightarrow> bool \<times> message_flags" where
  "remove_custom flag fl = (flag \<in> set (mf_custom fl), fl\<lparr>mf_custom := removeAll flag (mf_custom fl)\<rparr>)"

record message_metadata =
  md_message_id :: message_id
  md_mailbox_id :: mailbox_id
  md_uid :: nat
  md_flags :: message_flags
  md_size :: nat
  md_thread_id :: "string option"

definition MessageMetadata_new ::
    "message_id \<Rightarrow> mailbox_id \<Rightarrow> nat \<Rightarrow> message_flags \<Rightarrow> nat \<Rightarrow> string option \<Rightarrow> message_metadata" where
  "MessageMetadata_new message_id mailbox_id uid flags sz thread_id =
     \<lparr>md_message_id = message_id, md_mailbox_id = mailbox_id, md_uid = uid, md_flags = flags, md_size = sz,
      md_thread_id = thread_id\<rparr>"

datatype search_criteria =
    SAll | SUnseen | SSeen | SFlagged | SUnflagged | SDeleted | SUndeleted
  | SFrom string | STo string | SSubject string | SBody string
  | SAnd "search_criteria list" | SOr "search_criteria list" | SNot search_criteria

record mailbox_counters =
  mc_exists :: nat
  mc_recent :: nat
  mc_unseen :: nat

record mail_quota =
  mqt_used :: nat
  mqt_limit :: nat

definition quota_is_exceeded :: "mail_quota \<Rightarrow> bool" where
  "quota_is_exceeded q \<longleftrightarrow> mqt_limit q \<le> mqt_used q"

definition quota_remaining :: "mail_quota \<Rightarrow> nat" where
  "quota_remaining q = mqt_limit q - mqt_used q"

section \<open>Special-use attributes\<close>

type_synonym special_use_attributes = "string list"

definition special_use_single :: "string \<Rightarrow> special_use_attributes" where
  "special_use_single attribute = [attribute]"

definition special_use_add :: "string \<Rightarrow> special_use_attributes \<Rightarrow> special_use_attributes" where
  "special_use_add attribute attrs = List.insert attribute attrs"

definition special_use_remove :: "string \<Rightarrow> special_use_attributes \<Rightarrow> bool \<times> special_use_attributes" where
  "special_use_remove attribute attrs = (attribute \<in> set attrs, removeAll attribute attrs)"

definition special_use_from_vec :: "string list \<Rightarrow> special_use_attributes" where
  "special_use_from_vec attributes = foldl (\<lambda>s a. List.insert a s) [] attributes"

definition special_use_display :: "special_use_attributes \<Rightarrow> string" where
  "special_use_display attrs = str_join '' '' attrs"

lemma special_use_from_vec_set: "set (special_use_from_vec as) = set as \<and> distinct (special_use_from_vec as)"
proof -
  have "set (foldl (\<lambda>s a. List.insert a s) acc as) = set acc \<union> set as \<and>
      (distinct acc \<longrightarrow> distinct (foldl (\<lambda>s a. List.insert a s) acc as))" for acc
    by (induction as arbitrary: acc) auto
  then show ?thesis by (simp add: special_use_from_vec_def)
qed

section \<open>The stores of a backend\<close>

text \<open>The operations of the operating system that can fail; an environment says which do.\<close>

datatype io_op = IoCreateDir | IoWrite | IoRename | IoReadDir | IoRead | IoRemoveFile | IoRemoveDir | IoLock
  | IoThreadRead | IoThreadPersist | IoReadBody

type_synonym ('s, 'a) store_op = "'s \<Rightarrow> 's \<times> 'a result"

record 's mail_store =
  st_create_mailbox :: "mailbox_path \<Rightarrow> ('s, mailbox_id) store_op"
  st_delete_mailbox :: "mailbox_id \<Rightarrow> ('s, unit) store_op"
  st_rename_mailbox :: "mailbox_id \<Rightarrow> mailbox_path \<Rightarrow> ('s, unit) store_op"
  st_get_mailbox :: "mailbox_id \<Rightarrow> ('s, mailbox option) store_op"
  st_list_mailboxes :: "username \<Rightarrow> ('s, mailbox list) store_op"
  st_get_user_inbox :: "username \<Rightarrow> ('s, mailbox_id option) store_op"
  st_get_special_use :: "mailbox_id \<Rightarrow> ('s, special_use_attributes) store_op"
  st_set_special_use :: "mailbox_id \<Rightarrow> special_use_attributes \<Rightarrow> ('s, unit) store_op"
  st_subscribe :: "username \<Rightarrow> string \<Rightarrow> ('s, unit) store_op"
  st_unsubscribe :: "username \<Rightarrow> string \<Rightarrow> ('s, unit) store_op"
  st_list_subscriptions :: "username \<Rightarrow> ('s, string list) store_op"
  st_append_message :: "mailbox_id \<Rightarrow> mail \<Rightarrow> ('s, message_metadata) store_op"
  st_get_message :: "message_id \<Rightarrow> ('s, mail option) store_op"
  st_delete_messages :: "message_id list \<Rightarrow> ('s, unit) store_op"
  st_set_flags :: "message_id list \<Rightarrow> message_flags \<Rightarrow> ('s, unit) store_op"
  st_search :: "mailbox_id \<Rightarrow> search_criteria \<Rightarrow> ('s, message_id list) store_op"
  st_copy_messages :: "message_id list \<Rightarrow> mailbox_id \<Rightarrow> ('s, message_metadata list) store_op"
  st_get_mailbox_messages :: "mailbox_id \<Rightarrow> ('s, message_metadata list) store_op"
  st_get_user_quota :: "username \<Rightarrow> ('s, mail_quota) store_op"
  st_set_user_quota :: "username \<Rightarrow> mail_quota \<Rightarrow> ('s, unit) store_op"
  st_get_mailbox_counters :: "mailbox_id \<Rightarrow> ('s, mailbox_counters) store_op"

definition sbind :: "'s \<times> 'a result \<Rightarrow> ('a \<Rightarrow> 's \<Rightarrow> 's \<times> 'b result) \<Rightarrow> 's \<times> 'b result" where
  "sbind r f = (case r of (s, Inl e) \<Rightarrow> (s, Inl e) | (s, Inr x) \<Rightarrow> f x s)"

lemma sbind_Inr [simp]: "sbind (s, Inr x) f = f x s"
  by (simp add: sbind_def)

lemma sbind_Inl [simp]: "sbind (s, Inl e) f = (s, Inl e)"
  by (simp add: sbind_def)

text \<open>The default methods of the traits.\<close>

definition default_get_special_use :: "mailbox_id \<Rightarrow> ('s, special_use_attributes) store_op" where
  "default_get_special_use i s = (s, Inr [])"

definition default_set_special_use :: "mailbox_id \<Rightarrow> special_use_attributes \<Rightarrow> ('s, unit) store_op" where
  "default_set_special_use i attrs s = (s, Inr ())"

definition create_mailbox_with_special_use ::
    "'s mail_store \<Rightarrow> mailbox_path \<Rightarrow> special_use_attributes \<Rightarrow> ('s, mailbox_id) store_op" where
  "create_mailbox_with_special_use st p special_use s =
     sbind (st_create_mailbox st p s) (\<lambda>i s1.
     sbind (st_set_special_use st i special_use s1) (\<lambda>_ s2. (s2, Inr i)))"

fun filter_special_use :: "'s mail_store \<Rightarrow> string \<Rightarrow> mailbox list \<Rightarrow> ('s, mailbox list) store_op" where
  "filter_special_use st special_use [] s = (s, Inr [])"
| "filter_special_use st special_use (mb # mbs) s =
     sbind (st_get_special_use st (mb_id mb) s) (\<lambda>attrs s1.
     sbind (filter_special_use st special_use mbs s1) (\<lambda>rest s2.
       (s2, Inr (if special_use \<in> set attrs then mb # rest else rest))))"

definition list_mailboxes_by_special_use ::
    "'s mail_store \<Rightarrow> username \<Rightarrow> string \<Rightarrow> ('s, mailbox list) store_op" where
  "list_mailboxes_by_special_use st user special_use s =
     sbind (st_list_mailboxes st user s) (\<lambda>mbs s1. filter_special_use st special_use mbs s1)"

section \<open>Searching strings\<close>

text \<open>\<^verbatim>\<open>str::find\<close> and \<^verbatim>\<open>str::split\<close> with a string.\<close>

fun find_str :: "string \<Rightarrow> string \<Rightarrow> nat option" where
  "find_str pat [] = (if pat = [] then Some 0 else None)"
| "find_str pat (c # cs) = (if starts_with (c # cs) pat then Some 0 else map_option Suc (find_str pat cs))"

lemma find_str_split:
  "find_str pat s = Some i \<Longrightarrow> i + length pat \<le> length s \<and> s = take i s @ pat @ drop (i + length pat) s"
proof (induction s arbitrary: i)
  case (Cons c cs)
  show ?case
  proof (cases "starts_with (c # cs) pat")
    case True
    then obtain r where r: "c # cs = pat @ r" by (auto simp: starts_with_iff)
    from True Cons.prems have "i = 0" by simp
    then show ?thesis unfolding r by simp
  next
    case False
    with Cons.prems obtain j where "find_str pat cs = Some j" "i = Suc j" by auto
    with Cons.IH [of j] show ?thesis by simp
  qed
qed (simp split: if_splits)

function split_str :: "string \<Rightarrow> string \<Rightarrow> string list" where
  "split_str pat s =
     (if pat = [] then [s]
      else case find_str pat s of
        None \<Rightarrow> [s]
      | Some i \<Rightarrow> take i s # split_str pat (drop (i + length pat) s))"
  by pat_completeness auto
termination
proof (relation "measure (\<lambda>(pat, s). length s)", goal_cases)
  case (2 pat s i)
  with find_str_split [of pat s i] have "i + length pat \<le> length s" "0 < length pat" by simp_all
  then have "length s - (i + length pat) < length s" by linarith
  then show ?case by simp
qed simp

declare split_str.simps [simp del]

lemma find_str_None: "pat \<noteq> [] \<Longrightarrow> hd pat \<notin> set s \<Longrightarrow> find_str pat s = None"
  by (induction s) (auto simp: starts_with_iff Cons_eq_append_conv)

lemma find_str_first:
  "pat \<noteq> [] \<Longrightarrow> hd pat \<notin> set a \<Longrightarrow> find_str pat (a @ pat @ b) = Some (length a)"
proof (induction a)
  case Nil
  then show ?case by (cases pat) (auto simp: starts_with_iff)
next
  case (Cons c cs)
  then have "\<not> starts_with (c # cs @ pat @ b) pat" by (cases pat) (auto simp: starts_with_iff)
  with Cons show ?case by simp
qed

lemma split_str_None: "pat \<noteq> [] \<Longrightarrow> hd pat \<notin> set s \<Longrightarrow> split_str pat s = [s]"
  by (subst split_str.simps) (simp add: find_str_None)

lemma split_str_first:
  "pat \<noteq> [] \<Longrightarrow> hd pat \<notin> set a \<Longrightarrow> split_str pat (a @ pat @ b) = a # split_str pat b"
  by (subst split_str.simps) (simp add: find_str_first)

section \<open>Modification sequences\<close>

datatype mod_seq = ModSeq "64 word"

primrec mod_seq_value :: "mod_seq \<Rightarrow> 64 word" where
  "mod_seq_value (ModSeq w) = w"

definition mod_seq_is_valid :: "mod_seq \<Rightarrow> bool" where
  "mod_seq_is_valid m \<longleftrightarrow> 0 < mod_seq_value m"

definition mod_seq_increment :: "mod_seq \<Rightarrow> mod_seq" where
  "mod_seq_increment m = ModSeq (mod_seq_value m + 1)"

definition generator_with_start_value :: "64 word \<Rightarrow> 64 word" where
  "generator_with_start_value start = max start 1"

definition generator_next :: "64 word \<Rightarrow> mod_seq \<times> 64 word" where
  "generator_next counter = (ModSeq counter, counter + 1)"

definition generator_current :: "64 word \<Rightarrow> mod_seq" where
  "generator_current counter = ModSeq (max (if counter = 0 then 0 else counter - 1) 1)"

fun generate :: "nat \<Rightarrow> 64 word \<Rightarrow> mod_seq list \<times> 64 word" where
  "generate 0 counter = ([], counter)"
| "generate (Suc n) counter =
     (case generator_next counter of (m, c) \<Rightarrow> case generate n c of (ms, c') \<Rightarrow> (m # ms, c'))"

record mailbox_mod_seq =
  mms_name :: string
  mms_highestmodseq :: mod_seq
  mms_uidvalidity :: nat
  mms_uidnext :: nat

definition MailboxModSeq_new :: "string \<Rightarrow> nat \<Rightarrow> nat \<Rightarrow> mailbox_mod_seq" where
  "MailboxModSeq_new name uidvalidity uidnext =
     \<lparr>mms_name = name, mms_highestmodseq = ModSeq 1, mms_uidvalidity = uidvalidity, mms_uidnext = uidnext\<rparr>"

definition update_modseq :: "mod_seq \<Rightarrow> mailbox_mod_seq \<Rightarrow> mailbox_mod_seq" where
  "update_modseq m mb =
     (if mod_seq_value (mms_highestmodseq mb) < mod_seq_value m then mb\<lparr>mms_highestmodseq := m\<rparr> else mb)"

lemma generate_values:
  "unat counter + n < 2 ^ 64 \<Longrightarrow>
     map (\<lambda>m. unat (mod_seq_value m)) (fst (generate n counter)) = [unat counter..<unat counter + n] \<and>
     unat (snd (generate n counter)) = unat counter + n"
proof (induction n arbitrary: counter)
  case (Suc n)
  then have "unat (counter + 1) = unat counter + 1" by (simp add: unat_word_ariths(1))
  with Suc.IH [of "counter + 1"] Suc.prems show ?case
    by (cases "generate n (counter + 1)")
      (simp add: generator_next_def upt_rec [of "unat counter" "Suc (unat counter + n)"] del: upt_Suc)
qed simp

lemma update_modseq_max:
  "mod_seq_value (mms_highestmodseq (foldl (\<lambda>mb m. update_modseq m mb) mb ms)) =
     foldl (\<lambda>h m. max h (mod_seq_value m)) (mod_seq_value (mms_highestmodseq mb)) ms"
  by (induction ms arbitrary: mb) (auto simp: update_modseq_def max_def)

end
