(* ===== verification/Imap_Registry.thy ===== *)
theory Imap_Registry
  imports Storage_Types
begin

text \<open>
  Model of the notifications between IMAP sessions: \<^verbatim>\<open>crates/rusmes-imap/src/mailbox_registry.rs\<close>.  The
  broadcast channel of the runtime library is the record \<open>broadcast\<close> of its operations; what the library
  documents about them is the locale \<open>broadcast_laws\<close>: a receiver gets every value sent after it
  subscribed, in order, and when more values than the capacity wait the oldest is given up and
  counted.  \<open>queue_broadcast\<close> is an instance with one queue for each receiver.
\<close>

datatype mailbox_event =
    EvExists nat
  | EvRecent nat
  | EvExpunge nat
  | EvFlagsChanged nat "string list"

datatype received = Received mailbox_event | RecvEmpty | RecvLagged nat | RecvClosed

record 'c broadcast =
  bc_channel :: "nat \<Rightarrow> 'c"
  bc_subscribe :: "'c \<Rightarrow> 'c \<times> nat"
  bc_send :: "'c \<Rightarrow> mailbox_event \<Rightarrow> 'c"
  bc_try_recv :: "'c \<Rightarrow> nat \<Rightarrow> 'c \<times> received"
  bc_drop :: "'c \<Rightarrow> nat \<Rightarrow> 'c"
  bc_receiver_count :: "'c \<Rightarrow> nat"

section \<open>The registry\<close>

type_synonym 'c mailbox_registry = "(mailbox_id \<times> 'c) list"

definition channel_capacity :: nat where
  "channel_capacity = 256"

definition registry_subscribe :: "'c broadcast \<Rightarrow> mailbox_id \<Rightarrow> 'c mailbox_registry \<Rightarrow> 'c mailbox_registry \<times> nat" where
  "registry_subscribe B i reg =
     (case bc_subscribe B (case map_of reg i of Some c \<Rightarrow> c | None \<Rightarrow> bc_channel B channel_capacity) of
        (c, r) \<Rightarrow> (AList.update i c reg, r))"

definition registry_publish :: "'c broadcast \<Rightarrow> mailbox_id \<Rightarrow> mailbox_event \<Rightarrow> 'c mailbox_registry \<Rightarrow> 'c mailbox_registry" where
  "registry_publish B i ev reg =
     (case map_of reg i of None \<Rightarrow> reg | Some c \<Rightarrow> AList.update i (bc_send B c ev) reg)"

definition cleanup_closed :: "'c broadcast \<Rightarrow> 'c mailbox_registry \<Rightarrow> 'c mailbox_registry" where
  "cleanup_closed B reg = filter (\<lambda>(i, c). 0 < bc_receiver_count B c) reg"

text \<open>A receiver goes out of scope.\<close>

definition drop_receiver :: "'c broadcast \<Rightarrow> (mailbox_id \<times> nat) option \<Rightarrow> 'c mailbox_registry \<Rightarrow> 'c mailbox_registry" where
  "drop_receiver B rx reg =
     (case rx of
        None \<Rightarrow> reg
      | Some (i, r) \<Rightarrow> (case map_of reg i of None \<Rightarrow> reg | Some c \<Rightarrow> AList.update i (bc_drop B c r) reg))"

definition try_recv :: "'c broadcast \<Rightarrow> mailbox_id \<times> nat \<Rightarrow> 'c mailbox_registry \<Rightarrow> 'c mailbox_registry \<times> received" where
  "try_recv B rx reg =
     (case map_of reg (fst rx) of
        None \<Rightarrow> (reg, RecvClosed)
      | Some c \<Rightarrow> (case bc_try_recv B c (snd rx) of (c', v) \<Rightarrow> (AList.update (fst rx) c' reg, v)))"

section \<open>The documented behaviour of a broadcast channel\<close>

text \<open>The values that wait for a receiver, with at most \<open>n\<close> kept, and the number of those given up.\<close>

definition enqueue_event :: "nat \<Rightarrow> mailbox_event \<Rightarrow> mailbox_event list \<times> nat \<Rightarrow> mailbox_event list \<times> nat" where
  "enqueue_event n ev q =
     (if length (fst q) < n then (fst q @ [ev], snd q) else (tl (fst q) @ [ev], Suc (snd q)))"

definition receive_event :: "mailbox_event list \<times> nat \<Rightarrow> (mailbox_event list \<times> nat) \<times> received" where
  "receive_event q =
     (if 0 < snd q then ((fst q, 0), RecvLagged (snd q))
      else case fst q of [] \<Rightarrow> (q, RecvEmpty) | ev # evs \<Rightarrow> ((evs, 0), Received ev))"

text \<open>What waits for a receiver in a registry, and that its channels have the registry's capacity.\<close>

definition inbox_of ::
    "('c \<Rightarrow> nat \<rightharpoonup> mailbox_event list \<times> nat) \<Rightarrow> 'c mailbox_registry \<Rightarrow> mailbox_id \<times> nat \<Rightarrow> (mailbox_event list \<times> nat) option" where
  "inbox_of waiting reg rx = (case map_of reg (fst rx) of None \<Rightarrow> None | Some c \<Rightarrow> waiting c (snd rx))"

definition bounded :: "('c \<Rightarrow> nat) \<Rightarrow> 'c mailbox_registry \<Rightarrow> bool" where
  "bounded capacity reg \<longleftrightarrow> (\<forall>i c. map_of reg i = Some c \<longrightarrow> capacity c = channel_capacity)"

locale broadcast_laws =
  fixes B :: "'c broadcast"
    and waiting :: "'c \<Rightarrow> nat \<rightharpoonup> mailbox_event list \<times> nat"
    and capacity :: "'c \<Rightarrow> nat"
  assumes new: "waiting (bc_channel B n) = Map.empty" "capacity (bc_channel B n) = n"
    and subscribe: "bc_subscribe B c = (c', r) \<Longrightarrow>
      waiting c r = None \<and> waiting c' = (waiting c)(r \<mapsto> ([], 0)) \<and> capacity c' = capacity c"
    and send: "waiting (bc_send B c ev) r = map_option (enqueue_event (capacity c) ev) (waiting c r)"
      "capacity (bc_send B c ev) = capacity c"
    and recv: "waiting c r = Some q \<Longrightarrow> bc_try_recv B c r = (c', v) \<Longrightarrow>
      v = snd (receive_event q) \<and> waiting c' = (waiting c)(r \<mapsto> fst (receive_event q)) \<and> capacity c' = capacity c"
    and drop: "waiting (bc_drop B c r) = (waiting c)(r := None)" "capacity (bc_drop B c r) = capacity c"
    and count: "bc_receiver_count B c = card (dom (waiting c))" "finite (dom (waiting c))"
begin

lemma publish_inbox:
  "bounded capacity reg \<Longrightarrow> inbox_of waiting (registry_publish B i ev reg) rx =
     (if fst rx = i then map_option (enqueue_event channel_capacity ev) (inbox_of waiting reg rx) else inbox_of waiting reg rx)"
  by (auto simp: registry_publish_def inbox_of_def bounded_def update_conv' send split: option.splits)

lemma publish_bounded: "bounded capacity reg \<Longrightarrow> bounded capacity (registry_publish B i ev reg)"
  by (auto simp: registry_publish_def bounded_def update_conv' send split: option.splits)

lemma subscribe_inbox:
  assumes "registry_subscribe B i reg = (reg', r)"
  shows "inbox_of waiting reg (i, r) = None" "inbox_of waiting reg' (i, r) = Some ([], 0)"
    and "rx \<noteq> (i, r) \<Longrightarrow> inbox_of waiting reg' rx = inbox_of waiting reg rx" "bounded capacity reg \<Longrightarrow> bounded capacity reg'"
proof -
  let ?c = "case map_of reg i of Some c \<Rightarrow> c | None \<Rightarrow> bc_channel B channel_capacity"
  obtain c where c: "bc_subscribe B ?c = (c, r)" "reg' = AList.update i c reg"
    using assms by (auto simp: registry_subscribe_def split: prod.splits)
  note s = subscribe [OF c(1)]
  have old: "waiting ?c q = inbox_of waiting reg (i, q)" for q by (simp add: inbox_of_def new split: option.splits)
  show "inbox_of waiting reg (i, r) = None" "inbox_of waiting reg' (i, r) = Some ([], 0)"
    using s old [of r] by (simp_all add: inbox_of_def c(2) update_conv')
  show "inbox_of waiting reg' rx = inbox_of waiting reg rx" if "rx \<noteq> (i, r)"
  proof (cases "fst rx = i")
    case True
    then have "inbox_of waiting reg' rx = waiting c (snd rx)" by (simp add: inbox_of_def c(2) update_conv')
    also have "\<dots> = waiting ?c (snd rx)" using s True that by (cases rx) simp
    finally show ?thesis using True old [of "snd rx"] by (cases rx) simp
  qed (simp add: inbox_of_def c(2) update_conv')
  show "bounded capacity reg'" if "bounded capacity reg"
    using that s by (auto simp: bounded_def c(2) update_conv' new split: option.splits)
qed

lemma drop_inbox:
  "inbox_of waiting (drop_receiver B rx reg) rx' = (if rx = Some rx' then None else inbox_of waiting reg rx')"
  "bounded capacity reg \<Longrightarrow> bounded capacity (drop_receiver B rx reg)"
  by (cases rx'; auto simp: drop_receiver_def inbox_of_def bounded_def update_conv' drop split: option.splits prod.splits)+

lemma try_recv_inbox:
  assumes "inbox_of waiting reg rx = Some q" "try_recv B rx reg = (reg', v)"
  shows try_recv_value: "v = snd (receive_event q)" and try_recv_own: "inbox_of waiting reg' rx = Some (fst (receive_event q))"
    and try_recv_others: "rx' \<noteq> rx \<Longrightarrow> inbox_of waiting reg' rx' = inbox_of waiting reg rx'" and try_recv_bounded: "bounded capacity reg \<Longrightarrow> bounded capacity reg'"
proof -
  obtain c where c0: "map_of reg (fst rx) = Some c" "waiting c (snd rx) = Some q"
    using assms(1) by (cases "map_of reg (fst rx)") (simp_all add: inbox_of_def)
  obtain c' u where "bc_try_recv B c (snd rx) = (c', u)" by fastforce
  then have c: "map_of reg (fst rx) = Some c" "waiting c (snd rx) = Some q"
      "bc_try_recv B c (snd rx) = (c', v)" "reg' = AList.update (fst rx) c' reg"
    using assms(2) c0 by (simp_all add: try_recv_def)
  note r = recv [OF c(2,3)]
  show "v = snd (receive_event q)" "inbox_of waiting reg' rx = Some (fst (receive_event q))"
    using r by (simp_all add: inbox_of_def c(4) update_conv')
  show "inbox_of waiting reg' rx' = inbox_of waiting reg rx'" if "rx' \<noteq> rx"
    using r that c(1) by (cases rx; cases rx') (auto simp: inbox_of_def c(4) update_conv')
  show "bounded capacity reg'" if "bounded capacity reg"
    using that r c(1) by (auto simp: bounded_def c(4) update_conv')
qed

text \<open>The channels that \<^verbatim>\<open>cleanup_closed\<close> removes have no receiver, so no session notices.\<close>

lemma cleanup_inbox:
  assumes "distinct (map fst reg)" shows "inbox_of waiting (cleanup_closed B reg) rx = inbox_of waiting reg rx"
proof -
  have gone: "waiting c r = None" if "\<not> 0 < bc_receiver_count B c" for c r
    using that count [of c] by (auto simp: card_gt_0_iff)
  have "map_of (filter (\<lambda>(i, c). 0 < bc_receiver_count B c) reg) j =
      (case map_of reg j of Some c \<Rightarrow> if 0 < bc_receiver_count B c then Some c else None | None \<Rightarrow> None)" for j
    using assms by (induction reg) (auto simp: map_of_eq_None_iff split: option.splits)
  then show ?thesis using gone by (auto simp: inbox_of_def cleanup_closed_def split: option.splits)
qed

end

section \<open>An instance with one queue for each receiver\<close>

record queue_channel =
  qc_capacity :: nat
  qc_next :: nat
  qc_queues :: "(nat \<times> (mailbox_event list \<times> nat)) list"

definition queue_broadcast :: "queue_channel broadcast" where
  "queue_broadcast =
     \<lparr>bc_channel = (\<lambda>n. \<lparr>qc_capacity = n, qc_next = 0, qc_queues = []\<rparr>),
      bc_subscribe = (\<lambda>c. let r = Suc (Max (insert 0 (set (map fst (qc_queues c))))) in
        (c\<lparr>qc_queues := AList.update r ([], 0) (qc_queues c)\<rparr>, r)),
      bc_send = (\<lambda>c ev. c\<lparr>qc_queues := map (\<lambda>(r, q). (r, enqueue_event (qc_capacity c) ev q)) (qc_queues c)\<rparr>),
      bc_try_recv = (\<lambda>c r. case map_of (qc_queues c) r of
          None \<Rightarrow> (c, RecvClosed)
        | Some q \<Rightarrow> (c\<lparr>qc_queues := AList.update r (fst (receive_event q)) (qc_queues c)\<rparr>, snd (receive_event q))),
      bc_drop = (\<lambda>c r. c\<lparr>qc_queues := AList.delete r (qc_queues c)\<rparr>),
      bc_receiver_count = (\<lambda>c. length (remdups (map fst (qc_queues c))))\<rparr>"

interpretation queues: broadcast_laws queue_broadcast "\<lambda>c. map_of (qc_queues c)" qc_capacity
proof unfold_locales
  fix c c' :: queue_channel and r
  assume "bc_subscribe queue_broadcast c = (c', r)"
  then have r: "r = Suc (Max (insert 0 (set (map fst (qc_queues c)))))"
    and c': "c' = c\<lparr>qc_queues := AList.update r ([], 0) (qc_queues c)\<rparr>"
    by (auto simp: queue_broadcast_def Let_def)
  have "k < r" if "k \<in> set (map fst (qc_queues c))" for k
    using that by (simp add: r less_Suc_eq_le)
  then have "r \<notin> fst ` set (qc_queues c)" by force
  then show "map_of (qc_queues c) r = None \<and> map_of (qc_queues c') = (map_of (qc_queues c))(r \<mapsto> ([], 0)) \<and>
      qc_capacity c' = qc_capacity c" by (simp add: c' map_of_eq_None_iff update_conv')
next
  fix c :: queue_channel and ev r
  show "map_of (qc_queues (bc_send queue_broadcast c ev)) r =
      map_option (enqueue_event (qc_capacity c) ev) (map_of (qc_queues c) r)"
    by (simp add: queue_broadcast_def map_of_map)
next
  fix c :: queue_channel
  show "bc_receiver_count queue_broadcast c = card (dom (map_of (qc_queues c)))"
    using length_remdups_card_conv [of "map fst (qc_queues c)"] by (simp add: queue_broadcast_def dom_map_of_conv_image_fst)
  show "finite (dom (map_of (qc_queues c)))" by (rule finite_dom_map_of)
qed (auto simp: queue_broadcast_def update_conv' delete_conv' split: option.splits)

end
