(* ===== verification/Imap_Session.thy ===== *)
theory Imap_Session
  imports Imap_Protocol Imap_Registry
begin

text \<open>
  Model of an IMAP session and of its command handlers: \<^verbatim>\<open>session.rs\<close>, \<^verbatim>\<open>handler.rs\<close>, \<^verbatim>\<open>handler_auth.rs\<close>,
  \<^verbatim>\<open>handler_mailbox.rs\<close> and \<^verbatim>\<open>handler_message.rs\<close> of \<^verbatim>\<open>crates/rusmes-imap/src\<close>.  The handlers work for every
  storage backend (\<open>'s mail_store\<close>) and every broadcast channel; what several sessions share is the
  record \<open>imap_world\<close>.  A handler returns the new world and either an error, which ends the connection,
  or the new session and the response.  The stream of a large body is shared by the clones of a mail in
  the program; here reading it affects the fetched mail only.
\<close>

section \<open>State\<close>

datatype imap_state =
    NotAuthenticated
  | Authenticated
  | Selected mailbox_id
  | Idling mailbox_id
  | LoggedOut

record imap_session =
  im_state :: imap_state
  im_tag :: "string option"
  im_username :: "username option"
  im_snapshot :: "(nat \<times> nat) option"
  im_idle_timeout :: nat
  im_rx :: "(mailbox_id \<times> nat) option"
  im_compress_pending :: bool

definition ImapSession_new_with_timeout :: "nat \<Rightarrow> imap_session" where
  "ImapSession_new_with_timeout idle_timeout =
     \<lparr>im_state = NotAuthenticated, im_tag = None, im_username = None, im_snapshot = None,
      im_idle_timeout = idle_timeout, im_rx = None, im_compress_pending = False\<rparr>"

definition ImapSession_new :: imap_session where
  "ImapSession_new = ImapSession_new_with_timeout 1800"

definition update_snapshot :: "nat \<Rightarrow> nat \<Rightarrow> imap_session \<Rightarrow> imap_session" where
  "update_snapshot exists recent sn = sn\<lparr>im_snapshot := Some (exists, recent)\<rparr>"

definition session_mailbox_id :: "imap_session \<Rightarrow> mailbox_id option" where
  "session_mailbox_id sn = (case im_state sn of Selected i \<Rightarrow> Some i | Idling i \<Rightarrow> Some i | _ \<Rightarrow> None)"

definition format_mailbox_event :: "mailbox_event \<Rightarrow> string" where
  "format_mailbox_event ev =
     (case ev of
        EvExists n \<Rightarrow> ''* '' @ show_nat n @ '' EXISTS''
      | EvRecent n \<Rightarrow> ''* '' @ show_nat n @ '' RECENT''
      | EvExpunge n \<Rightarrow> ''* '' @ show_nat n @ '' EXPUNGE''
      | EvFlagsChanged uid flags \<Rightarrow>
          ''* '' @ show_nat uid @ '' FETCH (UID '' @ show_nat uid @ '' FLAGS ('' @ str_join '' '' flags @ ''))'')"

text \<open>The loop of \<^verbatim>\<open>drain_mailbox_events\<close> ends when the channel is empty or closed, which depends on the channel.\<close>

partial_function (option) drain_loop ::
    "'c broadcast \<Rightarrow> mailbox_id \<times> nat \<Rightarrow> 'c mailbox_registry \<Rightarrow> string list \<Rightarrow> ('c mailbox_registry \<times> bool \<times> string list) option" where
  "drain_loop B rx reg lines =
     (case try_recv B rx reg of
        (reg', Received ev) \<Rightarrow> drain_loop B rx reg' (lines @ [format_mailbox_event ev])
      | (reg', RecvEmpty) \<Rightarrow> Some (reg', True, lines)
      | (reg', RecvLagged n) \<Rightarrow> drain_loop B rx reg' lines
      | (reg', RecvClosed) \<Rightarrow> Some (reg', False, lines))"

definition drain_mailbox_events ::
    "'c broadcast \<Rightarrow> imap_session \<Rightarrow> 'c mailbox_registry \<Rightarrow> (imap_session \<times> 'c mailbox_registry \<times> string list) option" where
  "drain_mailbox_events B sn reg =
     (case im_rx sn of
        None \<Rightarrow> Some (sn, reg, [])
      | Some rx \<Rightarrow>
          (case drain_loop B rx reg [] of
             None \<Rightarrow> None
           | Some (reg', opened, lines) \<Rightarrow> Some (if opened then sn else sn\<lparr>im_rx := None\<rparr>, reg', lines)))"

section \<open>The context of the handlers\<close>

record ('s, 'c) imap_ctx =
  ic_store :: "'s mail_store"
  ic_bcast :: "'c broadcast"
  ic_authenticate :: "username \<Rightarrow> string \<Rightarrow> bool result"
  ic_uc :: "string \<Rightarrow> string"
  ic_lc :: "string \<Rightarrow> string"
  ic_uuid_show :: "uuid \<Rightarrow> string"
  ic_fresh :: "nat \<Rightarrow> uuid"
  ic_body_error :: "string option"

record ('s, 'c) imap_world =
  iw_store :: 's
  iw_registry :: "'c mailbox_registry"
  iw_drawn :: nat

type_synonym ('s, 'c, 'a) imap_op = "('s, 'c) imap_world \<Rightarrow> ('s, 'c) imap_world \<times> 'a result"

definition on_store :: "('s, 'a) store_op \<Rightarrow> ('s, 'c, 'a) imap_op" where
  "on_store f w = (case f (iw_store w) of (s, r) \<Rightarrow> (w\<lparr>iw_store := s\<rparr>, r))"

definition im_publish :: "('s, 'c) imap_ctx \<Rightarrow> mailbox_id \<Rightarrow> mailbox_event \<Rightarrow> ('s, 'c) imap_world \<Rightarrow> ('s, 'c) imap_world" where
  "im_publish ctx i ev w = w\<lparr>iw_registry := registry_publish (ic_bcast ctx) i ev (iw_registry w)\<rparr>"

definition publish_all :: "('s, 'c) imap_ctx \<Rightarrow> mailbox_id \<Rightarrow> mailbox_event list \<Rightarrow> ('s, 'c) imap_world \<Rightarrow> ('s, 'c) imap_world" where
  "publish_all ctx i evs w = foldl (\<lambda>w ev. im_publish ctx i ev w) w evs"

text \<open>The guards at the start of the handlers.\<close>

definition imap_authenticated :: "imap_session \<Rightarrow> bool" where
  "imap_authenticated sn \<longleftrightarrow> (case im_state sn of Authenticated \<Rightarrow> True | Selected _ \<Rightarrow> True | _ \<Rightarrow> False)"

definition with_username ::
    "string \<Rightarrow> imap_session \<Rightarrow> (username \<Rightarrow> ('s, 'c, imap_response) imap_op) \<Rightarrow> ('s, 'c, imap_response) imap_op" where
  "with_username tag sn f w =
     (case im_username sn of None \<Rightarrow> (w, Inr (imap_no tag ''No username in session'')) | Some u \<Rightarrow> f u w)"

definition with_user ::
    "string \<Rightarrow> imap_session \<Rightarrow> (username \<Rightarrow> ('s, 'c, imap_response) imap_op) \<Rightarrow> ('s, 'c, imap_response) imap_op" where
  "with_user tag sn f w =
     (if \<not> imap_authenticated sn then (w, Inr (imap_no tag ''Not authenticated'')) else with_username tag sn f w)"

definition with_selected ::
    "string \<Rightarrow> imap_session \<Rightarrow> (mailbox_id \<Rightarrow> ('s, 'c, imap_response) imap_op) \<Rightarrow> ('s, 'c, imap_response) imap_op" where
  "with_selected tag sn f w =
     (case im_state sn of Selected i \<Rightarrow> f i w | _ \<Rightarrow> (w, Inr (imap_no tag ''No mailbox selected'')))"

text \<open>A response without a tag whose text holds the untagged lines and the completion line.\<close>

definition untagged_block :: "string list \<Rightarrow> string \<Rightarrow> imap_response" where
  "untagged_block lines completion =
     ImapResponse_new None [] (str_join CRLF lines @ (if str_join CRLF lines \<noteq> [] then CRLF else []) @ completion)"

text \<open>Quoted strings and system flags in the texts of the source.\<close>

definition dquote :: "string \<Rightarrow> string" where
  "dquote s = [CHR 0x22] @ s @ [CHR 0x22]"

definition flag_name :: "string \<Rightarrow> string" where
  "flag_name s = CHR 0x5C # s"

section \<open>Authentication and mailboxes\<close>

definition imap_handle_login ::
    "('s, 'c) imap_ctx \<Rightarrow> imap_session \<Rightarrow> string \<Rightarrow> string \<Rightarrow> string \<Rightarrow> ('s, 'c, imap_session \<times> imap_response) imap_op" where
  "imap_handle_login ctx sn tag user password w =
     (if im_state sn \<noteq> NotAuthenticated then (w, Inr (sn, imap_bad tag ''Already authenticated''))
      else case Username_new user of
        Inl _ \<Rightarrow> (w, Inr (sn, imap_no tag ''[AUTHENTICATIONFAILED] Invalid username''))
      | Inr username \<Rightarrow>
          (case ic_authenticate ctx username password of
             Inl e \<Rightarrow> (w, Inl e)
           | Inr True \<Rightarrow>
               (w, Inr (sn\<lparr>im_state := Authenticated, im_tag := Some tag, im_username := Some username\<rparr>,
                        imap_ok tag (user @ '' logged in'')))
           | Inr False \<Rightarrow> (w, Inr (sn, imap_no tag ''[AUTHENTICATIONFAILED] Invalid credentials''))))"

definition imap_handle_logout :: "imap_session \<Rightarrow> string \<Rightarrow> imap_session \<times> imap_response" where
  "imap_handle_logout sn tag = (sn\<lparr>im_state := LoggedOut\<rparr>, imap_ok tag ''Logout completed'')"

definition find_named :: "mailbox list \<Rightarrow> string \<Rightarrow> mailbox option" where
  "find_named mbs name = find (\<lambda>m. mailbox_name m = Some name) mbs"

definition select_lookup :: "('s, 'c) imap_ctx \<Rightarrow> username \<Rightarrow> string \<Rightarrow> ('s, 'c, mailbox option) imap_op" where
  "select_lookup ctx username mb w =
     (if eq_ignore_ascii_case mb ''INBOX'' then
        sbind (on_store (st_get_user_inbox (ic_store ctx) username) w) (\<lambda>inbox w.
          case inbox of
            Some i \<Rightarrow> on_store (st_get_mailbox (ic_store ctx) i) w
          | None \<Rightarrow> (w, Inr None))
      else
        sbind (on_store (st_list_mailboxes (ic_store ctx) username) w) (\<lambda>mbs w. (w, Inr (find_named mbs mb))))"

definition select_text :: "string \<Rightarrow> bool \<Rightarrow> mailbox \<Rightarrow> mailbox_counters \<Rightarrow> string" where
  "select_text tag read_only mb counters =
     ''* '' @ show_nat (mc_exists counters) @ '' EXISTS'' @ CRLF @
     ''* '' @ show_nat (mc_recent counters) @ '' RECENT'' @ CRLF @
     ''* OK [UIDVALIDITY '' @ show_nat (mb_uid_validity mb) @ '']'' @ CRLF @
     ''* OK [UIDNEXT '' @ show_nat (mb_uid_next mb) @ '']'' @ CRLF @
     ''* FLAGS ('' @ str_join '' '' (map flag_name [''Seen'', ''Answered'', ''Flagged'', ''Deleted'', ''Draft'']) @ '')'' @ CRLF @
     tag @ '' OK ['' @ (if read_only then ''READ-ONLY'' else ''READ-WRITE'') @ ''] '' @
     (if read_only then ''EXAMINE'' else ''SELECT'') @ '' completed''"

definition handle_select ::
    "('s, 'c) imap_ctx \<Rightarrow> imap_session \<Rightarrow> string \<Rightarrow> string \<Rightarrow> bool \<Rightarrow> ('s, 'c, imap_session \<times> imap_response) imap_op" where
  "handle_select ctx sn tag mb read_only w =
     (if \<not> imap_authenticated sn then (w, Inr (sn, imap_no tag ''Not authenticated''))
      else case im_username sn of
        None \<Rightarrow> (w, Inr (sn, imap_no tag ''No username in session''))
      | Some username \<Rightarrow>
          sbind (select_lookup ctx username mb w) (\<lambda>found w.
            case found of
              None \<Rightarrow> (w, Inr (sn, imap_no tag ''Mailbox does not exist''))
            | Some m \<Rightarrow>
                sbind (on_store (st_get_mailbox_counters (ic_store ctx) (mb_id m)) w) (\<lambda>counters w.
                  case registry_subscribe (ic_bcast ctx) (mb_id m) (iw_registry w) of (reg, r) \<Rightarrow>
                    (w\<lparr>iw_registry := drop_receiver (ic_bcast ctx) (im_rx sn) reg\<rparr>,
                     Inr (sn\<lparr>im_state := Selected (mb_id m), im_rx := Some (mb_id m, r)\<rparr>,
                          ImapResponse_new None [] (select_text tag read_only m counters))))))"

definition handle_list :: "('s, 'c) imap_ctx \<Rightarrow> imap_session \<Rightarrow> string \<Rightarrow> string \<Rightarrow> string \<Rightarrow> ('s, 'c, imap_response) imap_op" where
  "handle_list ctx sn tag reference pat w =
     with_user tag sn (\<lambda>username w.
       sbind (on_store (st_list_mailboxes (ic_store ctx) username) w) (\<lambda>mbs w.
         (w, Inr (untagged_block
            (map (\<lambda>m. ''* LIST () '' @ dquote ''/'' @ '' '' @ dquote (case mailbox_name m of Some n \<Rightarrow> n | None \<Rightarrow> ''INBOX''))
               (filter (\<lambda>m. pat = ''*'' \<or> mailbox_name m = Some pat) mbs))
            (tag @ '' OK LIST completed''))))) w"

text \<open>The matcher of mailbox names works on characters.  The first definition is the check at the start of every
  call, the second one the loop.\<close>

function match_pattern :: "string list \<Rightarrow> string list \<Rightarrow> bool" and match_pattern_loop :: "string list \<Rightarrow> string list \<Rightarrow> bool" where
  "match_pattern name pat = (pat = [''*''] \<or> match_pattern_loop name pat)"
| "match_pattern_loop name [] = (name = [])"
| "match_pattern_loop name (p # ps) =
     (if p = ''*'' then
        ps = [] \<or> list_ex (\<lambda>i. match_pattern (drop i name) ps) [0..<Suc (length name)]
      else if p = ''%'' then
        (if ps = [] then ''/'' \<notin> set name
         else list_ex (\<lambda>i. ''/'' \<notin> set (take i name) \<and> match_pattern (drop i name) ps) [0..<Suc (length name)])
      else case name of n # ns \<Rightarrow> n = p \<and> match_pattern_loop ns ps | [] \<Rightarrow> False)"
  by pat_completeness auto
termination
  by (relation "measure (\<lambda>x. case x of Inl (n, p) \<Rightarrow> Suc (2 * length p) | Inr (n, p) \<Rightarrow> 2 * length p)") auto

definition match_mailbox_pattern :: "string \<Rightarrow> string \<Rightarrow> bool" where
  "match_mailbox_pattern name pat = match_pattern (utf8_chars name) (utf8_chars pat)"

definition lsub_matches :: "string \<Rightarrow> string \<Rightarrow> bool" where
  "lsub_matches pat name =
     (if pat = ''*'' then True
      else if CHR ''*'' \<in> set pat \<or> CHR ''%'' \<in> set pat then match_mailbox_pattern name pat
      else name = pat)"

definition handle_lsub :: "('s, 'c) imap_ctx \<Rightarrow> imap_session \<Rightarrow> string \<Rightarrow> string \<Rightarrow> string \<Rightarrow> ('s, 'c, imap_response) imap_op" where
  "handle_lsub ctx sn tag reference pat w =
     with_user tag sn (\<lambda>username w.
       sbind (on_store (st_list_subscriptions (ic_store ctx) username) w) (\<lambda>names w.
         (w, Inr (untagged_block
            (map (\<lambda>name. ''* LSUB () '' @ dquote ''/'' @ '' '' @ dquote name) (filter (lsub_matches pat) names))
            (tag @ '' OK LSUB completed''))))) w"

definition handle_subscribe :: "('s, 'c) imap_ctx \<Rightarrow> imap_session \<Rightarrow> string \<Rightarrow> string \<Rightarrow> ('s, 'c, imap_response) imap_op" where
  "handle_subscribe ctx sn tag mb w =
     with_user tag sn (\<lambda>username w.
       sbind (on_store (st_subscribe (ic_store ctx) username (trim_quotes mb)) w) (\<lambda>_ w.
         (w, Inr (imap_ok tag ''SUBSCRIBE completed'')))) w"

definition handle_unsubscribe :: "('s, 'c) imap_ctx \<Rightarrow> imap_session \<Rightarrow> string \<Rightarrow> string \<Rightarrow> ('s, 'c, imap_response) imap_op" where
  "handle_unsubscribe ctx sn tag mb w =
     with_user tag sn (\<lambda>username w.
       sbind (on_store (st_unsubscribe (ic_store ctx) username (trim_quotes mb)) w) (\<lambda>_ w.
         (w, Inr (imap_ok tag ''UNSUBSCRIBE completed'')))) w"

definition handle_create :: "('s, 'c) imap_ctx \<Rightarrow> imap_session \<Rightarrow> string \<Rightarrow> string \<Rightarrow> ('s, 'c, imap_response) imap_op" where
  "handle_create ctx sn tag mb w =
     with_user tag sn (\<lambda>username w.
       sbind (on_store (st_create_mailbox (ic_store ctx) \<lparr>mp_user = username, mp_path = [mb]\<rparr>) w) (\<lambda>_ w.
         (w, Inr (imap_ok tag ''CREATE completed'')))) w"

definition handle_create_special_use ::
    "('s, 'c) imap_ctx \<Rightarrow> imap_session \<Rightarrow> string \<Rightarrow> string \<Rightarrow> string \<Rightarrow> ('s, 'c, imap_response) imap_op" where
  "handle_create_special_use ctx sn tag mb special_use w =
     with_user tag sn (\<lambda>username w.
       sbind (on_store (create_mailbox_with_special_use (ic_store ctx) \<lparr>mp_user = username, mp_path = [mb]\<rparr>
                (special_use_single special_use)) w) (\<lambda>_ w.
         (w, Inr (imap_ok tag ''CREATE completed'')))) w"

definition handle_delete :: "('s, 'c) imap_ctx \<Rightarrow> imap_session \<Rightarrow> string \<Rightarrow> string \<Rightarrow> ('s, 'c, imap_response) imap_op" where
  "handle_delete ctx sn tag mb w =
     with_user tag sn (\<lambda>username w.
       sbind (on_store (st_list_mailboxes (ic_store ctx) username) w) (\<lambda>mbs w.
         case find_named mbs mb of
           Some m \<Rightarrow>
             sbind (on_store (st_delete_mailbox (ic_store ctx) (mb_id m)) w) (\<lambda>_ w. (w, Inr (imap_ok tag ''DELETE completed'')))
         | None \<Rightarrow> (w, Inr (imap_no tag ''Mailbox does not exist'')))) w"

definition handle_rename ::
    "('s, 'c) imap_ctx \<Rightarrow> imap_session \<Rightarrow> string \<Rightarrow> string \<Rightarrow> string \<Rightarrow> ('s, 'c, imap_response) imap_op" where
  "handle_rename ctx sn tag old new w =
     with_user tag sn (\<lambda>username w.
       sbind (on_store (st_list_mailboxes (ic_store ctx) username) w) (\<lambda>mbs w.
         case find_named mbs old of
           Some m \<Rightarrow>
             sbind (on_store (st_rename_mailbox (ic_store ctx) (mb_id m) \<lparr>mp_user = username, mp_path = [new]\<rparr>) w)
               (\<lambda>_ w. (w, Inr (imap_ok tag ''RENAME completed'')))
         | None \<Rightarrow> (w, Inr (imap_no tag ''Mailbox does not exist'')))) w"

definition handle_idle ::
    "('s, 'c) imap_ctx \<Rightarrow> imap_session \<Rightarrow> string \<Rightarrow> ('s, 'c, imap_session \<times> imap_response) imap_op" where
  "handle_idle ctx sn tag w =
     (case im_state sn of
        Selected i \<Rightarrow>
          sbind (on_store (st_get_mailbox_counters (ic_store ctx) i) w) (\<lambda>counters w.
            (w, Inr ((update_snapshot (mc_exists counters) (mc_recent counters) sn)\<lparr>im_state := Idling i, im_tag := Some tag\<rparr>,
                     ImapResponse_new None ''+'' ''idling'')))
      | _ \<Rightarrow> (w, Inr (sn, imap_no tag ''No mailbox selected'')))"

definition format_namespace_list :: "(string \<times> string) list \<Rightarrow> string" where
  "format_namespace_list namespaces =
     (if namespaces = [] then ''NIL''
      else ''('' @ str_join '' '' (map (\<lambda>(pre, delim). ''('' @ dquote pre @ '' '' @ dquote delim @ '')'') namespaces) @ '')'')"

definition handle_namespace :: "string \<Rightarrow> imap_session \<Rightarrow> imap_response" where
  "handle_namespace tag sn =
     (case im_state sn of
        NotAuthenticated \<Rightarrow> imap_no tag ''NAMESPACE requires authentication''
      | LoggedOut \<Rightarrow> imap_no tag ''Already logged out''
      | _ \<Rightarrow> ImapResponse_new None []
          (''* NAMESPACE '' @ format_namespace_list [([], ''.'')] @ '' '' @ format_namespace_list [] @ '' '' @
           format_namespace_list [] @ CRLF @ tag @ '' OK NAMESPACE completed''))"

section \<open>Message sets\<close>

definition parse_sequence_set :: "string \<Rightarrow> message_id list result" where
  "parse_sequence_set sequence = Inr []"

definition add_numbers :: "nat list \<Rightarrow> nat list \<Rightarrow> nat list" where
  "add_numbers numbers ns = foldl (\<lambda>acc n. if n \<in> set acc then acc else acc @ [n]) numbers ns"

definition sequence_part :: "nat \<Rightarrow> nat list \<Rightarrow> string \<Rightarrow> nat list" where
  "sequence_part mx numbers raw =
     (let part = trim raw in
      if CHR '':'' \<in> set part then
        (case split_on (CHR '':'') part of
           [a, b] \<Rightarrow>
             let start = (case parse_uint usize_max a of Some n \<Rightarrow> n | None \<Rightarrow> 1);
                 stop = (if b = ''*'' then mx else case parse_uint usize_max b of Some n \<Rightarrow> n | None \<Rightarrow> mx)
             in add_numbers numbers [start..<Suc (min stop mx)]
         | _ \<Rightarrow> numbers)
      else if part = ''*'' then (if 0 < mx then add_numbers numbers [mx] else numbers)
      else case parse_uint usize_max part of
        Some n \<Rightarrow> if 0 < n \<and> n \<le> mx then add_numbers numbers [n] else numbers
      | None \<Rightarrow> numbers)"

definition parse_sequence_numbers :: "string \<Rightarrow> nat \<Rightarrow> nat list result" where
  "parse_sequence_numbers sequence mx =
     Inr (sort (foldl (sequence_part mx) [] (split_on (CHR '','') sequence)))"

text \<open>The message of a failed \<^verbatim>\<open>str::parse::<u32>\<close>.\<close>

fun int_error_loop :: "nat \<Rightarrow> nat \<Rightarrow> string \<Rightarrow> string" where
  "int_error_loop m acc [] = []"
| "int_error_loop m acc (c # cs) =
     (if \<not> is_ascii_digit c then ''invalid digit found in string''
      else if m < 10 * acc + digit_val c then ''number too large to fit in target type''
      else int_error_loop m (10 * acc + digit_val c) cs)"

definition parse_int_error :: "nat \<Rightarrow> string \<Rightarrow> string" where
  "parse_int_error m s =
     (if s = [] then ''cannot parse integer from empty string''
      else if s = ''+'' \<or> s = ''-'' then ''invalid digit found in string''
      else int_error_loop m 0 (if hd s = CHR ''+'' then tl s else s))"

definition uid_bound :: "nat \<Rightarrow> string \<Rightarrow> nat result" where
  "uid_bound max_uid s =
     (if s = ''*'' then Inr max_uid
      else case parse_uint u32_max s of Some n \<Rightarrow> Inr n | None \<Rightarrow> Inl (parse_int_error u32_max s))"

fun uid_parts :: "nat \<Rightarrow> string list \<Rightarrow> nat list \<Rightarrow> nat list result" where
  "uid_parts max_uid [] uids = Inr uids"
| "uid_parts max_uid (raw # parts) uids =
     (let part = trim raw in
      if CHR '':'' \<in> set part then
        (case split_on (CHR '':'') part of
           [a, b] \<Rightarrow>
             rbind (uid_bound max_uid a) (\<lambda>start.
             rbind (uid_bound max_uid b) (\<lambda>stop.
               uid_parts max_uid parts (uids @ [start..<Suc stop])))
         | _ \<Rightarrow> Inl (''Invalid UID range: '' @ part))
      else rbind (uid_bound max_uid part) (\<lambda>uid. uid_parts max_uid parts (uids @ [uid])))"

text \<open>The set of UIDs is the list of its insertions.\<close>

definition parse_uid_sequence_set :: "string \<Rightarrow> message_metadata list \<Rightarrow> nat list result" where
  "parse_uid_sequence_set sequence mds =
     uid_parts (foldl max 0 (map md_uid mds)) (split_on (CHR '','') sequence) []"

section \<open>Fetching and searching\<close>

definition flag_list :: "message_flags \<Rightarrow> string list" where
  "flag_list fl =
     (if mf_seen fl then [flag_name ''Seen''] else []) @ (if mf_answered fl then [flag_name ''Answered''] else []) @
     (if mf_flagged fl then [flag_name ''Flagged''] else []) @ (if mf_deleted fl then [flag_name ''Deleted''] else []) @
     (if mf_draft fl then [flag_name ''Draft''] else [])"

text \<open>The text of one requested item, and the message afterwards.\<close>

definition fetch_item ::
    "(string \<Rightarrow> string) \<Rightarrow> string option \<Rightarrow> message_metadata \<Rightarrow> mime_message \<Rightarrow> string \<Rightarrow> string option \<times> mime_message" where
  "fetch_item uc body_error md msg item =
     (if uc item = ''FLAGS'' then (Some (''FLAGS ('' @ str_join '' '' (flag_list (md_flags md)) @ '')''), msg)
      else if uc item = ''UID'' then (Some (''UID '' @ show_nat (md_uid md)), msg)
      else if uc item = ''BODY[]'' \<or> uc item = ''BODY.PEEK[]'' then
        (case extract_text body_error msg of
           (Some body_text, msg') \<Rightarrow> (Some (''BODY[] {'' @ show_nat (length body_text) @ ''}'' @ CRLF @ body_text), msg')
         | (None, msg') \<Rightarrow> (Some (''BODY[] {0}'' @ CRLF), msg'))
      else if uc item = ''RFC822.SIZE'' then (Some (''RFC822.SIZE '' @ show_nat (md_size md)), msg)
      else (None, msg))"

fun fetch_items :: "(string \<Rightarrow> string) \<Rightarrow> string option \<Rightarrow> message_metadata \<Rightarrow> mime_message \<Rightarrow> string list \<Rightarrow> string list" where
  "fetch_items uc body_error md msg [] = []"
| "fetch_items uc body_error md msg (item # items) =
     (case fetch_item uc body_error md msg item of (t, msg') \<Rightarrow>
        (case t of Some x \<Rightarrow> [x] | None \<Rightarrow> []) @ fetch_items uc body_error md msg' items)"

definition build_fetch_items :: "('s, 'c) imap_ctx \<Rightarrow> mail \<Rightarrow> message_metadata \<Rightarrow> string list \<Rightarrow> string" where
  "build_fetch_items ctx m md items = str_join '' '' (fetch_items (ic_uc ctx) (ic_body_error ctx) md (m_message m) items)"

text \<open>The responses for numbered metadata.\<close>

fun fetch_loop :: "('s, 'c) imap_ctx \<Rightarrow> string list \<Rightarrow> (nat \<times> message_metadata) list \<Rightarrow> ('s, 'c, string list) imap_op" where
  "fetch_loop ctx items [] w = (w, Inr [])"
| "fetch_loop ctx items ((n, md) # rest) w =
     sbind (on_store (st_get_message (ic_store ctx) (md_message_id md)) w) (\<lambda>found w.
     sbind (fetch_loop ctx items rest w) (\<lambda>responses w.
       (w, Inr (case found of
           Some m \<Rightarrow> (''* '' @ show_nat n @ '' FETCH ('' @ build_fetch_items ctx m md items @ '')'') # responses
         | None \<Rightarrow> responses))))"

definition handle_fetch :: "('s, 'c) imap_ctx \<Rightarrow> imap_session \<Rightarrow> string \<Rightarrow> string \<Rightarrow> string list \<Rightarrow> ('s, 'c, imap_response) imap_op" where
  "handle_fetch ctx sn tag sequence items w =
     with_selected tag sn (\<lambda>i w.
       sbind (on_store (st_get_mailbox_messages (ic_store ctx) i) w) (\<lambda>mds w.
       sbind (w, parse_sequence_numbers sequence (length mds)) (\<lambda>numbers w.
       sbind (fetch_loop ctx items (map (\<lambda>n. (n, mds ! (n - 1))) (filter (\<lambda>n. 0 < n \<and> n \<le> length mds) numbers)) w)
         (\<lambda>responses w. (w, Inr (untagged_block responses (tag @ '' OK FETCH completed''))))))) w"

definition build_message_flags :: "(string \<Rightarrow> string) \<Rightarrow> string list \<Rightarrow> message_flags" where
  "build_message_flags uc flags =
     foldl (\<lambda>fl flag.
       if uc flag = flag_name ''SEEN'' then fl\<lparr>mf_seen := True\<rparr>
       else if uc flag = flag_name ''ANSWERED'' then fl\<lparr>mf_answered := True\<rparr>
       else if uc flag = flag_name ''FLAGGED'' then fl\<lparr>mf_flagged := True\<rparr>
       else if uc flag = flag_name ''DELETED'' then fl\<lparr>mf_deleted := True\<rparr>
       else if uc flag = flag_name ''DRAFT'' then fl\<lparr>mf_draft := True\<rparr>
       else add_custom (uc flag) fl) MessageFlags_new flags"

text \<open>The three modes make the same call.\<close>

definition apply_flags :: "('s, 'c) imap_ctx \<Rightarrow> store_mode \<Rightarrow> message_id list \<Rightarrow> message_flags \<Rightarrow> ('s, 'c, unit) imap_op" where
  "apply_flags ctx mode ids fl w =
     (case mode of
        StoreReplace \<Rightarrow> on_store (st_set_flags (ic_store ctx) ids fl) w
      | StoreAdd \<Rightarrow> on_store (st_set_flags (ic_store ctx) ids fl) w
      | StoreRemove \<Rightarrow> on_store (st_set_flags (ic_store ctx) ids fl) w)"

definition handle_store ::
    "('s, 'c) imap_ctx \<Rightarrow> imap_session \<Rightarrow> string \<Rightarrow> string \<Rightarrow> store_mode \<Rightarrow> string list \<Rightarrow> ('s, 'c, imap_response) imap_op" where
  "handle_store ctx sn tag sequence mode flags w =
     with_selected tag sn (\<lambda>i w.
       sbind (w, parse_sequence_set sequence) (\<lambda>ids w.
         if ids = [] then (w, Inr (imap_ok tag ''STORE completed''))
         else
           sbind (apply_flags ctx mode ids (build_message_flags (ic_uc ctx) flags) w) (\<lambda>_ w.
           sbind (on_store (st_get_mailbox_messages (ic_store ctx) i) w) (\<lambda>mds w.
             (publish_all ctx i (map (\<lambda>m. EvFlagsChanged (md_uid m) flags) (filter (\<lambda>m. md_message_id m \<in> set ids) mds)) w,
              Inr (imap_ok tag ''STORE completed'')))))) w"

definition parse_search_criteria :: "(string \<Rightarrow> string) \<Rightarrow> string list \<Rightarrow> search_criteria" where
  "parse_search_criteria uc criteria =
     (case criteria of
        [] \<Rightarrow> SAll
      | c # _ \<Rightarrow>
          if uc c = ''ALL'' then SAll
          else if uc c = ''UNSEEN'' then SUnseen
          else if uc c = ''SEEN'' then SSeen
          else if uc c = ''FLAGGED'' then SFlagged
          else if uc c = ''UNFLAGGED'' then SUnflagged
          else if uc c = ''DELETED'' then SDeleted
          else if uc c = ''UNDELETED'' then SUndeleted
          else SAll)"

definition show_message_id :: "('s, 'c) imap_ctx \<Rightarrow> message_id \<Rightarrow> string" where
  "show_message_id ctx i = (case i of MessageId u \<Rightarrow> ic_uuid_show ctx u)"

definition handle_search :: "('s, 'c) imap_ctx \<Rightarrow> imap_session \<Rightarrow> string \<Rightarrow> string list \<Rightarrow> ('s, 'c, imap_response) imap_op" where
  "handle_search ctx sn tag criteria w =
     with_selected tag sn (\<lambda>i w.
       sbind (on_store (st_search (ic_store ctx) i (parse_search_criteria (ic_uc ctx) criteria)) w) (\<lambda>ids w.
         (w, Inr (ImapResponse_new None []
            (''* SEARCH '' @ str_join '' '' (map (show_message_id ctx) ids) @ CRLF @ tag @ '' OK SEARCH completed''))))) w"

section \<open>Appending\<close>

text \<open>The loop over the lines: the headers, and whether an empty line ended it.\<close>

fun append_headers :: "(string \<Rightarrow> string) \<Rightarrow> string list \<Rightarrow> header_map \<Rightarrow> header_map \<times> bool" where
  "append_headers lc [] hs = (hs, False)"
| "append_headers lc (line # ls) hs =
     (if line = [] then (hs, True)
      else append_headers lc ls
        (case find_char (CHR '':'') line of
           Some colon_pos \<Rightarrow> header_insert lc (trim (take colon_pos line)) (trim (drop (colon_pos + 1) line)) hs
         | None \<Rightarrow> hs))"

definition parse_message_data :: "(string \<Rightarrow> string) \<Rightarrow> string \<Rightarrow> (header_map \<times> string) result" where
  "parse_message_data lc data =
     (let data_str = utf8_lossy data in
      case append_headers lc (split_str CRLF data_str) [] of (hs, blank_line) \<Rightarrow>
        let body_start =
          (if blank_line then (case find_str (CRLF @ CRLF) data_str of Some pos \<Rightarrow> pos + 4 | None \<Rightarrow> length data) else 0)
        in Inr (hs, if body_start < length data then drop body_start data else []))"

text \<open>A slice whose end lies before its start panics, which ends the task of the connection.\<close>

definition slice_panic :: string where
  "slice_panic = ''panic: slice index starts after its end''"

definition extract_email_address :: "string \<Rightarrow> string option result" where
  "extract_email_address s =
     (case (find_char (CHR ''<'') s, find_char (CHR ''>'') s) of
        (Some start, Some stop) \<Rightarrow>
          if stop < start + 1 then Inl slice_panic
          else Inr (Some (trim (take (stop - (start + 1)) (drop (start + 1) s))))
      | _ \<Rightarrow> Inr (if CHR ''@'' \<in> set (trim s) then Some (trim s) else None))"

definition parse_email_address :: "string \<Rightarrow> mail_address option" where
  "parse_email_address email =
     (case find_char (CHR ''@'') email of
        None \<Rightarrow> None
      | Some at_pos \<Rightarrow>
          (case Domain_new (drop (at_pos + 1) email) of
             Inl _ \<Rightarrow> None
           | Inr d \<Rightarrow> (case MailAddress_new (take at_pos email) d of Inl _ \<Rightarrow> None | Inr a \<Rightarrow> Some a)))"

definition extract_sender_from_headers :: "(string \<Rightarrow> string) \<Rightarrow> header_map \<Rightarrow> mail_address option result" where
  "extract_sender_from_headers lc hs =
     (case header_get_first lc hs ''from'' of
        None \<Rightarrow> Inr None
      | Some from \<Rightarrow>
          rbind (extract_email_address from) (\<lambda>email.
            Inr (case email of None \<Rightarrow> None | Some em \<Rightarrow> parse_email_address em)))"

fun recipients_of :: "string list \<Rightarrow> mail_address list result" where
  "recipients_of [] = Inr []"
| "recipients_of (v # vs) =
     rbind (extract_email_address v) (\<lambda>email.
     rbind (recipients_of vs) (\<lambda>rest.
       Inr ((case email of None \<Rightarrow> [] | Some em \<Rightarrow> (case parse_email_address em of None \<Rightarrow> [] | Some a \<Rightarrow> [a])) @ rest)))"

definition extract_recipients_from_headers :: "(string \<Rightarrow> string) \<Rightarrow> header_map \<Rightarrow> mail_address list result" where
  "extract_recipients_from_headers lc hs =
     rbind (recipients_of (case header_get lc hs ''to'' of Some vs \<Rightarrow> vs | None \<Rightarrow> [])) (\<lambda>tos.
     rbind (recipients_of (case header_get lc hs ''cc'' of Some vs \<Rightarrow> vs | None \<Rightarrow> [])) (\<lambda>ccs. Inr (tos @ ccs)))"

text \<open>The mail of an APPEND: \<^verbatim>\<open>Mail::new\<close> draws its two identifiers.\<close>

definition append_mail :: "('s, 'c) imap_ctx \<Rightarrow> string \<Rightarrow> ('s, 'c, mail) imap_op" where
  "append_mail ctx literal w =
     (case rbind (parse_message_data (ic_lc ctx) literal) (\<lambda>(hs, body).
            rbind (extract_sender_from_headers (ic_lc ctx) hs) (\<lambda>sender.
            rbind (extract_recipients_from_headers (ic_lc ctx) hs) (\<lambda>recipients. Inr (hs, body, sender, recipients)))) of
        Inl e \<Rightarrow> (w, Inl e)
      | Inr (hs, body, sender, recipients) \<Rightarrow>
          (w\<lparr>iw_drawn := iw_drawn w + 2\<rparr>,
           Inr ((Mail_new (MailId (ic_fresh ctx (iw_drawn w))) (MessageId (ic_fresh ctx (iw_drawn w + 1))) sender recipients
              \<lparr>mm_headers = hs, mm_body = Small body\<rparr> None None)\<lparr>m_state := LocalDelivery\<rparr>)))"

definition handle_append ::
    "('s, 'c) imap_ctx \<Rightarrow> imap_session \<Rightarrow> string \<Rightarrow> string \<Rightarrow> string list \<Rightarrow> string option \<Rightarrow> string \<Rightarrow> ('s, 'c, imap_response) imap_op" where
  "handle_append ctx sn tag mb flags date_time literal w =
     with_user tag sn (\<lambda>username w.
       sbind (on_store (st_list_mailboxes (ic_store ctx) username) w) (\<lambda>mbs w.
         case find_named mbs mb of
           None \<Rightarrow> (w, Inr (imap_no tag ''[TRYCREATE] Mailbox does not exist''))
         | Some m \<Rightarrow>
             sbind (append_mail ctx literal w) (\<lambda>ml w.
             sbind (on_store (st_append_message (ic_store ctx) (mb_id m) ml) w) (\<lambda>md w.
             sbind (if flags = [] then (w, Inr ())
                    else on_store (st_set_flags (ic_store ctx) [md_message_id md] (build_message_flags (ic_uc ctx) flags)) w) (\<lambda>_ w.
               case on_store (st_get_mailbox_counters (ic_store ctx) (mb_id m)) w of (w, counters) \<Rightarrow>
                 (im_publish ctx (mb_id m) (EvExists (case counters of Inr c \<Rightarrow> mc_exists c | Inl _ \<Rightarrow> 0)) w,
                  Inr (imap_ok tag (''[APPENDUID '' @ show_nat (mb_uid_validity m) @ '' '' @ show_nat (md_uid md) @
                    ''] APPEND completed'')))))))) w"

section \<open>Copying, moving and expunging\<close>

definition copyuid_response :: "string \<Rightarrow> mailbox \<Rightarrow> string list \<Rightarrow> message_metadata list \<Rightarrow> string \<Rightarrow> imap_response" where
  "copyuid_response tag dest source_uids copied name =
     (if copied \<noteq> [] then
        imap_ok tag (''[COPYUID '' @ show_nat (mb_uid_validity dest) @ '' '' @ str_join '','' source_uids @ '' '' @
          str_join '','' (map (\<lambda>m. show_nat (md_uid m)) copied) @ ''] '' @ name @ '' completed'')
      else imap_ok tag (name @ '' completed''))"

text \<open>The destination mailbox of a copy.\<close>

definition with_destination ::
    "('s, 'c) imap_ctx \<Rightarrow> imap_session \<Rightarrow> string \<Rightarrow> string \<Rightarrow> (mailbox \<Rightarrow> ('s, 'c, imap_response) imap_op) \<Rightarrow>
       ('s, 'c, imap_response) imap_op" where
  "with_destination ctx sn tag dest f w =
     with_username tag sn (\<lambda>username w.
       sbind (on_store (st_list_mailboxes (ic_store ctx) username) w) (\<lambda>mbs w.
         case find_named mbs dest of
           None \<Rightarrow> (w, Inr (imap_no tag ''[TRYCREATE] Destination mailbox does not exist''))
         | Some m \<Rightarrow> f m w)) w"

definition handle_copy :: "('s, 'c) imap_ctx \<Rightarrow> imap_session \<Rightarrow> string \<Rightarrow> string \<Rightarrow> string \<Rightarrow> ('s, 'c, imap_response) imap_op" where
  "handle_copy ctx sn tag sequence dest w =
     with_selected tag sn (\<lambda>i w.
       with_destination ctx sn tag dest (\<lambda>m w.
         sbind (w, parse_sequence_set sequence) (\<lambda>ids w.
           if ids = [] then (w, Inr (imap_ok tag ''COPY completed (no messages)''))
           else sbind (on_store (st_copy_messages (ic_store ctx) ids (mb_id m)) w) (\<lambda>copied w.
             (w, Inr (copyuid_response tag m (map (show_message_id ctx) ids) copied ''COPY''))))) w) w"

definition deleted_flags :: message_flags where
  "deleted_flags = MessageFlags_new\<lparr>mf_deleted := True\<rparr>"

text \<open>Copy, mark as deleted, delete.\<close>

definition move_messages :: "('s, 'c) imap_ctx \<Rightarrow> message_id list \<Rightarrow> mailbox_id \<Rightarrow> ('s, 'c, message_metadata list) imap_op" where
  "move_messages ctx ids dest w =
     sbind (on_store (st_copy_messages (ic_store ctx) ids dest) w) (\<lambda>copied w.
     sbind (on_store (st_set_flags (ic_store ctx) ids deleted_flags) w) (\<lambda>_ w.
     sbind (on_store (st_delete_messages (ic_store ctx) ids) w) (\<lambda>_ w. (w, Inr copied))))"

definition handle_move :: "('s, 'c) imap_ctx \<Rightarrow> imap_session \<Rightarrow> string \<Rightarrow> string \<Rightarrow> string \<Rightarrow> ('s, 'c, imap_response) imap_op" where
  "handle_move ctx sn tag sequence dest w =
     with_selected tag sn (\<lambda>i w.
       with_destination ctx sn tag dest (\<lambda>m w.
         sbind (w, parse_sequence_set sequence) (\<lambda>ids w.
           if ids = [] then (w, Inr (imap_ok tag ''MOVE completed (no messages)''))
           else sbind (move_messages ctx ids (mb_id m) w) (\<lambda>copied w.
             (w, Inr (copyuid_response tag m (map (show_message_id ctx) ids) copied ''MOVE''))))) w) w"

text \<open>The messages of a listing that satisfy a condition, with their sequence numbers as \<^verbatim>\<open>u32\<close>.\<close>

definition numbered :: "(message_metadata \<Rightarrow> bool) \<Rightarrow> message_metadata list \<Rightarrow> (nat \<times> message_metadata) list" where
  "numbered P mds = map (\<lambda>(n, md). ((n + 1) mod 2 ^ 32, md)) (filter (\<lambda>(n, md). P md) (enumerate 0 mds))"

definition expunge_messages ::
    "('s, 'c) imap_ctx \<Rightarrow> mailbox_id \<Rightarrow> (nat \<times> message_metadata) list \<Rightarrow> string \<Rightarrow> ('s, 'c, imap_response) imap_op" where
  "expunge_messages ctx i doomed completion w =
     sbind (if doomed = [] then (w, Inr ())
            else sbind (on_store (st_delete_messages (ic_store ctx) (map (\<lambda>(n, md). md_message_id md) doomed)) w) (\<lambda>_ w.
              (publish_all ctx i (map (\<lambda>(n, md). EvExpunge n) doomed) w, Inr ()))) (\<lambda>_ w.
       (w, Inr (untagged_block (map (\<lambda>(n, md). ''* '' @ show_nat n @ '' EXPUNGE'') doomed) completion)))"

definition handle_expunge :: "('s, 'c) imap_ctx \<Rightarrow> imap_session \<Rightarrow> string \<Rightarrow> ('s, 'c, imap_response) imap_op" where
  "handle_expunge ctx sn tag w =
     with_selected tag sn (\<lambda>i w.
       sbind (on_store (st_get_mailbox_messages (ic_store ctx) i) w) (\<lambda>mds w.
         expunge_messages ctx i (numbered (\<lambda>md. mf_deleted (md_flags md)) mds) (tag @ '' OK EXPUNGE completed'') w)) w"

definition handle_close ::
    "('s, 'c) imap_ctx \<Rightarrow> imap_session \<Rightarrow> string \<Rightarrow> ('s, 'c, imap_session \<times> imap_response) imap_op" where
  "handle_close ctx sn tag w =
     (case im_state sn of
        Selected i \<Rightarrow>
          sbind (on_store (st_get_mailbox_messages (ic_store ctx) i) w) (\<lambda>mds w.
            let doomed = map md_message_id (filter (\<lambda>md. mf_deleted (md_flags md)) mds) in
            sbind (if doomed = [] then (w, Inr ()) else on_store (st_delete_messages (ic_store ctx) doomed) w) (\<lambda>_ w.
              (w\<lparr>iw_registry := drop_receiver (ic_bcast ctx) (im_rx sn) (iw_registry w)\<rparr>,
               Inr (sn\<lparr>im_state := Authenticated, im_rx := None\<rparr>, imap_ok tag ''CLOSE completed''))))
      | _ \<Rightarrow> (w, Inr (sn, imap_no tag ''No mailbox selected'')))"

section \<open>UID commands\<close>

text \<open>The listing of the selected mailbox restricted to a set of UIDs.\<close>

definition with_uids ::
    "('s, 'c) imap_ctx \<Rightarrow> mailbox_id \<Rightarrow> string \<Rightarrow> (nat list \<Rightarrow> message_metadata list \<Rightarrow> ('s, 'c, imap_response) imap_op) \<Rightarrow>
       ('s, 'c, imap_response) imap_op" where
  "with_uids ctx i uid_sequence f w =
     sbind (on_store (st_get_mailbox_messages (ic_store ctx) i) w) (\<lambda>mds w.
     sbind (w, parse_uid_sequence_set uid_sequence mds) (\<lambda>uids w. f uids mds w))"

definition handle_uid_fetch :: "('s, 'c) imap_ctx \<Rightarrow> imap_session \<Rightarrow> string \<Rightarrow> string \<Rightarrow> string list \<Rightarrow> ('s, 'c, imap_response) imap_op" where
  "handle_uid_fetch ctx sn tag uid_sequence items w =
     with_selected tag sn (\<lambda>i w.
       with_uids ctx i uid_sequence (\<lambda>uids mds w.
         sbind (fetch_loop ctx items (enumerate 1 (filter (\<lambda>md. md_uid md \<in> set uids) mds)) w)
           (\<lambda>responses w. (w, Inr (untagged_block responses (tag @ '' OK UID FETCH completed''))))) w) w"

definition handle_uid_store ::
    "('s, 'c) imap_ctx \<Rightarrow> imap_session \<Rightarrow> string \<Rightarrow> string \<Rightarrow> store_mode \<Rightarrow> string list \<Rightarrow> ('s, 'c, imap_response) imap_op" where
  "handle_uid_store ctx sn tag uid_sequence mode flags w =
     with_selected tag sn (\<lambda>i w.
       with_uids ctx i uid_sequence (\<lambda>uids mds w.
         let targets = filter (\<lambda>md. md_uid md \<in> set uids) mds in
         if targets = [] then (w, Inr (imap_ok tag ''UID STORE completed (no messages)''))
         else sbind (apply_flags ctx mode (map md_message_id targets) (build_message_flags (ic_uc ctx) flags) w) (\<lambda>_ w.
           (publish_all ctx i (map (\<lambda>md. EvFlagsChanged (md_uid md) flags) targets) w,
            Inr (imap_ok tag ''UID STORE completed'')))) w) w"

definition handle_uid_search :: "('s, 'c) imap_ctx \<Rightarrow> imap_session \<Rightarrow> string \<Rightarrow> string list \<Rightarrow> ('s, 'c, imap_response) imap_op" where
  "handle_uid_search ctx sn tag criteria w =
     with_selected tag sn (\<lambda>i w.
       sbind (on_store (st_search (ic_store ctx) i (parse_search_criteria (ic_uc ctx) criteria)) w) (\<lambda>ids w.
       sbind (on_store (st_get_mailbox_messages (ic_store ctx) i) w) (\<lambda>mds w.
         (w, Inr (ImapResponse_new None []
            (''* SEARCH '' @ str_join '' '' (map (\<lambda>md. show_nat (md_uid md)) (filter (\<lambda>md. md_message_id md \<in> set ids) mds)) @
             CRLF @ tag @ '' OK UID SEARCH completed'')))))) w"

text \<open>What UID COPY and UID MOVE share: the selected messages, the action and the COPYUID response.\<close>

definition uid_transfer ::
    "('s, 'c) imap_ctx \<Rightarrow> imap_session \<Rightarrow> string \<Rightarrow> string \<Rightarrow> string \<Rightarrow> string \<Rightarrow>
       (message_id list \<Rightarrow> mailbox_id \<Rightarrow> ('s, 'c, message_metadata list) imap_op) \<Rightarrow> ('s, 'c, imap_response) imap_op" where
  "uid_transfer ctx sn tag uid_sequence dest name act w =
     with_selected tag sn (\<lambda>i w.
       with_destination ctx sn tag dest (\<lambda>m w.
         with_uids ctx i uid_sequence (\<lambda>uids mds w.
           let ids = map md_message_id (filter (\<lambda>md. md_uid md \<in> set uids) mds) in
           if ids = [] then (w, Inr (imap_ok tag (name @ '' completed (no messages)'')))
           else sbind (act ids (mb_id m) w) (\<lambda>copied w.
             (w, Inr (copyuid_response tag m
                (map (\<lambda>md. show_nat (md_uid md)) (filter (\<lambda>md. md_message_id md \<in> set ids) mds)) copied name)))) w) w) w"

definition handle_uid_copy :: "('s, 'c) imap_ctx \<Rightarrow> imap_session \<Rightarrow> string \<Rightarrow> string \<Rightarrow> string \<Rightarrow> ('s, 'c, imap_response) imap_op" where
  "handle_uid_copy ctx sn tag uid_sequence dest =
     uid_transfer ctx sn tag uid_sequence dest ''UID COPY'' (\<lambda>ids i. on_store (st_copy_messages (ic_store ctx) ids i))"

definition handle_uid_move :: "('s, 'c) imap_ctx \<Rightarrow> imap_session \<Rightarrow> string \<Rightarrow> string \<Rightarrow> string \<Rightarrow> ('s, 'c, imap_response) imap_op" where
  "handle_uid_move ctx sn tag uid_sequence dest =
     uid_transfer ctx sn tag uid_sequence dest ''UID MOVE'' (move_messages ctx)"

definition handle_uid_expunge :: "('s, 'c) imap_ctx \<Rightarrow> imap_session \<Rightarrow> string \<Rightarrow> string \<Rightarrow> ('s, 'c, imap_response) imap_op" where
  "handle_uid_expunge ctx sn tag uid_sequence w =
     with_selected tag sn (\<lambda>i w.
       with_uids ctx i uid_sequence (\<lambda>uids mds w.
         expunge_messages ctx i (numbered (\<lambda>md. md_uid md \<in> set uids \<and> mf_deleted (md_flags md)) mds)
           (tag @ '' OK UID EXPUNGE completed'') w) w) w"

definition handle_uid :: "('s, 'c) imap_ctx \<Rightarrow> imap_session \<Rightarrow> string \<Rightarrow> uid_subcommand \<Rightarrow> ('s, 'c, imap_response) imap_op" where
  "handle_uid ctx sn tag sub w =
     with_selected tag sn (\<lambda>i w.
       case sub of
         UidFetch sequence items \<Rightarrow> handle_uid_fetch ctx sn tag sequence items w
       | UidStore sequence mode flags \<Rightarrow> handle_uid_store ctx sn tag sequence mode flags w
       | UidSearch criteria \<Rightarrow> handle_uid_search ctx sn tag criteria w
       | UidCopy sequence mb \<Rightarrow> handle_uid_copy ctx sn tag sequence mb w
       | UidMove sequence mb \<Rightarrow> handle_uid_move ctx sn tag sequence mb w
       | UidExpunge sequence \<Rightarrow> handle_uid_expunge ctx sn tag sequence w) w"

section \<open>The dispatcher\<close>

definition imap_capabilities :: "string list" where
  "imap_capabilities =
     [''IMAP4rev1'', ''LITERAL+'', ''SASL-IR'', ''LOGIN-REFERRALS'', ''ID'', ''ENABLE'', ''IDLE'', ''NAMESPACE'', ''UIDPLUS'',
      ''LIST-EXTENDED'', ''UNSELECT'', ''CHILDREN'', ''SPECIAL-USE'', ''MOVE'', ''COMPRESS=DEFLATE'', ''AUTH=PLAIN'', ''AUTH=LOGIN'',
      ''AUTH=CRAM-MD5'', ''AUTH=SCRAM-SHA-256'', ''AUTH=XOAUTH2'']"

definition handle_capability :: "string \<Rightarrow> imap_response" where
  "handle_capability tag = imap_ok tag (''[CAPABILITY '' @ str_join '' '' imap_capabilities @ ''] Capability completed'')"

definition imap_handle_noop :: "string \<Rightarrow> imap_response" where
  "imap_handle_noop tag = imap_ok tag ''NOOP completed''"

definition handle_compress :: "imap_session \<Rightarrow> string \<Rightarrow> string \<Rightarrow> imap_session \<times> imap_response" where
  "handle_compress sn tag mechanism =
     (if \<not> eq_ignore_ascii_case mechanism ''DEFLATE'' then
        (sn, imap_no tag (''COMPRESS: unsupported mechanism '' @ mechanism))
      else if im_compress_pending sn then (sn, imap_no tag ''COMPRESS: already active'')
      else (sn\<lparr>im_compress_pending := True\<rparr>, imap_ok tag ''[COMPRESSIONACTIVE] Begin DEFLATE compression''))"

text \<open>A handler that leaves the session alone.\<close>

definition keep_session :: "imap_session \<Rightarrow> ('s, 'c, imap_response) imap_op \<Rightarrow> ('s, 'c, imap_session \<times> imap_response) imap_op" where
  "keep_session sn f w = sbind (f w) (\<lambda>r w. (w, Inr (sn, r)))"

fun imap_handle_command ::
    "('s, 'c) imap_ctx \<Rightarrow> imap_session \<Rightarrow> string \<Rightarrow> imap_command \<Rightarrow> ('s, 'c, imap_session \<times> imap_response) imap_op" where
  "imap_handle_command ctx sn tag ICapability w = (w, Inr (sn, handle_capability tag))"
| "imap_handle_command ctx sn tag INoop w = (w, Inr (sn, imap_handle_noop tag))"
| "imap_handle_command ctx sn tag (ILogin user password) w = imap_handle_login ctx sn tag user password w"
| "imap_handle_command ctx sn tag (IAuthenticate mechanism ir) w =
     (w, Inr (sn, imap_bad tag ''AUTHENTICATE must be handled by server loop''))"
| "imap_handle_command ctx sn tag ILogout w = (w, Inr (imap_handle_logout sn tag))"
| "imap_handle_command ctx sn tag (ISelect mb) w = handle_select ctx sn tag mb False w"
| "imap_handle_command ctx sn tag (IExamine mb) w = handle_select ctx sn tag mb True w"
| "imap_handle_command ctx sn tag (IFetch sequence items) w = keep_session sn (handle_fetch ctx sn tag sequence items) w"
| "imap_handle_command ctx sn tag (IStore sequence mode flags) w = keep_session sn (handle_store ctx sn tag sequence mode flags) w"
| "imap_handle_command ctx sn tag (ISearch criteria) w = keep_session sn (handle_search ctx sn tag criteria) w"
| "imap_handle_command ctx sn tag (IList reference mb) w = keep_session sn (handle_list ctx sn tag reference mb) w"
| "imap_handle_command ctx sn tag (ILsub reference mb) w = keep_session sn (handle_lsub ctx sn tag reference mb) w"
| "imap_handle_command ctx sn tag (ISubscribe mb) w = keep_session sn (handle_subscribe ctx sn tag mb) w"
| "imap_handle_command ctx sn tag (IUnsubscribe mb) w = keep_session sn (handle_unsubscribe ctx sn tag mb) w"
| "imap_handle_command ctx sn tag (ICreate mb) w = keep_session sn (handle_create ctx sn tag mb) w"
| "imap_handle_command ctx sn tag (ICreateSpecialUse mb special_use) w =
     keep_session sn (handle_create_special_use ctx sn tag mb special_use) w"
| "imap_handle_command ctx sn tag (IDelete mb) w = keep_session sn (handle_delete ctx sn tag mb) w"
| "imap_handle_command ctx sn tag (IRename old new) w = keep_session sn (handle_rename ctx sn tag old new) w"
| "imap_handle_command ctx sn tag (IAppend mb flags date_time literal) w =
     keep_session sn (handle_append ctx sn tag mb flags date_time literal) w"
| "imap_handle_command ctx sn tag (ICopy sequence mb) w = keep_session sn (handle_copy ctx sn tag sequence mb) w"
| "imap_handle_command ctx sn tag (IMove sequence mb) w = keep_session sn (handle_move ctx sn tag sequence mb) w"
| "imap_handle_command ctx sn tag IExpunge w = keep_session sn (handle_expunge ctx sn tag) w"
| "imap_handle_command ctx sn tag IClose w = handle_close ctx sn tag w"
| "imap_handle_command ctx sn tag IIdle w = handle_idle ctx sn tag w"
| "imap_handle_command ctx sn tag INamespace w = (w, Inr (sn, handle_namespace tag sn))"
| "imap_handle_command ctx sn tag (IUid sub) w = keep_session sn (handle_uid ctx sn tag sub) w"
| "imap_handle_command ctx sn tag (ICompress mechanism) w = (w, Inr (handle_compress sn tag mechanism))"

end
