(* ===== verification/Imap_Server.thy ===== *)
theory Imap_Server
  imports Imap_Session
begin

text \<open>
  Model of the IMAP server: \<^verbatim>\<open>server.rs\<close>, \<^verbatim>\<open>mailbox_watcher.rs\<close> and \<^verbatim>\<open>config.rs\<close> of \<^verbatim>\<open>crates/rusmes-imap/src\<close>.  A connection is
  a step function over what can happen to it: a line from the client with the bytes that follow it,
  the end of the stream, the idle timeout, and in IDLE a notification or a tick of the timer.  The server
  interleaves the steps of its connections over the shared world.  After COMPRESS the lines are
  those of the inner stream; the number of DEFLATE layers is part of the connection.
\<close>

section \<open>Configuration and change detection\<close>

record imap_config =
  icf_host :: string
  icf_port :: nat
  icf_tls_port :: "nat option"
  icf_max_connections :: nat
  icf_idle_timeout :: nat
  icf_tls_cert :: "string option"
  icf_tls_key :: "string option"

definition imap_config_default :: imap_config where
  "imap_config_default =
     \<lparr>icf_host = ''0.0.0.0'', icf_port = 143, icf_tls_port = Some 993, icf_max_connections = 1000,
      icf_idle_timeout = 1800, icf_tls_cert = None, icf_tls_key = None\<rparr>"

definition imap_bind_addr :: "imap_config \<Rightarrow> string" where
  "imap_bind_addr config = icf_host config @ '':'' @ show_nat (icf_port config)"

definition has_changes :: "nat \<times> nat \<Rightarrow> nat \<times> nat \<Rightarrow> bool" where
  "has_changes now snapshot \<longleftrightarrow> fst now \<noteq> fst snapshot \<or> snd now \<noteq> snd snapshot"

definition get_mailbox_state :: "('s, 'c) imap_ctx \<Rightarrow> mailbox_id \<Rightarrow> ('s, 'c, nat \<times> nat) imap_op" where
  "get_mailbox_state ctx i w =
     sbind (on_store (st_get_mailbox_counters (ic_store ctx) i) w) (\<lambda>c w. (w, Inr (mc_exists c, mc_recent c)))"

section \<open>One connection\<close>

record imap_net =
  in_nom :: nom
  in_report :: "string \<Rightarrow> string"
  in_eof_error :: string

datatype imap_event =
    ImLine string string
  | ImEof
  | ImReadError string
  | ImTimeout
  | IdleNotified
  | IdleTick bool

record imap_conn =
  cn_session :: imap_session
  cn_open :: bool
  cn_layers :: nat
  cn_idle :: "(nat \<times> nat) option"

definition imap_greeting :: string where
  "imap_greeting = imap_format (ImapResponse_new None ''OK'' ''RusMES IMAP Server ready'')"

definition open_connection :: "nat \<Rightarrow> imap_conn" where
  "open_connection idle_timeout =
     \<lparr>cn_session = ImapSession_new_with_timeout idle_timeout, cn_open = True, cn_layers = 0, cn_idle = None\<rparr>"

text \<open>The end of the task drops the session with its receiver.\<close>

definition close_connection :: "('s, 'c) imap_ctx \<Rightarrow> imap_conn \<Rightarrow> ('s, 'c) imap_world \<Rightarrow> imap_conn \<times> ('s, 'c) imap_world" where
  "close_connection ctx cn w =
     (cn\<lparr>cn_open := False, cn_idle := None, cn_session := (cn_session cn)\<lparr>im_rx := None\<rparr>\<rparr>,
      w\<lparr>iw_registry := drop_receiver (ic_bcast ctx) (im_rx (cn_session cn)) (iw_registry w)\<rparr>)"

text \<open>A command with a literal: what is written before the bytes are read, and the command.\<close>

definition literal_continuation :: "literal_type \<Rightarrow> string list" where
  "literal_continuation t = (if t = Synchronizing then [''+ Ready for literal data'' @ CRLF] else [])"

definition handle_literal_command :: "imap_net \<Rightarrow> string \<Rightarrow> nat \<Rightarrow> string \<Rightarrow> (string \<times> imap_command) result" where
  "handle_literal_command net line sz input =
     (if length input < sz + 2 then Inl (in_eof_error net)
      else map_err (\<lambda>e. ''Failed to parse APPEND command: '' @ e) (parse_append_command line (take sz input)))"

definition read_command :: "('s, 'c) imap_ctx \<Rightarrow> imap_net \<Rightarrow> string \<Rightarrow> string \<Rightarrow> string list \<times> (string \<times> imap_command) result" where
  "read_command ctx net line input =
     (let line_trimmed = trim line in
      case has_literal line_trimmed of
        Some (sz, ty) \<Rightarrow>
          (literal_continuation ty,
           map_err (\<lambda>e. ''Literal error: '' @ e) (handle_literal_command net line_trimmed sz input))
      | None \<Rightarrow>
          ([], map_err (\<lambda>e. ''Parse error: '' @ e) (imap_parse_command (in_nom net) (ic_uc ctx) (in_report net) line_trimmed)))"

text \<open>The start of IDLE: the last known state and a receiver.\<close>

definition start_idle :: "('s, 'c) imap_ctx \<Rightarrow> imap_conn \<Rightarrow> mailbox_id \<Rightarrow> ('s, 'c, imap_conn) imap_op" where
  "start_idle ctx cn i w =
     sbind (case im_snapshot (cn_session cn) of Some st \<Rightarrow> (w, Inr st) | None \<Rightarrow> get_mailbox_state ctx i w) (\<lambda>st w.
       case im_rx (cn_session cn) of
         Some rx \<Rightarrow> (w, Inr (cn\<lparr>cn_idle := Some st\<rparr>))
       | None \<Rightarrow>
           (case registry_subscribe (ic_bcast ctx) i (iw_registry w) of (reg, r) \<Rightarrow>
              (w\<lparr>iw_registry := reg\<rparr>,
               Inr (cn\<lparr>cn_idle := Some st, cn_session := (cn_session cn)\<lparr>im_rx := Some (i, r)\<rparr>\<rparr>))))"

text \<open>IDLE that failed: the receiver is gone and the mailbox is selected again.\<close>

definition abort_idle :: "('s, 'c) imap_ctx \<Rightarrow> imap_conn \<Rightarrow> ('s, 'c) imap_world \<Rightarrow> imap_conn \<times> ('s, 'c) imap_world" where
  "abort_idle ctx cn w =
     (let sn = cn_session cn in
      (cn\<lparr>cn_idle := None,
          cn_session := sn\<lparr>im_rx := None, im_state := (case session_mailbox_id sn of Some i \<Rightarrow> Selected i | None \<Rightarrow> im_state sn)\<rparr>\<rparr>,
       w\<lparr>iw_registry := drop_receiver (ic_bcast ctx) (im_rx sn) (iw_registry w)\<rparr>))"

definition finish_idle :: "imap_conn \<Rightarrow> imap_conn \<times> string list" where
  "finish_idle cn =
     (let sn = cn_session cn;
          tag = (case im_tag sn of Some t \<Rightarrow> t | None \<Rightarrow> ''A001'')
      in (cn\<lparr>cn_idle := None,
             cn_session := sn\<lparr>im_tag := None, im_state := (case im_state sn of Idling i \<Rightarrow> Selected i | st \<Rightarrow> st)\<rparr>\<rparr>,
          [imap_format (imap_ok tag ''IDLE terminated'')]))"

text \<open>What follows the response of a command: the switch to DEFLATE, IDLE, the end after LOGOUT.  An IDLE that
  cannot start falls back to the selected mailbox.\<close>

definition after_response :: "('s, 'c) imap_ctx \<Rightarrow> imap_conn \<Rightarrow> ('s, 'c) imap_world \<Rightarrow> imap_conn \<times> ('s, 'c) imap_world" where
  "after_response ctx cn w =
     (if im_compress_pending (cn_session cn) then
        (cn\<lparr>cn_session := (cn_session cn)\<lparr>im_compress_pending := False\<rparr>, cn_layers := cn_layers cn + 1\<rparr>, w)
      else case im_state (cn_session cn) of
        Idling i \<Rightarrow> (case start_idle ctx cn i w of (w', Inr cn') \<Rightarrow> (cn', w') | (w', Inl e) \<Rightarrow> abort_idle ctx cn w')
      | LoggedOut \<Rightarrow> close_connection ctx cn w
      | _ \<Rightarrow> (cn, w))"

definition command_line ::
    "('s, 'c) imap_ctx \<Rightarrow> imap_net \<Rightarrow> imap_conn \<Rightarrow> ('s, 'c) imap_world \<Rightarrow> string \<Rightarrow> string \<Rightarrow>
       (imap_conn \<times> ('s, 'c) imap_world \<times> string list) option" where
  "command_line ctx net cn w line input =
     (case read_command ctx net line input of
        (out, Inl e) \<Rightarrow> Some (cn, w, out @ [imap_format (imap_bad ''*'' e)])
      | (out, Inr (tag, command)) \<Rightarrow>
          (case imap_handle_command ctx (cn_session cn) tag command w of
             (w', Inl e) \<Rightarrow> (case close_connection ctx cn w' of (cn', w'') \<Rightarrow> Some (cn', w'', out))
           | (w', Inr (sn, response)) \<Rightarrow>
               (case drain_mailbox_events (ic_bcast ctx) sn (iw_registry w') of
                  None \<Rightarrow> None
                | Some (sn', reg, untagged) \<Rightarrow>
                    (case after_response ctx (cn\<lparr>cn_session := sn'\<rparr>) (w'\<lparr>iw_registry := reg\<rparr>) of (cn', w'') \<Rightarrow>
                       Some (cn', w'', out @ map (\<lambda>l. l @ CRLF) untagged @ [imap_format response])))))"

section \<open>IDLE\<close>

text \<open>The lines written when the counters differ from the last known ones.\<close>

definition change_lines :: "nat \<times> nat \<Rightarrow> nat \<times> nat \<Rightarrow> string list" where
  "change_lines now snapshot =
     (if fst now \<noteq> fst snapshot then [''* '' @ show_nat (fst now) @ '' EXISTS'' @ CRLF] else []) @
     (if snd now \<noteq> snd snapshot then [''* '' @ show_nat (snd now) @ '' RECENT'' @ CRLF] else [])"

definition idle_poll ::
    "('s, 'c) imap_ctx \<Rightarrow> imap_conn \<Rightarrow> ('s, 'c) imap_world \<Rightarrow> mailbox_id \<Rightarrow> nat \<times> nat \<Rightarrow> bool \<Rightarrow>
       imap_conn \<times> ('s, 'c) imap_world \<times> string list" where
  "idle_poll ctx cn w i last_state deadline =
     (case get_mailbox_state ctx i w of
        (w', Inl e) \<Rightarrow> (case abort_idle ctx cn w' of (cn', w'') \<Rightarrow> (cn', w'', []))
      | (w', Inr now) \<Rightarrow>
          let cn' = (if has_changes now last_state then cn\<lparr>cn_idle := Some now\<rparr> else cn) in
          if deadline then (case finish_idle cn' of (cn'', out) \<Rightarrow> (cn'', w', change_lines now last_state @ out))
          else (cn', w', change_lines now last_state))"

definition idle_notified ::
    "('s, 'c) imap_ctx \<Rightarrow> imap_conn \<Rightarrow> ('s, 'c) imap_world \<Rightarrow> mailbox_id \<Rightarrow> nat \<times> nat \<Rightarrow>
       imap_conn \<times> ('s, 'c) imap_world \<times> string list" where
  "idle_notified ctx cn w i last_state =
     (case im_rx (cn_session cn) of
        None \<Rightarrow> (cn, w, [])
      | Some rx \<Rightarrow>
          (case try_recv (ic_bcast ctx) rx (iw_registry w) of
             (reg, Received ev) \<Rightarrow> (cn, w\<lparr>iw_registry := reg\<rparr>, [format_mailbox_event ev @ CRLF])
           | (reg, RecvEmpty) \<Rightarrow> (cn, w\<lparr>iw_registry := reg\<rparr>, [])
           | (reg, RecvLagged n) \<Rightarrow>
               (case get_mailbox_state ctx i (w\<lparr>iw_registry := reg\<rparr>) of
                  (w', Inl e) \<Rightarrow> (case abort_idle ctx cn w' of (cn', w'') \<Rightarrow> (cn', w'', []))
                | (w', Inr now) \<Rightarrow> (cn\<lparr>cn_idle := Some now\<rparr>, w', change_lines now last_state))
           | (reg, RecvClosed) \<Rightarrow>
               (case finish_idle (cn\<lparr>cn_session := (cn_session cn)\<lparr>im_rx := None\<rparr>\<rparr>) of (cn', out) \<Rightarrow>
                  (cn', w\<lparr>iw_registry := reg\<rparr>, out))))"

definition idle_step ::
    "('s, 'c) imap_ctx \<Rightarrow> imap_conn \<Rightarrow> ('s, 'c) imap_world \<Rightarrow> mailbox_id \<Rightarrow> nat \<times> nat \<Rightarrow> imap_event \<Rightarrow>
       imap_conn \<times> ('s, 'c) imap_world \<times> string list" where
  "idle_step ctx cn w i last_state ev =
     (case ev of
        ImLine line input \<Rightarrow>
          if eq_ignore_ascii_case (trim line) ''DONE'' then (case finish_idle cn of (cn', out) \<Rightarrow> (cn', w, out)) else (cn, w, [])
      | ImEof \<Rightarrow> (case finish_idle cn of (cn', out) \<Rightarrow> (cn', w, out))
      | ImReadError e \<Rightarrow> (case abort_idle ctx cn w of (cn', w') \<Rightarrow> (cn', w', []))
      | ImTimeout \<Rightarrow> (cn, w, [])
      | IdleNotified \<Rightarrow> idle_notified ctx cn w i last_state
      | IdleTick deadline \<Rightarrow> idle_poll ctx cn w i last_state deadline)"

text \<open>One step of a connection; \<^const>\<open>None\<close> when the drain loop does not end.\<close>

definition imap_conn_step ::
    "('s, 'c) imap_ctx \<Rightarrow> imap_net \<Rightarrow> imap_conn \<Rightarrow> ('s, 'c) imap_world \<Rightarrow> imap_event \<Rightarrow>
       (imap_conn \<times> ('s, 'c) imap_world \<times> string list) option" where
  "imap_conn_step ctx net cn w ev =
     (if \<not> cn_open cn then Some (cn, w, [])
      else case (cn_idle cn, im_state (cn_session cn)) of
        (Some last_state, Idling i) \<Rightarrow> Some (idle_step ctx cn w i last_state ev)
      | _ \<Rightarrow>
          (case ev of
             ImLine line input \<Rightarrow> command_line ctx net cn w line input
           | ImEof \<Rightarrow> (case close_connection ctx cn w of (cn', w') \<Rightarrow> Some (cn', w', []))
           | ImReadError e \<Rightarrow> (case close_connection ctx cn w of (cn', w') \<Rightarrow> Some (cn', w', []))
           | ImTimeout \<Rightarrow>
               (case close_connection ctx cn w of (cn', w') \<Rightarrow> Some (cn', w', [''* BYE Autologout; idle too long'' @ CRLF]))
           | IdleNotified \<Rightarrow> Some (cn, w, [])
           | IdleTick deadline \<Rightarrow> Some (cn, w, [])))"

section \<open>The server\<close>

record ('s, 'c) imap_server =
  is_world :: "('s, 'c) imap_world"
  is_conns :: "imap_conn list"
  is_idle_timeout :: nat

definition ImapServer_from_config :: "imap_config \<Rightarrow> ('s, 'c) imap_world \<Rightarrow> string \<times> ('s, 'c) imap_server" where
  "ImapServer_from_config config w =
     (imap_bind_addr config, \<lparr>is_world = w, is_conns = [], is_idle_timeout = icf_idle_timeout config\<rparr>)"

definition imap_accept :: "('s, 'c) imap_server \<Rightarrow> ('s, 'c) imap_server \<times> string list" where
  "imap_accept sv = (sv\<lparr>is_conns := is_conns sv @ [open_connection (is_idle_timeout sv)]\<rparr>, [imap_greeting])"

text \<open>The steps of a running server; another part of the system may change the store at any time.\<close>

inductive imap_step :: "('s, 'c) imap_ctx \<Rightarrow> imap_net \<Rightarrow> ('s, 'c) imap_server \<Rightarrow> ('s, 'c) imap_server \<Rightarrow> bool"
  for ctx net where
  accept: "imap_step ctx net sv (fst (imap_accept sv))"
| conn: "k < length (is_conns sv) \<Longrightarrow>
    imap_conn_step ctx net (is_conns sv ! k) (is_world sv) ev = Some (cn, w, out) \<Longrightarrow>
    imap_step ctx net sv (sv\<lparr>is_world := w, is_conns := (is_conns sv)[k := cn]\<rparr>)"
| store: "imap_step ctx net sv (sv\<lparr>is_world := (is_world sv)\<lparr>iw_store := st\<rparr>\<rparr>)"
| cleanup: "imap_step ctx net sv
    (sv\<lparr>is_world := (is_world sv)\<lparr>iw_registry := cleanup_closed (ic_bcast ctx) (iw_registry (is_world sv))\<rparr>\<rparr>)"

inductive imap_reachable :: "('s, 'c) imap_ctx \<Rightarrow> imap_net \<Rightarrow> ('s, 'c) imap_server \<Rightarrow> bool"
  for ctx net where
  initial: "imap_reachable ctx net
    (snd (ImapServer_from_config config \<lparr>iw_store = st, iw_registry = [], iw_drawn = n\<rparr>))"
| step: "imap_reachable ctx net sv \<Longrightarrow> imap_step ctx net sv sv' \<Longrightarrow> imap_reachable ctx net sv'"

inductive_cases imap_step_cases: "imap_step ctx net sv sv'"

section \<open>An instance\<close>

text \<open>A concrete context: one account, one queue for each receiver, ASCII case conversion.\<close>

definition demo_authenticate :: "username \<Rightarrow> string \<Rightarrow> bool result" where
  "demo_authenticate u password = Inr (u = Username ''a'' \<and> password = ''pw'')"

definition demo_imap_ctx :: "'s mail_store \<Rightarrow> ('s, queue_channel) imap_ctx" where
  "demo_imap_ctx store =
     \<lparr>ic_store = store, ic_bcast = queue_broadcast, ic_authenticate = demo_authenticate, ic_uc = to_ascii_uppercase,
      ic_lc = to_ascii_lowercase, ic_uuid_show = (\<lambda>u. show_nat (unat u)), ic_fresh = (\<lambda>n. word_of_nat (5000 + n)),
      ic_body_error = None\<rparr>"

definition demo_imap_net :: imap_net where
  "demo_imap_net = \<lparr>in_nom = nom_complete, in_report = (\<lambda>s. s), in_eof_error = ''early eof''\<rparr>"

end
