(* ===== verification/Threading.thy ===== *)
theory Threading
  imports Storage_Types
begin

text \<open>
  Model of the threading engine of \<^verbatim>\<open>crates/rusmes-storage/src/backends/filesystem/threading.rs\<close>: the
  index of a mailbox maps message identifiers and normalised subjects to thread identifiers.  The
  engine works on the text of the index file (\<open>None\<close> when there is none); the JSON library and the
  first sixteen hexadecimal digits of SHA-256 are arguments, as is Unicode lower-casing.
\<close>

type_synonym thread_index = "(string \<times> string) list"

record thread_env =
  te_lc :: "string \<Rightarrow> string"
  te_to_json :: "thread_index \<Rightarrow> string"
  te_from_json :: "string \<Rightarrow> thread_index option"
  te_digest16 :: "string \<Rightarrow> string"
  te_uuid_show :: "uuid \<Rightarrow> string"

section \<open>Message identifiers and subjects\<close>

definition strip_angle_brackets :: "string \<Rightarrow> string" where
  "strip_angle_brackets s =
     (let t = trim s in
      if starts_with t ''<'' \<and> ends_with t ''>'' then butlast (tl t) else t)"

fun split_any :: "string \<Rightarrow> string \<Rightarrow> string list" where
  "split_any ds [] = [[]]"
| "split_any ds (c # cs) =
     (if c \<in> set ds then [] # split_any ds cs
      else case split_any ds cs of p # ps \<Rightarrow> (c # p) # ps | [] \<Rightarrow> [[c]])"

definition id_separators :: string where
  "id_separators = '' ,'' @ [CHR 0x09, CHR 0x0A, CHR 0x0D]"

definition parse_message_id_list :: "string \<Rightarrow> string list" where
  "parse_message_id_list val =
     filter (\<lambda>t. t \<noteq> []) (map strip_angle_brackets (split_any id_separators val))"

definition dedup_keep_order :: "string list \<Rightarrow> string list" where
  "dedup_keep_order v = rev (remdups (rev v))"

definition reply_prefixes :: "string list" where
  "reply_prefixes = [''re:'', ''fwd:'', ''fw:'']"

definition strip_reply :: "string \<Rightarrow> string \<Rightarrow> string" where
  "strip_reply s pre = (case strip_prefix pre s of None \<Rightarrow> s | Some rest \<Rightarrow> trim_start rest)"

definition strip_tag :: "string \<Rightarrow> string" where
  "strip_tag s =
     (if starts_with s ''['' then
        (case position (\<lambda>c. c = CHR '']'') s of None \<Rightarrow> s | Some i \<Rightarrow> trim_start (drop (i + 1) s))
      else s)"

definition subject_round :: "string \<Rightarrow> string" where
  "subject_round s = strip_tag (foldl strip_reply s reply_prefixes)"

lemma length_trim_start: "length (trim_start s) \<le> length s"
  by (simp add: trim_start_def length_strip_words)

lemma strip_reply_shorter: "strip_reply s p = s \<or> length (strip_reply s p) < length s" if "p \<noteq> []"
proof (cases "strip_prefix p s")
  case (Some rest)
  with that have "length rest < length s"
    by (auto simp: strip_prefix_def starts_with_iff split: if_splits)
  with Some show ?thesis using length_trim_start [of rest] by (simp add: strip_reply_def)
qed (simp add: strip_reply_def)

lemma strip_tag_shorter: "strip_tag s = s \<or> length (strip_tag s) < length s"
proof (cases "starts_with s ''['' \<and> position (\<lambda>c. c = CHR '']'') s \<noteq> None")
  case True
  then obtain i where i: "position (\<lambda>c. c = CHR '']'') s = Some i" "s \<noteq> []" by (auto simp: starts_with_iff)
  then have "length (trim_start (drop (i + 1) s)) < length s"
    using length_trim_start [of "drop (i + 1) s"] by (cases s) simp_all
  with True i show ?thesis by (simp add: strip_tag_def)
qed (auto simp: strip_tag_def split: option.splits)

lemma subject_round_shorter: "subject_round s = s \<or> length (subject_round s) < length s"
proof -
  have "foldl strip_reply s ps = s \<or> length (foldl strip_reply s ps) < length s" if "\<forall>p \<in> set ps. p \<noteq> []" for ps
    using that
  proof (induction ps arbitrary: s)
    case (Cons p ps)
    then have "foldl strip_reply (strip_reply s p) ps = strip_reply s p \<or>
        length (foldl strip_reply (strip_reply s p) ps) < length (strip_reply s p)" by simp
    with strip_reply_shorter [of p s] Cons.prems show ?case by fastforce
  qed simp
  from this [of reply_prefixes] have "foldl strip_reply s reply_prefixes = s \<or> length (foldl strip_reply s reply_prefixes) < length s"
    by (simp add: reply_prefixes_def)
  with strip_tag_shorter [of "foldl strip_reply s reply_prefixes"] show ?thesis unfolding subject_round_def by fastforce
qed

function normalize_loop :: "string \<Rightarrow> string" where
  "normalize_loop s = (let s' = subject_round s in if s' = s then s else normalize_loop s')"
  by pat_completeness auto
termination
  by (relation "measure length") (use subject_round_shorter in auto)

declare normalize_loop.simps [simp del]

definition normalize_subject :: "(string \<Rightarrow> string) \<Rightarrow> string \<Rightarrow> string" where
  "normalize_subject lc subject = normalize_loop (lc (trim subject))"

lemma normalize_loop_stable: "subject_round (normalize_loop s) = normalize_loop s"
proof (induction s rule: normalize_loop.induct)
  case (1 s)
  then show ?case by (subst (1 2) normalize_loop.simps) (simp add: Let_def)
qed

section \<open>The index\<close>

definition load_index :: "thread_env \<Rightarrow> string option \<Rightarrow> thread_index" where
  "load_index env file =
     (case file of None \<Rightarrow> []
      | Some bytes \<Rightarrow> (case te_from_json env bytes of None \<Rightarrow> [] | Some index \<Rightarrow> index))"

definition message_refs :: "thread_env \<Rightarrow> header_map \<Rightarrow> string list" where
  "message_refs env hs =
     dedup_keep_order
       ((case header_get_first (te_lc env) hs ''references'' of None \<Rightarrow> [] | Some v \<Rightarrow> parse_message_id_list v) @
        (case header_get_first (te_lc env) hs ''in-reply-to'' of None \<Rightarrow> [] | Some v \<Rightarrow> parse_message_id_list v))"

definition rfc_message_id :: "thread_env \<Rightarrow> mail \<Rightarrow> string" where
  "rfc_message_id env m =
     (case header_get_first (te_lc env) (mm_headers (m_message m)) ''message-id'' of
        Some v \<Rightarrow> strip_angle_brackets v
      | None \<Rightarrow> ''uuid:'' @ te_uuid_show env (case m_message_id m of MessageId u \<Rightarrow> u))"

definition normalized_subject :: "thread_env \<Rightarrow> mail \<Rightarrow> string" where
  "normalized_subject env m =
     (case header_get_first (te_lc env) (mm_headers (m_message m)) ''subject'' of
        None \<Rightarrow> [] | Some v \<Rightarrow> normalize_subject (te_lc env) v)"

fun first_known :: "thread_index \<Rightarrow> string list \<Rightarrow> string option" where
  "first_known index [] = None"
| "first_known index (r # rs) = (case map_of index r of Some tid \<Rightarrow> Some tid | None \<Rightarrow> first_known index rs)"

definition existing_thread :: "thread_env \<Rightarrow> thread_index \<Rightarrow> mail \<Rightarrow> string option" where
  "existing_thread env index m =
     (case first_known index (message_refs env (mm_headers (m_message m))) of
        Some tid \<Rightarrow> Some tid
      | None \<Rightarrow>
          (let subj = normalized_subject env m in
           if subj \<noteq> [] then map_of index (''subj:'' @ subj) else None))"

definition index_message :: "thread_env \<Rightarrow> mail \<Rightarrow> string \<Rightarrow> thread_index \<Rightarrow> thread_index" where
  "index_message env m tid index =
     (let index1 = AList.update (rfc_message_id env m) tid index; subj = normalized_subject env m; key = ''subj:'' @ subj in
      if subj \<noteq> [] \<and> map_of index1 key = None then AList.update key tid index1 else index1)"

definition assign_thread_id ::
    "thread_env \<Rightarrow> (io_op \<Rightarrow> string option) \<Rightarrow> mail \<Rightarrow> string option \<Rightarrow> string option \<times> string result" where
  "assign_thread_id env io m file =
     (case io IoThreadRead of
        Some e \<Rightarrow> (file, Inl e)
      | None \<Rightarrow>
          (let index = load_index env file;
               tid = (case existing_thread env index m of
                        Some t \<Rightarrow> t | None \<Rightarrow> te_digest16 env (rfc_message_id env m))
           in case io IoThreadPersist of
                Some e \<Rightarrow> (file, Inl e)
              | None \<Rightarrow> (Some (te_to_json env (index_message env m tid index)), Inr tid)))"

definition get_thread_id ::
    "thread_env \<Rightarrow> (io_op \<Rightarrow> string option) \<Rightarrow> string \<Rightarrow> string option \<Rightarrow> string option result" where
  "get_thread_id env io msg_id file =
     (case io IoThreadRead of
        Some e \<Rightarrow> Inl e
      | None \<Rightarrow> Inr (map_of (load_index env file) (strip_angle_brackets msg_id)))"

lemma first_known_single:
  "r \<in> set rs \<Longrightarrow> map_of index r = Some tid \<Longrightarrow> list_all (\<lambda>x. x = r \<or> map_of index x = None) rs \<Longrightarrow>
     first_known index rs = Some tid"
  by (induction rs) auto

lemma index_message_own:
  "rfc_message_id env m = i \<Longrightarrow> map_of (index_message env m tid index) i = Some tid"
  by (auto simp: index_message_def Let_def update_conv')

section \<open>Results\<close>

text \<open>A reply joins the thread of the message it answers: when a message has been filed under a thread and the
  identifiers a later message refers to are unknown to the index apart from it, the later message
  gets the same thread, whatever its subject, and is found under it from then on.\<close>

theorem reply_joins_thread:
  assumes json: "\<And>i. te_from_json env (te_to_json env i) = Some i"
    and first: "assign_thread_id env io m file = (file', Inr tid)"
    and ref: "rfc_message_id env m \<in> set (message_refs env (mm_headers (m_message r)))"
    and only: "list_all (\<lambda>x. x = rfc_message_id env m \<or> map_of (load_index env file') x = None)
                 (message_refs env (mm_headers (m_message r)))"
  shows "\<exists>file''. assign_thread_id env io r file' = (file'', Inr tid) \<and>
    map_of (load_index env file'') (rfc_message_id env r) = Some tid"
proof -
  have io: "io IoThreadRead = None" "io IoThreadPersist = None"
    using first by (auto simp: assign_thread_id_def Let_def split: option.splits)
  have file': "load_index env file' = index_message env m tid (load_index env file)"
    using first io json by (auto simp: assign_thread_id_def Let_def load_index_def split: option.splits)
  have "map_of (load_index env file') (rfc_message_id env m) = Some tid"
    unfolding file' by (rule index_message_own) simp
  then have "existing_thread env (load_index env file') r = Some tid"
    using first_known_single [OF ref _ only] by (simp add: existing_thread_def)
  then show ?thesis
    using io json index_message_own [of env r "rfc_message_id env r" tid "load_index env file'"]
    by (simp add: assign_thread_id_def Let_def load_index_def)
qed

end
