(* ===== verification/Maildir_Store.thy ===== *)
theory Maildir_Store
  imports Threading
begin

text \<open>
  Model of the file system backend of \<^verbatim>\<open>crates/rusmes-storage/src/backends/filesystem/mod.rs\<close> with
  \<^verbatim>\<open>message_helpers.rs\<close> and \<^verbatim>\<open>thread_ops.rs\<close>.  The disk below the base path is the directory of each mailbox
  (its \<^verbatim>\<open>new\<close>, \<^verbatim>\<open>cur\<close> and \<^verbatim>\<open>tmp\<close> with their files, and the index of threads) and the directory of each user
  (the mailbox table and the subscriptions as text); the caches of the process are beside it in the
  state.  Entries that the program never makes (files among the mailbox directories, names that are
  not UTF-8) are left out.  The order in which a directory is listed, the clock, the random
  identifiers, JSON and the \<^verbatim>\<open>uuid\<close> crate are fields of the environment, as is the failure of each kind
  of system call.  A directory that is changed while it is listed is listed as it was when the
  listing began; the renames of \<open>set_flags\<close> give the same result either way, since an entry that
  already has its new name is skipped.
\<close>

section \<open>State\<close>

record maildir =
  dir_new :: "(string \<times> string) list"
  dir_cur :: "(string \<times> string) list"
  dir_tmp :: "(string \<times> string) list"
  dir_index :: "string option"

definition empty_maildir :: maildir where
  "empty_maildir = \<lparr>dir_new = [], dir_cur = [], dir_tmp = [], dir_index = None\<rparr>"

record user_dir =
  ud_mailboxes :: "string option"
  ud_subscriptions :: "string option"

datatype storage_event = MessageStored string string nat | MessageExpunged string string nat

record maildir_state =
  ms_root :: bool
  ms_dirs :: "(mailbox_id \<times> maildir) list"
  ms_users :: "(username \<times> user_dir) list"
  ms_mailboxes :: "(mailbox_id \<times> mailbox) list"
  ms_messages :: "(message_id \<times> mail) list"
  ms_quotas :: "(username \<times> mail_quota) list"
  ms_subscriptions :: "(username \<times> string list) list"
  ms_counter :: nat
  ms_events :: "storage_event list"
  ms_drawn :: nat

record maildir_env =
  mv_thread :: thread_env
  mv_hostname :: string
  mv_pid :: nat
  mv_clock :: "nat \<Rightarrow> nat \<times> nat"
  mv_fresh :: "nat \<Rightarrow> uuid"
  mv_uuid_parse :: "string \<Rightarrow> uuid option"
  mv_ls :: "(string \<times> string) list \<Rightarrow> (string \<times> string) list"
  mv_lsd :: "mailbox_id list \<Rightarrow> mailbox_id list"
  mv_io :: "io_op \<Rightarrow> string option"
  mv_mb_to_json :: "mailbox list \<Rightarrow> string"
  mv_mb_from_json :: "string \<Rightarrow> mailbox list option"

abbreviation mv_lc :: "maildir_env \<Rightarrow> string \<Rightarrow> string" where
  "mv_lc env \<equiv> te_lc (mv_thread env)"

definition dir_of :: "maildir_state \<Rightarrow> mailbox_id \<Rightarrow> maildir" where
  "dir_of s i = (case map_of (ms_dirs s) i of None \<Rightarrow> empty_maildir | Some d \<Rightarrow> d)"

definition set_dir :: "mailbox_id \<Rightarrow> maildir \<Rightarrow> maildir_state \<Rightarrow> maildir_state" where
  "set_dir i d s = s\<lparr>ms_root := True, ms_dirs := AList.update i d (ms_dirs s)\<rparr>"

definition io_check :: "maildir_env \<Rightarrow> io_op \<Rightarrow> maildir_state \<Rightarrow> maildir_state \<times> unit result" where
  "io_check env act s = (s, case mv_io env act of None \<Rightarrow> Inr () | Some e \<Rightarrow> Inl e)"

definition draw :: "maildir_env \<Rightarrow> maildir_state \<Rightarrow> uuid \<times> maildir_state" where
  "draw env s = (mv_fresh env (ms_drawn s), s\<lparr>ms_drawn := Suc (ms_drawn s)\<rparr>)"

section \<open>File names and message files\<close>

definition maildir_filename :: "string \<Rightarrow> nat \<Rightarrow> nat \<Rightarrow> nat \<times> nat \<Rightarrow> string" where
  "maildir_filename hostname pid counter now =
     show_nat (fst now) @ ''.M'' @ show_nat (snd now) @ ''P'' @ show_nat pid @ ''Q'' @ show_nat counter @ ''.'' @ hostname"

definition encode_flags :: "message_flags \<Rightarrow> string" where
  "encode_flags fl =
     '':2,'' @ (if mf_draft fl then ''D'' else []) @ (if mf_flagged fl then ''F'' else []) @
     (if mf_answered fl then ''R'' else []) @ (if mf_seen fl then ''S'' else []) @ (if mf_deleted fl then ''T'' else [])"

fun decode_flag :: "message_flags \<Rightarrow> char \<Rightarrow> message_flags" where
  "decode_flag fl c =
     (if c = CHR ''D'' then fl\<lparr>mf_draft := True\<rparr>
      else if c = CHR ''F'' then fl\<lparr>mf_flagged := True\<rparr>
      else if c = CHR ''R'' then fl\<lparr>mf_answered := True\<rparr>
      else if c = CHR ''S'' then fl\<lparr>mf_seen := True\<rparr>
      else if c = CHR ''T'' then fl\<lparr>mf_deleted := True\<rparr>
      else fl)"

definition decode_flags :: "string \<Rightarrow> message_flags" where
  "decode_flags filename =
     (case split_str '':2,'' filename of
        _ # flag_part # _ \<Rightarrow> foldl decode_flag MessageFlags_new flag_part
      | _ \<Rightarrow> MessageFlags_new)"

definition base_name :: "string \<Rightarrow> string" where
  "base_name filename = hd (split_str '':2,'' filename)"

definition with_flags :: "string \<Rightarrow> message_flags \<Rightarrow> string" where
  "with_flags filename fl = base_name filename @ encode_flags fl"

definition message_id_uuid :: "message_id \<Rightarrow> uuid" where
  "message_id_uuid i = (case i of MessageId u \<Rightarrow> u)"

definition serialize_message_to_bytes :: "maildir_env \<Rightarrow> mail \<Rightarrow> (string \<times> mail) result" where
  "serialize_message_to_bytes env m =
     (let msg = m_message m;
          pre = ''X-Rusmes-Message-Id: '' @ te_uuid_show (mv_thread env) (message_id_uuid (m_message_id m)) @ CRLF @
                header_block (mm_headers msg) @ CRLF
      in case mm_body msg of
           Small bytes \<Rightarrow> Inr (pre @ bytes, m)
         | Large large \<Rightarrow>
             (case read_to_bytes (mv_io env IoReadBody) large of
                (Inl e, _) \<Rightarrow> Inl (''failed to read large message body for serialization: '' @ mail_error_display e)
              | (Inr data, large') \<Rightarrow> Inr (pre @ data, m\<lparr>m_message := msg\<lparr>mm_body := Large large'\<rparr>\<rparr>)))"

definition message_id_header :: string where
  "message_id_header = ''x-rusmes-message-id''"

text \<open>The identifier of a message file: \<open>stored_id\<close> trims the header value, \<open>listed_id\<close>, which lists a
  mailbox, does not.\<close>

definition stored_id :: "maildir_env \<Rightarrow> string \<Rightarrow> message_id option" where
  "stored_id env data =
     (case header_get_first (mv_lc env) (mm_headers (MimeMessage_parse_from_bytes (mv_lc env) data)) message_id_header of
        None \<Rightarrow> None
      | Some v \<Rightarrow> map_option MessageId (mv_uuid_parse env (trim v)))"

definition listed_id :: "maildir_env \<Rightarrow> string \<Rightarrow> message_id option" where
  "listed_id env data =
     (case header_get_first (mv_lc env) (mm_headers (MimeMessage_parse_from_bytes (mv_lc env) data)) message_id_header of
        None \<Rightarrow> None
      | Some v \<Rightarrow> map_option MessageId (mv_uuid_parse env v))"

section \<open>Mailboxes\<close>

definition user_dir_of :: "maildir_state \<Rightarrow> username \<Rightarrow> user_dir" where
  "user_dir_of s u =
     (case map_of (ms_users s) u of None \<Rightarrow> \<lparr>ud_mailboxes = None, ud_subscriptions = None\<rparr> | Some d \<Rightarrow> d)"

definition user_mailboxes :: "maildir_state \<Rightarrow> username \<Rightarrow> mailbox list" where
  "user_mailboxes s user = filter (\<lambda>mb. mp_user (mb_path mb) = user) (map snd (ms_mailboxes s))"

definition persist_user_mailboxes :: "maildir_env \<Rightarrow> username \<Rightarrow> maildir_state \<Rightarrow> maildir_state \<times> unit result" where
  "persist_user_mailboxes env user s =
     sbind (io_check env IoCreateDir s) (\<lambda>_ s.
     sbind (io_check env IoWrite s) (\<lambda>_ s.
       (s\<lparr>ms_users := AList.update user
            ((user_dir_of s user)\<lparr>ud_mailboxes := Some (mv_mb_to_json env (user_mailboxes s user))\<rparr>) (ms_users s)\<rparr>,
        Inr ())))"

definition load_user_mailbox_metadata ::
    "maildir_env \<Rightarrow> user_dir \<Rightarrow> (mailbox_id \<times> mailbox) list result" where
  "load_user_mailbox_metadata env d =
     (case ud_mailboxes d of
        None \<Rightarrow> Inr []
      | Some content \<Rightarrow>
          (case mv_io env IoRead of
             Some e \<Rightarrow> Inl e
           | None \<Rightarrow>
               (case mv_mb_from_json env content of
                  None \<Rightarrow> Inl ''invalid JSON''
                | Some mbs \<Rightarrow> Inr (foldl (\<lambda>mp mb. AList.update (mb_id mb) mb mp) [] mbs))))"

definition load_all_mailbox_metadata ::
    "maildir_env \<Rightarrow> (username \<times> user_dir) list \<Rightarrow> (mailbox_id \<times> mailbox) list result" where
  "load_all_mailbox_metadata env users =
     (if users = [] then Inr []
      else case mv_io env IoReadDir of
        Some e \<Rightarrow> Inl e
      | None \<Rightarrow>
          Inr (foldl (\<lambda>all (user, d).
                 if \<exists>u. Username_new (username_str user) = Inr u then
                   (case load_user_mailbox_metadata env d of
                      Inr mbs \<Rightarrow> foldl (\<lambda>mp (i, mb). AList.update i mb mp) all mbs
                    | Inl _ \<Rightarrow> all)
                 else all) [] users))"

definition FilesystemBackend_new ::
    "maildir_env \<Rightarrow> bool \<Rightarrow> (mailbox_id \<times> maildir) list \<Rightarrow> (username \<times> user_dir) list \<Rightarrow> nat \<Rightarrow> maildir_state" where
  "FilesystemBackend_new env root dirs users drawn =
     \<lparr>ms_root = root, ms_dirs = dirs, ms_users = users,
      ms_mailboxes = (case load_all_mailbox_metadata env users of Inl _ \<Rightarrow> [] | Inr mbs \<Rightarrow> mbs),
      ms_messages = [], ms_quotas = [], ms_subscriptions = [], ms_counter = 0, ms_events = [], ms_drawn = drawn\<rparr>"

definition md_create_mailbox :: "maildir_env \<Rightarrow> mailbox_path \<Rightarrow> (maildir_state, mailbox_id) store_op" where
  "md_create_mailbox env p s =
     (case draw env s of (u, s1) \<Rightarrow>
        let i = MailboxId u in
        sbind (io_check env IoCreateDir s1) (\<lambda>_ s2.
          let s3 = (set_dir i (dir_of s2 i) s2)\<lparr>ms_mailboxes := AList.update i (Mailbox_new i p) (ms_mailboxes s2)\<rparr> in
          sbind (persist_user_mailboxes env (mp_user p) s3) (\<lambda>_ s4. (s4, Inr i))))"

definition md_delete_mailbox :: "maildir_env \<Rightarrow> mailbox_id \<Rightarrow> (maildir_state, unit) store_op" where
  "md_delete_mailbox env i s =
     (case map_of (ms_mailboxes s) i of
        None \<Rightarrow> (s, Inl ''Mailbox not found'')
      | Some mb \<Rightarrow>
          sbind (io_check env IoRemoveDir s) (\<lambda>_ s1.
            if map_of (ms_dirs s1) i = None then (s1, Inl ''No such file or directory'')
            else
              persist_user_mailboxes env (mp_user (mb_path mb))
                (s1\<lparr>ms_dirs := AList.delete i (ms_dirs s1), ms_mailboxes := AList.delete i (ms_mailboxes s1)\<rparr>)))"

definition md_rename_mailbox :: "maildir_env \<Rightarrow> mailbox_id \<Rightarrow> mailbox_path \<Rightarrow> (maildir_state, unit) store_op" where
  "md_rename_mailbox env i new_path s =
     (case map_of (ms_mailboxes s) i of
        None \<Rightarrow> (s, Inl ''Mailbox not found'')
      | Some mb \<Rightarrow>
          persist_user_mailboxes env (mp_user new_path)
            (s\<lparr>ms_mailboxes := AList.update i (mb\<lparr>mb_path := new_path\<rparr>) (ms_mailboxes s)\<rparr>))"

definition md_get_mailbox :: "mailbox_id \<Rightarrow> (maildir_state, mailbox option) store_op" where
  "md_get_mailbox i s = (s, Inr (map_of (ms_mailboxes s) i))"

definition md_list_mailboxes :: "username \<Rightarrow> (maildir_state, mailbox list) store_op" where
  "md_list_mailboxes user s = (s, Inr (user_mailboxes s user))"

definition md_get_user_inbox :: "username \<Rightarrow> (maildir_state, mailbox_id option) store_op" where
  "md_get_user_inbox user s =
     (s, Inr (map_option mb_id
       (find (\<lambda>mb. mp_user (mb_path mb) = user \<and> mailbox_name mb = Some ''INBOX'') (map snd (ms_mailboxes s)))))"

definition write_subscriptions :: "maildir_env \<Rightarrow> username \<Rightarrow> maildir_state \<Rightarrow> maildir_state \<times> unit result" where
  "write_subscriptions env user s =
     (let subs = (case map_of (ms_subscriptions s) user of None \<Rightarrow> [] | Some l \<Rightarrow> l) in
      sbind (io_check env IoCreateDir s) (\<lambda>_ s.
      sbind (io_check env IoWrite s) (\<lambda>_ s.
        (s\<lparr>ms_users := AList.update user
             ((user_dir_of s user)\<lparr>ud_subscriptions := Some (str_join [CHR 0x0A] subs)\<rparr>) (ms_users s)\<rparr>, Inr ()))))"

definition md_subscribe :: "maildir_env \<Rightarrow> username \<Rightarrow> string \<Rightarrow> (maildir_state, unit) store_op" where
  "md_subscribe env user name s =
     write_subscriptions env user
       (s\<lparr>ms_subscriptions := AList.update user
            (List.insert name (case map_of (ms_subscriptions s) user of None \<Rightarrow> [] | Some l \<Rightarrow> l)) (ms_subscriptions s)\<rparr>)"

definition md_unsubscribe :: "maildir_env \<Rightarrow> username \<Rightarrow> string \<Rightarrow> (maildir_state, unit) store_op" where
  "md_unsubscribe env user name s =
     write_subscriptions env user
       (case map_of (ms_subscriptions s) user of
          None \<Rightarrow> s
        | Some l \<Rightarrow> s\<lparr>ms_subscriptions := AList.update user (removeAll name l) (ms_subscriptions s)\<rparr>)"

definition md_list_subscriptions :: "maildir_env \<Rightarrow> username \<Rightarrow> (maildir_state, string list) store_op" where
  "md_list_subscriptions env user s =
     (case ud_subscriptions (user_dir_of s user) of
        Some content \<Rightarrow>
          sbind (io_check env IoRead s) (\<lambda>_ s.
            let subs = str_lines content in
            (s\<lparr>ms_subscriptions := AList.update user (remdups subs) (ms_subscriptions s)\<rparr>, Inr subs))
      | None \<Rightarrow> (s, Inr (case map_of (ms_subscriptions s) user of None \<Rightarrow> [] | Some l \<Rightarrow> l)))"

section \<open>Messages\<close>

definition default_quota :: mail_quota where
  "default_quota = \<lparr>mqt_used = 0, mqt_limit = 1024 * 1024 * 1024\<rparr>"

definition quota_of :: "maildir_state \<Rightarrow> username \<Rightarrow> mail_quota" where
  "quota_of s user = (case map_of (ms_quotas s) user of None \<Rightarrow> default_quota | Some q \<Rightarrow> q)"

definition cache_message :: "message_id \<Rightarrow> mail \<Rightarrow> maildir_state \<Rightarrow> maildir_state" where
  "cache_message i m s = s\<lparr>ms_messages := AList.update i m (ms_messages s)\<rparr>"

text \<open>The two steps of a delivery: the file is written to \<^verbatim>\<open>tmp\<close> and renamed into \<^verbatim>\<open>new\<close>.\<close>

definition deliver_file ::
    "maildir_env \<Rightarrow> mailbox_id \<Rightarrow> string \<Rightarrow> mail \<Rightarrow> maildir_state \<Rightarrow> maildir_state \<times> mail result" where
  "deliver_file env i filename m s =
     sbind (io_check env IoCreateDir (set_dir i (dir_of s i) s)) (\<lambda>_ s.
     sbind (io_check env IoLock s) (\<lambda>_ s.
       case serialize_message_to_bytes env m of
         Inl e \<Rightarrow> (s, Inl e)
       | Inr (data, m') \<Rightarrow>
           sbind (io_check env IoWrite s) (\<lambda>_ s.
             let d = dir_of s i; s1 = set_dir i (d\<lparr>dir_tmp := AList.update filename data (dir_tmp d)\<rparr>) s in
             sbind (io_check env IoRename s1) (\<lambda>_ s1.
               (set_dir i (d\<lparr>dir_tmp := AList.delete filename (dir_tmp d),
                              dir_new := AList.update filename data (dir_new d)\<rparr>) s1, Inr m')))))"

definition file_thread :: "maildir_env \<Rightarrow> mailbox_id \<Rightarrow> mail \<Rightarrow> maildir_state \<Rightarrow> maildir_state \<times> string option" where
  "file_thread env i m s =
     (let d = dir_of s i in
      case assign_thread_id (mv_thread env) (mv_io env) m (dir_index d) of
        (file, r) \<Rightarrow> (set_dir i (d\<lparr>dir_index := file\<rparr>) s, case r of Inr tid \<Rightarrow> Some tid | Inl _ \<Rightarrow> None))"

definition md_append_message :: "maildir_env \<Rightarrow> mailbox_id \<Rightarrow> mail \<Rightarrow> (maildir_state, message_metadata) store_op" where
  "md_append_message env i m s =
     (case map_of (ms_mailboxes s) i of
        None \<Rightarrow> (s, Inl ''Mailbox not found'')
      | Some mb \<Rightarrow>
          let user = mp_user (mb_path mb);
              name = (case mailbox_name mb of None \<Rightarrow> ''INBOX'' | Some n \<Rightarrow> n);
              quota = quota_of s user
          in
          if mqt_limit quota < usize_add (mqt_used quota) (mail_size m)
          then (s, Inl ''Quota exceeded: cannot append message'')
          else
            let counter = usize_add (ms_counter s) 1;
                filename = maildir_filename (mv_hostname env) (mv_pid env) counter (mv_clock env counter)
            in
            sbind (deliver_file env i filename m (s\<lparr>ms_counter := counter\<rparr>)) (\<lambda>m' s1.
              let s2 = cache_message (m_message_id m') m' s1;
                  q = quota_of s2 user;
                  s3 = s2\<lparr>ms_quotas := AList.update user (q\<lparr>mqt_used := usize_add (mqt_used q) (mail_size m)\<rparr>) (ms_quotas s2)\<rparr>;
                  uid = counter mod 2 ^ 32
              in case file_thread env i m' s3 of
                   (s4, tid) \<Rightarrow>
                     (s4\<lparr>ms_events := ms_events s4 @ [MessageStored (username_str user) name uid]\<rparr>,
                      Inr (MessageMetadata_new (m_message_id m') i uid MessageFlags_new (mail_size m') tid))))"

text \<open>All message files, in the order of a scan.\<close>

definition dir_files :: "maildir_env \<Rightarrow> maildir \<Rightarrow> (string \<times> string) list" where
  "dir_files env d = mv_ls env (dir_new d) @ mv_ls env (dir_cur d)"

definition scan_files :: "maildir_env \<Rightarrow> maildir_state \<Rightarrow> (mailbox_id \<times> string \<times> string) list" where
  "scan_files env s =
     (if mv_io env IoRead \<noteq> None then []
      else concat (map (\<lambda>i. map (\<lambda>f. (i, f)) (dir_files env (dir_of s i))) (mv_lsd env (map fst (ms_dirs s)))))"

definition find_file :: "maildir_env \<Rightarrow> message_id \<Rightarrow> maildir_state \<Rightarrow> (mailbox_id \<times> string \<times> string) option" where
  "find_file env i s = find (\<lambda>(mb, name, data). stored_id env data = Some i) (scan_files env s)"

definition md_get_message :: "maildir_env \<Rightarrow> message_id \<Rightarrow> (maildir_state, mail option) store_op" where
  "md_get_message env i s =
     (case map_of (ms_messages s) i of
        Some m \<Rightarrow> (s, Inr (Some m))
      | None \<Rightarrow>
          if \<not> ms_root s then (s, Inr None)
          else sbind (io_check env IoReadDir s) (\<lambda>_ s.
            case find_file env i s of
              None \<Rightarrow> (s, Inr None)
            | Some (mb, name, data) \<Rightarrow>
                (case draw env s of (u, s1) \<Rightarrow>
                   let m = Mail_with_message_id (MailId u) None [] (MimeMessage_parse_from_bytes (mv_lc env) data) None None i
                   in (cache_message i m s1, Inr (Some m)))))"

definition is_target :: "maildir_env \<Rightarrow> message_id list \<Rightarrow> string \<Rightarrow> bool" where
  "is_target env ids data \<longleftrightarrow>
     mv_io env IoRead = None \<and> (case stored_id env data of None \<Rightarrow> False | Some i \<Rightarrow> i \<in> set ids)"

definition expunge_dir :: "maildir_env \<Rightarrow> message_id list \<Rightarrow> maildir \<Rightarrow> maildir" where
  "expunge_dir env ids d =
     (if mv_io env IoLock \<noteq> None \<or> mv_io env IoRemoveFile \<noteq> None then d
      else d\<lparr>dir_new := filter (\<lambda>(n, data). \<not> is_target env ids data) (dir_new d),
             dir_cur := filter (\<lambda>(n, data). \<not> is_target env ids data) (dir_cur d)\<rparr>)"

definition expunge_count :: "maildir_env \<Rightarrow> message_id list \<Rightarrow> maildir \<Rightarrow> nat" where
  "expunge_count env ids d =
     (if mv_io env IoLock \<noteq> None then 0
      else length (filter (\<lambda>(n, data). is_target env ids data) (dir_new d @ dir_cur d)))"

definition md_delete_messages :: "maildir_env \<Rightarrow> message_id list \<Rightarrow> (maildir_state, unit) store_op" where
  "md_delete_messages env ids s =
     (let s1 = s\<lparr>ms_messages := filter (\<lambda>(i, m). i \<notin> set ids) (ms_messages s)\<rparr> in
      if \<not> ms_root s then
        (s1\<lparr>ms_events := ms_events s @ map (\<lambda>_. MessageExpunged [] [] 0) ids\<rparr>, Inr ())
      else sbind (io_check env IoReadDir s1) (\<lambda>_ s1.
        (s1\<lparr>ms_dirs := map (\<lambda>(i, d). (i, expunge_dir env ids d)) (ms_dirs s1),
            ms_events := ms_events s1 @
              replicate (sum_list (map (\<lambda>(i, d). expunge_count env ids d) (ms_dirs s1))) (MessageExpunged [] [] 0)\<rparr>,
         Inr ())))"

text \<open>Renaming one file to carry the new flags, from \<^verbatim>\<open>new\<close> and from \<^verbatim>\<open>cur\<close>.\<close>

definition flag_new_file :: "maildir_env \<Rightarrow> message_id list \<Rightarrow> message_flags \<Rightarrow> maildir \<Rightarrow> string \<times> string \<Rightarrow> maildir" where
  "flag_new_file env ids fl d f =
     (case f of (name, data) \<Rightarrow>
        if \<not> is_target env ids data \<or> mv_io env IoCreateDir \<noteq> None \<or> mv_io env IoLock \<noteq> None \<or> mv_io env IoRename \<noteq> None
        then d
        else d\<lparr>dir_new := AList.delete name (dir_new d),
               dir_cur := AList.update (with_flags name fl) data (dir_cur d)\<rparr>)"

definition flag_cur_file :: "maildir_env \<Rightarrow> message_id list \<Rightarrow> message_flags \<Rightarrow> maildir \<Rightarrow> string \<times> string \<Rightarrow> maildir" where
  "flag_cur_file env ids fl d f =
     (case f of (name, data) \<Rightarrow>
        if \<not> is_target env ids data \<or> with_flags name fl = name \<or>
           mv_io env IoCreateDir \<noteq> None \<or> mv_io env IoLock \<noteq> None \<or> mv_io env IoRename \<noteq> None
        then d
        else d\<lparr>dir_cur := AList.update (with_flags name fl) data (AList.delete name (dir_cur d))\<rparr>)"

definition flag_dir :: "maildir_env \<Rightarrow> message_id list \<Rightarrow> message_flags \<Rightarrow> maildir \<Rightarrow> maildir" where
  "flag_dir env ids fl d =
     (let d1 = foldl (flag_new_file env ids fl) d (mv_ls env (dir_new d)) in
      foldl (flag_cur_file env ids fl) d1 (mv_ls env (dir_cur d1)))"

definition md_set_flags :: "maildir_env \<Rightarrow> message_id list \<Rightarrow> message_flags \<Rightarrow> (maildir_state, unit) store_op" where
  "md_set_flags env ids fl s =
     (if \<not> ms_root s then (s, Inr ())
      else sbind (io_check env IoReadDir s) (\<lambda>_ s.
        (s\<lparr>ms_dirs := map (\<lambda>(i, d). (i, flag_dir env ids fl d)) (ms_dirs s)\<rparr>, Inr ())))"

text \<open>The unused helpers that rename one file; renaming a missing file is an error of the operating system.\<close>

definition missing_file :: string where
  "missing_file = ''No such file or directory (os error 2)''"

definition mark_as_seen :: "maildir_env \<Rightarrow> mailbox_id \<Rightarrow> string \<Rightarrow> message_flags \<Rightarrow> (maildir_state, unit) store_op" where
  "mark_as_seen env i name fl s =
     sbind (io_check env IoCreateDir s) (\<lambda>_ s.
     sbind (io_check env IoRename s) (\<lambda>_ s.
       case map_of (dir_new (dir_of s i)) name of
         None \<Rightarrow> (s, Inl missing_file)
       | Some data \<Rightarrow>
           (set_dir i (let d = dir_of s i in
              d\<lparr>dir_new := AList.delete name (dir_new d),
                dir_cur := AList.update (with_flags name fl) data (dir_cur d)\<rparr>) s, Inr ())))"

definition update_flags :: "maildir_env \<Rightarrow> mailbox_id \<Rightarrow> string \<Rightarrow> message_flags \<Rightarrow> (maildir_state, unit) store_op" where
  "update_flags env i name fl s =
     (if with_flags name fl = name then (s, Inr ())
      else sbind (io_check env IoRename s) (\<lambda>_ s.
        case map_of (dir_cur (dir_of s i)) name of
          None \<Rightarrow> (s, Inl missing_file)
        | Some data \<Rightarrow>
            (set_dir i (let d = dir_of s i in
               d\<lparr>dir_cur := AList.update (with_flags name fl) data (AList.delete name (dir_cur d))\<rparr>) s, Inr ())))"

definition list_messages :: "maildir_env \<Rightarrow> mailbox_id \<Rightarrow> (maildir_state, (string \<times> message_flags) list) store_op" where
  "list_messages env i s =
     sbind (io_check env IoReadDir s) (\<lambda>_ s.
       (s, Inr (map (\<lambda>(name, data). (name, decode_flags name)) (dir_files env (dir_of s i)))))"

definition md_get_message_flags :: "maildir_env \<Rightarrow> message_id \<Rightarrow> (maildir_state, message_flags option) store_op" where
  "md_get_message_flags env i s =
     (if \<not> ms_root s then (s, Inr None)
      else sbind (io_check env IoReadDir s) (\<lambda>_ s.
        (s, Inr (map_option (\<lambda>(mb, name, data). decode_flags name) (find_file env i s)))))"

definition md_get_message_thread_id :: "maildir_env \<Rightarrow> message_id \<Rightarrow> (maildir_state, string option) store_op" where
  "md_get_message_thread_id env i s =
     (if \<not> ms_root s then (s, Inr None)
      else sbind (io_check env IoReadDir s) (\<lambda>_ s.
        case find_file env i s of
          None \<Rightarrow> (s, Inr None)
        | Some (mb, name, data) \<Rightarrow>
            (case header_get_first (mv_lc env) (mm_headers (MimeMessage_parse_from_bytes (mv_lc env) data)) ''message-id'' of
               None \<Rightarrow> (s, Inr None)
             | Some v \<Rightarrow> (s, get_thread_id (mv_thread env) (mv_io env) (strip_angle_brackets v) (dir_index (dir_of s mb))))))"

section \<open>Listing and searching\<close>

definition parse_message_from_file ::
    "maildir_env \<Rightarrow> mailbox_id \<Rightarrow> nat \<Rightarrow> string \<times> string \<Rightarrow> maildir_state \<Rightarrow> maildir_state \<times> message_metadata" where
  "parse_message_from_file env i uid f s =
     (case f of (name, data) \<Rightarrow>
        let mime = MimeMessage_parse_from_bytes (mv_lc env) data in
        case draw env s of (u, s1) \<Rightarrow>
        case (case listed_id env data of
                Some msg_id \<Rightarrow> (Mail_with_message_id (MailId u) None [] mime None None msg_id, s1)
              | None \<Rightarrow> (case draw env s1 of (v, s2) \<Rightarrow> (Mail_new (MailId u) (MessageId v) None [] mime None None, s2))) of
          (m, s3) \<Rightarrow>
            let tid = (case header_get_first (mv_lc env) (mm_headers mime) ''message-id'' of
                         None \<Rightarrow> None
                       | Some v \<Rightarrow>
                           (case get_thread_id (mv_thread env) (mv_io env) (strip_angle_brackets v) (dir_index (dir_of s i)) of
                              Inr t \<Rightarrow> t | Inl _ \<Rightarrow> None))
            in (cache_message (m_message_id m) m s3,
                MessageMetadata_new (m_message_id m) i uid (decode_flags name) (length data) tid))"

fun parse_files ::
    "maildir_env \<Rightarrow> mailbox_id \<Rightarrow> nat \<Rightarrow> (string \<times> string) list \<Rightarrow> maildir_state \<Rightarrow> maildir_state \<times> message_metadata list" where
  "parse_files env i uid [] s = (s, [])"
| "parse_files env i uid (f # fs) s =
     (if mv_io env IoRead \<noteq> None then parse_files env i uid fs s
      else case parse_message_from_file env i uid f s of
        (s1, md) \<Rightarrow> case parse_files env i ((uid + 1) mod 2 ^ 32) fs s1 of (s2, mds) \<Rightarrow> (s2, md # mds))"

definition md_get_mailbox_messages :: "maildir_env \<Rightarrow> mailbox_id \<Rightarrow> (maildir_state, message_metadata list) store_op" where
  "md_get_mailbox_messages env i s =
     (case map_of (ms_dirs s) i of
        None \<Rightarrow> (s, Inr [])
      | Some d \<Rightarrow>
          sbind (io_check env IoReadDir s) (\<lambda>_ s.
            case parse_files env i 1 (dir_files env d) s of (s1, mds) \<Rightarrow> (s1, Inr mds)))"

definition header_matches ::
    "maildir_env \<Rightarrow> string \<Rightarrow> string \<Rightarrow> message_metadata \<Rightarrow> (maildir_state, bool) store_op" where
  "header_matches env name pat md s =
     sbind (md_get_message env (md_message_id md) s) (\<lambda>found s.
       (s, Inr (case found of
                  None \<Rightarrow> False
                | Some m \<Rightarrow>
                    (case header_get_first (mv_lc env) (mm_headers (m_message m)) name of
                       None \<Rightarrow> False
                     | Some v \<Rightarrow> str_contains (mv_lc env v) (mv_lc env pat)))))"

definition body_matches :: "maildir_env \<Rightarrow> string \<Rightarrow> message_metadata \<Rightarrow> (maildir_state, bool) store_op" where
  "body_matches env pat md s =
     sbind (md_get_message env (md_message_id md) s) (\<lambda>found s.
       case found of
         None \<Rightarrow> (s, Inr False)
       | Some m \<Rightarrow>
           (case extract_text (mv_io env IoReadBody) (m_message m) of
              (txt, msg) \<Rightarrow>
                (cache_message (md_message_id md) (m\<lparr>m_message := msg\<rparr>) s,
                 Inr (case txt of None \<Rightarrow> False | Some t \<Rightarrow> str_contains (mv_lc env t) (mv_lc env pat)))))"

fun matches_criteria :: "maildir_env \<Rightarrow> message_metadata \<Rightarrow> search_criteria \<Rightarrow> (maildir_state, bool) store_op"
  and matches_all :: "maildir_env \<Rightarrow> message_metadata \<Rightarrow> search_criteria list \<Rightarrow> (maildir_state, bool) store_op"
  and matches_any :: "maildir_env \<Rightarrow> message_metadata \<Rightarrow> search_criteria list \<Rightarrow> (maildir_state, bool) store_op" where
  "matches_criteria env md SAll s = (s, Inr True)"
| "matches_criteria env md SUnseen s = (s, Inr (\<not> mf_seen (md_flags md)))"
| "matches_criteria env md SSeen s = (s, Inr (mf_seen (md_flags md)))"
| "matches_criteria env md SFlagged s = (s, Inr (mf_flagged (md_flags md)))"
| "matches_criteria env md SUnflagged s = (s, Inr (\<not> mf_flagged (md_flags md)))"
| "matches_criteria env md SDeleted s = (s, Inr (mf_deleted (md_flags md)))"
| "matches_criteria env md SUndeleted s = (s, Inr (\<not> mf_deleted (md_flags md)))"
| "matches_criteria env md (SFrom pat) s = header_matches env ''from'' pat md s"
| "matches_criteria env md (STo pat) s = header_matches env ''to'' pat md s"
| "matches_criteria env md (SSubject pat) s = header_matches env ''subject'' pat md s"
| "matches_criteria env md (SBody pat) s = body_matches env pat md s"
| "matches_criteria env md (SAnd cs) s = matches_all env md cs s"
| "matches_criteria env md (SOr cs) s = matches_any env md cs s"
| "matches_criteria env md (SNot c) s = sbind (matches_criteria env md c s) (\<lambda>b s. (s, Inr (\<not> b)))"
| "matches_all env md [] s = (s, Inr True)"
| "matches_all env md (c # cs) s =
     sbind (matches_criteria env md c s) (\<lambda>b s. if b then matches_all env md cs s else (s, Inr False))"
| "matches_any env md [] s = (s, Inr False)"
| "matches_any env md (c # cs) s =
     sbind (matches_criteria env md c s) (\<lambda>b s. if b then (s, Inr True) else matches_any env md cs s)"

fun search_messages ::
    "maildir_env \<Rightarrow> search_criteria \<Rightarrow> message_metadata list \<Rightarrow> (maildir_state, message_id list) store_op" where
  "search_messages env c [] s = (s, Inr [])"
| "search_messages env c (md # mds) s =
     sbind (matches_criteria env md c s) (\<lambda>b s.
     sbind (search_messages env c mds s) (\<lambda>ids s.
       (s, Inr (if b then md_message_id md # ids else ids))))"

definition md_search :: "maildir_env \<Rightarrow> mailbox_id \<Rightarrow> search_criteria \<Rightarrow> (maildir_state, message_id list) store_op" where
  "md_search env i c s = sbind (md_get_mailbox_messages env i s) (\<lambda>mds s. search_messages env c mds s)"

fun md_copy_messages ::
    "maildir_env \<Rightarrow> message_id list \<Rightarrow> mailbox_id \<Rightarrow> (maildir_state, message_metadata list) store_op" where
  "md_copy_messages env [] dest s = (s, Inr [])"
| "md_copy_messages env (i # ids) dest s =
     (case map_of (ms_messages s) i of
        None \<Rightarrow> md_copy_messages env ids dest s
      | Some m \<Rightarrow>
          sbind (md_append_message env dest m s) (\<lambda>md s.
          sbind (md_copy_messages env ids dest s) (\<lambda>mds s. (s, Inr (md # mds)))))"

section \<open>Quotas, counters and the store\<close>

definition md_get_user_quota :: "username \<Rightarrow> (maildir_state, mail_quota) store_op" where
  "md_get_user_quota user s = (s, Inr (quota_of s user))"

definition md_set_user_quota :: "username \<Rightarrow> mail_quota \<Rightarrow> (maildir_state, unit) store_op" where
  "md_set_user_quota user q s = (s\<lparr>ms_quotas := AList.update user q (ms_quotas s)\<rparr>, Inr ())"

definition md_get_mailbox_counters :: "maildir_env \<Rightarrow> mailbox_id \<Rightarrow> (maildir_state, mailbox_counters) store_op" where
  "md_get_mailbox_counters env i s =
     (case map_of (ms_dirs s) i of
        None \<Rightarrow> (s, Inr \<lparr>mc_exists = 0, mc_recent = 0, mc_unseen = 0\<rparr>)
      | Some d \<Rightarrow>
          sbind (io_check env IoReadDir s) (\<lambda>_ s.
            (s, Inr \<lparr>mc_exists = (length (dir_new d) + length (dir_cur d)) mod 2 ^ 32,
                     mc_recent = length (dir_new d) mod 2 ^ 32, mc_unseen = 0\<rparr>)))"

definition maildir_store :: "maildir_env \<Rightarrow> maildir_state mail_store" where
  "maildir_store env =
     \<lparr>st_create_mailbox = md_create_mailbox env, st_delete_mailbox = md_delete_mailbox env,
      st_rename_mailbox = md_rename_mailbox env, st_get_mailbox = md_get_mailbox,
      st_list_mailboxes = md_list_mailboxes, st_get_user_inbox = md_get_user_inbox,
      st_get_special_use = default_get_special_use, st_set_special_use = default_set_special_use,
      st_subscribe = md_subscribe env, st_unsubscribe = md_unsubscribe env,
      st_list_subscriptions = md_list_subscriptions env, st_append_message = md_append_message env,
      st_get_message = md_get_message env, st_delete_messages = md_delete_messages env,
      st_set_flags = md_set_flags env, st_search = md_search env, st_copy_messages = md_copy_messages env,
      st_get_mailbox_messages = md_get_mailbox_messages env, st_get_user_quota = md_get_user_quota,
      st_set_user_quota = md_set_user_quota, st_get_mailbox_counters = md_get_mailbox_counters env\<rparr>"

end
