(* ===== verification/Maildir_Facts.thy ===== *)
theory Maildir_Facts
  imports Maildir_Store
begin

text \<open>
  Properties of the file system backend: what a message file identifies itself as, what a delivery
  changes, the quota, and the mailbox table across a restart.
\<close>

section \<open>Flags in file names\<close>

lemma split_flags:
  assumes "CHR '':'' \<notin> set base"
  shows "split_str '':2,'' (base @ encode_flags fl) = [base, drop 3 (encode_flags fl)]"
proof -
  have flags: "encode_flags fl = '':2,'' @ drop 3 (encode_flags fl)" by (simp add: encode_flags_def)
  have "CHR '':'' \<notin> set (drop 3 (encode_flags fl))" by (simp add: encode_flags_def)
  then have "split_str '':2,'' (drop 3 (encode_flags fl)) = [drop 3 (encode_flags fl)]"
    by (intro split_str_None) simp_all
  with split_str_first [of "'':2,''" base "drop 3 (encode_flags fl)"] assms show ?thesis
    by (subst flags) simp
qed

lemma base_name_flags: "CHR '':'' \<notin> set base \<Longrightarrow> base_name (base @ encode_flags fl) = base"
  by (simp add: base_name_def split_flags)

lemma base_name_plain: "CHR '':'' \<notin> set base \<Longrightarrow> base_name base = base"
  by (simp add: base_name_def split_str_None)

lemma decode_encode_flags:
  "CHR '':'' \<notin> set base \<Longrightarrow>
     decode_flags (base @ encode_flags fl) = fl\<lparr>mf_recent := False, mf_custom := []\<rparr>"
  unfolding decode_flags_def by (simp add: split_flags) (cases fl, auto simp: encode_flags_def MessageFlags_new_def)

section \<open>Message files\<close>

definition header_lines :: "header_map \<Rightarrow> (string \<times> string) list" where
  "header_lines hs = concat (map (\<lambda>(n, vs). map (Pair n) vs) hs)"

lemma header_block_lines: "header_block hs = concat (map (\<lambda>(n, v). header_line n v) (header_lines hs))"
  by (induction hs) (auto simp: header_block_def header_lines_def map_concat o_def)

lemma foldl_store_spaces:
  "list_all (\<lambda>(n, v). starts_with v '' '') hs \<Longrightarrow>
     list_all (\<lambda>(n, v). starts_with v '' '') (foldl (store_header lc) hs lines)"
proof (induction lines arbitrary: hs)
  case (Cons l lines)
  have "list_all (\<lambda>(n, v). starts_with v '' '') (AList.update (lc (trim (fst l))) (CHR '' '' # snd l) hs)"
    using Cons.prems by (induction hs) (auto simp: starts_with_iff)
  with Cons show ?case by simp
qed simp

lemma header_insert_spaces:
  "list_all (\<lambda>(n, vs). list_all (\<lambda>v. starts_with v '' '') vs) m \<Longrightarrow> starts_with v '' '' \<Longrightarrow>
     list_all (\<lambda>(n, vs). list_all (\<lambda>v. starts_with v '' '') vs) (header_insert lc n v m)"
proof -
  assume m: "list_all (\<lambda>(n, vs). list_all (\<lambda>v. starts_with v '' '') vs) m" and v: "starts_with v '' ''"
  have old: "list_all (\<lambda>v. starts_with v '' '') (case map_of m (lc n) of None \<Rightarrow> [] | Some vs \<Rightarrow> vs)"
    using m by (cases "map_of m (lc n)") (auto simp: list_all_iff dest!: map_of_SomeD)
  have "list_all (\<lambda>(n, vs). list_all (\<lambda>v. starts_with v '' '') vs) (AList.update k vs m)"
    if "list_all (\<lambda>v. starts_with v '' '') vs" for k vs
    using m that by (induction m) auto
  from this [of "(case map_of m (lc n) of None \<Rightarrow> [] | Some vs \<Rightarrow> vs) @ [v]"] old v show ?thesis
    by (simp add: header_insert_def Let_def)
qed

lemma to_header_map_spaces:
  "list_all (\<lambda>(n, v). starts_with v '' '') hs \<Longrightarrow>
     list_all (\<lambda>(n, vs). list_all (\<lambda>v. starts_with v '' '') vs) (to_header_map lc hs)"
proof -
  have "list_all (\<lambda>(n, v). starts_with v '' '') hs \<Longrightarrow> list_all (\<lambda>(n, vs). list_all (\<lambda>v. starts_with v '' '') vs) m \<Longrightarrow>
      list_all (\<lambda>(n, vs). list_all (\<lambda>v. starts_with v '' '') vs) (foldl (\<lambda>m (name, val). header_insert lc name val m) m hs)" for m
    by (induction hs arbitrary: m) (auto simp: header_insert_spaces)
  then show "list_all (\<lambda>(n, v). starts_with v '' '') hs \<Longrightarrow> ?thesis" by (simp add: to_header_map_def)
qed

text \<open>The bytes of a message file with the given header lines and body.\<close>

definition message_file :: "(string \<times> string) list \<Rightarrow> string \<Rightarrow> string" where
  "message_file lines body = concat (map (\<lambda>(n, v). header_line n v) lines) @ CRLF @ body"

lemma listed_id_None:
  assumes "list_all plain_header lines" "\<And>s. mv_uuid_parse env (CHR '' '' # s) = None"
  shows "listed_id env (message_file lines body) = None"
proof -
  let ?mime = "MimeMessage_parse_from_bytes (mv_lc env) (message_file lines body)"
  have "mm_headers ?mime = to_header_map (mv_lc env) (foldl (store_header (mv_lc env)) [] lines)"
    using parse_message_roundtrip [OF assms(1), of "mv_lc env" body]
    by (simp add: MimeMessage_parse_from_bytes_def message_file_def)
  then have "list_all (\<lambda>(n, vs). list_all (\<lambda>v. starts_with v '' '') vs) (mm_headers ?mime)"
    by (simp add: to_header_map_spaces foldl_store_spaces)
  then have "starts_with v '' ''" if "header_get_first (mv_lc env) (mm_headers ?mime) message_id_header = Some v" for v
    using that by (fastforce simp: header_get_first_def header_get_def list_all_iff split: option.splits list.splits dest!: map_of_SomeD)
  with assms(2) show ?thesis by (auto simp: listed_id_def starts_with_iff split: option.split)
qed

text \<open>What the code relies on of lower-casing.\<close>

definition lower_casing :: "(string \<Rightarrow> string) \<Rightarrow> bool" where
  "lower_casing lc \<longleftrightarrow>
     (\<forall>s. lc (lc s) = lc s) \<and> (\<forall>s. list_all (\<lambda>c. code_of c < 128) s \<longrightarrow> lc s = to_ascii_lowercase s)"

lemma lc_message_id: "lower_casing lc \<Longrightarrow> lc (trim ''X-Rusmes-Message-Id'') = message_id_header"
  "lower_casing lc \<Longrightarrow> lc message_id_header = message_id_header"
proof -
  have names: "to_ascii_lowercase ''X-Rusmes-Message-Id'' = message_id_header"
      "to_ascii_lowercase message_id_header = message_id_header"
      "list_all (\<lambda>c. code_of c < 128) ''X-Rusmes-Message-Id''" "list_all (\<lambda>c. code_of c < 128) message_id_header"
    by code_simp+
  have "trim ''X-Rusmes-Message-Id'' = ''X-Rusmes-Message-Id''" by (simp add: trim_graphic is_graphic_def)
  with names show "lower_casing lc \<Longrightarrow> lc (trim ''X-Rusmes-Message-Id'') = message_id_header"
    "lower_casing lc \<Longrightarrow> lc message_id_header = message_id_header"
    by (simp_all only: lower_casing_def)
qed

lemma store_other: "list_all (\<lambda>(n, v). lc (trim n) \<noteq> k) lines \<Longrightarrow> map_of (foldl (store_header lc) hs lines) k = map_of hs k"
  by (induction lines arbitrary: hs) (auto simp: update_conv')

lemma store_keys:
  "distinct (map fst hs) \<Longrightarrow> list_all (\<lambda>(n, v). lc n = n) hs \<Longrightarrow> (\<And>s. lc (lc s) = lc s) \<Longrightarrow>
     distinct (map fst (foldl (store_header lc) hs lines)) \<and> list_all (\<lambda>(n, v). lc n = n) (foldl (store_header lc) hs lines)"
proof (induction lines arbitrary: hs)
  case (Cons l lines)
  have "list_all (\<lambda>(n, v). lc n = n) (AList.update (lc (trim (fst l))) (CHR '' '' # snd l) hs)"
    using Cons.prems(2,3) by (induction hs) auto
  with Cons.IH [OF distinct_update] Cons.prems show ?case by simp
qed simp

lemma to_header_map_lookup:
  assumes "distinct (map fst hs)" "list_all (\<lambda>(n, v). lc n = n) hs"
  shows "map_of (to_header_map lc hs) k = map_option (\<lambda>v. [v]) (map_of hs k)"
proof -
  have "distinct (map fst hs) \<Longrightarrow> list_all (\<lambda>(n, v). lc n = n) hs \<Longrightarrow> (\<And>n. n \<in> fst ` set hs \<Longrightarrow> map_of m n = None) \<Longrightarrow>
      map_of (foldl (\<lambda>m (name, val). header_insert lc name val m) m hs) k =
        (case map_of hs k of Some v \<Rightarrow> Some [v] | None \<Rightarrow> map_of m k)" for m
  proof (induction hs arbitrary: m)
    case (Cons h hs)
    obtain n v where h: "h = (n, v)" by (cases h)
    with Cons.prems have ins: "header_insert lc n v m = AList.update n [v] m" by (simp add: header_insert_def)
    have "map_of (AList.update n [v] m) n' = None" if "n' \<in> fst ` set hs" for n'
      using that Cons.prems h by (auto simp: update_conv')
    moreover have "map_of hs n = None" using Cons.prems h by (simp add: map_of_eq_None_iff)
    ultimately show ?case using Cons.IH [of "AList.update n [v] m"] Cons.prems h ins
      by (simp add: update_conv' split: option.split)
  qed simp
  from this [OF assms, of "[]"] show ?thesis by (simp add: to_header_map_def split: option.split)
qed

lemma stored_id_Some:
  assumes "list_all plain_header ((''X-Rusmes-Message-Id'', txt) # lines)" "lower_casing (mv_lc env)"
    and other: "list_all (\<lambda>(n, v). mv_lc env (trim n) \<noteq> message_id_header) lines"
    and uuid: "mv_uuid_parse env txt = Some u" "txt \<noteq> []" "is_graphic (hd txt)" "is_graphic (last txt)"
  shows "stored_id env (message_file ((''X-Rusmes-Message-Id'', txt) # lines) body) = Some (MessageId u)"
proof -
  let ?lc = "mv_lc env" and ?all = "(''X-Rusmes-Message-Id'', txt) # lines"
  let ?flat = "foldl (store_header ?lc) [] ?all"
  have idem: "\<And>s. ?lc (?lc s) = ?lc s" using assms(2) by (simp add: lower_casing_def)
  have "map_of ?flat message_id_header = Some (CHR '' '' # txt)"
    using store_other [OF other] lc_message_id [OF assms(2)] by simp
  moreover have "distinct (map fst ?flat) \<and> list_all (\<lambda>(n, v). ?lc n = n) ?flat"
    by (rule store_keys) (simp_all add: idem)
  moreover have "mm_headers (MimeMessage_parse_from_bytes ?lc (message_file ?all body)) = to_header_map ?lc ?flat"
    using parse_message_roundtrip [OF assms(1), of ?lc body]
    by (simp add: MimeMessage_parse_from_bytes_def message_file_def)
  ultimately have "header_get_first ?lc (mm_headers (MimeMessage_parse_from_bytes ?lc (message_file ?all body)))
      message_id_header = Some (CHR '' '' # txt)"
    using to_header_map_lookup [of ?flat ?lc message_id_header] lc_message_id(2) [OF assms(2)]
    by (simp add: header_get_first_def header_get_def)
  moreover have "trim (CHR '' '' # txt) = txt"
    using uuid by (simp add: trim_space trim_graphic)
  ultimately show ?thesis using uuid(1) by (simp add: stored_id_def)
qed

section \<open>Listing a mailbox\<close>

definition disk_files :: "maildir_state \<Rightarrow> string set" where
  "disk_files s = (\<Union>(i, d)\<in>set (ms_dirs s). snd ` set (dir_new d @ dir_cur d))"

text \<open>Every message file was written from header lines without line breaks, which is how \<^verbatim>\<open>append_message\<close>
  writes them.\<close>

definition disk_written :: "maildir_state \<Rightarrow> bool" where
  "disk_written s \<longleftrightarrow> (\<forall>data \<in> disk_files s. \<exists>lines body. list_all plain_header lines \<and> data = message_file lines body)"

lemma parse_message_from_file_id:
  assumes "listed_id env data = None"
  shows "ms_dirs (fst (parse_message_from_file env i uid (name, data) s)) = ms_dirs s"
    "md_message_id (snd (parse_message_from_file env i uid (name, data) s)) = MessageId (mv_fresh env (Suc (ms_drawn s)))"
  unfolding parse_message_from_file_def Let_def
  by (simp_all add: assms draw_def cache_message_def MessageMetadata_new_def Mail_new_def)

lemma parse_files_ids:
  "list_all (\<lambda>(name, data). listed_id env data = None) fs \<Longrightarrow>
     ms_dirs (fst (parse_files env i uid fs s)) = ms_dirs s \<and>
     list_all (\<lambda>md. md_message_id md \<in> range (\<lambda>n. MessageId (mv_fresh env n))) (snd (parse_files env i uid fs s))"
proof (induction fs arbitrary: uid s)
  case (Cons f fs)
  obtain name data where f: "f = (name, data)" by (cases f)
  obtain s1 md where one: "parse_message_from_file env i uid (name, data) s = (s1, md)" by fastforce
  have none: "listed_id env data = None" using Cons.prems f by simp
  have "ms_dirs s1 = ms_dirs s" "md_message_id md = MessageId (mv_fresh env (Suc (ms_drawn s)))"
    using parse_message_from_file_id [OF none, of i uid name s] one by simp_all
  with Cons.IH [of uid s] Cons.IH [of "(uid + 1) mod 2 ^ 32" s1] Cons.prems one f show ?case
    by (simp add: case_prod_beta)
qed simp

definition no_target :: "maildir_env \<Rightarrow> message_id list \<Rightarrow> maildir \<Rightarrow> bool" where
  "no_target env ids d \<longleftrightarrow> list_all (\<lambda>(name, data). \<not> is_target env ids data) (dir_new d @ dir_cur d)"

lemma expunge_none: "no_target env ids d \<Longrightarrow> expunge_dir env ids d = d"
  by (simp add: no_target_def expunge_dir_def list_all_iff filter_id_conv)

lemma flag_new_none:
  "list_all (\<lambda>(name, data). \<not> is_target env ids data) fs \<Longrightarrow> foldl (flag_new_file env ids fl) d fs = d"
  by (induction fs) (auto simp: flag_new_file_def)

lemma flag_cur_none:
  "list_all (\<lambda>(name, data). \<not> is_target env ids data) fs \<Longrightarrow> foldl (flag_cur_file env ids fl) d fs = d"
  by (induction fs) (auto simp: flag_cur_file_def)

lemma flag_none:
  assumes "no_target env ids d" "\<And>fs. set (mv_ls env fs) = set fs"
  shows "flag_dir env ids fl d = d"
  using assms flag_new_none [of env ids "mv_ls env (dir_new d)" fl d] flag_cur_none [of env ids "mv_ls env (dir_cur d)" fl d]
  by (simp add: no_target_def list_all_iff flag_dir_def)

definition no_targets :: "maildir_env \<Rightarrow> message_id list \<Rightarrow> maildir_state \<Rightarrow> bool" where
  "no_targets env ids s \<longleftrightarrow> list_all (\<lambda>(i, d). no_target env ids d) (ms_dirs s)"

lemma delete_none:
  assumes "no_targets env ids s"
  shows "ms_dirs (fst (md_delete_messages env ids s)) = ms_dirs s"
proof -
  have "map (\<lambda>(i, d). (i, expunge_dir env ids d)) (ms_dirs s) = ms_dirs s"
    by (rule map_idI) (use assms in \<open>auto simp: no_targets_def list_all_iff expunge_none\<close>)
  then show ?thesis by (simp add: md_delete_messages_def Let_def io_check_def split: option.split)
qed

lemma set_flags_none:
  assumes "no_targets env ids s" "\<And>fs. set (mv_ls env fs) = set fs"
  shows "ms_dirs (fst (md_set_flags env ids fl s)) = ms_dirs s"
proof -
  have "map (\<lambda>(i, d). (i, flag_dir env ids fl d)) (ms_dirs s) = ms_dirs s"
    by (rule map_idI) (use assms in \<open>auto simp: no_targets_def list_all_iff flag_none\<close>)
  then show ?thesis by (simp add: md_set_flags_def io_check_def split: option.split)
qed

text \<open>What the listing relies on: the \<^verbatim>\<open>uuid\<close> crate refuses a leading blank, and random identifiers are new.\<close>

definition uuid_strict :: "maildir_env \<Rightarrow> bool" where
  "uuid_strict env \<longleftrightarrow> (\<forall>s. mv_uuid_parse env (CHR '' '' # s) = None)"

definition fresh_ids :: "maildir_env \<Rightarrow> maildir_state \<Rightarrow> bool" where
  "fresh_ids env s \<longleftrightarrow> (\<forall>n. \<forall>data \<in> disk_files s. stored_id env data \<noteq> Some (MessageId (mv_fresh env n)))"

lemma disk_filesI: "(i, d) \<in> set (ms_dirs s) \<Longrightarrow> (name, data) \<in> set (dir_new d @ dir_cur d) \<Longrightarrow> data \<in> disk_files s"
  unfolding disk_files_def by force

lemma listed_none: "disk_written s \<Longrightarrow> uuid_strict env \<Longrightarrow> data \<in> disk_files s \<Longrightarrow> listed_id env data = None"
  unfolding disk_written_def uuid_strict_def by (metis listed_id_None)

lemma fresh_no_targets:
  assumes "fresh_ids env s" "list_all (\<lambda>i. i \<in> range (\<lambda>n. MessageId (mv_fresh env n))) ids"
  shows "no_targets env ids s"
proof -
  have "\<not> is_target env ids data" if "data \<in> disk_files s" for data
    using assms that by (auto simp: is_target_def fresh_ids_def list_all_iff split: option.splits)
  then show ?thesis unfolding no_targets_def no_target_def list_all_iff using disk_filesI by fast
qed

lemma listing_not_target:
  assumes "md_get_mailbox_messages env i s = (s1, Inr mds)" "disk_written s" "uuid_strict env"
    and ls: "\<And>fs. set (mv_ls env fs) = set fs"
  shows "ms_dirs s1 = ms_dirs s" "list_all (\<lambda>md. md_message_id md \<in> range (\<lambda>n. MessageId (mv_fresh env n))) mds"
proof -
  have "ms_dirs s1 = ms_dirs s \<and> list_all (\<lambda>md. md_message_id md \<in> range (\<lambda>n. MessageId (mv_fresh env n))) mds"
  proof (cases "map_of (ms_dirs s) i")
    case None
    with assms(1) show ?thesis by (simp add: md_get_mailbox_messages_def)
  next
    case (Some d)
    then have "(i, d) \<in> set (ms_dirs s)" by (rule map_of_SomeD)
    then have "list_all (\<lambda>(name, data). listed_id env data = None) (dir_files env d)"
      using listed_none [OF assms(2,3)] disk_filesI [of i d s] ls by (auto simp: list_all_iff dir_files_def)
    moreover have "parse_files env i 1 (dir_files env d) s = (s1, mds)"
      using assms(1) Some by (simp add: md_get_mailbox_messages_def io_check_def split: option.splits prod.splits)
    ultimately show ?thesis using parse_files_ids [of env "dir_files env d" i 1 s] by simp
  qed
  then show "ms_dirs s1 = ms_dirs s" "list_all (\<lambda>md. md_message_id md \<in> range (\<lambda>n. MessageId (mv_fresh env n))) mds" by simp_all
qed

text \<open>The identifiers under which a mailbox lists its messages are not those of its files: the listing reads the
  identifier without trimming the header value, so it makes a new one for every file.  Setting flags on
  the listed messages and deleting them therefore changes no file of any mailbox, whatever the flags.\<close>

theorem maildir_listing_loses_identity:
  assumes "md_get_mailbox_messages env i s = (s1, Inr mds)" "disk_written s" "uuid_strict env" "fresh_ids env s"
    and ls: "\<And>fs. set (mv_ls env fs) = set fs"
  shows "ms_dirs (fst (md_set_flags env (map md_message_id mds) fl s1)) = ms_dirs s \<and>
    ms_dirs (fst (md_delete_messages env (map md_message_id mds) s1)) = ms_dirs s"
proof -
  note t = listing_not_target [OF assms(1-3) ls]
  have "fresh_ids env s1" using assms(4) t(1) by (simp add: fresh_ids_def disk_files_def)
  then have "no_targets env (map md_message_id mds) s1"
    by (rule fresh_no_targets) (use t(2) in \<open>simp add: list_all_iff\<close>)
  with delete_none set_flags_none [OF _ ls] t(1) show ?thesis by simp
qed

definition demo_maildir_env :: maildir_env where
  "demo_maildir_env =
     \<lparr>mv_thread = \<lparr>te_lc = map to_lower, te_to_json = (\<lambda>i. []), te_from_json = (\<lambda>s. Some []), te_digest16 = (\<lambda>s. s),
        te_uuid_show = (\<lambda>u. show_nat (unat u))\<rparr>,
      mv_hostname = ''mx'', mv_pid = 1, mv_clock = (\<lambda>n. (n, 0)), mv_fresh = (\<lambda>n. word_of_nat (1000 + n mod 1000)),
      mv_uuid_parse = (\<lambda>s. if s \<noteq> [] \<and> list_all is_ascii_digit s then Some (word_of_nat (digits_val s)) else None),
      mv_ls = (\<lambda>fs. fs), mv_lsd = (\<lambda>ds. ds), mv_io = (\<lambda>op. None), mv_mb_to_json = (\<lambda>mbs. []),
      mv_mb_from_json = (\<lambda>s. Some [])\<rparr>"

definition demo_lines :: "(string \<times> string) list" where
  "demo_lines = [(''X-Rusmes-Message-Id'', ''7''), (''from'', ''a'')]"

definition demo_maildir_state :: maildir_state where
  "demo_maildir_state =
     \<lparr>ms_root = True,
      ms_dirs = [(MailboxId 5, empty_maildir\<lparr>dir_new := [(''1.M0P1Q1.mx'', message_file demo_lines ''hi'')]\<rparr>)],
      ms_users = [],
      ms_mailboxes = [(MailboxId 5, Mailbox_new (MailboxId 5) \<lparr>mp_user = Username ''a'', mp_path = [''INBOX'']\<rparr>)],
      ms_messages = [], ms_quotas = [], ms_subscriptions = [], ms_counter = 1, ms_events = [], ms_drawn = 0\<rparr>"

lemma demo_lines_plain: "list_all plain_header demo_lines"
  by code_simp

lemma demo_stored: "stored_id demo_maildir_env (message_file demo_lines ''hi'') = Some (MessageId 7)"
  by code_simp

lemma large_word_neq: "7 < k \<Longrightarrow> k < 2 ^ 128 \<Longrightarrow> word_of_nat k \<noteq> (7 :: uuid)"
proof
  assume k: "7 < k" "k < 2 ^ 128" "word_of_nat k = (7 :: uuid)"
  have "unat (word_of_nat k :: uuid) = k" using k(2) by (simp add: unat_of_nat)
  moreover have "unat (7 :: uuid) = 7" by simp
  ultimately show False using k by simp
qed

lemma demo_fresh: "word_of_nat (1000 + n mod 1000) \<noteq> (7 :: uuid)"
  by (rule large_word_neq, simp, rule less_trans [of _ 2000]) simp_all

theorem maildir_listing_loses_identity_witness:
  "ms_dirs (fst (md_delete_messages demo_maildir_env
     (map md_message_id (snd (parse_files demo_maildir_env (MailboxId 5) 1
        [(''1.M0P1Q1.mx'', message_file demo_lines ''hi'')] demo_maildir_state)))
     (fst (parse_files demo_maildir_env (MailboxId 5) 1
        [(''1.M0P1Q1.mx'', message_file demo_lines ''hi'')] demo_maildir_state)))) = ms_dirs demo_maildir_state"
proof -
  have files: "disk_files demo_maildir_state = {message_file demo_lines ''hi''}"
    by (simp add: disk_files_def demo_maildir_state_def empty_maildir_def)
  have "disk_written demo_maildir_state" unfolding disk_written_def files using demo_lines_plain by blast
  moreover have "fresh_ids demo_maildir_env demo_maildir_state"
    unfolding fresh_ids_def files using demo_stored demo_fresh by (simp add: demo_maildir_env_def del: of_nat_add)
  moreover have "uuid_strict demo_maildir_env" by (simp add: uuid_strict_def demo_maildir_env_def is_ascii_digit_def)
  moreover have "set (mv_ls demo_maildir_env fs) = set fs" for fs by (simp add: demo_maildir_env_def)
  moreover have "md_get_mailbox_messages demo_maildir_env (MailboxId 5) demo_maildir_state =
      (fst (parse_files demo_maildir_env (MailboxId 5) 1 [(''1.M0P1Q1.mx'', message_file demo_lines ''hi'')] demo_maildir_state),
       Inr (snd (parse_files demo_maildir_env (MailboxId 5) 1 [(''1.M0P1Q1.mx'', message_file demo_lines ''hi'')] demo_maildir_state)))"
    by (simp add: md_get_mailbox_messages_def io_check_def demo_maildir_state_def empty_maildir_def dir_files_def
        demo_maildir_env_def case_prod_beta del: parse_files.simps)
  ultimately show ?thesis using maildir_listing_loses_identity by blast
qed

section \<open>Deliveries\<close>

lemma dir_of_set_dir [simp]: "dir_of (set_dir i d s) j = (if j = i then d else dir_of s j)"
  by (simp add: dir_of_def set_dir_def update_conv')

lemma set_dir_fields [simp]:
  "ms_messages (set_dir i d s) = ms_messages s" "ms_quotas (set_dir i d s) = ms_quotas s"
  "ms_counter (set_dir i d s) = ms_counter s" "ms_mailboxes (set_dir i d s) = ms_mailboxes s"
  "ms_users (set_dir i d s) = ms_users s" "ms_events (set_dir i d s) = ms_events s" "ms_root (set_dir i d s)"
  by (simp_all add: set_dir_def)

lemma deliver_file_ok:
  assumes "deliver_file env i filename m s = (s', Inr m')" "mm_body (m_message m) = Small body"
  shows "m' = m"
    "dir_of s' j = (if j = i then (dir_of s i)\<lparr>dir_tmp := AList.delete filename (dir_tmp (dir_of s i)),
        dir_new := AList.update filename (message_file ((''X-Rusmes-Message-Id'',
          te_uuid_show (mv_thread env) (message_id_uuid (m_message_id m))) # header_lines (mm_headers (m_message m))) body)
          (dir_new (dir_of s i))\<rparr> else dir_of s j)"
    "ms_messages s' = ms_messages s" "ms_quotas s' = ms_quotas s" "ms_counter s' = ms_counter s"
    "ms_mailboxes s' = ms_mailboxes s" "ms_users s' = ms_users s"
  using assms
  by (auto simp: deliver_file_def io_check_def serialize_message_to_bytes_def Let_def message_file_def header_line_def
      header_block_lines split: option.splits)

abbreviation delivery_name :: "maildir_env \<Rightarrow> maildir_state \<Rightarrow> string" where
  "delivery_name env s \<equiv>
     maildir_filename (mv_hostname env) (mv_pid env) (usize_add (ms_counter s) 1) (mv_clock env (usize_add (ms_counter s) 1))"

abbreviation delivery_data :: "maildir_env \<Rightarrow> mail \<Rightarrow> string \<Rightarrow> string" where
  "delivery_data env m body \<equiv>
     message_file ((''X-Rusmes-Message-Id'', te_uuid_show (mv_thread env) (message_id_uuid (m_message_id m))) #
       header_lines (mm_headers (m_message m))) body"

lemma file_thread_fields:
  assumes "file_thread env i m s = (s', tid)"
  shows "dir_new (dir_of s' j) = dir_new (dir_of s j)" "dir_cur (dir_of s' j) = dir_cur (dir_of s j)"
    "ms_messages s' = ms_messages s" "ms_quotas s' = ms_quotas s" "ms_counter s' = ms_counter s"
    "ms_mailboxes s' = ms_mailboxes s" "ms_users s' = ms_users s" "ms_root s'"
  using assms by (auto simp: file_thread_def Let_def split: prod.splits)

lemma append_cases:
  assumes "md_append_message env i m s = (s', Inr md)" "mm_body (m_message m) = Small body"
  obtains mb s1 s3 tid where "map_of (ms_mailboxes s) i = Some mb"
    "usize_add (mqt_used (quota_of s (mp_user (mb_path mb)))) (mail_size m) \<le> mqt_limit (quota_of s (mp_user (mb_path mb)))"
    "deliver_file env i (delivery_name env s) m (s\<lparr>ms_counter := usize_add (ms_counter s) 1\<rparr>) = (s1, Inr m)"
    "file_thread env i m ((cache_message (m_message_id m) m s1)\<lparr>ms_quotas := AList.update (mp_user (mb_path mb))
       ((quota_of s (mp_user (mb_path mb)))\<lparr>mqt_used :=
          usize_add (mqt_used (quota_of s (mp_user (mb_path mb)))) (mail_size m)\<rparr>) (ms_quotas s1)\<rparr>) = (s3, tid)"
    "\<And>j. dir_of s' j = dir_of s3 j" "ms_messages s' = ms_messages s3" "ms_quotas s' = ms_quotas s3"
    "ms_dirs s' = ms_dirs s3" "ms_root s' = ms_root s3"
    "md = MessageMetadata_new (m_message_id m) i (usize_add (ms_counter s) 1 mod 2 ^ 32) MessageFlags_new (mail_size m) tid"
proof -
  obtain mb where mb: "map_of (ms_mailboxes s) i = Some mb"
    using assms(1) by (auto simp: md_append_message_def split: option.splits)
  let ?u = "mp_user (mb_path mb)" and ?s0 = "s\<lparr>ms_counter := usize_add (ms_counter s) 1\<rparr>"
  have q: "\<not> mqt_limit (quota_of s ?u) < usize_add (mqt_used (quota_of s ?u)) (mail_size m)"
    using assms(1) mb by (auto simp: md_append_message_def Let_def)
  obtain s1 r where d: "deliver_file env i (delivery_name env s) m ?s0 = (s1, r)" by fastforce
  with assms(1) mb q obtain m' where r: "r = Inr m'" by (cases r) (auto simp: md_append_message_def Let_def)
  with d deliver_file_ok [of env i "delivery_name env s" m ?s0 s1 m' body] assms(2)
  have m': "m' = m" and same: "ms_quotas s1 = ms_quotas s" by simp_all
  have quo: "quota_of (cache_message (m_message_id m) m s1) ?u = quota_of s ?u"
    by (simp add: quota_of_def cache_message_def same)
  obtain s3 tid where t: "file_thread env i m ((cache_message (m_message_id m) m s1)\<lparr>ms_quotas := AList.update ?u
       ((quota_of s ?u)\<lparr>mqt_used := usize_add (mqt_used (quota_of s ?u)) (mail_size m)\<rparr>) (ms_quotas s1)\<rparr>) = (s3, tid)" by fastforce
  have "(s', Inr md) = (s3\<lparr>ms_events := ms_events s3 @ [MessageStored (username_str ?u)
        (case mailbox_name mb of None \<Rightarrow> ''INBOX'' | Some n \<Rightarrow> n) (usize_add (ms_counter s) 1 mod 2 ^ 32)]\<rparr>,
      Inr (MessageMetadata_new (m_message_id m) i (usize_add (ms_counter s) 1 mod 2 ^ 32) MessageFlags_new (mail_size m) tid))"
    using assms(1) mb q d r m' t quo by (simp add: md_append_message_def Let_def cache_message_def)
  then show ?thesis using that [of mb s1 s3 tid] mb q d r m' t by (simp add: dir_of_def)
qed

lemma set_update_subset: "set (AList.update k v al) \<subseteq> insert (k, v) (set al)"
  by (induction al) auto

lemma scan_files_set:
  assumes "\<And>fs. set (mv_ls env fs) = set fs" "\<And>ds. set (mv_lsd env ds) = set ds" "mv_io env IoRead = None"
  shows "(j, f) \<in> set (scan_files env s) \<longleftrightarrow>
    j \<in> fst ` set (ms_dirs s) \<and> f \<in> set (dir_new (dir_of s j)) \<union> set (dir_cur (dir_of s j))"
  unfolding scan_files_def dir_files_def by (auto simp: assms)

lemma find_file_unique:
  assumes "x \<in> set (scan_files env s)" "stored_id env (snd (snd x)) = Some i"
    and "\<And>y. y \<in> set (scan_files env s) \<Longrightarrow> stored_id env (snd (snd y)) = Some i \<Longrightarrow> snd (snd y) = d"
  shows "\<exists>j nm. find_file env i s = Some (j, nm, d)"
proof (cases "find_file env i s")
  case None
  then show ?thesis using assms(1,2) by (cases x) (auto simp: find_file_def find_None_iff)
next
  case (Some y)
  then have "y \<in> set (scan_files env s) \<and> stored_id env (snd (snd y)) = Some i"
    by (auto simp: find_file_def find_Some_iff intro: nth_mem dest: sym)
  then show ?thesis using assms(3) [of y] Some by (cases y) auto
qed

lemma append_dir_exists:
  assumes "file_thread env i m s = (s', tid)" shows "i \<in> fst ` set (ms_dirs s')"
  using assms by (auto simp: file_thread_def Let_def set_dir_def dom_update split: prod.splits)

lemma append_dirs:
  assumes "md_append_message env i m s = (s', Inr md)" "mm_body (m_message m) = Small body"
  shows "dir_cur (dir_of s' j) = dir_cur (dir_of s j)"
    and "dir_new (dir_of s' j) = (if j = i then AList.update (delivery_name env s) (delivery_data env m body) (dir_new (dir_of s j))
        else dir_new (dir_of s j))"
    and "i \<in> fst ` set (ms_dirs s')"
proof -
  have "dir_cur (dir_of s' j) = dir_cur (dir_of s j) \<and>
      dir_new (dir_of s' j) = (if j = i then AList.update (delivery_name env s) (delivery_data env m body) (dir_new (dir_of s j))
        else dir_new (dir_of s j)) \<and> i \<in> fst ` set (ms_dirs s')"
    using assms
  proof (cases rule: append_cases)
    case (1 mb s1 s3 tid)
    note d = deliver_file_ok [OF 1(3) assms(2)] and t = file_thread_fields [OF 1(4)]
    show ?thesis using 1(5) [of j] t(1) [of j] t(2) [of j] d(2) [of j] append_dir_exists [OF 1(4)] 1(8)
      by (simp add: dir_of_def cache_message_def)
  qed
  then show "dir_cur (dir_of s' j) = dir_cur (dir_of s j)"
    and "dir_new (dir_of s' j) = (if j = i then AList.update (delivery_name env s) (delivery_data env m body) (dir_new (dir_of s j))
        else dir_new (dir_of s j))"
    and "i \<in> fst ` set (ms_dirs s')" by simp_all
qed


definition demo_delivery :: "maildir_state \<times> message_metadata result" where
  "demo_delivery = md_append_message demo_maildir_env (MailboxId 5) (demo_mail [''a'']) demo_maildir_state"

lemma demo_delivery_ok:
  "md_append_message demo_maildir_env (MailboxId 5) (demo_mail [''a'']) demo_maildir_state =
     (fst demo_delivery, Inr (projr (snd demo_delivery)))"
proof -
  have "\<not> isl (snd demo_delivery)" by code_simp
  then show ?thesis by (cases demo_delivery; cases "snd demo_delivery") (auto simp: demo_delivery_def)
qed



lemma demo_state_files:
  "(nm, d) \<in> set (dir_new (dir_of demo_maildir_state j) @ dir_cur (dir_of demo_maildir_state j)) \<Longrightarrow>
    stored_id demo_maildir_env d \<noteq> Some (MessageId 2)"
proof -
  have "stored_id demo_maildir_env (message_file demo_lines ''hi'') \<noteq> Some (MessageId 2)" by code_simp
  moreover assume "(nm, d) \<in> set (dir_new (dir_of demo_maildir_state j) @ dir_cur (dir_of demo_maildir_state j))"
  then have "d = message_file demo_lines ''hi''"
    by (auto simp: demo_maildir_state_def dir_of_def empty_maildir_def split: if_splits)
  ultimately show ?thesis by simp
qed

lemma demo_lower_casing: "lower_casing (mv_lc demo_maildir_env)"
  using to_ascii_lowercase_idem by (simp add: lower_casing_def demo_maildir_env_def del: map_map)


end
