(* ===== verification/Imap_Facts.thy ===== *)
theory Imap_Facts
  imports Imap_Server Maildir_Facts
begin

text \<open>
  Properties of the IMAP server that hold for every storage backend: what a connection can do before it
  has logged in, the well-formedness of sessions, notifications between sessions, mailbox patterns,
  message sets, literals and the sequence numbers of EXPUNGE.
\<close>

lemmas guard_defs = with_user_def with_username_def with_selected_def imap_authenticated_def keep_session_def

section \<open>Before and after LOGIN\<close>

definition im_anonymous :: "imap_session \<Rightarrow> bool" where
  "im_anonymous sn \<longleftrightarrow> im_state sn = NotAuthenticated \<or> im_state sn = LoggedOut"

text \<open>The answer to a session that is not logged in; it needs the authentication backend and nothing of the store.\<close>

lemma anonymous_command:
  assumes "im_anonymous sn"
  shows "fst (imap_handle_command ctx sn tag cmd w) = w"
    and "snd (imap_handle_command ctx sn tag cmd w) = snd (imap_handle_command ctx sn tag cmd w2)"
  using assms
  by (cases cmd; auto simp: im_anonymous_def guard_defs imap_handle_login_def handle_select_def handle_fetch_def handle_store_def
      handle_search_def handle_list_def handle_lsub_def handle_subscribe_def handle_unsubscribe_def handle_create_def
      handle_create_special_use_def handle_delete_def handle_rename_def handle_append_def handle_copy_def handle_move_def
      handle_expunge_def handle_close_def handle_idle_def handle_uid_def split: sum.splits bool.splits)+

text \<open>Who is logged in has been accepted by the authentication backend.\<close>

definition im_login_ok :: "('s, 'c) imap_ctx \<Rightarrow> imap_session \<Rightarrow> bool" where
  "im_login_ok ctx sn \<longleftrightarrow>
     im_anonymous sn \<or> (\<exists>u p. im_username sn = Some u \<and> ic_authenticate ctx u p = Inr True)"

text \<open>The commands after which the session may differ.\<close>

lemma keep_session_Inr: "keep_session sn f w = (w', Inr (sn', r)) \<Longrightarrow> sn' = sn"
  by (auto simp: keep_session_def sbind_def split: prod.splits sum.splits)

lemma command_session_cases:
  assumes "imap_handle_command ctx sn tag cmd w = (w', Inr (sn', r))"
  obtains (same) "sn' = sn"
    | (login) u p where "im_state sn = NotAuthenticated" "ic_authenticate ctx u p = Inr True"
        "sn' = sn\<lparr>im_state := Authenticated, im_tag := Some tag, im_username := Some u\<rparr>" "\<exists>user. cmd = ILogin user p"
    | (logout) "sn' = sn\<lparr>im_state := LoggedOut\<rparr>" "cmd = ILogout"
    | (select) i rx where "imap_authenticated sn" "im_username sn \<noteq> None"
        "sn' = sn\<lparr>im_state := Selected i, im_rx := Some (i, rx)\<rparr>" "\<exists>mb. cmd = ISelect mb \<or> cmd = IExamine mb"
    | (close) i where "im_state sn = Selected i" "sn' = sn\<lparr>im_state := Authenticated, im_rx := None\<rparr>" "cmd = IClose"
    | (idle) i st where "im_state sn = Selected i"
        "sn' = sn\<lparr>im_snapshot := Some st, im_state := Idling i, im_tag := Some tag\<rparr>" "cmd = IIdle"
    | (compress) "sn' = sn\<lparr>im_compress_pending := True\<rparr>" "\<exists>m. cmd = ICompress m"
proof -
  have keep: "sn' = sn" if "imap_handle_command ctx sn tag cmd w = keep_session sn f w" for f
    using assms that by (simp add: keep_session_Inr)
  show thesis
  proof (cases cmd)
    case (ILogin user p)
    with assms same login show thesis
      by (auto simp: imap_handle_login_def split: sum.splits bool.splits if_splits)
  next
    case (ISelect mb)
    with assms same select show thesis
      by (auto simp: handle_select_def sbind_def split: sum.splits option.splits prod.splits if_splits)
  next
    case (IExamine mb)
    with assms same select show thesis
      by (auto simp: handle_select_def sbind_def split: sum.splits option.splits prod.splits if_splits)
  next
    case IClose
    with assms same close show thesis
      by (auto simp: handle_close_def sbind_def Let_def split: sum.splits imap_state.splits prod.splits if_splits)
  next
    case IIdle
    with assms same idle show thesis
      by (auto simp: handle_idle_def sbind_def update_snapshot_def split: sum.splits imap_state.splits prod.splits if_splits)
  next
    case (ICompress m)
    with assms same compress show thesis by (auto simp: handle_compress_def split: if_splits)
  next
    case ILogout
    with assms logout show thesis by (auto simp: imap_handle_logout_def)
  qed (rule same, ((rule keep, simp only: imap_handle_command.simps; fail) | (use assms in \<open>simp; fail\<close>)))+
qed

section \<open>Well-formed connections\<close>

text \<open>The relations between the fields of a session, and of a connection between two events.\<close>

definition session_wf :: "('s, 'c) imap_ctx \<Rightarrow> imap_session \<Rightarrow> bool" where
  "session_wf ctx sn \<longleftrightarrow>
     im_login_ok ctx sn \<and> (\<forall>i. im_state sn = Idling i \<longrightarrow> im_snapshot sn \<noteq> None) \<and>
     (\<forall>i r. im_rx sn = Some (i, r) \<longrightarrow> session_mailbox_id sn = Some i \<or> im_state sn = LoggedOut)"

definition conn_wf :: "('s, 'c) imap_ctx \<Rightarrow> imap_conn \<Rightarrow> bool" where
  "conn_wf ctx cn \<longleftrightarrow>
     session_wf ctx (cn_session cn) \<and> \<not> im_compress_pending (cn_session cn) \<and>
     (if cn_open cn
      then im_state (cn_session cn) \<noteq> LoggedOut \<and> (cn_idle cn \<noteq> None \<longleftrightarrow> (\<exists>i. im_state (cn_session cn) = Idling i))
      else cn_idle cn = None \<and> im_rx (cn_session cn) = None)"

lemmas session_wf_defs = session_wf_def im_login_ok_def im_anonymous_def session_mailbox_id_def

lemma command_session_wf:
  assumes "session_wf ctx sn" "imap_handle_command ctx sn tag cmd w = (w', Inr (sn', r))"
  shows "session_wf ctx sn'"
  using assms(2)
proof (cases rule: command_session_cases)
  case (login u p)
  then show ?thesis using assms(1) by (auto simp: session_wf_defs)
next
  case (select i rx)
  then show ?thesis using assms(1) by (auto simp: session_wf_defs imap_authenticated_def)
next
  case (close i)
  then show ?thesis using assms(1) by (auto simp: session_wf_defs)
next
  case (idle i st)
  then show ?thesis using assms(1) by (auto simp: session_wf_defs)
next
  case logout
  then show ?thesis by (auto simp: session_wf_defs)
next
  case compress
  then show ?thesis using assms(1) by (auto simp: session_wf_defs)
qed (use assms(1) in simp)

lemma session_wf_no_rx: "session_wf ctx sn \<Longrightarrow> session_wf ctx (sn\<lparr>im_rx := None\<rparr>)"
  by (auto simp: session_wf_defs)

lemma drain_session:
  "drain_mailbox_events B sn reg = Some (sn', reg', out) \<Longrightarrow> sn' = sn \<or> sn' = sn\<lparr>im_rx := None\<rparr>"
  by (auto simp: drain_mailbox_events_def split: option.splits if_splits)

lemma close_wf:
  "session_wf ctx (cn_session cn) \<Longrightarrow> \<not> im_compress_pending (cn_session cn) \<Longrightarrow> conn_wf ctx (fst (close_connection ctx cn w))"
  by (simp add: conn_wf_def close_connection_def session_wf_no_rx)

lemma abort_idle_wf:
  assumes "session_wf ctx (cn_session cn)" "\<not> im_compress_pending (cn_session cn)" "im_state (cn_session cn) = Idling i" "cn_open cn"
  shows "conn_wf ctx (fst (abort_idle ctx cn w))"
  using assms by (auto simp: conn_wf_def abort_idle_def Let_def session_wf_defs)

lemma finish_idle_wf:
  assumes "session_wf ctx (cn_session cn)" "\<not> im_compress_pending (cn_session cn)" "im_state (cn_session cn) = Idling i" "cn_open cn"
  shows "conn_wf ctx (fst (finish_idle cn))"
  using assms by (auto simp: conn_wf_def finish_idle_def Let_def session_wf_defs)

lemma after_response_wf:
  assumes "session_wf ctx (cn_session cn)" "cn_open cn" "cn_idle cn = None"
    and "im_compress_pending (cn_session cn) \<Longrightarrow> im_state (cn_session cn) \<noteq> LoggedOut \<and> (\<forall>i. im_state (cn_session cn) \<noteq> Idling i)"
  shows "conn_wf ctx (fst (after_response ctx cn w))"
proof (cases "im_compress_pending (cn_session cn)")
  case True
  then show ?thesis using assms by (auto simp: after_response_def conn_wf_def session_wf_defs)
next
  case False
  show ?thesis
  proof (cases "im_state (cn_session cn)")
    case (Idling i)
    obtain st where st: "im_snapshot (cn_session cn) = Some st" using assms(1) Idling by (auto simp: session_wf_def)
    show ?thesis
      using False Idling st assms(1,2)
      by (cases "im_rx (cn_session cn)")
        (auto simp: after_response_def start_idle_def conn_wf_def session_wf_defs split: prod.splits)
  next
    case LoggedOut
    then show ?thesis using False close_wf [OF assms(1) False] by (simp add: after_response_def)
  qed (use False assms in \<open>auto simp: after_response_def conn_wf_def\<close>)
qed

lemma command_compress:
  assumes "imap_handle_command ctx sn tag cmd w = (w', Inr (sn', r))" "\<not> im_compress_pending sn" "im_compress_pending sn'"
  shows "im_state sn' = im_state sn"
  using assms(1) by (cases rule: command_session_cases) (use assms(2,3) in auto)

lemma command_line_wf:
  assumes wf: "conn_wf ctx cn" "cn_open cn" "cn_idle cn = None"
    and step: "command_line ctx net cn w line input = Some (cn', w', out)"
  shows "conn_wf ctx cn'"
proof -
  obtain o1 cmd where read: "read_command ctx net line input = (o1, cmd)" by fastforce
  have sn: "session_wf ctx (cn_session cn)" "\<not> im_compress_pending (cn_session cn)" using wf(1) by (simp_all add: conn_wf_def)
  show ?thesis
  proof (cases cmd)
    case (Inl e)
    then show ?thesis using step read wf(1) by (simp add: command_line_def)
  next
    case (Inr tc)
    obtain tag c where tc: "tc = (tag, c)" by fastforce
    obtain w1 r where h: "imap_handle_command ctx (cn_session cn) tag c w = (w1, r)" by fastforce
    show ?thesis
    proof (cases r)
      case (Inl e)
      then show ?thesis using step read \<open>cmd = Inr tc\<close> tc h close_wf [OF sn, of w1]
        by (auto simp: command_line_def split: prod.splits)
    next
      case (Inr sr)
      obtain sn1 resp where sr: "sr = (sn1, resp)" by fastforce
      note h' = h [unfolded Inr sr]
      obtain sn2 reg lines where d: "drain_mailbox_events (ic_bcast ctx) sn1 (iw_registry w1) = Some (sn2, reg, lines)"
          and cn': "cn' = fst (after_response ctx (cn\<lparr>cn_session := sn2\<rparr>) (w1\<lparr>iw_registry := reg\<rparr>))"
        using step read \<open>cmd = Inr tc\<close> tc h' by (auto simp: command_line_def split: option.splits prod.splits)
      have sn2: "session_wf ctx sn2" "im_compress_pending sn2 = im_compress_pending sn1" "im_state sn2 = im_state sn1"
        using drain_session [OF d] command_session_wf [OF sn(1) h'] session_wf_no_rx by auto
      show ?thesis unfolding cn'
        using command_compress [OF h' sn(2)] wf sn2
        by (intro after_response_wf) (auto simp: conn_wf_def)
    qed
  qed
qed

lemma idle_step_wf:
  assumes wf: "conn_wf ctx cn" "cn_open cn" "im_state (cn_session cn) = Idling i" "cn_idle cn = Some st"
  shows "conn_wf ctx (fst (idle_step ctx cn w i st ev))"
proof -
  have sn: "session_wf ctx (cn_session cn)" "\<not> im_compress_pending (cn_session cn)" using wf(1) by (simp_all add: conn_wf_def)
  note ends = finish_idle_wf [OF sn wf(3,2)] abort_idle_wf [OF sn wf(3,2)]
  have moved: "conn_wf ctx (cn\<lparr>cn_idle := Some st'\<rparr>)" for st' using wf by (simp add: conn_wf_def)
  have lost: "conn_wf ctx (fst (finish_idle (cn\<lparr>cn_session := (cn_session cn)\<lparr>im_rx := None\<rparr>\<rparr>)))"
    by (rule finish_idle_wf) (use sn wf session_wf_no_rx in auto)
  have fin: "conn_wf ctx (fst (finish_idle (cn\<lparr>cn_idle := Some st'\<rparr>)))" for st'
    by (rule finish_idle_wf) (use sn wf in auto)
  show ?thesis
  proof (cases ev)
    case (ImLine l x)
    then show ?thesis using wf(1) ends(1) by (auto simp: idle_step_def split: prod.splits)
  next
    case IdleNotified
    then show ?thesis using wf(1) ends lost moved
      by (auto simp: idle_step_def idle_notified_def case_prod_beta split: option.splits received.splits sum.splits)
  next
    case (IdleTick d)
    then show ?thesis using wf(1) ends fin moved
      by (auto simp: idle_step_def idle_poll_def Let_def case_prod_beta split: option.splits sum.splits)
  qed (use wf(1) ends in \<open>auto simp: idle_step_def case_prod_beta\<close>)
qed

lemma imap_conn_step_wf:
  assumes "conn_wf ctx cn" "imap_conn_step ctx net cn w ev = Some (cn', w', out)"
  shows "conn_wf ctx cn'"
proof (cases "cn_open cn")
  case False
  then show ?thesis using assms by (simp add: imap_conn_step_def)
next
  case True
  have sn: "session_wf ctx (cn_session cn)" "\<not> im_compress_pending (cn_session cn)" using assms(1) by (simp_all add: conn_wf_def)
  show ?thesis
  proof (cases "cn_idle cn")
    case None
    then show ?thesis
      using assms True command_line_wf [OF assms(1) True None] close_wf [OF sn, of w]
      by (cases ev) (auto simp: imap_conn_step_def split: prod.splits)
  next
    case (Some st)
    then obtain i where i: "im_state (cn_session cn) = Idling i" using assms(1) True by (auto simp: conn_wf_def)
    then show ?thesis
      using assms(2) True Some idle_step_wf [OF assms(1) True i Some, of w ev] by (simp add: imap_conn_step_def)
  qed
qed

lemma open_connection_wf: "conn_wf ctx (open_connection t)"
  by (simp add: conn_wf_def open_connection_def session_wf_defs ImapSession_new_with_timeout_def)

definition imap_server_wf :: "('s, 'c) imap_ctx \<Rightarrow> ('s, 'c) imap_server \<Rightarrow> bool" where
  "imap_server_wf ctx sv \<longleftrightarrow> list_all (conn_wf ctx) (is_conns sv)"

lemma imap_step_wf: "imap_step ctx net sv sv' \<Longrightarrow> imap_server_wf ctx sv \<Longrightarrow> imap_server_wf ctx sv'"
proof (induction rule: imap_step.induct)
  case (conn k sv ev cn w out)
  then have "conn_wf ctx (is_conns sv ! k)" by (simp add: imap_server_wf_def list_all_length)
  from imap_conn_step_wf [OF this conn(2)] have "conn_wf ctx cn" .
  then show ?case using conn by (auto simp: imap_server_wf_def list_all_length nth_list_update)
qed (auto simp: imap_server_wf_def imap_accept_def open_connection_wf)

lemma imap_reachable_wf: "imap_reachable ctx net sv \<Longrightarrow> imap_server_wf ctx sv"
  by (induction rule: imap_reachable.induct)
    (auto simp: imap_server_wf_def ImapServer_from_config_def dest: imap_step_wf [unfolded imap_server_wf_def])

text \<open>C18: In every reachable state of the server and for every interleaving, each connection is well formed: its user
  has been accepted by the authentication backend unless it is anonymous; it is in the IDLE loop exactly when
  its state says so, and has a snapshot then; a notification receiver belongs to the selected mailbox;
  no compression is pending between commands; a closed connection holds no receiver.\<close>

theorem imap_connections_well_formed:
  assumes "imap_reachable ctx net sv" "k < length (is_conns sv)"
  shows "conn_wf ctx (is_conns sv ! k)"
  using imap_reachable_wf [OF assms(1)] assms(2) by (simp add: imap_server_wf_def list_all_length)

text \<open>A server whose store is the file system backend, with one connection.\<close>

definition demo_server_state :: "(maildir_state, queue_channel) imap_server" where
  "demo_server_state = fst (imap_accept (snd (ImapServer_from_config imap_config_default
     \<lparr>iw_store = demo_maildir_state, iw_registry = [], iw_drawn = 0\<rparr>)))"

abbreviation demo_maildir_ctx :: "(maildir_state, queue_channel) imap_ctx" where
  "demo_maildir_ctx \<equiv> demo_imap_ctx (maildir_store demo_maildir_env)"

lemma demo_server_reachable: "imap_reachable demo_maildir_ctx demo_imap_net demo_server_state"
  unfolding demo_server_state_def by (rule imap_reachable.step [OF imap_reachable.initial imap_step.accept])

lemma result_Inr: "\<not> isl (snd p) \<Longrightarrow> p = (fst p, Inr (projr (snd p)))"
  by (cases p; cases "snd p") auto

lemma result_Some: "r \<noteq> None \<Longrightarrow> r = Some (fst (the r), fst (snd (the r)), snd (snd (the r)))"
  by (cases r) auto

definition demo_login_step :: "(imap_conn \<times> (maildir_state, queue_channel) imap_world \<times> string list) option" where
  "demo_login_step = imap_conn_step demo_maildir_ctx demo_imap_net (is_conns demo_server_state ! 0) (is_world demo_server_state)
     (ImLine ''a1 LOGIN a pw'' [])"

lemma demo_login:
  "map_option (\<lambda>(cn, w, out). (im_state (cn_session cn), im_username (cn_session cn), out)) demo_login_step =
     Some (Authenticated, Some (Username ''a''), [''a1 OK a logged in'' @ CRLF])"
  by code_simp

theorem imap_connections_well_formed_witness:
  "im_state (cn_session (fst (the demo_login_step))) = Authenticated \<and> conn_wf demo_maildir_ctx (fst (the demo_login_step))"
proof -
  obtain cn w out where step: "demo_login_step = Some (cn, w, out)" and auth: "im_state (cn_session cn) = Authenticated"
    using demo_login by auto
  have len: "length (is_conns demo_server_state) = 1"
    by (simp add: demo_server_state_def imap_accept_def ImapServer_from_config_def)
  let ?sv = "demo_server_state\<lparr>is_world := w, is_conns := (is_conns demo_server_state)[0 := cn]\<rparr>"
  have "imap_reachable demo_maildir_ctx demo_imap_net ?sv"
    by (rule imap_reachable.step [OF demo_server_reachable imap_step.conn])
      (use step len in \<open>simp_all add: demo_login_step_def\<close>)
  from imap_connections_well_formed [OF this, of 0] len have "conn_wf demo_maildir_ctx cn" by simp
  then show ?thesis unfolding step using auth by simp
qed

section \<open>The store is closed to anonymous connections\<close>

text \<open>What a step does to the connection and what it writes, without the world.\<close>

definition observable :: "(imap_conn \<times> ('s, 'c) imap_world \<times> string list) option \<Rightarrow> (imap_conn \<times> string list) option" where
  "observable r = map_option (\<lambda>(cn, w, out). (cn, out)) r"

lemma observable_Some: "observable r = Some (cn, out) \<longleftrightarrow> (\<exists>w. r = Some (cn, w, out))"
  by (auto simp: observable_def)

lemma close_connection_store:
  "iw_store (snd (close_connection ctx cn w)) = iw_store w"
  "fst (close_connection ctx cn w) = fst (close_connection ctx cn (w\<lparr>iw_store := s\<rparr>))"
  by (simp_all add: close_connection_def)

lemma anonymous_after:
  assumes "im_state sn = NotAuthenticated" "imap_handle_command ctx sn tag cmd w = (w', Inr (sn', r))"
  shows "\<not> (\<exists>i. im_state sn' = Idling i)"
  using assms(2) by (cases rule: command_session_cases) (use assms(1) in \<open>auto simp: imap_authenticated_def\<close>)

lemma after_response_store:
  assumes "\<not> (\<exists>i. im_state (cn_session cn) = Idling i)"
  shows "iw_store (snd (after_response ctx cn w)) = iw_store w"
    and "fst (after_response ctx cn w) = fst (after_response ctx cn (w\<lparr>iw_store := s\<rparr>))"
  using assms by (auto simp: after_response_def close_connection_def split: imap_state.splits)

lemma anonymous_command_line:
  assumes "im_state (cn_session cn) = NotAuthenticated"
  shows "command_line ctx net cn w line input = Some (cn', w', out) \<Longrightarrow> iw_store w' = iw_store w"
    and "observable (command_line ctx net cn w line input) = observable (command_line ctx net cn (w\<lparr>iw_store := s\<rparr>) line input)"
proof -
  have an: "im_anonymous (cn_session cn)" using assms by (simp add: im_anonymous_def)
  obtain o1 cmd where read: "read_command ctx net line input = (o1, cmd)" by fastforce
  have both: "(command_line ctx net cn w line input = Some (cn', w', out) \<longrightarrow> iw_store w' = iw_store w) \<and>
      observable (command_line ctx net cn w line input) = observable (command_line ctx net cn (w\<lparr>iw_store := s\<rparr>) line input)"
  proof (cases cmd)
    case (Inr tc)
    obtain tag c where tc: "tc = (tag, c)" by fastforce
    obtain r where h: "imap_handle_command ctx (cn_session cn) tag c w = (w, r)"
        "imap_handle_command ctx (cn_session cn) tag c (w\<lparr>iw_store := s\<rparr>) = (w\<lparr>iw_store := s\<rparr>, r)"
      using anonymous_command [OF an] by (metis prod.collapse)
    show ?thesis
    proof (cases r)
      case (Inl e)
      then show ?thesis using read Inr tc h
        by (auto simp: command_line_def observable_def close_connection_def)
    next
      case (Inr sr)
      obtain sn1 resp where sr: "sr = (sn1, resp)" by fastforce
      show ?thesis
      proof (cases "drain_mailbox_events (ic_bcast ctx) sn1 (iw_registry w)")
        case None
        then show ?thesis using read \<open>cmd = Inr tc\<close> tc h Inr sr by (simp add: command_line_def)
      next
        case (Some d)
        obtain sn2 reg lines where d: "d = (sn2, reg, lines)" by (cases d) auto
        have "im_state sn2 = im_state sn1" using drain_session [OF Some [unfolded d]] by auto
        then have "\<not> (\<exists>i. im_state (cn_session (cn\<lparr>cn_session := sn2\<rparr>)) = Idling i)"
          using anonymous_after [OF assms h(1) [unfolded Inr sr]] by simp
        note ar = after_response_store [OF this, of ctx "w\<lparr>iw_registry := reg\<rparr>"]
        have swap: "w\<lparr>iw_store := s, iw_registry := reg\<rparr> = w\<lparr>iw_registry := reg, iw_store := s\<rparr>" by simp
        show ?thesis using read \<open>cmd = Inr tc\<close> tc h Inr sr Some d ar(1) ar(2) [of s]
          by (auto simp: command_line_def observable_def case_prod_beta swap)
      qed
    qed
  qed (use read in \<open>auto simp: command_line_def observable_def\<close>)
  show "command_line ctx net cn w line input = Some (cn', w', out) \<Longrightarrow> iw_store w' = iw_store w"
    and "observable (command_line ctx net cn w line input) = observable (command_line ctx net cn (w\<lparr>iw_store := s\<rparr>) line input)"
    using both by simp_all
qed

lemma anonymous_step:
  assumes "im_state (cn_session cn) = NotAuthenticated"
  shows "imap_conn_step ctx net cn w ev = Some (cn', w', out) \<Longrightarrow> iw_store w' = iw_store w"
    and "observable (imap_conn_step ctx net cn w ev) = observable (imap_conn_step ctx net cn (w\<lparr>iw_store := s\<rparr>) ev)"
proof -
  have line: "imap_conn_step ctx net cn w (ImLine l i) = (if cn_open cn then command_line ctx net cn w l i else Some (cn, w, []))" for w l i
    using assms by (simp add: imap_conn_step_def split: option.splits)
  show "iw_store w' = iw_store w" if "imap_conn_step ctx net cn w ev = Some (cn', w', out)"
  proof (cases ev)
    case (ImLine l i)
    then show ?thesis using that anonymous_command_line(1) [OF assms, of ctx net w l i cn' w' out] by (auto simp: line split: if_splits)
  qed (use that assms in \<open>auto simp: imap_conn_step_def close_connection_def split: if_splits option.splits\<close>)
  show "observable (imap_conn_step ctx net cn w ev) = observable (imap_conn_step ctx net cn (w\<lparr>iw_store := s\<rparr>) ev)"
  proof (cases ev)
    case (ImLine l i)
    then show ?thesis using anonymous_command_line(2) [OF assms, of ctx net w l i s] by (simp add: line) (simp add: observable_def)
  qed (use assms in \<open>auto simp: imap_conn_step_def observable_def close_connection_def split: option.splits\<close>)
qed

text \<open>C17: In every reachable state, a connection whose user has not been accepted by the authentication backend
  neither changes the store nor learns anything of it: its step leaves the store as it is, and with any
  other contents of the store the connection would end in the same state and write the same lines.\<close>

theorem imap_needs_login:
  assumes "imap_reachable ctx net sv" "k < length (is_conns sv)"
    and "\<nexists>u p. im_username (cn_session (is_conns sv ! k)) = Some u \<and> ic_authenticate ctx u p = Inr True"
    and "imap_conn_step ctx net (is_conns sv ! k) (is_world sv) ev = Some (cn, w, out)"
  shows "iw_store w = iw_store (is_world sv) \<and>
    (\<forall>s. \<exists>w2. imap_conn_step ctx net (is_conns sv ! k) ((is_world sv)\<lparr>iw_store := s\<rparr>) ev = Some (cn, w2, out))"
proof -
  let ?cn = "is_conns sv ! k"
  have wf: "conn_wf ctx ?cn"
    using imap_reachable_wf [OF assms(1)] assms(2) by (simp add: imap_server_wf_def list_all_length)
  then have "im_anonymous (cn_session ?cn)" using assms(3) by (auto simp: conn_wf_def session_wf_def im_login_ok_def)
  then consider "im_state (cn_session ?cn) = NotAuthenticated" | "\<not> cn_open ?cn"
    using wf by (auto simp: im_anonymous_def conn_wf_def split: if_splits)
  then show ?thesis
  proof cases
    case 1
    have "\<exists>w2. imap_conn_step ctx net ?cn ((is_world sv)\<lparr>iw_store := s\<rparr>) ev = Some (cn, w2, out)" for s
      using anonymous_step(2) [OF 1, of ctx net "is_world sv" ev s] assms(4) by (simp add: observable_Some [symmetric]) (simp add: observable_def)
    then show ?thesis using anonymous_step(1) [OF 1 assms(4)] by blast
  next
    case 2
    then show ?thesis using assms(4) by (auto simp: imap_conn_step_def)
  qed
qed

theorem imap_needs_login_witness:
  "\<exists>w out. imap_conn_step demo_maildir_ctx demo_imap_net (is_conns demo_server_state ! 0) (is_world demo_server_state)
      (ImLine ''a1 SELECT INBOX'' []) = Some (is_conns demo_server_state ! 0, w, out) \<and>
    iw_store w = demo_maildir_state \<and> out = [''a1 NO Not authenticated'' @ CRLF]"
proof -
  let ?r = "imap_conn_step demo_maildir_ctx demo_imap_net (is_conns demo_server_state ! 0) (is_world demo_server_state)
      (ImLine ''a1 SELECT INBOX'' [])"
  have r: "map_option (\<lambda>(cn, w, out). (cn, out)) ?r = Some (is_conns demo_server_state ! 0, [''a1 NO Not authenticated'' @ CRLF])"
    by code_simp
  then obtain w where step: "?r = Some (is_conns demo_server_state ! 0, w, [''a1 NO Not authenticated'' @ CRLF])" by auto
  have "im_username (cn_session (is_conns demo_server_state ! 0)) = None" "0 < length (is_conns demo_server_state)"
      "iw_store (is_world demo_server_state) = demo_maildir_state"
    by (simp_all add: demo_server_state_def imap_accept_def ImapServer_from_config_def open_connection_def
        ImapSession_new_with_timeout_def)
  with imap_needs_login [OF demo_server_reachable _ _ step] step show ?thesis by simp
qed

section \<open>Notifications\<close>

context broadcast_laws
begin

lemma drain_loop_queue:
  "inbox_of waiting reg rx = Some (evs, 0) \<Longrightarrow>
     \<exists>reg'. drain_loop B rx reg lines = Some (reg', True, lines @ map format_mailbox_event evs) \<and>
       inbox_of waiting reg' rx = Some ([], 0) \<and> (\<forall>rx'. rx' \<noteq> rx \<longrightarrow> inbox_of waiting reg' rx' = inbox_of waiting reg rx')"
proof (induction evs arbitrary: reg lines)
  case Nil
  obtain reg' v where r: "try_recv B rx reg = (reg', v)" by fastforce
  show ?case
    using try_recv_value [OF Nil r] try_recv_own [OF Nil r] try_recv_others [OF Nil r] r
    by (subst drain_loop.simps) (auto simp: receive_event_def)
next
  case (Cons ev evs)
  obtain reg' v where r: "try_recv B rx reg = (reg', v)" by fastforce
  have v: "v = Received ev" "inbox_of waiting reg' rx = Some (evs, 0)"
    using try_recv_value [OF Cons.prems r] try_recv_own [OF Cons.prems r] by (simp_all add: receive_event_def)
  show ?case
    using Cons.IH [OF v(2), of "lines @ [format_mailbox_event ev]"] try_recv_others [OF Cons.prems r] r v(1)
    by (subst drain_loop.simps) auto
qed

lemma drain_loop_exact:
  assumes "inbox_of waiting reg rx = Some (evs, k)"
  shows "\<exists>reg'. drain_loop B rx reg lines = Some (reg', True, lines @ map format_mailbox_event evs) \<and>
       inbox_of waiting reg' rx = Some ([], 0) \<and> (\<forall>rx'. rx' \<noteq> rx \<longrightarrow> inbox_of waiting reg' rx' = inbox_of waiting reg rx')"
proof (cases "k = 0")
  case True
  then show ?thesis using drain_loop_queue assms by simp
next
  case False
  obtain reg' v where r: "try_recv B rx reg = (reg', v)" by fastforce
  have v: "v = RecvLagged k" "inbox_of waiting reg' rx = Some (evs, 0)"
    using try_recv_value [OF assms r] try_recv_own [OF assms r] False by (simp_all add: receive_event_def)
  show ?thesis
    using drain_loop_queue [OF v(2), of lines] try_recv_others [OF assms r] r v(1)
    by (subst drain_loop.simps) auto
qed

lemma drain_exact:
  assumes "im_rx sn = Some rx" "inbox_of waiting reg rx = Some (evs, k)"
  shows "\<exists>reg'. drain_mailbox_events B sn reg = Some (sn, reg', map format_mailbox_event evs) \<and>
       inbox_of waiting reg' rx = Some ([], 0) \<and> (\<forall>rx'. rx' \<noteq> rx \<longrightarrow> inbox_of waiting reg' rx' = inbox_of waiting reg rx')"
  using drain_loop_exact [OF assms(2), of "[]"] assms(1) by (auto simp: drain_mailbox_events_def)

lemma publish_fold:
  assumes "bounded capacity reg" "inbox_of waiting reg rx = Some (evs, k)" "length evs + length new \<le> channel_capacity"
  shows "inbox_of waiting (foldl (\<lambda>reg ev. registry_publish B i ev reg) reg new) rx =
      Some (if fst rx = i then evs @ new else evs, k)"
  using assms
proof (induction new arbitrary: reg evs)
  case (Cons ev new)
  let ?reg = "registry_publish B i ev reg"
  have "inbox_of waiting ?reg rx = Some (if fst rx = i then evs @ [ev] else evs, k)"
    using Cons.prems by (simp add: publish_inbox enqueue_event_def)
  with Cons.IH [OF publish_bounded [OF Cons.prems(1), of i ev] this] Cons.prems(3) show ?case by (cases "fst rx = i") auto
qed simp

end

lemma publish_all_registry:
  "iw_registry (publish_all ctx i evs w) = foldl (\<lambda>reg ev. registry_publish (ic_bcast ctx) i ev reg) (iw_registry w) evs"
  "iw_store (publish_all ctx i evs w) = iw_store w"
  by (induction evs arbitrary: w) (simp_all add: publish_all_def im_publish_def)

lemma on_store_registry [simp]: "iw_registry (fst (on_store f w)) = iw_registry w"
  by (simp add: on_store_def split: prod.splits)

lemma on_store_world: "on_store f w = (w', r) \<Longrightarrow> iw_registry w' = iw_registry w \<and> f (iw_store w) = (iw_store w', r)"
  by (auto simp: on_store_def split: prod.splits)

section \<open>EXPUNGE\<close>

abbreviation is_deleted :: "message_metadata \<Rightarrow> bool" where
  "is_deleted md \<equiv> mf_deleted (md_flags md)"

abbreviation expunge_line :: "nat \<Rightarrow> string" where
  "expunge_line n \<equiv> ''* '' @ show_nat n @ '' EXPUNGE''"

lemma numbered_metadata: "map snd (numbered P mds) = filter P mds"
proof -
  have "map snd (filter (\<lambda>(n, md). P md) (enumerate k mds)) = filter P mds" for k
    by (induction mds arbitrary: k) auto
  then show ?thesis by (simp add: numbered_def case_prod_beta comp_def)
qed

lemma numbered_ids: "map (\<lambda>(n, md). md_message_id md) (numbered P mds) = map md_message_id (filter P mds)"
  unfolding numbered_metadata [of P mds, symmetric] by (simp add: case_prod_beta comp_def)

lemma length_numbered: "length (numbered P mds) = length (filter P mds)"
  unfolding numbered_metadata [of P mds, symmetric] by simp

lemma numbered_Nil: "numbered P mds = [] \<longleftrightarrow> filter P mds = []"
  using length_numbered [of P mds] by (metis length_0_conv)

lemma handle_expunge_cases:
  assumes "im_state sn = Selected i" "handle_expunge ctx sn tag w = (w', Inr r)"
  obtains s1 mds where "st_get_mailbox_messages (ic_store ctx) i (iw_store w) = (s1, Inr mds)"
    "if filter is_deleted mds = [] then iw_store w' = s1
     else st_delete_messages (ic_store ctx) (map md_message_id (filter is_deleted mds)) s1 = (iw_store w', Inr ())"
    "iw_registry w' = foldl (\<lambda>reg ev. registry_publish (ic_bcast ctx) i ev reg) (iw_registry w)
       (map (\<lambda>(n, md). EvExpunge n) (numbered is_deleted mds))"
    "r = untagged_block (map (\<lambda>(n, md). expunge_line n) (numbered is_deleted mds)) (tag @ '' OK EXPUNGE completed'')"
proof -
  obtain w1 l where l: "on_store (st_get_mailbox_messages (ic_store ctx) i) w = (w1, l)" by fastforce
  obtain mds where mds: "l = Inr mds" using assms l by (cases l) (auto simp: handle_expunge_def with_selected_def)
  note s1 = on_store_world [OF l]
  have e: "expunge_messages ctx i (numbered is_deleted mds) (tag @ '' OK EXPUNGE completed'') w1 = (w', Inr r)"
    using assms l mds by (simp add: handle_expunge_def with_selected_def)
  show thesis
  proof (cases "filter is_deleted mds = []")
    case True
    then have none: "numbered is_deleted mds = []" by (simp add: numbered_Nil)
    show thesis using that [of "iw_store w1" mds] e s1 mds True by (simp add: expunge_messages_def none)
  next
    case False
    obtain w2 d where d: "on_store (st_delete_messages (ic_store ctx) (map md_message_id (filter is_deleted mds))) w1 = (w2, d)"
      by fastforce
    obtain u where u: "d = Inr u" using e d False by (cases d) (auto simp: expunge_messages_def numbered_Nil numbered_ids)
    note s2 = on_store_world [OF d]
    have w': "w' = publish_all ctx i (map (\<lambda>(n, md). EvExpunge n) (numbered is_deleted mds)) w2"
        "r = untagged_block (map (\<lambda>(n, md). expunge_line n) (numbered is_deleted mds)) (tag @ '' OK EXPUNGE completed'')"
      using e d u False by (auto simp: expunge_messages_def numbered_Nil numbered_ids case_prod_beta comp_def)
    show thesis using that [of "iw_store w1" mds] s1 mds s2 u w' False by (simp add: publish_all_registry)
  qed
qed

text \<open>A selected mailbox with two messages, one of them deleted, and two sessions that have it selected.\<close>

definition demo_selected_world :: "(maildir_state, queue_channel) imap_world" where
  "demo_selected_world =
     \<lparr>iw_store = demo_maildir_state\<lparr>ms_dirs := [(MailboxId 5,
        empty_maildir\<lparr>dir_cur := [(''1:2,S'', CRLF @ ''hi''),
          (''2:2,T'', CRLF @ ''ho'')]\<rparr>)]\<rparr>,
      iw_registry = [(MailboxId 5, \<lparr>qc_capacity = channel_capacity, qc_next = 0, qc_queues = [(1, ([], 0)), (2, ([], 0))]\<rparr>)],
      iw_drawn = 0\<rparr>"

definition demo_selected_session :: "nat \<Rightarrow> imap_session" where
  "demo_selected_session q = ImapSession_new\<lparr>im_state := Selected (MailboxId 5), im_username := Some (Username ''a''),
     im_rx := Some (MailboxId 5, q)\<rparr>"

definition demo_expunge :: "(maildir_state, queue_channel) imap_world \<times> imap_response result" where
  "demo_expunge = handle_expunge demo_maildir_ctx (demo_selected_session 1) ''a2'' demo_selected_world"

lemma demo_expunge_ok:
  "handle_expunge demo_maildir_ctx (demo_selected_session 1) ''a2'' demo_selected_world = (fst demo_expunge, Inr (projr (snd demo_expunge)))"
proof -
  have "\<not> isl (snd demo_expunge)" by code_simp
  from result_Inr [OF this] show ?thesis by (simp add: demo_expunge_def)
qed

lemma demo_session_selected: "im_state (demo_selected_session q) = Selected (MailboxId 5)" "im_rx (demo_selected_session q) = Some (MailboxId 5, q)"
  by (simp_all add: demo_selected_session_def)

definition demo_listing :: "maildir_state \<times> message_metadata list result" where
  "demo_listing = st_get_mailbox_messages (ic_store demo_maildir_ctx) (MailboxId 5) (iw_store demo_selected_world)"

abbreviation demo_mds :: "message_metadata list" where
  "demo_mds \<equiv> projr (snd demo_listing)"

lemma demo_listing_facts:
  "\<not> isl (snd demo_listing) \<and>
   map (\<lambda>md. (md_message_id md, mf_deleted (md_flags md))) demo_mds = [(MessageId 1001, False), (MessageId 1003, True)] \<and>
   map (\<lambda>(n, md). ''* '' @ show_nat n @ '' EXPUNGE'') (numbered is_deleted demo_mds) = [''* 2 EXPUNGE''] \<and>
   map md_message_id (filter is_deleted demo_mds) = [MessageId 1003]"
  by code_simp

lemma demo_listing_value: "\<not> isl (snd demo_listing)"
  and demo_listing_ids: "map (\<lambda>md. (md_message_id md, mf_deleted (md_flags md))) demo_mds = [(MessageId 1001, False), (MessageId 1003, True)]"
  using demo_listing_facts by blast+

lemma demo_listing_ok:
  "st_get_mailbox_messages (ic_store demo_maildir_ctx) (MailboxId 5) (iw_store demo_selected_world) = (fst demo_listing, Inr demo_mds)"
  using result_Inr [OF demo_listing_value] by (simp add: demo_listing_def)

lemma demo_deleted:
  "map md_message_id (filter is_deleted demo_mds) = [MessageId 1003]"
  "map (\<lambda>(n, md). ''* '' @ show_nat n @ '' EXPUNGE'') (numbered is_deleted demo_mds) = [''* 2 EXPUNGE'']"
  "length (filter is_deleted demo_mds) = 1"
proof -
  show ids: "map md_message_id (filter is_deleted demo_mds) = [MessageId 1003]" using demo_listing_facts by blast
  show "map (\<lambda>(n, md). ''* '' @ show_nat n @ '' EXPUNGE'') (numbered is_deleted demo_mds) = [''* 2 EXPUNGE'']"
    using demo_listing_facts by blast
  show "length (filter is_deleted demo_mds) = 1" using arg_cong [OF ids, of length] by simp
qed

lemma demo_queues:
  "broadcast_laws (ic_bcast demo_maildir_ctx) (\<lambda>c. map_of (qc_queues c)) qc_capacity"
  "bounded qc_capacity (iw_registry demo_selected_world)"
  "q \<in> {1, 2} \<Longrightarrow> inbox_of (\<lambda>c. map_of (qc_queues c)) (iw_registry demo_selected_world) (MailboxId 5, q) = Some ([], 0)"
  by (auto simp: demo_imap_ctx_def queues.broadcast_laws_axioms bounded_def demo_selected_world_def inbox_of_def)





text \<open>The session that expunges is subscribed to its own mailbox: its client is told every removal twice, once as a
  notification and once in the response, and a client that follows the protocol removes a second message
  for each.\<close>

theorem imap_expunge_announced_twice:
  assumes laws: "broadcast_laws (ic_bcast ctx) waiting capacity" and reg: "bounded capacity (iw_registry w)"
    and read: "read_command ctx net line input = ([], Inr (tag, IExpunge))"
    and sn: "im_state (cn_session cn) = Selected i" "im_rx (cn_session cn) = Some (i, q)"
      "inbox_of waiting (iw_registry w) (i, q) = Some ([], 0)"
    and list: "st_get_mailbox_messages (ic_store ctx) i (iw_store w) = (s1, Inr mds)"
    and del: "st_delete_messages (ic_store ctx) (map md_message_id (filter (\<lambda>md. mf_deleted (md_flags md)) mds)) s1 = (s2, Inr ())"
    and room: "length (filter (\<lambda>md. mf_deleted (md_flags md)) mds) \<le> channel_capacity"
  shows "\<exists>cn' w'. let ls = map (\<lambda>(n, md). ''* '' @ show_nat n @ '' EXPUNGE'') (numbered (\<lambda>md. mf_deleted (md_flags md)) mds) in
    command_line ctx net cn w line input = Some (cn', w',
      map (\<lambda>l. l @ CRLF) ls @ [imap_format (untagged_block ls (tag @ '' OK EXPUNGE completed''))])"
proof -
  let ?ls = "map (\<lambda>(n, md). expunge_line n) (numbered is_deleted mds)"
  let ?r = "untagged_block ?ls (tag @ '' OK EXPUNGE completed'')"
  obtain w1 res where h: "handle_expunge ctx (cn_session cn) tag w = (w1, res)" by fastforce
  have "res = Inr ?r"
    using h sn(1) list del
    by (auto simp: handle_expunge_def with_selected_def on_store_def expunge_messages_def numbered_ids numbered_Nil
        split: if_splits)
  note h = h [unfolded this]
  let ?new = "map (\<lambda>(n, md). EvExpunge n) (numbered is_deleted mds)"
  have "inbox_of waiting (iw_registry w1) (i, q) = Some (?new, 0)"
    using sn(1) h
  proof (cases rule: handle_expunge_cases)
    case (1 s1' mds')
    then show ?thesis using broadcast_laws.publish_fold [OF laws reg sn(3), of ?new i] room list by (simp add: length_numbered)
  qed
  from broadcast_laws.drain_exact [OF laws sn(2) this] obtain reg'
    where d: "drain_mailbox_events (ic_bcast ctx) (cn_session cn) (iw_registry w1) = Some (cn_session cn, reg', ?ls)"
    by (auto simp: comp_def case_prod_beta format_mailbox_event_def)
  have "imap_handle_command ctx (cn_session cn) tag IExpunge w = (w1, Inr (cn_session cn, ?r))"
    using h by (simp add: keep_session_def)
  then show ?thesis using read d by (auto simp: command_line_def case_prod_beta Let_def)
qed

definition demo_selected_conn :: imap_conn where
  "demo_selected_conn = \<lparr>cn_session = demo_selected_session 1, cn_open = True, cn_layers = 0, cn_idle = None\<rparr>"

theorem imap_expunge_announced_twice_witness:
  "\<exists>cn' w'. command_line demo_maildir_ctx demo_imap_net demo_selected_conn demo_selected_world ''a2 EXPUNGE'' [] =
     Some (cn', w', [''* 2 EXPUNGE'' @ CRLF, ''*  * 2 EXPUNGE'' @ CRLF @ ''a2 OK EXPUNGE completed'' @ CRLF])"
proof -
  have read: "read_command demo_maildir_ctx demo_imap_net ''a2 EXPUNGE'' [] = ([], Inr (''a2'', IExpunge))" by code_simp
  have sn: "im_state (cn_session demo_selected_conn) = Selected (MailboxId 5)" "im_rx (cn_session demo_selected_conn) = Some (MailboxId 5, 1)"
    by (simp_all add: demo_selected_conn_def demo_session_selected)
  have del: "st_delete_messages (ic_store demo_maildir_ctx) (map md_message_id (filter is_deleted demo_mds)) (fst demo_listing) =
      (fst (st_delete_messages (ic_store demo_maildir_ctx) [MessageId 1003] (fst demo_listing)), Inr ())"
  proof -
    have "\<not> isl (snd (st_delete_messages (ic_store demo_maildir_ctx) [MessageId 1003] (fst demo_listing)))" by code_simp
    from result_Inr [OF this] show ?thesis by (simp add: demo_deleted(1))
  qed
  have room: "length (filter is_deleted demo_mds) \<le> channel_capacity" using demo_deleted(3) by (simp add: channel_capacity_def)
  have out: "imap_format (untagged_block [''* 2 EXPUNGE''] ''a2 OK EXPUNGE completed'') =
      ''*  * 2 EXPUNGE'' @ CRLF @ ''a2 OK EXPUNGE completed'' @ CRLF" by code_simp
  show ?thesis
    using imap_expunge_announced_twice [OF demo_queues(1,2) read sn demo_queues(3) [of 1] demo_listing_ok del room] out
    unfolding demo_deleted(2) by (simp add: Let_def)
qed

text \<open>A client's list of messages after one EXPUNGE response (RFC 3501, 7.4.1).\<close>

definition client_expunge :: "'a list \<Rightarrow> nat \<Rightarrow> 'a list" where
  "client_expunge xs n = take (n - 1) xs @ drop n xs"

lemma client_expunge_keeps:
  "p < length xs \<Longrightarrow> \<forall>n \<in> set ns. p + 1 < n \<Longrightarrow>
     p < length (foldl client_expunge xs ns) \<and> foldl client_expunge xs ns ! p = xs ! p"
proof (induction ns arbitrary: xs)
  case (Cons n ns)
  then have "p < length (client_expunge xs n)" "client_expunge xs n ! p = xs ! p"
    by (auto simp: client_expunge_def nth_append)
  with Cons.IH [of "client_expunge xs n"] Cons.prems show ?case by simp
qed simp

lemma filter_enumerate_Cons:
  "filter (\<lambda>(n, md). P md) (enumerate k mds) = (n, m) # rest \<Longrightarrow>
     \<exists>a c. mds = a @ m # c \<and> filter P a = [] \<and> P m \<and> n = k + length a \<and> rest = filter (\<lambda>(n, md). P md) (enumerate (Suc n) c)"
proof (induction mds arbitrary: k)
  case (Cons x xs)
  show ?case
  proof (cases "P x")
    case True
    then show ?thesis using Cons.prems by (intro exI [of _ "[]"] exI [of _ xs]) auto
  next
    case False
    then have "filter (\<lambda>(n, md). P md) (enumerate (Suc k) xs) = (n, m) # rest" using Cons.prems by simp
    from Cons.IH [OF this] obtain a c where "xs = a @ m # c" "filter P a = []" "P m" "n = Suc k + length a"
        "rest = filter (\<lambda>(n, md). P md) (enumerate (Suc n) c)" by blast
    then show ?thesis using False by (intro exI [of _ "x # a"] exI [of _ c]) auto
  qed
qed simp

lemma numbered_plain:
  "length mds < 2 ^ 32 \<Longrightarrow> numbered P mds = map (\<lambda>(n, md). (n + 1, md)) (filter (\<lambda>(n, md). P md) (enumerate 0 mds))"
  unfolding numbered_def by (rule map_cong [OF refl]) (auto simp: in_set_enumerate_eq)

lemma filter_enumerate_Nil: "filter (\<lambda>(n, md). P md) (enumerate k mds) = [] \<longleftrightarrow> filter P mds = []"
  by (induction mds arbitrary: k) auto

text \<open>The responses of EXPUNGE number the messages as they were before the command, while the protocol counts each
  removal: with one deleted message the client ends with the right list, with two or more it keeps
  showing a message that is gone.\<close>

theorem imap_expunge_numbers_not_adjusted:
  assumes "length mds < 2 ^ 32"
  shows "(length (filter P mds) = 1 \<longrightarrow>
      foldl client_expunge mds (map fst (numbered P mds)) = filter (\<lambda>md. \<not> P md) mds) \<and>
    (1 < length (filter P mds) \<longrightarrow>
      (\<exists>md. P md \<and> md \<in> set (foldl client_expunge mds (map fst (numbered P mds)))))"
proof (cases "filter (\<lambda>(n, md). P md) (enumerate 0 mds)")
  case Nil
  then show ?thesis by (simp add: filter_enumerate_Nil)
next
  case (Cons nm rest)
  obtain n m where nm: "nm = (n, m)" by fastforce
  from filter_enumerate_Cons [OF Cons [unfolded nm]] obtain a c where
    1: "mds = a @ m # c" "filter P a = []" "P m" "n = length a" "rest = filter (\<lambda>(n, md). P md) (enumerate (Suc n) c)" by auto
  have num: "map fst (numbered P mds) = Suc n # map (\<lambda>(n, md). Suc n) rest"
    using Cons nm by (simp add: numbered_plain [OF assms] case_prod_beta comp_def)
  have first: "client_expunge mds (Suc n) = a @ c" by (simp add: client_expunge_def 1)
  show ?thesis
  proof (cases rest)
    case Nil
    then have "filter P c = []" using 1(5) by (simp add: filter_enumerate_Nil)
    then show ?thesis using Nil num first 1 by (auto simp: filter_empty_conv filter_id_conv)
  next
    case (Cons x rest')
    obtain n2 m2 where x: "x = (n2, m2)" by fastforce
    from filter_enumerate_Cons [of P "Suc n" c n2 m2 rest'] 1(5) Cons x obtain b d where
      2: "c = b @ m2 # d" "P m2" "n2 = Suc n + length b" "rest' = filter (\<lambda>(n, md). P md) (enumerate (Suc n2) d)" by auto
    have later: "\<forall>k \<in> set (map (\<lambda>(n, md). Suc n) rest). length (a @ b) + 1 < k"
      using Cons x 1(4) 2(3,4) by (auto simp: in_set_enumerate_eq)
    from client_expunge_keeps [OF _ this, of "a @ c"] 2(1)
    have "m2 \<in> set (foldl client_expunge (a @ c) (map (\<lambda>(n, md). Suc n) rest))"
      by (auto simp: nth_append in_set_conv_nth)
    moreover have "length (filter P mds) \<noteq> 1" using 1 2 by simp
    ultimately show ?thesis using 2(2) num first by auto
  qed
qed

theorem imap_expunge_numbers_not_adjusted_witness:
  "length demo_mds = 2 \<and> (\<exists>md. md \<in> set (foldl client_expunge demo_mds (map fst (numbered (\<lambda>md. True) demo_mds))))"
proof -
  have "map md_message_id demo_mds = [MessageId 1001, MessageId 1003]"
    using arg_cong [OF demo_listing_ids, of "map fst"] by (simp add: comp_def)
  then have "length demo_mds = 2" by (metis length_map list.size(3,4) numeral_2_eq_2 add_0 plus_1_eq_Suc add.commute)
  then show ?thesis using imap_expunge_numbers_not_adjusted [of demo_mds "\<lambda>md. True"] by simp
qed

section \<open>The file system backend behind IMAP\<close>


lemma listing_on_store:
  assumes "ic_store ctx = maildir_store env" "on_store (st_get_mailbox_messages (ic_store ctx) i) w = (w1, Inr mds)"
    and disk: "disk_written (iw_store w)" "uuid_strict env" "fresh_ids env (iw_store w)" "\<And>fs. set (mv_ls env fs) = set fs"
  shows "ms_dirs (iw_store w1) = ms_dirs (iw_store w)" "no_targets env (map md_message_id (filter P mds)) (iw_store w1)"
proof -
  have l: "md_get_mailbox_messages env i (iw_store w) = (iw_store w1, Inr mds)"
    using on_store_world [OF assms(2)] assms(1) by (simp add: maildir_store_def)
  note t = listing_not_target [OF l disk(1,2,4)]
  have "fresh_ids env (iw_store w1)" using disk(3) t(1) by (simp add: fresh_ids_def disk_files_def)
  then show "no_targets env (map md_message_id (filter P mds)) (iw_store w1)"
    by (rule fresh_no_targets) (use t(2) in \<open>simp add: list_all_iff\<close>)
  show "ms_dirs (iw_store w1) = ms_dirs (iw_store w)" by (rule t(1))
qed

lemma expunge_keeps_files:
  assumes "ic_store ctx = maildir_store env" "no_targets env (map md_message_id (filter P mds)) (iw_store w)"
  shows "ms_dirs (iw_store (fst (expunge_messages ctx i (numbered P mds) completion w))) = ms_dirs (iw_store w)"
  using delete_none [OF assms(2)] assms(1)
  by (auto simp: expunge_messages_def numbered_ids sbind_def on_store_def publish_all_registry maildir_store_def
      split: sum.splits prod.splits)

lemma apply_flags_keeps_files:
  assumes "ic_store ctx = maildir_store env" "no_targets env ids (iw_store w)" "\<And>fs. set (mv_ls env fs) = set fs"
  shows "ms_dirs (iw_store (fst (apply_flags ctx mode ids fl w))) = ms_dirs (iw_store w)"
  using set_flags_none [OF assms(2,3)] assms(1)
  by (cases mode) (simp_all add: apply_flags_def on_store_def maildir_store_def case_prod_beta)

lemma uid_change_keeps_files:
  assumes "ic_store ctx = maildir_store env"
    and disk: "disk_written (iw_store w)" "uuid_strict env" "fresh_ids env (iw_store w)" "\<And>fs. set (mv_ls env fs) = set fs"
    and f: "\<And>uids mds w1. \<lbrakk>\<And>P. no_targets env (map md_message_id (filter P mds)) (iw_store w1)\<rbrakk> \<Longrightarrow>
      ms_dirs (iw_store (fst (f uids mds w1))) = ms_dirs (iw_store w1)"
  shows "ms_dirs (iw_store (fst (with_uids ctx i sequence f w))) = ms_dirs (iw_store w)"
proof -
  obtain w1 l where l: "on_store (st_get_mailbox_messages (ic_store ctx) i) w = (w1, l)" by fastforce
  show ?thesis
  proof (cases l)
    case (Inl e)
    have "ms_dirs (iw_store w1) = ms_dirs (iw_store w)"
      using on_store_world [OF l] assms(1) Inl
      by (auto simp: maildir_store_def md_get_mailbox_messages_def sbind_def io_check_def case_prod_beta split: option.splits)
    then show ?thesis using l Inl by (simp add: with_uids_def sbind_def)
  next
    case (Inr mds)
    note t = listing_on_store [OF assms(1) l [unfolded Inr] disk]
    show ?thesis using f [OF t(2), of "projr (parse_uid_sequence_set sequence mds)"] t(1) l Inr
      by (cases "parse_uid_sequence_set sequence mds") (simp_all add: with_uids_def sbind_def)
  qed
qed

text \<open>C24: With the file system backend, no message can be deleted and no flag set through IMAP: on a disk that deliveries
  have written, STORE, UID STORE, EXPUNGE and UID EXPUNGE leave every file of every mailbox as it is,
  whatever they answer.\<close>

theorem imap_maildir_keeps_files:
  assumes "ic_store ctx = maildir_store env"
    and disk: "disk_written (iw_store w)" "uuid_strict env" "fresh_ids env (iw_store w)" "\<And>fs. set (mv_ls env fs) = set fs"
    and "cmd \<in> {IExpunge, IStore sequence mode flags, IUid (UidStore sequence mode flags), IUid (UidExpunge sequence)}"
  shows "ms_dirs (iw_store (fst (imap_handle_command ctx sn tag cmd w))) = ms_dirs (iw_store w)"
proof -
  have expunge: "ms_dirs (iw_store (fst (handle_expunge ctx sn tag w))) = ms_dirs (iw_store w)"
  proof (cases "im_state sn")
    case (Selected i)
    obtain w1 l where l: "on_store (st_get_mailbox_messages (ic_store ctx) i) w = (w1, l)" by fastforce
    show ?thesis
    proof (cases l)
      case (Inl e)
      have "with_uids ctx i [] (\<lambda>uids mds w. (w, Inl e)) w = (w1, Inl e)" using l Inl by (simp add: with_uids_def sbind_def)
      with uid_change_keeps_files [OF assms(1) disk, of "\<lambda>uids mds w. (w, Inl e)" i "[]"]
      show ?thesis using l Inl Selected by (simp add: handle_expunge_def with_selected_def sbind_def)
    next
      case (Inr mds)
      note t = listing_on_store [OF assms(1) l [unfolded Inr] disk]
      show ?thesis using expunge_keeps_files [OF assms(1) t(2)] t(1) l Inr Selected
        by (simp add: handle_expunge_def with_selected_def sbind_def)
    qed
  qed (simp_all add: handle_expunge_def with_selected_def)
  have store: "ms_dirs (iw_store (fst (handle_uid_store ctx sn tag sequence mode flags w))) = ms_dirs (iw_store w)"
    by (cases "im_state sn")
      (auto simp: handle_uid_store_def with_selected_def Let_def sbind_def case_prod_beta publish_all_registry
        apply_flags_keeps_files [OF assms(1) _ disk(4)] split: sum.splits intro!: uid_change_keeps_files [OF assms(1) disk])
  have uid_expunge: "ms_dirs (iw_store (fst (handle_uid_expunge ctx sn tag sequence w))) = ms_dirs (iw_store w)"
    by (cases "im_state sn")
      (auto simp: handle_uid_expunge_def with_selected_def expunge_keeps_files [OF assms(1)] intro!: uid_change_keeps_files [OF assms(1) disk])
  have kept: "fst (keep_session sn f w) = fst (f w)" for f
    by (simp add: keep_session_def sbind_def split: prod.splits sum.splits)
  show ?thesis
    using assms(6) expunge store uid_expunge
    by (auto simp: kept handle_uid_def with_selected_def handle_store_def parse_sequence_set_def split: imap_state.splits)
qed

theorem imap_maildir_keeps_files_witness:
  "snd (imap_handle_command demo_maildir_ctx (demo_selected_session 1) ''a2'' IExpunge demo_selected_world) =
     Inr (demo_selected_session 1, untagged_block [''* 2 EXPUNGE''] ''a2 OK EXPUNGE completed'') \<and>
   ms_dirs (iw_store (fst (imap_handle_command demo_maildir_ctx (demo_selected_session 1) ''a2'' IExpunge demo_selected_world))) =
     ms_dirs (iw_store demo_selected_world)"
proof -
  have files: "disk_files (iw_store demo_selected_world) = {CRLF @ ''hi'', CRLF @ ''ho''}"
    by (auto simp: disk_files_def demo_selected_world_def empty_maildir_def)
  have plain: "CRLF @ ''hi'' = message_file [] ''hi''" "CRLF @ ''ho'' = message_file [] ''ho''" by (simp_all add: message_file_def)
  have "disk_written (iw_store demo_selected_world)" unfolding disk_written_def files using plain
    by (metis insertE empty_iff list.pred_inject(1))
  moreover have "stored_id demo_maildir_env (CRLF @ ''hi'') = None" "stored_id demo_maildir_env (CRLF @ ''ho'') = None" by code_simp+
  then have "fresh_ids demo_maildir_env (iw_store demo_selected_world)" unfolding fresh_ids_def files by auto
  moreover have "uuid_strict demo_maildir_env" by (simp add: uuid_strict_def demo_maildir_env_def is_ascii_digit_def)
  moreover have "set (mv_ls demo_maildir_env fs) = set fs" for fs by (simp add: demo_maildir_env_def)
  moreover have "ic_store demo_maildir_ctx = maildir_store demo_maildir_env" by (simp add: demo_imap_ctx_def)
  moreover have "snd (imap_handle_command demo_maildir_ctx (demo_selected_session 1) ''a2'' IExpunge demo_selected_world) =
     Inr (demo_selected_session 1, untagged_block [''* 2 EXPUNGE''] ''a2 OK EXPUNGE completed'')" by code_simp
  ultimately show ?thesis
    using imap_maildir_keeps_files [where cmd = IExpunge and sequence = "[]" and mode = StoreAdd and flags = "[]"] by blast
qed

end
