(* ===== verification/Imap_Texts.thy ===== *)
theory Imap_Texts
  imports Imap_Server Maildir_Facts
begin

text \<open>
  Properties of what IMAP clients write and read: mailbox patterns, message sets, literals, the printed
  form of commands and of responses.
\<close>

section \<open>Mailbox patterns\<close>

text \<open>The names a pattern stands for (RFC 3501, 6.3.8): a star any characters, a percent sign any but the
  hierarchy delimiter, another character itself.\<close>

fun pattern_piece :: "string \<Rightarrow> string list set" where
  "pattern_piece p = (if p = ''*'' then UNIV else if p = ''%'' then {u. ''/'' \<notin> set u} else {[p]})"

fun pattern_names :: "string list \<Rightarrow> string list set" where
  "pattern_names [] = {[]}"
| "pattern_names (p # ps) = {u @ v | u v. u \<in> pattern_piece p \<and> v \<in> pattern_names ps}"

lemma splits_iff: "(\<exists>u v. name = u @ v \<and> Q u \<and> R v) \<longleftrightarrow> (\<exists>i < Suc (length name). Q (take i name) \<and> R (drop i name))"
proof
  assume "\<exists>u v. name = u @ v \<and> Q u \<and> R v"
  then obtain u v where "name = u @ v" "Q u" "R v" by blast
  then show "\<exists>i < Suc (length name). Q (take i name) \<and> R (drop i name)" by (intro exI [of _ "length u"]) auto
next
  assume "\<exists>i < Suc (length name). Q (take i name) \<and> R (drop i name)"
  then obtain i where "Q (take i name)" "R (drop i name)" by blast
  then show "\<exists>u v. name = u @ v \<and> Q u \<and> R v" by (metis append_take_drop_id)
qed

lemma pattern_names_Cons:
  "name \<in> pattern_names (p # ps) \<longleftrightarrow> (\<exists>u v. name = u @ v \<and> u \<in> pattern_piece p \<and> v \<in> pattern_names ps)"
  by auto

lemma match_pattern_names:
  "match_pattern name pat \<longleftrightarrow> name \<in> pattern_names pat"
  "match_pattern_loop name pat \<longleftrightarrow> name \<in> pattern_names pat"
proof (induction name pat and name pat rule: match_pattern_match_pattern_loop.induct)
  case (1 name pat)
  then show ?case by auto
next
  case (2 name)
  then show ?case by simp
next
  case (3 name p ps)
  consider (star) "p = ''*''" | (percent) "p = ''%''" | (literal) "p \<noteq> ''*''" "p \<noteq> ''%''" by blast
  then show ?case
  proof cases
    case star
    have "name \<in> pattern_names (p # ps) \<longleftrightarrow> (\<exists>i < Suc (length name). drop i name \<in> pattern_names ps)"
      unfolding pattern_names_Cons using star splits_iff [of name "\<lambda>u. True"] by simp
    also have "\<dots> \<longleftrightarrow> match_pattern_loop name (p # ps)"
      using 3(1) [OF star] star by (cases "ps = []") (auto simp: list_ex_iff simp del: match_pattern.simps upt_Suc)
    finally show ?thesis by blast
  next
    case percent
    have "name \<in> pattern_names (p # ps) \<longleftrightarrow>
        (\<exists>i < Suc (length name). ''/'' \<notin> set (take i name) \<and> drop i name \<in> pattern_names ps)"
      unfolding pattern_names_Cons using percent splits_iff [of name "\<lambda>u. ''/'' \<notin> set u"] by simp
    also have "\<dots> \<longleftrightarrow> match_pattern_loop name (p # ps)"
      using 3(2) percent by (cases "ps = []") (auto simp: list_ex_iff simp del: match_pattern.simps upt_Suc)
    finally show ?thesis by blast
  next
    case literal
    then show ?thesis using 3(3) [OF literal] by (cases name) auto
  qed
qed

text \<open>LSUB with a pattern lists exactly the subscribed names that the pattern stands for.\<close>

theorem lsub_pattern_exact:
  "lsub_matches pat name \<longleftrightarrow> utf8_chars name \<in> pattern_names (utf8_chars pat)"
proof -
  have "utf8_chars name \<in> pattern_names (utf8_chars pat)" if "pat = ''*''"
    using that by (simp add: utf8_chars_ascii_Cons)
  moreover have "name = pat \<longleftrightarrow> utf8_chars name \<in> pattern_names (utf8_chars pat)"
    if plain: "CHR ''*'' \<notin> set pat" "CHR ''%'' \<notin> set pat"
  proof -
    have "pattern_names chs = {chs}" if "''*'' \<notin> set chs" "''%'' \<notin> set chs" for chs
      using that by (induction chs) auto
    moreover have "''*'' \<notin> set (utf8_chars pat)" "''%'' \<notin> set (utf8_chars pat)"
      using plain concat_utf8_chars [of pat] by (metis UN_I list.set_intros(1) set_concat)+
    ultimately show ?thesis by (metis concat_utf8_chars singletonD singletonI)
  qed
  ultimately show ?thesis by (auto simp: lsub_matches_def match_mailbox_pattern_def match_pattern_names(1) simp del: match_pattern.simps)
qed

section \<open>Message sets\<close>

datatype set_item = SetOne nat | SetRange nat nat | SetFrom nat | SetLast

fun show_item :: "set_item \<Rightarrow> string" where
  "show_item (SetOne n) = show_nat n"
| "show_item (SetRange a b) = show_nat a @ '':'' @ show_nat b"
| "show_item (SetFrom a) = show_nat a @ '':*''"
| "show_item SetLast = ''*''"

fun item_bounded :: "nat \<Rightarrow> set_item \<Rightarrow> bool" where
  "item_bounded m (SetOne n) = (n \<le> m)"
| "item_bounded m (SetRange a b) = (a \<le> m \<and> b \<le> m)"
| "item_bounded m (SetFrom a) = (a \<le> m)"
| "item_bounded m SetLast = True"

text \<open>The numbers an item selects among \<open>mx\<close> messages, and the UIDs when \<open>mx\<close> is the largest one.  A range whose bounds are in
  descending order selects nothing, where RFC 3501 lets the order of the bounds be free.\<close>

fun item_numbers :: "nat \<Rightarrow> set_item \<Rightarrow> nat set" where
  "item_numbers mx (SetOne n) = (if 0 < n \<and> n \<le> mx then {n} else {})"
| "item_numbers mx (SetRange a b) = {a..min b mx}"
| "item_numbers mx (SetFrom a) = {a..mx}"
| "item_numbers mx SetLast = (if 0 < mx then {mx} else {})"

fun item_uids :: "nat \<Rightarrow> set_item \<Rightarrow> nat set" where
  "item_uids mx (SetOne n) = {n}"
| "item_uids mx (SetRange a b) = {a..b}"
| "item_uids mx (SetFrom a) = {a..mx}"
| "item_uids mx SetLast = {mx}"

definition show_items :: "set_item list \<Rightarrow> string" where
  "show_items items = str_join '','' (map show_item items)"

lemma digits_no_sep: "c \<in> {CHR '','', CHR '':'', CHR ''*'', CHR ''+''} \<Longrightarrow> c \<notin> set (show_nat n)"
  using show_nat_digits [of n] by (auto simp: list_all_iff is_ascii_digit_def)

lemma split_join:
  assumes "ps \<noteq> []" "\<forall>p \<in> set ps. d \<notin> set p"
  shows "split_on d (str_join [d] ps) = ps"
  using assms
proof (induction ps)
  case (Cons p ps)
  show ?case
  proof (cases ps)
    case Nil
    then show ?thesis using Cons.prems by (simp add: str_join_def split_on_no_sep)
  next
    case (Cons q qs)
    then have "str_join [d] (p # ps) = p @ d # str_join [d] ps" by (simp add: str_join_def)
    then show ?thesis using Cons.IH Cons.prems Cons by (simp add: split_on_append_sep)
  qed
qed simp

lemma show_item_no_comma: "CHR '','' \<notin> set (show_item it)"
  by (cases it) (auto simp: digits_no_sep)

lemma split_show_items: "items \<noteq> [] \<Longrightarrow> split_on (CHR '','') (show_items items) = map show_item items"
  unfolding show_items_def by (rule split_join) (auto simp: show_item_no_comma)

lemma show_item_trim: "trim (show_item it) = show_item it"
proof (rule trim_graphic)
  have d: "is_graphic (hd (show_nat n))" "is_graphic (last (show_nat n))" for n
    using digits_graphic [OF show_nat_digits [of n]] by (auto simp: list_all_iff)
  show "show_item it \<noteq> []" by (cases it) auto
  show "is_graphic (hd (show_item it))" "is_graphic (last (show_item it))"
    using d by (cases it; simp add: is_graphic_def hd_append)+
qed

lemmas show_item_trims [simp] = show_item_trim [of "SetOne n" for n, simplified] show_item_trim [of "SetRange a b" for a b, simplified]
  show_item_trim [of "SetFrom a" for a, simplified] show_item_trim [of SetLast, simplified]

lemma split_colon [simp]:
  "split_on (CHR '':'') (show_nat a @ CHR '':'' # show_nat b) = [show_nat a, show_nat b]"
  "split_on (CHR '':'') (show_nat a @ '':*'') = [show_nat a, ''*'']"
  using split_on_append_sep [of "CHR '':''" "show_nat a"] by (simp_all add: digits_no_sep split_on_no_sep)

lemma show_nat_not_star [simp]: "show_nat n \<noteq> ''*''"
  using digits_no_sep [of "CHR ''*''" n] by auto

lemma set_add_numbers [simp]: "set (add_numbers acc ns) = set acc \<union> set ns"
  unfolding add_numbers_def by (induction ns arbitrary: acc) auto

lemma distinct_add_numbers: "distinct acc \<Longrightarrow> distinct (add_numbers acc ns)"
  unfolding add_numbers_def by (induction ns arbitrary: acc) auto

lemma sequence_part_set:
  assumes "item_bounded usize_max it" shows "set (sequence_part mx acc (show_item it)) = set acc \<union> item_numbers mx it"
  using assms by (cases it) (auto simp: sequence_part_def Let_def parse_uint_show_nat digits_no_sep simp del: upt_Suc)

lemma distinct_sequence_part: "distinct acc \<Longrightarrow> distinct (sequence_part mx acc raw)"
  by (auto simp: sequence_part_def Let_def distinct_add_numbers split: list.splits option.splits)

lemma sequence_parts:
  assumes "list_all (item_bounded usize_max) items" "distinct acc"
  shows "set (foldl (sequence_part mx) acc (map show_item items)) = set acc \<union> (\<Union>it \<in> set items. item_numbers mx it)"
    and "distinct (foldl (sequence_part mx) acc (map show_item items))"
  using assms by (induction items arbitrary: acc) (auto simp: sequence_part_set distinct_sequence_part)

text \<open>FETCH selects exactly the messages its sequence set names: the numbers of the printed set that exist, each
  once and in ascending order.\<close>

theorem sequence_numbers_exact:
  assumes "items \<noteq> []" "list_all (item_bounded usize_max) items"
  shows "parse_sequence_numbers (show_items items) mx = Inr (sorted_list_of_set (\<Union>it \<in> set items. item_numbers mx it))"
proof -
  note parts = sequence_parts [OF assms(2), of "[]" mx, simplified]
  show ?thesis unfolding parse_sequence_numbers_def split_show_items [OF assms(1)]
    using parts sorted_list_of_set_sort_remdups [of "foldl (sequence_part mx) [] (map show_item items)"]
    by (simp add: distinct_remdups_id)
qed

theorem sequence_numbers_exact_witness:
  "parse_sequence_numbers ''4,1:2,5:*'' 6 = Inr [1, 2, 4, 5, 6]"
proof -
  have s: "show_items [SetOne 4, SetRange 1 2, SetFrom 5] = ''4,1:2,5:*''" by code_simp
  have set: "(\<Union>it \<in> set [SetOne 4, SetRange 1 2, SetFrom 5]. item_numbers 6 it) = {1, 2, 4, 5, 6}" by auto
  have "sorted_list_of_set {1, 2, 4, 5, 6 :: nat} = [1, 2, 4, 5, 6]" by (simp add: sorted_list_of_set_nonempty)
  then show ?thesis
    using sequence_numbers_exact [of "[SetOne 4, SetRange 1 2, SetFrom 5]" 6]
    by (simp add: s [simplified] set [simplified] usize_max_def)
qed

lemma uid_bound_show [simp]: "n \<le> u32_max \<Longrightarrow> uid_bound mx (show_nat n) = Inr n" "uid_bound mx ''*'' = Inr mx"
  by (simp_all add: uid_bound_def parse_uint_show_nat)

lemma uid_parts_set:
  assumes "list_all (item_bounded u32_max) items"
  shows "\<exists>uids. uid_parts mx (map show_item items) acc = Inr uids \<and> set uids = set acc \<union> (\<Union>it \<in> set items. item_uids mx it)"
  using assms
proof (induction items arbitrary: acc)
  case (Cons it items)
  have "\<exists>new. uid_parts mx (map show_item (it # items)) acc = uid_parts mx (map show_item items) (acc @ new) \<and> set new = item_uids mx it"
    using Cons.prems by (cases it) (auto simp: Let_def digits_no_sep simp del: upt_Suc)
  then obtain new where new: "uid_parts mx (map show_item (it # items)) acc = uid_parts mx (map show_item items) (acc @ new)"
    "set new = item_uids mx it" by blast
  from Cons.IH [of "acc @ new"] Cons.prems show ?case unfolding new(1) using new(2) by auto
qed simp

text \<open>The UID commands select exactly the UIDs their set names, with a star for the largest UID of the mailbox.\<close>

theorem uid_set_exact:
  assumes "items \<noteq> []" "list_all (item_bounded u32_max) items"
  shows "\<exists>uids. parse_uid_sequence_set (show_items items) mds = Inr uids \<and>
    set uids = (\<Union>it \<in> set items. item_uids (Max (insert 0 (md_uid ` set mds))) it)"
proof -
  have "foldl max m xs = fold max xs m" for m :: nat and xs
    by (induction xs arbitrary: m) (simp_all add: max.commute)
  then have "foldl max m xs = Max (insert m (set xs))" for m :: nat and xs
    using Max.set_eq_fold [of m xs] by simp
  then have "foldl max 0 (map md_uid mds) = Max (insert 0 (md_uid ` set mds))" by simp
  then show ?thesis
    using uid_parts_set [OF assms(2), of _ "[]"] by (simp add: parse_uid_sequence_set_def split_show_items [OF assms(1)])
qed

theorem uid_set_exact_witness:
  "\<exists>uids. parse_uid_sequence_set ''2,7:*'' [MessageMetadata_new (MessageId 1) (MailboxId 1) 9 MessageFlags_new 5 None] = Inr uids \<and>
     set uids = {2, 7, 8, 9}"
proof -
  have s: "show_items [SetOne 2, SetFrom 7] = ''2,7:*''" by code_simp
  have "{7..9} = {7, 8, 9 :: nat}" by auto
  then show ?thesis
    using uid_set_exact [of "[SetOne 2, SetFrom 7]" "[MessageMetadata_new (MessageId 1) (MailboxId 1) 9 MessageFlags_new 5 None]"]
    by (simp add: s u32_max_def MessageMetadata_new_def insert_commute)
qed

section \<open>Literals\<close>

lemma find_char_first: "d \<notin> set a \<Longrightarrow> find_char d (a @ d # b) = Some (length a)"
  by (induction a) auto

lemma show_nat_no_brace: "c \<in> {CHR ''{'', CHR ''}'', CHR ''+'', CHR ''-''} \<Longrightarrow> c \<notin> set (show_nat n)"
  using show_nat_digits [of n] by (auto simp: list_all_iff is_ascii_digit_def)

lemma show_nat_starts: "\<not> starts_with (show_nat n @ r) ''+''" "\<not> starts_with (show_nat n @ r) ''-''"
  using show_nat_no_brace [of "CHR ''+''" n] show_nat_no_brace [of "CHR ''-''" n] show_nat_not_Nil [of n]
  by (cases "show_nat n"; auto)+

lemma literal_size_text:
  assumes "CHR ''{'' \<notin> set t" "CHR ''}'' \<notin> set t"
  shows "rfind (CHR ''{'') (line @ ''{'' @ t @ ''}'') = Some (length line)"
    and "find_char (CHR ''}'') (drop (length line) (line @ ''{'' @ t @ ''}'')) = Some (Suc (length t))"
  using rfind_append [of "CHR ''{''" "t @ ''}''" line] find_char_first [of "CHR ''}''" t "[]"] assms by simp_all

text \<open>The literal at the end of a command line is recognised with its size and kind, up to the largest size of
  the machine: \<^verbatim>\<open>{n}\<close> waits for the server, \<^verbatim>\<open>{n+}\<close> does not.\<close>

theorem imap_literal_recognised:
  assumes "n \<le> usize_max"
  shows "has_literal (line @ ''{'' @ show_nat n @ ''}'') = Some (n, Synchronizing)"
    and "has_literal (line @ ''{'' @ show_nat n @ ''+}'') = Some (n, NonSynchronizing)"
proof -
  have no: "c \<notin> set (show_nat n)" if "c \<in> {CHR ''{'', CHR ''}'', CHR ''+'', CHR ''-''}" for c
    using that by (rule show_nat_no_brace)
  have "strip_suffix ''+'' (show_nat n) = None"
    using no [of "CHR ''+''"] by (auto simp: strip_suffix_def ends_with_iff)
  then show "has_literal (line @ ''{'' @ show_nat n @ ''}'') = Some (n, Synchronizing)"
    using literal_size_text [of "show_nat n" line] no show_nat_starts [of n "[]"] assms
    by (simp add: has_literal_def Let_def parse_uint_show_nat)
  have "strip_suffix ''+'' (show_nat n @ ''+'') = Some (show_nat n)"
    by (auto simp: strip_suffix_def ends_with_iff)
  then show "has_literal (line @ ''{'' @ show_nat n @ ''+}'') = Some (n, NonSynchronizing)"
    using literal_size_text [of "show_nat n @ ''+''" line] no show_nat_starts [of n "''+''"] assms
    by (simp add: has_literal_def Let_def parse_uint_show_nat)
qed

theorem imap_literal_recognised_witness:
  "has_literal ''A1 APPEND INBOX {310}'' = Some (310, Synchronizing) \<and> has_literal ''A1 APPEND INBOX {310+}'' = Some (310, NonSynchronizing)"
proof -
  have n: "show_nat 310 = ''310''" by code_simp
  show ?thesis using imap_literal_recognised [of 310 "''A1 APPEND INBOX ''"] by (simp add: n usize_max_def)
qed

text \<open>Whatever command a line with a literal carries, it is handled as APPEND, because the parser for such lines
  does not look at the command word: a LOGIN, SELECT or SEARCH whose argument is a literal appends its bytes to a
  mailbox instead.\<close>

theorem imap_literal_is_append:
  assumes "has_literal (trim line) = Some (n, ty)" "read_command ctx net line input = (out, Inr (tag, command))"
  shows "\<exists>mb flags date_time. command = IAppend mb flags date_time (take n input)"
proof -
  have "handle_literal_command net (trim line) n input = Inr (tag, command)"
    using assms by (auto simp: read_command_def Let_def map_err_def split: sum.splits)
  then have "parse_append_command (trim line) (take n input) = Inr (tag, command)"
    by (auto simp: handle_literal_command_def map_err_def split: sum.splits if_splits)
  then show ?thesis
    by (auto simp: parse_append_command_def rbind_Inr_iff split: list.splits)
qed

theorem imap_literal_is_append_witness:
  "\<exists>tag mb flags date_time. read_command (demo_imap_ctx (maildir_store demo_maildir_env)) demo_imap_net ''a1 LOGIN alice {2}'' (''pw'' @ CRLF) =
     ([''+ Ready for literal data'' @ CRLF], Inr (tag, IAppend mb flags date_time ''pw''))"
proof -
  let ?r = "read_command (demo_imap_ctx (maildir_store demo_maildir_env)) demo_imap_net ''a1 LOGIN alice {2}'' (''pw'' @ CRLF)"
  have lit: "has_literal (trim ''a1 LOGIN alice {2}'') = Some (2, Synchronizing)" by code_simp
  have "\<not> isl (snd ?r)" "fst ?r = [''+ Ready for literal data'' @ CRLF]" by code_simp+
  then obtain tag cmd where r: "?r = ([''+ Ready for literal data'' @ CRLF], Inr (tag, cmd))"
    by (cases ?r; cases "snd ?r") auto
  with imap_literal_is_append [OF lit r] show ?thesis by auto
qed

end
