(* ===== verification/Imap_Roundtrip.thy ===== *)
theory Imap_Roundtrip
  imports Imap_Protocol
begin

text \<open>
  The printed form of IMAP commands, as a client writes them, and that the parser reads it back.
\<close>

section \<open>Printing\<close>

definition print_words :: "string list \<Rightarrow> string" where
  "print_words ws = str_join '' '' ws"

fun print_mode :: "store_mode \<Rightarrow> string" where
  "print_mode StoreReplace = ''FLAGS''"
| "print_mode StoreAdd = ''+FLAGS''"
| "print_mode StoreRemove = ''-FLAGS''"

fun print_uid :: "uid_subcommand \<Rightarrow> string" where
  "print_uid (UidFetch s items) = ''FETCH '' @ s @ '' '' @ print_words items"
| "print_uid (UidStore s mode flags) = ''STORE '' @ s @ '' '' @ print_mode mode @ '' ('' @ print_words flags @ '')''"
| "print_uid (UidSearch cs) = ''SEARCH '' @ print_words cs"
| "print_uid (UidCopy s mb) = ''COPY '' @ s @ '' '' @ mb"
| "print_uid (UidMove s mb) = ''MOVE '' @ s @ '' '' @ mb"
| "print_uid (UidExpunge s) = ''EXPUNGE '' @ s"

fun imap_print :: "imap_command \<Rightarrow> string" where
  "imap_print (ILogin u p) = ''LOGIN '' @ u @ '' '' @ p"
| "imap_print (ISelect mb) = ''SELECT '' @ mb"
| "imap_print (IExamine mb) = ''EXAMINE '' @ mb"
| "imap_print (IFetch s items) = ''FETCH '' @ s @ '' '' @ print_words items"
| "imap_print (IStore s mode flags) = ''STORE '' @ s @ '' '' @ print_mode mode @ '' ('' @ print_words flags @ '')''"
| "imap_print (ISearch cs) = ''SEARCH '' @ print_words cs"
| "imap_print (IList r mb) = ''LIST '' @ r @ '' '' @ mb"
| "imap_print (ILsub r mb) = ''LSUB '' @ r @ '' '' @ mb"
| "imap_print (ISubscribe mb) = ''SUBSCRIBE '' @ mb"
| "imap_print (IUnsubscribe mb) = ''UNSUBSCRIBE '' @ mb"
| "imap_print (ICreate mb) = ''CREATE '' @ mb"
| "imap_print (ICreateSpecialUse mb su) = ''CREATE-SPECIAL-USE '' @ mb @ '' '' @ su"
| "imap_print (IDelete mb) = ''DELETE '' @ mb"
| "imap_print (IRename old new) = ''RENAME '' @ old @ '' '' @ new"
| "imap_print (IAppend mb flags d literal) = ''APPEND '' @ mb"
| "imap_print (ICopy s mb) = ''COPY '' @ s @ '' '' @ mb"
| "imap_print (IMove s mb) = ''MOVE '' @ s @ '' '' @ mb"
| "imap_print IExpunge = ''EXPUNGE''"
| "imap_print IClose = ''CLOSE''"
| "imap_print ICapability = ''CAPABILITY''"
| "imap_print ILogout = ''LOGOUT''"
| "imap_print INoop = ''NOOP''"
| "imap_print IIdle = ''IDLE''"
| "imap_print INamespace = ''NAMESPACE''"
| "imap_print (IAuthenticate m None) = ''AUTHENTICATE '' @ m"
| "imap_print (IAuthenticate m (Some ir)) = ''AUTHENTICATE '' @ m @ '' '' @ ir"
| "imap_print (ICompress m) = ''COMPRESS '' @ m"
| "imap_print (IUid sub) = ''UID '' @ print_uid sub"

text \<open>A word, and an argument that runs to the end of the line.\<close>

definition print_word :: "string \<Rightarrow> bool" where
  "print_word w \<longleftrightarrow> w \<noteq> [] \<and> list_all is_graphic w"

definition print_rest :: "string \<Rightarrow> bool" where
  "print_rest s \<longleftrightarrow> s \<noteq> [] \<and> is_graphic (hd s) \<and> is_graphic (last s)"

definition unquoted :: "string \<Rightarrow> bool" where
  "unquoted s \<longleftrightarrow> s = [] \<or> hd s \<noteq> CHR 0x22 \<and> last s \<noteq> CHR 0x22"

definition word_list :: "string list \<Rightarrow> bool" where
  "word_list ws \<longleftrightarrow> ws \<noteq> [] \<and> list_all print_word ws"

fun printable_uid :: "uid_subcommand \<Rightarrow> bool" where
  "printable_uid (UidFetch s items) = (print_word s \<and> word_list items)"
| "printable_uid (UidStore s mode flags) = (print_word s \<and> word_list flags)"
| "printable_uid (UidSearch cs) = word_list cs"
| "printable_uid (UidCopy s mb) = (print_word s \<and> print_rest mb \<and> unquoted mb)"
| "printable_uid (UidMove s mb) = (print_word s \<and> print_rest mb \<and> unquoted mb)"
| "printable_uid (UidExpunge s) = print_rest s"

fun printable_imap :: "(string \<Rightarrow> string) \<Rightarrow> imap_command \<Rightarrow> bool" where
  "printable_imap uc (ILogin u p) = (print_word u \<and> print_word p)"
| "printable_imap uc (ISelect mb) = print_word mb"
| "printable_imap uc (IExamine mb) = print_word mb"
| "printable_imap uc (IFetch s items) = (print_word s \<and> word_list items)"
| "printable_imap uc (IStore s mode flags) = (print_word s \<and> word_list flags)"
| "printable_imap uc (ISearch cs) = word_list cs"
| "printable_imap uc (IList r mb) = (print_word r \<and> print_word mb)"
| "printable_imap uc (ILsub r mb) = (print_word r \<and> print_word mb)"
| "printable_imap uc (ISubscribe mb) = print_rest mb"
| "printable_imap uc (IUnsubscribe mb) = print_rest mb"
| "printable_imap uc (ICreate mb) = print_rest mb"
| "printable_imap uc (ICreateSpecialUse mb su) = (print_word mb \<and> print_rest su)"
| "printable_imap uc (IDelete mb) = print_rest mb"
| "printable_imap uc (IRename old new) = (print_word old \<and> unquoted old \<and> print_rest new \<and> unquoted new)"
| "printable_imap uc (IAppend mb flags d literal) = False"
| "printable_imap uc (ICopy s mb) = (print_word s \<and> print_rest mb \<and> unquoted mb)"
| "printable_imap uc (IMove s mb) = (print_word s \<and> print_rest mb \<and> unquoted mb)"
| "printable_imap uc (IAuthenticate m ir) =
     (print_word m \<and> uc m = m \<and> (case ir of None \<Rightarrow> True | Some r \<Rightarrow> print_rest r))"
| "printable_imap uc (ICompress m) = (print_word m \<and> uc m = m)"
| "printable_imap uc (IUid sub) = printable_uid sub"
| "printable_imap uc _ = True"

section \<open>Arguments\<close>

lemma print_rest_trim: "print_rest s \<Longrightarrow> trim s = s"
  by (simp add: print_rest_def trim_graphic)

lemma print_word_rest: "print_word w \<Longrightarrow> print_rest w"
  by (auto simp: print_word_def print_rest_def list_all_iff)

lemma unquoted_trim: "unquoted s \<Longrightarrow> trim_quotes s = s"
proof (cases "s = []")
  case False
  assume "unquoted s"
  with False have "hd s \<noteq> CHR 0x22" "hd (rev s) \<noteq> CHR 0x22" by (auto simp: unquoted_def hd_rev)
  then have "dropWhile (\<lambda>c. c = CHR 0x22) s = s" "dropWhile (\<lambda>c. c = CHR 0x22) (rev s) = rev s"
    by (cases s; cases "rev s"; simp)+
  then show ?thesis by (simp add: trim_quotes_def)
qed (simp add: trim_quotes_def)

lemma split_print_words: "word_list ws \<Longrightarrow> split_whitespace (print_words ws) = ws"
  unfolding word_list_def print_words_def
proof (induction ws)
  case (Cons w ws)
  show ?case
  proof (cases ws)
    case Nil
    then show ?thesis using Cons.prems by (simp add: str_join_def print_word_def split_whitespace_word)
  next
    case (Cons v vs)
    then have "str_join '' '' (w # ws) = w @ CHR '' '' # str_join '' '' ws" by (simp add: str_join_def)
    then show ?thesis using Cons.IH Cons.prems Cons by (simp add: print_word_def split_whitespace_Cons)
  qed
qed simp

lemma print_words_rest: "word_list ws \<Longrightarrow> print_rest (print_words ws)"
  unfolding word_list_def print_words_def
proof (induction ws)
  case (Cons w ws)
  have w: "print_rest w" using Cons.prems by (simp add: print_word_rest)
  show ?case
  proof (cases ws)
    case (Cons v vs)
    then have "str_join '' '' (w # ws) = w @ CHR '' '' # str_join '' '' ws" by (simp add: str_join_def)
    then show ?thesis using Cons.IH Cons.prems Cons w by (simp add: print_rest_def)
  qed (use w in \<open>simp add: str_join_def\<close>)
qed simp

lemma parse_print_flags:
  assumes "word_list ws" shows "parse_flag_list (''('' @ print_words ws @ '')'') = ws"
proof -
  have "trim (''('' @ print_words ws @ '')'') = ''('' @ print_words ws @ '')''"
    by (rule trim_graphic) (simp_all add: is_graphic_def)
  then show ?thesis using split_print_words [OF assms] by (simp add: parse_flag_list_def Let_def ends_with_def)
qed

lemma parse_print_mode: "parse_store_mode (print_mode mode) = mode"
  by (cases mode) (simp_all add: parse_store_mode_def eq_ignore_ascii_case_def to_lower_def is_ascii_upper_def)

lemma print_mode_word: "print_word (print_mode mode)"
  by (cases mode) (simp_all add: print_word_def is_graphic_def)

text \<open>The command line after the tag is put together again.\<close>

lemma splitn2_cases:
  "splitn2 d s = [s] \<or> (\<exists>a b. splitn2 d s = [a, b] \<and> s = a @ d # b)"
  by (induction s) (auto split: list.splits)

lemma imap_parse_command_tag:
  assumes "CHR '' '' \<notin> set tag"
  shows "imap_parse_command N uc report (tag @ '' '' @ s) =
    (case parse_imap_command N uc s of None \<Rightarrow> Inl (report s) | Some (_, command) \<Rightarrow> Inr (tag, command))"
proof -
  have "splitn3 (CHR '' '') (tag @ '' '' @ s) = tag # splitn2 (CHR '' '') s"
    using splitn2_sep [OF assms, of s] by (simp add: splitn3_def)
  then show ?thesis using splitn2_cases [of "CHR '' ''" s] by (auto simp: imap_parse_command_def Let_def split: option.splits)
qed

section \<open>Dispatch\<close>

lemmas imap_groups = parse_imap_command_def parse_imap_command_group1_def parse_imap_command_group2_def

lemmas imap_parsers = parse_uid_def parse_login_def parse_authenticate_def parse_select_def parse_examine_def parse_fetch_def
  parse_store_def parse_search_def parse_list_def parse_lsub_def parse_subscribe_def parse_unsubscribe_def
  parse_create_special_use_def parse_create_def parse_delete_def parse_rename_def parse_copy_def parse_move_def
  parse_expunge_def parse_close_def parse_capability_def parse_logout_def parse_noop_def parse_idle_def
  parse_namespace_def parse_compress_def

definition imap_tags :: "string list" where
  "imap_tags =
     [''UID'', ''LOGIN'', ''AUTHENTICATE'', ''SELECT'', ''EXAMINE'', ''FETCH'', ''STORE'', ''SEARCH'', ''LIST'', ''LSUB'', ''SUBSCRIBE'',
      ''UNSUBSCRIBE'', ''CREATE-SPECIAL-USE'', ''CREATE'', ''DELETE'', ''RENAME'', ''COPY'', ''MOVE'', ''EXPUNGE'', ''CLOSE'', ''CAPABILITY'',
      ''LOGOUT'', ''NOOP'', ''IDLE'', ''NAMESPACE'', ''COMPRESS'']"

text \<open>A tag that differs from the start of the input.\<close>

definition tag_differs :: "string \<Rightarrow> string \<Rightarrow> bool" where
  "tag_differs t i \<longleftrightarrow> \<not> eq_ignore_ascii_case (take (length t) i) t"

lemma tags_plain: "list_all plain_tag imap_tags"
  by code_simp

fun word_differs :: "string \<Rightarrow> string \<Rightarrow> bool" where
  "word_differs (a # as) (b # bs) = (to_lower a \<noteq> to_lower b \<or> word_differs as bs)"
| "word_differs _ _ = False"

lemma word_differs_tag: "word_differs w t \<Longrightarrow> tag_differs t (w @ r)"
  by (induction w t rule: word_differs.induct) (auto simp: tag_differs_def eq_ignore_ascii_case_def)

context nom_laws
begin

lemma imap_tag: "t \<in> set imap_tags \<Longrightarrow> n_tag_no_case N t i = (if tag_differs t i then None else Some (drop (length t) i, take (length t) i))"
  using tags_plain tag_no_case [of t i] by (auto simp: list_all_iff ref_tag_no_case_def tag_differs_def)

lemma keyword_matches:
  assumes "t \<in> set imap_tags"
  shows "n_tag_no_case N t (t @ r) = Some (r, t)"
  using tags_plain assms by (intro tag_prefix) (auto simp: list_all_iff)

lemma keyword_arg:
  assumes "t \<in> set imap_tags" "print_rest s"
  shows "p_keyword N t p (t @ '' '' @ s) = p s"
proof -
  have "n_space1 N (CHR '' '' # s) = Some (s, '' '')"
    using assms(2) by (intro space1_blank) (auto simp: print_rest_def blank_def is_graphic_def)
  then show ?thesis using keyword_matches [OF assms(1), of "'' '' @ s"] by (simp add: p_keyword_def p_bind_def)
qed

lemma p_word_graphic:
  assumes "print_word w" "r = [] \<or> hd r = CHR '' ''"
  shows "p_word N (w @ r) = Some (r, w)"
proof -
  have blank: "is_whitespace '' ''" by (simp add: is_whitespace_def ws_seqs_def)
  show ?thesis unfolding p_word_def
    by (rule take_while1_ascii) (use assms blank graphic_not_whitespace graphic_ascii in \<open>auto simp: print_word_def list_all_iff\<close>)
qed

lemma word_then:
  assumes "print_word w" "print_rest s"
  shows "p_word_then N f (w @ '' '' @ s) = f w s"
proof -
  have "n_space1 N (CHR '' '' # s) = Some (s, '' '')"
    using assms(2) by (intro space1_blank) (auto simp: print_rest_def blank_def is_graphic_def)
  then show ?thesis using p_word_graphic [OF assms(1), of "'' '' @ s"] by (simp add: p_word_then_def p_bind_def)
qed

lemma word_last: "print_word w \<Longrightarrow> p_bind (p_word N) f w = f w []"
  using p_word_graphic [of w "[]"] by (simp add: p_bind_def)

lemma rest_last: "p_bind (n_rest N) f s = f s []"
  by (simp add: p_bind_def rest)

end

lemma p_alt_pick:
  assumes "k < length ps" "\<And>j. j < k \<Longrightarrow> (ps ! j) i = None" "(ps ! k) i = Some x"
  shows "p_alt ps i = Some x"
  using assms
proof (induction ps arbitrary: k)
  case (Cons p ps)
  show ?case
  proof (cases k)
    case (Suc k')
    then have "p i = None" using Cons.prems(2) [of 0] by simp
    then show ?thesis using Cons.IH [of k'] Cons.prems(1,3) Cons.prems(2) [of "Suc j" for j] Suc by simp
  qed (use Cons.prems in simp)
qed simp

text \<open>The alternatives in order, at the positions of their tags.\<close>

definition imap_alternatives :: "nom \<Rightarrow> (string \<Rightarrow> string) \<Rightarrow> imap_command parser list" where
  "imap_alternatives N uc =
     [parse_uid N, parse_login N, parse_authenticate N uc, parse_select N, parse_examine N, parse_fetch N,
      parse_store N, parse_search N, parse_list N, parse_lsub N, parse_subscribe N, parse_unsubscribe N,
      parse_create_special_use N, parse_create N, parse_delete N, parse_rename N, parse_copy N, parse_move N,
      parse_expunge N, parse_close N, parse_capability N, parse_logout N, parse_noop N, parse_idle N,
      parse_namespace N, parse_compress N uc]"

lemma parse_imap_command_alt: "parse_imap_command N uc i = p_alt (imap_alternatives N uc) i"
  by (simp add: imap_groups imap_alternatives_def split: option.splits)

definition first_tag :: "string list \<Rightarrow> string \<Rightarrow> nat \<Rightarrow> bool" where
  "first_tag ts w k \<longleftrightarrow> k < length ts \<and> list_all (word_differs w) (take k ts)"

definition uid_tags :: "string list" where
  "uid_tags = [''FETCH'', ''STORE'', ''SEARCH'', ''COPY'', ''MOVE'', ''EXPUNGE'']"

definition uid_alternatives :: "nom \<Rightarrow> uid_subcommand parser list" where
  "uid_alternatives N =
     [parse_uid_fetch N, parse_uid_store N, parse_uid_search N, parse_uid_copy N, parse_uid_move N, parse_uid_expunge N]"

lemmas uid_parsers = parse_uid_fetch_def parse_uid_store_def parse_uid_search_def parse_uid_copy_def parse_uid_move_def
  parse_uid_expunge_def

context nom_laws
begin

lemma alternatives_tags:
  "list_all2 (\<lambda>t p. \<forall>i. n_tag_no_case N t i = None \<longrightarrow> p i = None) imap_tags (imap_alternatives N uc)"
  "list_all2 (\<lambda>t p. \<forall>i. n_tag_no_case N t i = None \<longrightarrow> p i = None) uid_tags (uid_alternatives N)"
  by (simp_all add: imap_tags_def imap_alternatives_def imap_parsers uid_tags_def uid_alternatives_def uid_parsers p_keyword_def p_bind_def)

lemma tag_dispatch:
  assumes "list_all2 (\<lambda>t p. \<forall>i. n_tag_no_case N t i = None \<longrightarrow> p i = None) ts ps" "set ts \<subseteq> set imap_tags"
    and "first_tag ts w k" "(ps ! k) (w @ r) = Some x"
  shows "p_alt ps (w @ r) = Some x"
proof (rule p_alt_pick)
  show "k < length ps" using assms(1,3) by (simp add: first_tag_def list_all2_lengthD)
  show "(ps ! j) (w @ r) = None" if "j < k" for j
  proof -
    have j: "j < length ts" "word_differs w (ts ! j)" using assms(3) that by (auto simp: first_tag_def list_all_length)
    then have "n_tag_no_case N (ts ! j) (w @ r) = None"
      using word_differs_tag [OF j(2), of r] assms(2) by (subst imap_tag) auto
    then show ?thesis using list_all2_nthD [OF assms(1) j(1)] by blast
  qed
qed (use assms(4) in simp)

lemma imap_dispatch:
  "first_tag imap_tags w k \<Longrightarrow> (imap_alternatives N uc ! k) (w @ r) = Some x \<Longrightarrow> parse_imap_command N uc (w @ r) = Some x"
  unfolding parse_imap_command_alt by (rule tag_dispatch [OF alternatives_tags(1)]) auto

lemma uid_dispatch:
  "first_tag uid_tags w k \<Longrightarrow> (uid_alternatives N ! k) (w @ r) = Some x \<Longrightarrow> p_alt (uid_alternatives N) (w @ r) = Some x"
  by (rule tag_dispatch [OF alternatives_tags(2)]) (auto simp: uid_tags_def imap_tags_def)

end

lemma tags_first:
  "first_tag imap_tags ''UID'' 0" "first_tag imap_tags ''LOGIN'' 1" "first_tag imap_tags ''AUTHENTICATE'' 2" "first_tag imap_tags ''SELECT'' 3" "first_tag imap_tags ''EXAMINE'' 4"
  "first_tag imap_tags ''FETCH'' 5" "first_tag imap_tags ''STORE'' 6" "first_tag imap_tags ''SEARCH'' 7" "first_tag imap_tags ''LIST'' 8" "first_tag imap_tags ''LSUB'' 9"
  "first_tag imap_tags ''SUBSCRIBE'' 10" "first_tag imap_tags ''UNSUBSCRIBE'' 11" "first_tag imap_tags ''CREATE-SPECIAL-USE'' 12" "first_tag imap_tags ''CREATE '' 13"
  "first_tag imap_tags ''DELETE'' 14" "first_tag imap_tags ''RENAME'' 15" "first_tag imap_tags ''COPY'' 16" "first_tag imap_tags ''MOVE'' 17" "first_tag imap_tags ''EXPUNGE'' 18"
  "first_tag imap_tags ''CLOSE'' 19" "first_tag imap_tags ''CAPABILITY'' 20" "first_tag imap_tags ''LOGOUT'' 21" "first_tag imap_tags ''NOOP'' 22" "first_tag imap_tags ''IDLE'' 23"
  "first_tag imap_tags ''NAMESPACE'' 24" "first_tag imap_tags ''COMPRESS'' 25"
  "first_tag uid_tags ''FETCH'' 0" "first_tag uid_tags ''STORE'' 1" "first_tag uid_tags ''SEARCH'' 2" "first_tag uid_tags ''COPY'' 3"
  "first_tag uid_tags ''MOVE'' 4" "first_tag uid_tags ''EXPUNGE'' 5"
  by (simp_all add: first_tag_def imap_tags_def uid_tags_def)

context nom_laws
begin

lemma print_rest_append: "print_rest a \<Longrightarrow> print_rest b \<Longrightarrow> print_rest (a @ c @ b)"
  by (auto simp: print_rest_def)

lemma print_rest_paren: "print_rest (''('' @ s @ '')'')"
  by (simp add: print_rest_def is_graphic_def)

lemmas parse_args = word_then word_last rest_last p_return_def print_rest_trim print_word_rest unquoted_trim
  split_print_words print_words_rest parse_print_mode print_mode_word

text \<open>The arguments of the parsers, in the shapes they come in.\<close>

lemma parse_two_words:
  "print_word a \<Longrightarrow> print_word b \<Longrightarrow> p_word_then N (\<lambda>x. p_bind (p_word N) (\<lambda>y. p_return (C x y))) (a @ '' '' @ b) = Some ([], C a b)"
  by (subst word_then) (simp_all add: parse_args)

lemma parse_word_rest:
  "print_word a \<Longrightarrow> print_rest b \<Longrightarrow> p_word_then N (\<lambda>x. p_bind (n_rest N) (\<lambda>y. p_return (C x y))) (a @ '' '' @ b) = Some ([], C a b)"
  by (subst word_then) (simp_all add: parse_args)

lemma parse_flags_arg:
  assumes "print_word a" "word_list flags"
  shows "p_word_then N (\<lambda>x. p_word_then N (\<lambda>m. p_bind (n_rest N) (\<lambda>y. p_return (C x (parse_store_mode m) (parse_flag_list y)))))
    (a @ '' '' @ print_mode mode @ '' ('' @ print_words flags @ '')'') = Some ([], C a mode flags)"
proof -
  have r: "print_rest (''('' @ print_words flags @ '')'')" by (rule print_rest_paren)
  have m: "print_rest (print_mode mode @ '' '' @ ''('' @ print_words flags @ '')'')"
    using print_rest_append [OF print_word_rest [OF print_mode_word] r, of mode "'' ''"] by simp
  have "p_word_then N (\<lambda>x. p_word_then N (\<lambda>m. p_bind (n_rest N) (\<lambda>y. p_return (C x (parse_store_mode m) (parse_flag_list y)))))
      (a @ '' '' @ print_mode mode @ '' '' @ ''('' @ print_words flags @ '')'') = Some ([], C a mode flags)"
    unfolding word_then [OF assms(1) m] word_then [OF print_mode_word r] rest_last p_return_def
    by (simp only: parse_print_mode parse_print_flags [OF assms(2)])
  then show ?thesis by simp
qed

lemma print_arg_rest:
  "print_word a \<Longrightarrow> print_rest b \<Longrightarrow> print_rest (a @ '' '' @ b)"
  "print_word a \<Longrightarrow> print_rest (a @ '' '' @ print_mode mode @ '' ('' @ print_words flags @ '')'')"
  using print_rest_append [of a b "'' ''"] print_rest_append [of a "''('' @ print_words flags @ '')''" "'' '' @ print_mode mode @ '' ''"]
    print_rest_paren [of "print_words flags"] by (simp_all add: print_word_rest)

lemma kw_bare: "t \<in> set imap_tags \<Longrightarrow> p_bind (n_tag_no_case N t) (\<lambda>_. p_return c) (t @ []) = Some ([], c)"
  using keyword_matches [of t "[]"] by (simp add: p_bind_def p_return_def)

lemma kw_word: "t \<in> set imap_tags \<Longrightarrow> print_word a \<Longrightarrow>
    p_keyword N t (p_bind (p_word N) (\<lambda>x. p_return (C x))) (t @ '' '' @ a) = Some ([], C a)"
  by (subst keyword_arg) (simp_all add: parse_args)

lemma kw_rest: "t \<in> set imap_tags \<Longrightarrow> print_rest a \<Longrightarrow>
    p_keyword N t (p_bind (n_rest N) (\<lambda>x. p_return (C x))) (t @ '' '' @ a) = Some ([], C a)"
  by (subst keyword_arg) (simp_all add: parse_args)

lemma kw_two_words: "t \<in> set imap_tags \<Longrightarrow> print_word a \<Longrightarrow> print_word b \<Longrightarrow>
    p_keyword N t (p_word_then N (\<lambda>x. p_bind (p_word N) (\<lambda>y. p_return (C x y)))) (t @ '' '' @ a @ '' '' @ b) = Some ([], C a b)"
  by (subst keyword_arg) (simp_all only: parse_two_words print_arg_rest(1) print_word_rest not_False_eq_True)

lemma kw_word_rest: "t \<in> set imap_tags \<Longrightarrow> print_word a \<Longrightarrow> print_rest b \<Longrightarrow>
    p_keyword N t (p_word_then N (\<lambda>x. p_bind (n_rest N) (\<lambda>y. p_return (C x y)))) (t @ '' '' @ a @ '' '' @ b) = Some ([], C a b)"
  by (subst keyword_arg) (simp_all only: parse_word_rest print_arg_rest(1) not_False_eq_True)

lemma kw_flags: "t \<in> set imap_tags \<Longrightarrow> print_word a \<Longrightarrow> word_list flags \<Longrightarrow>
    p_keyword N t (p_word_then N (\<lambda>x. p_word_then N (\<lambda>m. p_bind (n_rest N) (\<lambda>y. p_return (C x (parse_store_mode m) (parse_flag_list y))))))
      (t @ '' '' @ a @ '' '' @ print_mode mode @ '' ('' @ print_words flags @ '')'') = Some ([], C a mode flags)"
  by (subst keyword_arg) (simp_all only: parse_flags_arg print_arg_rest(2) not_False_eq_True)

lemma uid_print_parses:
  assumes "printable_uid sub"
  shows "p_alt (uid_alternatives N) (print_uid sub) = Some ([], sub)"
proof (cases sub)
  case (UidFetch s items)
  then show ?thesis
    using assms kw_word_rest [of "''FETCH''" s "print_words items" "\<lambda>x y. UidFetch x (split_whitespace y)"]
      uid_dispatch [OF tags_first(27), of "'' '' @ s @ '' '' @ print_words items"]
    by (simp add: uid_alternatives_def uid_parsers imap_tags_def parse_args)
next
  case (UidStore s mode flags)
  then show ?thesis
    using assms kw_flags [of "''STORE''" s flags UidStore mode]
      uid_dispatch [OF tags_first(28), of "'' '' @ s @ '' '' @ print_mode mode @ '' ('' @ print_words flags @ '')''"]
    by (simp add: uid_alternatives_def uid_parsers imap_tags_def)
next
  case (UidSearch cs)
  then show ?thesis
    using assms kw_rest [of "''SEARCH''" "print_words cs" "\<lambda>y. UidSearch (split_whitespace y)"]
      uid_dispatch [OF tags_first(29), of "'' '' @ print_words cs"]
    by (simp add: uid_alternatives_def uid_parsers imap_tags_def parse_args)
next
  case (UidCopy s mb)
  then show ?thesis
    using assms kw_word_rest [of "''COPY''" s mb "\<lambda>x y. UidCopy x (trim_quotes (trim y))"] uid_dispatch [OF tags_first(30), of "'' '' @ s @ '' '' @ mb"]
    by (simp add: uid_alternatives_def uid_parsers imap_tags_def parse_args)
next
  case (UidMove s mb)
  then show ?thesis
    using assms kw_word_rest [of "''MOVE''" s mb "\<lambda>x y. UidMove x (trim_quotes (trim y))"] uid_dispatch [OF tags_first(31), of "'' '' @ s @ '' '' @ mb"]
    by (simp add: uid_alternatives_def uid_parsers imap_tags_def parse_args)
next
  case (UidExpunge s)
  then show ?thesis
    using assms kw_rest [of "''EXPUNGE''" s "\<lambda>y. UidExpunge (trim y)"] uid_dispatch [OF tags_first(32), of "'' '' @ s"]
    by (simp add: uid_alternatives_def uid_parsers imap_tags_def parse_args)
qed

end

context nom_laws
begin

lemma print_uid_rest: "printable_uid sub \<Longrightarrow> print_rest (print_uid sub)"
proof -
  assume p: "printable_uid sub"
  have "print_uid sub \<noteq> []" "is_graphic (hd (print_uid sub))" by (cases sub; simp add: is_graphic_def)+
  moreover have "is_graphic (last (print_uid sub))"
    using p print_words_rest by (cases sub) (auto simp: print_rest_def is_graphic_def)
  ultimately show ?thesis by (simp add: print_rest_def)
qed

lemmas imap_position = imap_alternatives_def imap_parsers imap_tags_def

definition reads_back :: "(string \<Rightarrow> string) \<Rightarrow> imap_command \<Rightarrow> bool" where
  "reads_back uc c \<longleftrightarrow> (printable_imap uc c \<longrightarrow> parse_imap_command N uc (imap_print c) = Some ([], c))"

lemma print_bare:
  "reads_back uc IExpunge"
  "reads_back uc IClose"
  "reads_back uc ICapability"
  "reads_back uc ILogout"
  "reads_back uc INoop"
  "reads_back uc IIdle"
  "reads_back uc INamespace"
  using kw_bare [of "''EXPUNGE''" IExpunge] imap_dispatch [OF tags_first(19), of uc "[]"]
    kw_bare [of "''CLOSE''" IClose] imap_dispatch [OF tags_first(20), of uc "[]"]
    kw_bare [of "''CAPABILITY''" ICapability] imap_dispatch [OF tags_first(21), of uc "[]"]
    kw_bare [of "''LOGOUT''" ILogout] imap_dispatch [OF tags_first(22), of uc "[]"]
    kw_bare [of "''NOOP''" INoop] imap_dispatch [OF tags_first(23), of uc "[]"]
    kw_bare [of "''IDLE''" IIdle] imap_dispatch [OF tags_first(24), of uc "[]"]
    kw_bare [of "''NAMESPACE''" INamespace] imap_dispatch [OF tags_first(25), of uc "[]"]
  by (simp_all add: reads_back_def imap_position parse_args)

lemma print_word_commands:
  "reads_back uc (ILogin u p)"
  "reads_back uc (IList r mb)"
  "reads_back uc (ILsub r mb)"
  "reads_back uc (ISelect mb)"
  "reads_back uc (IExamine mb)"
  "reads_back uc (ICompress m)"
  using kw_two_words [of "''LOGIN''" u p ILogin] imap_dispatch [OF tags_first(2), of uc "'' '' @ u @ '' '' @ p"]
    kw_two_words [of "''LIST''" r mb IList] imap_dispatch [OF tags_first(9), of uc "'' '' @ r @ '' '' @ mb"]
    kw_two_words [of "''LSUB''" r mb ILsub] imap_dispatch [OF tags_first(10), of uc "'' '' @ r @ '' '' @ mb"]
    kw_word [of "''SELECT''" mb "ISelect"] imap_dispatch [OF tags_first(4), of uc "'' '' @ mb"]
    kw_word [of "''EXAMINE''" mb "IExamine"] imap_dispatch [OF tags_first(5), of uc "'' '' @ mb"]
    kw_word [of "''COMPRESS''" m "\<lambda>x. ICompress (uc x)"] imap_dispatch [OF tags_first(26), of uc "'' '' @ m"]
  by (simp_all add: reads_back_def imap_position parse_args)

lemma print_rest_commands:
  "reads_back uc (ISearch cs)"
  "reads_back uc (ISubscribe mb)"
  "reads_back uc (IUnsubscribe mb)"
  "reads_back uc (ICreate mb)"
  "reads_back uc (IDelete mb)"
  using kw_rest [of "''SEARCH''" "print_words cs" "\<lambda>y. ISearch (split_whitespace y)"] imap_dispatch [OF tags_first(8), of uc "'' '' @ print_words cs"]
    kw_rest [of "''SUBSCRIBE''" "mb" "\<lambda>y. ISubscribe (trim y)"] imap_dispatch [OF tags_first(11), of uc "'' '' @ mb"]
    kw_rest [of "''UNSUBSCRIBE''" "mb" "\<lambda>y. IUnsubscribe (trim y)"] imap_dispatch [OF tags_first(12), of uc "'' '' @ mb"]
    kw_rest [of "''CREATE''" "mb" "\<lambda>y. ICreate (trim y)"] imap_dispatch [OF tags_first(14), of uc "mb"]
    kw_rest [of "''DELETE''" "mb" "\<lambda>y. IDelete (trim y)"] imap_dispatch [OF tags_first(15), of uc "'' '' @ mb"]
  by (simp_all add: reads_back_def imap_position parse_args)

lemma print_word_rest_commands:
  "reads_back uc (IFetch s items)"
  "reads_back uc (ICreateSpecialUse mb su)"
  "reads_back uc (IRename old new)"
  "reads_back uc (ICopy s mb)"
  "reads_back uc (IMove s mb)"
  using kw_word_rest [of "''FETCH''" s "print_words items" "\<lambda>x y. IFetch x (split_whitespace y)"] imap_dispatch [OF tags_first(6), of uc "'' '' @ s @ '' '' @ print_words items"]
    kw_word_rest [of "''CREATE-SPECIAL-USE''" mb "su" "\<lambda>x y. ICreateSpecialUse (trim x) (trim y)"] imap_dispatch [OF tags_first(13), of uc "'' '' @ mb @ '' '' @ su"]
    kw_word_rest [of "''RENAME''" old "new" "\<lambda>x y. IRename (trim_quotes x) (trim_quotes (trim y))"] imap_dispatch [OF tags_first(16), of uc "'' '' @ old @ '' '' @ new"]
    kw_word_rest [of "''COPY''" s "mb" "\<lambda>x y. ICopy x (trim_quotes (trim y))"] imap_dispatch [OF tags_first(17), of uc "'' '' @ s @ '' '' @ mb"]
    kw_word_rest [of "''MOVE''" s "mb" "\<lambda>x y. IMove x (trim_quotes (trim y))"] imap_dispatch [OF tags_first(18), of uc "'' '' @ s @ '' '' @ mb"]
  by (simp_all add: reads_back_def imap_position parse_args)

lemma print_store_command: "reads_back uc (IStore s mode flags)"
  using kw_flags [of "''STORE''" s flags IStore mode]
    imap_dispatch [OF tags_first(7), of uc "'' '' @ s @ '' '' @ print_mode mode @ '' ('' @ print_words flags @ '')''"]
  by (simp add: reads_back_def imap_position)

lemma print_uid_command: "reads_back uc (IUid sub)"
  unfolding reads_back_def
proof
  assume p: "printable_imap uc (IUid sub)"
  then have "parse_uid N (''UID'' @ '' '' @ print_uid sub) = Some ([], IUid sub)"
    unfolding parse_uid_def using print_uid_rest [of sub] uid_print_parses [of sub]
    by (subst keyword_arg) (simp_all add: imap_tags_def p_bind_def p_return_def uid_alternatives_def)
  then show "parse_imap_command N uc (imap_print (IUid sub)) = Some ([], IUid sub)"
    using imap_dispatch [OF tags_first(1), of uc "'' '' @ print_uid sub"] by (simp add: imap_alternatives_def)
qed

lemma print_authenticate_command: "reads_back uc (IAuthenticate m ir)"
  unfolding reads_back_def
proof
  let ?c = "IAuthenticate m ir"
  assume p: "printable_imap uc ?c"
  then have m: "print_word m" "uc m = m" by simp_all
  have blank: "n_space1 N [] = None" using space1_None [of "[]"] by simp
  have "parse_authenticate N uc (''AUTHENTICATE'' @ '' '' @ m @ (case ir of None \<Rightarrow> [] | Some r \<Rightarrow> '' '' @ r)) = Some ([], ?c)"
  proof (cases ir)
    case None
    then show ?thesis unfolding parse_authenticate_def using m blank word_last [of m]
      by (subst keyword_arg) (auto simp: imap_tags_def parse_args)
  next
    case (Some r)
    then have r: "print_rest r" using p by simp
    have "n_space1 N (CHR '' '' # r) = Some (r, '' '')"
      using r by (intro space1_blank) (auto simp: print_rest_def blank_def is_graphic_def)
    then have "p_bind (p_word N) (\<lambda>mechanism input. case n_space1 N input of
         Some (remaining, _) \<Rightarrow> p_bind (n_rest N) (\<lambda>response. p_return (IAuthenticate (uc mechanism) (Some (trim response)))) remaining
       | None \<Rightarrow> Some (input, IAuthenticate (uc mechanism) None)) (m @ '' '' @ r) = Some ([], ?c)"
      using p_word_graphic [OF m(1), of "'' '' @ r"] Some m(2) r
      by (simp add: p_bind_def rest p_return_def print_rest_trim)
    then show ?thesis unfolding parse_authenticate_def Some option.case
      using print_arg_rest(1) [OF m(1) r] by (subst keyword_arg) (simp_all add: imap_tags_def)
  qed
  then show "parse_imap_command N uc (imap_print ?c) = Some ([], ?c)"
    using imap_dispatch [OF tags_first(3), of uc "'' '' @ m @ (case ir of None \<Rightarrow> [] | Some r \<Rightarrow> '' '' @ r)"]
    by (cases ir) (simp_all add: imap_alternatives_def)
qed

lemma imap_print_parses: "reads_back uc c"
  by (cases c) (simp_all only: print_bare print_word_commands print_rest_commands print_word_rest_commands print_store_command
      print_uid_command print_authenticate_command, simp add: reads_back_def)

end



end
