(* ===== verification/Conn_Limits.thy ===== *)
theory Conn_Limits
  imports Rate_Limit
begin

text \<open>
  Model of the connection limiter, \<^verbatim>\<open>crates/rusmes-server/src/connection_limits.rs\<close>, and of the duration strings of
  its configuration (\<^verbatim>\<open>rusmes-config/src/parse.rs\<close>).  The operations of \<^verbatim>\<open>ConnectionLimiter\<close> hold one lock, so a
  run of the system is a sequence of them; the release of a guard, which the program spawns as a task,
  is an operation of its own.  Instants are
  nanoseconds and arguments of the calls that read the clock; timeouts are seconds.
\<close>

section \<open>Configuration\<close>

record conn_limit_config =
  clc_max_per_ip :: nat
  clc_max_total :: nat
  clc_idle_timeout :: nat
  clc_reaper_interval :: nat

definition conn_limit_config_default :: conn_limit_config where
  "conn_limit_config_default = \<lparr>clc_max_per_ip = 10, clc_max_total = 1000, clc_idle_timeout = 300, clc_reaper_interval = 60\<rparr>"

text \<open>A duration in seconds; the multiplication wraps.  Lower-casing is an argument.\<close>

definition parse_duration :: "(string \<Rightarrow> string) \<Rightarrow> string \<Rightarrow> nat option" where
  "parse_duration lc s =
     (let t = lc (trim s) in
      case strip_suffix ''h'' t of
        Some rest \<Rightarrow> map_option (\<lambda>n. n * 3600 mod 2 ^ 64) (parse_uint usize_max (trim rest))
      | None \<Rightarrow>
        (case strip_suffix ''m'' t of
           Some rest \<Rightarrow> map_option (\<lambda>n. n * 60 mod 2 ^ 64) (parse_uint usize_max (trim rest))
         | None \<Rightarrow>
           (case strip_suffix ''s'' t of
              Some rest \<Rightarrow> parse_uint usize_max (trim rest)
            | None \<Rightarrow> parse_uint usize_max t)))"

text \<open>The parts of the server configuration that the limiter reads: the section \<^verbatim>\<open>connection_limits\<close> and the limit of
  the SMTP section.\<close>

record conn_limits_section =
  cls_max_per_ip :: nat
  cls_max_total :: nat
  cls_idle_timeout :: string
  cls_reaper_interval :: string

definition from_server_config :: "(string \<Rightarrow> string) \<Rightarrow> conn_limits_section option \<Rightarrow> nat option \<Rightarrow> conn_limit_config" where
  "from_server_config lc limits smtp_max_per_ip =
     (let builder = conn_limit_config_default in
      case limits of
        Some l \<Rightarrow>
          let b1 = builder\<lparr>clc_max_per_ip := cls_max_per_ip l, clc_max_total := cls_max_total l\<rparr>;
              b2 = (case parse_duration lc (cls_idle_timeout l) of Some n \<Rightarrow> b1\<lparr>clc_idle_timeout := n\<rparr> | None \<Rightarrow> b1)
          in (case parse_duration lc (cls_reaper_interval l) of Some n \<Rightarrow> b2\<lparr>clc_reaper_interval := n\<rparr> | None \<Rightarrow> b2)
      | None \<Rightarrow>
          (case smtp_max_per_ip of Some n \<Rightarrow> builder\<lparr>clc_max_per_ip := n\<rparr> | None \<Rightarrow> builder)\<lparr>clc_idle_timeout := 300\<rparr>)"

section \<open>State\<close>

record conn_info =
  ci_id :: nat
  ci_ip :: ip_addr
  ci_established_at :: nat
  ci_last_activity :: nat

definition ConnectionInfo_new :: "nat \<Rightarrow> nat \<Rightarrow> ip_addr \<Rightarrow> conn_info" where
  "ConnectionInfo_new now i ip = \<lparr>ci_id = i, ci_ip = ip, ci_established_at = now, ci_last_activity = now\<rparr>"

definition is_idle :: "nat \<Rightarrow> nat \<Rightarrow> conn_info \<Rightarrow> bool" where
  "is_idle now timeout c \<longleftrightarrow> timeout * 1000000000 < now - ci_last_activity c"

record conn_stats =
  cst_current :: nat
  cst_peak :: nat
  cst_total :: nat
  cst_rejected :: nat
  cst_reaped :: nat

record conn_limiter =
  cl_config :: conn_limit_config
  cl_next_id :: nat
  cl_connections :: "(nat \<times> conn_info) list"
  cl_per_ip :: "(ip_addr \<times> nat list) list"
  cl_stats :: conn_stats

definition ConnectionLimiter_new :: "conn_limit_config \<Rightarrow> conn_limiter" where
  "ConnectionLimiter_new config =
     \<lparr>cl_config = config, cl_next_id = 1, cl_connections = [], cl_per_ip = [],
      cl_stats = \<lparr>cst_current = 0, cst_peak = 0, cst_total = 0, cst_rejected = 0, cst_reaped = 0\<rparr>\<rparr>"

section \<open>Operations\<close>

definition ids_of :: "conn_limiter \<Rightarrow> ip_addr \<Rightarrow> nat list" where
  "ids_of s ip = (case map_of (cl_per_ip s) ip of Some ids \<Rightarrow> ids | None \<Rightarrow> [])"

definition can_accept :: "conn_limiter \<Rightarrow> ip_addr \<Rightarrow> unit result" where
  "can_accept s ip =
     (let c = cl_config s in
      if 0 < clc_max_total c \<and> clc_max_total c \<le> length (cl_connections s) then
        Inl (''Maximum total connections ('' @ show_nat (clc_max_total c) @ '') reached'')
      else if 0 < clc_max_per_ip c \<and> clc_max_per_ip c \<le> length (ids_of s ip) then
        Inl (''Maximum connections per IP ('' @ show_nat (clc_max_per_ip c) @ '') reached for '' @ ip_display ip)
      else Inr ())"

definition register_connection :: "nat \<Rightarrow> ip_addr \<Rightarrow> conn_limiter \<Rightarrow> conn_limiter \<times> nat" where
  "register_connection now ip s =
     (let i = cl_next_id s;
          conns = AList.update i (ConnectionInfo_new now i ip) (cl_connections s);
          st = cl_stats s
      in (s\<lparr>cl_next_id := (i + 1) mod 2 ^ 64, cl_connections := conns,
            cl_per_ip := AList.update ip (ids_of s ip @ [i]) (cl_per_ip s),
            cl_stats := st\<lparr>cst_current := length conns, cst_total := (cst_total st + 1) mod 2 ^ 64,
                           cst_peak := (if cst_peak st < length conns then length conns else cst_peak st)\<rparr>\<rparr>, i))"

definition unregister_connection :: "nat \<Rightarrow> conn_limiter \<Rightarrow> conn_limiter" where
  "unregister_connection i s =
     (case map_of (cl_connections s) i of
        None \<Rightarrow> s
      | Some c \<Rightarrow>
          let conns = AList.delete i (cl_connections s);
              per_ip = (case map_of (cl_per_ip s) (ci_ip c) of
                  None \<Rightarrow> cl_per_ip s
                | Some ids \<Rightarrow>
                    let ids' = filter (\<lambda>j. j \<noteq> i) ids in
                    if ids' = [] then AList.delete (ci_ip c) (cl_per_ip s) else AList.update (ci_ip c) ids' (cl_per_ip s))
          in s\<lparr>cl_connections := conns, cl_per_ip := per_ip, cl_stats := (cl_stats s)\<lparr>cst_current := length conns\<rparr>\<rparr>)"

definition update_activity :: "nat \<Rightarrow> nat \<Rightarrow> conn_limiter \<Rightarrow> conn_limiter" where
  "update_activity now i s =
     (case map_of (cl_connections s) i of
        None \<Rightarrow> s
      | Some c \<Rightarrow> s\<lparr>cl_connections := AList.update i (c\<lparr>ci_last_activity := now\<rparr>) (cl_connections s)\<rparr>)"

definition reap_one :: "conn_limiter \<Rightarrow> nat \<Rightarrow> conn_limiter" where
  "reap_one s i =
     (let s' = unregister_connection i s
      in s'\<lparr>cl_stats := (cl_stats s')\<lparr>cst_reaped := (cst_reaped (cl_stats s') + 1) mod 2 ^ 64\<rparr>\<rparr>)"

definition reap_idle_connections :: "nat \<Rightarrow> conn_limiter \<Rightarrow> conn_limiter \<times> nat list" where
  "reap_idle_connections now s =
     (let reaped = map fst (filter (\<lambda>(i, c). is_idle now (clc_idle_timeout (cl_config s)) c) (cl_connections s))
      in (foldl reap_one s reaped, reaped))"

datatype limiter_op =
    Acquire nat ip_addr
  | UpdateActivity nat nat
  | Unregister nat
  | ReapIdle nat
  | UpdateConfig conn_limit_config
  | RecordRejection

datatype limiter_out = Admitted nat | Refused string | ReapedCount nat | LimiterDone

definition acquire :: "nat \<Rightarrow> ip_addr \<Rightarrow> conn_limiter \<Rightarrow> conn_limiter \<times> limiter_out" where
  "acquire now ip s =
     (case can_accept s ip of
        Inl e \<Rightarrow> (s, Refused e)
      | Inr _ \<Rightarrow> (case register_connection now ip s of (s', i) \<Rightarrow> (s', Admitted i)))"

fun limiter_step :: "conn_limiter \<Rightarrow> limiter_op \<Rightarrow> conn_limiter \<times> limiter_out" where
  "limiter_step s (Acquire now ip) = acquire now ip s"
| "limiter_step s (UpdateActivity now i) = (update_activity now i s, LimiterDone)"
| "limiter_step s (Unregister i) = (unregister_connection i s, LimiterDone)"
| "limiter_step s (ReapIdle now) = (case reap_idle_connections now s of (s', reaped) \<Rightarrow> (s', ReapedCount (length reaped)))"
| "limiter_step s (UpdateConfig config) = (s\<lparr>cl_config := config\<rparr>, LimiterDone)"
| "limiter_step s RecordRejection =
     (s\<lparr>cl_stats := (cl_stats s)\<lparr>cst_rejected := (cst_rejected (cl_stats s) + 1) mod 2 ^ 64\<rparr>\<rparr>, LimiterDone)"

section \<open>The tables agree\<close>

definition open_from :: "conn_limiter \<Rightarrow> ip_addr \<Rightarrow> nat list" where
  "open_from s ip = map fst (filter (\<lambda>(i, c). ci_ip c = ip) (cl_connections s))"

text \<open>With \<open>n\<close> more registrations to come, the identifiers do not wrap.\<close>

definition limiter_inv :: "nat \<Rightarrow> conn_limiter \<Rightarrow> bool" where
  "limiter_inv n s \<longleftrightarrow>
     distinct (map fst (cl_connections s)) \<and> list_all (\<lambda>(i, c). ci_id c = i \<and> i < cl_next_id s) (cl_connections s) \<and>
     cl_next_id s + n < 2 ^ 64 \<and> (\<forall>ip. ids_of s ip = open_from s ip) \<and>
     cst_current (cl_stats s) = length (cl_connections s) \<and> length (cl_connections s) \<le> cst_peak (cl_stats s)"

lemma update_fresh: "k \<notin> fst ` set xs \<Longrightarrow> AList.update k v xs = xs @ [(k, v)]"
  by (induction xs) auto

lemma register_inv:
  assumes "limiter_inv (Suc n) s"
  shows "limiter_inv n (fst (register_connection now ip s))"
proof -
  let ?i = "cl_next_id s"
  have fresh: "?i \<notin> fst ` set (cl_connections s)" using assms by (auto simp: limiter_inv_def list_all_iff)
  note upd = update_fresh [OF fresh]
  have "ids_of (fst (register_connection now ip s)) ip' = open_from (fst (register_connection now ip s)) ip'" for ip'
    using assms by (auto simp: limiter_inv_def register_connection_def Let_def ids_of_def open_from_def upd update_conv'
        ConnectionInfo_new_def)
  then show ?thesis using assms fresh
    by (auto simp: limiter_inv_def register_connection_def Let_def upd ConnectionInfo_new_def list_all_iff)
qed

lemma unregister_inv:
  assumes "limiter_inv n s"
  shows "limiter_inv n (unregister_connection i s)"
proof (cases "map_of (cl_connections s) i")
  case None
  then show ?thesis using assms by (simp add: unregister_connection_def)
next
  case (Some c)
  have conns: "cl_connections (unregister_connection i s) = AList.delete i (cl_connections s)"
    and rest: "cl_next_id (unregister_connection i s) = cl_next_id s"
      "cst_current (cl_stats (unregister_connection i s)) = length (AList.delete i (cl_connections s))"
      "cst_peak (cl_stats (unregister_connection i s)) = cst_peak (cl_stats s)"
    using Some by (simp_all add: unregister_connection_def Let_def)
  have "map fst (filter (\<lambda>(j, c). ci_ip c = ip) (AList.delete i xs)) =
      filter (\<lambda>j. j \<noteq> i) (map fst (filter (\<lambda>(j, c). ci_ip c = ip) xs))" for ip and xs :: "(nat \<times> conn_info) list"
    by (induction xs) auto
  then have open': "open_from (unregister_connection i s) ip = filter (\<lambda>j. j \<noteq> i) (open_from s ip)" for ip
    by (simp add: open_from_def conns)
  have "ids_of (unregister_connection i s) ip = (if ip = ci_ip c then filter (\<lambda>j. j \<noteq> i) (ids_of s ip) else ids_of s ip)" for ip
    using Some by (auto simp: unregister_connection_def Let_def ids_of_def update_conv' delete_conv' split: option.splits)
  moreover have "filter (\<lambda>j. j \<noteq> i) (open_from s ip) = open_from s ip" if "ip \<noteq> ci_ip c" for ip
  proof -
    have "distinct (map fst (cl_connections s))" using assms by (simp add: limiter_inv_def)
    then have "i \<notin> set (open_from s ip)" using Some that by (auto simp: open_from_def simp del: map_of_eq_Some_iff dest!: map_of_is_SomeI)
    then show ?thesis by (auto simp: filter_id_conv)
  qed
  ultimately have ids: "\<forall>ip. ids_of (unregister_connection i s) ip = open_from (unregister_connection i s) ip"
    using open' assms by (simp add: limiter_inv_def)
  have "length (AList.delete i (cl_connections s)) \<le> length (cl_connections s)" by (rule length_delete_le)
  moreover have "distinct (map fst (AList.delete i (cl_connections s)))" using assms by (simp add: limiter_inv_def distinct_delete)
  moreover have "list_all (\<lambda>(j, c). ci_id c = j \<and> j < cl_next_id s) (AList.delete i (cl_connections s))"
    using assms by (auto simp: limiter_inv_def AList.delete_eq list_all_iff)
  ultimately show ?thesis using assms ids conns rest by (simp add: limiter_inv_def)
qed

text \<open>What the invariant reads of a connection.\<close>

abbreviation conn_view :: "(nat \<times> conn_info) list \<Rightarrow> (nat \<times> ip_addr \<times> nat) list" where
  "conn_view \<equiv> map (\<lambda>(i, c). (i, ci_ip c, ci_id c))"

lemma conn_view_facts:
  assumes "conn_view xs = conn_view ys"
  shows "map fst xs = map fst ys" "length xs = length ys"
    "map fst (filter (\<lambda>(i, c). ci_ip c = ip) xs) = map fst (filter (\<lambda>(i, c). ci_ip c = ip) ys)"
    "list_all (\<lambda>(i, c). ci_id c = i \<and> i < n) xs = list_all (\<lambda>(i, c). ci_id c = i \<and> i < n) ys"
proof -
  have keys: "map fst zs = map fst (conn_view zs)"
    and ips: "map fst (filter (\<lambda>(i, c). ci_ip c = ip) zs) = map fst (filter (\<lambda>(i, p, j). p = ip) (conn_view zs))"
    and ids: "list_all (\<lambda>(i, c). ci_id c = i \<and> i < n) zs = list_all (\<lambda>(i, p, j). j = i \<and> i < n) (conn_view zs)" for zs
    by (induction zs) auto
  show "map fst xs = map fst ys" unfolding keys [of xs] keys [of ys] assms by (rule refl)
  show "map fst (filter (\<lambda>(i, c). ci_ip c = ip) xs) = map fst (filter (\<lambda>(i, c). ci_ip c = ip) ys)"
    unfolding ips [of xs] ips [of ys] assms by (rule refl)
  show "list_all (\<lambda>(i, c). ci_id c = i \<and> i < n) xs = list_all (\<lambda>(i, c). ci_id c = i \<and> i < n) ys"
    unfolding ids [of xs] ids [of ys] assms by (rule refl)
  from assms show "length xs = length ys" by (rule map_eq_imp_length_eq)
qed

lemma touch_inv: "limiter_inv n s \<Longrightarrow> limiter_inv n (update_activity now i s)"
proof (cases "map_of (cl_connections s) i")
  case (Some c)
  assume inv: "limiter_inv n s"
  have "conn_view (AList.update i (c\<lparr>ci_last_activity := now\<rparr>) xs) = conn_view xs" if "map_of xs i = Some c" for xs
    using that by (induction xs) (auto split: if_splits)
  note v = conn_view_facts [OF this [OF Some]]
  show ?thesis using inv Some unfolding limiter_inv_def update_activity_def ids_of_def open_from_def
    by (simp add: v)
qed (simp add: update_activity_def)

lemma stats_inv:
  "limiter_inv n (s\<lparr>cl_stats := (cl_stats s)\<lparr>cst_rejected := r\<rparr>\<rparr>) = limiter_inv n s"
  "limiter_inv n (s\<lparr>cl_stats := (cl_stats s)\<lparr>cst_reaped := r\<rparr>\<rparr>) = limiter_inv n s"
  "limiter_inv n (s\<lparr>cl_config := config\<rparr>) = limiter_inv n s"
  by (simp_all add: limiter_inv_def ids_of_def open_from_def)

lemma reap_inv: "limiter_inv n s \<Longrightarrow> limiter_inv n (foldl reap_one s is)"
  by (induction "is" arbitrary: s) (simp_all add: reap_one_def Let_def stats_inv unregister_inv)

lemma limiter_inv_mono: "limiter_inv n s \<Longrightarrow> m \<le> n \<Longrightarrow> limiter_inv m s"
  by (simp add: limiter_inv_def)

lemma limiter_step_inv: "limiter_inv (Suc n) s \<Longrightarrow> limiter_inv n (fst (limiter_step s op))"
  using limiter_inv_mono [of "Suc n" s n]
  by (cases op) (auto simp: acquire_def case_prod_beta register_inv unregister_inv touch_inv stats_inv reap_idle_connections_def
      Let_def reap_inv split: sum.split)

lemma limiter_run_inv: "limiter_inv (length ops) s \<Longrightarrow> limiter_inv 0 (fst (run limiter_step s ops))"
proof (induction ops arbitrary: s)
  case (Cons op ops)
  then show ?case using limiter_step_inv [of "length ops" s op] by (simp add: case_prod_beta)
qed simp

lemma limiter_new_inv: "n + 1 < 2 ^ 64 \<Longrightarrow> limiter_inv n (ConnectionLimiter_new config)"
  by (simp add: limiter_inv_def ConnectionLimiter_new_def ids_of_def open_from_def)

text \<open>C12: After any sequence of operations of the limiter, fewer than \<open>2\<^sup>64 - 1\<close> of them, the table for each address
  lists exactly the open connections from it and the statistics count the open connections; the next
  connection is admitted exactly when both limits leave room for it, and a limit of zero is no limit.\<close>

theorem connection_limits_exact:
  assumes "length ops + 1 < 2 ^ 64"
  shows "let s = fst (run limiter_step (ConnectionLimiter_new config) ops); c = cl_config s in
    (\<forall>ip. ids_of s ip = open_from s ip) \<and> cst_current (cl_stats s) = length (cl_connections s) \<and>
    cst_current (cl_stats s) \<le> cst_peak (cl_stats s) \<and>
    ((\<exists>i. snd (limiter_step s (Acquire now ip)) = Admitted i) \<longleftrightarrow>
      (clc_max_total c = 0 \<or> length (cl_connections s) < clc_max_total c) \<and>
      (clc_max_per_ip c = 0 \<or> length (filter (\<lambda>(i, d). ci_ip d = ip) (cl_connections s)) < clc_max_per_ip c))"
proof -
  let ?s = "fst (run limiter_step (ConnectionLimiter_new config) ops)"
  have inv: "limiter_inv 0 ?s" by (rule limiter_run_inv) (use limiter_new_inv [OF assms] in simp)
  then have "length (ids_of ?s ip) = length (filter (\<lambda>(i, d). ci_ip d = ip) (cl_connections ?s))"
    by (simp add: limiter_inv_def open_from_def)
  then show ?thesis using inv
    by (auto simp: Let_def limiter_inv_def acquire_def can_accept_def register_connection_def split: if_splits)
qed

definition demo_limiter_ops :: "limiter_op list" where
  "demo_limiter_ops = [UpdateConfig (conn_limit_config_default\<lparr>clc_max_per_ip := 1\<rparr>), Acquire 0 (V4 1), Acquire 5 (V4 2), Unregister 1]"

theorem connection_limits_exact_witness:
  "let s = fst (run limiter_step (ConnectionLimiter_new conn_limit_config_default) demo_limiter_ops) in
   (\<exists>i. snd (limiter_step s (Acquire 9 (V4 1))) = Admitted i) \<and> \<not> (\<exists>i. snd (limiter_step s (Acquire 9 (V4 2))) = Admitted i)"
proof -
  let ?s = "fst (run limiter_step (ConnectionLimiter_new conn_limit_config_default) demo_limiter_ops)"
  have "map (\<lambda>(i, d). ci_ip d) (cl_connections ?s) = [V4 2] \<and> clc_max_per_ip (cl_config ?s) = 1 \<and> clc_max_total (cl_config ?s) = 1000"
    by code_simp
  then have c: "clc_max_per_ip (cl_config ?s) = 1" "clc_max_total (cl_config ?s) = 1000"
      "length (cl_connections ?s) = 1" "map (\<lambda>(i, d). ci_ip d) (cl_connections ?s) = [V4 2]"
    by (auto dest: arg_cong [of _ _ length])
  then obtain i d where "cl_connections ?s = [(i, d)]" "ci_ip d = V4 2" by (cases "cl_connections ?s") auto
  with c show ?thesis
    using connection_limits_exact [of demo_limiter_ops conn_limit_config_default 9 "V4 1"]
      connection_limits_exact [of demo_limiter_ops conn_limit_config_default 9 "V4 2"]
    by (simp add: Let_def demo_limiter_ops_def)
qed

text \<open>No operation of the limiter but \<^verbatim>\<open>record_rejection\<close>, which has no caller, counts a refused connection.\<close>

lemma rejections_not_counted:
  "op \<noteq> RecordRejection \<Longrightarrow> cst_rejected (cl_stats (fst (limiter_step s op))) = cst_rejected (cl_stats s)"
proof -
  have un: "cst_rejected (cl_stats (unregister_connection i s)) = cst_rejected (cl_stats s)" for i s
    by (simp add: unregister_connection_def Let_def split: option.split)
  have "cst_rejected (cl_stats (foldl reap_one s is)) = cst_rejected (cl_stats s)" for s "is"
    by (induction "is" arbitrary: s) (simp_all add: reap_one_def Let_def un)
  then show "op \<noteq> RecordRejection \<Longrightarrow> ?thesis"
    by (cases op) (auto simp: un acquire_def register_connection_def Let_def update_activity_def reap_idle_connections_def
        split: sum.split option.split)
qed

end
