(* ===== verification/Auth_Security.thy ===== *)
theory Auth_Security
  imports Net_Addr "HOL-Library.AList"
begin

text \<open>
  Model of \<^verbatim>\<open>crates/rusmes-auth/src/security.rs\<close>: lockout after failed logins, the limit of attempts for each address,
  password rules and the audit log.  Every reading of the clock in one call is an argument (the function
  \<open>clk\<close> gives the time of the first, second, ... reading, in seconds).  Arithmetic on \<^verbatim>\<open>u64\<close> and \<^verbatim>\<open>u32\<close> wraps, as in a
  release build.  The entropy of a password, a floating-point number, and the Unicode classes are
  parameters.
\<close>

section \<open>Configuration\<close>

record brute_force_config =
  bfc_max_attempts :: nat
  bfc_lockout_duration_secs :: nat
  bfc_attempt_window_secs :: nat
  bfc_progressive_lockout :: bool

definition brute_force_config_default :: brute_force_config where
  "brute_force_config_default =
     \<lparr>bfc_max_attempts = 5, bfc_lockout_duration_secs = 900, bfc_attempt_window_secs = 300, bfc_progressive_lockout = True\<rparr>"

record password_config =
  pwc_min_length :: nat
  pwc_require_uppercase :: bool
  pwc_require_lowercase :: bool
  pwc_require_digit :: bool
  pwc_require_special :: bool
  pwc_banned_passwords :: "string list"

definition password_config_default :: password_config where
  "password_config_default =
     \<lparr>pwc_min_length = 8, pwc_require_uppercase = True, pwc_require_lowercase = True, pwc_require_digit = True,
      pwc_require_special = True, pwc_banned_passwords = [''password'', ''123456'', ''qwerty'', ''admin'', ''letmein'']\<rparr>"

record auth_rate_config =
  arc_max_requests :: nat
  arc_window_secs :: nat

definition auth_rate_config_default :: auth_rate_config where
  "auth_rate_config_default = \<lparr>arc_max_requests = 10, arc_window_secs = 60\<rparr>"

record security_config =
  sc_brute_force :: brute_force_config
  sc_password_strength :: password_config
  sc_rate_limit :: auth_rate_config
  sc_enable_audit_log :: bool

definition security_config_default :: security_config where
  "security_config_default =
     \<lparr>sc_brute_force = brute_force_config_default, sc_password_strength = password_config_default,
      sc_rate_limit = auth_rate_config_default, sc_enable_audit_log = True\<rparr>"

section \<open>Audit log\<close>

datatype auth_event =
    EvSuccess | EvFailure | EvAccountLocked | EvRateLimitExceeded | EvPasswordChanged | EvUserCreated | EvUserDeleted

record audit_entry =
  ae_timestamp :: nat
  ae_event :: auth_event
  ae_username :: string
  ae_ip_address :: "ip_addr option"
  ae_details :: "string option"

record audit_logger =
  al_entries :: "audit_entry list"
  al_max_entries :: nat

definition AuditLogger_new :: "nat \<Rightarrow> audit_logger" where
  "AuditLogger_new max_entries = \<lparr>al_entries = [], al_max_entries = max_entries\<rparr>"

definition audit_log :: "nat \<Rightarrow> auth_event \<Rightarrow> string \<Rightarrow> ip_addr option \<Rightarrow> string option \<Rightarrow> audit_logger \<Rightarrow> audit_logger" where
  "audit_log now ev user ip details l =
     (let entries = al_entries l @ [\<lparr>ae_timestamp = now, ae_event = ev, ae_username = user, ae_ip_address = ip, ae_details = details\<rparr>]
      in l\<lparr>al_entries := (if al_max_entries l < length entries then drop (length entries - al_max_entries l) entries else entries)\<rparr>)"

definition get_recent :: "nat \<Rightarrow> audit_logger \<Rightarrow> audit_entry list" where
  "get_recent count l = drop (length (al_entries l) - count) (al_entries l)"

definition get_for_user :: "string \<Rightarrow> audit_logger \<Rightarrow> audit_entry list" where
  "get_for_user user l = filter (\<lambda>e. ae_username e = user) (al_entries l)"

section \<open>Lockout\<close>

record lockout_info =
  lo_locked_at :: nat
  lo_duration_secs :: nat
  lo_count :: nat

record brute_force =
  bf_config :: brute_force_config
  bf_user_attempts :: "(string \<times> nat list) list"
  bf_ip_attempts :: "(ip_addr \<times> nat list) list"
  bf_locked_accounts :: "(string \<times> lockout_info) list"
  bf_locked_ips :: "(ip_addr \<times> lockout_info) list"

definition BruteForceProtector_new :: "brute_force_config \<Rightarrow> brute_force" where
  "BruteForceProtector_new config =
     \<lparr>bf_config = config, bf_user_attempts = [], bf_ip_attempts = [], bf_locked_accounts = [], bf_locked_ips = []\<rparr>"

definition u64_sub :: "nat \<Rightarrow> nat \<Rightarrow> nat" where
  "u64_sub a b = (a + 2 ^ 64 - b mod 2 ^ 64) mod 2 ^ 64"

text \<open>The seconds that are left of a lockout; users and addresses have the same rules.\<close>

definition lock_remaining :: "nat \<Rightarrow> ('k \<times> lockout_info) list \<Rightarrow> 'k \<Rightarrow> nat option" where
  "lock_remaining now locked k =
     (case map_of locked k of
        Some l \<Rightarrow>
          let unlock_time = usize_add (lo_locked_at l) (lo_duration_secs l) in
          if now < unlock_time then Some (unlock_time - now) else None
      | None \<Rightarrow> None)"

definition is_user_locked :: "nat \<Rightarrow> string \<Rightarrow> brute_force \<Rightarrow> bool" where
  "is_user_locked now user s = (lock_remaining now (bf_locked_accounts s) user \<noteq> None)"

definition is_ip_locked :: "nat \<Rightarrow> ip_addr \<Rightarrow> brute_force \<Rightarrow> bool" where
  "is_ip_locked now ip s = (lock_remaining now (bf_locked_ips s) ip \<noteq> None)"

definition get_unlock_time :: "nat \<Rightarrow> string \<Rightarrow> brute_force \<Rightarrow> nat option" where
  "get_unlock_time now user s = lock_remaining now (bf_locked_accounts s) user"

definition next_lockout :: "brute_force_config \<Rightarrow> nat \<Rightarrow> lockout_info option \<Rightarrow> lockout_info" where
  "next_lockout config now old =
     (let n = (case old of Some l \<Rightarrow> (lo_count l + 1) mod 2 ^ 32 | None \<Rightarrow> 1)
      in \<lparr>lo_locked_at = now,
          lo_duration_secs =
            (if bfc_progressive_lockout config then bfc_lockout_duration_secs config * (2 ^ (n - 1) mod 2 ^ 64) mod 2 ^ 64
             else bfc_lockout_duration_secs config),
          lo_count = n\<rparr>)"

definition lock_user :: "nat \<Rightarrow> string \<Rightarrow> brute_force \<Rightarrow> brute_force" where
  "lock_user now user s =
     s\<lparr>bf_locked_accounts :=
          AList.update user (next_lockout (bf_config s) now (map_of (bf_locked_accounts s) user)) (bf_locked_accounts s),
       bf_user_attempts := AList.delete user (bf_user_attempts s)\<rparr>"

definition lock_ip :: "nat \<Rightarrow> ip_addr \<Rightarrow> brute_force \<Rightarrow> brute_force" where
  "lock_ip now ip s =
     s\<lparr>bf_locked_ips := AList.update ip (next_lockout (bf_config s) now (map_of (bf_locked_ips s) ip)) (bf_locked_ips s),
       bf_ip_attempts := AList.delete ip (bf_ip_attempts s)\<rparr>"

text \<open>The attempts of a key inside the window, with the new one.\<close>

definition with_attempt :: "brute_force_config \<Rightarrow> nat \<Rightarrow> nat list option \<Rightarrow> nat list" where
  "with_attempt config now old =
     filter (\<lambda>t. u64_sub now (bfc_attempt_window_secs config) < t) (case old of Some ts \<Rightarrow> ts | None \<Rightarrow> []) @ [now]"

definition record_failed_attempt :: "(nat \<Rightarrow> nat) \<Rightarrow> string \<Rightarrow> ip_addr option \<Rightarrow> brute_force \<Rightarrow> brute_force" where
  "record_failed_attempt clk user ip s =
     (let now = clk 0;
          user_attempts = with_attempt (bf_config s) now (map_of (bf_user_attempts s) user);
          s1 = s\<lparr>bf_user_attempts := AList.update user user_attempts (bf_user_attempts s)\<rparr>;
          s2 = (if bfc_max_attempts (bf_config s) \<le> length user_attempts mod 2 ^ 32 then lock_user (clk 1) user s1 else s1)
      in case ip of
           None \<Rightarrow> s2
         | Some a \<Rightarrow>
             let ip_attempts = with_attempt (bf_config s) now (map_of (bf_ip_attempts s2) a);
                 s3 = s2\<lparr>bf_ip_attempts := AList.update a ip_attempts (bf_ip_attempts s2)\<rparr>
             in if bfc_max_attempts (bf_config s) \<le> length ip_attempts mod 2 ^ 32 then lock_ip (clk 2) a s3 else s3)"

definition clear_user_attempts :: "string \<Rightarrow> brute_force \<Rightarrow> brute_force" where
  "clear_user_attempts user s = s\<lparr>bf_user_attempts := AList.delete user (bf_user_attempts s)\<rparr>"

definition clear_ip_attempts :: "ip_addr \<Rightarrow> brute_force \<Rightarrow> brute_force" where
  "clear_ip_attempts ip s = s\<lparr>bf_ip_attempts := AList.delete ip (bf_ip_attempts s)\<rparr>"

definition unlock_user :: "string \<Rightarrow> brute_force \<Rightarrow> brute_force" where
  "unlock_user user s =
     s\<lparr>bf_locked_accounts := AList.delete user (bf_locked_accounts s), bf_user_attempts := AList.delete user (bf_user_attempts s)\<rparr>"

definition unlock_ip :: "ip_addr \<Rightarrow> brute_force \<Rightarrow> brute_force" where
  "unlock_ip ip s = s\<lparr>bf_locked_ips := AList.delete ip (bf_locked_ips s), bf_ip_attempts := AList.delete ip (bf_ip_attempts s)\<rparr>"

section \<open>Passwords\<close>

record char_classes =
  cc_upper :: "string \<Rightarrow> bool"
  cc_lower :: "string \<Rightarrow> bool"
  cc_alnum :: "string \<Rightarrow> bool"

text \<open>The errors of a password; \<open>weak\<close> is the message when its entropy is below the minimum.\<close>

definition validate_password ::
    "char_classes \<Rightarrow> (string \<Rightarrow> string) \<Rightarrow> (string \<Rightarrow> string option) \<Rightarrow> password_config \<Rightarrow> string \<Rightarrow> bool \<times> string list" where
  "validate_password cc lc weak config password =
     (let chars = utf8_chars password;
          errors =
            (if length password < pwc_min_length config
             then [''Password must be at least '' @ show_nat (pwc_min_length config) @ '' characters long''] else []) @
            (if pwc_require_uppercase config \<and> \<not> list_ex (cc_upper cc) chars
             then [''Password must contain at least one uppercase letter''] else []) @
            (if pwc_require_lowercase config \<and> \<not> list_ex (cc_lower cc) chars
             then [''Password must contain at least one lowercase letter''] else []) @
            (if pwc_require_digit config \<and> \<not> list_ex (\<lambda>c. length c = 1 \<and> is_ascii_digit (hd c)) chars
             then [''Password must contain at least one digit''] else []) @
            (if pwc_require_special config \<and> \<not> list_ex (\<lambda>c. \<not> cc_alnum cc c) chars
             then [''Password must contain at least one special character''] else []) @
            (if list_ex (\<lambda>banned. str_contains (lc password) (lc banned)) (pwc_banned_passwords config)
             then [''Password contains a commonly used word or pattern''] else []) @
            (case weak password of Some e \<Rightarrow> [e] | None \<Rightarrow> [])
      in (errors = [], errors))"

section \<open>The limit of attempts for an address\<close>

record auth_rate_limiter =
  ar_config :: auth_rate_config
  ar_counts :: "(ip_addr \<times> nat list) list"

definition auth_check_rate_limit :: "nat \<Rightarrow> ip_addr \<Rightarrow> auth_rate_limiter \<Rightarrow> auth_rate_limiter \<times> bool" where
  "auth_check_rate_limit now ip s =
     (let cutoff = u64_sub now (arc_window_secs (ar_config s));
          kept = filter (\<lambda>t. cutoff < t) (case map_of (ar_counts s) ip of Some ts \<Rightarrow> ts | None \<Rightarrow> [])
      in if arc_max_requests (ar_config s) \<le> length kept then (s\<lparr>ar_counts := AList.update ip kept (ar_counts s)\<rparr>, False)
         else (s\<lparr>ar_counts := AList.update ip (kept @ [now]) (ar_counts s)\<rparr>, True))"

definition auth_reset_limit :: "ip_addr \<Rightarrow> auth_rate_limiter \<Rightarrow> auth_rate_limiter" where
  "auth_reset_limit ip s = s\<lparr>ar_counts := AList.delete ip (ar_counts s)\<rparr>"

section \<open>The security manager\<close>

record auth_security =
  as_config :: security_config
  as_brute_force :: brute_force
  as_rate_limiter :: auth_rate_limiter
  as_audit_logger :: "audit_logger option"

definition AuthSecurity_new :: "security_config \<Rightarrow> auth_security" where
  "AuthSecurity_new config =
     \<lparr>as_config = config, as_brute_force = BruteForceProtector_new (sc_brute_force config),
      as_rate_limiter = \<lparr>ar_config = sc_rate_limit config, ar_counts = []\<rparr>,
      as_audit_logger = (if sc_enable_audit_log config then Some (AuditLogger_new 10000) else None)\<rparr>"

definition log_event :: "nat \<Rightarrow> auth_event \<Rightarrow> string \<Rightarrow> ip_addr option \<Rightarrow> string option \<Rightarrow> auth_security \<Rightarrow> auth_security" where
  "log_event now ev user ip details s =
     s\<lparr>as_audit_logger := map_option (audit_log now ev user ip details) (as_audit_logger s)\<rparr>"

definition check_user_lockout :: "(nat \<Rightarrow> nat) \<Rightarrow> string \<Rightarrow> ip_addr option \<Rightarrow> auth_security \<Rightarrow> auth_security \<times> unit result" where
  "check_user_lockout clk user ip s =
     (if is_user_locked (clk 2) user (as_brute_force s) then
        (case get_unlock_time (clk 3) user (as_brute_force s) of
           Some remaining \<Rightarrow>
             (log_event (clk 4) EvAccountLocked user ip (Some (''Account locked for '' @ show_nat remaining @ '' seconds'')) s,
              Inl (''Account is temporarily locked. Try again in '' @ show_nat remaining @ '' seconds''))
         | None \<Rightarrow> (s, Inr ()))
      else (s, Inr ()))"

definition check_auth_attempt :: "(nat \<Rightarrow> nat) \<Rightarrow> string \<Rightarrow> ip_addr option \<Rightarrow> auth_security \<Rightarrow> auth_security \<times> unit result" where
  "check_auth_attempt clk user ip s =
     (case ip of
        None \<Rightarrow> check_user_lockout clk user ip s
      | Some a \<Rightarrow>
          (case auth_check_rate_limit (clk 0) a (as_rate_limiter s) of (rl, allowed) \<Rightarrow>
             let s1 = s\<lparr>as_rate_limiter := rl\<rparr> in
             if \<not> allowed then
               (log_event (clk 4) EvRateLimitExceeded user (Some a) None s1, Inl ''Rate limit exceeded for IP address'')
             else if is_ip_locked (clk 1) a (as_brute_force s1) then
               (log_event (clk 4) EvAccountLocked user (Some a) (Some ''IP address locked'') s1, Inl ''IP address is temporarily locked'')
             else check_user_lockout clk user ip s1))"

definition record_auth_success :: "nat \<Rightarrow> string \<Rightarrow> ip_addr option \<Rightarrow> auth_security \<Rightarrow> auth_security" where
  "record_auth_success now user ip s =
     (let bf = clear_user_attempts user (as_brute_force s);
          bf' = (case ip of Some a \<Rightarrow> clear_ip_attempts a bf | None \<Rightarrow> bf)
      in log_event now EvSuccess user ip None (s\<lparr>as_brute_force := bf'\<rparr>))"

definition record_auth_failure :: "(nat \<Rightarrow> nat) \<Rightarrow> string \<Rightarrow> ip_addr option \<Rightarrow> auth_security \<Rightarrow> auth_security" where
  "record_auth_failure clk user ip s =
     log_event (clk 3) EvFailure user ip None (s\<lparr>as_brute_force := record_failed_attempt clk user ip (as_brute_force s)\<rparr>)"

definition check_password_strength ::
    "char_classes \<Rightarrow> (string \<Rightarrow> string) \<Rightarrow> (string \<Rightarrow> string option) \<Rightarrow> string \<Rightarrow> auth_security \<Rightarrow> unit result" where
  "check_password_strength cc lc weak password s =
     (case validate_password cc lc weak (sc_password_strength (as_config s)) password of (valid, errors) \<Rightarrow>
        if valid then Inr () else Inl (''Password strength validation failed: '' @ str_join '', '' errors))"

definition security_unlock_user :: "string \<Rightarrow> auth_security \<Rightarrow> auth_security" where
  "security_unlock_user user s = s\<lparr>as_brute_force := unlock_user user (as_brute_force s)\<rparr>"

definition security_unlock_ip :: "ip_addr \<Rightarrow> auth_security \<Rightarrow> auth_security" where
  "security_unlock_ip ip s = s\<lparr>as_brute_force := unlock_ip ip (as_brute_force s)\<rparr>"

definition security_reset_rate_limit :: "ip_addr \<Rightarrow> auth_security \<Rightarrow> auth_security" where
  "security_reset_rate_limit ip s = s\<lparr>as_rate_limiter := auth_reset_limit ip (as_rate_limiter s)\<rparr>"

section \<open>A backend behind the security manager\<close>

text \<open>The wrapper that the example program of the crate puts around a backend.\<close>

record login_attempt =
  la_user :: string
  la_password :: string
  la_ip :: "ip_addr option"
  la_check_clock :: "nat \<Rightarrow> nat"
  la_record_clock :: "nat \<Rightarrow> nat"

definition authenticate_secure ::
    "(string \<Rightarrow> string \<Rightarrow> bool result) \<Rightarrow> auth_security \<Rightarrow> login_attempt \<Rightarrow> auth_security \<times> bool result" where
  "authenticate_secure auth s a =
     (case check_auth_attempt (la_check_clock a) (la_user a) (la_ip a) s of
        (s1, Inl e) \<Rightarrow> (s1, Inl e)
      | (s1, Inr _) \<Rightarrow>
          (case auth (la_user a) (la_password a) of
             Inl e \<Rightarrow> (s1, Inl e)
           | Inr True \<Rightarrow> (record_auth_success (la_record_clock a 0) (la_user a) (la_ip a) s1, Inr True)
           | Inr False \<Rightarrow> (record_auth_failure (la_record_clock a) (la_user a) (la_ip a) s1, Inr False)))"

section \<open>Guessing a password\<close>

lemma u64_sub_exact: "b \<le> a \<Longrightarrow> a < 2 ^ 64 \<Longrightarrow> u64_sub a b = a - b"
proof -
  assume "b \<le> a" "a < 2 ^ 64"
  then have "a + 2 ^ 64 - b mod 2 ^ 64 = (a - b) + 2 ^ 64" by simp
  then show ?thesis using \<open>a < 2 ^ 64\<close> unfolding u64_sub_def by (simp only: mod_add_self2) simp
qed

lemma log_event_parts [simp]:
  "as_brute_force (log_event now ev user ip details s) = as_brute_force s"
  "as_rate_limiter (log_event now ev user ip details s) = as_rate_limiter s"
  by (simp_all add: log_event_def)

lemma check_keeps_lockouts: "as_brute_force (fst (check_auth_attempt clk user ip s)) = as_brute_force s"
  by (simp add: check_auth_attempt_def check_user_lockout_def Let_def split: option.split prod.split)

abbreviation user_attempts_of :: "string \<Rightarrow> auth_security \<Rightarrow> nat list" where
  "user_attempts_of u s \<equiv> (case map_of (bf_user_attempts (as_brute_force s)) u of Some ts \<Rightarrow> ts | None \<Rightarrow> [])"

abbreviation user_lockout :: "string \<Rightarrow> auth_security \<Rightarrow> lockout_info option" where
  "user_lockout u s \<equiv> map_of (bf_locked_accounts (as_brute_force s)) u"

lemma failure_fields:
  "bf_config (record_failed_attempt clk user ip s) = bf_config s"
  "u \<noteq> user \<Longrightarrow> map_of (bf_user_attempts (record_failed_attempt clk user ip s)) u = map_of (bf_user_attempts s) u"
  "u \<noteq> user \<Longrightarrow> map_of (bf_locked_accounts (record_failed_attempt clk user ip s)) u = map_of (bf_locked_accounts s) u"
  by (auto simp: record_failed_attempt_def Let_def lock_user_def lock_ip_def update_conv' delete_conv' split: option.split)

lemma failure_own:
  fixes s user clk
  defines "ts \<equiv> with_attempt (bf_config s) (clk 0) (map_of (bf_user_attempts s) user)"
  shows "map_of (bf_user_attempts (record_failed_attempt clk user ip s)) user =
      (if bfc_max_attempts (bf_config s) \<le> length ts mod 2 ^ 32 then None else Some ts)"
    "map_of (bf_locked_accounts (record_failed_attempt clk user ip s)) user =
      (if bfc_max_attempts (bf_config s) \<le> length ts mod 2 ^ 32
       then Some (next_lockout (bf_config s) (clk 1) (map_of (bf_locked_accounts s) user)) else map_of (bf_locked_accounts s) user)"
  unfolding ts_def
  by (auto simp: record_failed_attempt_def Let_def lock_user_def lock_ip_def update_conv' delete_conv' split: option.split)

text \<open>An attempt for another user, and one that is refused, leave the record of a user alone.\<close>

lemma attempt_other:
  assumes "la_user a \<noteq> u \<or> isl (snd (check_auth_attempt (la_check_clock a) (la_user a) (la_ip a) s))"
  shows "user_attempts_of u (fst (authenticate_secure auth s a)) = user_attempts_of u s"
    "user_lockout u (fst (authenticate_secure auth s a)) = user_lockout u s"
    "bf_config (as_brute_force (fst (authenticate_secure auth s a))) = bf_config (as_brute_force s)"
proof -
  obtain s1 r where c: "check_auth_attempt (la_check_clock a) (la_user a) (la_ip a) s = (s1, r)" by fastforce
  have s1: "as_brute_force s1 = as_brute_force s" using check_keeps_lockouts c by (metis fst_conv)
  have "bf_user_attempts (clear_user_attempts v b) = AList.delete v (bf_user_attempts b)"
    "bf_user_attempts (clear_ip_attempts i b) = bf_user_attempts b" "bf_locked_accounts (clear_user_attempts v b) = bf_locked_accounts b"
    "bf_locked_accounts (clear_ip_attempts i b) = bf_locked_accounts b" "bf_config (clear_user_attempts v b) = bf_config b"
    "bf_config (clear_ip_attempts i b) = bf_config b" for v i b
    by (simp_all add: clear_user_attempts_def clear_ip_attempts_def)
  note clear = this
  show "user_attempts_of u (fst (authenticate_secure auth s a)) = user_attempts_of u s"
    "user_lockout u (fst (authenticate_secure auth s a)) = user_lockout u s"
    "bf_config (as_brute_force (fst (authenticate_secure auth s a))) = bf_config (as_brute_force s)"
    using assms c s1
    by (auto simp: authenticate_secure_def record_auth_success_def record_auth_failure_def Let_def failure_fields clear delete_conv'
        split: sum.split bool.split option.split)
qed

text \<open>The guesses for a user that the backend has answered.\<close>

definition guesses :: "string \<Rightarrow> login_attempt list \<Rightarrow> bool result list \<Rightarrow> nat" where
  "guesses u as rs = length (filter (\<lambda>(a, r). la_user a = u \<and> \<not> isl r) (zip as rs))"

definition inside_window :: "nat \<Rightarrow> nat \<Rightarrow> login_attempt \<Rightarrow> bool" where
  "inside_window t0 w a \<longleftrightarrow>
     (\<forall>i \<le> 4. t0 \<le> la_check_clock a i \<and> la_check_clock a i < t0 + w \<and> t0 \<le> la_record_clock a i \<and> la_record_clock a i < t0 + w)"

definition locked_until :: "nat \<Rightarrow> string \<Rightarrow> auth_security \<Rightarrow> bool" where
  "locked_until t u s \<longleftrightarrow> (\<exists>l. user_lockout u s = Some l \<and> lo_locked_at l + lo_duration_secs l < 2 ^ 64 \<and> t \<le> lo_locked_at l + lo_duration_secs l)"

lemma locked_refused:
  assumes "locked_until (t0 + w) u s" "inside_window t0 w a" "la_user a = u"
  shows "isl (snd (check_auth_attempt (la_check_clock a) (la_user a) (la_ip a) s))"
proof -
  have "isl (snd (check_user_lockout (la_check_clock a) u ip s'))" if "as_brute_force s' = as_brute_force s" for ip s'
    using assms that
    by (auto simp: check_user_lockout_def is_user_locked_def get_unlock_time_def lock_remaining_def locked_until_def inside_window_def
        usize_add_def Let_def dest: spec [of _ 2] spec [of _ 3])
  then show ?thesis using assms(3) by (auto simp: check_auth_attempt_def Let_def split: option.split prod.split)
qed

text \<open>The lockout that comes next for a user lasts at least for the window.\<close>

definition lockout_ready :: "nat \<Rightarrow> nat \<Rightarrow> string \<Rightarrow> auth_security \<Rightarrow> bool" where
  "lockout_ready t0 w u s \<longleftrightarrow>
     (let d = lo_duration_secs (next_lockout (bf_config (as_brute_force s)) t0 (user_lockout u s)) in w \<le> d \<and> t0 + w + d < 2 ^ 64)"

lemma next_lockout_times:
  "lo_duration_secs (next_lockout config t old) = lo_duration_secs (next_lockout config t' old)" "lo_locked_at (next_lockout config t old) = t"
  by (simp_all add: next_lockout_def Let_def)

lemma filter_shorter: "length xs < m \<Longrightarrow> length (filter P xs) < m"
  by (rule le_less_trans [OF length_filter_le])

lemma guess_step:
  assumes cfg: "bfc_max_attempts (bf_config (as_brute_force s)) = m" "bfc_attempt_window_secs (bf_config (as_brute_force s)) = w"
    and m: "m < 2 ^ 32" and w: "w \<le> t0" "t0 + w < 2 ^ 64" and few: "length (user_attempts_of u s) < m"
    and ready: "lockout_ready t0 w u s" and a: "inside_window t0 w a" "la_user a = u"
    and ok: "snd (check_auth_attempt (la_check_clock a) (la_user a) (la_ip a) s) = Inr ()" and wrong: "auth u (la_password a) = Inr False"
  defines "s' \<equiv> fst (authenticate_secure auth s a)"
  shows "locked_until (t0 + w) u s' \<or>
    length (user_attempts_of u s') < m \<and> lockout_ready t0 w u s' \<and>
    length (filter (\<lambda>t. t0 \<le> t) (user_attempts_of u s')) = Suc (length (filter (\<lambda>t. t0 \<le> t) (user_attempts_of u s)))"
    "bf_config (as_brute_force s') = bf_config (as_brute_force s)"
proof -
  let ?c = "bf_config (as_brute_force s)" and ?clk = "la_record_clock a"
  let ?ts = "with_attempt ?c (?clk 0) (map_of (bf_user_attempts (as_brute_force s)) u)"
  have clk: "t0 \<le> ?clk 0" "?clk 0 < t0 + w" "t0 \<le> ?clk 1" "?clk 1 < t0 + w" using a(1) by (auto simp: inside_window_def)
  obtain s1 where c: "check_auth_attempt (la_check_clock a) (la_user a) (la_ip a) s = (s1, Inr ())"
    using ok by (metis prod.collapse)
  have s1: "as_brute_force s1 = as_brute_force s" using check_keeps_lockouts c by (metis fst_conv)
  have bf: "as_brute_force s' = record_failed_attempt ?clk u (la_ip a) (as_brute_force s)"
    using c s1 wrong a(2) by (simp add: s'_def authenticate_secure_def record_auth_failure_def)
  show "bf_config (as_brute_force s') = ?c" by (simp add: bf failure_fields)
  have cutoff: "u64_sub (?clk 0) w = ?clk 0 - w" using clk w by (intro u64_sub_exact) simp_all
  have ts: "?ts = filter (\<lambda>t. ?clk 0 - w < t) (user_attempts_of u s) @ [?clk 0]" by (simp add: with_attempt_def cfg cutoff)
  have len: "length ?ts \<le> m" unfolding ts length_append using filter_shorter [OF few] by (simp add: Suc_le_eq)
  have "filter (\<lambda>t. t0 \<le> t) (filter (\<lambda>t. ?clk 0 - w < t) (user_attempts_of u s)) = filter (\<lambda>t. t0 \<le> t) (user_attempts_of u s)"
    unfolding filter_filter by (rule filter_cong [OF refl]) (use clk w in auto)
  then have fresh: "length (filter (\<lambda>t. t0 \<le> t) ?ts) = Suc (length (filter (\<lambda>t. t0 \<le> t) (user_attempts_of u s)))"
    unfolding ts using clk by simp
  note own = failure_own [of ?clk u "la_ip a" "as_brute_force s"]
  show "locked_until (t0 + w) u s' \<or>
    length (user_attempts_of u s') < m \<and> lockout_ready t0 w u s' \<and>
    length (filter (\<lambda>t. t0 \<le> t) (user_attempts_of u s')) = Suc (length (filter (\<lambda>t. t0 \<le> t) (user_attempts_of u s)))"
  proof (cases "m \<le> length ?ts")
    case True
    then have "user_lockout u s' = Some (next_lockout ?c (?clk 1) (user_lockout u s))" using own(2) len m cfg(1) bf by simp
    then have "locked_until (t0 + w) u s'"
      using ready clk next_lockout_times(1) [of ?c "?clk 1" "user_lockout u s" t0] unfolding locked_until_def lockout_ready_def Let_def
      by (auto simp: next_lockout_times(2))
    then show ?thesis ..
  next
    case False
    then have "user_lockout u s' = user_lockout u s" "map_of (bf_user_attempts (as_brute_force s')) u = Some ?ts"
      using own len m cfg(1) bf by simp_all
    then show ?thesis using False fresh ready by (simp add: lockout_ready_def bf failure_fields)
  qed
qed

lemma guesses_locked:
  "locked_until (t0 + w) u s \<Longrightarrow> list_all (inside_window t0 w) as \<Longrightarrow> guesses u as (snd (run (authenticate_secure auth) s as)) = 0"
proof (induction as arbitrary: s)
  case (Cons a as)
  have refused: "la_user a = u \<Longrightarrow> isl (snd (check_auth_attempt (la_check_clock a) (la_user a) (la_ip a) s))"
    using locked_refused Cons.prems by auto
  have "locked_until (t0 + w) u (fst (authenticate_secure auth s a))"
    using Cons.prems(1) attempt_other(2) [of a u s auth] refused by (auto simp: locked_until_def)
  with Cons have "guesses u as (snd (run (authenticate_secure auth) (fst (authenticate_secure auth s a)) as)) = 0" by simp
  moreover have "la_user a = u \<Longrightarrow> isl (snd (authenticate_secure auth s a))"
    using refused by (auto simp: authenticate_secure_def split: prod.split sum.split)
  ultimately show ?case by (auto simp: guesses_def case_prod_beta)
qed (simp add: guesses_def)


definition demo_guess :: "nat \<Rightarrow> login_attempt" where
  "demo_guess n = \<lparr>la_user = ''al'', la_password = ''x'', la_ip = Some (V4 (word_of_nat n)), la_check_clock = (\<lambda>i. 1000 + n), la_record_clock = (\<lambda>i. 1000 + n)\<rparr>"

definition demo_guess_auth :: "string \<Rightarrow> string \<Rightarrow> bool result" where
  "demo_guess_auth user password = Inr (password = ''pw'')"


text \<open>The duration of a lockout doubles each time and is computed in 64 bits: with the default configuration the
  63rd lockout of an account and every later one last zero seconds, so the account is never locked again.\<close>

theorem progressive_lockout_vanishes:
  assumes "bf_config s = brute_force_config_default" "map_of (bf_locked_accounts s) user = Some l" "62 \<le> lo_count l" "lo_count l < 2 ^ 32 - 1"
    and "now < 2 ^ 64" "now \<le> t"
  shows "\<not> is_user_locked t user (lock_user now user s)"
proof -
  have "2 ^ 62 dvd (2 :: nat) ^ lo_count l" using assms(3) by (rule le_imp_power_dvd)
  then obtain k where k: "(2 :: nat) ^ lo_count l = 2 ^ 62 * k" by (elim dvdE)
  have "900 * ((2 :: nat) ^ lo_count l mod 2 ^ 64) mod 2 ^ 64 = 900 * (2 ^ 62 * k) mod 2 ^ 64" unfolding k by (rule mod_mult_right_eq)
  also have "900 * (2 ^ 62 * k) = 2 ^ 64 * (225 * k)" by simp
  finally have "900 * ((2 :: nat) ^ lo_count l mod 2 ^ 64) mod 2 ^ 64 = 0" by simp
  moreover have "(lo_count l + 1) mod 2 ^ 32 = lo_count l + 1" using assms(4) by simp
  ultimately have "lo_duration_secs (next_lockout (bf_config s) now (Some l)) = 0"
    unfolding next_lockout_def Let_def by (simp add: assms(1) brute_force_config_default_def)
  then show ?thesis using assms(2,5,6)
    by (simp add: is_user_locked_def lock_remaining_def lock_user_def update_conv' usize_add_def next_lockout_times)
qed

theorem progressive_lockout_vanishes_witness:
  "\<not> is_user_locked 1000 ''al'' (lock_user 1000 ''al'' ((BruteForceProtector_new brute_force_config_default)
     \<lparr>bf_locked_accounts := [(''al'', \<lparr>lo_locked_at = 0, lo_duration_secs = 2 ^ 63, lo_count = 62\<rparr>)]\<rparr>))"
  by (rule progressive_lockout_vanishes [where l = "\<lparr>lo_locked_at = 0, lo_duration_secs = 2 ^ 63, lo_count = 62\<rparr>"])
    (simp_all add: BruteForceProtector_new_def)

section \<open>The sliding window\<close>

text \<open>The times of the admitted requests of an address.\<close>

definition admitted_times :: "ip_addr \<Rightarrow> (nat \<times> ip_addr) list \<Rightarrow> bool list \<Rightarrow> nat list" where
  "admitted_times ip es bs = map (\<lambda>(e, b). fst e) (filter (\<lambda>(e, b). snd e = ip \<and> b) (zip es bs))"

definition rate_request :: "auth_rate_limiter \<Rightarrow> nat \<times> ip_addr \<Rightarrow> auth_rate_limiter \<times> bool" where
  "rate_request s e = auth_check_rate_limit (fst e) (snd e) s"

lemma rate_request_step:
  fixes s :: auth_rate_limiter and ip now w
  assumes "arc_window_secs (ar_config s) = w" "w \<le> now" "now < 2 ^ 64"
  defines "kept \<equiv> filter (\<lambda>t. now - w < t) (case map_of (ar_counts s) ip of Some ts \<Rightarrow> ts | None \<Rightarrow> [])"
  shows "ar_config (fst (rate_request s (now, ip))) = ar_config s"
    "snd (rate_request s (now, ip)) \<longleftrightarrow> length kept < arc_max_requests (ar_config s)"
    "map_of (ar_counts (fst (rate_request s (now, ip)))) ip' =
       (if ip' = ip then Some (if length kept < arc_max_requests (ar_config s) then kept @ [now] else kept) else map_of (ar_counts s) ip')"
  unfolding kept_def rate_request_def auth_check_rate_limit_def Let_def fst_conv snd_conv assms(1) u64_sub_exact [OF assms(2,3)]
  by (simp_all add: update_conv' not_le)

abbreviation stored_times :: "auth_rate_limiter \<Rightarrow> ip_addr \<Rightarrow> nat list" where
  "stored_times s ip \<equiv> (case map_of (ar_counts s) ip of Some ts \<Rightarrow> ts | None \<Rightarrow> [])"

lemma admitted_times_late:
  assumes "sorted (map fst (e # es))" "b \<le> fst e"
  shows "filter (\<lambda>t. a \<le> t \<and> t < b) (admitted_times ip (e # es) bs) = []"
  using assms by (fastforce simp: admitted_times_def filter_empty_conv dest!: set_zip_leftD)

lemma sliding_window_run:
  assumes "sorted (map fst es)" "list_all (\<lambda>(t, ip). w \<le> t \<and> t < 2 ^ 64) es" "arc_window_secs (ar_config s) = w"
    and "length (filter (\<lambda>t. a \<le> t \<and> t < a + w) (stored_times s ip)) \<le> arc_max_requests (ar_config s)"
  shows "length (filter (\<lambda>t. a \<le> t \<and> t < a + w) (admitted_times ip es (snd (run rate_request s es)))) +
      length (filter (\<lambda>t. a \<le> t \<and> t < a + w) (stored_times s ip)) \<le> arc_max_requests (ar_config s)"
  using assms
proof (induction es arbitrary: s)
  case Nil
  then show ?case by (simp add: admitted_times_def)
next
  case (Cons e es)
  obtain now src where e: "e = (now, src)" by fastforce
  let ?in = "\<lambda>t. a \<le> t \<and> t < a + w" and ?s' = "fst (rate_request s e)" and ?b = "snd (rate_request s e)"
  have clock: "w \<le> now" "now < 2 ^ 64" using Cons.prems(2) e by simp_all
  note st = rate_request_step [OF Cons.prems(3) clock, where ip = src, folded e]
  show ?case
  proof (cases "a + w \<le> now")
    case True
    have "filter ?in (admitted_times ip (e # es) (snd (run rate_request s (e # es)))) = []"
      by (rule admitted_times_late) (use Cons.prems(1) True e in simp_all)
    then show ?thesis using Cons.prems(4) by simp
  next
    case False
    let ?kept = "filter (\<lambda>t. now - w < t) (stored_times s src)"
    have kept: "filter ?in ?kept = filter ?in (stored_times s src)"
      unfolding filter_filter by (rule filter_cong [OF refl]) (use False clock in auto)
    have le: "length (filter ?in ?kept) \<le> length ?kept" by (rule length_filter_le)
    have new: "length (filter ?in (stored_times ?s' ip)) =
        length (filter ?in (stored_times s ip)) + (if src = ip \<and> ?b \<and> ?in now then 1 else 0)"
    proof (cases "src = ip")
      case True
      then have "stored_times ?s' ip = (if ?b then ?kept @ [now] else ?kept)" using st(2) st(3) [of ip] by (simp split: if_split)
      then show ?thesis using True kept by (simp del: filter_filter)
    qed (use st(3) [of ip] in simp)
    have "length (filter ?in (stored_times ?s' ip)) \<le> arc_max_requests (ar_config ?s')"
      unfolding new st(1) using Cons.prems(4) st(2) kept le by (cases "src = ip") (auto simp del: filter_filter length_filter_le)
    from Cons.IH [OF _ _ _ this] have IH: "length (filter ?in (admitted_times ip es (snd (run rate_request ?s' es)))) +
        length (filter ?in (stored_times ?s' ip)) \<le> arc_max_requests (ar_config s)"
      using Cons.prems(1-3) st(1) by simp
    have "admitted_times ip (e # es) (snd (run rate_request s (e # es))) =
        (if src = ip \<and> ?b then [now] else []) @ admitted_times ip es (snd (run rate_request ?s' es))"
      by (cases "src = ip") (simp_all add: admitted_times_def case_prod_beta e)
    then show ?thesis using IH unfolding new by (auto split: if_splits)
  qed
qed

text \<open>In every interval as long as the window an address has at most \<^verbatim>\<open>max_requests\<close> admitted requests, whatever the
  other addresses do, as long as the clock does not run backwards.\<close>

theorem auth_rate_sliding_window:
  assumes "sorted (map fst es)" "list_all (\<lambda>(t, ip). arc_window_secs config \<le> t \<and> t < 2 ^ 64) es"
  shows "length (filter (\<lambda>t. a \<le> t \<and> t < a + arc_window_secs config)
    (admitted_times ip es (snd (run rate_request \<lparr>ar_config = config, ar_counts = []\<rparr> es)))) \<le> arc_max_requests config"
  using sliding_window_run [of es "arc_window_secs config" "\<lparr>ar_config = config, ar_counts = []\<rparr>" a ip] assms by simp

theorem auth_rate_sliding_window_witness:
  "length (filter (\<lambda>t. 70 \<le> t \<and> t < 70 + 60) (admitted_times (V4 1) (map (\<lambda>n. (60 + n, V4 1)) [0..<100])
     (snd (run rate_request \<lparr>ar_config = auth_rate_config_default, ar_counts = []\<rparr> (map (\<lambda>n. (60 + n, V4 1)) [0..<100]))))) \<le> 10"
  using auth_rate_sliding_window [of "map (\<lambda>n. (60 + n, V4 1)) [0..<100]" auth_rate_config_default 70 "V4 1"]
  by (simp add: auth_rate_config_default_def comp_def list_all_iff sorted_iff_nth_mono)

end
