(* ===== verification/Spf_Check.thy ===== *)
theory Spf_Check
  imports Mailets
begin

text \<open>
  Model of the SPF mailet, \<^verbatim>\<open>crates/rusmes-core/src/mailets/spf_check.rs\<close>.  The DNS resolver and the \<^verbatim>\<open>ipnetwork\<close> crate
  are parameters; the parsers of addresses are those of the Rust standard library.  The state of an
  evaluation is the counter of lookups and the list of the queries sent so far.  The counter is a
  number without a bound: it grows by one for each mechanism that is evaluated.
\<close>

section \<open>Addresses in text\<close>

text \<open>The number reader of \<^verbatim>\<open>core::net\<close>: the value of the digits at the front and the rest, with at most \<open>max_digits\<close> digits.\<close>

definition hex_digit_value :: "char \<Rightarrow> nat option" where
  "hex_digit_value c =
     (if is_ascii_digit c then Some (digit_val c)
      else if 97 \<le> code_of c \<and> code_of c \<le> 102 then Some (code_of c - 87)
      else if 65 \<le> code_of c \<and> code_of c \<le> 70 then Some (code_of c - 55)
      else None)"

fun hex_run :: "nat \<Rightarrow> nat \<Rightarrow> string \<Rightarrow> nat \<times> nat \<times> string" where
  "hex_run n v [] = (n, v, [])"
| "hex_run n v (c # cs) = (case hex_digit_value c of None \<Rightarrow> (n, v, c # cs) | Some d \<Rightarrow> hex_run (n + 1) (16 * v + d) cs)"

definition read_hex_group :: "string \<Rightarrow> (nat \<times> string) option" where
  "read_hex_group s = (case hex_run 0 0 s of (n, v, rest) \<Rightarrow> if n = 0 \<or> 4 < n then None else Some (v, rest))"

definition read_octet :: "string \<Rightarrow> (nat \<times> string) option" where
  "read_octet s =
     (let ds = takeWhile is_ascii_digit s in
      if ds = [] \<or> 3 < length ds \<or> 255 < digits_val ds \<or> (hd ds = CHR ''0'' \<and> 1 < length ds) then None
      else Some (digits_val ds, drop (length ds) s))"

text \<open>The given number of octets, the first without and the others with a dot before it.\<close>

fun read_octets :: "nat \<Rightarrow> bool \<Rightarrow> string \<Rightarrow> (nat list \<times> string) option" where
  "read_octets 0 first s = Some ([], s)"
| "read_octets (Suc n) first s =
     (case (if first then Some s else strip_prefix ''.'' s) of
        None \<Rightarrow> None
      | Some t \<Rightarrow>
          (case read_octet t of
             None \<Rightarrow> None
           | Some (o1, rest) \<Rightarrow> (case read_octets n False rest of None \<Rightarrow> None | Some (os, u) \<Rightarrow> Some (o1 # os, u))))"

definition value_of :: "nat \<Rightarrow> nat list \<Rightarrow> nat" where
  "value_of base ds = foldl (\<lambda>v d. base * v + d) 0 ds"

definition parse_ipv4 :: "string \<Rightarrow> 32 word option" where
  "parse_ipv4 s =
     (if 15 < length s then None
      else case read_octets 4 True s of Some (os, []) \<Rightarrow> Some (word_of_nat (value_of 256 os)) | _ \<Rightarrow> None)"

text \<open>The groups of a version 6 address, at most \<open>limit\<close> of them: an address of version 4 stands for two groups.
  \<open>k\<close> is the number of groups read.\<close>

fun read_groups :: "nat \<Rightarrow> nat \<Rightarrow> string \<Rightarrow> nat list \<times> bool \<times> string" where
  "read_groups 0 k s = ([], False, s)"
| "read_groups (Suc left) k s =
     (let t = (if k = 0 then Some s else strip_prefix '':'' s);
          v4 = (case t of Some u \<Rightarrow> if 0 < left then read_octets 4 True u else None | None \<Rightarrow> None)
      in case v4 of
           Some (os, rest) \<Rightarrow> ([value_of 256 (take 2 os), value_of 256 (drop 2 os)], True, rest)
         | None \<Rightarrow>
             (case (case t of Some u \<Rightarrow> read_hex_group u | None \<Rightarrow> None) of
                Some (g, rest) \<Rightarrow> (case read_groups left (k + 1) rest of (gs, b, u) \<Rightarrow> (g # gs, b, u))
              | None \<Rightarrow> ([], False, s)))"

definition parse_ipv6 :: "string \<Rightarrow> 128 word option" where
  "parse_ipv6 s =
     (case read_groups 8 0 s of (head, head_v4, rest) \<Rightarrow>
        if length head = 8 then (if rest = [] then Some (word_of_nat (value_of 65536 head)) else None)
        else if head_v4 then None
        else case strip_prefix ''::'' rest of
          None \<Rightarrow> None
        | Some rest' \<Rightarrow>
            (case read_groups (8 - (length head + 1)) 0 rest' of (tail, b, rest'') \<Rightarrow>
               if rest'' = []
               then Some (word_of_nat (value_of 65536 (head @ replicate (8 - length head - length tail) 0 @ tail)))
               else None))"

section \<open>Records\<close>

type_synonym ipv4_network = "32 word \<times> nat"
type_synonym ipv6_network = "128 word \<times> nat"

record ip_networks =
  n4_parse :: "string \<Rightarrow> ipv4_network option"
  n4_new :: "32 word \<Rightarrow> nat \<Rightarrow> ipv4_network option"
  n4_contains :: "ipv4_network \<Rightarrow> 32 word \<Rightarrow> bool"
  n6_parse :: "string \<Rightarrow> ipv6_network option"
  n6_new :: "128 word \<Rightarrow> nat \<Rightarrow> ipv6_network option"
  n6_contains :: "ipv6_network \<Rightarrow> 128 word \<Rightarrow> bool"

datatype spf_mechanism =
    MechA "string option" "nat option"
  | MechMX "string option" "nat option"
  | MechIP4 ipv4_network
  | MechIP6 ipv6_network
  | MechInclude string
  | MechAll
  | MechExists string
  | MechPtr "string option"

datatype spf_qualifier = QualPass | QualFail | QualSoftFail | QualNeutral

datatype spf_result = SpfPass | SpfFail | SpfSoftFail | SpfNeutral | SpfTempError | SpfPermError | SpfNone

fun spf_as_str :: "spf_result \<Rightarrow> string" where
  "spf_as_str SpfPass = ''pass''"
| "spf_as_str SpfFail = ''fail''"
| "spf_as_str SpfSoftFail = ''softfail''"
| "spf_as_str SpfNeutral = ''neutral''"
| "spf_as_str SpfTempError = ''temperror''"
| "spf_as_str SpfPermError = ''permerror''"
| "spf_as_str SpfNone = ''none''"

definition parse_qualifier :: "string \<Rightarrow> spf_qualifier \<times> string" where
  "parse_qualifier s =
     (case s of
        [] \<Rightarrow> (QualPass, s)
      | c # cs \<Rightarrow>
          if c = CHR ''+'' then (QualPass, cs)
          else if c = CHR ''-'' then (QualFail, cs)
          else if c = CHR ''~'' then (QualSoftFail, cs)
          else if c = CHR ''?'' then (QualNeutral, cs)
          else (QualPass, s))"

text \<open>An error is \<^const>\<open>None\<close>: every caller drops its text.\<close>

definition parse_domain_and_prefix :: "string \<Rightarrow> (string option \<times> nat option) option" where
  "parse_domain_and_prefix s =
     (if s = [] then Some (None, None)
      else case strip_prefix '':'' s of
        Some rest \<Rightarrow>
          (case splitn2 (CHR ''/'') rest of
             [domain, prefix_str] \<Rightarrow> map_option (\<lambda>p. (Some domain, Some p)) (parse_uint 255 prefix_str)
           | _ \<Rightarrow> Some (Some rest, None))
      | None \<Rightarrow>
          (case strip_prefix ''/'' s of
             Some stripped \<Rightarrow> map_option (\<lambda>p. (None, Some p)) (parse_uint 255 stripped)
           | None \<Rightarrow> None))"

definition parse_mechanism :: "ip_networks \<Rightarrow> string \<Rightarrow> spf_mechanism option" where
  "parse_mechanism N s =
     (if s = ''all'' then Some MechAll
      else case strip_prefix ''include:'' s of Some domain \<Rightarrow> Some (MechInclude domain) | None \<Rightarrow>
      (case strip_prefix ''ip4:'' s of
         Some net \<Rightarrow>
           map_option MechIP4
             (if CHR ''/'' \<in> set net then n4_parse N net else Option.bind (parse_ipv4 net) (\<lambda>a. n4_new N a 32))
       | None \<Rightarrow>
      (case strip_prefix ''ip6:'' s of
         Some net \<Rightarrow>
           map_option MechIP6
             (if CHR ''/'' \<in> set net then n6_parse N net else Option.bind (parse_ipv6 net) (\<lambda>a. n6_new N a 128))
       | None \<Rightarrow>
      (case strip_prefix ''exists:'' s of Some domain \<Rightarrow> Some (MechExists domain) | None \<Rightarrow>
       if starts_with s ''a:'' \<or> starts_with s ''a/'' \<or> s = ''a'' then
         map_option (\<lambda>(domain, p). MechA domain p) (parse_domain_and_prefix (drop 1 s))
       else if starts_with s ''mx:'' \<or> starts_with s ''mx/'' \<or> s = ''mx'' then
         map_option (\<lambda>(domain, p). MechMX domain p) (parse_domain_and_prefix (drop 2 s))
       else if starts_with s ''ptr:'' \<or> s = ''ptr'' then
         Some (MechPtr (if 4 < length s then Some (drop 4 s) else None))
       else None))))"

definition parse_spf_part :: "ip_networks \<Rightarrow> string \<Rightarrow> (spf_qualifier \<times> spf_mechanism) list" where
  "parse_spf_part N part =
     (if CHR ''='' \<in> set part \<and> \<not> starts_with part ''ip4:'' \<and> \<not> starts_with part ''ip6:'' then []
      else case parse_qualifier part of (q, mechanism_str) \<Rightarrow>
        (case parse_mechanism N mechanism_str of Some mech \<Rightarrow> [(q, mech)] | None \<Rightarrow> []))"

definition parse_spf_record :: "ip_networks \<Rightarrow> string \<Rightarrow> (spf_qualifier \<times> spf_mechanism) list" where
  "parse_spf_record N record = concat (map (parse_spf_part N) (drop 1 (split_whitespace record)))"

section \<open>Lookups\<close>

record spf_resolver =
  rs_txt :: "string \<Rightarrow> string list list result"
  rs_ipv4 :: "string \<Rightarrow> 32 word list option"
  rs_ipv6 :: "string \<Rightarrow> 128 word list option"
  rs_mx :: "string \<Rightarrow> string list option"

datatype dns_query = QueryTxt string | QueryA string | QueryAAAA string | QueryMX string

type_synonym spf_state = "nat \<times> dns_query list"

definition spf_text :: "string list list \<Rightarrow> string option" where
  "spf_text records = find (\<lambda>t. starts_with t ''v=spf1'') (map (\<lambda>data. concat (map utf8_lossy data)) records)"

definition lookup_spf_record :: "spf_resolver \<Rightarrow> string \<Rightarrow> string option result" where
  "lookup_spf_record R domain =
     (case rs_txt R domain of
        Inr records \<Rightarrow> Inr (spf_text records)
      | Inl e \<Rightarrow> if str_contains e ''no records found'' then Inr None else Inl (''DNS lookup error: '' @ e))"

text \<open>The loop over the addresses of a domain: a network that cannot be made ends it with an error.\<close>

fun network_loop :: "('a \<Rightarrow> nat \<Rightarrow> 'n option) \<Rightarrow> ('n \<Rightarrow> 'a \<Rightarrow> bool) \<Rightarrow> nat \<Rightarrow> 'a \<Rightarrow> 'a list \<Rightarrow> bool option" where
  "network_loop mk contains len sender [] = Some False"
| "network_loop mk contains len sender (ip # ips) =
     (case mk ip len of
        None \<Rightarrow> None
      | Some net \<Rightarrow> if contains net sender then Some True else network_loop mk contains len sender ips)"

definition check_a_mechanism ::
    "spf_resolver \<Rightarrow> ip_networks \<Rightarrow> ip_addr \<Rightarrow> string \<Rightarrow> nat option \<Rightarrow> spf_state \<Rightarrow> spf_state \<times> bool option" where
  "check_a_mechanism R N sender domain p st =
     (case st of (n, qs) \<Rightarrow>
        let n' = n + 1 in
        if 10 < n' then ((n', qs), None)
        else case sender of
          V4 v4 \<Rightarrow>
            ((n', qs @ [QueryA domain]),
             Option.bind (rs_ipv4 R domain) (network_loop (n4_new N) (n4_contains N) (case p of Some l \<Rightarrow> l | None \<Rightarrow> 32) v4))
        | V6 v6 \<Rightarrow>
            ((n', qs @ [QueryAAAA domain]),
             Option.bind (rs_ipv6 R domain) (network_loop (n6_new N) (n6_contains N) (case p of Some l \<Rightarrow> l | None \<Rightarrow> 128) v6)))"

definition trim_end_dots :: "string \<Rightarrow> string" where
  "trim_end_dots s = rev (dropWhile (\<lambda>c. c = CHR ''.'') (rev s))"

fun mx_loop :: "spf_resolver \<Rightarrow> ip_networks \<Rightarrow> ip_addr \<Rightarrow> nat option \<Rightarrow> string list \<Rightarrow> spf_state \<Rightarrow> spf_state \<times> bool" where
  "mx_loop R N sender p [] st = (st, False)"
| "mx_loop R N sender p (host # hosts) st =
     (case check_a_mechanism R N sender (trim_end_dots host) p st of (st', r) \<Rightarrow>
        if r = Some True then (st', True) else mx_loop R N sender p hosts st')"

definition check_mx_mechanism ::
    "spf_resolver \<Rightarrow> ip_networks \<Rightarrow> ip_addr \<Rightarrow> string \<Rightarrow> nat option \<Rightarrow> spf_state \<Rightarrow> spf_state \<times> bool option" where
  "check_mx_mechanism R N sender domain p st =
     (case st of (n, qs) \<Rightarrow>
        let n' = n + 1 in
        if 10 < n' then ((n', qs), None)
        else case rs_mx R domain of
          None \<Rightarrow> ((n', qs @ [QueryMX domain]), None)
        | Some hosts \<Rightarrow>
            (case mx_loop R N sender p hosts (n', qs @ [QueryMX domain]) of (st', b) \<Rightarrow> (st', Some b)))"

definition check_exists :: "spf_resolver \<Rightarrow> string \<Rightarrow> spf_state \<Rightarrow> spf_state \<times> bool option" where
  "check_exists R domain st =
     (case st of (n, qs) \<Rightarrow>
        let n' = n + 1 in
        if 10 < n' then ((n', qs), None)
        else ((n', qs @ [QueryA domain]), Some (case rs_ipv4 R domain of Some ips \<Rightarrow> ips \<noteq> [] | None \<Rightarrow> False)))"

section \<open>Evaluation\<close>

fun spf_of_qualifier :: "spf_qualifier \<Rightarrow> spf_result" where
  "spf_of_qualifier QualPass = SpfPass"
| "spf_of_qualifier QualFail = SpfFail"
| "spf_of_qualifier QualSoftFail = SpfSoftFail"
| "spf_of_qualifier QualNeutral = SpfNeutral"

text \<open>Whether a mechanism matches; \<open>inc\<close> evaluates an included domain.\<close>

fun mechanism_matches ::
    "spf_resolver \<Rightarrow> ip_networks \<Rightarrow> ip_addr \<Rightarrow> string \<Rightarrow> (string \<Rightarrow> spf_state \<Rightarrow> spf_state \<times> spf_result) \<Rightarrow>
       spf_mechanism \<Rightarrow> spf_state \<Rightarrow> spf_state \<times> bool" where
  "mechanism_matches R N sender domain inc (MechA d p) st =
     (case check_a_mechanism R N sender (case d of Some x \<Rightarrow> x | None \<Rightarrow> domain) p st of (st', r) \<Rightarrow> (st', r = Some True))"
| "mechanism_matches R N sender domain inc (MechMX d p) st =
     (case check_mx_mechanism R N sender (case d of Some x \<Rightarrow> x | None \<Rightarrow> domain) p st of (st', r) \<Rightarrow> (st', r = Some True))"
| "mechanism_matches R N sender domain inc (MechIP4 net) st =
     (st, case sender of V4 v4 \<Rightarrow> n4_contains N net v4 | V6 _ \<Rightarrow> False)"
| "mechanism_matches R N sender domain inc (MechIP6 net) st =
     (st, case sender of V6 v6 \<Rightarrow> n6_contains N net v6 | V4 _ \<Rightarrow> False)"
| "mechanism_matches R N sender domain inc (MechInclude d) st = (case inc d st of (st', r) \<Rightarrow> (st', r = SpfPass))"
| "mechanism_matches R N sender domain inc (MechExists d) st = (case check_exists R d st of (st', r) \<Rightarrow> (st', r = Some True))"
| "mechanism_matches R N sender domain inc (MechPtr d) st = (st, False)"
| "mechanism_matches R N sender domain inc MechAll st = (st, True)"

fun spf_loop ::
    "spf_resolver \<Rightarrow> ip_networks \<Rightarrow> ip_addr \<Rightarrow> string \<Rightarrow> (string \<Rightarrow> spf_state \<Rightarrow> spf_state \<times> spf_result) \<Rightarrow>
       (spf_qualifier \<times> spf_mechanism) list \<Rightarrow> spf_state \<Rightarrow> spf_state \<times> spf_result" where
  "spf_loop R N sender domain inc [] st = (st, SpfNeutral)"
| "spf_loop R N sender domain inc ((q, mech) # mechs) st =
     (case mechanism_matches R N sender domain inc mech st of (st', matches) \<Rightarrow>
        if matches then (st', spf_of_qualifier q) else spf_loop R N sender domain inc mechs st')"

text \<open>The evaluation never fails with an error of its own, so its result is a plain value.\<close>

function evaluate_spf_internal ::
    "spf_resolver \<Rightarrow> ip_networks \<Rightarrow> ip_addr \<Rightarrow> nat \<Rightarrow> string \<Rightarrow> spf_state \<Rightarrow> spf_state \<times> spf_result" where
  "evaluate_spf_internal R N sender recursion_depth domain st =
     (if 10 < recursion_depth then (st, SpfPermError)
      else
        let st1 = (fst st, snd st @ [QueryTxt domain]) in
        case lookup_spf_record R domain of
          Inl e \<Rightarrow> (st1, SpfTempError)
        | Inr None \<Rightarrow> (st1, SpfNone)
        | Inr (Some record) \<Rightarrow>
            spf_loop R N sender domain (\<lambda>d s. evaluate_spf_internal R N sender (recursion_depth + 1) d s)
              (parse_spf_record N record) st1)"
  by pat_completeness auto
termination
  by (relation "measure (\<lambda>(R, N, sender, recursion_depth, domain, st). 11 - recursion_depth)") auto

declare evaluate_spf_internal.simps [simp del]

definition evaluate_spf :: "(spf_resolver option) \<Rightarrow> ip_networks \<Rightarrow> ip_addr \<Rightarrow> string \<Rightarrow> spf_result" where
  "evaluate_spf R N sender domain =
     (case R of None \<Rightarrow> SpfTempError | Some r \<Rightarrow> snd (evaluate_spf_internal r N sender 0 domain (0, [])))"

section \<open>The mailet\<close>

record spf_mailet =
  spf_reject_on_fail :: bool
  spf_max_dns_lookups :: nat

definition SpfCheck_new :: spf_mailet where
  "SpfCheck_new = \<lparr>spf_reject_on_fail = False, spf_max_dns_lookups = 10\<rparr>"

definition spf_init :: "mailet_config \<Rightarrow> spf_mailet \<Rightarrow> spf_mailet result" where
  "spf_init config ml =
     rbind (case get_param config ''reject_on_fail'' of
              None \<Rightarrow> Inr ml
            | Some s \<Rightarrow> (case parse_bool s of Some b \<Rightarrow> Inr (ml\<lparr>spf_reject_on_fail := b\<rparr>)
                         | None \<Rightarrow> Inl ''provided string was not `true` or `false`'')) (\<lambda>ml1.
     case get_param config ''max_dns_lookups'' of
       None \<Rightarrow> Inr ml1
     | Some s \<Rightarrow> (case parse_uint usize_max s of Some n \<Rightarrow> Inr (ml1\<lparr>spf_max_dns_lookups := n\<rparr>) | None \<Rightarrow> Inl ''invalid digit found in string''))"

definition spf_service :: "spf_resolver option \<Rightarrow> ip_networks \<Rightarrow> spf_mailet \<Rightarrow> 'w service" where
  "spf_service R N ml m w =
     (case (m_remote_addr m, m_sender m) of
        (Some ip, Some addr) \<Rightarrow>
          let domain = domain_str (addr_domain addr);
              r = evaluate_spf R N ip domain;
              m1 = set_attribute ''spf.sender_domain'' (AString domain)
                     (set_attribute ''spf.client_ip'' (AString (ip_display ip))
                        (set_attribute ''spf.result'' (AString (spf_as_str r)) m))
          in if r = SpfFail \<and> spf_reject_on_fail ml then ((m1\<lparr>m_state := Error_state\<rparr>, w), Inr Drop)
             else ((m1, w), Inr Continue)
      | _ \<Rightarrow> ((set_attribute ''spf.result'' (AString (spf_as_str SpfNone)) m, w), Inr Continue))"

text \<open>The time the mailet takes is that of its DNS queries; cancelled before the result it leaves the mail alone.\<close>

definition SpfCheckMailet :: "spf_resolver option \<Rightarrow> ip_networks \<Rightarrow> (mail \<Rightarrow> 'w \<Rightarrow> nat) \<Rightarrow> spf_mailet \<Rightarrow> 'w mailet" where
  "SpfCheckMailet R N dur ml =
     \<lparr>ml_name = ''SpfCheck'', ml_service = spf_service R N ml, ml_duration = dur, ml_cancelled = (\<lambda>ms m w. (m, w))\<rparr>"

interpretation spf: recipient_mailet "SpfCheckMailet R N dur ml" for R N dur ml
  by unfold_locales
    (auto simp: SpfCheckMailet_def spf_service_def Let_def split: option.splits if_splits)

section \<open>The limit of lookups\<close>

definition is_txt :: "dns_query \<Rightarrow> bool" where
  "is_txt q = (case q of QueryTxt _ \<Rightarrow> True | _ \<Rightarrow> False)"

text \<open>The counter bounds the queries for addresses and mail exchangers.\<close>

definition counted :: "spf_state \<Rightarrow> bool" where
  "counted st \<longleftrightarrow> length (filter (\<lambda>q. \<not> is_txt q) (snd st)) \<le> min (fst st) 10"

lemma counted_a: "counted st \<Longrightarrow> counted (fst (check_a_mechanism R N sender domain p st))"
  by (auto simp: counted_def check_a_mechanism_def Let_def is_txt_def split: prod.splits ip_addr.splits)

lemma counted_mx_loop: "counted st \<Longrightarrow> counted (fst (mx_loop R N sender p hosts st))"
proof (induction hosts arbitrary: st)
  case (Cons h hs)
  then show ?case using counted_a [OF Cons.prems, of R N sender "trim_end_dots h" p] by (auto split: prod.splits)
qed simp

lemma counted_mx: "counted st \<Longrightarrow> counted (fst (check_mx_mechanism R N sender domain p st))"
proof -
  assume st: "counted st"
  obtain n qs where s: "st = (n, qs)" by fastforce
  have "counted (n + 1, qs @ [QueryMX domain])" if "\<not> 10 < n + 1"
    using st that s by (auto simp: counted_def is_txt_def)
  from counted_mx_loop [OF this] show ?thesis
    using st s by (auto simp: check_mx_mechanism_def Let_def counted_def is_txt_def case_prod_beta split: option.split)
qed

lemma counted_exists: "counted st \<Longrightarrow> counted (fst (check_exists R domain st))"
  by (auto simp: counted_def check_exists_def Let_def is_txt_def split: prod.splits)

lemma counted_mechanism:
  assumes "counted st" "\<And>d st. counted st \<Longrightarrow> counted (fst (inc d st))"
  shows "counted (fst (mechanism_matches R N sender domain inc mech st))"
  using assms by (cases mech) (simp_all add: case_prod_beta counted_a counted_mx counted_exists)

lemma counted_loop:
  assumes "\<And>d st. counted st \<Longrightarrow> counted (fst (inc d st))"
  shows "counted st \<Longrightarrow> counted (fst (spf_loop R N sender domain inc mechs st))"
proof (induction mechs arbitrary: st)
  case (Cons x mechs)
  then show ?case using counted_mechanism [OF Cons.prems assms] by (cases x) (simp add: case_prod_beta)
qed simp

lemma counted_evaluate: "counted st \<Longrightarrow> counted (fst (evaluate_spf_internal R N sender depth domain st))"
proof (induction R N sender depth domain st rule: evaluate_spf_internal.induct)
  case (1 R N sender depth domain st)
  let ?st = "(fst st, snd st @ [QueryTxt domain])"
  have st: "counted ?st" using 1(2) by (simp add: counted_def is_txt_def)
  show ?case
  proof (cases "10 < depth")
    case True
    then show ?thesis using 1(2) by (subst evaluate_spf_internal.simps) simp
  next
    case False
    show ?thesis
    proof (cases "lookup_spf_record R domain")
      case (Inl e)
      then show ?thesis using False st by (subst evaluate_spf_internal.simps) simp
    next
      case (Inr r)
      show ?thesis
      proof (cases r)
        case None
        then show ?thesis using Inr False st by (subst evaluate_spf_internal.simps) simp
      next
        case (Some spf)
        have "counted (fst (evaluate_spf_internal R N sender (depth + 1) d s))" if "counted s" for d s
          using 1(1) [OF False refl Inr Some] that by simp
        from counted_loop [OF this st] show ?thesis using Inr Some False by (subst evaluate_spf_internal.simps) simp
      qed
    qed
  qed
qed

text \<open>C40: However the records refer to each other, the evaluation sends at most ten queries for addresses and mail
  exchangers.\<close>

theorem spf_address_lookups_bounded:
  "length (filter (\<lambda>q. \<not> is_txt q) (snd (fst (evaluate_spf_internal R N sender 0 domain (0, []))))) \<le> 10"
  using counted_evaluate [of "(0, [])" R N sender 0 domain] by (simp add: counted_def)

section \<open>Includes\<close>

text \<open>A resolver whose records include themselves twice.\<close>

lemma self_include_loop:
  assumes "parse_spf_record N record = [(QualPass, MechInclude d), (QualPass, MechInclude d)]"
    and "lookup_spf_record R d = Inr (Some record)"
  shows "depth \<le> 11 \<Longrightarrow> evaluate_spf_internal R N sender depth d st =
      ((fst st, snd st @ replicate (2 ^ (11 - depth) - 1) (QueryTxt d)), if depth = 11 then SpfPermError else SpfNeutral)"
proof (induction "11 - depth" arbitrary: depth st)
  case 0
  then show ?case by (subst evaluate_spf_internal.simps) simp
next
  case (Suc n)
  then have d: "n = 11 - (depth + 1)" "depth + 1 \<le> 11" "\<not> 10 < depth" by simp_all
  note IH = Suc.hyps(1) [OF d(1,2)]
  have twice: "2 ^ (11 - depth) - 1 = 1 + ((2 ^ (11 - (depth + 1)) - 1) + (2 ^ (11 - (depth + 1)) - (1 :: nat)))"
  proof -
    define k where "k = 11 - (depth + 1)"
    have "11 - depth = Suc k" using d(2) by (simp add: k_def)
    moreover obtain j where "(2 :: nat) ^ k = Suc j" by (metis not0_implies_Suc power_not_zero zero_neq_numeral)
    ultimately show ?thesis unfolding k_def [symmetric] by simp
  qed
  have last: "evaluate_spf_internal R N sender 11 d' s = (s, SpfPermError)" for d' s by (subst evaluate_spf_internal.simps) simp
  show ?case unfolding twice replicate_add
    by (subst evaluate_spf_internal.simps) (use d(3) in \<open>simp add: assms IH [simplified] last\<close>)
qed

text \<open>Includes are not counted as lookups, only their depth is limited: a domain whose record includes the domain
  twice makes the server send 2047 queries for one mail.\<close>

theorem spf_includes_not_counted:
  assumes "parse_spf_record N record = [(QualPass, MechInclude d), (QualPass, MechInclude d)]"
    and "lookup_spf_record R d = Inr (Some record)"
  shows "evaluate_spf_internal R N sender 0 d (0, []) = ((0, replicate 2047 (QueryTxt d)), SpfNeutral)"
  using self_include_loop [OF assms, of 0 sender "(0, [])"] by simp

definition demo_networks :: ip_networks where
  "demo_networks =
     \<lparr>n4_parse = (\<lambda>s. None), n4_new = (\<lambda>a l. if l \<le> 32 then Some (a, l) else None),
      n4_contains = (\<lambda>(a, l) x. drop_bit (32 - l) a = drop_bit (32 - l) x),
      n6_parse = (\<lambda>s. None), n6_new = (\<lambda>a l. if l \<le> 128 then Some (a, l) else None),
      n6_contains = (\<lambda>(a, l) x. drop_bit (128 - l) a = drop_bit (128 - l) x)\<rparr>"

definition demo_resolver :: "string \<Rightarrow> spf_resolver" where
  "demo_resolver record = \<lparr>rs_txt = (\<lambda>d. Inr [[record]]), rs_ipv4 = (\<lambda>d. None), rs_ipv6 = (\<lambda>d. None), rs_mx = (\<lambda>d. None)\<rparr>"

theorem spf_includes_not_counted_witness:
  "evaluate_spf_internal (demo_resolver ''v=spf1 include:x include:x'') demo_networks (V4 1) 0 ''x'' (0, []) =
     ((0, replicate 2047 (QueryTxt ''x'')), SpfNeutral)"
proof (rule spf_includes_not_counted)
  show "parse_spf_record demo_networks ''v=spf1 include:x include:x'' = [(QualPass, MechInclude ''x''), (QualPass, MechInclude ''x'')]"
    by code_simp
  show "lookup_spf_record (demo_resolver ''v=spf1 include:x include:x'') ''x'' = Inr (Some ''v=spf1 include:x include:x'')" by code_simp
qed

section \<open>Records without lookups\<close>

fun static_match :: "ip_networks \<Rightarrow> ip_addr \<Rightarrow> spf_mechanism \<Rightarrow> bool" where
  "static_match N (V4 a) (MechIP4 net) = n4_contains N net a"
| "static_match N (V6 a) (MechIP6 net) = n6_contains N net a"
| "static_match N sender MechAll = True"
| "static_match N sender mech = False"

fun needs_no_lookup :: "spf_mechanism \<Rightarrow> bool" where
  "needs_no_lookup (MechA d p) = False"
| "needs_no_lookup (MechMX d p) = False"
| "needs_no_lookup (MechInclude d) = False"
| "needs_no_lookup (MechExists d) = False"
| "needs_no_lookup mech = True"

lemma static_mechanism:
  "needs_no_lookup mech \<Longrightarrow> mechanism_matches R N sender domain inc mech st = (st, static_match N sender mech)"
  by (cases mech; cases sender) simp_all

lemma static_loop:
  "list_all (\<lambda>(q, mech). needs_no_lookup mech) mechs \<Longrightarrow>
     spf_loop R N sender domain inc mechs st =
       (st, case find (\<lambda>(q, mech). static_match N sender mech) mechs of Some (q, mech) \<Rightarrow> spf_of_qualifier q | None \<Rightarrow> SpfNeutral)"
  by (induction mechs) (auto simp: static_mechanism)

text \<open>For a record that needs no further lookup the first matching mechanism decides with its qualifier, and no match
  is neutral.\<close>

theorem spf_first_match_decides:
  assumes "lookup_spf_record R domain = Inr (Some record)" "list_all (\<lambda>(q, mech). needs_no_lookup mech) (parse_spf_record N record)"
  shows "evaluate_spf (Some R) N sender domain =
    (case find (\<lambda>(q, mech). static_match N sender mech) (parse_spf_record N record) of
       Some (q, mech) \<Rightarrow> spf_of_qualifier q | None \<Rightarrow> SpfNeutral)"
  unfolding evaluate_spf_def using assms by (subst evaluate_spf_internal.simps) (simp add: static_loop)

theorem spf_first_match_decides_witness:
  "evaluate_spf (Some (demo_resolver ''v=spf1 ip4:10.0.0.1 ?ip4:10.0.0.2 -all'')) demo_networks (V4 0x0A000002) ''x'' = SpfNeutral \<and>
   evaluate_spf (Some (demo_resolver ''v=spf1 ip4:10.0.0.1 ?ip4:10.0.0.2 -all'')) demo_networks (V4 0x0A000003) ''x'' = SpfFail"
proof -
  have p: "parse_spf_record demo_networks ''v=spf1 ip4:10.0.0.1 ?ip4:10.0.0.2 -all'' =
      [(QualPass, MechIP4 (0x0A000001, 32)), (QualNeutral, MechIP4 (0x0A000002, 32)), (QualFail, MechAll)]" by code_simp
  have r: "lookup_spf_record (demo_resolver ''v=spf1 ip4:10.0.0.1 ?ip4:10.0.0.2 -all'') ''x'' = Inr (Some ''v=spf1 ip4:10.0.0.1 ?ip4:10.0.0.2 -all'')"
    by code_simp
  have c: "n4_contains demo_networks (a, 32) x \<longleftrightarrow> a = x" for a x by (simp add: demo_networks_def)
  show ?thesis using spf_first_match_decides [OF r, of demo_networks] by (simp add: p c)
qed

end
