(* ===== verification/File_Auth.thy ===== *)
theory File_Auth
  imports Auth_Sasl Proto_Mime "HOL-Library.AList" "HOL-Library.Char_ord" "HOL-Library.List_Lexorder"
begin

text \<open>
  Model of \<^verbatim>\<open>crates/rusmes-auth/src/file.rs\<close>: the authentication backend over a password file, with the
  format of the file, its SCRAM columns, and every operation of the backend.  The crates \<^verbatim>\<open>bcrypt\<close>,
  \<^verbatim>\<open>argon2\<close> and \<^verbatim>\<open>base64\<close> are the record \<open>passwd_env\<close>; what the system calls answer is an argument of the
  operations that make them.  The state has the password file and the temporary file beside the table in
  memory, so that a restart is opening the backend again on the same file.
\<close>

section \<open>Environment and data\<close>

text \<open>The hash functions draw a salt, whose number is their first argument.\<close>

record passwd_env =
  pw_bcrypt_hash :: "nat \<Rightarrow> string \<Rightarrow> string result"
  pw_bcrypt_verify :: "string \<Rightarrow> string \<Rightarrow> bool result"
  pw_argon2_hash :: "nat \<Rightarrow> string \<Rightarrow> string result"
  pw_argon2_verify :: "string \<Rightarrow> string \<Rightarrow> bool result"
  pw_b64_encode :: "string \<Rightarrow> string"
  pw_b64_decode :: "string \<Rightarrow> string option"

datatype hash_algorithm = Bcrypt | Argon2

definition from_config_str :: "string \<Rightarrow> hash_algorithm result" where
  "from_config_str s =
     (let l = to_ascii_lowercase s in
      if l = ''bcrypt'' then Inr Bcrypt
      else if l = ''argon2'' \<or> l = ''argon2id'' then Inr Argon2
      else Inl (''unknown hash_algorithm '' @ [CHR 0x27] @ l @ [CHR 0x27] @ '': expected '' @ [CHR 0x27] @ ''bcrypt'' @
                [CHR 0x27] @ '' or '' @ [CHR 0x27] @ ''argon2'' @ [CHR 0x27]))"

definition is_bcrypt_hash :: "string \<Rightarrow> bool" where
  "is_bcrypt_hash hash \<longleftrightarrow> starts_with hash ''$2a$'' \<or> starts_with hash ''$2b$'' \<or> starts_with hash ''$2y$''"

definition is_argon2_hash :: "string \<Rightarrow> bool" where
  "is_argon2_hash hash \<longleftrightarrow>
     starts_with hash ''$argon2id$'' \<or> starts_with hash ''$argon2i$'' \<or> starts_with hash ''$argon2d$''"

record scram_creds =
  sc_salt :: string
  sc_iteration_count :: nat
  sc_stored_key :: string
  sc_server_key :: string

section \<open>The record of a user\<close>

abbreviation TAB :: char where
  "TAB \<equiv> CHR 0x09"

text \<open>\<^verbatim>\<open>str::splitn\<close> with a character.\<close>

fun str_splitn :: "nat \<Rightarrow> char \<Rightarrow> string \<Rightarrow> string list" where
  "str_splitn 0 d s = []"
| "str_splitn (Suc 0) d s = [s]"
| "str_splitn (Suc (Suc n)) d s =
     (if d \<in> set s then takeWhile (\<lambda>c. c \<noteq> d) s # str_splitn (Suc n) d (tl (dropWhile (\<lambda>c. c \<noteq> d) s)) else [s])"

definition password_hash :: "string \<Rightarrow> string" where
  "password_hash hash_field = hd (split_on TAB hash_field)"

definition record_scram :: "passwd_env \<Rightarrow> string \<Rightarrow> scram_creds option" where
  "record_scram E hash_field =
     (case str_splitn 5 TAB hash_field of
        [_, salt_b64, iter_str, sk_b64, svk_b64] \<Rightarrow>
          Option.bind (pw_b64_decode E salt_b64) (\<lambda>salt.
          Option.bind (parse_uint u32_max iter_str) (\<lambda>iteration_count.
          Option.bind (pw_b64_decode E sk_b64) (\<lambda>stored_key.
          Option.bind (pw_b64_decode E svk_b64) (\<lambda>server_key.
            if length stored_key \<noteq> 32 \<or> length server_key \<noteq> 32 \<or> salt = [] then None
            else Some \<lparr>sc_salt = salt, sc_iteration_count = iteration_count,
                       sc_stored_key = stored_key, sc_server_key = server_key\<rparr>))))
      | _ \<Rightarrow> None)"

definition with_scram :: "passwd_env \<Rightarrow> string \<Rightarrow> scram_creds \<Rightarrow> string" where
  "with_scram E hash creds =
     hash @ [TAB] @ pw_b64_encode E (sc_salt creds) @ [TAB] @ show_nat (sc_iteration_count creds) @ [TAB] @
     pw_b64_encode E (sc_stored_key creds) @ [TAB] @ pw_b64_encode E (sc_server_key creds)"

section \<open>The password file\<close>

text \<open>A line of the file at an index from zero; \<^term>\<open>None\<close> is a line that is skipped.\<close>

definition load_line :: "nat \<Rightarrow> string \<Rightarrow> (string \<times> string) option result" where
  "load_line line_num raw =
     (let line = trim raw in
      if line = [] \<or> starts_with line ''#'' then Inr None
      else if CHR '':'' \<notin> set line then
        Inl (''Invalid format on line '' @ show_nat (line_num + 1) @ '': expected '' @ [CHR 0x27] @ ''username:hash'' @ [CHR 0x27])
      else
        let user = takeWhile (\<lambda>c. c \<noteq> CHR '':'') line;
            hash_field = tl (dropWhile (\<lambda>c. c \<noteq> CHR '':'') line);
            hash = hd (split_on TAB hash_field)
        in if user = [] then Inl (''Empty username on line '' @ show_nat (line_num + 1))
           else if \<not> is_bcrypt_hash hash \<and> \<not> is_argon2_hash hash then
             Inl (''Invalid password hash on line '' @ show_nat (line_num + 1) @
                  '': expected bcrypt ($2a$/$2b$/$2y$) or argon2 ($argon2id$/$argon2i$/$argon2d$) prefix'')
           else Inr (Some (user, hash_field)))"

fun load_lines :: "nat \<Rightarrow> string list \<Rightarrow> (string \<times> string) list \<Rightarrow> (string \<times> string) list result" where
  "load_lines n [] users = Inr users"
| "load_lines n (raw # raws) users =
     rbind (load_line n raw) (\<lambda>e.
       load_lines (n + 1) raws (case e of None \<Rightarrow> users | Some (user, hash_field) \<Rightarrow> AList.update user hash_field users))"

text \<open>What the system answers: \<^term>\<open>False\<close> is a failing call; a write that fails leaves a part of the contents.\<close>

record passwd_io =
  io_mkdir :: bool
  io_create :: bool
  io_open :: bool
  io_read :: bool
  io_temp_create :: bool
  io_temp_write :: "nat option"
  io_temp_sync :: bool
  io_rename :: bool

text \<open>The file with its contents, \<^term>\<open>None\<close> when it does not exist; it always has a parent directory.\<close>

definition load_users :: "passwd_io \<Rightarrow> string option \<Rightarrow> string option \<times> (string \<times> string) list result" where
  "load_users io disk =
     (case disk of
        None \<Rightarrow>
          if \<not> io_mkdir io then (None, Inl ''Failed to create parent directory'')
          else if \<not> io_create io then (None, Inl ''Failed to create password file'')
          else (Some [], Inr [])
      | Some contents \<Rightarrow>
          (disk,
           if \<not> io_open io then Inl ''Failed to open password file''
           else if \<not> io_read io \<or> \<not> utf8_valid contents then Inl ''Failed to read password file''
           else load_lines 0 (str_lines contents) []))"

record file_auth =
  fa_users :: "(string \<times> string) list"
  fa_algorithm :: hash_algorithm
  fa_disk :: "string option"
  fa_temp :: "string option"

definition FileAuth_with_algorithm ::
    "passwd_io \<Rightarrow> hash_algorithm \<Rightarrow> string option \<Rightarrow> string option \<Rightarrow> string option \<times> file_auth result" where
  "FileAuth_with_algorithm io algorithm disk temp =
     (case load_users io disk of
        (disk', Inl e) \<Rightarrow> (disk', Inl e)
      | (disk', Inr users) \<Rightarrow>
          (disk', Inr \<lparr>fa_users = users, fa_algorithm = algorithm, fa_disk = disk', fa_temp = temp\<rparr>))"

definition FileAuth_new :: "passwd_io \<Rightarrow> string option \<Rightarrow> string option \<Rightarrow> string option \<times> file_auth result" where
  "FileAuth_new io disk temp = FileAuth_with_algorithm io Bcrypt disk temp"

definition passwd_line :: "(string \<times> string) list \<Rightarrow> string \<Rightarrow> string" where
  "passwd_line users user =
     user @ '':'' @ (case map_of users user of Some f \<Rightarrow> f | None \<Rightarrow> []) @ [CHR 0x0A]"

definition passwd_contents :: "(string \<times> string) list \<Rightarrow> string" where
  "passwd_contents users = concat (map (passwd_line users) (sort (map fst users)))"

definition save_users :: "passwd_io \<Rightarrow> file_auth \<Rightarrow> file_auth \<times> unit result" where
  "save_users io s =
     (let contents = passwd_contents (fa_users s) in
      if \<not> io_temp_create io then (s, Inl ''Failed to create temporary file'')
      else case io_temp_write io of
        Some n \<Rightarrow> (s\<lparr>fa_temp := Some (take n contents)\<rparr>, Inl ''Failed to write to temporary file'')
      | None \<Rightarrow>
          if \<not> io_temp_sync io then (s\<lparr>fa_temp := Some contents\<rparr>, Inl ''Failed to sync temporary file'')
          else if \<not> io_rename io then (s\<lparr>fa_temp := Some contents\<rparr>, Inl ''Failed to rename temporary file'')
          else (s\<lparr>fa_disk := Some contents, fa_temp := None\<rparr>, Inr ()))"

section \<open>Passwords\<close>

definition hash_password :: "passwd_env \<Rightarrow> nat \<Rightarrow> hash_algorithm \<Rightarrow> string \<Rightarrow> string result" where
  "hash_password E k algorithm password =
     (case algorithm of
        Bcrypt \<Rightarrow> map_err (\<lambda>_. ''Failed to hash password (bcrypt)'') (pw_bcrypt_hash E k password)
      | Argon2 \<Rightarrow> map_err (\<lambda>e. ''Failed to hash password (argon2id): '' @ e) (pw_argon2_hash E k password))"

text \<open>The verification of the argon2 crate includes the parsing of the stored hash.\<close>

definition verify_password :: "passwd_env \<Rightarrow> string \<Rightarrow> string \<Rightarrow> bool result" where
  "verify_password E password hash =
     (if is_bcrypt_hash hash then map_err (\<lambda>_. ''Failed to verify password (bcrypt)'') (pw_bcrypt_verify E password hash)
      else if is_argon2_hash hash then pw_argon2_verify E password hash
      else Inl ''Unrecognized password hash format (no bcrypt or argon2 prefix)'')"

section \<open>The operations of the backend\<close>

definition no_such_user :: "string \<Rightarrow> string" where
  "no_such_user user = ''User '' @ [CHR 0x27] @ user @ [CHR 0x27] @ '' does not exist''"

definition set_scram_credentials :: "passwd_env \<Rightarrow> passwd_io \<Rightarrow> string \<Rightarrow> scram_creds \<Rightarrow> file_auth \<Rightarrow> file_auth \<times> unit result" where
  "set_scram_credentials E io user creds s =
     (case map_of (fa_users s) user of
        None \<Rightarrow> (s, Inl (no_such_user user))
      | Some f \<Rightarrow> save_users io (s\<lparr>fa_users := AList.update user (with_scram E (password_hash f) creds) (fa_users s)\<rparr>))"

definition fa_authenticate :: "passwd_env \<Rightarrow> file_auth \<Rightarrow> username \<Rightarrow> string \<Rightarrow> bool result" where
  "fa_authenticate E s user password =
     (case map_of (fa_users s) (username_str user) of
        Some f \<Rightarrow> verify_password E password (password_hash f)
      | None \<Rightarrow> Inr False)"

definition fa_verify_identity :: "file_auth \<Rightarrow> username \<Rightarrow> bool result" where
  "fa_verify_identity s user = Inr (map_of (fa_users s) (username_str user) \<noteq> None)"

fun usernames_of :: "string list \<Rightarrow> username list result" where
  "usernames_of [] = Inr []"
| "usernames_of (u # us) =
     (case Username_new u of
        Inl _ \<Rightarrow> Inl (''Invalid username in password file: '' @ u)
      | Inr n \<Rightarrow> rbind (usernames_of us) (\<lambda>ns. Inr (n # ns)))"

definition list_users :: "file_auth \<Rightarrow> username list result" where
  "list_users s = rbind (usernames_of (map fst (fa_users s))) (\<lambda>ns. Inr (sort_key username_str ns))"

definition create_user :: "passwd_env \<Rightarrow> passwd_io \<Rightarrow> nat \<Rightarrow> username \<Rightarrow> string \<Rightarrow> file_auth \<Rightarrow> file_auth \<times> unit result" where
  "create_user E io k user password s =
     (if map_of (fa_users s) (username_str user) \<noteq> None then
        (s, Inl (''User '' @ [CHR 0x27] @ username_str user @ [CHR 0x27] @ '' already exists''))
      else case hash_password E k (fa_algorithm s) password of
        Inl e \<Rightarrow> (s, Inl e)
      | Inr hash \<Rightarrow> save_users io (s\<lparr>fa_users := AList.update (username_str user) hash (fa_users s)\<rparr>))"

definition delete_user :: "passwd_io \<Rightarrow> username \<Rightarrow> file_auth \<Rightarrow> file_auth \<times> unit result" where
  "delete_user io user s =
     (if map_of (fa_users s) (username_str user) = None then (s, Inl (no_such_user (username_str user)))
      else save_users io (s\<lparr>fa_users := AList.delete (username_str user) (fa_users s)\<rparr>))"

definition change_password :: "passwd_env \<Rightarrow> passwd_io \<Rightarrow> nat \<Rightarrow> username \<Rightarrow> string \<Rightarrow> file_auth \<Rightarrow> file_auth \<times> unit result" where
  "change_password E io k user new_password s =
     (case map_of (fa_users s) (username_str user) of
        None \<Rightarrow> (s, Inl (no_such_user (username_str user)))
      | Some f \<Rightarrow>
          (case hash_password E k (fa_algorithm s) new_password of
             Inl e \<Rightarrow> (s, Inl e)
           | Inr new_hash \<Rightarrow>
               let new_field = (case record_scram E f of Some creds \<Rightarrow> with_scram E new_hash creds | None \<Rightarrow> new_hash)
               in save_users io (s\<lparr>fa_users := AList.update (username_str user) new_field (fa_users s)\<rparr>)))"

definition fetch_scram_credentials :: "passwd_env \<Rightarrow> file_auth \<Rightarrow> string \<Rightarrow> scram_creds option" where
  "fetch_scram_credentials E s user = Option.bind (map_of (fa_users s) user) (record_scram E)"

definition scram_or :: "passwd_env \<Rightarrow> file_auth \<Rightarrow> string \<Rightarrow> scram_creds result" where
  "scram_or E s user =
     ok_or (''No SCRAM credentials stored for user '' @ [CHR 0x27] @ user @ [CHR 0x27]) (fetch_scram_credentials E s user)"

definition store_scram_credentials ::
    "passwd_env \<Rightarrow> passwd_io \<Rightarrow> username \<Rightarrow> string \<Rightarrow> nat \<Rightarrow> string \<Rightarrow> string \<Rightarrow> file_auth \<Rightarrow> file_auth \<times> unit result" where
  "store_scram_credentials E io user salt iterations stored_key server_key s =
     set_scram_credentials E io (username_str user)
       \<lparr>sc_salt = salt, sc_iteration_count = iterations, sc_stored_key = stored_key, sc_server_key = server_key\<rparr> s"

text \<open>The backend as the sessions see it; APOP has the default of the trait.\<close>

definition file_backend :: "passwd_env \<Rightarrow> file_auth \<Rightarrow> auth_backend" where
  "file_backend E s =
     \<lparr>ab_authenticate = fa_authenticate E s, ab_verify_identity = fa_verify_identity s,
      ab_scram_params = (\<lambda>u. rbind (scram_or E s u) (\<lambda>c. Inr (sc_salt c, sc_iteration_count c))),
      ab_scram_stored_key = (\<lambda>u. rbind (scram_or E s u) (\<lambda>c. Inr (sc_stored_key c))),
      ab_scram_server_key = (\<lambda>u. rbind (scram_or E s u) (\<lambda>c. Inr (sc_server_key c))),
      ab_apop_secret = (\<lambda>u. Inl ''APOP authentication not supported by this AuthBackend'')\<rparr>"

datatype passwd_op =
    CreateUser nat username string
  | DeleteUser username
  | ChangePassword nat username string
  | StoreScram username string nat string string

fun passwd_step :: "passwd_env \<Rightarrow> file_auth \<Rightarrow> passwd_io \<times> passwd_op \<Rightarrow> file_auth \<times> unit result" where
  "passwd_step E s (io, CreateUser k user password) = create_user E io k user password s"
| "passwd_step E s (io, DeleteUser user) = delete_user io user s"
| "passwd_step E s (io, ChangePassword k user password) = change_password E io k user password s"
| "passwd_step E s (io, StoreScram user salt iterations stored_key server_key) =
     store_scram_credentials E io user salt iterations stored_key server_key s"

section \<open>Lines that are read back\<close>

definition ascii :: "string \<Rightarrow> bool" where
  "ascii s \<longleftrightarrow> list_all (\<lambda>c. code_of c < 128) s"

definition nonblank :: "char \<Rightarrow> bool" where
  "nonblank c \<longleftrightarrow> code_of c < 128 \<and> \<not> is_whitespace [c]"

lemma ascii_simps [simp]:
  "ascii []" "ascii (c # s) \<longleftrightarrow> code_of c < 128 \<and> ascii s" "ascii (a @ b) \<longleftrightarrow> ascii a \<and> ascii b"
  by (simp_all add: ascii_def)

lemma ascii_subset: "ascii s \<Longrightarrow> set t \<subseteq> set s \<Longrightarrow> ascii t"
  by (auto simp: ascii_def list_all_iff)

lemma utf8_valid_ascii: "ascii s \<Longrightarrow> utf8_valid s"
  by (induction s) (subst utf8_valid.simps, simp add: utf8_step_def)+

lemma graphic_solid: "is_graphic c \<Longrightarrow> nonblank c"
  by (simp add: nonblank_def graphic_ascii graphic_not_whitespace)

lemma ws_seqs_not_solid: "w \<in> set ws_seqs \<Longrightarrow> w \<noteq> [] \<and> \<not> nonblank (hd w) \<and> \<not> nonblank (last w)"
  unfolding nonblank_def is_whitespace_def by (auto simp: ws_seqs_def)

lemma trim_solid:
  assumes "s \<noteq> []" "nonblank (hd s)" "nonblank (last s)"
  shows "trim s = s"
proof -
  have "trim_start s = s"
    unfolding trim_start_def
    by (rule strip_words_fixed) (use assms ws_seqs_not_solid starts_with_hd in metis)
  moreover have "strip_words (map rev ws_seqs) (rev s) = rev s"
  proof (rule strip_words_fixed)
    fix w assume "w \<in> set (map rev ws_seqs)" "w \<noteq> []"
    then obtain v where v: "v \<in> set ws_seqs" "w = rev v" by auto
    with ws_seqs_not_solid [of v] have "\<not> nonblank (hd w)" by (simp add: hd_rev)
    with assms \<open>w \<noteq> []\<close> show "\<not> starts_with (rev s) w"
      using starts_with_hd [of "rev s" w] by (auto simp: hd_rev)
  qed
  ultimately show ?thesis by (simp add: trim_def trim_end_def)
qed

lemma trimmed_solid:
  assumes "ascii s" "trim s \<noteq> []"
  shows "nonblank (hd (trim s))" "nonblank (last (trim s))"
proof -
  have as: "ascii (trim s)" by (rule ascii_subset [OF assms(1) set_trim])
  obtain r where r: "trim_start s = trim s @ r" using trim_start_trim by blast
  have "\<not> is_whitespace [hd (trim s)]"
  proof
    assume "is_whitespace [hd (trim s)]"
    moreover have "starts_with (trim_start s) [hd (trim s)]"
      using r assms(2) by (cases "trim s") (auto simp: starts_with_iff)
    ultimately show False
      using strip_words_done [of "[hd (trim s)]" ws_seqs s] by (auto simp: trim_start_def is_whitespace_def)
  qed
  with as assms(2) show "nonblank (hd (trim s))" by (cases "trim s") (auto simp: nonblank_def)
  have "\<not> is_whitespace [last (trim s)]"
  proof
    assume "is_whitespace [last (trim s)]"
    then have "[last (trim s)] \<in> set (map rev ws_seqs)" by (force simp: is_whitespace_def)
    moreover have "starts_with (rev (trim s)) [last (trim s)]"
      using assms(2) by (cases "trim s" rule: rev_cases) (auto simp: starts_with_iff)
    ultimately show False
      using strip_words_done [of "[last (trim s)]" "map rev ws_seqs" "rev (trim_start s)"] by (auto simp: trim_def trim_end_def)
  qed
  with as assms(2) show "nonblank (last (trim s))" by (cases "trim s" rule: rev_cases) (auto simp: nonblank_def)
qed

text \<open>An entry of the table that the file can hold.\<close>

definition valid_hash :: "string \<Rightarrow> bool" where
  "valid_hash h \<longleftrightarrow> is_bcrypt_hash h \<or> is_argon2_hash h"

definition clean_entry :: "string \<times> string \<Rightarrow> bool" where
  "clean_entry e \<longleftrightarrow>
     (case e of (u, f) \<Rightarrow>
        u \<noteq> [] \<and> CHR '':'' \<notin> set u \<and> hd u \<noteq> CHR ''#'' \<and> nonblank (hd u) \<and> ascii u \<and> CHR 0x0A \<notin> set u \<and>
        f \<noteq> [] \<and> nonblank (last f) \<and> ascii f \<and> CHR 0x0A \<notin> set f \<and> valid_hash (hd (split_on TAB f)))"

lemma load_line_clean:
  assumes "clean_entry (u, f)"
  shows "load_line n (u @ '':'' @ f) = Inr (Some (u, f))"
proof -
  have "trim (u @ '':'' @ f) = u @ '':'' @ f"
    using assms by (intro trim_solid) (auto simp: clean_entry_def hd_append)
  moreover have "takeWhile (\<lambda>c. c \<noteq> CHR '':'') (u @ '':'' @ f) = u" "dropWhile (\<lambda>c. c \<noteq> CHR '':'') (u @ '':'' @ f) = '':'' @ f"
    using assms by (auto simp: clean_entry_def takeWhile_tail takeWhile_append dropWhile_append)
  moreover have "\<not> starts_with (u @ '':'' @ f) ''#''"
    using assms by (cases u) (auto simp: clean_entry_def)
  ultimately show ?thesis
    using assms by (auto simp: load_line_def clean_entry_def valid_hash_def Let_def)
qed

lemma split_on_hd: "hd (split_on d s) = takeWhile (\<lambda>c. c \<noteq> d) s"
  by (induction s) (auto split: list.splits)

lemma valid_hash_not_Nil: "valid_hash h \<Longrightarrow> h \<noteq> []"
  by (auto simp: valid_hash_def is_bcrypt_hash_def is_argon2_hash_def starts_with_def)

lemma load_line_is_clean:
  assumes "load_line n raw = Inr (Some (u, f))" "ascii raw" "CHR 0x0A \<notin> set raw"
  shows "clean_entry (u, f)"
proof -
  define line where "line = trim raw"
  have sub: "set line \<subseteq> set raw" unfolding line_def by (rule set_trim)
  have l: "line \<noteq> []" "CHR '':'' \<in> set line" "\<not> starts_with line ''#''"
      "u = takeWhile (\<lambda>c. c \<noteq> CHR '':'') line" "f = tl (dropWhile (\<lambda>c. c \<noteq> CHR '':'') line)"
      "u \<noteq> []" "valid_hash (hd (split_on TAB f))"
    using assms(1) by (auto simp: load_line_def line_def valid_hash_def Let_def split: if_splits)
  have "dropWhile (\<lambda>c. c \<noteq> CHR '':'') line = CHR '':'' # f"
    using l(2,5) by (cases "dropWhile (\<lambda>c. c \<noteq> CHR '':'') line") (auto simp: dropWhile_eq_Nil_conv dropWhile_eq_Cons_conv)
  with l(4) have line: "line = u @ CHR '':'' # f" by (metis takeWhile_dropWhile_id)
  have f: "f \<noteq> []" using l(7) valid_hash_not_Nil [of "[]"] by (auto simp: split_on_hd)
  have so: "nonblank (hd line)" "nonblank (last line)"
    unfolding line_def by (rule trimmed_solid [OF assms(2) l(1) [unfolded line_def]])+
  have as: "ascii line" by (rule ascii_subset [OF assms(2) sub])
  have "CHR '':'' \<notin> set u" using l(4) by (auto dest: set_takeWhileD)
  moreover have "hd u \<noteq> CHR ''#''" using l(3,6) line by (cases u) auto
  ultimately show ?thesis
    using so as sub assms(3) l(6,7) f by (auto simp: clean_entry_def line hd_append)
qed

lemma clean_update:
  "list_all clean_entry xs \<Longrightarrow> clean_entry (u, f) \<Longrightarrow> list_all clean_entry (AList.update u f xs)"
  by (induction xs) auto

lemma clean_delete: "list_all clean_entry xs \<Longrightarrow> list_all clean_entry (AList.delete u xs)"
  by (auto simp: list_all_iff AList.delete_eq)

lemma load_lines_clean:
  assumes "load_lines n raws users = Inr users'" "list_all (\<lambda>l. ascii l \<and> CHR 0x0A \<notin> set l) raws"
    and "list_all clean_entry users" "distinct (map fst users)"
  shows "list_all clean_entry users' \<and> distinct (map fst users')"
  using assms
proof (induction raws arbitrary: n users)
  case (Cons raw raws)
  from Cons.prems obtain e where e: "load_line n raw = Inr e"
      "load_lines (n + 1) raws (case e of None \<Rightarrow> users | Some (user, hash_field) \<Rightarrow> AList.update user hash_field users) = Inr users'"
    by (auto simp: rbind_Inr_iff)
  show ?case
  proof (cases e)
    case None
    with e Cons show ?thesis by simp
  next
    case (Some uf)
    obtain u f where uf: "uf = (u, f)" by (cases uf)
    have "clean_entry (u, f)" using load_line_is_clean e(1) Some uf Cons.prems(2) by auto
    then show ?thesis
      using Cons.IH [OF e(2)] Cons.prems Some uf by (simp add: clean_update distinct_update)
  qed
qed simp

lemma str_lines_LF:
  "CHR 0x0A \<notin> set l \<Longrightarrow> (l = [] \<or> last l \<noteq> CHR 0x0D) \<Longrightarrow> str_lines (l @ CHR 0x0A # r) = l # str_lines r"
proof -
  assume l: "CHR 0x0A \<notin> set l" "l = [] \<or> last l \<noteq> CHR 0x0D"
  have "strip_eol (l @ [CHR 0x0A]) = l"
    using l(2) by (cases l rule: rev_cases)
      (auto simp: strip_eol_def strip_suffix_def ends_with_def starts_with_def split: option.splits)
  then show ?thesis using split_inclusive_line [OF l(1), of r] by (simp add: str_lines_def)
qed

lemma set_split_inclusive: "l \<in> set (split_inclusive s) \<Longrightarrow> set l \<subseteq> set s"
  by (metis UN_upper concat_split_inclusive set_concat)

lemma set_str_lines: "l \<in> set (str_lines s) \<Longrightarrow> set l \<subseteq> set s"
proof -
  assume "l \<in> set (str_lines s)"
  then obtain k where k: "k \<in> set (split_inclusive s)" "l = strip_eol k" by (auto simp: str_lines_def)
  have "set (strip_eol k) \<subseteq> set k"
    by (auto simp: strip_eol_def strip_suffix_def split: option.splits if_splits dest!: in_set_takeD)
  with k set_split_inclusive [OF k(1)] show ?thesis by auto
qed

lemma split_inclusive_LF: "l \<in> set (split_inclusive s) \<Longrightarrow> CHR 0x0A \<notin> set (butlast l)"
  by (induction s arbitrary: l) (auto split: if_splits list.splits)

lemma str_lines_no_LF: "l \<in> set (str_lines s) \<Longrightarrow> CHR 0x0A \<notin> set l"
proof -
  assume "l \<in> set (str_lines s)"
  then obtain k where k: "k \<in> set (split_inclusive s)" "l = strip_eol k" by (auto simp: str_lines_def)
  note b = split_inclusive_LF [OF k(1)]
  show ?thesis
  proof (cases k rule: rev_cases)
    case Nil
    with k show ?thesis by (simp add: strip_eol_def strip_suffix_def ends_with_def starts_with_def)
  next
    case (snoc k' c)
    with b k(2) show ?thesis
      by (auto simp: strip_eol_def strip_suffix_def ends_with_def starts_with_def split: option.splits if_splits dest!: in_set_takeD)
  qed
qed

lemma update_absent: "k \<notin> fst ` set xs \<Longrightarrow> AList.update k v xs = xs @ [(k, v)]"
  by (induction xs) auto

lemma load_lines_entries:
  "list_all clean_entry es \<Longrightarrow> distinct (map fst (acc @ es)) \<Longrightarrow>
     load_lines n (map (\<lambda>(u, f). u @ '':'' @ f) es) acc = Inr (acc @ es)"
proof (induction es arbitrary: n acc)
  case (Cons e es)
  obtain u f where e: "e = (u, f)" by (cases e)
  have "load_line n (u @ '':'' @ f) = Inr (Some (u, f))"
    using Cons.prems e by (intro load_line_clean) simp
  moreover have "AList.update u f acc = acc @ [(u, f)]"
    using Cons.prems e by (intro update_absent) auto
  ultimately show ?case using Cons.IH [of "acc @ [e]" "Suc n"] Cons.prems by (simp add: e)
qed simp

definition canonical :: "(string \<times> string) list \<Rightarrow> (string \<times> string) list" where
  "canonical users = map (\<lambda>u. (u, the (map_of users u))) (sort (map fst users))"

lemma canonical_entries:
  assumes "list_all clean_entry users"
  shows "list_all clean_entry (canonical users)"
proof -
  have "clean_entry (u, the (map_of users u))" if "u \<in> fst ` set users" for u
  proof -
    from that obtain f where "map_of users u = Some f" by (metis not_None_eq map_of_eq_None_iff)
    with assms show ?thesis by (auto simp: list_all_iff dest: map_of_SomeD)
  qed
  then show ?thesis by (auto simp: canonical_def list_all_iff)
qed

lemma canonical_map: "map_of (canonical users) = map_of users"
proof
  fix u
  show "map_of (canonical users) u = map_of users u"
  proof (cases "u \<in> fst ` set users")
    case True
    then obtain f where "map_of users u = Some f" by (metis not_None_eq map_of_eq_None_iff)
    with True show ?thesis by (simp add: canonical_def map_of_map_restrict restrict_map_def)
  next
    case False
    then have "map_of users u = None" by (simp add: map_of_eq_None_iff)
    with False show ?thesis by (simp add: canonical_def map_of_map_restrict restrict_map_def)
  qed
qed

lemma contents_lines:
  "list_all clean_entry es \<Longrightarrow>
     str_lines (concat (map (\<lambda>(u, f). u @ '':'' @ f @ [CHR 0x0A]) es)) = map (\<lambda>(u, f). u @ '':'' @ f) es"
proof (induction es)
  case (Cons e es)
  obtain u f where e: "e = (u, f)" by (cases e)
  have cl: "clean_entry (u, f)" using Cons.prems e by simp
  then have "last f \<noteq> CHR 0x0D"
    by (auto simp: clean_entry_def nonblank_def is_whitespace_def ws_seqs_def)
  with cl have "str_lines ((u @ '':'' @ f) @ CHR 0x0A # r) = (u @ '':'' @ f) # str_lines r" for r
    by (intro str_lines_LF) (auto simp: clean_entry_def)
  with Cons show ?case by (simp add: e)
qed (simp add: str_lines_def)

lemma contents_canonical:
  "passwd_contents users = concat (map (\<lambda>(u, f). u @ '':'' @ f @ [CHR 0x0A]) (canonical users))"
proof -
  have "passwd_line users u = u @ '':'' @ the (map_of users u) @ [CHR 0x0A]" if "u \<in> fst ` set users" for u
    using that by (force simp: passwd_line_def map_of_eq_None_iff split: option.splits)
  then have "map (passwd_line users) (sort (map fst users)) =
      map (\<lambda>u. u @ '':'' @ the (map_of users u) @ [CHR 0x0A]) (sort (map fst users))"
    by (intro map_cong) auto
  then show ?thesis
    unfolding passwd_contents_def canonical_def by (simp only: map_map comp_def prod.case)
qed

lemma ascii_lines: "list_all clean_entry es \<Longrightarrow> ascii (concat (map (\<lambda>(u, f). u @ '':'' @ f @ [CHR 0x0A]) es))"
  by (induction es) (auto simp: clean_entry_def)

lemma ascii_contents: "list_all clean_entry users \<Longrightarrow> ascii (passwd_contents users)"
  unfolding contents_canonical by (intro ascii_lines canonical_entries)

text \<open>What the backend writes it reads back, as the same table.\<close>

lemma contents_load:
  assumes "list_all clean_entry users" "distinct (map fst users)" "io_open io" "io_read io"
  shows "load_users io (Some (passwd_contents users)) = (Some (passwd_contents users), Inr (canonical users))"
proof -
  have c: "list_all clean_entry (canonical users)" using assms(1) by (rule canonical_entries)
  have "map fst (canonical users) = sort (map fst users)" by (simp add: canonical_def comp_def)
  with assms(2) have "distinct (map fst (canonical users))" by (simp add: distinct_sort)
  then have "load_lines 0 (str_lines (passwd_contents users)) [] = Inr (canonical users)"
    using load_lines_entries [of "canonical users" "[]" 0] c contents_lines [OF c] by (simp add: contents_canonical)
  with assms ascii_contents [OF assms(1)] show ?thesis by (simp add: load_users_def utf8_valid_ascii)
qed

section \<open>Operations and restarts\<close>

text \<open>Documented of the crates: hashes start with their identifier and are printable, as base64 is.\<close>

definition passwd_laws :: "passwd_env \<Rightarrow> bool" where
  "passwd_laws E \<longleftrightarrow>
     (\<forall>k p h. pw_bcrypt_hash E k p = Inr h \<longrightarrow> is_bcrypt_hash h \<and> list_all is_graphic h) \<and>
     (\<forall>k p h. pw_argon2_hash E k p = Inr h \<longrightarrow> is_argon2_hash h \<and> list_all is_graphic h) \<and>
     (\<forall>x. list_all is_graphic (pw_b64_encode E x) \<and> (x \<noteq> [] \<longrightarrow> pw_b64_encode E x \<noteq> []))"

definition plain_name :: "string \<Rightarrow> bool" where
  "plain_name u \<longleftrightarrow> u \<noteq> [] \<and> list_all is_graphic u \<and> CHR '':'' \<notin> set u \<and> hd u \<noteq> CHR ''#''"

fun plain_op :: "passwd_op \<Rightarrow> bool" where
  "plain_op (CreateUser k user password) \<longleftrightarrow> plain_name (username_str user)"
| "plain_op (StoreScram user salt iterations stored_key server_key) \<longleftrightarrow> server_key \<noteq> []"
| "plain_op _ \<longleftrightarrow> True"

definition passwd_inv :: "file_auth \<Rightarrow> bool" where
  "passwd_inv s \<longleftrightarrow> list_all clean_entry (fa_users s) \<and> distinct (map fst (fa_users s))"

lemma graphic_plain:
  assumes "list_all is_graphic s"
  shows "ascii s" "CHR 0x0A \<notin> set s" "TAB \<notin> set s" "s \<noteq> [] \<Longrightarrow> nonblank (hd s)" "s \<noteq> [] \<Longrightarrow> nonblank (last s)"
  using assms by (auto simp: ascii_def list_all_iff graphic_ascii graphic_solid is_graphic_def)

lemma show_nat_plain: "ascii (show_nat n)" "CHR 0x0A \<notin> set (show_nat n)"
  using graphic_plain [OF digits_graphic [OF show_nat_digits]] by auto

lemma hash_password_plain:
  assumes "passwd_laws E" "hash_password E k alg p = Inr h"
  shows "valid_hash h" "list_all is_graphic h"
  using assms by (auto simp: hash_password_def passwd_laws_def valid_hash_def map_err_Inr_iff split: hash_algorithm.splits)

lemma clean_hash:
  assumes "clean_entry (u, f) \<or> plain_name u" "valid_hash h" "list_all is_graphic h"
  shows "clean_entry (u, h)"
proof -
  have "hd (split_on TAB h) = h" using graphic_plain(3) [OF assms(3)] by (simp add: split_on_no_sep)
  then show ?thesis
    using assms graphic_plain [OF assms(3)] valid_hash_not_Nil [OF assms(2)]
    by (auto simp: clean_entry_def plain_name_def graphic_plain)
qed

lemma clean_with_scram:
  assumes "clean_entry (u, f)" "passwd_laws E" "valid_hash h" "ascii h" "CHR 0x0A \<notin> set h" "TAB \<notin> set h"
    and "sc_server_key c \<noteq> []"
  shows "clean_entry (u, with_scram E h c)"
proof -
  have enc: "list_all is_graphic (pw_b64_encode E x)" "x \<noteq> [] \<Longrightarrow> pw_b64_encode E x \<noteq> []" for x
    using assms(2) by (auto simp: passwd_laws_def)
  have "takeWhile (\<lambda>c. c \<noteq> TAB) (h @ TAB # r) = h" for r
    using assms(6) by (auto simp: takeWhile_append takeWhile_eq_all_conv)
  then show ?thesis
    using assms enc(2) [of "sc_server_key c"] graphic_plain [OF enc(1)] show_nat_plain [of "sc_iteration_count c"]
    by (auto simp: clean_entry_def with_scram_def split_on_hd)
qed

lemma save_users_users [simp]: "fa_users (fst (save_users io s)) = fa_users s" "fa_algorithm (fst (save_users io s)) = fa_algorithm s"
  by (simp_all add: save_users_def Let_def split: option.splits)

lemma scram_server_key: "record_scram E f = Some c \<Longrightarrow> sc_server_key c \<noteq> []"
  by (auto simp: record_scram_def bind_eq_Some_conv split: list.splits if_splits)

lemma password_hash_plain:
  assumes "clean_entry (u, f)"
  shows "valid_hash (password_hash f)" "ascii (password_hash f)" "CHR 0x0A \<notin> set (password_hash f)"
    "TAB \<notin> set (password_hash f)"
proof -
  have "set (password_hash f) \<subseteq> set f" by (auto simp: password_hash_def split_on_hd dest: set_takeWhileD)
  with assms show "ascii (password_hash f)" "CHR 0x0A \<notin> set (password_hash f)"
    by (auto simp: clean_entry_def elim: ascii_subset)
  show "valid_hash (password_hash f)" "TAB \<notin> set (password_hash f)"
    using assms by (auto simp: clean_entry_def password_hash_def split_on_hd dest: set_takeWhileD)
qed

lemma passwd_step_inv:
  assumes "passwd_laws E" "passwd_inv s" "plain_op op"
  shows "passwd_inv (fst (passwd_step E s (io, op)))"
proof -
  have entry: "clean_entry (u, f)" if "map_of (fa_users s) u = Some f" for u f
    using that assms(2) by (auto simp: passwd_inv_def list_all_iff dest: map_of_SomeD)
  note upd = clean_update distinct_update
  show ?thesis
  proof (cases op)
    case (CreateUser k user password)
    then show ?thesis using assms
      by (auto simp: create_user_def passwd_inv_def upd hash_password_plain clean_hash split: sum.splits)
  next
    case (DeleteUser user)
    then show ?thesis using assms
      by (auto simp: delete_user_def passwd_inv_def clean_delete distinct_delete)
  next
    case (ChangePassword k user password)
    have "clean_entry (username_str user, case record_scram E f of Some creds \<Rightarrow> with_scram E h creds | None \<Rightarrow> h)"
      if "map_of (fa_users s) (username_str user) = Some f" "hash_password E k (fa_algorithm s) password = Inr h" for f h
      using entry [OF that(1)] hash_password_plain [OF assms(1) that(2)]
      by (auto simp: graphic_plain scram_server_key split: option.split intro!: clean_with_scram assms(1) intro: clean_hash)
    with ChangePassword assms(2) show ?thesis
      by (auto simp: change_password_def passwd_inv_def upd Let_def split: option.split sum.split)
  next
    case (StoreScram user salt iterations stored_key server_key)
    have "clean_entry (username_str user, with_scram E (password_hash f) c)"
      if "map_of (fa_users s) (username_str user) = Some f" "sc_server_key c \<noteq> []" for f c
      using entry [OF that(1)] that(2) assms(1) by (intro clean_with_scram) (auto simp: password_hash_plain)
    with StoreScram assms(2,3) show ?thesis
      by (auto simp: store_scram_credentials_def set_scram_credentials_def passwd_inv_def upd split: option.split)
  qed
qed

lemma save_outcome:
  "snd (save_users io s) = Inr () \<Longrightarrow> fa_disk (fst (save_users io s)) = Some (passwd_contents (fa_users s))"
  "snd (save_users io s) = Inl e \<Longrightarrow> fa_disk (fst (save_users io s)) = fa_disk s"
  by (auto simp: save_users_def Let_def split: option.splits if_splits)

lemma passwd_step_outcome:
  "snd (passwd_step E s (io, op)) = Inr () \<Longrightarrow>
     fa_disk (fst (passwd_step E s (io, op))) = Some (passwd_contents (fa_users (fst (passwd_step E s (io, op)))))"
  "snd (passwd_step E s (io, op)) = Inl e \<Longrightarrow> fa_disk (fst (passwd_step E s (io, op))) = fa_disk s"
  by (cases op; auto simp: create_user_def delete_user_def change_password_def store_scram_credentials_def
      set_scram_credentials_def Let_def save_outcome split: if_splits option.splits sum.splits)+

lemma load_users_inv:
  assumes "load_users io disk = (disk', Inr users)" "\<And>c. disk = Some c \<Longrightarrow> ascii c"
  shows "list_all clean_entry users \<and> distinct (map fst users)"
proof (cases disk)
  case None
  with assms show ?thesis by (auto simp: load_users_def split: if_splits)
next
  case (Some c)
  with assms(1) have l: "load_lines 0 (str_lines c) [] = Inr users" by (auto simp: load_users_def split: if_splits)
  have "list_all (\<lambda>l. ascii l \<and> CHR 0x0A \<notin> set l) (str_lines c)"
    using assms(2) [OF Some] set_str_lines str_lines_no_LF by (auto simp: list_all_iff intro: ascii_subset)
  from load_lines_clean [OF l this] show ?thesis by simp
qed

lemma file_backend_cong: "map_of (fa_users t) = map_of (fa_users s) \<Longrightarrow> file_backend E t = file_backend E s"
  by (simp add: file_backend_def fa_authenticate_def [abs_def] fa_verify_identity_def [abs_def] scram_or_def
      fetch_scram_credentials_def)

lemma passwd_run_inv:
  "passwd_laws E \<Longrightarrow> passwd_inv s \<Longrightarrow> \<forall>e\<in>set es. plain_op (snd e) \<Longrightarrow> passwd_inv (fst (run (passwd_step E) s es))"
proof (induction es arbitrary: s)
  case (Cons e es)
  obtain io op where e: "e = (io, op)" by (cases e)
  then show ?case using Cons passwd_step_inv [of E s op io] by (simp add: case_prod_beta)
qed simp

text \<open>C8: From any password file in ASCII, after any operations on accounts with plain names and under any failures
  of the system: an operation that reports an error leaves the file alone, and after one that reports success
  a restart, whatever algorithm it is configured with, gives a backend that answers every question as the
  running one does.\<close>

theorem passwd_restart_exact:
  assumes "passwd_laws E" "FileAuth_with_algorithm io0 algorithm disk temp = (disk', Inr s0)"
    and "\<And>c. disk = Some c \<Longrightarrow> ascii c" "\<forall>e\<in>set es. plain_op (snd e)" "plain_op op"
    and "s = fst (run (passwd_step E) s0 es)" "passwd_step E s (io, op) = (s', r)" "io_open io1" "io_read io1"
  shows "case r of
           Inl _ \<Rightarrow> fa_disk s' = fa_disk s
         | Inr _ \<Rightarrow> \<exists>t. FileAuth_with_algorithm io1 algorithm1 (fa_disk s') temp1 = (fa_disk s', Inr t) \<and>
                       file_backend E t = file_backend E s'"
proof -
  from assms(2) obtain d where "load_users io0 disk = (d, Inr (fa_users s0))"
    by (auto simp: FileAuth_with_algorithm_def split: prod.splits sum.splits)
  with load_users_inv assms(3) have "passwd_inv s0" by (auto simp: passwd_inv_def)
  with assms have inv: "passwd_inv s'" using passwd_run_inv passwd_step_inv by (metis fst_conv)
  show ?thesis
  proof (cases r)
    case (Inl e)
    with assms(7) passwd_step_outcome(2) [of E s io op e] show ?thesis by simp
  next
    case (Inr u)
    with assms(7) have d: "fa_disk s' = Some (passwd_contents (fa_users s'))"
      using passwd_step_outcome(1) [of E s io op] by simp
    from inv have "load_users io1 (fa_disk s') = (fa_disk s', Inr (canonical (fa_users s')))"
      unfolding d by (intro contents_load) (simp_all add: passwd_inv_def assms)
    then show ?thesis
      using Inr by (simp add: FileAuth_with_algorithm_def) (rule file_backend_cong, simp add: canonical_map)
  qed
qed

text \<open>An instance of the crates: base64 as in \<open>Proto_Mime\<close>, and a hash that only encodes.\<close>

definition demo_hash :: "string \<Rightarrow> string \<Rightarrow> string" where
  "demo_hash p x = p @ encode_base64 x"

definition demo_passwd_env :: passwd_env where
  "demo_passwd_env =
     \<lparr>pw_bcrypt_hash = (\<lambda>k x. Inr (demo_hash ''$2b$'' x)), pw_bcrypt_verify = (\<lambda>x h. Inr (h = demo_hash ''$2b$'' x)),
      pw_argon2_hash = (\<lambda>k x. Inr (demo_hash ''$argon2id$'' x)), pw_argon2_verify = (\<lambda>x h. Inr (h = demo_hash ''$argon2id$'' x)),
      pw_b64_encode = encode_base64, pw_b64_decode = (\<lambda>x. case decode_base64_loop x of Inl _ \<Rightarrow> None | Inr y \<Rightarrow> Some y)\<rparr>"

definition passwd_io_ok :: passwd_io where
  "passwd_io_ok =
     \<lparr>io_mkdir = True, io_create = True, io_open = True, io_read = True, io_temp_create = True,
      io_temp_write = None, io_temp_sync = True, io_rename = True\<rparr>"

lemma b64_char_graphic: "unat w < 64 \<Longrightarrow> is_graphic (b64_char w)"
proof -
  have "list_all is_graphic b64_alphabet \<and> length b64_alphabet = 64" by code_simp
  then show "unat w < 64 \<Longrightarrow> is_graphic (b64_char w)" by (simp add: b64_char_def list_all_length)
qed

lemma encode_base64_graphic: "list_all is_graphic (encode_base64 x)"
proof -
  have eq: "is_graphic (CHR ''='')" by (simp add: is_graphic_def)
  show ?thesis
    by (induction x rule: encode_base64.induct)
      (simp_all only: encode_base64.simps Let_def append.simps list.pred_inject b64_char_graphic [OF b64_sextets(1)]
        b64_char_graphic [OF b64_sextets(2)] b64_char_graphic [OF b64_sextets(3)] b64_char_graphic [OF b64_sextets(4)]
        b64_char_graphic [OF b64_sextets(5)] b64_char_graphic [OF b64_sextets(6)] eq simp_thms)
qed

lemma encode_base64_Nil: "encode_base64 x = [] \<longleftrightarrow> x = []"
  by (cases x rule: encode_base64.cases) (simp_all add: Let_def)

lemma demo_passwd_laws: "passwd_laws demo_passwd_env"
  by (auto simp: passwd_laws_def demo_passwd_env_def demo_hash_def encode_base64_graphic encode_base64_Nil
      is_bcrypt_hash_def is_argon2_hash_def is_graphic_def)

definition demo_passwd_state :: file_auth where
  "demo_passwd_state =
     fst (run (passwd_step demo_passwd_env)
            \<lparr>fa_users = [], fa_algorithm = Bcrypt, fa_disk = Some [], fa_temp = None\<rparr>
            [(passwd_io_ok, CreateUser 0 (Username ''bob'') ''pw'')])"

definition demo_passwd_next :: "file_auth \<times> unit result" where
  "demo_passwd_next = passwd_step demo_passwd_env demo_passwd_state (passwd_io_ok, CreateUser 1 (Username ''alice'') ''secret'')"

lemma demo_passwd_facts:
  "FileAuth_with_algorithm passwd_io_ok Bcrypt None None =
     (Some [], Inr \<lparr>fa_users = [], fa_algorithm = Bcrypt, fa_disk = Some [], fa_temp = None\<rparr>) \<and>
   snd demo_passwd_next = Inr () \<and> plain_name ''alice'' \<and> plain_name ''bob'' \<and> io_open passwd_io_ok \<and> io_read passwd_io_ok \<and>
   fa_authenticate demo_passwd_env (fst demo_passwd_next) (Username ''alice'') ''secret'' = Inr True"
  by code_simp

theorem passwd_restart_exact_witness:
  "\<exists>t. FileAuth_with_algorithm passwd_io_ok Argon2 (fa_disk (fst demo_passwd_next)) None = (fa_disk (fst demo_passwd_next), Inr t) \<and>
     file_backend demo_passwd_env t = file_backend demo_passwd_env (fst demo_passwd_next) \<and>
     fa_authenticate demo_passwd_env t (Username ''alice'') ''secret'' = Inr True"
proof -
  note f = demo_passwd_facts
  have "case snd demo_passwd_next of
      Inl _ \<Rightarrow> fa_disk (fst demo_passwd_next) = fa_disk demo_passwd_state
    | Inr _ \<Rightarrow> \<exists>t. FileAuth_with_algorithm passwd_io_ok Argon2 (fa_disk (fst demo_passwd_next)) None = (fa_disk (fst demo_passwd_next), Inr t) \<and>
        file_backend demo_passwd_env t = file_backend demo_passwd_env (fst demo_passwd_next)"
  proof (rule passwd_restart_exact [OF demo_passwd_laws _ _ _ _ demo_passwd_state_def])
    show "FileAuth_with_algorithm passwd_io_ok Bcrypt None None =
        (Some [], Inr \<lparr>fa_users = [], fa_algorithm = Bcrypt, fa_disk = Some [], fa_temp = None\<rparr>)" using f by blast
    show "passwd_step demo_passwd_env demo_passwd_state (passwd_io_ok, CreateUser 1 (Username ''alice'') ''secret'') =
        (fst demo_passwd_next, snd demo_passwd_next)"
      unfolding demo_passwd_next_def by simp
  qed (use f in simp_all)
  then obtain t where t: "FileAuth_with_algorithm passwd_io_ok Argon2 (fa_disk (fst demo_passwd_next)) None = (fa_disk (fst demo_passwd_next), Inr t)"
      "file_backend demo_passwd_env t = file_backend demo_passwd_env (fst demo_passwd_next)"
    using f by auto
  from t(2) have "fa_authenticate demo_passwd_env t = fa_authenticate demo_passwd_env (fst demo_passwd_next)"
    by (simp add: file_backend_def)
  with t f show ?thesis by auto
qed

section \<open>Password changes and SCRAM\<close>

definition b64_law :: "passwd_env \<Rightarrow> bool" where
  "b64_law E \<longleftrightarrow> (\<forall>x. pw_b64_decode E (pw_b64_encode E x) = Some x)"

lemma str_splitn_step: "d \<notin> set a \<Longrightarrow> str_splitn (Suc (Suc n)) d (a @ d # b) = a # str_splitn (Suc n) d b"
  by (auto simp: takeWhile_append takeWhile_eq_all_conv dropWhile_append)

definition complete_creds :: "scram_creds \<Rightarrow> bool" where
  "complete_creds c \<longleftrightarrow>
     sc_salt c \<noteq> [] \<and> sc_iteration_count c \<le> u32_max \<and> length (sc_stored_key c) = 32 \<and> length (sc_server_key c) = 32"

lemma scram_roundtrip:
  assumes "passwd_laws E" "b64_law E" "TAB \<notin> set h" "complete_creds c"
  shows "record_scram E (with_scram E h c) = Some c"
proof -
  have enc: "TAB \<notin> set (pw_b64_encode E x)" for x
    using assms(1) graphic_plain(3) by (auto simp: passwd_laws_def)
  have n: "TAB \<notin> set (show_nat k)" for k by (rule graphic_plain(3) [OF digits_graphic [OF show_nat_digits]])
  have "str_splitn 5 TAB (with_scram E h c) =
      [h, pw_b64_encode E (sc_salt c), show_nat (sc_iteration_count c), pw_b64_encode E (sc_stored_key c), pw_b64_encode E (sc_server_key c)]"
    by (simp add: with_scram_def numeral_eq_Suc str_splitn_step assms(3) enc n del: str_splitn.simps(3))
  with assms(2,4) show ?thesis
    by (simp add: record_scram_def b64_law_def parse_uint_show_nat complete_creds_def)
qed

lemma scram_complete: "record_scram E f = Some c \<Longrightarrow> complete_creds c"
  by (auto simp: record_scram_def complete_creds_def bind_eq_Some_conv split: list.splits if_splits dest: parse_uint_bound)

lemma scram_old_format: "TAB \<notin> set h \<Longrightarrow> record_scram E h = None"
  by (simp add: record_scram_def numeral_eq_Suc)

lemma change_password_scram:
  assumes "passwd_laws E" "b64_law E"
  shows "fetch_scram_credentials E (fst (change_password E io k user password s)) u = fetch_scram_credentials E s u"
proof -
  have "record_scram E (case record_scram E f of Some creds \<Rightarrow> with_scram E h creds | None \<Rightarrow> h) = record_scram E f"
    if "hash_password E k (fa_algorithm s) password = Inr h" for f h
    using that assms hash_password_plain [OF assms(1) that] graphic_plain(3)
    by (auto simp: scram_roundtrip scram_complete scram_old_format split: option.split)
  then show ?thesis
    by (auto simp: change_password_def fetch_scram_credentials_def update_conv' Let_def split: option.split sum.split)
qed

text \<open>C26: Changing a password leaves the SCRAM columns as they are, so whoever knew the old password still logs in
  with SCRAM-SHA-256: every step of an exchange ends as before the change.\<close>

theorem scram_outlives_password_change:
  assumes "passwd_laws E" "b64_law E"
  shows "scram_step (env\<lparr>se_auth := file_backend E (fst (change_password E io k user new_password s))\<rparr>) m response =
         scram_step (env\<lparr>se_auth := file_backend E s\<rparr>) m response"
proof -
  let ?s' = "fst (change_password E io k user new_password s)"
  have "scram_or E ?s' u = scram_or E s u" for u
    by (simp add: scram_or_def change_password_scram assms)
  then have keys: "ab_scram_params (file_backend E ?s') = ab_scram_params (file_backend E s)"
      "ab_scram_stored_key (file_backend E ?s') = ab_scram_stored_key (file_backend E s)"
      "ab_scram_server_key (file_backend E ?s') = ab_scram_server_key (file_backend E s)"
    by (simp_all add: file_backend_def)
  have check: "scram_check (env\<lparr>se_auth := file_backend E ?s'\<rparr>) m = scram_check (env\<lparr>se_auth := file_backend E s\<rparr>) m"
    by (simp add: scram_check_def [abs_def] keys Let_def cong: if_cong)
  have "scram_first (env\<lparr>se_auth := file_backend E ?s'\<rparr>) m response = scram_first (env\<lparr>se_auth := file_backend E s\<rparr>) m response"
      "scram_final (env\<lparr>se_auth := file_backend E ?s'\<rparr>) m response = scram_final (env\<lparr>se_auth := file_backend E s\<rparr>) m response"
    by (simp_all add: scram_first_def scram_final_def check keys cong: if_cong)
  then show ?thesis by (simp add: scram_step_def Let_def split: sasl_state.split)
qed

definition demo_creds :: scram_creds where
  "demo_creds = \<lparr>sc_salt = ''salt'', sc_iteration_count = 4096, sc_stored_key = replicate 32 CHR ''s'', sc_server_key = replicate 32 CHR ''v''\<rparr>"

definition demo_scram_state :: file_auth where
  "demo_scram_state = fst (set_scram_credentials demo_passwd_env passwd_io_ok ''bob'' demo_creds demo_passwd_state)"

lemma demo_b64_law: "b64_law demo_passwd_env"
  by (simp add: b64_law_def demo_passwd_env_def decode_encode_base64_loop)

lemma demo_scram_facts:
  "fa_authenticate demo_passwd_env (fst (change_password demo_passwd_env passwd_io_ok 2 (Username ''bob'') ''new'' demo_scram_state)) (Username ''bob'') ''pw'' = Inr False"
  "fetch_scram_credentials demo_passwd_env demo_scram_state ''bob'' = Some demo_creds"
proof -
  have e: "fa_users demo_passwd_state = [(''bob'', demo_hash ''$2b$'' ''pw'')] \<and> fa_algorithm demo_passwd_state = Bcrypt \<and>
      TAB \<notin> set (demo_hash ''$2b$'' ''pw'') \<and> TAB \<notin> set (demo_hash ''$2b$'' ''new'') \<and>
      demo_hash ''$2b$'' ''new'' \<noteq> demo_hash ''$2b$'' ''pw'' \<and> is_bcrypt_hash (demo_hash ''$2b$'' ''new'')"
    by code_simp
  have c: "complete_creds demo_creds" by (simp add: complete_creds_def demo_creds_def u32_max_def)
  have ph: "password_hash (with_scram demo_passwd_env h demo_creds) = h" if "TAB \<notin> set h" for h
    using that by (auto simp: password_hash_def with_scram_def split_on_hd takeWhile_append takeWhile_eq_all_conv)
  have st: "fa_users demo_scram_state = [(''bob'', with_scram demo_passwd_env (demo_hash ''$2b$'' ''pw'') demo_creds)]"
      "fa_algorithm demo_scram_state = Bcrypt"
    using e by (simp_all add: demo_scram_state_def set_scram_credentials_def password_hash_def split_on_no_sep)
  note rt = scram_roundtrip [OF demo_passwd_laws demo_b64_law _ c]
  show "fetch_scram_credentials demo_passwd_env demo_scram_state ''bob'' = Some demo_creds"
    using e by (simp add: fetch_scram_credentials_def st rt)
  have h: "hash_password demo_passwd_env 2 Bcrypt ''new'' = Inr (demo_hash ''$2b$'' ''new'')"
    by (simp add: hash_password_def demo_passwd_env_def)
  show "fa_authenticate demo_passwd_env (fst (change_password demo_passwd_env passwd_io_ok 2 (Username ''bob'') ''new'' demo_scram_state)) (Username ''bob'') ''pw'' = Inr False"
    using e by (simp add: change_password_def st rt h ph fa_authenticate_def verify_password_def Let_def) (simp add: demo_passwd_env_def)
qed

theorem scram_outlives_password_change_witness:
  "\<exists>s s'. s' = fst (change_password demo_passwd_env passwd_io_ok 2 (Username ''bob'') ''new'' s) \<and>
     fa_authenticate demo_passwd_env s' (Username ''bob'') ''pw'' = Inr False \<and>
     fetch_scram_credentials demo_passwd_env s ''bob'' = Some demo_creds \<and>
     (\<forall>env m response. scram_step (env\<lparr>se_auth := file_backend demo_passwd_env s'\<rparr>) m response =
        scram_step (env\<lparr>se_auth := file_backend demo_passwd_env s\<rparr>) m response)"
proof (intro exI conjI allI)
  fix env m response
  show "scram_step (env\<lparr>se_auth := file_backend demo_passwd_env
           (fst (change_password demo_passwd_env passwd_io_ok 2 (Username ''bob'') ''new'' demo_scram_state))\<rparr>) m response =
        scram_step (env\<lparr>se_auth := file_backend demo_passwd_env demo_scram_state\<rparr>) m response"
    by (rule scram_outlives_password_change [OF demo_passwd_laws demo_b64_law])
qed (use demo_scram_facts in simp_all)

section \<open>Names that are not plain\<close>

lemma load_lines_append:
  "load_lines n (xs @ ys) users = rbind (load_lines n xs users) (load_lines (n + length xs) ys)"
proof (induction xs arbitrary: n users)
  case (Cons x xs)
  then show ?case by (cases "load_line n x") auto
qed simp

lemma sort_snoc_greatest: "(\<And>x. x \<in> set xs \<Longrightarrow> x \<le> y) \<Longrightarrow> sort (xs @ [y]) = sort xs @ [y]"
  by (rule sorted_sort_id [symmetric, THEN trans, OF _ properties_for_sort]) (auto simp: sorted_append)

text \<open>A name with a line feed: its first line is an entry of its own, its second the name of the victim.\<close>

definition injecting_name :: "string \<Rightarrow> string" where
  "injecting_name victim = ''~:$2b$'' @ [CHR 0x0A] @ victim"

lemma injected_contents:
  assumes "\<forall>u\<in>fst ` set users. u < injecting_name victim"
  shows "passwd_contents (users @ [(injecting_name victim, h)]) =
     concat (map (\<lambda>(u, f). u @ '':'' @ f @ [CHR 0x0A]) (canonical users @ [(''~'', ''$2b$''), (victim, h)]))"
proof -
  let ?e = "injecting_name victim"
  have fresh: "map_of users ?e = None" using assms by (auto simp: map_of_eq_None_iff)
  have keys: "sort (map fst (users @ [(?e, h)])) = sort (map fst users) @ [?e]"
    using sort_snoc_greatest [of "map fst users" ?e] assms by fastforce
  have "passwd_line (users @ [(?e, h)]) u = passwd_line users u" if "u \<in> fst ` set users" for u
    using that assms by (auto simp: passwd_line_def map_add_def split: option.split)
  then have "map (passwd_line (users @ [(?e, h)])) (sort (map fst users)) = map (passwd_line users) (sort (map fst users))"
    by (intro map_cong) auto
  then have "passwd_contents (users @ [(?e, h)]) = passwd_contents users @ passwd_line (users @ [(?e, h)]) ?e"
    unfolding passwd_contents_def keys by (simp only: map_append concat_append list.map concat.simps append_Nil2)
  moreover have "passwd_line (users @ [(?e, h)]) ?e = (''~:$2b$'' @ [CHR 0x0A]) @ victim @ '':'' @ h @ [CHR 0x0A]"
    using fresh by (simp add: passwd_line_def injecting_name_def map_add_def)
  ultimately show ?thesis unfolding contents_canonical by simp
qed

lemma injected_clean:
  assumes "plain_name victim" "valid_hash h" "list_all is_graphic h"
  shows "list_all clean_entry [(''~'', ''$2b$''), (victim, h)]"
proof -
  have "plain_name ''~''" "valid_hash ''$2b$''" "list_all is_graphic ''$2b$''"
    by (simp_all add: plain_name_def valid_hash_def is_bcrypt_hash_def is_graphic_def)
  with assms clean_hash show ?thesis by auto
qed

lemma injected_load:
  assumes "passwd_inv s" "plain_name victim" "\<forall>u\<in>fst ` set (fa_users s). u < injecting_name victim"
    and "valid_hash h" "list_all is_graphic h" "io_open io" "io_read io"
  shows "load_users io (Some (passwd_contents (fa_users s @ [(injecting_name victim, h)]))) =
     (Some (passwd_contents (fa_users s @ [(injecting_name victim, h)])),
      Inr (AList.update victim h (AList.update ''~'' ''$2b$'' (canonical (fa_users s)))))"
proof -
  let ?es = "[(''~'', ''$2b$''), (victim, h)]"
  have cl: "list_all clean_entry (canonical (fa_users s))" "list_all clean_entry ?es"
    using assms(1) injected_clean [OF assms(2,4,5)] by (simp_all add: passwd_inv_def canonical_entries)
  then have all: "list_all clean_entry (canonical (fa_users s) @ ?es)" by simp
  have "distinct (map fst (canonical (fa_users s)))"
    using assms(1) by (simp add: passwd_inv_def canonical_def comp_def distinct_sort)
  then have "load_lines 0 (map (\<lambda>(u, f). u @ '':'' @ f) (canonical (fa_users s))) [] = Inr (canonical (fa_users s))"
    using load_lines_entries [of "canonical (fa_users s)" "[]" 0] cl(1) by simp
  moreover have "load_lines n (map (\<lambda>(u, f). u @ '':'' @ f) ?es) users =
      Inr (AList.update victim h (AList.update ''~'' ''$2b$'' users))" for n users
    using cl(2) load_line_clean [of "''~''" "''$2b$''"] load_line_clean [of victim h] by simp
  ultimately have "load_lines 0 (map (\<lambda>(u, f). u @ '':'' @ f) (canonical (fa_users s) @ ?es)) [] =
      Inr (AList.update victim h (AList.update ''~'' ''$2b$'' (canonical (fa_users s))))"
    by (simp only: map_append load_lines_append rbind_simps)
  then show ?thesis
    unfolding load_users_def injected_contents [OF assms(3)]
    using assms(6,7) ascii_lines [OF all] by (simp only: option.case contents_lines [OF all] utf8_valid_ascii simp_thms if_False)
qed


definition demo_injected :: "file_auth \<times> unit result" where
  "demo_injected = create_user demo_passwd_env passwd_io_ok 7 (Username (injecting_name ''bob'')) ''evil'' demo_passwd_state"

lemma demo_injected_facts:
  "snd demo_injected = Inr () \<and> list_all (\<lambda>u. u < injecting_name ''bob'') (map fst (fa_users demo_passwd_state)) \<and>
   verify_password demo_passwd_env ''evil'' (demo_hash ''$2b$'' ''evil'') = Inr True \<and>
   hash_password demo_passwd_env 7 (fa_algorithm demo_passwd_state) ''evil'' = Inr (demo_hash ''$2b$'' ''evil'') \<and>
   fa_authenticate demo_passwd_env demo_passwd_state (Username ''bob'') ''evil'' = Inr False"
  by code_simp

lemma demo_passwd_inv: "passwd_inv demo_passwd_state"
  unfolding demo_passwd_state_def using demo_passwd_facts
  by (intro passwd_run_inv) (simp_all add: demo_passwd_laws passwd_inv_def)


end
