(* ===== verification/Jmap_Api.thy ===== *)
theory Jmap_Api
  imports Auth_Sasl "HOL-Library.AList"
begin

text \<open>
  Model of the JMAP entry point: \<^verbatim>\<open>crates/rusmes-jmap/src/types.rs\<close> (requests, errors, principals), \<^verbatim>\<open>auth.rs\<close>
  (HTTP authentication), \<^verbatim>\<open>api.rs\<close> (validation and the loop over the method calls of a request),
  \<^verbatim>\<open>back_reference.rs\<close> (references to earlier results) and the dispatcher of \<^verbatim>\<open>methods/mod.rs\<close>.

  A \<^verbatim>\<open>serde_json::Value\<close> is a tree; its objects are maps in the order of their keys, here association lists.  What
  the JSON crate computes (JSON pointers, the shape of a reference, the JSON form of an error) is the record
  \<open>jmap_serde\<close>.  The method handlers are a function from the name of a method, over a state of any type.
\<close>

section \<open>JSON values\<close>

datatype json_number = PosInt nat | NegInt int | FloatBits "64 word"

datatype json =
    JNull
  | JBool bool
  | JNumber json_number
  | JString string
  | JArray "json list"
  | JObject "(string \<times> json) list"

fun json_get :: "json \<Rightarrow> string \<Rightarrow> json option" where
  "json_get (JObject kvs) k = map_of kvs k"
| "json_get _ k = None"

fun json_as_str :: "json \<Rightarrow> string option" where
  "json_as_str (JString s) = Some s"
| "json_as_str _ = None"

fun is_object :: "json \<Rightarrow> bool" where
  "is_object (JObject _) \<longleftrightarrow> True"
| "is_object _ \<longleftrightarrow> False"

section \<open>Requests, errors and principals\<close>

type_synonym method_call = "string \<times> json \<times> string"
type_synonym method_response = "string \<times> json \<times> string"

record jmap_request =
  jq_using :: "string list"
  jq_method_calls :: "method_call list"
  jq_created_ids :: "json option"

record jmap_response =
  jr_method_responses :: "method_response list"
  jr_session_state :: "string option"
  jr_created_ids :: "json option"

datatype jmap_error_type =
    NotJson | NotRequest | Limit | UnknownCapability | UnknownMethod | InvalidArguments | AccountNotFound
  | AccountNotSupportedByMethod | AccountReadOnly | ServerFail | ServerUnavailable | ServerPartialFailure | Forbidden

abbreviation error_urn :: string where
  "error_urn \<equiv> ''urn:ietf:params:jmap:error:''"

fun error_type_str :: "jmap_error_type \<Rightarrow> string" where
  "error_type_str NotJson = error_urn @ ''notJSON''"
| "error_type_str NotRequest = error_urn @ ''notRequest''"
| "error_type_str Limit = error_urn @ ''limit''"
| "error_type_str UnknownCapability = error_urn @ ''unknownCapability''"
| "error_type_str UnknownMethod = error_urn @ ''unknownMethod''"
| "error_type_str InvalidArguments = error_urn @ ''invalidArguments''"
| "error_type_str AccountNotFound = error_urn @ ''accountNotFound''"
| "error_type_str AccountNotSupportedByMethod = error_urn @ ''accountNotSupportedByMethod''"
| "error_type_str AccountReadOnly = error_urn @ ''accountReadOnly''"
| "error_type_str ServerFail = error_urn @ ''serverFail''"
| "error_type_str ServerUnavailable = error_urn @ ''serverUnavailable''"
| "error_type_str ServerPartialFailure = error_urn @ ''serverPartialFailure''"
| "error_type_str Forbidden = error_urn @ ''forbidden''"

record jmap_error =
  je_type :: string
  je_status :: "nat option"
  je_detail :: "string option"
  je_limit :: "string option"

definition JmapError_new :: "jmap_error_type \<Rightarrow> jmap_error" where
  "JmapError_new t = \<lparr>je_type = error_type_str t, je_status = None, je_detail = None, je_limit = None\<rparr>"

definition with_status :: "nat \<Rightarrow> jmap_error \<Rightarrow> jmap_error" where
  "with_status n e = e\<lparr>je_status := Some n\<rparr>"

definition with_detail :: "string \<Rightarrow> jmap_error \<Rightarrow> jmap_error" where
  "with_detail d e = e\<lparr>je_detail := Some d\<rparr>"

definition with_limit :: "string \<Rightarrow> jmap_error \<Rightarrow> jmap_error" where
  "with_limit l e = e\<lparr>je_limit := Some l\<rparr>"

record principal =
  pr_username :: string
  pr_account_id :: string
  pr_scopes :: "string list"

definition scope_admin :: string where
  "scope_admin = ''rusmes:admin:any-account''"

definition derive_account_id :: "string \<Rightarrow> string" where
  "derive_account_id user = ''account-'' @ map (\<lambda>c. if c = CHR ''@'' then CHR ''-'' else c) user"

definition Principal_from_username :: "string \<Rightarrow> principal" where
  "Principal_from_username user = \<lparr>pr_username = user, pr_account_id = derive_account_id user, pr_scopes = []\<rparr>"

definition owns_account :: "principal \<Rightarrow> string \<Rightarrow> bool" where
  "owns_account p requested \<longleftrightarrow> pr_account_id p = requested \<or> list_ex (\<lambda>s. s = scope_admin) (pr_scopes p)"

definition ensure_account_ownership :: "string \<Rightarrow> principal \<Rightarrow> unit result" where
  "ensure_account_ownership requested p =
     (if owns_account p requested then Inr ()
      else Inl (error_type_str Forbidden @ '': requested account '' @ [CHR 0x27] @ requested @ [CHR 0x27] @
                '' is not owned by principal (owns '' @ [CHR 0x27] @ pr_account_id p @ [CHR 0x27] @ '')''))"

section \<open>Back references\<close>

record result_reference =
  ref_result_of :: string
  ref_name :: string
  ref_path :: string

record jmap_serde =
  sd_pointer :: "json \<Rightarrow> string \<Rightarrow> json option"
  sd_reference :: "json \<Rightarrow> result_reference option"
  sd_error :: "jmap_error \<Rightarrow> json"
  sd_debug :: "string \<Rightarrow> string"

datatype back_ref_error = ResultNotFound string string | ResultWasError string | PathNotFound string string

text \<open>The text of an error; \<open>sd_debug\<close> is the quoted form of a string.\<close>

fun back_ref_display :: "jmap_serde \<Rightarrow> back_ref_error \<Rightarrow> string" where
  "back_ref_display S (ResultNotFound i n) =
     ''result not found: no completed call with id='' @ sd_debug S i @ '' and method='' @ sd_debug S n"
| "back_ref_display S (ResultWasError i) = ''referenced call id='' @ sd_debug S i @ '' returned an error response''"
| "back_ref_display S (PathNotFound p i) =
     ''path '' @ sd_debug S p @ '' resolved to nothing in the response for call id='' @ sd_debug S i"

type_synonym completed_calls = "(string \<times> string \<times> json) list"

definition is_error_response :: "json \<Rightarrow> bool" where
  "is_error_response body \<longleftrightarrow>
     (case Option.bind (json_get body ''type'') json_as_str of
        Some t \<Rightarrow> starts_with t error_urn
      | None \<Rightarrow> False)"

text \<open>Insertion into a map that is kept in the order of its keys.\<close>

fun str_less :: "string \<Rightarrow> string \<Rightarrow> bool" where
  "str_less _ [] \<longleftrightarrow> False"
| "str_less [] (_ # _) \<longleftrightarrow> True"
| "str_less (a # as) (b # bs) \<longleftrightarrow> code_of a < code_of b \<or> a = b \<and> str_less as bs"

fun obj_insert :: "string \<Rightarrow> json \<Rightarrow> (string \<times> json) list \<Rightarrow> (string \<times> json) list" where
  "obj_insert k v [] = [(k, v)]"
| "obj_insert k v ((k', v') # kvs) =
     (if k = k' then (k, v) # kvs
      else if str_less k k' then (k, v) # (k', v') # kvs
      else (k', v') # obj_insert k v kvs)"

definition obj_remove :: "string \<Rightarrow> (string \<times> json) list \<Rightarrow> (string \<times> json) list" where
  "obj_remove k kvs = filter (\<lambda>kv. fst kv \<noteq> k) kvs"

text \<open>The value a reference stands for.\<close>

definition resolve_reference :: "jmap_serde \<Rightarrow> completed_calls \<Rightarrow> result_reference \<Rightarrow> back_ref_error + json" where
  "resolve_reference S completed r =
     (case find (\<lambda>(i, n, _). i = ref_result_of r \<and> n = ref_name r) completed of
        None \<Rightarrow> Inl (ResultNotFound (ref_result_of r) (ref_name r))
      | Some (_, _, body) \<Rightarrow>
          if is_error_response body then Inl (ResultWasError (ref_result_of r))
          else ok_or (PathNotFound (ref_path r) (ref_result_of r)) (sd_pointer S body (ref_path r)))"

fun resolve_keys :: "jmap_serde \<Rightarrow> completed_calls \<Rightarrow> string list \<Rightarrow> (string \<times> json) list \<Rightarrow> back_ref_error + (string \<times> json) list" where
  "resolve_keys S completed [] args = Inr args"
| "resolve_keys S completed (k # ks) args =
     (case map_of args k of
        None \<Rightarrow> resolve_keys S completed ks args
      | Some raw \<Rightarrow>
          (case sd_reference S raw of
             None \<Rightarrow> resolve_keys S completed ks args
           | Some r \<Rightarrow>
               (case resolve_reference S completed r of
                  Inl e \<Rightarrow> Inl e
                | Inr extracted \<Rightarrow> resolve_keys S completed ks (obj_insert (drop 1 k) extracted (obj_remove k args)))))"

definition resolve_back_references ::
    "jmap_serde \<Rightarrow> (string \<times> json) list \<Rightarrow> completed_calls \<Rightarrow> back_ref_error + (string \<times> json) list" where
  "resolve_back_references S args completed =
     resolve_keys S completed (filter (\<lambda>k. starts_with k ''#'') (map fst args)) args"

definition resolve_back_refs_in_call :: "jmap_serde \<Rightarrow> method_call \<Rightarrow> completed_calls \<Rightarrow> back_ref_error + method_call" where
  "resolve_back_refs_in_call S call completed =
     (case call of (name, args, i) \<Rightarrow>
        (case args of
           JObject kvs \<Rightarrow> rbind (resolve_back_references S kvs completed) (\<lambda>kvs'. Inr (name, JObject kvs', i))
         | _ \<Rightarrow> Inr call))"

section \<open>Dispatch\<close>

type_synonym 'w handler = "json \<Rightarrow> principal \<Rightarrow> 'w \<Rightarrow> 'w \<times> json result"

definition required_capability :: "string \<Rightarrow> string option" where
  "required_capability m =
     (if starts_with m ''Email/'' \<or> starts_with m ''Mailbox/'' \<or> starts_with m ''Thread/'' \<or> starts_with m ''SearchSnippet/''
      then Some ''urn:ietf:params:jmap:mail''
      else if starts_with m ''EmailSubmission/'' \<or> starts_with m ''Identity/'' then Some ''urn:ietf:params:jmap:submission''
      else if starts_with m ''VacationResponse/'' then Some ''urn:ietf:params:jmap:vacationresponse''
      else None)"

definition validate_method_capability :: "string \<Rightarrow> string list \<Rightarrow> jmap_error + unit" where
  "validate_method_capability m capabilities =
     (case required_capability m of
        None \<Rightarrow> Inr ()
      | Some c \<Rightarrow>
          if list_ex (\<lambda>cap. cap = c) capabilities then Inr ()
          else Inl (with_detail (''Method '' @ [CHR 0x27] @ m @ [CHR 0x27] @ '' requires capability '' @ [CHR 0x27] @ c @ [CHR 0x27] @
                                 '' which was not declared in '' @ [CHR 0x27] @ ''using'' @ [CHR 0x27]) (JmapError_new UnknownMethod)))"

definition push_methods :: "string list" where
  "push_methods = [''PushSubscription/get'', ''PushSubscription/set'']"

definition account_methods :: "string list" where
  "account_methods =
     [''Email/get'', ''Email/set'', ''Email/query'', ''Email/changes'', ''Email/queryChanges'', ''Email/copy'',
      ''Email/import'', ''Email/parse'', ''EmailSubmission/get'', ''EmailSubmission/set'', ''EmailSubmission/query'',
      ''EmailSubmission/changes'', ''Mailbox/get'', ''Mailbox/set'', ''Mailbox/query'', ''Mailbox/changes'',
      ''Mailbox/queryChanges'', ''Thread/get'', ''Thread/changes'', ''SearchSnippet/get'', ''Identity/get'',
      ''Identity/set'', ''Identity/changes'', ''VacationResponse/get'', ''VacationResponse/set'']"

definition run_handler :: "(string \<Rightarrow> 'w handler) \<Rightarrow> method_call \<Rightarrow> principal \<Rightarrow> 'w \<Rightarrow> 'w \<times> method_response result" where
  "run_handler H call p w =
     (case call of (name, args, i) \<Rightarrow>
        (case H name args p w of (w', r) \<Rightarrow> (w', rbind r (\<lambda>v. Inr (name, v, i)))))"

definition dispatch_method ::
    "jmap_serde \<Rightarrow> (string \<Rightarrow> 'w handler) \<Rightarrow> method_call \<Rightarrow> string list \<Rightarrow> principal \<Rightarrow> 'w \<Rightarrow> 'w \<times> method_response result" where
  "dispatch_method S H call capabilities p w =
     (case call of (name, args, i) \<Rightarrow>
        if name \<in> set push_methods then run_handler H call p w
        else case validate_method_capability name capabilities of
          Inl e \<Rightarrow> (w, Inr (''error'', sd_error S e, i))
        | Inr _ \<Rightarrow>
            if name \<in> set account_methods then run_handler H call p w
            else (w, Inr (''error'', sd_error S (with_detail (''Unknown method: '' @ name) (JmapError_new UnknownMethod)), i)))"

section \<open>The API endpoint\<close>

datatype jmap_http = HttpOk jmap_response | HttpError nat jmap_error

definition get_supported_capabilities :: "string list" where
  "get_supported_capabilities =
     [''urn:ietf:params:jmap:core'', ''urn:ietf:params:jmap:mail'', ''urn:ietf:params:jmap:submission'',
      ''urn:ietf:params:jmap:vacationresponse'']"

definition bad_request :: "jmap_error_type \<Rightarrow> string \<Rightarrow> jmap_error" where
  "bad_request t d = with_detail d (with_status 400 (JmapError_new t))"

fun validate_calls :: "nat \<Rightarrow> method_call list \<Rightarrow> jmap_error option" where
  "validate_calls idx [] = None"
| "validate_calls idx ((name, args, i) # calls) =
     (if name = [] then Some (bad_request NotRequest (''Method call '' @ show_nat idx @ '' has empty method name''))
      else if i = [] then Some (bad_request NotRequest (''Method call '' @ show_nat idx @ '' has empty call ID''))
      else if \<not> is_object args then
        Some (bad_request InvalidArguments
                (''Method call '' @ show_nat idx @ '' ('' @ [CHR 0x27] @ name @ [CHR 0x27] @ '') has invalid arguments - must be an object''))
      else validate_calls (idx + 1) calls)"

definition max_calls_in_request :: nat where
  "max_calls_in_request = 16"

definition validate_request :: "jmap_request \<Rightarrow> jmap_error option" where
  "validate_request q =
     (if jq_using q = [] then
        Some (bad_request UnknownCapability (''The '' @ [CHR 0x27] @ ''using'' @ [CHR 0x27] @ '' property must contain at least one capability''))
      else case find (\<lambda>c. c \<notin> set get_supported_capabilities) (jq_using q) of
        Some c \<Rightarrow> Some (bad_request UnknownCapability (''Unsupported capability: '' @ c))
      | None \<Rightarrow>
          if jq_method_calls q = [] then
            Some (bad_request NotRequest (''The '' @ [CHR 0x27] @ ''methodCalls'' @ [CHR 0x27] @ '' property must contain at least one method call''))
          else if max_calls_in_request < length (jq_method_calls q) then
            Some (with_limit ''maxCallsInRequest''
                    (bad_request Limit (''Too many method calls. Maximum allowed: '' @ show_nat max_calls_in_request)))
          else validate_calls 0 (jq_method_calls q))"

text \<open>One method call: its response, and the calls later ones may refer to.\<close>

definition process_call ::
    "jmap_serde \<Rightarrow> (string \<Rightarrow> 'w handler) \<Rightarrow> string list \<Rightarrow> principal \<Rightarrow> 'w \<times> completed_calls \<Rightarrow> method_call \<Rightarrow>
       ('w \<times> completed_calls) \<times> method_response" where
  "process_call S H capabilities p st call =
     (case st of (w, completed) \<Rightarrow>
        (case call of (name, _, i) \<Rightarrow>
           (case resolve_back_refs_in_call S call completed of
              Inl e \<Rightarrow>
                ((w, completed),
                 (''error'', sd_error S (with_detail (back_ref_display S e) (JmapError_new InvalidArguments)), i))
            | Inr call' \<Rightarrow>
                (case dispatch_method S H call' capabilities p w of
                   (w', Inr response) \<Rightarrow> ((w', completed @ [(i, name, fst (snd response))]), response)
                 | (w', Inl e) \<Rightarrow>
                     let err = sd_error S (with_detail e (JmapError_new ServerFail))
                     in ((w', completed @ [(i, name, err)]), (''error'', err, i))))))"

definition api_endpoint ::
    "jmap_serde \<Rightarrow> (string \<Rightarrow> 'w handler) \<Rightarrow> principal \<Rightarrow> jmap_request \<Rightarrow> 'w \<Rightarrow> 'w \<times> jmap_http" where
  "api_endpoint S H p q w =
     (case validate_request q of
        Some e \<Rightarrow> (w, HttpError 400 e)
      | None \<Rightarrow>
          (case run (process_call S H (jq_using q) p) (w, []) (jq_method_calls q) of
             ((w', _), responses) \<Rightarrow>
               (w', HttpOk \<lparr>jr_method_responses = responses, jr_session_state = Some ''state1'',
                            jr_created_ids = jq_created_ids q\<rparr>)))"

section \<open>Authentication\<close>

datatype credentials = Basic string string | Bearer string

definition strip_scheme :: "string \<Rightarrow> string \<Rightarrow> string option" where
  "strip_scheme header scheme =
     (if length header \<le> length scheme then None
      else if \<not> eq_ignore_ascii_case (take (length scheme) header) scheme then None
      else let rest = trim_start (drop (length scheme) header) in if rest = [] then None else Some rest)"

text \<open>The value of the \<^verbatim>\<open>Authorization\<close> header, when it is there and visible ASCII.\<close>

definition extract_credentials :: "(string \<Rightarrow> string option) \<Rightarrow> string option \<Rightarrow> credentials option" where
  "extract_credentials b64_decode authorization =
     Option.bind authorization (\<lambda>value.
       let trimmed = trim value in
       case strip_scheme trimmed ''Basic'' of
         Some rest \<Rightarrow>
           Option.bind (b64_decode rest) (\<lambda>decoded.
             if \<not> utf8_valid decoded then None
             else case splitn2 (CHR '':'') decoded of
               [user, password] \<Rightarrow> if user = [] then None else Some (Basic user password)
             | _ \<Rightarrow> None)
       | None \<Rightarrow>
           (case strip_scheme trimmed ''Bearer'' of
              Some rest \<Rightarrow> let token = trim rest in if token = [] then None else Some (Bearer token)
            | None \<Rightarrow> None))"

datatype auth_error = Unauthorized | BackendError string

record http_auth =
  ha_authenticate :: "username \<Rightarrow> string \<Rightarrow> bool result"
  ha_verify_bearer_token :: "string \<Rightarrow> username result"
  ha_b64_decode :: "string \<Rightarrow> string option"

definition http_authenticate :: "http_auth \<Rightarrow> credentials \<Rightarrow> auth_error + principal" where
  "http_authenticate A creds =
     (case creds of
        Basic user password \<Rightarrow>
          rbind (map_err (\<lambda>_. Unauthorized) (Username_new user)) (\<lambda>u.
          rbind (map_err BackendError (ha_authenticate A u password)) (\<lambda>ok.
            if \<not> ok then Inl Unauthorized else Inr (Principal_from_username user)))
      | Bearer token \<Rightarrow>
          rbind (map_err (\<lambda>_. Unauthorized) (ha_verify_bearer_token A token)) (\<lambda>u.
            Inr (Principal_from_username (username_str u))))"

definition auth_error_body :: "auth_error \<Rightarrow> jmap_error" where
  "auth_error_body e =
     with_detail (case e of Unauthorized \<Rightarrow> ''Authentication required'' | BackendError _ \<Rightarrow> ''Authentication backend error'')
       (with_status 401 (JmapError_new ServerFail))"

text \<open>A POST to the API: the middleware, then the endpoint.  A body that is not a request is refused by the web
  framework after the middleware, here with the error it is given.\<close>

definition jmap_post ::
    "http_auth \<Rightarrow> jmap_serde \<Rightarrow> (string \<Rightarrow> 'w handler) \<Rightarrow> string option \<Rightarrow> (jmap_http + jmap_request) \<Rightarrow> 'w \<Rightarrow> 'w \<times> jmap_http" where
  "jmap_post A S H authorization body w =
     (case extract_credentials (ha_b64_decode A) authorization of
        None \<Rightarrow> (w, HttpError 401 (auth_error_body Unauthorized))
      | Some creds \<Rightarrow>
          (case http_authenticate A creds of
             Inl e \<Rightarrow> (w, HttpError 401 (auth_error_body e))
           | Inr p \<Rightarrow> (case body of Inl rejection \<Rightarrow> (w, rejection) | Inr q \<Rightarrow> api_endpoint S H p q w)))"

definition reject_unauthenticated :: jmap_error where
  "reject_unauthenticated =
     with_detail ''JMAP server constructed without an authentication backend; use JmapServer::routes_with_auth in production''
       (with_status 401 (JmapError_new ServerFail))"

section \<open>One response for each call\<close>

lemma run_handler_response:
  "run_handler H (name, args, i) p w = (w', Inr r) \<Longrightarrow> fst r = name \<and> snd (snd r) = i"
  by (auto simp: run_handler_def rbind_Inr_iff split: prod.splits)

lemma dispatch_response:
  "dispatch_method S H (name, args, i) capabilities p w = (w', Inr r) \<Longrightarrow>
     (fst r = name \<or> fst r = ''error'') \<and> snd (snd r) = i"
  by (auto simp: dispatch_method_def dest: run_handler_response split: if_splits sum.splits)

lemma resolve_call_parts:
  "resolve_back_refs_in_call S (name, args, i) completed = Inr call' \<Longrightarrow> \<exists>args'. call' = (name, args', i)"
  by (auto simp: resolve_back_refs_in_call_def rbind_Inr_iff split: json.splits)

lemma process_call_response:
  "process_call S H capabilities p st (name, args, i) = (st', r) \<Longrightarrow> (fst r = name \<or> fst r = ''error'') \<and> snd (snd r) = i"
  by (cases st) (auto simp: process_call_def Let_def dest!: resolve_call_parts dest: dispatch_response
      split: sum.splits prod.splits)

lemma process_calls_responses:
  "snd (run (process_call S H capabilities p) st calls) = rs \<Longrightarrow>
     list_all2 (\<lambda>call r. (fst r = fst call \<or> fst r = ''error'') \<and> snd (snd r) = snd (snd call)) calls rs"
proof (induction calls arbitrary: st rs)
  case (Cons c calls)
  obtain name args i where c: "c = (name, args, i)" by (cases c)
  obtain st' r where p: "process_call S H capabilities p st c = (st', r)" by (cases "process_call S H capabilities p st c")
  have "list_all2 (\<lambda>call r. (fst r = fst call \<or> fst r = ''error'') \<and> snd (snd r) = snd (snd call)) calls
      (snd (run (process_call S H capabilities p) st' calls))"
    by (rule Cons.IH) (rule refl)
  with Cons.prems p process_call_response [of S H capabilities p st name args i st' r] show ?case
    by (auto simp: c case_prod_beta)
qed simp

text \<open>C21: A request is either refused as a whole with a reason, and then nothing was run, or it has at most sixteen
  calls and answers each of them in its order, under its own call id, with the name of its method or as an
  error.\<close>

theorem jmap_batch_answered:
  "case api_endpoint S H p q w of
     (w', HttpError status e) \<Rightarrow> w' = w \<and> status = 400 \<and> validate_request q = Some e
   | (w', HttpOk r) \<Rightarrow>
       jq_method_calls q \<noteq> [] \<and> length (jq_method_calls q) \<le> 16 \<and>
       list_all2 (\<lambda>call r. (fst r = fst call \<or> fst r = ''error'') \<and> snd (snd r) = snd (snd call))
         (jq_method_calls q) (jr_method_responses r)"
proof (cases "validate_request q")
  case (Some e)
  then show ?thesis by (simp add: api_endpoint_def)
next
  case None
  then have "jq_method_calls q \<noteq> []" "length (jq_method_calls q) \<le> 16"
    by (auto simp: validate_request_def max_calls_in_request_def split: if_splits option.splits)
  moreover obtain w' c rs where "run (process_call S H (jq_using q) p) (w, []) (jq_method_calls q) = ((w', c), rs)"
    by (metis prod.exhaust)
  ultimately show ?thesis
    using None process_calls_responses [of S H "jq_using q" p "(w, [])" "jq_method_calls q" rs]
    by (simp add: api_endpoint_def)
qed

section \<open>Who acts\<close>

text \<open>The handlers are only ever called for one principal.\<close>

lemma dispatch_principal:
  "(\<And>name args w. H name args p w = H' name args p w) \<Longrightarrow>
     dispatch_method S H call capabilities p w = dispatch_method S H' call capabilities p w"
  by (cases call) (simp add: dispatch_method_def run_handler_def split: sum.split)

lemma api_principal:
  assumes "\<And>name args w. H name args p w = H' name args p w"
  shows "api_endpoint S H p q w = api_endpoint S H' p q w"
proof -
  have d: "dispatch_method S H call capabilities p v = dispatch_method S H' call capabilities p v" for call capabilities v
    by (rule dispatch_principal) (rule assms)
  have "process_call S H capabilities p = process_call S H' capabilities p" for capabilities
    unfolding process_call_def d by (rule refl)
  then show ?thesis by (simp add: api_endpoint_def split: option.split)
qed

definition presented :: "http_auth \<Rightarrow> credentials \<Rightarrow> string \<Rightarrow> bool" where
  "presented A creds user \<longleftrightarrow>
     (case creds of
        Basic u password \<Rightarrow> u = user \<and> (\<exists>n. Username_new u = Inr n \<and> ha_authenticate A n password = Inr True)
      | Bearer token \<Rightarrow> ha_verify_bearer_token A token = Inr (Username user))"

lemma http_authenticate_presented:
  "http_authenticate A creds = Inr p \<Longrightarrow> \<exists>user. presented A creds user \<and> p = Principal_from_username user"
  by (cases creds)
    (auto simp: http_authenticate_def presented_def rbind_Inr_iff map_err_Inr_iff split: if_splits intro: exI [of _ "username_str x" for x])

text \<open>C9: A POST without credentials that the backend accepts is answered 401 and changes nothing.  Otherwise there is
  a user whose password or token was accepted, and the methods see that user and no other: the outcome is the
  same for all handlers that agree on this principal, who has its own account and no scope.\<close>

theorem jmap_acts_for_authenticated_user:
  assumes "jmap_post A S H authorization body w = (w', out)"
  shows "(w' = w \<and> (\<exists>e. out = HttpError 401 (auth_error_body e))) \<or>
     (\<exists>creds user.
        extract_credentials (ha_b64_decode A) authorization = Some creds \<and> presented A creds user \<and>
        (\<forall>H'. (\<forall>name args v. H' name args (Principal_from_username user) v = H name args (Principal_from_username user) v) \<longrightarrow>
              jmap_post A S H' authorization body w = (w', out)))"
proof (cases "extract_credentials (ha_b64_decode A) authorization")
  case None
  with assms show ?thesis by (auto simp: jmap_post_def)
next
  case (Some creds)
  show ?thesis
  proof (cases "http_authenticate A creds")
    case (Inl e)
    with Some assms show ?thesis by (auto simp: jmap_post_def)
  next
    case (Inr p)
    then obtain user where u: "presented A creds user" "p = Principal_from_username user"
      using http_authenticate_presented by blast
    have "jmap_post A S H' authorization body w = (w', out)"
      if "\<And>name args v. H' name args (Principal_from_username user) v = H name args (Principal_from_username user) v" for H'
      using assms Some Inr u(2) api_principal [of H' p H S _ w] that by (simp add: jmap_post_def split: sum.splits)
    with Some u show ?thesis by blast
  qed
qed

section \<open>Handlers that keep to the accounts of their caller\<close>

text \<open>What a handler promises: \<open>part w a\<close> is what the state holds for an account, and only the owner's calls change
  it.  A handler is a method between the decoding of its arguments and the encoding of its result.\<close>

definition decoded :: "(json \<Rightarrow> 'q result) \<Rightarrow> ('r \<Rightarrow> json) \<Rightarrow> ('q \<Rightarrow> principal \<Rightarrow> 'w \<Rightarrow> 'w \<times> 'r result) \<Rightarrow> 'w handler" where
  "decoded dec enc m args p w =
     (case dec args of
        Inl e \<Rightarrow> (w, Inl e)
      | Inr q \<Rightarrow> (case m q p w of (w', r) \<Rightarrow> (w', rbind r (\<lambda>x. Inr (enc x)))))"

locale account_scoped =
  fixes h :: "'w handler" and part :: "'w \<Rightarrow> string \<Rightarrow> 'v"
  assumes keeps: "\<not> owns_account p a \<Longrightarrow> part (fst (h args p w)) a = part w a"

locale account_method =
  fixes dec :: "json \<Rightarrow> 'q result" and enc :: "'r \<Rightarrow> json"
    and m :: "'q \<Rightarrow> principal \<Rightarrow> 'w \<Rightarrow> 'w \<times> 'r result" and part :: "'w \<Rightarrow> string \<Rightarrow> 'v"
  assumes method_keeps: "\<not> owns_account p a \<Longrightarrow> part (fst (m q p w)) a = part w a"

sublocale account_method \<subseteq> handler: account_scoped "decoded dec enc m" part
  by unfold_locales (simp add: decoded_def method_keeps split: sum.split prod.split; metis fst_conv method_keeps)

locale account_api =
  fixes H :: "string \<Rightarrow> 'w handler" and part :: "'w \<Rightarrow> string \<Rightarrow> 'v"
  assumes scoped: "account_scoped (H name) part"
begin

lemma dispatch_keeps: "\<not> owns_account p a \<Longrightarrow> part (fst (dispatch_method S H call capabilities p w)) a = part w a"
proof -
  assume "\<not> owns_account p a"
  then have h: "part (fst (H name args p w)) a = part w a" for name args
    by (rule account_scoped.keeps [OF scoped])
  have "part (fst (run_handler H call p w)) a = part w a"
    using h by (auto simp: run_handler_def case_prod_beta split: prod.split)
  then show ?thesis by (cases call) (auto simp: dispatch_method_def split: sum.split)
qed

lemma process_keeps: "\<not> owns_account p a \<Longrightarrow> part (fst (fst (process_call S H capabilities p st call))) a = part (fst st) a"
proof -
  assume na: "\<not> owns_account p a"
  obtain w completed where st: "st = (w, completed)" by (cases st)
  have "part w' a = part w a" if "dispatch_method S H call' capabilities p w = (w', r)" for call' w' r
    using dispatch_keeps [OF na, of S call' capabilities w] that by simp
  then show ?thesis by (cases call) (auto simp: st process_call_def Let_def split: sum.split prod.split)
qed

lemma api_keeps:
  assumes "\<not> owns_account p a"
  shows "part (fst (api_endpoint S H p q w)) a = part w a"
proof -
  have "part (fst (fst (run (process_call S H capabilities p) st calls))) a = part (fst st) a" for capabilities st calls
    by (induction calls arbitrary: st) (simp_all add: case_prod_beta process_keeps [OF assms])
  from this [of "jq_using q" "(w, [])" "jq_method_calls q"] show ?thesis
    by (simp add: api_endpoint_def case_prod_beta split: option.split)
qed

lemma post_keeps:
  assumes "\<And>creds user. extract_credentials (ha_b64_decode A) authorization = Some creds \<Longrightarrow> presented A creds user \<Longrightarrow>
      a \<noteq> derive_account_id user"
  shows "part (fst (jmap_post A S H authorization body w)) a = part w a"
proof -
  have "\<not> owns_account p a"
    if creds: "extract_credentials (ha_b64_decode A) authorization = Some creds" "http_authenticate A creds = Inr p" for creds p
  proof -
    obtain user where u: "presented A creds user" "p = Principal_from_username user"
      using http_authenticate_presented [OF creds(2)] by blast
    from assms [OF creds(1) u(1)] u(2) show ?thesis by (auto simp: owns_account_def Principal_from_username_def)
  qed
  then show ?thesis by (auto simp: jmap_post_def api_keeps split: option.split sum.split)
qed

end

section \<open>Accounts\<close>

text \<open>The account id of a user is not the user's alone: a name with an at sign and the same name with a hyphen in its
  place are different users of one account, and each owns the account of the other.\<close>

theorem jmap_accounts_collide:
  assumes "CHR ''@'' \<in> set user" "Username_new user = Inr u"
  shows "\<exists>other v. other \<noteq> user \<and> Username_new other = Inr v \<and>
     owns_account (Principal_from_username other) (pr_account_id (Principal_from_username user)) \<and>
     owns_account (Principal_from_username user) (pr_account_id (Principal_from_username other))"
proof (intro exI conjI)
  let ?other = "map (\<lambda>c. if c = CHR ''@'' then CHR ''-'' else c) user"
  have "CHR ''@'' \<notin> set ?other" by auto
  with assms(1) show "?other \<noteq> user" by metis
  show "Username_new ?other = Inr (Username ?other)"
    using assms(2) by (auto simp: Username_new_def split: if_splits)
  have "derive_account_id ?other = derive_account_id user" by (simp add: derive_account_id_def comp_def)
  then show "owns_account (Principal_from_username ?other) (pr_account_id (Principal_from_username user))"
    "owns_account (Principal_from_username user) (pr_account_id (Principal_from_username ?other))"
    by (simp_all add: owns_account_def Principal_from_username_def)
qed

theorem jmap_accounts_collide_witness:
  "\<exists>other v. other \<noteq> ''a@b'' \<and> Username_new other = Inr v \<and>
     owns_account (Principal_from_username other) (pr_account_id (Principal_from_username ''a@b'')) \<and>
     owns_account (Principal_from_username ''a@b'') (pr_account_id (Principal_from_username other))"
  by (rule jmap_accounts_collide [of _ "Username ''a@b''"]) (simp_all add: Username_new_def)

section \<open>What a reference becomes\<close>

lemma obj_insert_lookup: "map_of (obj_insert k v kvs) x = (if x = k then Some v else map_of kvs x)"
  by (induction kvs) auto

lemma obj_remove_lookup: "map_of (obj_remove k kvs) x = (if x = k then None else map_of kvs x)"
  by (induction kvs) (auto simp: obj_remove_def)

definition reference_at :: "jmap_serde \<Rightarrow> (string \<times> json) list \<Rightarrow> string \<Rightarrow> result_reference option" where
  "reference_at S args k = Option.bind (map_of args k) (sd_reference S)"

text \<open>What the resolution makes of a key: the value of the reference under the key with a hash sign, nothing for a
  key that held a reference, and its own value otherwise.\<close>

definition resolved :: "jmap_serde \<Rightarrow> completed_calls \<Rightarrow> (string \<times> json) list \<Rightarrow> string list \<Rightarrow> string \<Rightarrow> json option" where
  "resolved S completed args ks x =
     (case (if CHR ''#'' # x \<in> set ks then reference_at S args (CHR ''#'' # x) else None) of
        Some r \<Rightarrow> (case resolve_reference S completed r of Inr v \<Rightarrow> Some v | Inl _ \<Rightarrow> None)
      | None \<Rightarrow> if x \<in> set ks \<and> reference_at S args x \<noteq> None then None else map_of args x)"

lemma resolve_keys_exact:
  assumes "resolve_keys S completed ks args = Inr args'" "distinct ks"
    and "\<And>k. k \<in> set ks \<Longrightarrow> starts_with k ''#'' \<and> \<not> starts_with k ''##''"
  shows "map_of args' x = resolved S completed args ks x"
  using assms
proof (induction ks arbitrary: args)
  case Nil
  then show ?case by (simp add: resolved_def)
next
  case (Cons k ks)
  obtain y where k: "k = CHR ''#'' # y" "\<not> starts_with y ''#''"
    using Cons.prems(3) [of k] by (cases k) (auto simp: starts_with_def)
  have plain: "CHR ''#'' # CHR ''#'' # z \<notin> set (k # ks)" "\<not> starts_with y ''#'' \<Longrightarrow> y \<notin> set (k # ks)" for z
    using Cons.prems(3) by (force simp: starts_with_def)+
  have IH: "map_of args' x = resolved S completed args2 ks x" if "resolve_keys S completed ks args2 = Inr args'" for args2
    using Cons.IH [OF that] Cons.prems by simp
  show ?case
  proof (cases "reference_at S args k")
    case None
    then have "resolve_keys S completed ks args = Inr args'"
      using Cons.prems(1) by (auto simp: reference_at_def split: option.splits)
    from IH [OF this] None show ?thesis by (auto simp: resolved_def k split: option.split)
  next
    case (Some r)
    then obtain v where v: "resolve_reference S completed r = Inr v"
        "resolve_keys S completed ks (obj_insert y v (obj_remove k args)) = Inr args'"
      using Cons.prems(1) by (auto simp: reference_at_def k bind_eq_Some_conv split: option.splits sum.splits)
    have same: "reference_at S (obj_insert y v (obj_remove k args)) z = reference_at S args z" if "z \<in> set ks" for z
      using that plain(2) k Cons.prems(2) by (auto simp: reference_at_def obj_insert_lookup obj_remove_lookup)
    show ?thesis
      using IH [OF v(2)] Some v(1) same Cons.prems(2) plain k
      by (auto simp: resolved_def obj_insert_lookup obj_remove_lookup split: option.split)
  qed
qed

lemma resolve_keys_refs:
  assumes "resolve_keys S completed ks args = Inr args'" "distinct ks"
    and "\<And>k. k \<in> set ks \<Longrightarrow> starts_with k ''#'' \<and> \<not> starts_with k ''##''"
    and "k \<in> set ks" "reference_at S args k = Some r"
  shows "\<exists>v. resolve_reference S completed r = Inr v"
  using assms
proof (induction ks arbitrary: args)
  case (Cons h ks)
  have rest: "resolve_keys S completed ks args2 = Inr args' \<Longrightarrow> reference_at S args2 k = Some r \<Longrightarrow> k \<in> set ks \<Longrightarrow> ?case" for args2
    using Cons.IH [of args2] Cons.prems by simp
  show ?case
  proof (cases "reference_at S args h")
    case None
    with Cons.prems show ?thesis
      by (auto simp: reference_at_def split: option.splits intro: rest)
  next
    case (Some q)
    then obtain v where v: "resolve_reference S completed q = Inr v"
        "resolve_keys S completed ks (obj_insert (drop 1 h) v (obj_remove h args)) = Inr args'"
      using Cons.prems(1) by (auto simp: reference_at_def bind_eq_Some_conv split: option.splits sum.splits)
    show ?thesis
    proof (cases "k = h")
      case True
      with Some v Cons.prems(5) show ?thesis by auto
    next
      case False
      have "drop 1 h \<noteq> k"
        using Cons.prems(3) [of h] Cons.prems(3) [of k] Cons.prems(4) by (cases h) (auto simp: starts_with_def)
      with False Cons.prems(4,5) have "reference_at S (obj_insert (drop 1 h) v (obj_remove h args)) k = Some r"
        by (auto simp: reference_at_def obj_insert_lookup obj_remove_lookup)
      with rest [OF v(2)] False Cons.prems(4) show ?thesis by simp
    qed
  qed
qed simp


section \<open>Wildcards\<close>

text \<open>JSON pointers as the crate documents them (RFC 6901).\<close>

fun pointer_unescape :: "string \<Rightarrow> string" where
  "pointer_unescape [] = []"
| "pointer_unescape [c] = [c]"
| "pointer_unescape (c # d # cs) =
     (if c = CHR ''~'' \<and> d = CHR ''1'' then CHR ''/'' # pointer_unescape cs
      else if c = CHR ''~'' \<and> d = CHR ''0'' then CHR ''~'' # pointer_unescape cs
      else c # pointer_unescape (d # cs))"

definition pointer_index :: "string \<Rightarrow> nat option" where
  "pointer_index t =
     (if t \<noteq> [] \<and> list_all is_ascii_digit t \<and> (t = ''0'' \<or> hd t \<noteq> CHR ''0'') then parse_uint usize_max t else None)"

fun pointer_walk :: "json \<Rightarrow> string list \<Rightarrow> json option" where
  "pointer_walk v [] = Some v"
| "pointer_walk (JObject kvs) (t # ts) = (case map_of kvs t of Some v \<Rightarrow> pointer_walk v ts | None \<Rightarrow> None)"
| "pointer_walk (JArray vs) (t # ts) =
     (case pointer_index t of Some i \<Rightarrow> (if i < length vs then pointer_walk (vs ! i) ts else None) | None \<Rightarrow> None)"
| "pointer_walk _ (t # ts) = None"

definition json_pointer :: "json \<Rightarrow> string \<Rightarrow> json option" where
  "json_pointer v p =
     (if p = [] then Some v
      else if \<not> starts_with p ''/'' then None
      else pointer_walk v (map pointer_unescape (tl (split_on (CHR ''/'') p))))"

lemma pointer_walk_append: "pointer_walk v (as @ bs) = Option.bind (pointer_walk v as) (\<lambda>u. pointer_walk u bs)"
  by (induction v as rule: pointer_walk.induct) (auto split: option.split)

lemma wildcard_not_found:
  assumes "json_pointer body pre = Some (JArray vs)" "suf = [] \<or> starts_with suf ''/''"
  shows "json_pointer body (pre @ ''/*'' @ suf) = None"
proof -
  have pre: "pre = [] \<or> starts_with pre ''/''" "pointer_walk body (map pointer_unescape (tl (split_on (CHR ''/'') pre))) = Some (JArray vs)"
    using assms(1) by (auto simp: json_pointer_def split: if_splits)
  have "hd (split_on (CHR ''/'') (CHR ''*'' # suf)) = ''*''"
    using assms(2) by (cases suf) (auto split: list.splits)
  then obtain ts where ts: "split_on (CHR ''/'') (CHR ''*'' # suf) = ''*'' # ts"
    by (metis list.collapse split_on_nonempty)
  have "tl (split_on (CHR ''/'') (pre @ ''/*'' @ suf)) = tl (split_on (CHR ''/'') pre) @ ''*'' # ts"
    using split_on_concat [of "CHR ''/''" pre "CHR ''*'' # suf"] ts by simp
  moreover have "starts_with (pre @ ''/*'' @ suf) ''/''"
    using pre(1) by (cases pre) auto
  moreover have "pointer_index ''*'' = None" by (simp add: pointer_index_def is_ascii_digit_def)
  ultimately show ?thesis
    using pre(2) by (simp add: json_pointer_def pointer_walk_append)
qed

text \<open>RFC 8620 lets the path of a reference map over an array with a star, as in the common \<^verbatim>\<open>/list/*/id\<close>.  The pointer
  of the JSON crate has no such token: every call with such a reference is answered with invalidArguments and its
  method is not run.\<close>

theorem wildcard_reference_refused:
  assumes "sd_pointer S = json_pointer" "sd_reference S raw = Some r"
    and "find (\<lambda>(i, n, _). i = ref_result_of r \<and> n = ref_name r) completed = Some (i', n', body)" "\<not> is_error_response body"
    and "ref_path r = pre @ ''/*'' @ suf" "json_pointer body pre = Some (JArray vs)" "suf = [] \<or> starts_with suf ''/''"
  shows "process_call S H capabilities p (w, completed) (name, JObject [(CHR ''#'' # k, raw)], i) =
     ((w, completed),
      (''error'', sd_error S (with_detail (back_ref_display S (PathNotFound (ref_path r) (ref_result_of r)))
                                (JmapError_new InvalidArguments)), i))"
proof -
  have "resolve_reference S completed r = Inl (PathNotFound (ref_path r) (ref_result_of r))"
    using assms(3,4) wildcard_not_found [OF assms(6,7)] by (simp add: resolve_reference_def assms(1,5))
  then have "resolve_back_references S [(CHR ''#'' # k, raw)] completed = Inl (PathNotFound (ref_path r) (ref_result_of r))"
    by (simp add: resolve_back_references_def assms(2))
  then show ?thesis by (simp add: process_call_def resolve_back_refs_in_call_def)
qed

section \<open>An instance\<close>

definition demo_serde :: jmap_serde where
  "demo_serde =
     \<lparr>sd_pointer = json_pointer,
      sd_reference = (\<lambda>v. case (json_get v ''resultOf'', json_get v ''name'', json_get v ''path'') of
          (Some (JString a), Some (JString b), Some (JString c)) \<Rightarrow> Some \<lparr>ref_result_of = a, ref_name = b, ref_path = c\<rparr>
        | _ \<Rightarrow> None),
      sd_error = (\<lambda>e. JObject [(''type'', JString (je_type e))]),
      sd_debug = (\<lambda>s. [CHR 0x22] @ s @ [CHR 0x22])\<rparr>"

definition demo_ref :: "string \<Rightarrow> json" where
  "demo_ref path = JObject [(''name'', JString ''Email/query''), (''path'', JString path), (''resultOf'', JString ''c0'')]"

definition demo_completed :: completed_calls where
  "demo_completed = [(''c0'', ''Email/query'', JObject [(''ids'', JArray [JString ''m1'', JString ''m2''])])]"

definition demo_http_auth :: http_auth where
  "demo_http_auth =
     \<lparr>ha_authenticate = (\<lambda>u password. Inr (username_str u = ''alice'' \<and> password = ''pw'')),
      ha_verify_bearer_token = (\<lambda>t. Inl ''Bearer token authentication is not supported by this AuthBackend''),
      ha_b64_decode = (\<lambda>s. if s = ''YWxpY2U6cHc='' then Some ''alice:pw'' else None)\<rparr>"

definition demo_handler :: "string \<Rightarrow> nat handler" where
  "demo_handler name args p w = (w + 1, Inr (JString (pr_username p)))"

definition demo_request :: jmap_request where
  "demo_request =
     \<lparr>jq_using = [''urn:ietf:params:jmap:core'', ''urn:ietf:params:jmap:mail''],
      jq_method_calls = [(''Email/query'', JObject [], ''c0'')], jq_created_ids = None\<rparr>"

definition demo_post :: "nat \<times> jmap_http" where
  "demo_post = jmap_post demo_http_auth demo_serde demo_handler (Some ''Basic YWxpY2U6cHc='') (Inr demo_request) 0"

lemma demo_jmap_facts:
  "fst demo_post = 1 \<and> resolve_back_references demo_serde [(''#ids'', demo_ref ''/ids'')] demo_completed =
     Inr [(''ids'', JArray [JString ''m1'', JString ''m2''])]"
  by code_simp

theorem jmap_acts_for_authenticated_user_witness:
  "\<exists>creds user.
     extract_credentials (ha_b64_decode demo_http_auth) (Some ''Basic YWxpY2U6cHc='') = Some creds \<and> presented demo_http_auth creds user \<and>
     (\<forall>H'. (\<forall>name args v. H' name args (Principal_from_username user) v = demo_handler name args (Principal_from_username user) v) \<longrightarrow>
        jmap_post demo_http_auth demo_serde H' (Some ''Basic YWxpY2U6cHc='') (Inr demo_request) 0 = demo_post)"
proof -
  have "jmap_post demo_http_auth demo_serde demo_handler (Some ''Basic YWxpY2U6cHc='') (Inr demo_request) 0 = (fst demo_post, snd demo_post)"
    unfolding demo_post_def by simp
  note acts = jmap_acts_for_authenticated_user [OF this]
  have "fst demo_post \<noteq> 0" using demo_jmap_facts by simp
  with acts show ?thesis unfolding prod.collapse by blast
qed


theorem wildcard_reference_refused_witness:
  "fst (process_call demo_serde demo_handler [] (Principal_from_username ''alice'') (0, demo_completed)
     (''Email/get'', JObject [(''#ids'', demo_ref ''/ids/*'')], ''c1'')) = (0, demo_completed)"
proof -
  have "process_call demo_serde demo_handler [] (Principal_from_username ''alice'') (0, demo_completed)
      (''Email/get'', JObject [(CHR ''#'' # ''ids'', demo_ref ''/ids/*'')], ''c1'') =
    ((0, demo_completed),
      (''error'', sd_error demo_serde (with_detail (back_ref_display demo_serde (PathNotFound ''/ids/*'' ''c0''))
                                (JmapError_new InvalidArguments)), ''c1''))"
    using wildcard_reference_refused [of demo_serde "demo_ref ''/ids/*''"
        "\<lparr>ref_result_of = ''c0'', ref_name = ''Email/query'', ref_path = ''/ids/*''\<rparr>" demo_completed "''c0''" "''Email/query''"
        "JObject [(''ids'', JArray [JString ''m1'', JString ''m2''])]" "''/ids''" "[]" "[JString ''m1'', JString ''m2'']"]
    by (simp add: demo_serde_def demo_ref_def demo_completed_def is_error_response_def json_pointer_def starts_with_def)
  then show ?thesis by simp
qed

end
