(* ===== verification/Jmap_Identity.thy ===== *)
theory Jmap_Identity
  imports Jmap_Api
begin

text \<open>
  Model of \<^verbatim>\<open>crates/rusmes-jmap/src/methods/identity.rs\<close>: the file store of sender identities and the methods
  Identity/get, Identity/set and Identity/changes.  The files are a table from account ids to the state they
  hold, \<^term>\<open>None\<close> for a file that cannot be parsed; every access to a file has a number, and the environment says
  which accesses fail.  The requests are given as \<^verbatim>\<open>serde\<close> has read them, maps in the order they are iterated.
\<close>

section \<open>Files by account\<close>

text \<open>A write that fails may leave the file damaged.\<close>

record file_env =
  fe_read_error :: "nat \<Rightarrow> string option"
  fe_write_error :: "nat \<Rightarrow> (string \<times> bool) option"
  fe_parse_error :: string

record 'a account_files =
  af_files :: "(string \<times> 'a option) list"
  af_clock :: nat

definition tick :: "'a account_files \<Rightarrow> 'a account_files" where
  "tick s = s\<lparr>af_clock := af_clock s + 1\<rparr>"

definition read_file :: "file_env \<Rightarrow> string \<Rightarrow> 'a account_files \<Rightarrow> 'a account_files \<times> 'a option result" where
  "read_file E key s =
     (tick s,
      case map_of (af_files s) key of
        None \<Rightarrow> Inr None
      | Some contents \<Rightarrow>
          (case fe_read_error E (af_clock s) of
             Some e \<Rightarrow> Inl e
           | None \<Rightarrow> (case contents of None \<Rightarrow> Inl (fe_parse_error E) | Some x \<Rightarrow> Inr (Some x))))"

definition write_file :: "file_env \<Rightarrow> string \<Rightarrow> 'a \<Rightarrow> 'a account_files \<Rightarrow> 'a account_files \<times> unit result" where
  "write_file E key x s =
     (case fe_write_error E (af_clock s) of
        None \<Rightarrow> ((tick s)\<lparr>af_files := AList.update key (Some x) (af_files s)\<rparr>, Inr ())
      | Some (e, damaged) \<Rightarrow>
          (if damaged then (tick s)\<lparr>af_files := AList.update key None (af_files s)\<rparr> else tick s, Inl e))"

section \<open>Identities\<close>

record email_address =
  ea_name :: "string option"
  ea_email :: string

record identity =
  id_id :: string
  id_name :: string
  id_email :: string
  id_reply_to :: "email_address list option"
  id_bcc :: "email_address list option"
  id_text_signature :: "string option"
  id_html_signature :: "string option"
  id_may_delete :: bool

record identity_account_state =
  ia_identities :: "(string \<times> identity) list"
  ia_state_version :: nat

type_synonym identity_files = "identity_account_state account_files"

definition new_with_default :: "string \<Rightarrow> string \<Rightarrow> identity_account_state" where
  "new_with_default account user =
     \<lparr>ia_identities =
        [(''default'',
          \<lparr>id_id = ''default'', id_name = ''Default User'',
           id_email = (if CHR ''@'' \<in> set user then user else account @ ''@localhost''),
           id_reply_to = None, id_bcc = None, id_text_signature = None, id_html_signature = None, id_may_delete = False\<rparr>)],
      ia_state_version = 1\<rparr>"

record identity_env = file_env +
  ie_uuid :: "nat \<Rightarrow> string"
  ie_to_value :: "identity \<Rightarrow> json"
  ie_from_value :: "json \<Rightarrow> identity result"

abbreviation ie_files :: "identity_env \<Rightarrow> file_env" where
  "ie_files E \<equiv> file_env.truncate E"

definition identity_load :: "identity_env \<Rightarrow> string \<Rightarrow> string \<Rightarrow> identity_files \<Rightarrow> identity_files \<times> identity_account_state result" where
  "identity_load E account user s =
     (case read_file (ie_files E) account s of
        (s', r) \<Rightarrow> (s', rbind r (\<lambda>x. Inr (case x of None \<Rightarrow> new_with_default account user | Some st \<Rightarrow> st))))"

definition identity_save :: "identity_env \<Rightarrow> string \<Rightarrow> identity_account_state \<Rightarrow> identity_files \<Rightarrow> identity_files \<times> unit result" where
  "identity_save E account st s = write_file (ie_files E) account st s"

definition list_identities :: "identity_env \<Rightarrow> string \<Rightarrow> string \<Rightarrow> identity_files \<Rightarrow> identity_files \<times> identity list result" where
  "list_identities E account user s =
     (case identity_load E account user s of (s', r) \<Rightarrow> (s', rbind r (\<lambda>st. Inr (map snd (ia_identities st)))))"

definition get_identity :: "identity_env \<Rightarrow> string \<Rightarrow> string \<Rightarrow> string \<Rightarrow> identity_files \<Rightarrow> identity_files \<times> identity option result" where
  "get_identity E account user i s =
     (case identity_load E account user s of (s', r) \<Rightarrow> (s', rbind r (\<lambda>st. Inr (map_of (ia_identities st) i))))"

definition identity_store_change ::
    "identity_env \<Rightarrow> string \<Rightarrow> string \<Rightarrow> (identity_account_state \<Rightarrow> (identity_account_state \<times> 'r) result) \<Rightarrow> identity_files \<Rightarrow>
       identity_files \<times> 'r result" where
  "identity_store_change E account user f s =
     (case identity_load E account user s of
        (s1, Inl e) \<Rightarrow> (s1, Inl e)
      | (s1, Inr st) \<Rightarrow>
          (case f st of
             Inl e \<Rightarrow> (s1, Inl e)
           | Inr (st', r) \<Rightarrow>
               (case identity_save E account (st'\<lparr>ia_state_version := (ia_state_version st + 1) mod 2 ^ 64\<rparr>) s1 of
                  (s2, Inl e) \<Rightarrow> (s2, Inl e)
                | (s2, Inr _) \<Rightarrow> (s2, Inr r))))"

definition create_identity :: "identity_env \<Rightarrow> string \<Rightarrow> string \<Rightarrow> identity \<Rightarrow> identity_files \<Rightarrow> identity_files \<times> identity result" where
  "create_identity E account user ident s =
     identity_store_change E account user
       (\<lambda>st. Inr (st\<lparr>ia_identities := AList.update (id_id ident) ident (ia_identities st)\<rparr>, ident)) s"

definition trim_slashes :: "string \<Rightarrow> string" where
  "trim_slashes k = dropWhile (\<lambda>c. c = CHR ''/'') k"

definition patch_object :: "json \<Rightarrow> json \<Rightarrow> json" where
  "patch_object current patch =
     (case (current, patch) of
        (JObject obj, JObject changes) \<Rightarrow> JObject (foldl (\<lambda>acc (k, v). obj_insert (trim_slashes k) v acc) obj changes)
      | _ \<Rightarrow> current)"

definition identity_not_found :: "string \<Rightarrow> string" where
  "identity_not_found i = ''Identity '' @ [CHR 0x27] @ i @ [CHR 0x27] @ '' not found''"

definition update_identity :: "identity_env \<Rightarrow> string \<Rightarrow> string \<Rightarrow> string \<Rightarrow> json \<Rightarrow> identity_files \<Rightarrow> identity_files \<times> identity result" where
  "update_identity E account user i patch s =
     identity_store_change E account user
       (\<lambda>st. rbind (ok_or (identity_not_found i) (map_of (ia_identities st) i)) (\<lambda>existing.
             rbind (ie_from_value E (patch_object (ie_to_value E existing) patch)) (\<lambda>upd.
               let upd1 = upd\<lparr>id_id := id_id existing\<rparr>;
                   upd2 = (if i = ''default'' then upd1\<lparr>id_may_delete := False\<rparr> else upd1)
               in Inr (st\<lparr>ia_identities := AList.update i upd2 (ia_identities st)\<rparr>, upd2)))) s"

definition delete_identity :: "identity_env \<Rightarrow> string \<Rightarrow> string \<Rightarrow> string \<Rightarrow> identity_files \<Rightarrow> identity_files \<times> unit result" where
  "delete_identity E account user i s =
     identity_store_change E account user
       (\<lambda>st. case map_of (ia_identities st) i of
          None \<Rightarrow> Inl (identity_not_found i)
        | Some _ \<Rightarrow> Inr (st\<lparr>ia_identities := AList.delete i (ia_identities st)\<rparr>, ())) s"

definition identity_state_token :: "identity_env \<Rightarrow> string \<Rightarrow> string \<Rightarrow> identity_files \<Rightarrow> identity_files \<times> string result" where
  "identity_state_token E account user s =
     (case identity_load E account user s of (s', r) \<Rightarrow> (s', rbind r (\<lambda>st. Inr (show_nat (ia_state_version st)))))"

section \<open>Methods\<close>

definition is_valid_email :: "string \<Rightarrow> bool" where
  "is_valid_email email \<longleftrightarrow>
     count_list email (CHR ''@'') = 1 \<and>
     (case splitn2 (CHR ''@'') email of [local, dom'] \<Rightarrow> local \<noteq> [] \<and> dom' \<noteq> [] | _ \<Rightarrow> False)"

record identity_get_request =
  ig_account_id :: string
  ig_ids :: "string list option"

record identity_get_response =
  igr_account_id :: string
  igr_state :: string
  igr_list :: "identity list"
  igr_not_found :: "string list"

fun get_identities ::
    "identity_env \<Rightarrow> string \<Rightarrow> string \<Rightarrow> string list \<Rightarrow> identity_files \<Rightarrow> identity_files \<times> (identity list \<times> string list) result" where
  "get_identities E account user [] s = (s, Inr ([], []))"
| "get_identities E account user (i # is) s =
     (case get_identity E account user i s of
        (s1, Inl e) \<Rightarrow> (s1, Inl e)
      | (s1, Inr found) \<Rightarrow>
          (case get_identities E account user is s1 of
             (s2, Inl e) \<Rightarrow> (s2, Inl e)
           | (s2, Inr (xs, nf)) \<Rightarrow> (s2, Inr (case found of Some x \<Rightarrow> (x # xs, nf) | None \<Rightarrow> (xs, i # nf)))))"

definition identity_get ::
    "identity_env \<Rightarrow> identity_get_request \<Rightarrow> principal \<Rightarrow> identity_files \<Rightarrow> identity_files \<times> identity_get_response result" where
  "identity_get E q p s =
     (case ensure_account_ownership (ig_account_id q) p of
        Inl e \<Rightarrow> (s, Inl e)
      | Inr _ \<Rightarrow>
          (case identity_state_token E (ig_account_id q) (pr_username p) s of
             (s1, Inl e) \<Rightarrow> (s1, Inl e)
           | (s1, Inr state) \<Rightarrow>
               (case (case ig_ids q of
                        None \<Rightarrow>
                          (case list_identities E (ig_account_id q) (pr_username p) s1 of (s2, r) \<Rightarrow> (s2, rbind r (\<lambda>xs. Inr (xs, []))))
                      | Some is \<Rightarrow> get_identities E (ig_account_id q) (pr_username p) is s1) of
                  (s2, r) \<Rightarrow>
                    (s2, rbind r (\<lambda>(xs, nf).
                       Inr \<lparr>igr_account_id = ig_account_id q, igr_state = state, igr_list = xs, igr_not_found = nf\<rparr>)))))"

record identity_object =
  io_name :: string
  io_email :: string
  io_reply_to :: "email_address list option"
  io_bcc :: "email_address list option"
  io_text_signature :: "string option"
  io_html_signature :: "string option"

record set_error =
  ste_type :: string
  ste_description :: "string option"

record identity_set_request =
  is_account_id :: string
  is_if_in_state :: "string option"
  is_create :: "(string \<times> identity_object) list"
  is_update :: "(string \<times> json) list"
  is_destroy :: "string list"

text \<open>The response; an empty list stands for an absent member.\<close>

record identity_set_response =
  isr_account_id :: string
  isr_old_state :: string
  isr_new_state :: string
  isr_created :: "(string \<times> identity) list"
  isr_updated :: "(string \<times> identity) list"
  isr_destroyed :: "string list"
  isr_not_created :: "(string \<times> set_error) list"
  isr_not_updated :: "(string \<times> set_error) list"
  isr_not_destroyed :: "(string \<times> set_error) list"

definition new_identity :: "string \<Rightarrow> identity_object \<Rightarrow> identity" where
  "new_identity new_id ob =
     \<lparr>id_id = new_id, id_name = io_name ob, id_email = io_email ob, id_reply_to = io_reply_to ob, id_bcc = io_bcc ob,
      id_text_signature = io_text_signature ob, id_html_signature = io_html_signature ob, id_may_delete = True\<rparr>"

text \<open>The three loops, each one step over the files and the response so far.  A new id is drawn with the number of the
  file access that follows.\<close>

definition create_step ::
    "identity_env \<Rightarrow> string \<Rightarrow> string \<Rightarrow> identity_files \<times> identity_set_response \<Rightarrow> string \<times> identity_object \<Rightarrow> identity_files \<times> identity_set_response" where
  "create_step E account user st c =
     (case (st, c) of ((s, r), (creation_id, ob)) \<Rightarrow>
        if \<not> is_valid_email (io_email ob) then
          (s, r\<lparr>isr_not_created := AList.update creation_id
                  \<lparr>ste_type = ''invalidProperties'',
                   ste_description = Some (''Invalid email address: '' @ [CHR 0x27] @ io_email ob @ [CHR 0x27])\<rparr> (isr_not_created r)\<rparr>)
        else case create_identity E account user (new_identity (ie_uuid E (af_clock s)) ob) s of
          (s', Inr stored) \<Rightarrow> (s', r\<lparr>isr_created := AList.update creation_id stored (isr_created r)\<rparr>)
        | (s', Inl e) \<Rightarrow>
            (s', r\<lparr>isr_not_created := AList.update creation_id
                     \<lparr>ste_type = ''serverFail'', ste_description = Some (''Failed to create identity: '' @ e)\<rparr> (isr_not_created r)\<rparr>))"

definition failure_error :: "string \<Rightarrow> set_error" where
  "failure_error e = \<lparr>ste_type = (if str_contains e ''not found'' then ''notFound'' else ''serverFail''), ste_description = Some e\<rparr>"

definition update_step ::
    "identity_env \<Rightarrow> string \<Rightarrow> string \<Rightarrow> identity_files \<times> identity_set_response \<Rightarrow> string \<times> json \<Rightarrow> identity_files \<times> identity_set_response" where
  "update_step E account user st c =
     (case (st, c) of ((s, r), (i, patch)) \<Rightarrow>
        (case update_identity E account user i patch s of
           (s', Inr stored) \<Rightarrow> (s', r\<lparr>isr_updated := AList.update i stored (isr_updated r)\<rparr>)
         | (s', Inl e) \<Rightarrow> (s', r\<lparr>isr_not_updated := AList.update i (failure_error e) (isr_not_updated r)\<rparr>)))"

definition destroy_step ::
    "identity_env \<Rightarrow> string \<Rightarrow> string \<Rightarrow> identity_files \<times> identity_set_response \<Rightarrow> string \<Rightarrow> identity_files \<times> identity_set_response" where
  "destroy_step E account user st i =
     (case st of (s, r) \<Rightarrow>
        if i = ''default'' then
          (s, r\<lparr>isr_not_destroyed := AList.update i
                  \<lparr>ste_type = ''forbidden'', ste_description = Some ''Cannot delete default identity''\<rparr> (isr_not_destroyed r)\<rparr>)
        else case delete_identity E account user i s of
          (s', Inr _) \<Rightarrow> (s', r\<lparr>isr_destroyed := isr_destroyed r @ [i]\<rparr>)
        | (s', Inl e) \<Rightarrow> (s', r\<lparr>isr_not_destroyed := AList.update i (failure_error e) (isr_not_destroyed r)\<rparr>))"

definition empty_set_response :: "string \<Rightarrow> string \<Rightarrow> identity_set_response" where
  "empty_set_response account old_state =
     \<lparr>isr_account_id = account, isr_old_state = old_state, isr_new_state = [], isr_created = [], isr_updated = [],
      isr_destroyed = [], isr_not_created = [], isr_not_updated = [], isr_not_destroyed = []\<rparr>"

definition state_mismatch :: "string \<Rightarrow> string \<Rightarrow> string" where
  "state_mismatch expected current =
     ''stateMismatch: expected state '' @ [CHR 0x27] @ expected @ [CHR 0x27] @ '', current state is '' @ [CHR 0x27] @ current @ [CHR 0x27]"

definition identity_set_loops ::
    "identity_env \<Rightarrow> string \<Rightarrow> identity_set_request \<Rightarrow> identity_files \<times> identity_set_response \<Rightarrow> identity_files \<times> identity_set_response" where
  "identity_set_loops E user q st =
     foldl (destroy_step E (is_account_id q) user)
       (foldl (update_step E (is_account_id q) user)
          (foldl (create_step E (is_account_id q) user) st (is_create q)) (is_update q)) (is_destroy q)"

definition identity_set ::
    "identity_env \<Rightarrow> identity_set_request \<Rightarrow> principal \<Rightarrow> identity_files \<Rightarrow> identity_files \<times> identity_set_response result" where
  "identity_set E q p s =
     (case ensure_account_ownership (is_account_id q) p of
        Inl e \<Rightarrow> (s, Inl e)
      | Inr _ \<Rightarrow>
          (case identity_state_token E (is_account_id q) (pr_username p) s of
             (s1, Inl e) \<Rightarrow> (s1, Inl e)
           | (s1, Inr old_state) \<Rightarrow>
               if is_if_in_state q \<noteq> None \<and> is_if_in_state q \<noteq> Some old_state then
                 (s1, Inl (state_mismatch (the (is_if_in_state q)) old_state))
               else
                 (case identity_set_loops E (pr_username p) q (s1, empty_set_response (is_account_id q) old_state) of
                    (s2, r) \<Rightarrow>
                      (case identity_state_token E (is_account_id q) (pr_username p) s2 of
                         (s3, Inl e) \<Rightarrow> (s3, Inl e)
                       | (s3, Inr new_state) \<Rightarrow> (s3, Inr (r\<lparr>isr_new_state := new_state\<rparr>))))))"

record identity_changes_request =
  ic_account_id :: string
  ic_since_state :: string

record identity_changes_response =
  icr_account_id :: string
  icr_old_state :: string
  icr_new_state :: string
  icr_has_more_changes :: bool
  icr_created :: "string list"
  icr_updated :: "string list"
  icr_destroyed :: "string list"

definition identity_changes ::
    "identity_env \<Rightarrow> identity_changes_request \<Rightarrow> principal \<Rightarrow> identity_files \<Rightarrow> identity_files \<times> identity_changes_response result" where
  "identity_changes E q p s =
     (case ensure_account_ownership (ic_account_id q) p of
        Inl e \<Rightarrow> (s, Inl e)
      | Inr _ \<Rightarrow>
          (case identity_state_token E (ic_account_id q) (pr_username p) s of
             (s', r) \<Rightarrow>
               (s', rbind r (\<lambda>new_state.
                  Inr \<lparr>icr_account_id = ic_account_id q, icr_old_state = ic_since_state q, icr_new_state = new_state,
                       icr_has_more_changes = False, icr_created = [], icr_updated = [], icr_destroyed = []\<rparr>))))"

section \<open>Only the account of the request\<close>

definition account_part :: "'a account_files \<Rightarrow> string \<Rightarrow> 'a option option" where
  "account_part s a = map_of (af_files s) a"

lemma tick_part [simp]: "account_part (tick s) = account_part s"
  by (simp add: account_part_def [abs_def] tick_def)

lemma read_file_part [simp]: "account_part (fst (read_file E key s)) = account_part s"
  by (simp add: read_file_def)

lemma write_file_part: "a \<noteq> key \<Longrightarrow> account_part (fst (write_file E key x s)) a = account_part s a"
  by (auto simp: write_file_def account_part_def update_conv' tick_def split: option.split)

lemma identity_load_part [simp]: "account_part (fst (identity_load E account user s)) = account_part s"
  using read_file_part [of "ie_files E" account s] by (simp add: identity_load_def case_prod_beta del: read_file_part)

lemma identity_reads_part [simp]:
  "account_part (fst (list_identities E account user s)) = account_part s"
  "account_part (fst (get_identity E account user i s)) = account_part s"
  "account_part (fst (identity_state_token E account user s)) = account_part s"
  by (simp_all add: list_identities_def get_identity_def identity_state_token_def case_prod_beta)

lemma store_change_part:
  assumes "a \<noteq> account"
  shows "account_part (fst (identity_store_change E account user f s)) a = account_part s a"
proof -
  obtain s1 r where l: "identity_load E account user s = (s1, r)" by (cases "identity_load E account user s")
  have s1: "account_part s1 = account_part s" using identity_load_part [of E account user s] l by simp
  have "account_part (fst (identity_save E account st s1)) a = account_part s a" for st
    by (simp add: identity_save_def write_file_part [OF assms] s1)
  then show ?thesis
    using l s1 by (auto simp: identity_store_change_def case_prod_beta split: sum.split)
qed

lemma identity_writes_part:
  assumes "a \<noteq> account"
  shows "account_part (fst (create_identity E account user ident s)) a = account_part s a"
    and "account_part (fst (update_identity E account user i patch s)) a = account_part s a"
    and "account_part (fst (delete_identity E account user i s)) a = account_part s a"
  using store_change_part [OF assms] by (simp_all add: create_identity_def update_identity_def delete_identity_def)

lemma set_steps_part:
  assumes "a \<noteq> account"
  shows "account_part (fst (create_step E account user st c)) a = account_part (fst st) a"
    and "account_part (fst (update_step E account user st u)) a = account_part (fst st) a"
    and "account_part (fst (destroy_step E account user st i)) a = account_part (fst st) a"
  using identity_writes_part [OF assms]
  by (cases st; auto simp: create_step_def update_step_def destroy_step_def split: prod.split sum.split; metis fst_conv)+

lemma set_loops_part:
  assumes "a \<noteq> is_account_id q"
  shows "account_part (fst (identity_set_loops E user q st)) a = account_part (fst st) a"
proof -
  have fold: "account_part (fst (foldl f st xs)) a = account_part (fst st) a"
    if "\<And>st x. account_part (fst (f st x)) a = account_part (fst st) a" for f :: "_ \<Rightarrow> 'x \<Rightarrow> _" and st :: "'y account_files \<times> 'z" and xs
    using that by (induction xs arbitrary: st) simp_all
  show ?thesis unfolding identity_set_loops_def
    by (simp add: fold set_steps_part [OF assms])
qed

lemma get_identities_part: "account_part (fst (get_identities E account user is s)) = account_part s"
proof (induction "is" arbitrary: s)
  case (Cons i "is")
  obtain s1 r where g: "get_identity E account user i s = (s1, r)" by (cases "get_identity E account user i s")
  then have "account_part s1 = account_part s" using identity_reads_part(2) [of E account user i s] by simp
  with g Cons.IH [of s1] show ?case by (auto simp: case_prod_beta split: sum.split)
qed simp

lemma identity_methods_part:
  assumes "\<not> owns_account p a"
  shows "account_part (fst (identity_get E gq p s)) a = account_part s a"
    and "account_part (fst (identity_set E sq p s)) a = account_part s a"
    and "account_part (fst (identity_changes E cq p s)) a = account_part s a"
proof -
  have own: "account \<noteq> a" if "ensure_account_ownership account p = Inr u" for account u
    using that assms by (auto simp: ensure_account_ownership_def split: if_splits)
  have token: "account_part s' = account_part t"
    if "identity_state_token E account user t = (s', r)" for account user t s' r
    using that identity_reads_part(3) [of E account user t] by simp
  show "account_part (fst (identity_get E gq p s)) a = account_part s a"
    by (auto simp: identity_get_def case_prod_beta get_identities_part split: sum.split option.split)
  show "account_part (fst (identity_changes E cq p s)) a = account_part s a"
    by (auto simp: identity_changes_def case_prod_beta split: sum.split)
  have loops: "account_part s2 a = account_part t a"
    if "ensure_account_ownership (is_account_id sq) p = Inr u" "identity_set_loops E (pr_username p) sq (t, r0) = (s2, r)" for u t r0 s2 r
    using set_loops_part [of a sq E "pr_username p" "(t, r0)"] own [OF that(1)] that(2) by auto
  show "account_part (fst (identity_set E sq p s)) a = account_part s a"
    unfolding identity_set_def by (auto simp: token loops split: sum.split prod.split)
qed

interpretation identity_get_method: account_method dec enc "identity_get E" account_part for dec enc E
  by unfold_locales (rule identity_methods_part)

interpretation identity_set_method: account_method dec enc "identity_set E" account_part for dec enc E
  by unfold_locales (rule identity_methods_part)

interpretation identity_changes_method: account_method dec enc "identity_changes E" account_part for dec enc E
  by unfold_locales (rule identity_methods_part)

section \<open>The methods of the dispatcher\<close>

text \<open>The dispatcher opens the identity store beside the other stores; the other methods at most read the identities.\<close>

record identity_serde =
  is_dec_get :: "json \<Rightarrow> identity_get_request result"
  is_enc_get :: "identity_get_response \<Rightarrow> json"
  is_dec_set :: "json \<Rightarrow> identity_set_request result"
  is_enc_set :: "identity_set_response \<Rightarrow> json"
  is_dec_changes :: "json \<Rightarrow> identity_changes_request result"
  is_enc_changes :: "identity_changes_response \<Rightarrow> json"

definition on_identities :: "identity_files handler \<Rightarrow> (identity_files \<times> 'o) handler" where
  "on_identities h args p w = (case h args p (fst w) of (s', r) \<Rightarrow> ((s', snd w), r))"

definition on_rest :: "(identity_files \<Rightarrow> 'o handler) \<Rightarrow> (identity_files \<times> 'o) handler" where
  "on_rest h args p w = (case h (fst w) args p (snd w) of (x', r) \<Rightarrow> ((fst w, x'), r))"

definition jmap_methods ::
    "identity_env \<Rightarrow> identity_serde \<Rightarrow> (string \<Rightarrow> identity_files \<Rightarrow> 'o handler) \<Rightarrow> string \<Rightarrow> (identity_files \<times> 'o) handler" where
  "jmap_methods E D other name =
     (if name = ''Identity/get'' then on_identities (decoded (is_dec_get D) (is_enc_get D) (identity_get E))
      else if name = ''Identity/set'' then on_identities (decoded (is_dec_set D) (is_enc_set D) (identity_set E))
      else if name = ''Identity/changes'' then on_identities (decoded (is_dec_changes D) (is_enc_changes D) (identity_changes E))
      else on_rest (other name))"

interpretation jmap_methods: account_api "jmap_methods E D other" "\<lambda>w. account_part (fst w)" for E D other
proof
  fix name p a args and w :: "identity_files \<times> 'a"
  assume na: "\<not> owns_account p a"
  note keeps = identity_get_method.handler.keeps [OF na] identity_set_method.handler.keeps [OF na]
    identity_changes_method.handler.keeps [OF na]
  show "account_part (fst (fst (jmap_methods E D other name args p w))) a = account_part (fst w) a"
    by (simp add: jmap_methods_def on_identities_def on_rest_def case_prod_beta keeps)
qed


section \<open>The default identity\<close>

definition account_ok :: "identity_account_state \<Rightarrow> bool" where
  "account_ok st \<longleftrightarrow>
     (\<exists>d. map_of (ia_identities st) ''default'' = Some d \<and> \<not> id_may_delete d) \<and>
     (\<forall>i x. map_of (ia_identities st) i = Some x \<longrightarrow> id_id x = i)"

definition files_ok :: "identity_files \<Rightarrow> bool" where
  "files_ok s \<longleftrightarrow> (\<forall>a st. account_part s a = Some (Some st) \<longrightarrow> account_ok st)"

lemma new_account_ok: "account_ok (new_with_default account user)"
  by (simp add: account_ok_def new_with_default_def)

lemma identity_load_ok:
  assumes "files_ok s" "identity_load E account user s = (s', r)"
  shows "files_ok s'" "r = Inr st \<Longrightarrow> account_ok st"
proof -
  have "account_part s' = account_part s" using identity_load_part [of E account user s] assms(2) by simp
  with assms(1) show "files_ok s'" by (simp add: files_ok_def)
  show "account_ok st" if "r = Inr st"
    using that assms new_account_ok [of account user]
    by (auto simp: identity_load_def read_file_def files_ok_def account_part_def rbind_Inr_iff split: option.splits)
qed

lemma write_file_ok: "files_ok s \<Longrightarrow> account_ok st \<Longrightarrow> files_ok (fst (write_file E key st s))"
  by (auto simp: write_file_def files_ok_def account_part_def update_conv' tick_def split: option.split)

lemma account_ok_version [simp]: "account_ok (st\<lparr>ia_state_version := n\<rparr>) \<longleftrightarrow> account_ok st"
  by (simp add: account_ok_def)

lemma account_ok_put:
  "account_ok st \<Longrightarrow> id_id x = i \<Longrightarrow> (i = ''default'' \<Longrightarrow> \<not> id_may_delete x) \<Longrightarrow>
     account_ok (st\<lparr>ia_identities := AList.update i x (ia_identities st)\<rparr>)"
  by (auto simp: account_ok_def update_conv')

lemma store_change_ok:
  assumes "files_ok s" "\<And>st st' r. account_ok st \<Longrightarrow> f st = Inr (st', r) \<Longrightarrow> account_ok st'"
  shows "files_ok (fst (identity_store_change E account user f s))"
proof -
  obtain s1 r where l: "identity_load E account user s = (s1, r)" by (cases "identity_load E account user s")
  note ok = identity_load_ok [OF assms(1) l]
  have "files_ok (fst (identity_save E account (st'\<lparr>ia_state_version := n\<rparr>) s1))" if "r = Inr st" "f st = Inr (st', x)" for st st' x n
    using write_file_ok [OF ok(1)] assms(2) [OF ok(2) [OF that(1)] that(2)] by (simp add: identity_save_def)
  with ok(1) l show ?thesis
    by (auto simp: identity_store_change_def case_prod_beta split: sum.split prod.split)
qed

lemma set_steps_ok:
  assumes "\<And>n. ie_uuid E n \<noteq> ''default''" "files_ok (fst st)"
  shows "files_ok (fst (create_step E account user st c))"
    and "files_ok (fst (update_step E account user st u))"
    and "files_ok (fst (destroy_step E account user st i))"
proof -
  obtain s r where st: "st = (s, r)" by (cases st)
  have s: "files_ok s" using assms(2) st by simp
  have "files_ok (fst (create_identity E account user (new_identity (ie_uuid E n) ob) s))" for n ob
    unfolding create_identity_def
    by (rule store_change_ok [OF s]) (auto simp: new_identity_def assms(1) intro: account_ok_put)
  then show "files_ok (fst (create_step E account user st c))"
    using s st by (auto simp: create_step_def case_prod_beta split: sum.split)
  have "files_ok (fst (update_identity E account user j patch s))" for j patch
    unfolding update_identity_def
    by (rule store_change_ok [OF s])
      (auto simp: rbind_Inr_iff ok_or_Inr_iff Let_def account_ok_def [THEN iffD1] intro!: account_ok_put)
  then show "files_ok (fst (update_step E account user st u))"
    using s st by (auto simp: update_step_def case_prod_beta split: sum.split)
  have "files_ok (fst (delete_identity E account user j s))" if "j \<noteq> ''default''" for j
    unfolding delete_identity_def
    by (rule store_change_ok [OF s]) (use that in \<open>auto simp: account_ok_def delete_conv' split: option.splits if_splits\<close>)
  then show "files_ok (fst (destroy_step E account user st i))"
    using s st by (auto simp: destroy_step_def case_prod_beta split: sum.split)
qed

lemma set_loops_ok:
  assumes "\<And>n. ie_uuid E n \<noteq> ''default''" "files_ok (fst st)"
  shows "files_ok (fst (identity_set_loops E user q st))"
proof -
  have fold: "files_ok (fst (foldl f st xs))"
    if "\<And>st x. files_ok (fst st) \<Longrightarrow> files_ok (fst (f st x))" "files_ok (fst st)"
    for f :: "_ \<Rightarrow> 'x \<Rightarrow> _" and st :: "identity_files \<times> 'z" and xs
    using that by (induction xs arbitrary: st) simp_all
  show ?thesis unfolding identity_set_loops_def by (intro fold set_steps_ok assms)
qed

lemma identity_set_ok:
  assumes "\<And>n. ie_uuid E n \<noteq> ''default''" "files_ok s"
  shows "files_ok (fst (identity_set E q p s))"
proof -
  have token: "files_ok s'" if "identity_state_token E account user t = (s', r)" "files_ok t" for account user t s' r
    using that identity_reads_part(3) [of E account user t] by (simp add: files_ok_def)
  have loops: "files_ok s2" if "identity_set_loops E user q (t, r0) = (s2, r)" "files_ok t" for user t r0 s2 r
    using set_loops_ok [where st = "(t, r0)", OF assms(1)] that by (metis fst_conv)
  show ?thesis
    using assms(2) unfolding identity_set_def by (auto split: sum.split prod.split intro: token) (metis token loops)+
qed

text \<open>C23: Every account has a default identity that cannot be deleted, and every identity the id it is stored under: from
  no files on, after any sequence of Identity/set requests of any principals and under any failures, whatever can
  be read back has both.\<close>

theorem default_identity_permanent:
  assumes "\<And>n. ie_uuid E n \<noteq> ''default''"
    and "s = fst (run (\<lambda>s (p, q). identity_set E q p s) \<lparr>af_files = [], af_clock = 0\<rparr> calls)"
    and "identity_load E account user s = (s', Inr st)"
  shows "(\<exists>d. map_of (ia_identities st) ''default'' = Some d \<and> \<not> id_may_delete d) \<and>
     (\<forall>i x. map_of (ia_identities st) i = Some x \<longrightarrow> id_id x = i)"
proof -
  have "files_ok (fst (run (\<lambda>s (p, q). identity_set E q p s) t calls))" if "files_ok t" for t
    using that by (induction calls arbitrary: t) (auto simp: case_prod_beta intro: identity_set_ok [OF assms(1)])
  from this [of "\<lparr>af_files = [], af_clock = 0\<rparr>"] have "files_ok s"
    by (simp add: assms(2) files_ok_def account_part_def)
  from identity_load_ok(2) [OF this assms(3) refl] show ?thesis by (simp add: account_ok_def)
qed

section \<open>The state token\<close>

text \<open>Without failures, the version of an account and what the methods read of it.\<close>

definition no_faults :: "identity_env \<Rightarrow> bool" where
  "no_faults E \<longleftrightarrow> (\<forall>n. fe_read_error E n = None) \<and> (\<forall>n. fe_write_error E n = None)"

definition account_of :: "string \<Rightarrow> string \<Rightarrow> identity_files \<Rightarrow> identity_account_state" where
  "account_of account user s =
     (case account_part s account of Some (Some st) \<Rightarrow> st | _ \<Rightarrow> new_with_default account user)"

definition readable :: "string \<Rightarrow> identity_files \<Rightarrow> bool" where
  "readable account s \<longleftrightarrow> account_part s account \<noteq> Some None"

definition version :: "string \<Rightarrow> string \<Rightarrow> identity_files \<Rightarrow> nat" where
  "version account user s = ia_state_version (account_of account user s)"

lemma load_no_faults:
  "no_faults E \<Longrightarrow> readable account s \<Longrightarrow> identity_load E account user s = (tick s, Inr (account_of account user s))"
  by (auto simp: identity_load_def read_file_def no_faults_def readable_def account_of_def account_part_def
      file_env.defs split: option.splits)

lemma store_change_no_faults:
  assumes "no_faults E" "readable account s" "identity_store_change E account user f s = (s', r)"
  shows "readable account s'"
    and "version account user s' = (case r of Inr _ \<Rightarrow> (version account user s + 1) mod 2 ^ 64 | Inl _ \<Rightarrow> version account user s)"
proof -
  note l = load_no_faults [OF assms(1,2)]
  have w: "identity_save E account st t = ((tick t)\<lparr>af_files := AList.update account (Some st) (af_files t)\<rparr>, Inr ())" for st t
    using assms(1) by (simp add: identity_save_def write_file_def no_faults_def file_env.defs)
  have "readable account s' \<and> version account user s' = (case r of Inr _ \<Rightarrow> (version account user s + 1) mod 2 ^ 64 | Inl _ \<Rightarrow> version account user s)"
    using assms(2,3)
    by (auto simp: identity_store_change_def l w readable_def version_def account_of_def account_part_def tick_def update_conv'
        split: sum.splits prod.splits)
  then show "readable account s'" "version account user s' = (case r of Inr _ \<Rightarrow> (version account user s + 1) mod 2 ^ 64 | Inl _ \<Rightarrow> version account user s)"
    by blast+
qed

definition changes_done :: "identity_set_response \<Rightarrow> nat" where
  "changes_done r = length (isr_created r) + length (isr_updated r) + length (isr_destroyed r)"

definition counted_changes :: "nat \<Rightarrow> string \<Rightarrow> string \<Rightarrow> identity_files \<times> identity_set_response \<Rightarrow> bool" where
  "counted_changes v account user st \<longleftrightarrow>
     readable account (fst st) \<and> version account user (fst st) = (v + changes_done (snd st)) mod 2 ^ 64"

lemma length_update_new: "k \<notin> fst ` set xs \<Longrightarrow> length (AList.update k v xs) = Suc (length xs)"
  by (induction xs) auto

lemma counted_store_change:
  assumes "no_faults E" "counted_changes v account user (s, r)" "identity_store_change E account user f s = (s', x)"
    and "changes_done r' = (case x of Inr _ \<Rightarrow> Suc (changes_done r) | Inl _ \<Rightarrow> changes_done r)"
  shows "counted_changes v account user (s', r')"
  using store_change_no_faults [OF assms(1) _ assms(3)] assms(2,4)
  by (auto simp: counted_changes_def mod_simps split: sum.splits)

lemma create_step_counted:
  assumes "no_faults E" "counted_changes v account user st" "fst c \<notin> fst ` set (isr_created (snd st))"
  shows "counted_changes v account user (create_step E account user st c)"
    and "fst ` set (isr_created (snd (create_step E account user st c))) \<subseteq> insert (fst c) (fst ` set (isr_created (snd st)))"
    and "isr_updated (snd (create_step E account user st c)) = isr_updated (snd st)"
proof -
  obtain s r ci ob where p: "st = (s, r)" "c = (ci, ob)" by (cases st, cases c) auto
  show "counted_changes v account user (create_step E account user st c)"
  proof (cases "is_valid_email (io_email ob)")
    case True
    obtain s' x where cr: "create_identity E account user (new_identity (ie_uuid E (af_clock s)) ob) s = (s', x)"
      by (cases "create_identity E account user (new_identity (ie_uuid E (af_clock s)) ob) s")
    note cnt = counted_store_change [OF assms(1) assms(2) [unfolded p] cr [unfolded create_identity_def]]
    show ?thesis
      using True cr assms(3) by (cases x) (simp_all add: p create_step_def cnt changes_done_def length_update_new)
  next
    case False
    with assms(2) show ?thesis by (simp add: p create_step_def counted_changes_def changes_done_def)
  qed
  show "fst ` set (isr_created (snd (create_step E account user st c))) \<subseteq> insert (fst c) (fst ` set (isr_created (snd st)))"
    "isr_updated (snd (create_step E account user st c)) = isr_updated (snd st)"
    by (auto simp: p create_step_def dom_update split: prod.split sum.split)
qed

lemma update_step_counted:
  assumes "no_faults E" "counted_changes v account user st" "fst c \<notin> fst ` set (isr_updated (snd st))"
  shows "counted_changes v account user (update_step E account user st c)"
    and "fst ` set (isr_updated (snd (update_step E account user st c))) \<subseteq> insert (fst c) (fst ` set (isr_updated (snd st)))"
proof -
  obtain s r i patch where p: "st = (s, r)" "c = (i, patch)" by (cases st, cases c) auto
  show "counted_changes v account user (update_step E account user st c)"
  proof -
    obtain s' x where up: "update_identity E account user i patch s = (s', x)" by (cases "update_identity E account user i patch s")
    note cnt = counted_store_change [OF assms(1) assms(2) [unfolded p] up [unfolded update_identity_def]]
    show ?thesis using up assms(3) by (cases x) (simp_all add: p update_step_def cnt changes_done_def length_update_new)
  qed
  show "fst ` set (isr_updated (snd (update_step E account user st c))) \<subseteq> insert (fst c) (fst ` set (isr_updated (snd st)))"
    by (auto simp: p update_step_def dom_update split: prod.split sum.split)
qed

lemma destroy_step_counted:
  assumes "no_faults E" "counted_changes v account user st"
  shows "counted_changes v account user (destroy_step E account user st i)"
proof -
  obtain s r where p: "st = (s, r)" by (cases st)
  obtain s' x where d: "delete_identity E account user i s = (s', x)" by (cases "delete_identity E account user i s")
  note cnt = counted_store_change [OF assms(1) assms(2) [unfolded p] d [unfolded delete_identity_def]]
  show ?thesis
  proof (cases "i = ''default''")
    case True
    with assms(2) show ?thesis by (simp add: p destroy_step_def counted_changes_def changes_done_def)
  next
    case False
    with d show ?thesis by (cases x) (simp_all add: p destroy_step_def cnt changes_done_def)
  qed
qed

lemma disjoint_extend: "x \<notin> A \<Longrightarrow> A \<inter> B = {} \<Longrightarrow> C \<subseteq> insert x B \<Longrightarrow> A \<inter> C = {}"
  by blast

lemma create_loop_counted:
  assumes "no_faults E" "counted_changes v account user st" "distinct (map fst cs)"
    and "fst ` set cs \<inter> fst ` set (isr_created (snd st)) = {}"
  shows "counted_changes v account user (foldl (create_step E account user) st cs)"
    and "isr_updated (snd (foldl (create_step E account user) st cs)) = isr_updated (snd st)"
proof -
  have "counted_changes v account user (foldl (create_step E account user) st cs) \<and>
      isr_updated (snd (foldl (create_step E account user) st cs)) = isr_updated (snd st)"
    using assms(2-4)
  proof (induction cs arbitrary: st)
    case (Cons c cs)
    have "fst c \<notin> fst ` set (isr_created (snd st))" using Cons.prems(3) unfolding list.set(2) image_insert by blast
    note c = create_step_counted [OF assms(1) Cons.prems(1) this]
    have "fst ` set cs \<inter> fst ` set (isr_created (snd (create_step E account user st c))) = {}"
    proof -
      have "fst c \<notin> fst ` set cs" using Cons.prems(2) by simp
      moreover have "fst ` set cs \<inter> fst ` set (isr_created (snd st)) = {}"
        using Cons.prems(3) unfolding list.set(2) image_insert by blast
      ultimately show ?thesis by (rule disjoint_extend [OF _ _ c(2)])
    qed
    with Cons.IH [OF c(1)] Cons.prems c(3) show ?case by simp
  qed simp
  then show "counted_changes v account user (foldl (create_step E account user) st cs)"
    "isr_updated (snd (foldl (create_step E account user) st cs)) = isr_updated (snd st)" by blast+
qed

lemma update_loop_counted:
  assumes "no_faults E" "counted_changes v account user st" "distinct (map fst us)"
    and "fst ` set us \<inter> fst ` set (isr_updated (snd st)) = {}"
  shows "counted_changes v account user (foldl (update_step E account user) st us)"
  using assms(2-4)
proof (induction us arbitrary: st)
  case (Cons c cs)
  have "fst c \<notin> fst ` set (isr_updated (snd st))" using Cons.prems(3) unfolding list.set(2) image_insert by blast
  note c = update_step_counted [OF assms(1) Cons.prems(1) this]
  have "fst ` set cs \<inter> fst ` set (isr_updated (snd (update_step E account user st c))) = {}"
  proof -
    have "fst c \<notin> fst ` set cs" using Cons.prems(2) by simp
    moreover have "fst ` set cs \<inter> fst ` set (isr_updated (snd st)) = {}"
      using Cons.prems(3) unfolding list.set(2) image_insert by blast
    ultimately show ?thesis by (rule disjoint_extend [OF _ _ c(2)])
  qed
  with Cons.IH [OF c(1)] Cons.prems show ?case by simp
qed simp

text \<open>The state token counts the changes: between the old and the new state an Identity/set reports there are exactly
  as many versions as identities it created, updated and destroyed, so that a client sees from the token alone
  whether anything has changed.\<close>

theorem identity_state_counts_changes:
  assumes "no_faults E" "readable (is_account_id q) s" "version (is_account_id q) (pr_username p) s < 2 ^ 64"
    and "distinct (map fst (is_create q))" "distinct (map fst (is_update q))" "identity_set E q p s = (s', Inr r)"
  shows "isr_old_state r = show_nat (version (is_account_id q) (pr_username p) s) \<and>
     isr_new_state r = show_nat ((version (is_account_id q) (pr_username p) s + length (isr_created r) +
                                  length (isr_updated r) + length (isr_destroyed r)) mod 2 ^ 64)"
proof -
  let ?a = "is_account_id q" and ?u = "pr_username p"
  let ?v = "version ?a ?u s" and ?r0 = "empty_set_response (is_account_id q) (show_nat (version (is_account_id q) (pr_username p) s))"
  have token: "identity_state_token E ?a ?u t = (tick t, Inr (show_nat (version ?a ?u t)))" if "readable ?a t" for t
    using load_no_faults [OF assms(1) that] by (simp add: identity_state_token_def version_def)
  have tick: "version ?a ?u (tick t) = version ?a ?u t" "readable ?a (tick t) = readable ?a t" for t
    by (simp_all add: version_def account_of_def readable_def)
  obtain s2 r2 where l: "identity_set_loops E ?u q (tick s, ?r0) = (s2, r2)" by (cases "identity_set_loops E ?u q (tick s, ?r0)")
  have start: "counted_changes ?v ?a ?u (tick s, ?r0)"
    using assms(2,3) by (simp add: counted_changes_def tick changes_done_def empty_set_response_def)
  have c1: "counted_changes ?v ?a ?u (foldl (create_step E ?a ?u) (tick s, ?r0) (is_create q))"
      "isr_updated (snd (foldl (create_step E ?a ?u) (tick s, ?r0) (is_create q))) = []"
    using create_loop_counted [OF assms(1) start assms(4)] by (simp_all add: empty_set_response_def)
  have c2: "counted_changes ?v ?a ?u (foldl (update_step E ?a ?u) (foldl (create_step E ?a ?u) (tick s, ?r0) (is_create q)) (is_update q))"
    by (rule update_loop_counted [OF assms(1) c1(1) assms(5)]) (simp add: c1(2))
  have "counted_changes ?v ?a ?u (foldl (destroy_step E ?a ?u) st is)" if "counted_changes ?v ?a ?u st" for st "is"
    using that by (induction "is" arbitrary: st) (simp_all add: destroy_step_counted [OF assms(1)])
  from this [OF c2, of "is_destroy q"] have "counted_changes ?v ?a ?u (s2, r2)"
    unfolding l [unfolded identity_set_loops_def] .
  then have c: "readable ?a s2" "version ?a ?u s2 = (?v + changes_done r2) mod 2 ^ 64" by (simp_all add: counted_changes_def)
  have old: "isr_old_state (snd (foldl f st xs)) = isr_old_state (snd st)"
    if "\<And>st x. isr_old_state (snd (f st x)) = isr_old_state (snd st)"
    for f :: "identity_files \<times> identity_set_response \<Rightarrow> 'x \<Rightarrow> identity_files \<times> identity_set_response" and st xs
    using that by (induction xs arbitrary: st) simp_all
  have "isr_old_state (snd (identity_set_loops E ?u q (tick s, ?r0))) = isr_old_state ?r0"
    unfolding identity_set_loops_def
    by (subst old, simp add: destroy_step_def split: prod.split sum.split)
      (subst old, simp add: update_step_def split: prod.split sum.split,
       subst old, simp add: create_step_def split: prod.split sum.split, simp)
  then have "isr_old_state r2 = show_nat ?v" using l by (simp add: empty_set_response_def)
  moreover have "r = r2\<lparr>isr_new_state := show_nat (version ?a ?u s2)\<rparr>"
    using assms(6) l token [OF assms(2)] token [OF c(1)]
    by (auto simp: identity_set_def split: sum.splits if_splits)
  ultimately show ?thesis using c(2) by (simp add: changes_done_def add.assoc)
qed

section \<open>An instance\<close>

definition demo_identity_env :: identity_env where
  "demo_identity_env =
     \<lparr>fe_read_error = (\<lambda>_. None), fe_write_error = (\<lambda>_. None), fe_parse_error = ''EOF while parsing a value'',
      ie_uuid = (\<lambda>n. CHR ''u'' # show_nat n),
      ie_to_value = (\<lambda>x. JObject [(''email'', JString (id_email x)), (''name'', JString (id_name x))]),
      ie_from_value = (\<lambda>v. case (json_get v ''name'', json_get v ''email'') of
          (Some (JString n), Some (JString e)) \<Rightarrow>
            Inr \<lparr>id_id = [], id_name = n, id_email = e, id_reply_to = None, id_bcc = None, id_text_signature = None,
                 id_html_signature = None, id_may_delete = True\<rparr>
        | _ \<Rightarrow> Inl ''missing field'')\<rparr>"

definition demo_alice :: principal where
  "demo_alice = Principal_from_username ''alice''"

definition demo_set_request :: identity_set_request where
  "demo_set_request =
     \<lparr>is_account_id = ''account-alice'', is_if_in_state = Some ''1'',
      is_create = [(''k'', \<lparr>io_name = ''Work'', io_email = ''alice@example.org'', io_reply_to = None, io_bcc = None,
                           io_text_signature = None, io_html_signature = None\<rparr>)],
      is_update = [(''default'', JObject [(''/name'', JString ''Me'')])], is_destroy = [''default'']\<rparr>"

definition no_identity_files :: identity_files where
  "no_identity_files = \<lparr>af_files = [], af_clock = 0\<rparr>"

definition demo_identity_run :: "identity_files \<times> identity_set_response result" where
  "demo_identity_run = identity_set demo_identity_env demo_set_request demo_alice no_identity_files"

definition demo_identity_serde :: identity_serde where
  "demo_identity_serde =
     \<lparr>is_dec_get = (\<lambda>_. Inl ''missing field''), is_enc_get = (\<lambda>_. JNull), is_dec_set = (\<lambda>_. Inr demo_set_request),
      is_enc_set = (\<lambda>r. JString (isr_new_state r)), is_dec_changes = (\<lambda>_. Inl ''missing field''), is_enc_changes = (\<lambda>_. JNull)\<rparr>"

definition demo_identity_request :: jmap_request where
  "demo_identity_request =
     \<lparr>jq_using = [''urn:ietf:params:jmap:submission''], jq_method_calls = [(''Identity/set'', JObject [], ''c0'')], jq_created_ids = None\<rparr>"

definition demo_identity_post :: "(identity_files \<times> nat) \<times> jmap_http" where
  "demo_identity_post =
     jmap_post demo_http_auth demo_serde (jmap_methods demo_identity_env demo_identity_serde (\<lambda>_ _. demo_handler ''x''))
       (Some ''Basic YWxpY2U6cHc='') (Inr demo_identity_request) (no_identity_files, 0)"

lemma demo_identity_facts:
  "(case demo_identity_run of (s, Inr r) \<Rightarrow> isr_new_state r = ''3'' \<and> length (isr_created r) = 1 | _ \<Rightarrow> False) \<and>
   (case snd (identity_load demo_identity_env ''account-alice'' ''alice'' (fst demo_identity_run)) of
      Inr st \<Rightarrow> length (ia_identities st) = 2 | Inl _ \<Rightarrow> False) \<and>
   account_part (fst (fst demo_identity_post)) ''account-alice'' \<noteq> None"
  by code_simp

theorem default_identity_permanent_witness:
  "\<exists>st d. snd (identity_load demo_identity_env ''account-alice'' ''alice'' (fst demo_identity_run)) = Inr st \<and>
     length (ia_identities st) = 2 \<and> map_of (ia_identities st) ''default'' = Some d \<and> \<not> id_may_delete d"
proof -
  obtain s' st where st: "identity_load demo_identity_env ''account-alice'' ''alice'' (fst demo_identity_run) = (s', Inr st)"
      "length (ia_identities st) = 2"
    using demo_identity_facts by (cases "identity_load demo_identity_env ''account-alice'' ''alice'' (fst demo_identity_run)") (auto split: sum.splits)
  have "ie_uuid demo_identity_env n \<noteq> ''default''" for n by (simp add: demo_identity_env_def)
  moreover have "fst demo_identity_run =
      fst (run (\<lambda>s (p, q). identity_set demo_identity_env q p s) \<lparr>af_files = [], af_clock = 0\<rparr> [(demo_alice, demo_set_request)])"
    by (simp add: demo_identity_run_def no_identity_files_def case_prod_beta)
  ultimately have "\<exists>d. map_of (ia_identities st) ''default'' = Some d \<and> \<not> id_may_delete d"
    using default_identity_permanent [OF _ _ st(1)] by blast
  with st show ?thesis by auto
qed

theorem identity_state_counts_changes_witness:
  "\<exists>s r. demo_identity_run = (s, Inr r) \<and> isr_new_state r = ''3'' \<and>
     isr_new_state r = show_nat ((1 + length (isr_created r) + length (isr_updated r) + length (isr_destroyed r)) mod 2 ^ 64)"
proof -
  obtain s r where r: "demo_identity_run = (s, Inr r)" "isr_new_state r = ''3''"
  proof (cases demo_identity_run)
    case (Pair s x)
    from demo_identity_facts [THEN conjunct1, unfolded Pair] Pair that show ?thesis by (cases x) simp_all
  qed
  have v: "version ''account-alice'' ''alice'' no_identity_files = 1" "readable ''account-alice'' no_identity_files" "no_faults demo_identity_env"
    by (simp_all add: version_def account_of_def readable_def no_identity_files_def account_part_def new_with_default_def no_faults_def demo_identity_env_def)
  have q: "is_account_id demo_set_request = ''account-alice''" "pr_username demo_alice = ''alice''"
      "distinct (map fst (is_create demo_set_request))" "distinct (map fst (is_update demo_set_request))"
    by (simp_all add: demo_set_request_def demo_alice_def Principal_from_username_def)
  have "isr_new_state r = show_nat ((1 + length (isr_created r) +
      length (isr_updated r) + length (isr_destroyed r)) mod 2 ^ 64)"
    using identity_state_counts_changes [OF v(3) _ _ q(3,4) r(1) [unfolded demo_identity_run_def], unfolded q(1,2) v(1)] v by simp
  with r show ?thesis by blast
qed


end
