(* ===== verification/Jmap_Vacation.thy ===== *)
theory Jmap_Vacation
  imports Jmap_Identity
begin

text \<open>
  Model of \<^verbatim>\<open>crates/rusmes-jmap/src/methods/vacation.rs\<close>: the vacation response of an account in its file, the methods
  VacationResponse/get and VacationResponse/set, the tracker that limits replies, and what is replied to whom.
  Times are integers (nanoseconds); the parser of dates and Unicode lower-casing are parameters.
\<close>

section \<open>The store\<close>

record vacation_response =
  vr_id :: string
  vr_is_enabled :: bool
  vr_from_date :: "int option"
  vr_to_date :: "int option"
  vr_subject :: "string option"
  vr_text_body :: "string option"
  vr_html_body :: "string option"

record vacation_state_file =
  vs_vacation :: vacation_response
  vs_state :: nat

type_synonym vacation_files = "vacation_state_file account_files"

definition safe_id :: "string \<Rightarrow> string" where
  "safe_id account = map (\<lambda>c. if c \<in> {CHR ''/'', CHR 0x5C, CHR ''.''} then CHR ''_'' else c) account"

definition load_state_file :: "file_env \<Rightarrow> string \<Rightarrow> vacation_files \<Rightarrow> vacation_files \<times> vacation_state_file option result" where
  "load_state_file E account s = read_file E (safe_id account) s"

definition save_state_file :: "file_env \<Rightarrow> string \<Rightarrow> vacation_state_file \<Rightarrow> vacation_files \<Rightarrow> vacation_files \<times> unit result" where
  "save_state_file E account f s = write_file E (safe_id account) f s"

definition get_vacation :: "file_env \<Rightarrow> string \<Rightarrow> vacation_files \<Rightarrow> vacation_files \<times> vacation_response option result" where
  "get_vacation E account s =
     (case load_state_file E account s of (s', r) \<Rightarrow> (s', rbind r (\<lambda>f. Inr (map_option vs_vacation f))))"

definition state_of :: "vacation_state_file option \<Rightarrow> nat" where
  "state_of f = (case f of Some x \<Rightarrow> vs_state x | None \<Rightarrow> 0)"

definition set_vacation :: "file_env \<Rightarrow> string \<Rightarrow> vacation_response \<Rightarrow> vacation_files \<Rightarrow> vacation_files \<times> unit result" where
  "set_vacation E account vacation s =
     (case load_state_file E account s of
        (s1, Inl e) \<Rightarrow> (s1, Inl e)
      | (s1, Inr f) \<Rightarrow>
          save_state_file E account \<lparr>vs_vacation = vacation, vs_state = min (state_of f + 1) (2 ^ 64 - 1)\<rparr> s1)"

definition vacation_state_token :: "file_env \<Rightarrow> string \<Rightarrow> vacation_files \<Rightarrow> vacation_files \<times> string result" where
  "vacation_state_token E account s =
     (case load_state_file E account s of (s', r) \<Rightarrow> (s', rbind r (\<lambda>f. Inr (show_nat (state_of f)))))"

definition default_vacation_response :: vacation_response where
  "default_vacation_response =
     \<lparr>vr_id = ''singleton'', vr_is_enabled = False, vr_from_date = None, vr_to_date = None, vr_subject = None,
      vr_text_body = None, vr_html_body = None\<rparr>"

section \<open>Methods\<close>

fun json_as_bool :: "json \<Rightarrow> bool option" where
  "json_as_bool (JBool b) = Some b"
| "json_as_bool _ = None"

definition string_or_null :: "string \<Rightarrow> json \<Rightarrow> string option result" where
  "string_or_null field v =
     (if v = JNull then Inr None else rbind (ok_or (field @ '' must be a string or null'') (json_as_str v)) (\<lambda>x. Inr (Some x)))"

definition date_or_null :: "(string \<Rightarrow> int result) \<Rightarrow> string \<Rightarrow> json \<Rightarrow> int option result" where
  "date_or_null parse_date field v =
     (if v = JNull then Inr None
      else rbind (ok_or (field @ '' must be a string or null'') (json_as_str v)) (\<lambda>x.
           rbind (map_err (\<lambda>e. ''Invalid '' @ field @ '': '' @ e) (parse_date x)) (\<lambda>d. Inr (Some d))))"

definition apply_member :: "(string \<Rightarrow> int result) \<Rightarrow> vacation_response \<Rightarrow> string \<times> json \<Rightarrow> vacation_response result" where
  "apply_member parse_date vacation kv =
     (case kv of (key, value) \<Rightarrow>
        if key = ''isEnabled'' then
          rbind (ok_or ''isEnabled must be a boolean'' (json_as_bool value)) (\<lambda>b. Inr (vacation\<lparr>vr_is_enabled := b\<rparr>))
        else if key = ''fromDate'' then rbind (date_or_null parse_date key value) (\<lambda>d. Inr (vacation\<lparr>vr_from_date := d\<rparr>))
        else if key = ''toDate'' then rbind (date_or_null parse_date key value) (\<lambda>d. Inr (vacation\<lparr>vr_to_date := d\<rparr>))
        else if key = ''subject'' then rbind (string_or_null key value) (\<lambda>x. Inr (vacation\<lparr>vr_subject := x\<rparr>))
        else if key = ''textBody'' then rbind (string_or_null key value) (\<lambda>x. Inr (vacation\<lparr>vr_text_body := x\<rparr>))
        else if key = ''htmlBody'' then rbind (string_or_null key value) (\<lambda>x. Inr (vacation\<lparr>vr_html_body := x\<rparr>))
        else Inr vacation)"

fun apply_members :: "(string \<Rightarrow> int result) \<Rightarrow> vacation_response \<Rightarrow> (string \<times> json) list \<Rightarrow> vacation_response result" where
  "apply_members parse_date vacation [] = Inr vacation"
| "apply_members parse_date vacation (kv # kvs) =
     rbind (apply_member parse_date vacation kv) (\<lambda>v. apply_members parse_date v kvs)"

definition apply_patch :: "(string \<Rightarrow> int result) \<Rightarrow> vacation_response \<Rightarrow> json \<Rightarrow> vacation_response result" where
  "apply_patch parse_date vacation patch =
     (case patch of JObject kvs \<Rightarrow> apply_members parse_date vacation kvs | _ \<Rightarrow> Inl ''Patch must be a JSON object'')"

record vacation_get_request =
  vg_account_id :: string
  vg_ids :: "string list option"

record vacation_get_response =
  vgr_account_id :: string
  vgr_state :: string
  vgr_list :: "vacation_response list"
  vgr_not_found :: "string list"

fun get_vacations ::
    "file_env \<Rightarrow> string \<Rightarrow> string list \<Rightarrow> vacation_files \<Rightarrow> vacation_files \<times> (vacation_response list \<times> string list) result" where
  "get_vacations E account [] s = (s, Inr ([], []))"
| "get_vacations E account (i # is) s =
     (if i = ''singleton'' then
        (case get_vacation E account s of
           (s1, Inl e) \<Rightarrow> (s1, Inl e)
         | (s1, Inr found) \<Rightarrow>
             (case get_vacations E account is s1 of
                (s2, r) \<Rightarrow> (s2, rbind r (\<lambda>(xs, nf).
                    Inr ((case found of Some x \<Rightarrow> x | None \<Rightarrow> default_vacation_response) # xs, nf)))))
      else (case get_vacations E account is s of (s2, r) \<Rightarrow> (s2, rbind r (\<lambda>(xs, nf). Inr (xs, i # nf)))))"

definition vacation_response_get ::
    "file_env \<Rightarrow> vacation_get_request \<Rightarrow> principal \<Rightarrow> vacation_files \<Rightarrow> vacation_files \<times> vacation_get_response result" where
  "vacation_response_get E q p s =
     (case ensure_account_ownership (vg_account_id q) p of
        Inl e \<Rightarrow> (s, Inl e)
      | Inr _ \<Rightarrow>
          (case vacation_state_token E (vg_account_id q) s of
             (s1, Inl e) \<Rightarrow> (s1, Inl e)
           | (s1, Inr state) \<Rightarrow>
               (case get_vacations E (vg_account_id q) (case vg_ids q of Some is \<Rightarrow> is | None \<Rightarrow> [''singleton'']) s1 of
                  (s2, r) \<Rightarrow>
                    (s2, rbind r (\<lambda>(xs, nf).
                       Inr \<lparr>vgr_account_id = vg_account_id q, vgr_state = state, vgr_list = xs, vgr_not_found = nf\<rparr>)))))"

record vacation_set_request =
  vq_account_id :: string
  vq_if_in_state :: "string option"
  vq_update :: "(string \<times> json) list"

record vacation_set_response =
  vsr_account_id :: string
  vsr_old_state :: string
  vsr_new_state :: string
  vsr_updated :: "(string \<times> vacation_response) list"
  vsr_not_updated :: "(string \<times> set_error) list"

definition dates_ordered :: "vacation_response \<Rightarrow> bool" where
  "dates_ordered v \<longleftrightarrow> (case (vr_from_date v, vr_to_date v) of (Some from_date, Some to_date) \<Rightarrow> from_date \<le> to_date | _ \<Rightarrow> True)"

text \<open>One entry of the update map; an error of the store ends the whole method.\<close>

definition vacation_update_step ::
    "file_env \<Rightarrow> (string \<Rightarrow> int result) \<Rightarrow> string \<Rightarrow> vacation_files \<times> vacation_set_response \<Rightarrow> string \<times> json \<Rightarrow>
       vacation_files \<times> vacation_set_response result" where
  "vacation_update_step E parse_date account st u =
     (case (st, u) of ((s, r), (i, patch)) \<Rightarrow>
        let fail = (\<lambda>t d. Inr (r\<lparr>vsr_not_updated := AList.update i \<lparr>ste_type = t, ste_description = Some d\<rparr> (vsr_not_updated r)\<rparr>)) in
        if i \<noteq> ''singleton'' then
          (s, fail ''notFound'' (''VacationResponse ID must be '' @ [CHR 0x27] @ ''singleton'' @ [CHR 0x27]))
        else case get_vacation E account s of
          (s1, Inl e) \<Rightarrow> (s1, Inl e)
        | (s1, Inr found) \<Rightarrow>
            (case apply_patch parse_date (case found of Some x \<Rightarrow> x | None \<Rightarrow> default_vacation_response) patch of
               Inl e \<Rightarrow> (s1, fail ''invalidProperties'' (''Patch error: '' @ e))
             | Inr patched \<Rightarrow>
                 if \<not> dates_ordered patched then (s1, fail ''invalidProperties'' ''fromDate must be before or equal to toDate'')
                 else (case set_vacation E account patched s1 of
                         (s2, Inl e) \<Rightarrow> (s2, Inl e)
                       | (s2, Inr _) \<Rightarrow> (s2, Inr (r\<lparr>vsr_updated := AList.update i patched (vsr_updated r)\<rparr>)))))"

fun vacation_updates ::
    "file_env \<Rightarrow> (string \<Rightarrow> int result) \<Rightarrow> string \<Rightarrow> (string \<times> json) list \<Rightarrow> vacation_files \<times> vacation_set_response \<Rightarrow>
       vacation_files \<times> vacation_set_response result" where
  "vacation_updates E parse_date account [] st = (fst st, Inr (snd st))"
| "vacation_updates E parse_date account (u # us) st =
     (case vacation_update_step E parse_date account st u of
        (s', Inl e) \<Rightarrow> (s', Inl e)
      | (s', Inr r') \<Rightarrow> vacation_updates E parse_date account us (s', r'))"

definition vacation_response_set ::
    "file_env \<Rightarrow> (string \<Rightarrow> int result) \<Rightarrow> vacation_set_request \<Rightarrow> principal \<Rightarrow> vacation_files \<Rightarrow> vacation_files \<times> vacation_set_response result" where
  "vacation_response_set E parse_date q p s =
     (case ensure_account_ownership (vq_account_id q) p of
        Inl e \<Rightarrow> (s, Inl e)
      | Inr _ \<Rightarrow>
          (case vacation_state_token E (vq_account_id q) s of
             (s1, Inl e) \<Rightarrow> (s1, Inl e)
           | (s1, Inr old_state) \<Rightarrow>
               if vq_if_in_state q \<noteq> None \<and> vq_if_in_state q \<noteq> Some old_state then
                 (s1, Inl (''stateMismatch: expected state '' @ [CHR 0x27] @ the (vq_if_in_state q) @ [CHR 0x27] @
                           '', current state '' @ [CHR 0x27] @ old_state @ [CHR 0x27]))
               else
                 (case vacation_updates E parse_date (vq_account_id q) (vq_update q)
                         (s1, \<lparr>vsr_account_id = vq_account_id q, vsr_old_state = old_state, vsr_new_state = [],
                               vsr_updated = [], vsr_not_updated = []\<rparr>) of
                    (s2, Inl e) \<Rightarrow> (s2, Inl e)
                  | (s2, Inr r) \<Rightarrow>
                      (case vacation_state_token E (vq_account_id q) s2 of
                         (s3, Inl e) \<Rightarrow> (s3, Inl e)
                       | (s3, Inr new_state) \<Rightarrow> (s3, Inr (r\<lparr>vsr_new_state := new_state\<rparr>))))))"

section \<open>Replies\<close>

type_synonym vacation_tracker = "(string \<times> int) list"

definition seven_days :: int where
  "seven_days = 7 * 24 * 3600 * 1000000000"

text \<open>The clock is read twice.\<close>

definition should_send_to :: "int \<Rightarrow> int \<Rightarrow> string \<Rightarrow> vacation_tracker \<Rightarrow> vacation_tracker \<times> bool" where
  "should_send_to now now' email t =
     (let t' = filter (\<lambda>e. now - seven_days < snd e) t in
      (t', case map_of t' email of Some last_sent \<Rightarrow> seven_days < now' - last_sent | None \<Rightarrow> True))"

definition record_sent :: "int \<Rightarrow> string \<Rightarrow> vacation_tracker \<Rightarrow> vacation_tracker" where
  "record_sent now email t = AList.update email now t"

definition is_vacation_active :: "int \<Rightarrow> vacation_response \<Rightarrow> bool" where
  "is_vacation_active now v \<longleftrightarrow>
     vr_is_enabled v \<and> (case vr_from_date v of Some d \<Rightarrow> \<not> now < d | None \<Rightarrow> True) \<and>
     (case vr_to_date v of Some d \<Rightarrow> \<not> now > d | None \<Rightarrow> True)"

record vacation_message =
  vm_subject :: string
  vm_text_body :: "string option"
  vm_html_body :: "string option"

definition generate_vacation_message :: "int \<Rightarrow> vacation_response \<Rightarrow> string option \<Rightarrow> vacation_message option" where
  "generate_vacation_message now v original_subject =
     (if \<not> is_vacation_active now v then None
      else Some \<lparr>vm_subject = (case vr_subject v of Some x \<Rightarrow> x
                               | None \<Rightarrow> (case original_subject of Some x \<Rightarrow> ''Re: '' @ x | None \<Rightarrow> ''Automatic reply'')),
                 vm_text_body = vr_text_body v, vm_html_body = vr_html_body v\<rparr>)"

definition generate_vacation_headers :: "(string \<times> string) list" where
  "generate_vacation_headers = [(''Auto-Submitted'', ''auto-replied''), (''Precedence'', ''bulk'')]"

definition extract_vacation_recipients :: "(string \<Rightarrow> string) \<Rightarrow> string \<Rightarrow> (string \<times> string) list \<Rightarrow> string list" where
  "extract_vacation_recipients lc sender headers =
     (if list_ex (\<lambda>(key, value).
             lc key = ''auto-submitted'' \<and> value \<noteq> ''no'' \<or>
             lc key = ''precedence'' \<and> value \<in> {''bulk'', ''list'', ''junk''} \<or>
             lc key = ''list-id'' \<or> lc key = ''list-post'') headers
      then []
      else if sender \<noteq> [] \<and> CHR ''@'' \<in> set sender then [sender] else [])"

section \<open>What is read back\<close>

lemma set_vacation_stored:
  assumes "set_vacation E account v s = (s', Inr ())"
  shows "\<exists>n. account_part s' (safe_id account) = Some (Some \<lparr>vs_vacation = v, vs_state = n\<rparr>)"
  using assms
  by (auto simp: set_vacation_def load_state_file_def save_state_file_def write_file_def account_part_def update_conv'
      split: prod.splits sum.splits option.splits if_splits)

lemma get_vacation_stored:
  assumes "account_part s (safe_id account) = Some (Some f)" "fe_read_error E (af_clock s) = None"
  shows "get_vacation E account s = (tick s, Inr (Some (vs_vacation f)))"
  using assms by (simp add: get_vacation_def load_state_file_def read_file_def account_part_def)

text \<open>The file of an account has its id with dots replaced by underscores, so that the accounts of two users can share
  a file: what one sets as the vacation response is what the other gets.\<close>

theorem vacation_accounts_collide:
  assumes "CHR ''.'' \<in> set user" "set_vacation E (derive_account_id user) v s = (s', Inr ())"
    and "fe_read_error E (af_clock s') = None"
  shows "\<exists>other. derive_account_id other \<noteq> derive_account_id user \<and>
     snd (get_vacation E (derive_account_id other) s') = Inr (Some v)"
proof (intro exI conjI)
  let ?other = "map (\<lambda>c. if c = CHR ''.'' then CHR ''_'' else c) user"
  have "CHR ''.'' \<in> set (derive_account_id user)" using assms(1) by (auto simp: derive_account_id_def intro!: image_eqI)
  moreover have "CHR ''.'' \<notin> set (derive_account_id ?other)" by (auto simp: derive_account_id_def)
  ultimately show "derive_account_id ?other \<noteq> derive_account_id user" by metis
  have "safe_id (derive_account_id ?other) = safe_id (derive_account_id user)"
    by (auto simp: safe_id_def derive_account_id_def)
  then show "snd (get_vacation E (derive_account_id ?other) s') = Inr (Some v)"
    using set_vacation_stored [OF assms(2)] get_vacation_stored [of s' "derive_account_id ?other" _ E] assms(3) by auto
qed

theorem vacation_accounts_collide_witness:
  "\<exists>other. derive_account_id other \<noteq> derive_account_id ''a.b'' \<and>
     snd (get_vacation (file_env.truncate demo_identity_env) (derive_account_id other)
       (fst (set_vacation (file_env.truncate demo_identity_env) (derive_account_id ''a.b'') default_vacation_response \<lparr>af_files = [], af_clock = 0\<rparr>))) =
     Inr (Some default_vacation_response)"
  by (rule vacation_accounts_collide [of _ _ _ "\<lparr>af_files = [], af_clock = 0\<rparr>"])
    (simp_all add: set_vacation_def load_state_file_def save_state_file_def read_file_def write_file_def file_env.defs demo_identity_env_def tick_def)

section \<open>Dates stay ordered\<close>

definition vacations_ok :: "vacation_files \<Rightarrow> bool" where
  "vacations_ok s \<longleftrightarrow> (\<forall>a f. account_part s a = Some (Some f) \<longrightarrow> dates_ordered (vs_vacation f))"

lemma vacation_reads_part [simp]:
  "account_part (fst (load_state_file E account s)) = account_part s"
  "account_part (fst (get_vacation E account s)) = account_part s"
  "account_part (fst (vacation_state_token E account s)) = account_part s"
  by (simp_all add: load_state_file_def get_vacation_def vacation_state_token_def case_prod_beta)

lemma set_vacation_ok:
  assumes "vacations_ok s" "dates_ordered v" "set_vacation E account v s = (s', r)"
  shows "vacations_ok s'"
proof -
  obtain s1 x where l: "load_state_file E account s = (s1, x)" by (cases "load_state_file E account s")
  then have "account_part s1 = account_part s" using vacation_reads_part(1) [of E account s] by simp
  then have s1: "vacations_ok s1" using assms(1) by (simp add: vacations_ok_def)
  have w: "vacations_ok (fst (write_file E key f t))" if "vacations_ok t" "dates_ordered (vs_vacation f)" for key f t
    using that by (auto simp: write_file_def vacations_ok_def account_part_def update_conv' tick_def split: option.split)
  show ?thesis
  proof (cases x)
    case (Inl e)
    with assms(3) l s1 show ?thesis by (simp add: set_vacation_def)
  next
    case (Inr f)
    with assms(3) l have "s' = fst (write_file E (safe_id account) \<lparr>vs_vacation = v, vs_state = min (state_of f + 1) (2 ^ 64 - 1)\<rparr> s1)"
      by (simp add: set_vacation_def save_state_file_def)
    with w [OF s1] assms(2) show ?thesis by simp
  qed
qed

lemma vacation_update_step_ok:
  assumes "vacations_ok (fst st)" "vacation_update_step E parse_date account st u = (s', r)"
  shows "vacations_ok s'"
proof -
  obtain s r0 i patch where p: "st = (s, r0)" "u = (i, patch)" by (cases st, cases u) auto
  have "vacations_ok s1" if "get_vacation E account s = (s1, x)" for s1 x
    using assms(1) vacation_reads_part(2) [of E account s] that by (simp add: p vacations_ok_def)
  with assms show ?thesis
    by (auto simp: p vacation_update_step_def Let_def split: if_splits prod.splits sum.splits intro: set_vacation_ok)
qed

lemma vacation_updates_ok:
  "vacations_ok (fst st) \<Longrightarrow> vacation_updates E parse_date account us st = (s', r) \<Longrightarrow> vacations_ok s'"
proof (induction us arbitrary: st)
  case (Cons u us)
  obtain s1 x where v: "vacation_update_step E parse_date account st u = (s1, x)"
    by (cases "vacation_update_step E parse_date account st u")
  with Cons vacation_update_step_ok [OF Cons.prems(1) v] show ?case by (cases x) auto
qed simp

text \<open>After any requests of any principals and under any failures, a vacation response that can be read back does not
  end before it begins.\<close>

theorem vacation_dates_ordered:
  assumes "s = fst (run (\<lambda>s (p, q). vacation_response_set E parse_date q p s) \<lparr>af_files = [], af_clock = 0\<rparr> calls)"
    and "get_vacation E account s = (s', Inr (Some v))"
  shows "dates_ordered v"
proof -
  have token: "vacations_ok t'" if "vacations_ok t" "vacation_state_token E a t = (t', x)" for a t t' x
    using that vacation_reads_part(3) [of E a t] by (simp add: vacations_ok_def)
  have step: "vacations_ok (fst (vacation_response_set E parse_date q p t))" if "vacations_ok t" for q p t
    using that unfolding vacation_response_set_def
    by (auto split: sum.split prod.split intro: token) (metis token vacation_updates_ok fst_conv)+
  have "vacations_ok (fst (run (\<lambda>s (p, q). vacation_response_set E parse_date q p s) t calls))" if "vacations_ok t" for t
    using that by (induction calls arbitrary: t) (auto simp: case_prod_beta step)
  from this [of "\<lparr>af_files = [], af_clock = 0\<rparr>"] have "vacations_ok s"
    by (simp add: assms(1) vacations_ok_def account_part_def)
  then show ?thesis
    using assms(2)
    by (auto simp: get_vacation_def load_state_file_def read_file_def vacations_ok_def account_part_def rbind_Inr_iff split: option.splits)
qed

end
