(* ===== verification/Forward_Mailet.thy ===== *)
theory Forward_Mailet
  imports Mailets
begin

text \<open>
  Model of the forwarding mailet, \<^verbatim>\<open>crates/rusmes-core/src/mailets/forward.rs\<close>: its rules and their
  configuration syntax, the two loop checks, the hop counter, the trace attributes and the
  service that adds the forward addresses to the recipients.  The host name that the operating
  system reports and the rendered time of a pass are arguments.  The theorems show that a mail
  that passes the mailet any number of times is forwarded to each address in one pass at most
  and in a bounded number of passes, and that this protection does not reach a mail that
  comes back from another server.
\<close>

section \<open>The mailet and its configuration\<close>

record forward_mailet =
  fw_forward_rules :: "(string \<times> mail_address list) list"
  fw_preserve_headers :: bool
  fw_max_hops :: nat
  fw_hostname :: string

definition MAX_FORWARDING_HOPS :: nat where
  "MAX_FORWARDING_HOPS = 10"

definition Forward_with_hostname :: "string \<Rightarrow> forward_mailet" where
  "Forward_with_hostname hostname =
     \<lparr>fw_forward_rules = [], fw_preserve_headers = True, fw_max_hops = MAX_FORWARDING_HOPS, fw_hostname = hostname\<rparr>"

definition Forward_new :: "string option \<Rightarrow> forward_mailet" where
  "Forward_new os_hostname =
     Forward_with_hostname (case os_hostname of None \<Rightarrow> ''localhost'' | Some h \<Rightarrow> h)"

definition add_rule :: "string \<Rightarrow> mail_address list \<Rightarrow> forward_mailet \<Rightarrow> forward_mailet" where
  "add_rule recipient forward_to ml =
     ml\<lparr>fw_forward_rules := AList.update recipient forward_to (fw_forward_rules ml)\<rparr>"

text \<open>Collecting results: the first error, or all the values.\<close>

fun collect_addresses :: "string list \<Rightarrow> mail_error + mail_address list" where
  "collect_addresses [] = Inr []"
| "collect_addresses (s # ss) =
     rbind (MailAddress_from_str (trim s)) (\<lambda>a. rbind (collect_addresses ss) (\<lambda>as. Inr (a # as)))"

definition parse_rule :: "string \<Rightarrow> forward_mailet \<Rightarrow> forward_mailet" where
  "parse_rule rule ml =
     (case split_on (CHR ''='') rule of
        [recipient, forwards] \<Rightarrow>
          (case collect_addresses (split_on (CHR '','') forwards) of
             Inr addrs \<Rightarrow> add_rule (trim recipient) addrs ml
           | Inl e \<Rightarrow> ml)
      | _ \<Rightarrow> ml)"

definition forward_init :: "mailet_config \<Rightarrow> forward_mailet \<Rightarrow> forward_mailet" where
  "forward_init config ml =
     (let ml1 = (case get_param config ''rules'' of
                   None \<Rightarrow> ml | Some rules \<Rightarrow> fold parse_rule (split_on (CHR '';'') rules) ml)
      in ml1\<lparr>fw_preserve_headers :=
               param_or parse_bool True (fw_preserve_headers ml1) (get_param config ''preserve_headers''),
             fw_max_hops :=
               param_or (parse_uint u32_max) MAX_FORWARDING_HOPS (fw_max_hops ml1) (get_param config ''max_hops''),
             fw_hostname :=
               (case get_param config ''hostname'' of None \<Rightarrow> fw_hostname ml1 | Some h \<Rightarrow> h)\<rparr>)"

section \<open>Loop checks and hop count\<close>

definition attr_str :: "mail \<Rightarrow> string \<Rightarrow> string option" where
  "attr_str m key = Option.bind (get_attribute m key) attr_as_str"

text \<open>The addresses of \<^verbatim>\<open>X-Forwarded-To\<close>, as both checks read them.\<close>

definition forwarding_chain :: "mail \<Rightarrow> string list" where
  "forwarding_chain m =
     (case attr_str m ''header.X-Forwarded-To'' of
        None \<Rightarrow> [] | Some addrs \<Rightarrow> map trim (split_on (CHR '','') addrs))"

definition check_forwarding_loop :: "mail \<Rightarrow> mail_address \<Rightarrow> bool" where
  "check_forwarding_loop m forward_to \<longleftrightarrow>
     list_ex (\<lambda>addr. addr = as_string forward_to) (forwarding_chain m) \<or>
     attr_str m ''header.X-Forwarded-From'' = Some (as_string forward_to)"

definition detect_circular_pattern :: "mail \<Rightarrow> mail_address \<Rightarrow> bool" where
  "detect_circular_pattern m forward_to \<longleftrightarrow>
     0 < length (filter (\<lambda>a. a = as_string forward_to) (forwarding_chain m))"

definition get_hop_count :: "mail \<Rightarrow> nat" where
  "get_hop_count m =
     (case attr_str m ''header.X-Forwarded-Count'' of
        None \<Rightarrow> 0
      | Some count_str \<Rightarrow> (case parse_uint u32_max count_str of None \<Rightarrow> 0 | Some n \<Rightarrow> n))"

section \<open>Trace attributes\<close>

definition set_if_none :: "string \<Rightarrow> string option \<Rightarrow> mail \<Rightarrow> mail" where
  "set_if_none key val m =
     (case (get_attribute m key, val) of
        (None, Some s) \<Rightarrow> set_attribute key (AString s) m
      | _ \<Rightarrow> m)"

definition append_attribute :: "string \<Rightarrow> string list \<Rightarrow> mail \<Rightarrow> mail" where
  "append_attribute key vals m =
     set_attribute key
       (AString (str_join '', '' ((case attr_str m key of None \<Rightarrow> [] | Some s \<Rightarrow> [s]) @ vals))) m"

definition add_forwarding_headers :: "string \<Rightarrow> forward_mailet \<Rightarrow> mail_address list \<Rightarrow> mail \<Rightarrow> mail" where
  "add_forwarding_headers now ml forward_to m =
     (let hop_count = get_hop_count m + 1;
          sender = map_option as_string (m_sender m);
          m1 = set_attribute ''header.X-Forwarded-Count'' (AString (show_nat hop_count)) m;
          m2 = set_if_none ''header.X-Forwarded-From'' sender m1;
          m3 = set_if_none ''header.X-Forwarded-Date'' (Some now) m2;
          m4 = append_attribute ''header.X-Forwarded-By'' [fw_hostname ml] m3;
          m5 = append_attribute ''header.X-Forwarded-To'' (map as_string forward_to) m4
      in set_if_none ''header.X-Forwarded-For'' sender m5)"

section \<open>Service\<close>

definition forward_ok :: "mail \<Rightarrow> mail_address \<Rightarrow> bool" where
  "forward_ok m a \<longleftrightarrow> \<not> check_forwarding_loop m a \<and> \<not> detect_circular_pattern m a"

definition rule_targets :: "forward_mailet \<Rightarrow> string \<Rightarrow> mail_address list" where
  "rule_targets ml key = (case map_of (fw_forward_rules ml) key of None \<Rightarrow> [] | Some addrs \<Rightarrow> addrs)"

definition recipient_targets :: "forward_mailet \<Rightarrow> mail_address \<Rightarrow> mail_address list" where
  "recipient_targets ml r =
     rule_targets ml (as_string r) @ rule_targets ml (''*@'' @ domain_str (addr_domain r))"

definition forwards_to_add :: "forward_mailet \<Rightarrow> mail \<Rightarrow> mail_address list" where
  "forwards_to_add ml m = concat (map (\<lambda>r. filter (forward_ok m) (recipient_targets ml r)) (m_recipients m))"

definition forward_service :: "string \<Rightarrow> forward_mailet \<Rightarrow> 'w service" where
  "forward_service now ml m w =
     (if get_hop_count m \<ge> fw_max_hops ml then ((m, w), Inr Continue)
      else
        (let forwards = forwards_to_add ml m in
         if forwards = [] then ((m, w), Inr Continue)
         else
           (let m' = add_forwarding_headers now ml forwards m in
            ((set_recipients (m_recipients m' @ forwards) m', w), Inr Continue))))"

definition Forward :: "string \<Rightarrow> forward_mailet \<Rightarrow> 'w mailet" where
  "Forward now ml = immediate ''Forward'' (forward_service now ml)"

section \<open>The forwarding chain\<close>

text \<open>Addresses that the comma-separated attribute keeps apart: what the configuration yields.\<close>

definition listable :: "mail_address \<Rightarrow> bool" where
  "listable a \<longleftrightarrow>
     (let s = as_string a in CHR '','' \<notin> set s \<and> is_graphic (hd s) \<and> is_graphic (last s))"

definition listable_rules :: "forward_mailet \<Rightarrow> bool" where
  "listable_rules ml \<longleftrightarrow> (\<forall>key a. a \<in> set (rule_targets ml key) \<longrightarrow> listable a)"

lemma as_string_not_Nil [simp]: "as_string a \<noteq> []"
  by (simp add: as_string_def)

lemma listable_trim: "listable a \<Longrightarrow> trim (as_string a) = as_string a"
  by (simp add: listable_def Let_def trim_graphic)

lemma split_joined:
  "list_all listable as \<Longrightarrow>
     map trim (split_on (CHR '','') (s @ concat (map (\<lambda>q. '', '' @ q) (map as_string as)))) =
     map trim (split_on (CHR '','') s) @ map as_string as"
proof (induction as arbitrary: s)
  case (Cons a as)
  then have a: "listable a" by simp
  then have one: "split_on (CHR '','') (CHR '' '' # as_string a) = [CHR '' '' # as_string a]"
    by (intro split_on_no_sep) (auto simp: listable_def Let_def)
  have "split_on (CHR '','') (s @ '', '' @ as_string a) = split_on (CHR '','') s @ [CHR '' '' # as_string a]"
    using split_on_concat [of "CHR '',''" s "CHR '' '' # as_string a"] one by simp
  with Cons.IH [of "s @ '', '' @ as_string a"] Cons.prems show ?case
    by (simp add: trim_space listable_trim)
qed simp

lemma attr_str_set: "attr_str (set_attribute k v m) k' = (if k' = k then attr_as_str v else attr_str m k')"
  by (simp add: attr_str_def get_set_attribute)

lemma attr_str_set_if_none: "k' \<noteq> k \<Longrightarrow> attr_str (set_if_none k v m) k' = attr_str m k'"
  by (simp add: set_if_none_def attr_str_set split: option.split)

lemma attr_str_append_other: "k' \<noteq> k \<Longrightarrow> attr_str (append_attribute k vs m) k' = attr_str m k'"
  by (simp add: append_attribute_def attr_str_set)

lemma attr_str_append_same:
  "attr_str (append_attribute k vs m) k = Some (str_join '', '' ((case attr_str m k of None \<Rightarrow> [] | Some s \<Rightarrow> [s]) @ vs))"
  by (simp add: append_attribute_def attr_str_set)

lemmas trace_attrs = attr_str_set attr_str_set_if_none attr_str_append_other attr_str_append_same

lemma trace_fields [simp]:
  "m_recipients (set_if_none k v m) = m_recipients m" "m_recipients (append_attribute k vs m) = m_recipients m"
  "m_sender (set_if_none k v m) = m_sender m" "m_sender (append_attribute k vs m) = m_sender m"
  "m_sender (set_attribute k w m) = m_sender m"
  by (simp_all add: set_if_none_def append_attribute_def set_attribute_def split: option.split)

lemma recipients_add_forwarding [simp]: "m_recipients (add_forwarding_headers now ml as m) = m_recipients m"
  by (simp add: add_forwarding_headers_def Let_def)

lemma chain_add_forwarding:
  assumes "list_all listable as" "as \<noteq> []"
  shows "forwarding_chain (add_forwarding_headers now ml as m) = forwarding_chain m @ map as_string as"
proof -
  have "attr_str (add_forwarding_headers now ml as m) ''header.X-Forwarded-To'' =
      Some (str_join '', '' ((case attr_str m ''header.X-Forwarded-To'' of None \<Rightarrow> [] | Some s \<Rightarrow> [s]) @ map as_string as))"
    by (simp add: add_forwarding_headers_def Let_def trace_attrs)
  moreover obtain a as' where as: "as = a # as'" using assms(2) by (cases as) auto
  moreover have "map trim (split_on (CHR '','') (as_string a)) = [as_string a]"
    using assms(1) as by (simp add: listable_trim split_on_no_sep listable_def Let_def)
  ultimately show ?thesis
    using assms(1) split_joined [of as' "as_string a"] split_joined [of as "the (attr_str m ''header.X-Forwarded-To'')"]
    by (cases "attr_str m ''header.X-Forwarded-To''") (simp_all add: forwarding_chain_def str_join_def o_def)
qed

lemma hop_add_forwarding:
  "get_hop_count m < u32_max \<Longrightarrow> get_hop_count (add_forwarding_headers now ml as m) = get_hop_count m + 1"
proof -
  assume "get_hop_count m < u32_max"
  moreover have "attr_str (add_forwarding_headers now ml as m) ''header.X-Forwarded-Count'' = Some (show_nat (get_hop_count m + 1))"
    by (simp add: add_forwarding_headers_def Let_def trace_attrs)
  ultimately show ?thesis
    by (simp add: get_hop_count_def [of "add_forwarding_headers now ml as m"] parse_uint_show_nat)
qed

lemma forwarding_attributes_only:
  "get_hop_count (m\<lparr>m_recipients := rs\<rparr>) = get_hop_count m"
  "forwarding_chain (m\<lparr>m_recipients := rs\<rparr>) = forwarding_chain m"
  by (simp_all add: get_hop_count_def forwarding_chain_def attr_str_def get_attribute_def)


section \<open>What the configuration yields\<close>

lemma wf_address_last: "wf_address a \<Longrightarrow> is_graphic (last (as_string a))"
proof -
  assume "wf_address a"
  then have "domain_str (addr_domain a) \<noteq> []" "list_all domain_char (domain_str (addr_domain a))"
    by (auto simp: wf_address_def wf_domain_def Let_def)
  then have "domain_char (last (as_string a))"
    by (auto simp: as_string_def list_all_iff)
  then show ?thesis
    by (auto simp: domain_char_def byte_simps)
qed

lemma trimmed_no_space: "trim s \<noteq> [] \<Longrightarrow> hd (trim s) \<noteq> CHR '' ''"
proof
  assume s: "trim s \<noteq> []" "hd (trim s) = CHR '' ''"
  obtain r where "trim_start s = trim s @ r" using trim_start_trim by blast
  with s have "starts_with (trim_start s) '' ''"
    by (cases "trim s") (auto simp: starts_with_iff)
  moreover have "'' '' \<in> set ws_seqs" by (simp add: ws_seqs_def)
  ultimately show False
    using strip_words_done [of "'' ''" ws_seqs s] by (simp add: trim_start_def)
qed

lemma parsed_local_part: "MailAddress_from_str s = Inr a \<Longrightarrow> \<exists>r. s = local_part a @ CHR ''@'' # r"
proof -
  assume s: "MailAddress_from_str s = Inr a"
  then obtain i d where i: "rfind (CHR ''@'') s = Some i" "Domain_new (drop (i + 1) s) = Inr d"
      "MailAddress_new (take i s) d = Inr a"
    by (auto simp: MailAddress_from_str_eq split: option.splits sum.splits)
  then have "local_part a = take i s" by (auto simp: MailAddress_new_iff)
  with rfind_split [OF i(1)] show ?thesis by metis
qed

lemma parsed_listable:
  assumes "MailAddress_from_str (trim s) = Inr a" "CHR '','' \<notin> set s"
  shows "listable a"
proof -
  have wf: "wf_address a" using assms(1) by (rule MailAddress_from_str_wf)
  obtain r where r: "trim s = local_part a @ CHR ''@'' # r" using parsed_local_part [OF assms(1)] by blast
  have l: "local_part a \<noteq> []" "\<And>c. c \<in> set (local_part a) \<Longrightarrow> 32 \<le> code_of c \<and> code_of c < 127"
    using wf by (auto simp: wf_address_def wf_local_ascii_def list_all_iff)
  have "hd (local_part a) \<noteq> CHR '' ''" using trimmed_no_space [of s] r l(1) by (cases "local_part a") auto
  then have "code_of (hd (local_part a)) \<noteq> (32::nat)"
    using of_char_eq_iff [where ?'a = nat, of "hd (local_part a)" "CHR '' ''"] by simp
  with l(1) l(2) [of "hd (local_part a)"] have "is_graphic (hd (as_string a))"
    by (auto simp: is_graphic_def as_string_def hd_append)
  moreover have "CHR '','' \<notin> set (local_part a)"
    using assms(2) set_trim [of s] r by auto
  moreover have "CHR '','' \<notin> set (domain_str (addr_domain a))"
    using wf by (auto simp: wf_address_def wf_domain_def Let_def list_all_iff domain_char_def byte_simps)
  ultimately show ?thesis
    using wf_address_last [OF wf] by (auto simp: listable_def Let_def as_string_def)
qed

lemma split_pieces_no_sep: "p \<in> set (split_on d s) \<Longrightarrow> d \<notin> set p"
  by (induction s arbitrary: p) (auto split: if_splits list.splits)

lemma collected_listable:
  "collect_addresses ss = Inr as \<Longrightarrow> (\<And>s. s \<in> set ss \<Longrightarrow> CHR '','' \<notin> set s) \<Longrightarrow> list_all listable as"
  by (induction ss arbitrary: as) (auto simp: rbind_def split: sum.splits intro!: parsed_listable)

lemma rule_targets_add_rule: "rule_targets (add_rule r as ml) key = (if key = r then as else rule_targets ml key)"
  by (simp add: rule_targets_def add_rule_def update_conv')

lemma parse_rule_listable: "listable_rules ml \<Longrightarrow> listable_rules (parse_rule rule ml)"
proof (cases "\<exists>r f as. split_on (CHR ''='') rule = [r, f] \<and> collect_addresses (split_on (CHR '','') f) = Inr as")
  case True
  assume ml: "listable_rules ml"
  from True obtain r f as where r: "split_on (CHR ''='') rule = [r, f]" "collect_addresses (split_on (CHR '','') f) = Inr as"
    by blast
  have "list_all listable as" by (rule collected_listable [OF r(2) split_pieces_no_sep])
  with ml r show ?thesis
    by (auto simp: parse_rule_def listable_rules_def rule_targets_add_rule list_all_iff)
qed (auto simp: parse_rule_def split: list.splits sum.splits)

lemma init_listable: "listable_rules (forward_init config (Forward_new os))"
proof -
  have new: "listable_rules (Forward_new os)"
    by (simp add: listable_rules_def rule_targets_def Forward_new_def Forward_with_hostname_def)
  have "listable_rules (fold parse_rule rs ml)" if "listable_rules ml" for rs ml
    using that by (induction rs arbitrary: ml) (simp_all add: parse_rule_listable)
  with new have "listable_rules (case get_param config ''rules'' of None \<Rightarrow> Forward_new os
      | Some rules \<Rightarrow> fold parse_rule (split_on (CHR '';'') rules) (Forward_new os))"
    by (simp split: option.split)
  then show ?thesis
    by (simp add: forward_init_def Let_def listable_rules_def rule_targets_def)
qed

lemma init_max_hops: "fw_max_hops (forward_init config (Forward_new os)) \<le> u32_max"
proof -
  have "fw_max_hops (parse_rule r ml) = fw_max_hops ml" for r ml
    by (simp add: parse_rule_def add_rule_def split: list.split sum.split)
  then have "fw_max_hops (fold parse_rule rs ml) = fw_max_hops ml" for rs ml
    by (induction rs arbitrary: ml) simp_all
  then show ?thesis
    by (auto simp: forward_init_def Let_def param_or_def Forward_new_def Forward_with_hostname_def MAX_FORWARDING_HOPS_def
        u32_max_def split: option.splits dest: parse_uint_bound)
qed


section \<open>Passes of a mail\<close>

text \<open>One pass of a mail through the mailet, with the addresses it adds.\<close>

definition forward_pass :: "forward_mailet \<Rightarrow> mail \<Rightarrow> string \<Rightarrow> mail \<times> mail_address list" where
  "forward_pass ml m now =
     (let m' = fst (fst (forward_service now ml m ())) in (m', drop (length (m_recipients m)) (m_recipients m')))"

lemma forward_pass_cases:
  assumes "listable_rules ml" "fw_max_hops ml \<le> u32_max" "forward_pass ml m now = (m', as)"
  shows "as = [] \<and> m' = m \<or>
    as \<noteq> [] \<and> get_hop_count m < fw_max_hops ml \<and> get_hop_count m' = get_hop_count m + 1 \<and>
    m_recipients m' = m_recipients m @ as \<and> forwarding_chain m' = forwarding_chain m @ map as_string as \<and>
    (\<forall>a \<in> set as. as_string a \<notin> set (forwarding_chain m))"
proof (cases "get_hop_count m \<ge> fw_max_hops ml \<or> forwards_to_add ml m = []")
  case True
  with assms(3) show ?thesis by (auto simp: forward_pass_def forward_service_def Let_def)
next
  case False
  define fs where "fs = forwards_to_add ml m"
  with False assms(3) have m': "as = fs" "m' = set_recipients (m_recipients m @ fs) (add_forwarding_headers now ml fs m)"
    by (auto simp: forward_pass_def forward_service_def Let_def set_recipients_def)
  have fresh: "as_string a \<notin> set (forwarding_chain m)" if "a \<in> set fs" for a
    using that by (auto simp: fs_def forwards_to_add_def forward_ok_def check_forwarding_loop_def list_ex_iff)
  have "list_all listable fs"
    using assms(1) by (auto simp: fs_def forwards_to_add_def recipient_targets_def listable_rules_def list_all_iff)
  with False fresh m' assms(2) show ?thesis
    by (simp add: forwarding_attributes_only chain_add_forwarding hop_add_forwarding fs_def set_recipients_def)
qed

lemma forward_run:
  assumes "listable_rules ml" "fw_max_hops ml \<le> u32_max" "run (forward_pass ml) m nows = (m', added)"
  shows "m_recipients m' = m_recipients m @ concat added"
    and "length (filter (\<lambda>as. as \<noteq> []) added) \<le> fw_max_hops ml - get_hop_count m"
    and "\<forall>as \<in> set added. \<forall>a \<in> set as. as_string a \<notin> set (forwarding_chain m)"
    and "sorted_wrt (\<lambda>as bs. set as \<inter> set bs = {}) added"
proof -
  have "m_recipients m' = m_recipients m @ concat added \<and>
    length (filter (\<lambda>as. as \<noteq> []) added) \<le> fw_max_hops ml - get_hop_count m \<and>
    (\<forall>as \<in> set added. \<forall>a \<in> set as. as_string a \<notin> set (forwarding_chain m)) \<and>
    sorted_wrt (\<lambda>as bs. set as \<inter> set bs = {}) added"
    using assms(3)
  proof (induction nows arbitrary: m m' added)
    case Nil
    then show ?case by auto
  next
    case (Cons now nows)
    obtain m1 as where p: "forward_pass ml m now = (m1, as)" by (cases "forward_pass ml m now")
    obtain rest where r: "run (forward_pass ml) m1 nows = (m', rest)" "added = as # rest"
      using Cons.prems p by (auto split: prod.splits)
    note ih = Cons.IH [OF r(1)]
    from forward_pass_cases [OF assms(1,2) p] show ?case
    proof (elim disjE conjE)
      assume "as = []" "m1 = m"
      with ih r show ?thesis by auto
    next
      assume "as \<noteq> []" "get_hop_count m < fw_max_hops ml" "get_hop_count m1 = get_hop_count m + 1"
        "m_recipients m1 = m_recipients m @ as" and ch: "forwarding_chain m1 = forwarding_chain m @ map as_string as"
        and fresh: "\<forall>a \<in> set as. as_string a \<notin> set (forwarding_chain m)"
      moreover have "\<forall>bs \<in> set rest. set as \<inter> set bs = {}" using ih ch by auto
      ultimately show ?thesis using ih r by auto
    qed
  qed
  then show "m_recipients m' = m_recipients m @ concat added"
    "length (filter (\<lambda>as. as \<noteq> []) added) \<le> fw_max_hops ml - get_hop_count m"
    "\<forall>as \<in> set added. \<forall>a \<in> set as. as_string a \<notin> set (forwarding_chain m)"
    "sorted_wrt (\<lambda>as bs. set as \<inter> set bs = {}) added"
    by simp_all
qed


section \<open>Properties\<close>

text \<open>C27: Forwarding is loop free within the server: however often a mail passes the mailet, whatever its
  configuration, the recipients only grow by the addresses each pass adds; an address that one pass adds is
  never added by a later pass, nor is one that was already in the chain; and the passes that add anything
  are at most the hops that are left.\<close>

theorem forwarding_loop_free:
  assumes "ml = forward_init config (Forward_new os)" "run (forward_pass ml) m nows = (m', added)"
  shows "m_recipients m' = m_recipients m @ concat added \<and>
    sorted_wrt (\<lambda>as bs. set as \<inter> set bs = {}) added \<and>
    (\<forall>as \<in> set added. \<forall>a \<in> set as. as_string a \<notin> set (forwarding_chain m)) \<and>
    length (filter (\<lambda>as. as \<noteq> []) added) \<le> fw_max_hops ml - get_hop_count m"
  using forward_run [OF _ _ assms(2)] init_listable [of config os] init_max_hops [of config os] assms(1) by simp

definition demo_forward_config :: mailet_config where
  "demo_forward_config = with_param ''rules'' ''a@x.org=b@x.org;b@x.org= a@x.org , c@x.org'' (MailetConfig_new ''Forward'')"

theorem forwarding_loop_free_witness:
  "let ml = forward_init demo_forward_config (Forward_new None);
       (m', added) = run (forward_pass ml) (demo_mail [''a'']) [''d1'', ''d2'', ''d3'', ''d4''] in
     map (map local_part) added = [[''b''], [''a'', ''c''], [], []] \<and>
     map local_part (m_recipients m') = [''a'', ''b'', ''a'', ''c''] \<and>
     sorted_wrt (\<lambda>as bs. set as \<inter> set bs = {}) added"
proof -
  have "map (map local_part) (snd (run (forward_pass (forward_init demo_forward_config (Forward_new None)))
      (demo_mail [''a'']) [''d1'', ''d2'', ''d3'', ''d4''])) = [[''b''], [''a'', ''c''], [], []]"
    "map local_part (m_recipients (fst (run (forward_pass (forward_init demo_forward_config (Forward_new None)))
      (demo_mail [''a'']) [''d1'', ''d2'', ''d3'', ''d4'']))) = [''a'', ''b'', ''a'', ''c'']"
    by code_simp+
  moreover have "sorted_wrt (\<lambda>as bs. set as \<inter> set bs = {}) (snd (run (forward_pass (forward_init demo_forward_config (Forward_new None)))
      (demo_mail [''a'']) [''d1'', ''d2'', ''d3'', ''d4'']))"
    using forwarding_loop_free [OF refl surjective_pairing, of demo_forward_config None "demo_mail [''a'']"] by blast
  ultimately show ?thesis by (simp add: Let_def case_prod_beta)
qed

text \<open>The checks read attributes of the mail, never headers of its message, and a received mail starts
  without attributes.  So a mail that another server sends back is forwarded to every address of its
  rules again, whatever \<^verbatim>\<open>X-Forwarded-\<close> headers its message has.\<close>

theorem forwarding_loop_between_servers:
  assumes "m = Mail_new i j sender recipients message addr host" "0 < fw_max_hops ml"
  shows "m_recipients (fst (fst (forward_service now ml m w))) = recipients @ concat (map (recipient_targets ml) recipients)"
proof -
  have none: "attr_str m key = None" for key
    using assms(1) by (simp add: attr_str_def get_attribute_def Mail_new_def)
  then have "forward_ok m a" for a
    by (simp add: forward_ok_def check_forwarding_loop_def detect_circular_pattern_def forwarding_chain_def)
  then have "forwards_to_add ml m = concat (map (recipient_targets ml) recipients)"
    using assms(1) by (simp add: forwards_to_add_def Mail_new_def)
  with none assms show ?thesis
    by (simp add: forward_service_def Let_def get_hop_count_def set_recipients_def Mail_new_def)
qed

theorem forwarding_loop_between_servers_witness:
  "let trace = [(''x-forwarded-to'', [''b@x.org'']), (''x-forwarded-count'', [''99''])];
       m = Mail_new (MailId 1) (MessageId 2) None [demo_address ''a''] \<lparr>mm_headers = trace, mm_body = Small ''hi''\<rparr> None None;
       ml = forward_init demo_forward_config (Forward_new None) in
     map local_part (m_recipients (fst (fst (forward_service ''d'' ml m ())))) = [''a'', ''b'']"
proof -
  let ?ml = "forward_init demo_forward_config (Forward_new None)"
  have "0 < fw_max_hops ?ml" "map local_part (recipient_targets ?ml (demo_address ''a'')) = [''b'']"
    by code_simp+
  then show ?thesis
    using forwarding_loop_between_servers [OF refl, of ?ml _ "MailId 1" "MessageId 2" None "[demo_address ''a'']"
      "\<lparr>mm_headers = [(''x-forwarded-to'', [''b@x.org'']), (''x-forwarded-count'', [''99''])], mm_body = Small ''hi''\<rparr>" None None "()"]
    by (simp add: demo_address_def)
qed

end
