(* ===== verification/Bounce_Dsn.thy ===== *)
theory Bounce_Dsn
  imports Relay_Client
begin

text \<open>
  Model of the status codes of \<^verbatim>\<open>crates/rusmes-core/src/dsn.rs\<close> and of the bounce mailet,
  \<^verbatim>\<open>crates/rusmes-core/src/mailets/bounce.rs\<close>: enhanced codes and their text form, failure reasons, the
  tables from SMTP codes, the delivery status notification and the multipart report the mailet stores in
  the mail.  The report is written as the list of the lines the code pushes; \<open>unlines\<close> joins them.  The
  clock, the date format of the crate \<^verbatim>\<open>chrono\<close> and the text of an identifier are arguments.
\<close>

section \<open>Enhanced status codes\<close>

record enhanced_status_code =
  sc_class :: "8 word"
  sc_subject :: "8 word"
  sc_detail :: "8 word"

definition EnhancedStatusCode_new :: "8 word \<Rightarrow> 8 word \<Rightarrow> 8 word \<Rightarrow> enhanced_status_code" where
  "EnhancedStatusCode_new c s d = \<lparr>sc_class = c, sc_subject = s, sc_detail = d\<rparr>"

definition parse_u8 :: "string \<Rightarrow> 8 word option" where
  "parse_u8 s = map_option word_of_nat (parse_uint 255 s)"

definition status_code_parse :: "string \<Rightarrow> enhanced_status_code option" where
  "status_code_parse s =
     (case split_on (CHR ''.'') s of
        [a, b, c] \<Rightarrow>
          Option.bind (parse_u8 a) (\<lambda>class.
          Option.bind (parse_u8 b) (\<lambda>subject.
          Option.bind (parse_u8 c) (\<lambda>detail. Some (EnhancedStatusCode_new class subject detail))))
      | _ \<Rightarrow> None)"

definition code_is_success :: "enhanced_status_code \<Rightarrow> bool" where
  "code_is_success c \<longleftrightarrow> sc_class c = 2"

definition code_is_transient :: "enhanced_status_code \<Rightarrow> bool" where
  "code_is_transient c \<longleftrightarrow> sc_class c = 4"

definition code_is_permanent :: "enhanced_status_code \<Rightarrow> bool" where
  "code_is_permanent c \<longleftrightarrow> sc_class c = 5"

definition status_code_display :: "enhanced_status_code \<Rightarrow> string" where
  "status_code_display c =
     show_nat (unat (sc_class c)) @ ''.'' @ show_nat (unat (sc_subject c)) @ ''.'' @ show_nat (unat (sc_detail c))"

definition SUCCESS :: enhanced_status_code where
  "SUCCESS = EnhancedStatusCode_new 2 0 0"

definition BAD_DESTINATION_MAILBOX :: enhanced_status_code where
  "BAD_DESTINATION_MAILBOX = EnhancedStatusCode_new 5 1 1"

definition BAD_DESTINATION_SYNTAX :: enhanced_status_code where
  "BAD_DESTINATION_SYNTAX = EnhancedStatusCode_new 5 1 3"

definition DESTINATION_VALID :: enhanced_status_code where
  "DESTINATION_VALID = EnhancedStatusCode_new 2 1 5"

definition MAILBOX_MOVED :: enhanced_status_code where
  "MAILBOX_MOVED = EnhancedStatusCode_new 5 1 6"

definition MAILBOX_DISABLED :: enhanced_status_code where
  "MAILBOX_DISABLED = EnhancedStatusCode_new 5 2 1"

definition MAILBOX_FULL :: enhanced_status_code where
  "MAILBOX_FULL = EnhancedStatusCode_new 5 2 2"

definition MAILBOX_FULL_TEMP :: enhanced_status_code where
  "MAILBOX_FULL_TEMP = EnhancedStatusCode_new 4 2 2"

definition MESSAGE_TOO_LARGE :: enhanced_status_code where
  "MESSAGE_TOO_LARGE = EnhancedStatusCode_new 5 2 3"

definition SYSTEM_NOT_ACCEPTING :: enhanced_status_code where
  "SYSTEM_NOT_ACCEPTING = EnhancedStatusCode_new 4 3 2"

definition NO_ANSWER :: enhanced_status_code where
  "NO_ANSWER = EnhancedStatusCode_new 4 4 1"

definition CONNECTION_DROPPED :: enhanced_status_code where
  "CONNECTION_DROPPED = EnhancedStatusCode_new 4 4 2"

definition INVALID_COMMAND :: enhanced_status_code where
  "INVALID_COMMAND = EnhancedStatusCode_new 5 5 1"

definition SYNTAX_ERROR :: enhanced_status_code where
  "SYNTAX_ERROR = EnhancedStatusCode_new 5 5 2"

definition INVALID_PARAMETERS :: enhanced_status_code where
  "INVALID_PARAMETERS = EnhancedStatusCode_new 5 5 4"

definition DELIVERY_NOT_AUTHORIZED :: enhanced_status_code where
  "DELIVERY_NOT_AUTHORIZED = EnhancedStatusCode_new 5 7 1"

definition MESSAGE_REFUSED :: enhanced_status_code where
  "MESSAGE_REFUSED = EnhancedStatusCode_new 5 7 13"

section \<open>Failure reasons and SMTP codes\<close>

datatype failure_reason =
    UserUnknown | QuotaExceeded | MessageTooLarge | ContentRejected | RelayDenied | TemporaryFailureF
  | NetworkUnreachable | ConnectionTimeout | InvalidAddressF | MailboxDisabled | SystemNotAccepting
  | AuthenticationRequired | SpamDetected | VirusDetected | OtherF

fun failure_code :: "failure_reason \<Rightarrow> enhanced_status_code" where
  "failure_code UserUnknown = BAD_DESTINATION_MAILBOX"
| "failure_code QuotaExceeded = MAILBOX_FULL"
| "failure_code MessageTooLarge = MESSAGE_TOO_LARGE"
| "failure_code ContentRejected = MESSAGE_REFUSED"
| "failure_code RelayDenied = DELIVERY_NOT_AUTHORIZED"
| "failure_code TemporaryFailureF = EnhancedStatusCode_new 4 0 0"
| "failure_code NetworkUnreachable = NO_ANSWER"
| "failure_code ConnectionTimeout = CONNECTION_DROPPED"
| "failure_code InvalidAddressF = BAD_DESTINATION_SYNTAX"
| "failure_code MailboxDisabled = MAILBOX_DISABLED"
| "failure_code SystemNotAccepting = SYSTEM_NOT_ACCEPTING"
| "failure_code AuthenticationRequired = DELIVERY_NOT_AUTHORIZED"
| "failure_code SpamDetected = MESSAGE_REFUSED"
| "failure_code VirusDetected = MESSAGE_REFUSED"
| "failure_code OtherF = EnhancedStatusCode_new 5 0 0"

fun failure_description :: "failure_reason \<Rightarrow> string" where
  "failure_description UserUnknown = ''The recipient'' @ [CHR 0x27] @ ''s email address does not exist''"
| "failure_description QuotaExceeded = ''The recipient'' @ [CHR 0x27] @ ''s mailbox is full''"
| "failure_description MessageTooLarge = ''The message is too large to be delivered''"
| "failure_description ContentRejected = ''The message content was rejected by policy''"
| "failure_description RelayDenied = ''Relay access denied''"
| "failure_description TemporaryFailureF = ''Temporary failure, will retry delivery''"
| "failure_description NetworkUnreachable = ''The destination mail server could not be reached''"
| "failure_description ConnectionTimeout = ''Connection to the mail server timed out''"
| "failure_description InvalidAddressF = ''The recipient'' @ [CHR 0x27] @ ''s email address is invalid''"
| "failure_description MailboxDisabled = ''The recipient'' @ [CHR 0x27] @ ''s mailbox is disabled''"
| "failure_description SystemNotAccepting = ''The mail system is not accepting messages''"
| "failure_description AuthenticationRequired = ''Authentication is required for this delivery''"
| "failure_description SpamDetected = ''The message was identified as spam''"
| "failure_description VirusDetected = ''The message contains a virus''"
| "failure_description OtherF = ''An unknown error occurred''"

definition from_smtp_code :: "nat \<Rightarrow> failure_reason" where
  "from_smtp_code c =
     (if c = 421 then ConnectionTimeout
      else if c = 450 then TemporaryFailureF
      else if c = 451 then TemporaryFailureF
      else if c = 452 then QuotaExceeded
      else if c = 550 then UserUnknown
      else if c = 551 then RelayDenied
      else if c = 552 then QuotaExceeded
      else if c = 553 then InvalidAddressF
      else if c = 554 then ContentRejected
      else if 400 \<le> c \<and> c < 500 then TemporaryFailureF
      else OtherF)"

definition smtp_to_enhanced_code :: "nat \<Rightarrow> enhanced_status_code" where
  "smtp_to_enhanced_code c =
     (if c = 250 then SUCCESS
      else if c = 251 then DESTINATION_VALID
      else if c = 421 then CONNECTION_DROPPED
      else if c = 450 then EnhancedStatusCode_new 4 2 1
      else if c = 451 then EnhancedStatusCode_new 4 3 0
      else if c = 452 then MAILBOX_FULL_TEMP
      else if c = 454 then EnhancedStatusCode_new 4 7 0
      else if c = 500 then SYNTAX_ERROR
      else if c = 501 then INVALID_PARAMETERS
      else if c = 502 then INVALID_COMMAND
      else if c = 503 then INVALID_COMMAND
      else if c = 504 then INVALID_PARAMETERS
      else if c = 550 then BAD_DESTINATION_MAILBOX
      else if c = 551 then MAILBOX_MOVED
      else if c = 552 then MAILBOX_FULL
      else if c = 553 then BAD_DESTINATION_SYNTAX
      else if c = 554 then DELIVERY_NOT_AUTHORIZED
      else if 200 \<le> c \<and> c < 300 then SUCCESS
      else if 400 \<le> c \<and> c < 500 then EnhancedStatusCode_new 4 0 0
      else if 500 \<le> c \<and> c < 600 then EnhancedStatusCode_new 5 0 0
      else EnhancedStatusCode_new 5 0 0)"

definition smtp_diagnostic_text :: "nat \<Rightarrow> string" where
  "smtp_diagnostic_text c =
     (if c = 421 then ''Service not available, closing transmission channel''
      else if c = 450 then ''Requested mail action not taken: mailbox unavailable''
      else if c = 451 then ''Requested action aborted: local error in processing''
      else if c = 452 then ''Requested action not taken: insufficient system storage''
      else if c = 454 then ''Temporary authentication failure''
      else if c = 500 then ''Syntax error, command unrecognized''
      else if c = 501 then ''Syntax error in parameters or arguments''
      else if c = 502 then ''Command not implemented''
      else if c = 503 then ''Bad sequence of commands''
      else if c = 504 then ''Command parameter not implemented''
      else if c = 550 then ''Requested action not taken: mailbox unavailable''
      else if c = 551 then ''User not local; please try forward path''
      else if c = 552 then ''Requested mail action aborted: exceeded storage allocation''
      else if c = 553 then ''Requested action not taken: mailbox name not allowed''
      else if c = 554 then ''Transaction failed''
      else ''Unknown error'')"

fun failure_is_permanent :: "failure_reason \<Rightarrow> bool" where
  "failure_is_permanent r \<longleftrightarrow>
     r \<in> {UserUnknown, QuotaExceeded, MessageTooLarge, ContentRejected, RelayDenied, InvalidAddressF,
          MailboxDisabled, SpamDetected, VirusDetected}"

datatype smtp_status_code = TemporaryFailure nat | PermanentFailure nat

definition from_code :: "nat \<Rightarrow> smtp_status_code option" where
  "from_code c =
     (if 400 \<le> c \<and> c \<le> 499 then Some (TemporaryFailure c)
      else if 500 \<le> c \<and> c \<le> 599 then Some (PermanentFailure c) else None)"

fun status_code :: "smtp_status_code \<Rightarrow> nat" where
  "status_code (TemporaryFailure c) = c"
| "status_code (PermanentFailure c) = c"

fun status_is_permanent :: "smtp_status_code \<Rightarrow> bool" where
  "status_is_permanent (PermanentFailure _) = True"
| "status_is_permanent (TemporaryFailure _) = False"

definition status_enhanced_code :: "smtp_status_code \<Rightarrow> string" where
  "status_enhanced_code sc = status_code_display (smtp_to_enhanced_code (status_code sc))"

definition diagnostic_text :: "smtp_status_code \<Rightarrow> string" where
  "diagnostic_text sc = smtp_diagnostic_text (status_code sc)"

section \<open>Delivery status notifications\<close>

datatype dsn_action = Failed | Delayed | Delivered | Relayed | Expanded

fun dsn_action_str :: "dsn_action \<Rightarrow> string" where
  "dsn_action_str Failed = ''failed''"
| "dsn_action_str Delayed = ''delayed''"
| "dsn_action_str Delivered = ''delivered''"
| "dsn_action_str Relayed = ''relayed''"
| "dsn_action_str Expanded = ''expanded''"

record dsn_recipient =
  dr_final_recipient :: string
  dr_action :: dsn_action
  dr_status :: string
  dr_diagnostic_code :: "string option"
  dr_remote_mta :: "string option"
  dr_last_attempt_date :: "nat option"

record delivery_status_notification =
  dn_reporting_mta :: string
  dn_arrival_date :: nat
  dn_recipients :: "dsn_recipient list"

text \<open>What the code takes from outside: the readings of the clock in seconds, the RFC 2822 text of a
  timestamp when \<^verbatim>\<open>chrono\<close> has one for it, and the text of an identifier.\<close>

record bounce_env =
  be_clock :: "nat \<Rightarrow> nat"
  be_rfc2822 :: "int \<Rightarrow> string option"
  be_uuid_show :: "uuid \<Rightarrow> string"

definition Dsn_new :: "bounce_env \<Rightarrow> string \<Rightarrow> delivery_status_notification" where
  "Dsn_new env mta = \<lparr>dn_reporting_mta = mta, dn_arrival_date = be_clock env 0, dn_recipients = []\<rparr>"

definition dsn_add_recipient :: "dsn_recipient \<Rightarrow> delivery_status_notification \<Rightarrow> delivery_status_notification" where
  "dsn_add_recipient r dsn = dsn\<lparr>dn_recipients := dn_recipients dsn @ [r]\<rparr>"

definition unlines :: "string list \<Rightarrow> string" where
  "unlines ls = concat (map (\<lambda>l. l @ [CHR 0x0A]) ls)"

definition format_date :: "bounce_env \<Rightarrow> nat \<Rightarrow> string" where
  "format_date env timestamp =
     (case be_rfc2822 env (sint (word_of_nat timestamp :: 64 word)) of
        Some s \<Rightarrow> s | None \<Rightarrow> ''timestamp:'' @ show_nat timestamp)"

definition opt_line :: "string \<Rightarrow> string option \<Rightarrow> string list" where
  "opt_line field x = (case x of None \<Rightarrow> [] | Some s \<Rightarrow> [field @ s])"

definition recipient_fields :: "bounce_env \<Rightarrow> dsn_recipient \<Rightarrow> string list" where
  "recipient_fields env r =
     [''Final-Recipient: rfc822; '' @ dr_final_recipient r,
      ''Action: '' @ dsn_action_str (dr_action r),
      ''Status: '' @ dr_status r] @
     opt_line ''Diagnostic-Code: smtp; '' (dr_diagnostic_code r) @
     opt_line ''Remote-MTA: dns; '' (dr_remote_mta r) @
     opt_line ''Last-Attempt-Date: '' (map_option (format_date env) (dr_last_attempt_date r)) @ [[]]"

definition generate_message_body :: "bounce_env \<Rightarrow> delivery_status_notification \<Rightarrow> string list" where
  "generate_message_body env dsn =
     [''Reporting-MTA: dns; '' @ dn_reporting_mta dsn,
      ''Arrival-Date: '' @ format_date env (dn_arrival_date dsn), []] @
     concat (map (recipient_fields env) (dn_recipients dsn))"

definition generate_human_text :: "delivery_status_notification \<Rightarrow> smtp_status_code \<Rightarrow> string \<Rightarrow> string list" where
  "generate_human_text dsn error_code error_message =
     [''This is an automatically generated Delivery Status Notification.'', [],
      (if status_is_permanent error_code
       then ''YOUR MESSAGE COULD NOT BE DELIVERED to the following recipients:''
       else ''DELIVERY OF YOUR MESSAGE HAS BEEN DELAYED to the following recipients:''), []] @
     map (\<lambda>r. ''  '' @ dr_final_recipient r) (dn_recipients dsn) @
     [[], ''Reason: '' @ show_nat (status_code error_code) @ '' '' @ error_message,
      ''Enhanced Status Code: '' @ status_enhanced_code error_code,
      ''Diagnostic: '' @ diagnostic_text error_code, [],
      (if status_is_permanent error_code
       then ''No further delivery attempts will be made.''
       else ''Delivery will be retried. You will be notified if delivery continues to fail.'')]"

section \<open>The bounce mailet\<close>

record bounce_mailet =
  bm_reporting_mta :: string
  bm_postmaster :: string
  bm_include_headers :: bool
  bm_include_body :: bool
  bm_max_body_size :: nat

definition Bounce_new :: bounce_mailet where
  "Bounce_new =
     \<lparr>bm_reporting_mta = ''localhost'', bm_postmaster = ''postmaster@localhost'', bm_include_headers = True,
      bm_include_body = False, bm_max_body_size = 1024\<rparr>"

definition attr_text :: "mail \<Rightarrow> string \<Rightarrow> string option" where
  "attr_text m key = Option.bind (get_attribute m key) attr_as_str"

definition append_original_headers :: "mail \<Rightarrow> string list" where
  "append_original_headers m =
     opt_line ''Subject: '' (attr_text m ''header.Subject'') @
     opt_line ''From: '' (attr_text m ''header.From'') @
     opt_line ''To: '' (attr_text m ''header.To'') @
     opt_line ''Date: '' (attr_text m ''header.Date'') @
     opt_line ''Cc: '' (attr_text m ''header.Cc'') @
     opt_line ''Message-ID: '' (attr_text m ''header.Message-ID'')"

text \<open>The slice of the body panics inside a character.\<close>

definition truncated_body :: "bounce_mailet \<Rightarrow> string \<Rightarrow> string option" where
  "truncated_body ml body =
     (if bm_max_body_size ml < length body
      then if inside_char body (bm_max_body_size ml) then None
           else Some (take (bm_max_body_size ml) body @ ''... (truncated)'')
      else Some body)"

definition original_message :: "bounce_mailet \<Rightarrow> mail \<Rightarrow> string list option" where
  "original_message ml m =
     (if bm_include_body ml
      then map_option
             (\<lambda>body. [''Content-Type: message/rfc822'', ''Content-Description: Undelivered Message'', []] @
                append_original_headers m @ body)
             (case attr_text m ''message.body'' of
                None \<Rightarrow> Some []
              | Some body \<Rightarrow> map_option (\<lambda>b. [[], b]) (truncated_body ml body))
      else if bm_include_headers ml
      then Some ([''Content-Type: text/rfc822-headers'', ''Content-Description: Undelivered Message Headers'', []] @
                 append_original_headers m)
      else Some [])"

definition dsn_boundary :: string where
  "dsn_boundary = ''rusmes-dsn-boundary-7b3a9f1e''"

definition message_id_text :: "bounce_env \<Rightarrow> mail \<Rightarrow> string" where
  "message_id_text env m = (case m_message_id m of MessageId u \<Rightarrow> be_uuid_show env u)"

definition generate_multipart_report ::
    "bounce_env \<Rightarrow> bounce_mailet \<Rightarrow> delivery_status_notification \<Rightarrow> mail \<Rightarrow> smtp_status_code \<Rightarrow> string \<Rightarrow>
       string list option" where
  "generate_multipart_report env ml dsn m error_code error_message =
     map_option
       (\<lambda>original.
          [''MIME-Version: 1.0'',
           ''Content-Type: multipart/report; report-type=delivery-status; boundary='' @ [CHR 0x22] @ dsn_boundary @ [CHR 0x22],
           [], ''This is a MIME-encapsulated message.'', [],
           ''--'' @ dsn_boundary, ''Content-Type: text/plain; charset=utf-8'', ''Content-Description: Notification'', []] @
          generate_human_text dsn error_code error_message @
          [[], ''Original Message-ID: '' @ message_id_text env m, [],
           ''--'' @ dsn_boundary, ''Content-Type: message/delivery-status'', ''Content-Description: Delivery Report'', []] @
          generate_message_body env dsn @
          [''--'' @ dsn_boundary] @ original @ [''--'' @ dsn_boundary @ ''--''])
       (original_message ml m)"

definition bounce_recipient :: "bounce_env \<Rightarrow> mail \<Rightarrow> smtp_status_code \<Rightarrow> string \<Rightarrow> nat \<Rightarrow> mail_address \<Rightarrow> dsn_recipient" where
  "bounce_recipient env m error_code error_message i r =
     \<lparr>dr_final_recipient = as_string r,
      dr_action = (if status_is_permanent error_code then Failed else Delayed),
      dr_status = status_enhanced_code error_code,
      dr_diagnostic_code = Some (show_nat (status_code error_code) @ '' '' @ error_message),
      dr_remote_mta = attr_text m ''smtp.remote_mta'',
      dr_last_attempt_date = Some (be_clock env i)\<rparr>"

definition bounce_dsn :: "bounce_env \<Rightarrow> bounce_mailet \<Rightarrow> mail \<Rightarrow> smtp_status_code \<Rightarrow> string \<Rightarrow> delivery_status_notification" where
  "bounce_dsn env ml m error_code error_message =
     foldl (\<lambda>dsn (i, r). dsn_add_recipient (bounce_recipient env m error_code error_message i r) dsn)
       (Dsn_new env (bm_reporting_mta ml)) (enumerate 1 (m_recipients m))"

definition generate_bounce :: "bounce_env \<Rightarrow> bounce_mailet \<Rightarrow> mail \<Rightarrow> smtp_status_code \<Rightarrow> string \<Rightarrow> string option" where
  "generate_bounce env ml m error_code error_message =
     map_option unlines
       (generate_multipart_report env ml (bounce_dsn env ml m error_code error_message) m error_code error_message)"

definition bounce_init :: "mailet_config \<Rightarrow> bounce_mailet \<Rightarrow> bounce_mailet" where
  "bounce_init config ml =
     \<lparr>bm_reporting_mta = (case get_param config ''reporting_mta'' of None \<Rightarrow> bm_reporting_mta ml | Some s \<Rightarrow> s),
      bm_postmaster = (case get_param config ''postmaster'' of None \<Rightarrow> bm_postmaster ml | Some s \<Rightarrow> s),
      bm_include_headers = param_or parse_bool True (bm_include_headers ml) (get_param config ''include_headers''),
      bm_include_body = param_or parse_bool False (bm_include_body ml) (get_param config ''include_body''),
      bm_max_body_size = param_or (parse_uint usize_max) 1024 (bm_max_body_size ml) (get_param config ''max_body_size'')\<rparr>"

definition bounce_code :: "mail \<Rightarrow> smtp_status_code" where
  "bounce_code m =
     (let error_code_num =
        unat (ucast (case Option.bind (get_attribute m ''bounce.error_code'') attr_as_i64 of
                       None \<Rightarrow> 550 | Some i \<Rightarrow> i) :: 16 word)
      in case from_code error_code_num of None \<Rightarrow> PermanentFailure 550 | Some sc \<Rightarrow> sc)"

definition bounce_text :: "mail \<Rightarrow> string" where
  "bounce_text m = (case attr_text m ''bounce.error_message'' of None \<Rightarrow> ''Delivery failed'' | Some s \<Rightarrow> s)"

definition bounce_required :: "mail \<Rightarrow> bool" where
  "bounce_required m \<longleftrightarrow> Option.bind (get_attribute m ''bounce.required'') attr_as_bool = Some True"

text \<open>\<open>None\<close> when the task panics.\<close>

definition bounce_service :: "bounce_env \<Rightarrow> bounce_mailet \<Rightarrow> mail \<Rightarrow> (mail \<times> mailet_action) option" where
  "bounce_service env ml m =
     (if \<not> bounce_required m then Some (m, mailet_action.Continue)
      else
        map_option
          (\<lambda>bounce_body.
             (set_attribute ''bounce.body'' (AString bounce_body)
                (set_attribute ''bounce.generated'' (ABoolean True) m), mailet_action.Continue))
          (generate_bounce env ml m (bounce_code m) (bounce_text m)))"

section \<open>Codes\<close>

lemmas code_defs =
  SUCCESS_def BAD_DESTINATION_MAILBOX_def BAD_DESTINATION_SYNTAX_def DESTINATION_VALID_def MAILBOX_MOVED_def
  MAILBOX_DISABLED_def MAILBOX_FULL_def MAILBOX_FULL_TEMP_def MESSAGE_TOO_LARGE_def SYSTEM_NOT_ACCEPTING_def
  NO_ANSWER_def CONNECTION_DROPPED_def INVALID_COMMAND_def SYNTAX_ERROR_def INVALID_PARAMETERS_def
  DELIVERY_NOT_AUTHORIZED_def MESSAGE_REFUSED_def EnhancedStatusCode_new_def

lemma parse_u8_show: "parse_u8 (show_nat (unat w)) = Some w"
proof -
  have "unat w < 256" using unsigned_less [of w, where ?'a = nat] by simp
  then show ?thesis by (simp add: parse_u8_def parse_uint_show_nat)
qed

lemma show_nat_no_dot: "CHR ''.'' \<notin> set (show_nat n)"
  using show_nat_digits [of n] by (auto simp: list_all_iff is_ascii_digit_def)

text \<open>The text of an enhanced status code reads back as the code.\<close>

theorem enhanced_code_roundtrip: "status_code_parse (status_code_display c) = Some c"
proof -
  have "split_on (CHR ''.'') (status_code_display c) =
      [show_nat (unat (sc_class c)), show_nat (unat (sc_subject c)), show_nat (unat (sc_detail c))]"
    by (simp add: status_code_display_def split_on_append_sep split_on_no_sep show_nat_no_dot)
  then show ?thesis by (simp add: status_code_parse_def parse_u8_show EnhancedStatusCode_new_def)
qed

lemma enhanced_class_table:
  "sc_class (smtp_to_enhanced_code c) = (if 200 \<le> c \<and> c < 300 then 2 else if 400 \<le> c \<and> c < 500 then 4 else 5)"
  by (simp add: smtp_to_enhanced_code_def code_defs)

lemma enhanced_class:
  "from_code c = Some sc \<Longrightarrow> sc_class (smtp_to_enhanced_code (status_code sc)) = (if status_is_permanent sc then 5 else 4)"
  by (auto simp: from_code_def enhanced_class_table split: if_splits)

text \<open>In a report, the action and the class of the enhanced code of every recipient agree with the code the
  mail was bounced for: \<^verbatim>\<open>failed\<close> with class 5, \<^verbatim>\<open>delayed\<close> with class 4, whatever the attributes hold.\<close>

lemma bounce_code_class:
  "sc_class (smtp_to_enhanced_code (status_code (bounce_code m))) = (if status_is_permanent (bounce_code m) then 5 else 4)"
proof (cases "from_code (unat (ucast (case Option.bind (get_attribute m ''bounce.error_code'') attr_as_i64 of
                       None \<Rightarrow> 550 | Some i \<Rightarrow> i) :: 16 word))")
  case None
  then have "bounce_code m = PermanentFailure 550" by (simp add: bounce_code_def)
  then show ?thesis by (simp add: smtp_to_enhanced_code_def code_defs)
next
  case (Some sc)
  then have "bounce_code m = sc" by (simp add: bounce_code_def)
  with enhanced_class [OF Some] show ?thesis by simp
qed

lemma bounce_dsn_recipients:
  "dn_recipients (bounce_dsn env ml m sc msg) =
     map (\<lambda>(i, r). bounce_recipient env m sc msg i r) (enumerate 1 (m_recipients m))"
  "dn_reporting_mta (bounce_dsn env ml m sc msg) = bm_reporting_mta ml"
  "dn_arrival_date (bounce_dsn env ml m sc msg) = be_clock env 0"
proof -
  have "foldl (\<lambda>dsn (i, r). dsn_add_recipient (bounce_recipient env m sc msg i r) dsn) d irs =
      d\<lparr>dn_recipients := dn_recipients d @ map (\<lambda>(i, r). bounce_recipient env m sc msg i r) irs\<rparr>" for d irs
    by (induction irs arbitrary: d) (auto simp: dsn_add_recipient_def)
  then show "dn_recipients (bounce_dsn env ml m sc msg) =
     map (\<lambda>(i, r). bounce_recipient env m sc msg i r) (enumerate 1 (m_recipients m))"
    "dn_reporting_mta (bounce_dsn env ml m sc msg) = bm_reporting_mta ml"
    "dn_arrival_date (bounce_dsn env ml m sc msg) = be_clock env 0"
    by (simp_all add: bounce_dsn_def Dsn_new_def)
qed

theorem bounce_reports_consistent:
  "map dr_final_recipient (dn_recipients (bounce_dsn env ml m (bounce_code m) msg)) = map as_string (m_recipients m) \<and>
   list_all (\<lambda>r. \<exists>c. status_code_parse (dr_status r) = Some c \<and>
       dr_action r = (if code_is_permanent c then Failed else Delayed) \<and>
       code_is_transient c = (dr_action r = Delayed))
     (dn_recipients (bounce_dsn env ml m (bounce_code m) msg))"
proof -
  let ?sc = "bounce_code m" let ?ec = "smtp_to_enhanced_code (status_code (bounce_code m))"
  have "status_code_parse (status_enhanced_code ?sc) = Some ?ec"
    by (simp add: status_enhanced_code_def enhanced_code_roundtrip)
  moreover have "map dr_final_recipient (dn_recipients (bounce_dsn env ml m ?sc msg)) =
      map as_string (map snd (enumerate 1 (m_recipients m)))"
    unfolding bounce_dsn_recipients map_map by (rule map_cong) (auto simp: bounce_recipient_def)
  moreover have "dr_status r = status_enhanced_code ?sc \<and> dr_action r = (if status_is_permanent ?sc then Failed else Delayed)"
    if "r \<in> set (dn_recipients (bounce_dsn env ml m ?sc msg))" for r
    using that by (auto simp: bounce_dsn_recipients bounce_recipient_def)
  ultimately show ?thesis
    using bounce_code_class [of m] by (auto simp: list_all_iff code_is_permanent_def code_is_transient_def)
qed

text \<open>Whether a failure reason is permanent disagrees with its own enhanced code for exactly two reasons, and
  the reason read from an SMTP code turns the temporary 452 into a permanent failure with code 5.2.2 and
  every unlisted 5xx code into one that is not permanent.\<close>

theorem failure_reason_contradicts_code:
  "(failure_is_permanent r \<noteq> code_is_permanent (failure_code r) \<longleftrightarrow> r \<in> {AuthenticationRequired, OtherF}) \<and>
   (400 \<le> c \<and> c < 500 \<longrightarrow> (failure_is_permanent (from_smtp_code c) \<longleftrightarrow> c = 452)) \<and>
   (500 \<le> c \<and> c < 600 \<longrightarrow> (failure_is_permanent (from_smtp_code c) \<longleftrightarrow> 550 \<le> c \<and> c \<le> 554)) \<and>
   failure_code (from_smtp_code 452) = MAILBOX_FULL \<and> smtp_to_enhanced_code 452 = MAILBOX_FULL_TEMP"
proof -
  have "failure_is_permanent r \<noteq> code_is_permanent (failure_code r) \<longleftrightarrow> r \<in> {AuthenticationRequired, OtherF}"
    by (cases r) (simp_all add: code_is_permanent_def code_defs)
  moreover have "400 \<le> c \<and> c < 500 \<longrightarrow> (failure_is_permanent (from_smtp_code c) \<longleftrightarrow> c = 452)"
    by (auto simp: from_smtp_code_def)
  moreover have "550 \<le> c \<and> c \<le> 554 \<longleftrightarrow> c = 550 \<or> c = 551 \<or> c = 552 \<or> c = 553 \<or> c = 554" by auto
  then have "500 \<le> c \<and> c < 600 \<longrightarrow> (failure_is_permanent (from_smtp_code c) \<longleftrightarrow> 550 \<le> c \<and> c \<le> 554)"
    by (auto simp: from_smtp_code_def)
  ultimately show ?thesis by (simp add: from_smtp_code_def smtp_to_enhanced_code_def)
qed


section \<open>The parts of a report\<close>

text \<open>The lines of a text that a reader of the report takes for a delimiter, and those of a text that follows
  other text on its first line.\<close>

definition boundary_lines :: "string \<Rightarrow> string list" where
  "boundary_lines s = filter (\<lambda>l. starts_with l (''--'' @ dsn_boundary)) (split_on (CHR 0x0A) s)"

definition injected :: "string \<Rightarrow> string list" where
  "injected s = filter (\<lambda>l. starts_with l (''--'' @ dsn_boundary)) (tl (split_on (CHR 0x0A) s))"

lemma boundary_lines_Nil [simp]: "boundary_lines [] = []"
  by (simp add: boundary_lines_def)

lemma boundary_lines_unlines: "boundary_lines (unlines ls) = concat (map boundary_lines ls)"
proof (induction ls)
  case (Cons l ls)
  have "boundary_lines (unlines (l # ls)) = boundary_lines l @ boundary_lines (unlines ls)"
    using split_on_concat [of "CHR 0x0A" l "unlines ls"] by (simp add: boundary_lines_def unlines_def)
  with Cons.IH show ?case by simp
qed (simp add: unlines_def boundary_lines_def)

lemma injected_simps [simp]:
  "injected [] = []" "injected (c # s) = (if c = CHR 0x0A then boundary_lines s else injected s)"
  by (cases "split_on (CHR 0x0A) s"; simp add: injected_def boundary_lines_def)+

lemma injected_append: "CHR 0x0A \<notin> set a \<Longrightarrow> injected (a @ b) = injected b"
  by (induction a) auto

lemma injected_none: "CHR 0x0A \<notin> set a \<Longrightarrow> injected a = []"
  using injected_append [of a "[]"] by simp

lemma boundary_lines_Cons: "c \<noteq> CHR ''-'' \<Longrightarrow> c \<noteq> CHR 0x0A \<Longrightarrow> boundary_lines (c # s) = injected s"
  by (cases "split_on (CHR 0x0A) s") (auto simp: boundary_lines_def injected_def)

lemma no_newline [simp]:
  "CHR 0x0A \<notin> set (show_nat n)" "CHR 0x0A \<notin> set (status_enhanced_code sc)" "CHR 0x0A \<notin> set (diagnostic_text sc)"
  "CHR 0x0A \<notin> set (dsn_action_str a)"
proof -
  show n: "CHR 0x0A \<notin> set (show_nat n)" for n
    using show_nat_digits [of n] by (auto simp: list_all_iff is_ascii_digit_def)
  then show "CHR 0x0A \<notin> set (status_enhanced_code sc)"
    by (simp add: status_enhanced_code_def status_code_display_def)
  show "CHR 0x0A \<notin> set (diagnostic_text sc)"
    unfolding diagnostic_text_def smtp_diagnostic_text_def by simp
  show "CHR 0x0A \<notin> set (dsn_action_str a)" by (cases a) simp_all
qed

lemmas delimiter_simps = boundary_lines_Cons injected_append injected_none

text \<open>Texts of one line, which is what the fields of the report are filled with.\<close>

definition one_line :: "string \<Rightarrow> bool" where
  "one_line s \<longleftrightarrow> CHR 0x0A \<notin> set s"

definition one_line_fields :: "bounce_env \<Rightarrow> bounce_mailet \<Rightarrow> mail \<Rightarrow> bool" where
  "one_line_fields env ml m \<longleftrightarrow>
     one_line (bm_reporting_mta ml) \<and> list_all (\<lambda>r. one_line (as_string r)) (m_recipients m) \<and>
     one_line (message_id_text env m) \<and>
     list_all (\<lambda>key. pred_option one_line (attr_text m key))
       [''smtp.remote_mta'', ''header.Subject'', ''header.From'', ''header.To'', ''header.Date'', ''header.Cc'',
        ''header.Message-ID'']"

definition chrono_dates :: "bounce_env \<Rightarrow> bool" where
  "chrono_dates env \<longleftrightarrow> (\<forall>t. pred_option one_line (be_rfc2822 env t))"

lemma date_line: "chrono_dates env \<Longrightarrow> CHR 0x0A \<notin> set (format_date env t)"
  by (auto simp: chrono_dates_def format_date_def one_line_def pred_option_def split: option.split)

lemma opt_line_delimiters:
  "f \<noteq> [] \<Longrightarrow> hd f \<noteq> CHR ''-'' \<Longrightarrow> CHR 0x0A \<notin> set f \<Longrightarrow>
     concat (map boundary_lines (opt_line f x)) = (case x of None \<Rightarrow> [] | Some s \<Rightarrow> injected s)"
  by (cases f) (auto simp: opt_line_def delimiter_simps split: option.split)

lemma headers_delimiters:
  "one_line_fields env ml m \<Longrightarrow> concat (map boundary_lines (append_original_headers m)) = []"
  by (simp add: append_original_headers_def opt_line_delimiters one_line_fields_def one_line_def injected_none pred_option_def
      split: option.split)

lemma recipient_delimiters:
  assumes "chrono_dates env" "one_line_fields env ml m" "r \<in> set (m_recipients m)"
  shows "concat (map boundary_lines (recipient_fields env (bounce_recipient env m sc msg i r))) = injected msg"
  using assms
  by (simp add: recipient_fields_def bounce_recipient_def opt_line_delimiters one_line_fields_def one_line_def list_all_iff
      pred_option_def date_line delimiter_simps split: option.split)

lemma concat_map_concat: "concat (map f (concat xss)) = concat (map (\<lambda>xs. concat (map f xs)) xss)"
  by (induction xss) auto

lemma enumerated: "(i, r) \<in> set (enumerate n xs) \<Longrightarrow> r \<in> set xs"
  by (auto simp: enumerate_eq_zip dest: set_zip_rightD)

lemma status_delimiters:
  assumes "chrono_dates env" "one_line_fields env ml m"
  shows "concat (map boundary_lines (generate_message_body env (bounce_dsn env ml m sc msg))) =
    concat (replicate (length (m_recipients m)) (injected msg))"
proof -
  have "map (\<lambda>x. concat (map boundary_lines (recipient_fields env (case x of (i, r) \<Rightarrow> bounce_recipient env m sc msg i r))))
      (enumerate 1 (m_recipients m)) = map (\<lambda>_. injected msg) (enumerate 1 (m_recipients m))"
    by (rule map_cong) (auto simp del: One_nat_def simp: recipient_delimiters [OF assms] dest: enumerated)
  then have "concat (map boundary_lines (concat (map (recipient_fields env) (dn_recipients (bounce_dsn env ml m sc msg))))) =
      concat (replicate (length (m_recipients m)) (injected msg))"
    by (simp add: bounce_dsn_recipients concat_map_concat o_def map_replicate_const)
  with assms show ?thesis
    by (simp add: generate_message_body_def bounce_dsn_recipients delimiter_simps date_line one_line_fields_def one_line_def)
qed

lemma human_delimiters:
  assumes "one_line_fields env ml m"
  shows "concat (map boundary_lines (generate_human_text (bounce_dsn env ml m sc msg) sc msg)) = injected msg"
proof -
  have "boundary_lines (''  '' @ dr_final_recipient r) = []"
    if "r \<in> set (dn_recipients (bounce_dsn env ml m sc msg))" for r
    using that assms
    by (auto simp: bounce_dsn_recipients bounce_recipient_def one_line_fields_def one_line_def list_all_iff delimiter_simps
        dest!: enumerated)
  then show ?thesis
    by (simp add: generate_human_text_def delimiter_simps)
qed


lemma original_delimiters:
  assumes "one_line_fields env ml m" "original_message ml m = Some ls"
  shows "concat (map boundary_lines ls) =
    (case (bm_include_body ml, attr_text m ''message.body'') of
       (True, Some body) \<Rightarrow> boundary_lines (the (truncated_body ml body)) | _ \<Rightarrow> [])"
  using assms headers_delimiters [OF assms(1)]
  by (auto simp: original_message_def delimiter_simps split: if_splits option.splits)

text \<open>The delimiters of a report, exactly.  With an error message of one line and without the body of the mail
  the report has three parts and one end; every line of the error message after its first one that looks like
  a delimiter is one, in the first part and once for each recipient in the second, and so is every such line of
  the included body: the boundary is a constant and nothing checks for it.\<close>

theorem bounce_report_parts:
  assumes "chrono_dates env" "one_line_fields env ml m" "generate_bounce env ml m sc msg = Some report"
  shows "boundary_lines report =
    [''--'' @ dsn_boundary] @ injected msg @
    [''--'' @ dsn_boundary] @ concat (replicate (length (m_recipients m)) (injected msg)) @
    [''--'' @ dsn_boundary] @
      (case (bm_include_body ml, attr_text m ''message.body'') of
         (True, Some body) \<Rightarrow> boundary_lines (the (truncated_body ml body)) | _ \<Rightarrow> []) @
    [''--'' @ dsn_boundary @ ''--'']"
proof -
  obtain ls where ls: "original_message ml m = Some ls"
    using assms(3) by (auto simp: generate_bounce_def generate_multipart_report_def)
  have delim: "boundary_lines (''--'' @ dsn_boundary) = [''--'' @ dsn_boundary]"
    "boundary_lines (''--'' @ dsn_boundary @ ''--'') = [''--'' @ dsn_boundary @ ''--'']"
    "CHR 0x0A \<notin> set dsn_boundary"
    by (simp_all add: boundary_lines_def dsn_boundary_def)
  note parts = human_delimiters [OF assms(2)] status_delimiters [OF assms(1,2)] original_delimiters [OF assms(2) ls]
  have "boundary_lines (''Original Message-ID: '' @ message_id_text env m) = []"
    using assms(2) by (simp add: one_line_fields_def one_line_def delimiter_simps)
  then show ?thesis
    using assms(3) ls
    by (auto simp add: generate_bounce_def generate_multipart_report_def boundary_lines_unlines
        parts delim [simplified] delimiter_simps)
qed

text \<open>The mailet only panics when it includes a body that is too long and whose limit lies inside a character;
  otherwise it leaves the report in the mail and lets it go on.\<close>

theorem bounce_panics_inside_character:
  "bounce_service env ml m = None \<longleftrightarrow>
     bounce_required m \<and> bm_include_body ml \<and>
     (\<exists>body. attr_text m ''message.body'' = Some body \<and> bm_max_body_size ml < length body \<and>
        inside_char body (bm_max_body_size ml))"
  by (auto simp: bounce_service_def generate_bounce_def generate_multipart_report_def original_message_def
      truncated_body_def split: if_splits option.splits)


definition demo_bounce_env :: bounce_env where
  "demo_bounce_env = \<lparr>be_clock = (\<lambda>n. n), be_rfc2822 = (\<lambda>t. Some ''Thu, 1 Jan 1970 00:00:01 +0000''), be_uuid_show = (\<lambda>u. ''id'')\<rparr>"

theorem bounce_report_parts_witness:
  "let msg = ''gone'' @ [CHR 0x0A] @ ''--'' @ dsn_boundary @ ''--'';
       close = ''--'' @ dsn_boundary @ ''--''; open = ''--'' @ dsn_boundary in
     boundary_lines (the (generate_bounce demo_bounce_env Bounce_new (demo_mail [''a'']) (PermanentFailure 550) msg)) =
       [open, close, open, close, open, close]"
proof -
  let ?msg = "''gone'' @ [CHR 0x0A] @ ''--'' @ dsn_boundary @ ''--''"
  have clean: "chrono_dates demo_bounce_env" "one_line_fields demo_bounce_env Bounce_new (demo_mail [''a''])"
    by (simp_all add: chrono_dates_def demo_bounce_env_def one_line_def one_line_fields_def Bounce_new_def demo_mail_def
        Mail_new_def demo_address_def as_string_def message_id_text_def attr_text_def get_attribute_def)
  obtain report where r: "generate_bounce demo_bounce_env Bounce_new (demo_mail [''a'']) (PermanentFailure 550) ?msg = Some report"
    by (auto simp: generate_bounce_def generate_multipart_report_def original_message_def Bounce_new_def)
  have "injected ?msg = [''--'' @ dsn_boundary @ ''--'']"
    by (simp add: boundary_lines_def dsn_boundary_def)
  then show ?thesis
    using bounce_report_parts [OF clean r] r by (simp add: Bounce_new_def demo_mail_def Mail_new_def)
qed

end
