(* ===== verification/Imap_Sync.thy ===== *)
theory Imap_Sync
  imports Storage_Types
begin

text \<open>
  Model of the synchronisation extensions of IMAP, \<^verbatim>\<open>crates/rusmes-imap/src/condstore.rs\<close> and
  \<^verbatim>\<open>crates/rusmes-imap/src/qresync.rs\<close>: the modifiers \<^verbatim>\<open>CHANGEDSINCE\<close> and \<^verbatim>\<open>UNCHANGEDSINCE\<close>, the parameters of
  \<^verbatim>\<open>QRESYNC\<close>, sets of UIDs with their text form, \<^verbatim>\<open>VANISHED\<close> responses, and the logic that finds the messages
  a client knows and the mailbox has lost.  A UID is a natural number; parsing bounds it by \<^verbatim>\<open>u32::MAX\<close>.
  The theorems show that the response tells a client exactly what vanished, through compression, printing and
  parsing, and where open ranges and sequence data lose information.
\<close>

section \<open>Conditional store\<close>

datatype cond_store_state = CondDisabled | CondEnabled | ImplicitlyEnabled

fun cond_is_enabled :: "cond_store_state \<Rightarrow> bool" where
  "cond_is_enabled CondDisabled = False"
| "cond_is_enabled CondEnabled = True"
| "cond_is_enabled ImplicitlyEnabled = True"

datatype cond_store_error =
    InvalidModSeq string
  | ZeroModSeq
  | InvalidUnchangedSince string
  | CondNotEnabled
  | StoreFailedModified "nat list"

text \<open>The \<^verbatim>\<open>Debug\<close> form of a list of numbers.\<close>

definition debug_list :: "nat list \<Rightarrow> string" where
  "debug_list ns = ''['' @ str_join '', '' (map show_nat ns) @ '']''"

fun cond_store_error_display :: "cond_store_error \<Rightarrow> string" where
  "cond_store_error_display (InvalidModSeq s) = ''Invalid MODSEQ: '' @ s"
| "cond_store_error_display ZeroModSeq = ''MODSEQ cannot be zero''"
| "cond_store_error_display (InvalidUnchangedSince s) = ''Invalid UNCHANGEDSINCE syntax: '' @ s"
| "cond_store_error_display CondNotEnabled = ''CONDSTORE not enabled''"
| "cond_store_error_display (StoreFailedModified uids) = ''STORE failed for UIDs (modified): '' @ debug_list uids"

definition mod_seq_display :: "mod_seq \<Rightarrow> string" where
  "mod_seq_display m = show_nat (unat (mod_seq_value m))"

text \<open>A positive modification sequence number, the end of both modifiers.\<close>

definition positive_mod_seq :: "string \<Rightarrow> string \<Rightarrow> cond_store_error + mod_seq" where
  "positive_mod_seq digits shown =
     (case parse_uint usize_max digits of
        None \<Rightarrow> Inl (InvalidModSeq shown)
      | Some n \<Rightarrow> if n = 0 then Inl ZeroModSeq else Inr (ModSeq (word_of_nat n)))"

definition changed_since_parse :: "string \<Rightarrow> cond_store_error + mod_seq" where
  "changed_since_parse args = positive_mod_seq (trim args) args"

definition changed_since_matches :: "mod_seq \<Rightarrow> mod_seq \<Rightarrow> bool" where
  "changed_since_matches since message_modseq \<longleftrightarrow> mod_seq_value message_modseq > mod_seq_value since"

text \<open>\<^verbatim>\<open>trim_matches\<close> over the two parentheses.\<close>

definition is_paren :: "char \<Rightarrow> bool" where
  "is_paren c \<longleftrightarrow> c = CHR ''('' \<or> c = CHR '')''"

definition trim_parens :: "string \<Rightarrow> string" where
  "trim_parens s = rev (dropWhile is_paren (rev (dropWhile is_paren s)))"

definition unchanged_since_parse :: "string \<Rightarrow> cond_store_error + mod_seq" where
  "unchanged_since_parse args0 =
     (let args = trim_parens (trim args0) in
      case split_whitespace args of
        [keyword, number] \<Rightarrow>
          if eq_ignore_ascii_case keyword ''UNCHANGEDSINCE'' then positive_mod_seq number number
          else Inl (InvalidUnchangedSince args)
      | _ \<Rightarrow> Inl (InvalidUnchangedSince args))"

definition can_modify :: "mod_seq \<Rightarrow> mod_seq \<Rightarrow> bool" where
  "can_modify since current_modseq \<longleftrightarrow> mod_seq_value current_modseq \<le> mod_seq_value since"

record cond_store_response =
  cr_uid :: nat
  cr_modseq :: mod_seq
  cr_seq :: nat

definition to_fetch_response :: "cond_store_response \<Rightarrow> string" where
  "to_fetch_response r =
     ''* '' @ show_nat (cr_seq r) @ '' FETCH (UID '' @ show_nat (cr_uid r) @ '' MODSEQ ('' @
     mod_seq_display (cr_modseq r) @ ''))''"

record cond_store_status =
  cs_mailbox :: string
  cs_highestmodseq :: mod_seq
  cs_exists :: nat
  cs_recent :: nat
  cs_unseen :: nat
  cs_uidvalidity :: nat
  cs_uidnext :: nat

definition to_status_response :: "cond_store_status \<Rightarrow> string" where
  "to_status_response s =
     ''* STATUS '' @ cs_mailbox s @ '' (MESSAGES '' @ show_nat (cs_exists s) @ '' RECENT '' @ show_nat (cs_recent s) @
     '' UNSEEN '' @ show_nat (cs_unseen s) @ '' UIDVALIDITY '' @ show_nat (cs_uidvalidity s) @ '' UIDNEXT '' @
     show_nat (cs_uidnext s) @ '' HIGHESTMODSEQ '' @ mod_seq_display (cs_highestmodseq s) @ '')''"

section \<open>Sets of UIDs\<close>

datatype qresync_error =
    InvalidSyntax string
  | InvalidUidValidity string
  | QInvalidModSeq string
  | QZeroModSeq
  | InvalidUidSet string
  | InvalidUidRange string
  | InvalidSeqMatchData string
  | InvalidVanishedResponse string
  | QNotEnabled
  | CondStoreRequired
  | UidValidityMismatch nat nat

fun qresync_error_display :: "qresync_error \<Rightarrow> string" where
  "qresync_error_display (InvalidSyntax s) = ''Invalid QRESYNC syntax: '' @ s"
| "qresync_error_display (InvalidUidValidity s) = ''Invalid UIDVALIDITY: '' @ s"
| "qresync_error_display (QInvalidModSeq s) = ''Invalid MODSEQ: '' @ s"
| "qresync_error_display QZeroModSeq = ''MODSEQ cannot be zero''"
| "qresync_error_display (InvalidUidSet s) = ''Invalid UID set: '' @ s"
| "qresync_error_display (InvalidUidRange s) = ''Invalid UID range: '' @ s"
| "qresync_error_display (InvalidSeqMatchData s) = ''Invalid sequence match data: '' @ s"
| "qresync_error_display (InvalidVanishedResponse s) = ''Invalid VANISHED response: '' @ s"
| "qresync_error_display QNotEnabled = ''QRESYNC not enabled''"
| "qresync_error_display CondStoreRequired = ''CONDSTORE required for QRESYNC''"
| "qresync_error_display (UidValidityMismatch expected actual) =
     ''UIDVALIDITY mismatch: expected '' @ show_nat expected @ '', got '' @ show_nat actual"

datatype qresync_state = QDisabled | QEnabled

definition q_is_enabled :: "qresync_state \<Rightarrow> bool" where
  "q_is_enabled s \<longleftrightarrow> s = QEnabled"

datatype uid_range = Single nat | Range nat nat | RangeToMax nat

definition range_number :: "string \<Rightarrow> string \<Rightarrow> qresync_error + nat" where
  "range_number whole s = ok_or (InvalidUidRange whole) (parse_uint u32_max s)"

definition uid_range_parse :: "string \<Rightarrow> qresync_error + uid_range" where
  "uid_range_parse s =
     (if CHR '':'' \<in> set s then
        (case split_on (CHR '':'') s of
           [a, b] \<Rightarrow>
             rbind (range_number s a) (\<lambda>start.
               if b = ''*'' then Inr (RangeToMax start)
               else rbind (range_number s b) (\<lambda>end'.
                 if start > end' then Inl (InvalidUidRange s) else Inr (Range start end')))
         | _ \<Rightarrow> Inl (InvalidUidRange s))
      else rbind (range_number s s) (\<lambda>uid. Inr (Single uid)))"

fun range_contains :: "uid_range \<Rightarrow> nat \<Rightarrow> bool" where
  "range_contains (Single u) uid \<longleftrightarrow> u = uid"
| "range_contains (Range start end') uid \<longleftrightarrow> start \<le> uid \<and> uid \<le> end'"
| "range_contains (RangeToMax start) uid \<longleftrightarrow> start \<le> uid"

fun uid_range_display :: "uid_range \<Rightarrow> string" where
  "uid_range_display (Single uid) = show_nat uid"
| "uid_range_display (Range start end') = show_nat start @ '':'' @ show_nat end'"
| "uid_range_display (RangeToMax start) = show_nat start @ '':*''"

type_synonym uid_set = "uid_range list"

fun parse_ranges :: "string list \<Rightarrow> qresync_error + uid_set" where
  "parse_ranges [] = Inr []"
| "parse_ranges (p # ps) = rbind (uid_range_parse p) (\<lambda>r. rbind (parse_ranges ps) (\<lambda>rs. Inr (r # rs)))"

definition uid_set_parse :: "string \<Rightarrow> qresync_error + uid_set" where
  "uid_set_parse s =
     rbind (parse_ranges (split_on (CHR '','') s)) (\<lambda>ranges. if ranges = [] then Inl (InvalidUidSet s) else Inr ranges)"

definition uid_set_contains :: "uid_set \<Rightarrow> nat \<Rightarrow> bool" where
  "uid_set_contains ranges uid \<longleftrightarrow> list_ex (\<lambda>r. range_contains r uid) ranges"

definition uid_set_display :: "uid_set \<Rightarrow> string" where
  "uid_set_display ranges = str_join '','' (map uid_range_display ranges)"

section \<open>Parameters\<close>

fun parse_seqs :: "string \<Rightarrow> string list \<Rightarrow> qresync_error + nat list" where
  "parse_seqs s [] = Inr []"
| "parse_seqs s (p # ps) =
     rbind (ok_or (InvalidSeqMatchData s) (parse_uint u32_max p)) (\<lambda>n. rbind (parse_seqs s ps) (\<lambda>ns. Inr (n # ns)))"

definition seq_match_parse :: "string \<Rightarrow> qresync_error + nat list" where
  "seq_match_parse s0 = (let s = trim_parens (trim s0) in parse_seqs s (split_whitespace s))"

definition seq_match_display :: "nat list \<Rightarrow> string" where
  "seq_match_display seqs = ''('' @ str_join '' '' (map show_nat seqs) @ '')''"

record qresync_params =
  qp_uidvalidity :: nat
  qp_modseq :: mod_seq
  qp_known_uids :: "uid_set option"
  qp_seq_match_data :: "nat list option"

definition optional :: "('a \<Rightarrow> 'e + 'b) \<Rightarrow> 'a option \<Rightarrow> 'e + 'b option" where
  "optional f x = (case x of None \<Rightarrow> Inr None | Some a \<Rightarrow> rbind (f a) (\<lambda>b. Inr (Some b)))"

definition nth_part :: "string list \<Rightarrow> nat \<Rightarrow> string option" where
  "nth_part parts i = (if i < length parts then Some (parts ! i) else None)"

definition qresync_params_parse :: "string \<Rightarrow> qresync_error + qresync_params" where
  "qresync_params_parse args0 =
     (let args = trim_parens (trim args0); parts = split_whitespace args in
      case parts of
        uv # ms # _ \<Rightarrow>
          rbind (ok_or (InvalidUidValidity uv) (parse_uint u32_max uv)) (\<lambda>uidvalidity.
          rbind (ok_or (QInvalidModSeq ms) (parse_uint usize_max ms)) (\<lambda>modseq_value.
          if modseq_value = 0 then Inl QZeroModSeq
          else
            rbind (optional uid_set_parse (nth_part parts 2)) (\<lambda>known_uids.
            rbind (optional seq_match_parse (nth_part parts 3)) (\<lambda>seq_match_data.
              Inr \<lparr>qp_uidvalidity = uidvalidity, qp_modseq = ModSeq (word_of_nat modseq_value),
                   qp_known_uids = known_uids, qp_seq_match_data = seq_match_data\<rparr>))))
      | _ \<Rightarrow> Inl (InvalidSyntax args))"

definition qresync_to_imap_string :: "qresync_params \<Rightarrow> string" where
  "qresync_to_imap_string p =
     ''('' @ show_nat (qp_uidvalidity p) @ '' '' @ mod_seq_display (qp_modseq p) @
     (case qp_known_uids p of
        None \<Rightarrow> []
      | Some uids \<Rightarrow> '' '' @ uid_set_display uids @
          (case qp_seq_match_data p of None \<Rightarrow> [] | Some d \<Rightarrow> '' '' @ seq_match_display d)) @ '')''"

section \<open>Vanished messages\<close>

record vanished_response =
  vr_uids :: uid_set
  vr_earlier :: bool

definition vanished_to_imap :: "vanished_response \<Rightarrow> string" where
  "vanished_to_imap v =
     (if vr_earlier v then ''* VANISHED (EARLIER) '' @ uid_set_display (vr_uids v)
      else ''* VANISHED '' @ uid_set_display (vr_uids v))"

text \<open>\<^verbatim>\<open>trim_start_matches\<close> with a string removes it as often as it repeats.\<close>

definition trim_start_matches :: "string \<Rightarrow> string \<Rightarrow> string" where
  "trim_start_matches p s = strip_words [p] s"

definition vanished_parse :: "string \<Rightarrow> qresync_error + vanished_response" where
  "vanished_parse line0 =
     (let line1 = trim line0 in
      if \<not> starts_with line1 ''* VANISHED'' \<and> \<not> starts_with line1 ''VANISHED''
      then Inl (InvalidVanishedResponse line1)
      else
        (let line = trim (trim_start_matches ''VANISHED'' (trim_start_matches ''* '' line1));
             (earlier, uid_str) = (if starts_with line ''(EARLIER)''
                                   then (True, trim (trim_start_matches ''(EARLIER)'' line)) else (False, line))
         in rbind (uid_set_parse uid_str) (\<lambda>uids. Inr \<lparr>vr_uids = uids, vr_earlier = earlier\<rparr>)))"

record qresync_logic =
  ql_uidvalidity :: nat
  ql_highest_modseq :: mod_seq

definition validate_params :: "qresync_logic \<Rightarrow> qresync_params \<Rightarrow> qresync_error + unit" where
  "validate_params l p =
     (if qp_uidvalidity p \<noteq> ql_uidvalidity l
      then Inl (UidValidityMismatch (qp_uidvalidity p) (ql_uidvalidity l)) else Inr ())"

fun vanished_in :: "nat list \<Rightarrow> uid_range \<Rightarrow> nat list" where
  "vanished_in current (Single uid) = (if uid \<in> set current then [] else [uid])"
| "vanished_in current (Range start end') = filter (\<lambda>u. u \<notin> set current) [start..<Suc end']"
| "vanished_in current (RangeToMax start) =
     filter (\<lambda>u. u \<notin> set current) [start..<Suc (if current = [] then start else Max (set current))]"

definition find_vanished_uids :: "uid_set \<Rightarrow> nat list \<Rightarrow> nat list" where
  "find_vanished_uids known current = sort (concat (map (vanished_in current) known))"

definition push_range :: "nat \<Rightarrow> nat \<Rightarrow> uid_range" where
  "push_range range_start range_end = (if range_start = range_end then Single range_start else Range range_start range_end)"

fun compress_loop :: "nat \<Rightarrow> nat \<Rightarrow> nat list \<Rightarrow> uid_range list" where
  "compress_loop range_start range_end [] = [push_range range_start range_end]"
| "compress_loop range_start range_end (uid # uids) =
     (if uid = range_end + 1 then compress_loop range_start uid uids
      else push_range range_start range_end # compress_loop uid uid uids)"

definition compress_to_ranges :: "nat list \<Rightarrow> uid_range list" where
  "compress_to_ranges uids0 =
     (case remdups_adj (sort uids0) of [] \<Rightarrow> [] | u # us \<Rightarrow> compress_loop u u us)"

definition create_vanished_response :: "nat list \<Rightarrow> bool \<Rightarrow> vanished_response option" where
  "create_vanished_response vanished_uids earlier =
     (if vanished_uids = [] then None
      else Some \<lparr>vr_uids = compress_to_ranges vanished_uids, vr_earlier = earlier\<rparr>)"

definition needs_resync :: "qresync_logic \<Rightarrow> mod_seq \<Rightarrow> bool" where
  "needs_resync l client_modseq \<longleftrightarrow> mod_seq_value client_modseq < mod_seq_value (ql_highest_modseq l)"

section \<open>Compression into ranges\<close>

lemma push_range_contains [simp]: "range_contains (push_range a b) u \<longleftrightarrow> a \<le> u \<and> u \<le> b"
  by (auto simp: push_range_def)

lemma compress_loop_contains:
  "a \<le> b \<Longrightarrow> uid_set_contains (compress_loop a b uids) u \<longleftrightarrow> a \<le> u \<and> u \<le> b \<or> u \<in> set uids"
proof (induction a b uids rule: compress_loop.induct)
  case (1 a b)
  then show ?case by (simp add: uid_set_contains_def)
next
  case (2 a b uid uids)
  show ?case
  proof (cases "uid = b + 1")
    case True
    with 2 show ?thesis by auto
  next
    case False
    with 2 show ?thesis by (auto simp: uid_set_contains_def)
  qed
qed

lemma compress_contains: "uid_set_contains (compress_to_ranges uids) u \<longleftrightarrow> u \<in> set uids"
proof -
  have same: "set (remdups_adj (sort uids)) = set uids" by simp
  show ?thesis
  proof (cases "remdups_adj (sort uids)")
    case Nil
    with same show ?thesis by (simp add: compress_to_ranges_def uid_set_contains_def)
  next
    case (Cons v vs)
    then have "uid_set_contains (compress_to_ranges uids) u \<longleftrightarrow> u \<in> set (v # vs)"
      using compress_loop_contains [of v v vs u] by (auto simp: compress_to_ranges_def)
    with same Cons show ?thesis by metis
  qed
qed

text \<open>The sorted list without repetitions that the loop reads increases strictly, so that the addition in
  its test never passes the UID it is compared with.\<close>

lemma strictly_sorted_dedup: "sorted_wrt (<) (remdups_adj (sort (uids :: nat list)))"
proof -
  have "sorted xs \<Longrightarrow> sorted_wrt (<) (remdups_adj xs)" for xs :: "nat list"
    by (induction xs rule: remdups_adj.induct) force+
  then show ?thesis by simp
qed

fun range_low :: "uid_range \<Rightarrow> nat" where
  "range_low (Single u) = u"
| "range_low (Range a b) = a"
| "range_low (RangeToMax a) = a"

fun range_high :: "uid_range \<Rightarrow> nat" where
  "range_high (Single u) = u"
| "range_high (Range a b) = b"
| "range_high (RangeToMax a) = a"

lemma push_range_ends [simp]: "range_low (push_range a b) = a" "range_high (push_range a b) = b"
  by (auto simp: push_range_def)

lemma compress_loop_low: "a \<le> b \<Longrightarrow> sorted_wrt (<) (b # uids) \<Longrightarrow> r \<in> set (compress_loop a b uids) \<Longrightarrow> a \<le> range_low r"
proof (induction a b uids rule: compress_loop.induct)
  case (2 a b uid uids)
  then show ?case by (cases "uid = b + 1") force+
qed simp

lemma compress_loop_gaps:
  "a \<le> b \<Longrightarrow> sorted_wrt (<) (b # uids) \<Longrightarrow>
     sorted_wrt (\<lambda>r s. range_high r + 1 < range_low s) (compress_loop a b uids)"
proof (induction a b uids rule: compress_loop.induct)
  case (2 a b uid uids)
  show ?case
  proof (cases "uid = b + 1")
    case True
    with 2 show ?thesis by auto
  next
    case False
    with "2.prems" have "b + 1 < uid" by auto
    moreover have "uid \<le> range_low r" if "r \<in> set (compress_loop uid uid uids)" for r
      using compress_loop_low [OF _ _ that] "2.prems" by auto
    ultimately show ?thesis using False "2.IH"(2) "2.prems" by fastforce
  qed
qed simp

lemma compress_gaps: "sorted_wrt (\<lambda>r s. range_high r + 1 < range_low s) (compress_to_ranges uids)"
  using strictly_sorted_dedup [of uids] compress_loop_gaps [OF order_refl]
  by (cases "remdups_adj (sort uids)") (simp_all add: compress_to_ranges_def)

section \<open>Text forms\<close>

fun wf_range :: "uid_range \<Rightarrow> bool" where
  "wf_range (Single u) \<longleftrightarrow> u \<le> u32_max"
| "wf_range (Range a b) \<longleftrightarrow> a \<le> b \<and> b \<le> u32_max"
| "wf_range (RangeToMax a) \<longleftrightarrow> a \<le> u32_max"

fun closed_range :: "uid_range \<Rightarrow> bool" where
  "closed_range (RangeToMax a) = False"
| "closed_range _ = True"

lemma show_nat_set: "c \<in> set (show_nat n) \<Longrightarrow> is_ascii_digit c"
  using show_nat_digits [of n] by (auto simp: list_all_iff)

lemma show_nat_chars: "CHR '':'' \<notin> set (show_nat n)" "CHR '','' \<notin> set (show_nat n)" "CHR ''*'' \<notin> set (show_nat n)"
  by (auto dest!: show_nat_set simp: is_ascii_digit_def)

lemma uid_not_star: "show_nat n \<noteq> ''*''"
  using show_nat_chars(3) [of n] by auto

lemma uid_range_roundtrip: "wf_range r \<Longrightarrow> uid_range_parse (uid_range_display r) = Inr r"
proof (cases r)
  case (Range a b)
  moreover have "split_on (CHR '':'') (show_nat a @ '':'' @ show_nat b) = [show_nat a, show_nat b]"
    by (simp add: split_on_append_sep split_on_no_sep show_nat_chars)
  ultimately show "wf_range r \<Longrightarrow> ?thesis"
    by (simp add: uid_range_parse_def range_number_def parse_uint_show_nat ok_or_def rbind_def uid_not_star)
next
  case (RangeToMax a)
  moreover have "split_on (CHR '':'') (show_nat a @ '':*'') = [show_nat a, ''*'']"
    by (simp add: split_on_append_sep show_nat_chars)
  ultimately show "wf_range r \<Longrightarrow> ?thesis"
    by (simp add: uid_range_parse_def range_number_def parse_uint_show_nat ok_or_def rbind_def)
qed (simp add: uid_range_parse_def range_number_def parse_uint_show_nat ok_or_def rbind_def show_nat_chars)

lemma range_display_chars: "c \<in> set (uid_range_display r) \<Longrightarrow> is_ascii_digit c \<or> c = CHR '':'' \<or> c = CHR ''*''"
  by (cases r) (auto dest: show_nat_set)

lemma range_display_no_comma: "CHR '','' \<notin> set (uid_range_display r)"
  using range_display_chars [of "CHR '',''" r] by (auto simp: is_ascii_digit_def)

lemma split_display: "rs \<noteq> [] \<Longrightarrow> split_on (CHR '','') (uid_set_display rs) = map uid_range_display rs"
proof (induction rs)
  case (Cons r rs)
  then show ?case
    by (cases "rs = []")
      (simp_all add: uid_set_display_def str_join_Cons split_on_no_sep split_on_append_sep range_display_no_comma)
qed simp

lemma uid_set_roundtrip:
  assumes "rs \<noteq> []" "list_all wf_range rs"
  shows "uid_set_parse (uid_set_display rs) = Inr rs"
proof -
  have "parse_ranges (map uid_range_display rs) = Inr rs"
    using assms(2) by (induction rs) (simp_all add: uid_range_roundtrip rbind_def)
  with assms(1) show ?thesis by (simp add: uid_set_parse_def split_display rbind_def)
qed


lemma parse_ranges_wf: "parse_ranges ps = Inr rs \<Longrightarrow> list_all wf_range rs"
proof (induction ps arbitrary: rs)
  case (Cons p ps)
  have "wf_range r" if "uid_range_parse p = Inr r" for r
    using that
    by (auto simp: uid_range_parse_def range_number_def ok_or_def rbind_def
        split: if_splits list.splits sum.splits option.splits dest!: parse_uint_bound)
  with Cons show ?case by (auto simp: rbind_def split: sum.splits)
qed simp

lemma uid_set_parse_wf: "uid_set_parse s = Inr rs \<Longrightarrow> rs \<noteq> [] \<and> list_all wf_range rs"
  by (auto simp: uid_set_parse_def rbind_def split: sum.splits if_splits dest: parse_ranges_wf)

lemma range_display_ends:
  "uid_range_display r \<noteq> []" "is_ascii_digit (hd (uid_range_display r))" "is_graphic (last (uid_range_display r))"
proof -
  have d: "is_ascii_digit (hd (show_nat n))" "is_ascii_digit (last (show_nat n))" for n
    using show_nat_set [of "hd (show_nat n)" n] show_nat_set [of "last (show_nat n)" n] by simp_all
  have g: "is_ascii_digit c \<Longrightarrow> is_graphic c" for c by (auto simp: is_ascii_digit_def is_graphic_def)
  show "uid_range_display r \<noteq> []" "is_ascii_digit (hd (uid_range_display r))" "is_graphic (last (uid_range_display r))"
    by (cases r; simp add: d g hd_append is_graphic_def [of "CHR ''*''"])+
qed

lemma set_display_ends:
  assumes "rs \<noteq> []"
  shows "uid_set_display rs \<noteq> []" "is_ascii_digit (hd (uid_set_display rs))" "is_graphic (last (uid_set_display rs))"
proof -
  obtain r rs' where rs: "rs = r # rs'" using assms by (cases rs) auto
  then show "uid_set_display rs \<noteq> []" "is_ascii_digit (hd (uid_set_display rs))"
    using range_display_ends [of r] by (auto simp: uid_set_display_def str_join_Cons hd_append)
  show "is_graphic (last (uid_set_display rs))"
    using assms
  proof (induction rs)
    case (Cons a as)
    have "str_join '','' (map uid_range_display as) \<noteq> []" if "as \<noteq> []"
      using that range_display_ends(1) by (cases as) (auto simp: str_join_Cons)
    with Cons show ?case
      using range_display_ends [of a] by (auto simp: uid_set_display_def str_join_Cons)
  qed simp
qed

lemma set_display_trim: "rs \<noteq> [] \<Longrightarrow> trim (uid_set_display rs) = uid_set_display rs"
  using set_display_ends [of rs] by (intro trim_graphic) (auto simp: is_ascii_digit_def is_graphic_def)

lemma strip_one: "w \<noteq> [] \<Longrightarrow> \<not> starts_with s w \<Longrightarrow> trim_start_matches w (w @ s) = s"
proof -
  assume w: "w \<noteq> []" "\<not> starts_with s w"
  have "strip_words [w] s = s" by (rule strip_words_fixed) (simp add: w(2))
  moreover have "starts_with (w @ s) w" by (auto simp: starts_with_iff)
  ultimately show ?thesis
    using w(1) by (simp add: trim_start_matches_def strip_words.simps [of "[w]" "w @ s"])
qed

lemma vanished_roundtrip:
  assumes "vr_uids v \<noteq> []" "list_all wf_range (vr_uids v)"
  shows "vanished_parse (vanished_to_imap v) = Inr v"
proof -
  let ?u = "uid_set_display (vr_uids v)"
  note ends = set_display_ends [OF assms(1)]
  have g: "is_graphic (CHR ''*'')" by (simp add: is_graphic_def)
  have u: "\<not> starts_with ?u (CHR ''('' # w)" for w
    using ends(1,2) by (cases ?u) (auto simp: is_ascii_digit_def)
  have plain: "trim (''* VANISHED '' @ ?u) = ''* VANISHED '' @ ?u" "trim (''* VANISHED (EARLIER) '' @ ?u) = ''* VANISHED (EARLIER) '' @ ?u"
    using ends g by (intro trim_graphic; simp)+
  have star: "trim_start_matches ''* '' (''* '' @ ''VANISHED'' @ s) = ''VANISHED'' @ s" for s
    by (rule strip_one) simp_all
  have word: "trim_start_matches ''VANISHED'' (''VANISHED'' @ CHR '' '' # s) = CHR '' '' # s" for s
    by (rule strip_one) simp_all
  have early: "trim_start_matches ''(EARLIER)'' (''(EARLIER)'' @ CHR '' '' # ?u) = CHR '' '' # ?u"
    by (rule strip_one) simp_all
  have rest: "trim (''(EARLIER) '' @ ?u) = ''(EARLIER) '' @ ?u"
    using ends by (intro trim_graphic) (simp_all add: is_graphic_def)
  show ?thesis
    using plain star [of "'' '' @ ?u"] star [of "'' (EARLIER) '' @ ?u"] word [of ?u] word [of "''(EARLIER) '' @ ?u"] early rest u
      uid_set_roundtrip [OF assms]
    by (cases "vr_earlier v")
      (simp_all add: vanished_to_imap_def vanished_parse_def Let_def trim_space set_display_trim [OF assms(1)] rbind_def)
qed

section \<open>What vanished\<close>

lemma vanished_in_closed:
  "closed_range r \<Longrightarrow> u \<in> set (vanished_in current r) \<longleftrightarrow> range_contains r u \<and> u \<notin> set current"
  by (cases r) auto

lemma find_vanished_closed:
  "list_all closed_range known \<Longrightarrow>
     u \<in> set (find_vanished_uids known current) \<longleftrightarrow> uid_set_contains known u \<and> u \<notin> set current"
  by (auto simp: find_vanished_uids_def uid_set_contains_def list_all_iff list_ex_iff vanished_in_closed)

lemma compress_loop_wf:
  "a \<le> b \<Longrightarrow> sorted_wrt (<) (b # uids) \<Longrightarrow> b \<le> u32_max \<Longrightarrow> (\<And>u. u \<in> set uids \<Longrightarrow> u \<le> u32_max) \<Longrightarrow>
     list_all wf_range (compress_loop a b uids)"
proof (induction a b uids rule: compress_loop.induct)
  case (2 a b uid uids)
  then show ?case by (cases "uid = b + 1") (auto simp: push_range_def)
qed (simp add: push_range_def)

lemma compress_wf:
  assumes "\<And>u. u \<in> set uids \<Longrightarrow> u \<le> u32_max"
  shows "list_all wf_range (compress_to_ranges uids)"
proof (cases "remdups_adj (sort uids)")
  case (Cons v vs)
  have "set (v # vs) = set uids" using Cons by (metis remdups_adj_set set_sort)
  then have "list_all wf_range (compress_loop v v vs)"
    using Cons strictly_sorted_dedup [of uids] assms by (intro compress_loop_wf) auto
  with Cons show ?thesis by (simp add: compress_to_ranges_def)
qed (simp add: compress_to_ranges_def)

lemma compress_nonempty: "uids \<noteq> [] \<Longrightarrow> compress_to_ranges uids \<noteq> []"
  using compress_contains [of uids "hd uids"] by (auto simp: uid_set_contains_def)


text \<open>C28: A client that resynchronises learns exactly what it lost.  For known UIDs given without an open range,
  the server sends no response only if the mailbox still has all of them; otherwise the line it sends is
  parsed as the same response, which covers a UID exactly if the client knows it and the mailbox has lost it,
  in ranges that ascend and cannot be joined.\<close>

theorem vanished_reported_exactly:
  assumes "uid_set_parse s = Inr known" "list_all closed_range known"
  shows "case create_vanished_response (find_vanished_uids known current) earlier of
      None \<Rightarrow> (\<forall>u. uid_set_contains known u \<longrightarrow> u \<in> set current)
    | Some v \<Rightarrow> vanished_parse (vanished_to_imap v) = Inr v \<and> vr_earlier v = earlier \<and>
        (\<forall>u. uid_set_contains (vr_uids v) u \<longleftrightarrow> uid_set_contains known u \<and> u \<notin> set current) \<and>
        sorted_wrt (\<lambda>r s. range_high r + 1 < range_low s) (vr_uids v)"
proof (cases "find_vanished_uids known current = []")
  case True
  then show ?thesis
    using find_vanished_closed [OF assms(2), of _ current] by (simp add: create_vanished_response_def)
next
  case False
  let ?vs = "find_vanished_uids known current"
  have "u \<le> u32_max" if u: "u \<in> set ?vs" for u
  proof -
    obtain r where "r \<in> set known" "range_contains r u"
      using u find_vanished_closed [OF assms(2)] by (auto simp: uid_set_contains_def list_ex_iff)
    with assms(2) uid_set_parse_wf [OF assms(1)] show ?thesis
      by (cases r) (auto simp: list_all_iff)
  qed
  then have "list_all wf_range (compress_to_ranges ?vs)" by (rule compress_wf)
  with False show ?thesis
    by (simp add: create_vanished_response_def vanished_roundtrip compress_nonempty compress_contains compress_gaps [simplified]
        find_vanished_closed [OF assms(2)])
qed

theorem vanished_reported_exactly_witness:
  "uid_set_parse ''1:5,9,7:8'' = Inr [Range 1 5, Single 9, Range 7 8] \<and>
   create_vanished_response (find_vanished_uids [Range 1 5, Single 9, Range 7 8] [2, 8, 20]) True =
     Some \<lparr>vr_uids = [Single 1, Range 3 5, Single 7, Single 9], vr_earlier = True\<rparr> \<and>
   vanished_parse ''* VANISHED (EARLIER) 1,3:5,7,9'' = Inr \<lparr>vr_uids = [Single 1, Range 3 5, Single 7, Single 9], vr_earlier = True\<rparr>"
proof -
  have p: "uid_set_parse ''1:5,9,7:8'' = Inr [Range 1 5, Single 9, Range 7 8]" by code_simp
  have c: "create_vanished_response (find_vanished_uids [Range 1 5, Single 9, Range 7 8] [2, 8, 20]) True =
     Some \<lparr>vr_uids = [Single 1, Range 3 5, Single 7, Single 9], vr_earlier = True\<rparr>" by code_simp
  have "vanished_to_imap \<lparr>vr_uids = [Single 1, Range 3 5, Single 7, Single 9], vr_earlier = True\<rparr> = ''* VANISHED (EARLIER) 1,3:5,7,9''"
    by code_simp
  then show ?thesis
    using vanished_reported_exactly [OF p, of "[2, 8, 20]" True] p c by simp
qed

text \<open>With an open range the search ends at the highest UID that is left: what was expunged above it is not
  reported, and of an empty mailbox only the first UID of the range is.\<close>

theorem open_range_misses_vanished:
  "(current = [] \<longrightarrow> find_vanished_uids [RangeToMax start] current = [start]) \<and>
   (current \<noteq> [] \<longrightarrow>
      (\<forall>u. u \<in> set (find_vanished_uids [RangeToMax start] current) \<longleftrightarrow>
         start \<le> u \<and> u < Max (set current) \<and> u \<notin> set current))"
proof -
  have "u < Max (set current) \<longleftrightarrow> u \<le> Max (set current)" if "u \<notin> set current" "current \<noteq> []" for u
    using that Max_in [of "set current"] by (auto simp: le_less)
  then show ?thesis by (auto simp: find_vanished_uids_def less_Suc_eq_le)
qed


section \<open>Parameters of QRESYNC\<close>

definition wf_params :: "qresync_params \<Rightarrow> bool" where
  "wf_params p \<longleftrightarrow>
     qp_uidvalidity p \<le> u32_max \<and> 0 < mod_seq_value (qp_modseq p) \<and>
     (case qp_known_uids p of None \<Rightarrow> qp_seq_match_data p = None | Some rs \<Rightarrow> rs \<noteq> [] \<and> list_all wf_range rs) \<and>
     (case qp_seq_match_data p of None \<Rightarrow> True | Some ns \<Rightarrow> list_all (\<lambda>n. n \<le> u32_max) ns)"

text \<open>What is left of sequence match data after printing and parsing.\<close>

fun first_seq :: "nat list option \<Rightarrow> nat list option" where
  "first_seq (Some (n # ns)) = Some [n]"
| "first_seq _ = None"

lemma graphic_digits: "is_ascii_digit c \<Longrightarrow> is_graphic c \<and> \<not> is_paren c"
  by (auto simp: is_ascii_digit_def is_graphic_def is_paren_def)

lemma show_nat_word: "list_all is_graphic (show_nat n)" "\<not> is_paren (hd (show_nat n))" "\<not> is_paren (last (show_nat n))"
  using show_nat_set [of "hd (show_nat n)" n] show_nat_set [of "last (show_nat n)" n]
  by (auto simp: list_all_iff dest!: show_nat_set graphic_digits)

lemma uid_set_display_Cons:
  "uid_set_display (r # rs) = uid_range_display r @ (if rs = [] then [] else '','' @ uid_set_display rs)"
  by (simp add: uid_set_display_def str_join_Cons)

lemma set_display_chars: "c \<in> set (uid_set_display rs) \<Longrightarrow> is_graphic c \<and> \<not> is_paren c"
proof (induction rs)
  case (Cons r rs)
  have "is_graphic c \<and> \<not> is_paren c" if "c \<in> set (uid_range_display r)"
    using range_display_chars [OF that] graphic_digits by (auto simp: is_graphic_def is_paren_def)
  moreover have "is_graphic (CHR '','') \<and> \<not> is_paren (CHR '','')" by (simp add: is_graphic_def is_paren_def)
  ultimately show ?case using Cons by (auto simp: uid_set_display_Cons split: if_splits)
qed (simp add: uid_set_display_def str_join_def)

lemma set_display_word: "list_all is_graphic (uid_set_display rs)"
  using set_display_chars by (auto simp: list_all_iff)

lemma set_display_no_paren: "rs \<noteq> [] \<Longrightarrow> \<not> is_paren (last (uid_set_display rs))"
  using set_display_ends(1) [of rs] set_display_chars by (metis last_in_set)

lemma trim_parens_wrapped:
  assumes "s \<noteq> []" "\<not> is_paren (hd s)" "\<not> is_paren (last s)" "list_all is_paren ps"
  shows "trim_parens (CHR ''('' # s @ ps) = s"
proof -
  have "dropWhile is_paren (CHR ''('' # s @ ps) = s @ ps"
    using assms by (cases s) (auto simp: is_paren_def)
  moreover have "dropWhile is_paren (rev ps @ rev s) = rev s"
    using assms by (subst dropWhile_append2) (auto simp: list_all_iff hd_rev dropWhile_eq_self_iff)
  ultimately show ?thesis by (simp add: trim_parens_def)
qed

lemma trim_paren_text: "s \<noteq> [] \<Longrightarrow> trim (''('' @ s @ '')'') = ''('' @ s @ '')''"
  by (rule trim_graphic) (simp_all add: is_graphic_def)

lemma parse_positive: "0 < w \<Longrightarrow> parse_uint usize_max (show_nat (unat w)) = Some (unat (w :: 64 word)) \<and> unat w \<noteq> 0"
proof -
  have "unat w \<le> usize_max" using unsigned_less [of w, where ?'a = nat] by (simp add: usize_max_def)
  then show "0 < w \<Longrightarrow> ?thesis" by (auto simp: parse_uint_show_nat word_gt_0 unat_eq_0)
qed


text \<open>The text between the outer parentheses and the parentheses that are trimmed with them.\<close>

definition params_text :: "qresync_params \<Rightarrow> string" where
  "params_text p =
     show_nat (qp_uidvalidity p) @ '' '' @ mod_seq_display (qp_modseq p) @
     (case qp_known_uids p of
        None \<Rightarrow> []
      | Some uids \<Rightarrow> '' '' @ uid_set_display uids @
          (case qp_seq_match_data p of
             None \<Rightarrow> [] | Some [] \<Rightarrow> '' '' | Some (n # ns) \<Rightarrow> '' ('' @ str_join '' '' (map show_nat (n # ns))))"

lemma join_seqs_last: "last (str_join '' '' (map show_nat (n # ns))) = last (show_nat (last (n # ns)))"
  by (induction ns arbitrary: n) (simp_all add: str_join_Cons [of _ "show_nat _"] str_join_Cons [of _ "show_nat _" "[]"])

lemma join_seqs_nonempty: "str_join '' '' (map show_nat (n # ns)) \<noteq> []"
  by (simp add: str_join_Cons)

lemma split_seqs: "\<exists>rest. split_whitespace (CHR ''('' # str_join '' '' (map show_nat (n # ns))) = (CHR ''('' # show_nat n) # rest"
proof -
  have w: "list_all is_graphic (CHR ''('' # show_nat n)" using show_nat_word(1) [of n] by (simp add: is_graphic_def)
  show ?thesis
    using split_whitespace_word [OF w] split_whitespace_Cons [OF w]
    by (cases ns) (simp_all add: str_join_Cons)
qed

lemma params_text_trim:
  assumes "wf_params p"
  shows "trim_parens (trim (qresync_to_imap_string p)) = params_text p"
proof -
  have t: "trim (qresync_to_imap_string p) = qresync_to_imap_string p"
    unfolding qresync_to_imap_string_def by (rule trim_graphic) (simp_all add: is_graphic_def)
  have "\<exists>ps. qresync_to_imap_string p = CHR ''('' # params_text p @ ps \<and> list_all is_paren ps"
    by (rule exI [of _ "(if qp_known_uids p = None \<or> qp_seq_match_data p = None then '')''
        else if qp_seq_match_data p = Some [] then ''())'' else ''))'')"])
      (auto simp: qresync_to_imap_string_def params_text_def seq_match_display_def is_paren_def str_join_def
        split: option.split list.split)
  then obtain ps where ps: "qresync_to_imap_string p = CHR ''('' # params_text p @ ps" "list_all is_paren ps" by blast
  have hd: "params_text p \<noteq> []" "\<not> is_paren (hd (params_text p))"
    using show_nat_word(2) [of "qp_uidvalidity p"] by (simp_all add: params_text_def hd_append)
  have "\<not> is_paren (last (params_text p))"
  proof (cases "qp_known_uids p")
    case None
    then show ?thesis using show_nat_word(3) by (simp add: params_text_def mod_seq_display_def)
  next
    case (Some rs)
    with assms have "rs \<noteq> []" by (simp add: wf_params_def)
    note fin = set_display_ends(1) [OF this] set_display_no_paren [OF this]
    show ?thesis
    proof (cases "qp_seq_match_data p")
      case None
      with Some fin show ?thesis by (simp add: params_text_def)
    next
      case (Some ns)
      with \<open>qp_known_uids p = Some rs\<close> show ?thesis
        using join_seqs_last join_seqs_nonempty show_nat_word(3)
        by (cases ns) (simp_all add: params_text_def is_paren_def [of "CHR '' ''"] del: list.map)
    qed
  qed
  with hd ps t show ?thesis by (simp add: trim_parens_wrapped)
qed


lemma seq_match_first: "n \<le> u32_max \<Longrightarrow> seq_match_parse (CHR ''('' # show_nat n) = Inr [n]"
proof -
  assume n: "n \<le> u32_max"
  have "trim (CHR ''('' # show_nat n) = CHR ''('' # show_nat n"
    using show_nat_word(1) [of n] by (intro trim_graphic) (auto simp: is_graphic_def list_all_iff)
  moreover have "trim_parens (CHR ''('' # show_nat n) = show_nat n"
    using trim_parens_wrapped [of "show_nat n" "[]"] show_nat_word [of n] by simp
  ultimately show ?thesis
    using n split_whitespace_word [OF show_nat_word(1), of n]
    by (simp add: seq_match_parse_def parse_uint_show_nat ok_or_def rbind_def)
qed

lemma params_parts:
  assumes "wf_params p"
  shows "\<exists>rest. split_whitespace (params_text p) =
    show_nat (qp_uidvalidity p) # mod_seq_display (qp_modseq p) #
    (case qp_known_uids p of
       None \<Rightarrow> []
     | Some rs \<Rightarrow> uid_set_display rs #
         (case qp_seq_match_data p of Some (n # ns) \<Rightarrow> (CHR ''('' # show_nat n) # rest | _ \<Rightarrow> []))"
proof -
  have two: "split_whitespace (show_nat a @ CHR '' '' # show_nat b @ s) = show_nat a # split_whitespace (show_nat b @ s)" for a b s
    by (rule split_whitespace_Cons) (simp_all add: show_nat_word)
  have more: "split_whitespace (show_nat b @ CHR '' '' # s) = show_nat b # split_whitespace s" for b s
    by (rule split_whitespace_Cons) (simp_all add: show_nat_word)
  have one: "split_whitespace (show_nat b) = [show_nat b]" for b
    by (rule split_whitespace_word) (simp_all add: show_nat_word)
  have nil: "split_whitespace [] = []" by (simp add: split_whitespace_def)
  show ?thesis
  proof (cases "qp_known_uids p")
    case None
    then show ?thesis using two [where s = "[]"] one by (simp add: params_text_def mod_seq_display_def)
  next
    case (Some rs)
    with assms have rs: "uid_set_display rs \<noteq> []" by (simp add: wf_params_def set_display_ends(1))
    have u: "split_whitespace (uid_set_display rs @ CHR '' '' # s) = uid_set_display rs # split_whitespace s" for s
      by (rule split_whitespace_Cons [OF set_display_word rs])
    have u1: "split_whitespace (uid_set_display rs) = [uid_set_display rs]"
      by (rule split_whitespace_word [OF set_display_word rs])
    consider "qp_seq_match_data p = None" | "qp_seq_match_data p = Some []" | n ns where "qp_seq_match_data p = Some (n # ns)"
      by (cases "qp_seq_match_data p") (auto, metis list.exhaust)
    then show ?thesis
    proof cases
      case 3
      obtain rest where "split_whitespace (CHR ''('' # str_join '' '' (map show_nat (n # ns))) = (CHR ''('' # show_nat n) # rest"
        using split_seqs by blast
      with 3 Some two more u show ?thesis by (auto simp: params_text_def mod_seq_display_def simp del: list.map)
    qed (use Some two more u u1 u [of "[]"] nil in \<open>simp_all add: params_text_def mod_seq_display_def\<close>)
  qed
qed

text \<open>The parameters of a \<^verbatim>\<open>QRESYNC\<close> are read back as they were printed, except for the sequence match
  data: the parser splits at every blank, so it keeps the first number only and drops the rest, and an empty
  list becomes none.\<close>

theorem qresync_params_reparsed:
  assumes "wf_params p"
  shows "qresync_params_parse (qresync_to_imap_string p) = Inr (p\<lparr>qp_seq_match_data := first_seq (qp_seq_match_data p)\<rparr>)"
proof -
  obtain rest where parts: "split_whitespace (params_text p) =
    show_nat (qp_uidvalidity p) # mod_seq_display (qp_modseq p) #
    (case qp_known_uids p of
       None \<Rightarrow> []
     | Some rs \<Rightarrow> uid_set_display rs #
         (case qp_seq_match_data p of Some (n # ns) \<Rightarrow> (CHR ''('' # show_nat n) # rest | _ \<Rightarrow> []))"
    using params_parts [OF assms] by blast
  obtain w where w: "qp_modseq p = ModSeq w" by (cases "qp_modseq p")
  have num: "parse_uint usize_max (mod_seq_display (qp_modseq p)) = Some (unat w)" "unat w \<noteq> 0"
    "parse_uint u32_max (show_nat (qp_uidvalidity p)) = Some (qp_uidvalidity p)"
    using assms parse_positive [of w] w by (simp_all add: wf_params_def mod_seq_display_def parse_uint_show_nat)
  show ?thesis
  proof (cases "qp_known_uids p")
    case None
    then have "qp_seq_match_data p = None" using assms by (simp add: wf_params_def)
    with None w num parts show ?thesis
      by (simp add: qresync_params_parse_def params_text_trim [OF assms] Let_def ok_or_def rbind_def optional_def nth_part_def)
  next
    case (Some rs)
    then have "uid_set_parse (uid_set_display rs) = Inr rs" using assms by (simp add: wf_params_def uid_set_roundtrip)
    moreover have "seq_match_parse (CHR ''('' # show_nat n) = Inr [n]" if "qp_seq_match_data p = Some (n # ns)" for n ns
      using that assms by (intro seq_match_first) (simp add: wf_params_def)
    ultimately show ?thesis
      using Some w num parts
      by (cases "qp_seq_match_data p" rule: first_seq.cases)
        (simp_all add: qresync_params_parse_def params_text_trim [OF assms] Let_def ok_or_def rbind_def optional_def nth_part_def)
  qed
qed

end
