(* ===== verification/Spec2Isabelle.thy ===== *)
theory Spec2Isabelle
  imports Proto_Mime Pop3_Server Smtp_Server Mail_Queue Relay_Client Sieve_Printer Imap_Facts Imap_Texts Imap_Roundtrip
    Conn_Limits Auth_Security Spf_Check File_Auth Jmap_Vacation Forward_Mailet Bounce_Dsn Imap_Sync
begin

text \<open>
  A model of RusMES, a mail server written in Rust (\<^verbatim>\<open>src/crates\<close>), with the theorems that make
  its components correct.

  \<^bold>\<open>The program.\<close>  A client hands a mail to the SMTP server (\<^verbatim>\<open>rusmes-smtp\<close>): an accept loop opens a
  session per connection, the session parses commands, authenticates, checks relaying, recipients
  and rate limits, receives the message with DATA and hands the mail to the processing pipeline
  (\<^verbatim>\<open>rusmes-core\<close>).  The pipeline's router moves a mail through processors, which are chains of a matcher
  (for which recipients) and a mailet (what to do); mailets add headers, greylist, run Sieve scripts,
  deliver to a mailbox or relay to another server.  Mails that could not be sent wait in the queue,
  which retries with a back-off and moves the hopeless ones to a dead letter queue.  Delivered mail is
  stored by a storage backend (\<^verbatim>\<open>rusmes-storage\<close>), here the maildir tree of the file system backend.  Users collect
  their mail with POP3 (\<^verbatim>\<open>rusmes-pop3\<close>), one session at a time for each maildrop, or with IMAP (\<^verbatim>\<open>rusmes-imap\<close>),
  whose sessions notify each other of changes through a registry of broadcast channels.  The types of addresses,
  messages and MIME parts are in \<^verbatim>\<open>rusmes-proto\<close>, the SASL mechanisms and the password file in \<^verbatim>\<open>rusmes-auth\<close>.
  Web clients use JMAP (\<^verbatim>\<open>rusmes-jmap\<close>), batches of JSON method calls over HTTP.

  \<^bold>\<open>Conventions.\<close>  A Rust \<^verbatim>\<open>String\<close> is the list of its UTF-8 bytes (type \<^typ>\<open>string\<close>), a \<^verbatim>\<open>char\<close> the string of
  its encoding; \<^verbatim>\<open>Result\<close> is a sum with the error on the left; \<^verbatim>\<open>usize\<close> and \<^verbatim>\<open>u64\<close> counters wrap where the
  code adds without a check; a \<^verbatim>\<open>HashMap\<close> is an association list with one entry for each key.  What is
  not in the repository (cryptography, IDNA tables, Unicode lower-casing, the clock, the random
  generator, DNS, the storage and authentication backends, the sockets) is an argument or a field of
  an environment record of the definitions that use it.  A loop that reads until its peer stops is
  either a recursion over the input that arrives or a \<^theory_text>\<open>partial_function (option)\<close> whose value
  \<^term>\<open>None\<close> is not returning.

  \<^bold>\<open>The theories and the code they model.\<close>

  \<^item> \<open>Rusmes_Prelude\<close>: strings, UTF-8, trimming, decimal numbers, 64-bit arithmetic, association lists; the
    parts of the Rust standard library the code uses.
  \<^item> \<open>Proto_Address\<close> (\<^verbatim>\<open>proto/src/address.rs\<close>, \<^verbatim>\<open>error.rs\<close>), \<open>Proto_Mail\<close> (\<^verbatim>\<open>message.rs\<close>, \<^verbatim>\<open>mail.rs\<close>),
    \<open>Proto_Mime\<close> (\<^verbatim>\<open>mime.rs\<close>): addresses print and parse back, a split mail keeps every recipient once,
    base64 and quoted-printable decode what they encode.  \<open>Net_Addr\<close> has the IP addresses of the standard
    library.
  \<^item> \<open>Auth_Sasl\<close> (\<^verbatim>\<open>auth/src/sasl.rs\<close>): PLAIN, LOGIN, CRAM-MD5, SCRAM-SHA-256 and XOAUTH2 as state machines;
    SCRAM succeeds only for a proof that fits the stored key and the nonces of this exchange.
    \<open>Auth_Security\<close> (\<^verbatim>\<open>auth/src/security.rs\<close>): lockouts, login rates, password rules and the audit log;
    how many passwords an attacker can try in a window, and the lockout that wraps to nothing.
    \<open>File_Auth\<close> (\<^verbatim>\<open>auth/src/file.rs\<close>): the backend over a password file; a restart gives the same accounts when their
    names are plain, a name with a line feed forges an account, and a changed password leaves SCRAM with the old one.
  \<^item> \<open>Nom_Parsers\<close>: the combinators of the parser library, as parameters with their documented behaviour
    where the parsers rely on it.  \<open>Pop3_Protocol\<close> and \<open>Smtp_Protocol\<close> (\<^verbatim>\<open>command.rs\<close>, \<^verbatim>\<open>parser.rs\<close>,
    \<^verbatim>\<open>response.rs\<close> of each crate): commands and replies print and parse back.
  \<^item> \<open>Maildrop_Lock\<close>, \<open>Pop3_Session\<close>, \<open>Pop3_Server\<close> (\<^verbatim>\<open>pop3/src/maildrop_lock.rs\<close>, \<^verbatim>\<open>session.rs\<close>, \<^verbatim>\<open>server.rs\<close>): the
    handlers, and interleaved sessions as a step relation over the shared lock table; no two sessions
    have the same maildrop open, a session deletes at QUIT what it marked and nothing before.
  \<^item> \<open>Rate_Limit\<close> (\<^verbatim>\<open>core/src/rate_limit.rs\<close>), \<open>Smtp_Bdat\<close>, \<open>Smtp_Session\<close>, \<open>Smtp_Data\<close>, \<open>Smtp_Server\<close>
    (\<^verbatim>\<open>smtp/src/bdat.rs\<close>, \<^verbatim>\<open>session/mod.rs\<close>, \<^verbatim>\<open>auth.rs\<close>, \<^verbatim>\<open>session/data.rs\<close>, \<^verbatim>\<open>server.rs\<close>): every command handler, the
    receiver of the message with its limits and its spill file, and the server as a step relation over
    its connections; nothing is accepted for a recipient whose relaying is not permitted, and what DATA
    delivers is what the client sent.  \<open>Conn_Limits\<close> (\<^verbatim>\<open>server/src/connection_limits.rs\<close>): the limits on open
    connections hold after every sequence of operations, and the books agree with each other.
  \<^item> \<open>Queue_Priority\<close>, \<open>Mail_Queue\<close> (\<^verbatim>\<open>core/src/queue/priority.rs\<close>, \<^verbatim>\<open>core.rs\<close>): the multi-level queue refines a
    stable sort by priority; the retry schedule; no operation loses a mail, with its exceptions.
  \<^item> \<open>Mail_Matchers\<close>, \<open>Mail_Processor\<close>, \<open>Mailets\<close> (\<^verbatim>\<open>core/src/matcher.rs\<close>, \<^verbatim>\<open>matchers/\<close>, \<^verbatim>\<open>mailet.rs\<close>, \<^verbatim>\<open>processor.rs\<close>,
    \<^verbatim>\<open>router.rs\<close>, \<^verbatim>\<open>mailets/add_header.rs\<close>, \<^verbatim>\<open>remove_mime_header.rs\<close>, \<^verbatim>\<open>greylist.rs\<close>, \<^verbatim>\<open>local_delivery.rs\<close>): matchers
    decide boolean conditions, the error policies, when the router returns and when it does not.
    \<open>Spf_Check\<close> (\<^verbatim>\<open>mailets/spf_check.rs\<close>): SPF records and their evaluation over a DNS resolver; the first
    matching mechanism decides, address lookups are bounded, included records are not.
    \<open>Forward_Mailet\<close> (\<^verbatim>\<open>mailets/forward.rs\<close>): forwarding is loop free inside the server, whatever its rules, and not
    between servers.  \<open>Bounce_Dsn\<close> (\<^verbatim>\<open>core/src/dsn.rs\<close>, \<^verbatim>\<open>mailets/bounce.rs\<close>): status codes print and parse back, the parts
    of a bounce report agree with each other, where its delimiters are, and when the mailet panics.
  \<^item> \<open>Relay_Client\<close> (\<^verbatim>\<open>mailets/remote_delivery.rs\<close>): the SMTP conversation with a relay; composed with the
    receiver of \<open>Smtp_Data\<close>, a message arrives as it was sent unless it has a line with a lone dot.
  \<^item> \<open>Sieve_Script\<close>, \<open>Sieve_Parser\<close>, \<open>Sieve_Printer\<close> (\<^verbatim>\<open>core/src/sieve/interpreter.rs\<close>, \<^verbatim>\<open>parser.rs\<close>,
    \<^verbatim>\<open>mailets/sieve.rs\<close>): the wildcard matcher against its denotation, execution always decides, the parser
    terminates and reads back every printed ASCII script.
  \<^item> \<open>Storage_Types\<close> (\<^verbatim>\<open>storage/src/types.rs\<close>, \<^verbatim>\<open>traits.rs\<close>, \<^verbatim>\<open>modseq.rs\<close>): mailboxes, flags, metadata, quotas, and the
    store traits as a record of operations.  \<open>Threading\<close>, \<open>Maildir_Store\<close>, \<open>Maildir_Facts\<close>
    (\<^verbatim>\<open>storage/src/backends/filesystem/\<close>): the backend over an explicit directory tree with failing system calls;
    what a delivery changes, that it survives a restart, and that listings do not find the identity of
    their messages again.
  \<^item> \<open>Imap_Protocol\<close>, \<open>Imap_Roundtrip\<close> (\<^verbatim>\<open>imap/src/command.rs\<close>, \<^verbatim>\<open>parser.rs\<close>, \<^verbatim>\<open>response.rs\<close>), \<open>Imap_Registry\<close>
    (\<^verbatim>\<open>mailbox_registry.rs\<close>), \<open>Imap_Session\<close> (\<^verbatim>\<open>session.rs\<close>, \<^verbatim>\<open>handler*.rs\<close>), \<open>Imap_Server\<close> (\<^verbatim>\<open>server.rs\<close>,
    \<^verbatim>\<open>mailbox_watcher.rs\<close>, \<^verbatim>\<open>config.rs\<close>): every handler over every storage backend, connections as a step
    relation with IDLE and literals.  \<open>Imap_Facts\<close>: connections stay well formed, an anonymous connection
    neither changes nor learns anything of the store, EXPUNGE removes the deleted messages and tells the
    other sessions; with the file system backend it removes nothing.  \<open>Imap_Texts\<close>: mailbox patterns and
    message sets against their denotations, literals.  \<open>Imap_Sync\<close> (\<^verbatim>\<open>condstore.rs\<close>, \<^verbatim>\<open>qresync.rs\<close>): the modifiers,
    parameters and responses of resynchronisation; a client learns exactly which of its messages vanished.
  \<^item> \<open>Jmap_Api\<close> (\<^verbatim>\<open>jmap/src/types.rs\<close>, \<^verbatim>\<open>auth.rs\<close>, \<^verbatim>\<open>api.rs\<close>, \<^verbatim>\<open>back_reference.rs\<close>, \<^verbatim>\<open>methods/mod.rs\<close>): authentication, the
    loop over the calls of a request with references to earlier results, the dispatcher; the methods act for the
    authenticated user only and every call is answered.  \<open>Jmap_Identity\<close> and \<open>Jmap_Vacation\<close>
    (\<^verbatim>\<open>methods/identity.rs\<close>, \<^verbatim>\<open>vacation.rs\<close>): the file stores and methods of identities and vacation responses;
    identities change for their owner only, and the default identity stays.

  \<^bold>\<open>Interfaces.\<close>  What components promise each other is stated as locales, interpreted on the model's own
  definitions: \<open>invariant_machine\<close> (a step relation that keeps an invariant: the POP3 and the SMTP server),
  \<open>exclusive_lock\<close> (the maildrop lock manager), \<open>quota\<close> (the message buckets and the connection counters),
  \<open>stable_queue\<close> (the multi-level queue), \<open>recipient_matcher\<close> and \<open>recipient_mailet\<close> (what the processor relies
  on: the matchers, and six mailets), \<open>nom_laws\<close> (the documented combinators of the parser library),
  \<open>account_scoped\<close>, \<open>account_method\<close> and \<open>account_api\<close> (JMAP methods that keep to the accounts of their caller: the
  methods on identities, and the dispatcher over them), \<open>broadcast_laws\<close> (the documented behaviour of a broadcast channel; one queue for each receiver is an instance).

  \<^bold>\<open>Bounds.\<close>  The recursive-descent parser of Sieve takes a bound on the depth of its calls; two for each
  character and three more are enough, which is a theorem.  The router's rounds and the relay's
  replies have no bound in the code and none in the model.

  \<^bold>\<open>Not modelled.\<close>  The sockets, TLS, DEFLATE, the system calls and the databases below the storage traits (I/O); the
  JSON formats; the remaining mailets that call external services (virus and spam scanners, DNS lists, DKIM and
  DMARC verification); AUTHENTICATE and SPECIAL-USE of IMAP, which the server loop does not call; the JMAP methods on
  mails, mailboxes, submissions and threads, which are parameters of the dispatcher; the search index, configuration files, metrics, the command line tools and the process setup.
\<close>

end
